(* ===== verification/Chain_Prelude.thy ===== *)
theory Chain_Prelude
  imports Main "HOL-Library.Word" "HOL-Library.AList"
begin

text \<open>
  Shared vocabulary of the development.

  The chain library reports every failure with an exception of the \<open>fc\<close> library; here an
  operation that may throw returns a value of \<open>'a res\<close>, with the exception on the left.
  \<open>bindE\<close> is the sequencing of two statements (the second is not reached when the first
  throws) and \<open>assertE\<close> is the macro \<open>FC_ASSERT\<close>.

  The integer class \<open>fc::safe\<close>, the base of \<open>share_type\<close>, is not part of the repository:
  it lives in the \<open>fc\<close> submodule. Its documented behaviour is that an operation returns the
  exact result or throws on overflow. The set of results it accepts is the parameter
  \<open>fc_safe\<close> of the record \<open>fc_env\<close>, and every definition that computes on shares takes
  that record, which also holds the conversion of a 128-bit value to 64 bits (exact on values
  that fit); \<open>fc_contract\<close> states the documented behaviour.
\<close>

subsection \<open>Collections of rewrite rules\<close>

named_theorems res_simps \<open>inversion rules for computations that may throw\<close>
named_theorems chain_defs \<open>small accessors that proofs unfold\<close>

subsection \<open>Exceptions as values\<close>

datatype fc_exception =
    Assert_exception string
  | Overflow_exception
  | Key_not_found
  | Bad_cast
  | Black_swan_exception
  | Insufficient_feeds
  | Margin_call_unfilled
  | Unlinkable_block
  | Tx_missing_other_auth
  | Tx_missing_active_auth
  | Tx_missing_owner_auth
  | Tx_irrelevant_sig
  | Tx_duplicate_sig
  | Invalid_committee_approval
  | Undo_database_exception
  | Pop_empty_chain
  | Undefined_behaviour

type_synonym 'a res = "fc_exception + 'a"

definition bindE :: "'a res \<Rightarrow> ('a \<Rightarrow> 'b res) \<Rightarrow> 'b res" where
  "bindE m f = (case m of Inl e \<Rightarrow> Inl e | Inr x \<Rightarrow> f x)"

definition assertE :: "bool \<Rightarrow> string \<Rightarrow> unit res" where
  "assertE b msg = (if b then Inr () else Inl (Assert_exception msg))"

definition throwE :: "fc_exception \<Rightarrow> 'a res" where
  "throwE e = Inl e"

definition getE :: "('k \<rightharpoonup> 'v) \<Rightarrow> 'k \<Rightarrow> 'v res" where
  "getE m k = (case m k of None \<Rightarrow> Inl Key_not_found | Some v \<Rightarrow> Inr v)"

lemma bindE_Inl [simp]: "bindE (Inl e) f = Inl e"
  by (simp add: bindE_def)

lemma bindE_Inr [simp]: "bindE (Inr x) f = f x"
  by (simp add: bindE_def)

lemma bindE_cong [fundef_cong]:
  "m = m' \<Longrightarrow> (\<And>x. m' = Inr x \<Longrightarrow> f x = f' x) \<Longrightarrow> bindE m f = bindE m' f'"
  by (cases m') (simp_all add: bindE_def)

lemma bindE_eq_Inr [res_simps]:
  "bindE m f = Inr y \<longleftrightarrow> (\<exists>x. m = Inr x \<and> f x = Inr y)"
  by (cases m) simp_all

lemma bindE_eq_Inl [res_simps]:
  "bindE m f = Inl e \<longleftrightarrow> m = Inl e \<or> (\<exists>x. m = Inr x \<and> f x = Inl e)"
  by (cases m) simp_all

lemma assertE_eq_Inr [res_simps]: "assertE b msg = Inr u \<longleftrightarrow> b"
  by (simp add: assertE_def)

lemma assertE_eq_Inl [res_simps]: "assertE b msg = Inl e \<longleftrightarrow> \<not> b \<and> e = Assert_exception msg"
  by (auto simp: assertE_def)

lemma assertE_True [simp]: "b \<Longrightarrow> assertE b msg = Inr ()"
  by (simp add: assertE_def)

lemma throwE_not_Inr [res_simps]: "throwE e = Inr x \<longleftrightarrow> False"
  by (simp add: throwE_def)

lemma getE_eq_Inr [res_simps]: "getE m k = Inr v \<longleftrightarrow> m k = Some v"
  by (simp add: getE_def split: option.split)

lemma getE_Some [simp]: "m k = Some v \<Longrightarrow> getE m k = Inr v"
  by (simp add: getE_def)

text \<open>A loop over a container that throws as soon as one iteration does.\<close>

fun foldE :: "('a \<Rightarrow> 's \<Rightarrow> 's res) \<Rightarrow> 'a list \<Rightarrow> 's \<Rightarrow> 's res" where
  "foldE f [] s = Inr s"
| "foldE f (x # xs) s = bindE (f x s) (foldE f xs)"

lemma foldE_invariant:
  assumes "foldE f xs s = Inr t" and "P s"
    and "\<And>x u v. x \<in> set xs \<Longrightarrow> P u \<Longrightarrow> f x u = Inr v \<Longrightarrow> P v"
  shows "P t"
  using assms
proof (induction xs arbitrary: s)
  case Nil
  then show ?case by simp
next
  case (Cons x xs)
  from Cons.prems(1) obtain v where v: "f x s = Inr v" "foldE f xs v = Inr t"
    by (auto simp: res_simps)
  have "P v" by (rule Cons.prems(3) [OF _ Cons.prems(2) v(1)]) simp
  then show ?case
    by (rule Cons.IH [OF v(2)]) (blast intro: Cons.prems(3) list.set_intros(2))
qed

lemma foldE_all:
  assumes "foldE f xs s = Inr t" and "I s"
    and "\<And>x u v. x \<in> set xs \<Longrightarrow> I u \<Longrightarrow> f x u = Inr v \<Longrightarrow> I v \<and> Q x"
  shows "I t \<and> (\<forall>x\<in>set xs. Q x)"
  using assms
proof (induction xs arbitrary: s)
  case (Cons x xs)
  from Cons.prems(1) obtain v where v: "f x s = Inr v" "foldE f xs v = Inr t"
    by (auto simp: res_simps)
  have "I v \<and> Q x" using Cons.prems(3) [OF _ Cons.prems(2) v(1)] by simp
  moreover have "I t \<and> (\<forall>x\<in>set xs. Q x)" if "I v"
    using Cons.IH [OF v(2) that] Cons.prems(3) by (meson list.set_intros(2))
  ultimately show ?case by simp
qed simp

lemma foldE_append: "foldE f (xs @ ys) s = bindE (foldE f xs s) (foldE f ys)"
proof (induction xs arbitrary: s)
  case (Cons x xs)
  then show ?case by (cases "f x s") simp_all
qed simp

subsection \<open>Computations that keep their state when they throw\<close>

text \<open>
  Where a handler catches an exception and goes on with the state the failed statement left
  behind, a computation returns its outcome together with that state.
\<close>

type_synonym ('s, 'a) action = "'s \<Rightarrow> 'a res \<times> 's"

definition bindS :: "('s, 'a) action \<Rightarrow> ('a \<Rightarrow> ('s, 'b) action) \<Rightarrow> ('s, 'b) action" where
  "bindS m f s = (case m s of (Inl e, t) \<Rightarrow> (Inl e, t) | (Inr x, t) \<Rightarrow> f x t)"

definition returnS :: "'a \<Rightarrow> ('s, 'a) action" where
  "returnS x s = (Inr x, s)"

definition throwS :: "fc_exception \<Rightarrow> ('s, 'a) action" where
  "throwS e s = (Inl e, s)"

definition assertS :: "bool \<Rightarrow> string \<Rightarrow> ('s, unit) action" where
  "assertS b msg = (if b then returnS () else throwS (Assert_exception msg))"

definition updateS :: "('s \<Rightarrow> 's) \<Rightarrow> ('s, unit) action" where
  "updateS f s = (Inr (), f s)"

fun forS :: "('a \<Rightarrow> ('s, unit) action) \<Rightarrow> 'a list \<Rightarrow> ('s, unit) action" where
  "forS f [] = returnS ()"
| "forS f (x # xs) = bindS (f x) (\<lambda>_. forS f xs)"

lemma bindS_apply [simp]:
  "m s = (Inr x, t) \<Longrightarrow> bindS m f s = f x t"
  "m s = (Inl e, t) \<Longrightarrow> bindS m f s = (Inl e, t)"
  by (simp_all add: bindS_def)

lemma returnS_apply [simp]: "returnS x s = (Inr x, s)"
  by (simp add: returnS_def)

lemma throwS_apply [simp]: "throwS e s = (Inl e, s)"
  by (simp add: throwS_def)

lemma updateS_apply [simp]: "updateS f s = (Inr (), f s)"
  by (simp add: updateS_def)

lemma assertS_True [simp]: "b \<Longrightarrow> assertS b msg = returnS ()"
  by (simp add: assertS_def)

lemma assertS_False [simp]: "\<not> b \<Longrightarrow> assertS b msg = throwS (Assert_exception msg)"
  by (simp add: assertS_def)

lemma bindS_eq_Inr [res_simps]:
  "bindS m f s = (Inr y, t) \<longleftrightarrow> (\<exists>x u. m s = (Inr x, u) \<and> f x u = (Inr y, t))"
  by (auto simp: bindS_def split: prod.splits sum.splits)

lemma assertS_eq_Inr [res_simps]: "assertS b msg s = (Inr u, t) \<longleftrightarrow> b \<and> t = s"
  by (auto simp: assertS_def)

subsection \<open>Checked share arithmetic\<close>

definition fc_int64 :: "int \<Rightarrow> bool" where
  "fc_int64 x \<longleftrightarrow> - (2 ^ 63) \<le> x \<and> x < 2 ^ 63"

record fc_env =
  fc_safe :: "int \<Rightarrow> bool"
  fc_to_uint64 :: "128 word \<Rightarrow> 64 word res"

definition fc_contract :: "'z fc_env_scheme \<Rightarrow> bool" where
  "fc_contract E \<longleftrightarrow>
     (\<forall>x. fc_safe E x \<longleftrightarrow> fc_int64 x) \<and>
     (\<forall>w. uint w < 2 ^ 64 \<longrightarrow> fc_to_uint64 E w = Inr (ucast w))"

text \<open>A concrete environment on which the contract holds.\<close>

definition fc_std :: fc_env where
  "fc_std = \<lparr>fc_safe = fc_int64,
     fc_to_uint64 = (\<lambda>w. if uint w < 2 ^ 64 then Inr (ucast w) else Inl Overflow_exception)\<rparr>"

lemma fc_std_contract: "fc_contract fc_std"
  by (simp add: fc_contract_def fc_std_def)

lemma fc_contract_safe: "fc_contract E \<Longrightarrow> fc_safe E x \<longleftrightarrow> fc_int64 x"
  by (simp add: fc_contract_def)

text \<open>The conversion to \<open>uint64_t\<close> followed by the narrowing to the signed share type.\<close>

definition to_share :: "'z fc_env_scheme \<Rightarrow> 128 word \<Rightarrow> int res" where
  "to_share E w = bindE (fc_to_uint64 E w) (\<lambda>u. Inr (sint u))"

lemma to_share_small:
  assumes "fc_contract E" and "uint w < 2 ^ 63"
  shows "to_share E w = Inr (uint w)"
proof -
  have u: "uint w < 2 ^ 64" using assms(2) by simp
  have "signed_take_bit 63 (uint w) = uint w"
    by (rule signed_take_bit_int_eq_self) (use assms(2) order_trans [OF _ uint_ge_0 [of w]] in simp_all)
  then have "sint (ucast w :: 64 word) = uint w"
    using u by (simp add: sint_uint unsigned_ucast_eq take_bit_int_eq_self)
  then show ?thesis using assms(1) u by (simp add: fc_contract_def to_share_def)
qed

definition safe_add :: "'z fc_env_scheme \<Rightarrow> int \<Rightarrow> int \<Rightarrow> int res" where
  "safe_add E a b = (if fc_safe E (a + b) then Inr (a + b) else Inl Overflow_exception)"

definition safe_sub :: "'z fc_env_scheme \<Rightarrow> int \<Rightarrow> int \<Rightarrow> int res" where
  "safe_sub E a b = (if fc_safe E (a - b) then Inr (a - b) else Inl Overflow_exception)"

definition safe_neg :: "'z fc_env_scheme \<Rightarrow> int \<Rightarrow> int res" where
  "safe_neg E a = (if fc_safe E (- a) then Inr (- a) else Inl Overflow_exception)"

definition safe_mul :: "'z fc_env_scheme \<Rightarrow> int \<Rightarrow> int \<Rightarrow> int res" where
  "safe_mul E a b = (if fc_safe E (a * b) then Inr (a * b) else Inl Overflow_exception)"

lemma safe_add_eq_Inr [res_simps]: "safe_add E a b = Inr c \<longleftrightarrow> fc_safe E (a + b) \<and> c = a + b"
  by (auto simp: safe_add_def)

lemma safe_sub_eq_Inr [res_simps]: "safe_sub E a b = Inr c \<longleftrightarrow> fc_safe E (a - b) \<and> c = a - b"
  by (auto simp: safe_sub_def)

lemma safe_neg_eq_Inr [res_simps]: "safe_neg E a = Inr c \<longleftrightarrow> fc_safe E (- a) \<and> c = - a"
  by (auto simp: safe_neg_def)

lemma safe_mul_eq_Inr [res_simps]: "safe_mul E a b = Inr c \<longleftrightarrow> fc_safe E (a * b) \<and> c = a * b"
  by (auto simp: safe_mul_def)

subsection \<open>Association lists for the unordered containers of the source\<close>

lemma map_of_delete [simp]: "map_of (AList.delete k xs) = (map_of xs)(k := None)"
  by (rule AList.delete_conv')

lemma map_of_update [simp]: "map_of (AList.update k v xs) = (map_of xs)(k \<mapsto> v)"
  by (rule AList.update_conv')

lemma distinct_keys_update:
  "distinct (map fst xs) \<Longrightarrow> distinct (map fst (AList.update k v xs))"
  by (rule AList.distinct_update)

lemma distinct_keys_delete:
  "distinct (map fst xs) \<Longrightarrow> distinct (map fst (AList.delete k xs))"
  by (rule AList.distinct_delete)

lemma map_add_upd_fresh:
  "k \<notin> fst ` set xs \<Longrightarrow> m(k \<mapsto> v) ++ map_of xs = m ++ (map_of xs)(k \<mapsto> v)"
  by (simp add: map_add_upd_left dom_map_of_conv_image_fst)

subsection \<open>Flat maps and flat sets\<close>

text \<open>\<open>fc::flat_map\<close>, \<open>std::map\<close> and \<open>fc::flat_set\<close> as lists sorted by key.\<close>

fun fm_insert :: "'k::linorder \<Rightarrow> 'v \<Rightarrow> ('k \<times> 'v) list \<Rightarrow> ('k \<times> 'v) list" where
  "fm_insert k v [] = [(k, v)]"
| "fm_insert k v ((k', v') # m) =
     (if k < k' then (k, v) # (k', v') # m
      else if k = k' then (k, v) # m else (k', v') # fm_insert k v m)"

definition fm_erase :: "'k \<Rightarrow> ('k \<times> 'v) list \<Rightarrow> ('k \<times> 'v) list" where
  "fm_erase k m = filter (\<lambda>x. fst x \<noteq> k) m"

lemma map_of_fm_insert [simp]: "map_of (fm_insert k v m) = (map_of m)(k \<mapsto> v)"
  by (induction m) (auto simp: fun_eq_iff)

lemma keys_fm_insert [simp]: "fst ` set (fm_insert k v m) = insert k (fst ` set m)"
  using dom_map_of_conv_image_fst [of "fm_insert k v m"] by (simp add: dom_map_of_conv_image_fst)

lemma set_fm_insert_subset: "set (fm_insert k v m) \<subseteq> insert (k, v) (set m)"
  by (induction k v m rule: fm_insert.induct) auto

lemma sorted_fm_insert:
  "sorted_wrt (<) (map fst m) \<Longrightarrow> sorted_wrt (<) (map fst (fm_insert k v m))"
proof (induction m)
  case (Cons x m)
  have "\<forall>y\<in>fst ` set (fm_insert k v m). fst x < y" if "\<not> k < fst x" "k \<noteq> fst x"
    using that Cons.prems by auto
  then show ?case using Cons by (cases x) (auto simp: less_trans)
qed simp

lemma sorted_keys_distinct: "sorted_wrt (<) (map fst m) \<Longrightarrow> distinct (map fst (m :: ('k::linorder \<times> 'v) list))"
  by (simp add: strict_sorted_iff)

lemma map_of_fm_erase [simp]: "map_of (fm_erase k m) = (map_of m)(k := None)"
  by (induction m) (auto simp: fm_erase_def fun_eq_iff)

lemma sorted_fm_erase: "sorted_wrt (<) (map fst m) \<Longrightarrow> sorted_wrt (<) (map fst (fm_erase k m))"
  by (induction m) (auto simp: fm_erase_def)

fun fs_insert :: "'k::linorder \<Rightarrow> 'k list \<Rightarrow> 'k list" where
  "fs_insert k [] = [k]"
| "fs_insert k (k' # m) = (if k < k' then k # k' # m else if k = k' then k' # m else k' # fs_insert k m)"

lemma set_fs_insert [simp]: "set (fs_insert k m) = insert k (set m)"
  by (induction m) auto

end
