(* ===== verification/Object_Id.thy ===== *)
theory Object_Id
  imports Chain_Prelude
begin

unbundle bit_operations_syntax

text \<open>
  Object identifiers (\<open>libraries/db/include/graphene/db/object_id.hpp\<close>).

  \<open>struct object_id_type\<close> has one field, the 64-bit \<open>number\<close>: eight bits of space, eight
  bits of type, forty-eight bits of instance. The struct is the type synonym
  \<open>object_id_type\<close> and its member functions are the definitions below; its constructor
  throws when the instance needs more than forty-eight bits. The increment of a primary
  index, \<open>++_next_id.number\<close>, is the wrapping increment of the whole number.
\<close>

type_synonym object_id_type = "64 word"

definition GRAPHENE_DB_MAX_INSTANCE_ID :: "64 word" where
  "GRAPHENE_DB_MAX_INSTANCE_ID = drop_bit 16 (- 1)"

definition make_object_id :: "8 word \<Rightarrow> 8 word \<Rightarrow> 64 word \<Rightarrow> object_id_type res" where
  "make_object_id s t i =
     bindE (assertE (drop_bit 48 i = 0) ''instance overflow'') (\<lambda>_.
     Inr (push_bit 56 (ucast s) OR push_bit 48 (ucast t) OR i))"

definition id_space :: "object_id_type \<Rightarrow> 8 word" where
  "id_space n = ucast (drop_bit 56 n)"

definition id_type :: "object_id_type \<Rightarrow> 8 word" where
  "id_type n = ucast (drop_bit 48 n AND 0x00ff)"

definition id_space_type :: "object_id_type \<Rightarrow> 16 word" where
  "id_space_type n = ucast (drop_bit 48 n)"

definition id_instance :: "object_id_type \<Rightarrow> 64 word" where
  "id_instance n = n AND GRAPHENE_DB_MAX_INSTANCE_ID"

definition id_is_null :: "object_id_type \<Rightarrow> bool" where
  "id_is_null n \<longleftrightarrow> n = 0"

definition id_is :: "8 word \<Rightarrow> 8 word \<Rightarrow> object_id_type \<Rightarrow> bool" where
  "id_is s t n \<longleftrightarrow> drop_bit 48 n = (push_bit 8 (ucast s) OR ucast t :: 64 word)"

definition id_succ :: "object_id_type \<Rightarrow> object_id_type" where
  "id_succ n = n + 1"

definition id_plus :: "object_id_type \<Rightarrow> 64 word \<Rightarrow> object_id_type res" where
  "id_plus a delta = make_object_id (id_space a) (id_type a) (id_instance a + delta)"

text \<open>The key under which the undo state remembers an index: \<open>object_id_type(space, type, 0)\<close>.\<close>

definition index_id :: "object_id_type \<Rightarrow> object_id_type" where
  "index_id n = push_bit 56 (ucast (id_space n)) OR push_bit 48 (ucast (id_type n))"

subsection \<open>The three fields are a partition of the bits\<close>

lemma max_instance_mask: "GRAPHENE_DB_MAX_INSTANCE_ID = mask 48"
  by (simp add: GRAPHENE_DB_MAX_INSTANCE_ID_def mask_eq_exp_minus_1)

lemma mask8_eq: "(0x00ff :: 64 word) = mask 8"
  by (simp add: mask_eq_exp_minus_1)

lemma bit_id_space: "bit (id_space n) k \<longleftrightarrow> k < 8 \<and> bit n (56 + k)"
  by (auto simp: id_space_def bit_simps)

lemma bit_id_type: "bit (id_type n) k \<longleftrightarrow> k < 8 \<and> bit n (48 + k)"
  by (auto simp: id_type_def mask8_eq bit_simps)

lemma bit_id_instance: "bit (id_instance n) k \<longleftrightarrow> k < 48 \<and> bit n k"
  by (auto simp: id_instance_def max_instance_mask bit_simps)

lemma instance_fits_iff: "drop_bit 48 (i :: 64 word) = 0 \<longleftrightarrow> (\<forall>k \<ge> 48. \<not> bit i k)"
proof
  assume "drop_bit 48 i = 0"
  then have "\<not> bit (drop_bit 48 i) j" for j by simp
  then have no: "\<not> bit i (48 + j)" for j by (simp add: bit_simps)
  show "\<forall>k \<ge> 48. \<not> bit i k"
    using no le_Suc_ex by blast
next
  assume "\<forall>k \<ge> 48. \<not> bit i k"
  then show "drop_bit 48 i = 0"
    by (intro bit_word_eqI) (simp add: bit_simps)
qed

lemma make_object_id_bits:
  assumes "make_object_id s t i = Inr n"
  shows "bit n k \<longleftrightarrow> bit i k \<or> (48 \<le> k \<and> k < 56 \<and> bit t (k - 48)) \<or> (56 \<le> k \<and> k < 64 \<and> bit s (k - 56))"
    and "\<forall>k \<ge> 48. \<not> bit i k"
proof -
  from assms have fits: "drop_bit 48 i = 0"
    and n: "n = push_bit 56 (ucast s) OR push_bit 48 (ucast t) OR i"
    by (auto simp: make_object_id_def res_simps)
  show "\<forall>k \<ge> 48. \<not> bit i k" using fits by (simp add: instance_fits_iff)
  have t: "\<not> bit t j" if "8 \<le> j" for j using that by (auto dest: bit_imp_le_length)
  have s: "\<not> bit s j" if "8 \<le> j" for j using that by (auto dest: bit_imp_le_length)
  show "bit n k \<longleftrightarrow> bit i k \<or> (48 \<le> k \<and> k < 56 \<and> bit t (k - 48)) \<or> (56 \<le> k \<and> k < 64 \<and> bit s (k - 56))"
    using t [of "k - 48"] s [of "k - 56"] unfolding n
    by (cases "k < 56") (auto simp: bit_simps)
qed

lemma make_object_id_total:
  "make_object_id (id_space n) (id_type n) (id_instance n) = Inr n"
proof -
  have fits: "drop_bit 48 (id_instance n) = 0"
    by (simp add: instance_fits_iff bit_id_instance)
  then obtain m where m: "make_object_id (id_space n) (id_type n) (id_instance n) = Inr m"
    by (simp add: make_object_id_def)
  have "m = n"
  proof (rule bit_word_eqI)
    fix k
    assume "k < LENGTH(64)"
    then show "bit m k \<longleftrightarrow> bit n k"
      by (cases "k < 48"; cases "k < 56")
        (auto simp: make_object_id_bits [OF m] bit_id_instance bit_id_space bit_id_type)
  qed
  with m show ?thesis by simp
qed

lemma make_object_id_fields:
  assumes "make_object_id s t i = Inr n"
  shows "id_space n = s" and "id_type n = t" and "id_instance n = i"
proof -
  note bits = make_object_id_bits [OF assms]
  show "id_space n = s"
    by (rule bit_word_eqI) (use bits in \<open>auto simp: bit_id_space\<close>)
  show "id_type n = t"
    by (rule bit_word_eqI) (use bits in \<open>auto simp: bit_id_type\<close>)
  show "id_instance n = i"
    by (rule bit_word_eqI) (use bits in \<open>auto simp: bit_id_instance linorder_not_le [symmetric]\<close>)
qed

lemma make_object_id_index: "make_object_id (id_space n) (id_type n) 0 = Inr (index_id n)"
  by (simp add: make_object_id_def index_id_def)

lemma index_id_eq: "index_id n = push_bit 48 (drop_bit 48 n)"
proof (rule bit_word_eqI)
  fix k
  assume "k < LENGTH(64)"
  then show "bit (index_id n) k \<longleftrightarrow> bit (push_bit 48 (drop_bit 48 n)) k"
    by (cases "k < 48"; cases "k < 56")
      (auto simp: make_object_id_bits [OF make_object_id_index] bit_id_space bit_id_type bit_simps)
qed

lemma index_id_idem [simp]: "index_id (index_id n) = index_id n"
  unfolding index_id_eq by (rule bit_word_eqI) (auto simp: bit_simps)

lemma unat_id_instance: "unat (id_instance n) = unat n mod 2 ^ 48"
proof -
  have "id_instance n = take_bit 48 n"
    by (simp add: id_instance_def max_instance_mask take_bit_eq_mask)
  then show ?thesis by (simp add: take_bit_eq_mod unat_mod_distrib)
qed

lemma unat_max_instance: "unat GRAPHENE_DB_MAX_INSTANCE_ID = 2 ^ 48 - 1"
  by (simp add: max_instance_mask mask_eq_exp_minus_1)

text \<open>
  The increment stays inside its index as long as the instance is not the last one; the
  source does not check this.
\<close>

lemma unat_id_succ:
  assumes "id_instance n \<noteq> GRAPHENE_DB_MAX_INSTANCE_ID"
  shows "unat (id_succ n) = unat n + 1" and "unat n mod 2 ^ 48 < 2 ^ 48 - 1"
proof -
  have "unat (id_instance n) \<noteq> 2 ^ 48 - 1"
    using assms unat_max_instance by (metis word_unat_eq_iff)
  then show m: "unat n mod 2 ^ 48 < 2 ^ 48 - 1"
    using mod_less_divisor [of "2 ^ 48" "unat n"] by (simp add: unat_id_instance)
  then have "n \<noteq> - 1" by (auto simp: unsigned_minus_1_eq_mask mask_eq_exp_minus_1)
  then have "unat n \<noteq> 2 ^ 64 - 1"
    by (simp add: word_unat_eq_iff unsigned_minus_1_eq_mask mask_eq_exp_minus_1)
  moreover have "unat n < 2 ^ LENGTH(64)" by (rule unsigned_less)
  ultimately have "unat n + 1 < 2 ^ 64" by simp
  then show "unat (id_succ n) = unat n + 1"
    by (simp add: id_succ_def unat_word_ariths)
qed

lemma drop_bit_id_succ:
  assumes "id_instance n \<noteq> GRAPHENE_DB_MAX_INSTANCE_ID"
  shows "drop_bit 48 (id_succ n) = drop_bit 48 n"
proof -
  have "Suc (unat n mod 2 ^ 48) \<noteq> 2 ^ 48"
    using unat_id_succ(2) [OF assms] by linarith
  then have "(unat n + 1) div 2 ^ 48 = unat n div 2 ^ 48"
    by (simp add: div_Suc mod_Suc del: power_numeral)
  then show ?thesis
    by (simp add: word_unat_eq_iff unsigned_drop_bit_eq drop_bit_eq_div unat_div_distrib unat_id_succ(1) [OF assms] del: unsigned_drop_bit_eq)
qed

lemma index_id_succ [simp]:
  "id_instance n \<noteq> GRAPHENE_DB_MAX_INSTANCE_ID \<Longrightarrow> index_id (id_succ n) = index_id n"
  by (simp add: index_id_eq drop_bit_id_succ)

lemma id_less_succ:
  "id_instance n \<noteq> GRAPHENE_DB_MAX_INSTANCE_ID \<Longrightarrow> n < id_succ n"
  by (simp add: word_less_nat_alt unat_id_succ)

subsection \<open>Properties\<close>

text \<open>Packing and unpacking an identifier. The constructor followed by the three accessors
  gives back the space, the type and the instance; and packing the three fields of any number gives
  back the number.\<close>

theorem object_id_roundtrip:
  "(make_object_id s t i = Inr n \<longrightarrow> id_space n = s \<and> id_type n = t \<and> id_instance n = i) \<and>
   make_object_id (id_space m) (id_type m) (id_instance m) = Inr m"
  using make_object_id_fields make_object_id_total by blast

theorem object_id_roundtrip_witness:
  "make_object_id 1 2 17 = Inr 0x0102000000000011 \<and> id_space 0x0102000000000011 = 1 \<and>
   id_type 0x0102000000000011 = 2 \<and> id_instance 0x0102000000000011 = 17"
proof -
  have "make_object_id 1 2 17 = Inr 0x0102000000000011"
    by (simp add: make_object_id_def)
  then show ?thesis using object_id_roundtrip by blast
qed

text \<open>the increment of an index. The next identifier stays in the same index and is larger,
  unless the instance is the last of its forty-eight bits; then the unchecked increment leaves the
  index: the instance is zero again.\<close>

theorem id_succ_bounds:
  "(id_instance n \<noteq> GRAPHENE_DB_MAX_INSTANCE_ID \<longrightarrow>
      index_id (id_succ n) = index_id n \<and> n < id_succ n \<and> id_instance (id_succ n) = id_instance n + 1) \<and>
   (id_instance n = GRAPHENE_DB_MAX_INSTANCE_ID \<longrightarrow>
      id_instance (id_succ n) = 0 \<and> index_id (id_succ n) \<noteq> index_id n)"
proof (intro conjI impI)
  assume a: "id_instance n \<noteq> GRAPHENE_DB_MAX_INSTANCE_ID"
  show "index_id (id_succ n) = index_id n" and "n < id_succ n"
    using a by (simp_all add: id_less_succ)
  have "unat (id_instance n + 1) = unat (id_instance n) + 1"
    using unat_id_succ(2) [OF a] by (simp add: unat_word_ariths unat_id_instance)
  then show "id_instance (id_succ n) = id_instance n + 1"
    using unat_id_succ [OF a] by (simp add: word_unat_eq_iff unat_id_instance mod_Suc)
next
  assume a: "id_instance n = GRAPHENE_DB_MAX_INSTANCE_ID"
  then have m: "unat n mod 2 ^ 48 = 2 ^ 48 - 1"
    using unat_id_instance [of n] unat_max_instance by simp
  then have s: "unat (id_succ n) mod 2 ^ 48 = 0"
    by (simp add: id_succ_def unat_word_ariths mod_mod_cancel mod_Suc)
  then show "id_instance (id_succ n) = 0"
    by (simp add: word_unat_eq_iff unat_id_instance)
  show "index_id (id_succ n) \<noteq> index_id n"
  proof
    assume "index_id (id_succ n) = index_id n"
    moreover have "id_succ n = index_id (id_succ n)"
      using make_object_id_total [of "id_succ n"] \<open>id_instance (id_succ n) = 0\<close>
        make_object_id_index [of "id_succ n"] by simp
    moreover have "n = index_id n + id_instance n"
      using bits_ident [of 48 n]
      by (simp add: index_id_eq id_instance_def max_instance_mask take_bit_eq_mask)
    ultimately have "index_id n + (id_instance n + 1) = index_id n"
      by (metis add.assoc id_succ_def)
    then have "id_instance n + 1 = 0" by simp
    then show False using a by (simp add: GRAPHENE_DB_MAX_INSTANCE_ID_def mask_eq_exp_minus_1)
  qed
qed

theorem id_succ_bounds_witness:
  "index_id (id_succ 0x0102000000000011) = index_id 0x0102000000000011 \<and>
   id_instance (id_succ 0x0102ffffffffffff) = 0"
  using id_succ_bounds [of "0x0102000000000011"] id_succ_bounds [of "0x0102ffffffffffff"]
  by (simp add: id_instance_def GRAPHENE_DB_MAX_INSTANCE_ID_def mask_eq_exp_minus_1)

end
