(* ===== verification/Undo_Database.thy ===== *)
theory Undo_Database
  imports Object_Id
begin

text \<open>
  The object database with multi-level rollback (\<open>libraries/db\<close>).

  An \<open>object_database\<close> holds, for every registered index, its objects and its next
  identifier, together with the members of the \<open>undo_database\<close> it owns. Indexes are the
  \<open>generic_index\<close> instances whose only unique key is the object identifier
  (\<open>sparse_index\<close>); an index is named by the identifier with instance zero and is registered
  when \<open>next_ids\<close> is defined there. Objects are values of a type parameter. The C++
  containers \<open>unordered_map\<close> and \<open>unordered_set\<close> are lists, because the code iterates over
  them; the deque of undo states is a list whose head is \<open>_stack.back()\<close>.

  Callbacks of observers and secondary indexes are not modelled: they do not write the
  object store.
\<close>

subsection \<open>State\<close>

record 'v undo_state =
  old_values :: "(object_id_type \<times> 'v) list"
  old_index_next_ids :: "(object_id_type \<times> object_id_type) list"
  new_ids :: "object_id_type list"
  removed_values :: "(object_id_type \<times> 'v) list"

type_synonym 'v store = "(object_id_type \<rightharpoonup> 'v) \<times> (object_id_type \<rightharpoonup> object_id_type)"

record 'v object_database =
  objs :: "object_id_type \<rightharpoonup> 'v"
  next_ids :: "object_id_type \<rightharpoonup> object_id_type"
  active_sessions :: nat
  disabled :: bool
  undo_stack :: "'v undo_state list"
  max_size :: nat

record undo_session =
  apply_undo :: bool
  disable_on_exit :: bool

definition empty_undo_state :: "'v undo_state" where
  "empty_undo_state =
     \<lparr>old_values = [], old_index_next_ids = [], new_ids = [], removed_values = []\<rparr>"

definition make_object_database :: "'v object_database" where
  "make_object_database =
     \<lparr>objs = Map.empty, next_ids = Map.empty, active_sessions = 0, disabled = False,
      undo_stack = [], max_size = 256\<rparr>"

definition add_index :: "object_id_type \<Rightarrow> 'v object_database \<Rightarrow> 'v object_database" where
  "add_index i d = d\<lparr>next_ids := (next_ids d)(index_id i \<mapsto> index_id i)\<rparr>"

subsection \<open>Recording changes in the head undo state\<close>

definition undo_enable :: "'v object_database \<Rightarrow> 'v object_database" where
  "undo_enable d = d\<lparr>disabled := False\<rparr>"

definition undo_disable :: "'v object_database \<Rightarrow> 'v object_database" where
  "undo_disable d = d\<lparr>disabled := True\<rparr>"

definition log_create :: "object_id_type \<Rightarrow> 'v undo_state \<Rightarrow> 'v undo_state" where
  "log_create i u =
     (let u1 = (if map_of (old_index_next_ids u) (index_id i) = None
                then u\<lparr>old_index_next_ids := AList.update (index_id i) i (old_index_next_ids u)\<rparr>
                else u)
      in u1\<lparr>new_ids := List.insert i (new_ids u1)\<rparr>)"

definition log_modify :: "object_id_type \<Rightarrow> 'v \<Rightarrow> 'v undo_state \<Rightarrow> 'v undo_state" where
  "log_modify i v u =
     (if i \<in> set (new_ids u) then u
      else if map_of (old_values u) i \<noteq> None then u
      else u\<lparr>old_values := AList.update i v (old_values u)\<rparr>)"

definition log_remove :: "object_id_type \<Rightarrow> 'v \<Rightarrow> 'v undo_state \<Rightarrow> 'v undo_state" where
  "log_remove i v u =
     (if i \<in> set (new_ids u) then u\<lparr>new_ids := removeAll i (new_ids u)\<rparr>
      else case map_of (old_values u) i of
        Some w \<Rightarrow> u\<lparr>removed_values := AList.update i w (removed_values u),
                    old_values := AList.delete i (old_values u)\<rparr>
      | None \<Rightarrow>
          (if map_of (removed_values u) i \<noteq> None then u
           else u\<lparr>removed_values := AList.update i v (removed_values u)\<rparr>))"

definition on_head :: "('v undo_state \<Rightarrow> 'v undo_state) \<Rightarrow> 'v object_database \<Rightarrow> 'v object_database" where
  "on_head f d =
     (if disabled d then d
      else case undo_stack d of
        [] \<Rightarrow> d\<lparr>undo_stack := [f empty_undo_state]\<rparr>
      | u # us \<Rightarrow> d\<lparr>undo_stack := f u # us\<rparr>)"

definition undo_on_create :: "object_id_type \<Rightarrow> 'v object_database \<Rightarrow> 'v object_database" where
  "undo_on_create i = on_head (log_create i)"

definition undo_on_modify :: "object_id_type \<Rightarrow> 'v \<Rightarrow> 'v object_database \<Rightarrow> 'v object_database" where
  "undo_on_modify i v = on_head (log_modify i v)"

definition undo_on_remove :: "object_id_type \<Rightarrow> 'v \<Rightarrow> 'v object_database \<Rightarrow> 'v object_database" where
  "undo_on_remove i v = on_head (log_remove i v)"

subsection \<open>The mutators of the object database\<close>

definition get_index :: "object_id_type \<Rightarrow> ('v object_database, object_id_type) action" where
  "get_index i d =
     (case next_ids d (index_id i) of
        None \<Rightarrow> (Inl (Assert_exception ''index''), d)
      | Some n \<Rightarrow> (Inr n, d))"

definition find_object :: "'v object_database \<Rightarrow> object_id_type \<Rightarrow> 'v option" where
  "find_object d i = (if next_ids d (index_id i) = None then None else objs d i)"

definition get_object :: "object_id_type \<Rightarrow> ('v object_database, 'v) action" where
  "get_object i = bindS (get_index i) (\<lambda>_ d.
     case objs d i of
       None \<Rightarrow> (Inl (Assert_exception ''Unable to find Object''), d)
     | Some v \<Rightarrow> (Inr v, d))"

definition db_create :: "object_id_type \<Rightarrow> (object_id_type \<Rightarrow> 'v) \<Rightarrow> ('v object_database, object_id_type) action" where
  "db_create i constructor = bindS (get_index i) (\<lambda>n d.
     if objs d n \<noteq> None then (Inl (Assert_exception ''Could not create object''), d)
     else (Inr n, undo_on_create n
             (d\<lparr>objs := (objs d)(n \<mapsto> constructor n),
                next_ids := (next_ids d)(index_id i \<mapsto> id_succ n)\<rparr>)))"

definition db_modify :: "object_id_type \<Rightarrow> ('v \<Rightarrow> 'v) \<Rightarrow> ('v object_database, unit) action" where
  "db_modify i m = bindS (get_object i) (\<lambda>v d.
     let d1 = undo_on_modify i v d in (Inr (), d1\<lparr>objs := (objs d1)(i \<mapsto> m v)\<rparr>))"

definition db_remove :: "object_id_type \<Rightarrow> ('v object_database, unit) action" where
  "db_remove i = bindS (get_object i) (\<lambda>v d.
     let d1 = undo_on_remove i v d in (Inr (), d1\<lparr>objs := (objs d1)(i := None)\<rparr>))"

definition db_insert :: "object_id_type \<Rightarrow> 'v \<Rightarrow> ('v object_database, unit) action" where
  "db_insert i v = bindS (get_index i) (\<lambda>_ d.
     if objs d i \<noteq> None then (Inl (Assert_exception ''Could not insert object''), d)
     else (Inr (), d\<lparr>objs := (objs d)(i \<mapsto> v)\<rparr>))"

definition set_next_id :: "object_id_type \<Rightarrow> object_id_type \<Rightarrow> ('v object_database, unit) action" where
  "set_next_id i n = bindS (get_index i) (\<lambda>_.
     updateS (\<lambda>d. d\<lparr>next_ids := (next_ids d)(index_id i \<mapsto> n)\<rparr>))"

subsection \<open>Sessions\<close>

text \<open>\<open>while( size() > max_size() ) _stack.pop_front();\<close>\<close>

fun trim_front :: "nat \<Rightarrow> 'a list \<Rightarrow> 'a list" where
  "trim_front m us = (if m < length us then trim_front m (butlast us) else us)"

definition start_undo_session :: "bool \<Rightarrow> 'v object_database \<Rightarrow> undo_session \<times> 'v object_database" where
  "start_undo_session force_enable d =
     (if disabled d \<and> \<not> force_enable
      then (\<lparr>apply_undo = True, disable_on_exit = False\<rparr>, d)
      else
        let doe = (disabled d \<and> force_enable);
            d1 = (if force_enable then undo_enable d else d);
            us = empty_undo_state # trim_front (max_size d1) (undo_stack d1);
            us' = (if length us = 1 then empty_undo_state # us else us)
        in (\<lparr>apply_undo = True, disable_on_exit = doe\<rparr>,
            d1\<lparr>undo_stack := us', active_sessions := active_sessions d1 + 1\<rparr>))"

text \<open>The three loops that \<open>undo\<close> and \<open>pop_commit\<close> share.\<close>

definition revert_state :: "'v undo_state \<Rightarrow> ('v object_database, unit) action" where
  "revert_state u =
     bindS (forS (\<lambda>(i, v). db_modify i (\<lambda>_. v)) (old_values u)) (\<lambda>_.
     bindS (forS db_remove (new_ids u)) (\<lambda>_.
     bindS (forS (\<lambda>(i, n). set_next_id i n) (old_index_next_ids u)) (\<lambda>_.
     forS (\<lambda>(i, v). db_insert i v) (removed_values u))))"

definition undo :: "('v object_database, unit) action" where
  "undo d =
     bindS (assertS (\<not> disabled d) ''!_disabled'') (\<lambda>_.
     bindS (assertS (0 < active_sessions d) ''_active_sessions > 0'') (\<lambda>_.
     bindS (updateS undo_disable) (\<lambda>_.
     case undo_stack d of
       [] \<Rightarrow> throwS Undefined_behaviour
     | u # us \<Rightarrow>
         bindS (revert_state u) (\<lambda>_.
         updateS (\<lambda>d. d\<lparr>undo_stack := (if us = [] then [empty_undo_state] else us),
                        disabled := False,
                        active_sessions := active_sessions d - 1\<rparr>))))) d"

definition merge_old_value :: "object_id_type \<times> 'v \<Rightarrow> 'v undo_state \<Rightarrow> 'v undo_state" where
  "merge_old_value = (\<lambda>(i, v) p.
     if i \<in> set (new_ids p) then p
     else if map_of (old_values p) i \<noteq> None then p
     else p\<lparr>old_values := AList.update i v (old_values p)\<rparr>)"

definition merge_next_id :: "object_id_type \<times> object_id_type \<Rightarrow> 'v undo_state \<Rightarrow> 'v undo_state" where
  "merge_next_id = (\<lambda>(i, n) p.
     if map_of (old_index_next_ids p) i = None
     then p\<lparr>old_index_next_ids := AList.update i n (old_index_next_ids p)\<rparr> else p)"

definition merge_removed :: "object_id_type \<times> 'v \<Rightarrow> 'v undo_state \<Rightarrow> 'v undo_state" where
  "merge_removed = (\<lambda>(i, v) p.
     if i \<in> set (new_ids p) then p\<lparr>new_ids := removeAll i (new_ids p)\<rparr>
     else case map_of (old_values p) i of
       Some w \<Rightarrow> p\<lparr>removed_values := AList.update i w (removed_values p),
                   old_values := AList.delete i (old_values p)\<rparr>
     | None \<Rightarrow> p\<lparr>removed_values := AList.update i v (removed_values p)\<rparr>)"

definition merge_state :: "'v undo_state \<Rightarrow> 'v undo_state \<Rightarrow> 'v undo_state" where
  "merge_state prev st =
     (let p1 = fold merge_old_value (old_values st) prev;
          p2 = p1\<lparr>new_ids := fold List.insert (new_ids st) (new_ids p1)\<rparr>;
          p3 = fold merge_next_id (old_index_next_ids st) p2
      in fold merge_removed (removed_values st) p3)"

definition merge :: "('v object_database, unit) action" where
  "merge d =
     bindS (assertS (0 < active_sessions d) ''_active_sessions > 0'') (\<lambda>_.
     bindS (assertS (2 \<le> length (undo_stack d)) ''_stack.size() >=2'') (\<lambda>_.
     updateS (\<lambda>d. d\<lparr>undo_stack :=
                      merge_state (undo_stack d ! 1) (undo_stack d ! 0) # drop 2 (undo_stack d),
                    active_sessions := active_sessions d - 1\<rparr>))) d"

definition commit :: "('v object_database, unit) action" where
  "commit d =
     bindS (assertS (0 < active_sessions d) ''_active_sessions > 0'') (\<lambda>_.
     updateS (\<lambda>d. d\<lparr>active_sessions := active_sessions d - 1\<rparr>)) d"

definition pop_commit :: "('v object_database, unit) action" where
  "pop_commit d =
     bindS (assertS (active_sessions d = 0) ''_active_sessions == 0'') (\<lambda>_.
     bindS (assertS (undo_stack d \<noteq> []) ''!_stack.empty()'') (\<lambda>_.
     bindS (updateS undo_disable) (\<lambda>_ d1.
       case bindS (revert_state (hd (undo_stack d)))
                  (\<lambda>_. updateS (\<lambda>d. d\<lparr>undo_stack := tl (undo_stack d)\<rparr>)) d1 of
         (Inl e, d2) \<Rightarrow> (Inl e, undo_enable d2)
       | (Inr _, d2) \<Rightarrow> (Inr (), undo_enable d2)))) d"

definition head :: "'v object_database \<Rightarrow> 'v undo_state res" where
  "head d = bindE (assertE (undo_stack d \<noteq> []) ''!_stack.empty()'') (\<lambda>_. Inr (hd (undo_stack d)))"

subsection \<open>The session object\<close>

text \<open>The move constructor: the new session, and what is left in the moved-from one.\<close>

definition session_move :: "undo_session \<Rightarrow> undo_session \<times> undo_session" where
  "session_move mv = (\<lparr>apply_undo = apply_undo mv, disable_on_exit = False\<rparr>, mv\<lparr>apply_undo := False\<rparr>)"

definition session_destroy :: "undo_session \<Rightarrow> ('v object_database, unit) action" where
  "session_destroy ses =
     bindS (if apply_undo ses then undo else returnS ()) (\<lambda>_.
     if disable_on_exit ses then updateS undo_disable else returnS ())"

definition session_commit :: "undo_session \<Rightarrow> ('v object_database, undo_session) action" where
  "session_commit ses = bindS commit (\<lambda>_. returnS (ses\<lparr>apply_undo := False\<rparr>))"

definition session_undo :: "undo_session \<Rightarrow> ('v object_database, undo_session) action" where
  "session_undo ses =
     bindS (if apply_undo ses then undo else returnS ()) (\<lambda>_. returnS (ses\<lparr>apply_undo := False\<rparr>))"

definition session_merge :: "undo_session \<Rightarrow> ('v object_database, undo_session) action" where
  "session_merge ses =
     bindS (if apply_undo ses then merge else returnS ()) (\<lambda>_. returnS (ses\<lparr>apply_undo := False\<rparr>))"

declare trim_front.simps [simp del]

lemma trim_front_take: "trim_front m us = take m us"
proof (induction m us rule: trim_front.induct)
  case (1 m us)
  show ?case
  proof (cases "m < length us")
    case True
    then have "take m (butlast us) = take m us"
      by (simp add: take_butlast)
    with True 1 show ?thesis by (simp add: trim_front.simps [of m us])
  qed (simp add: trim_front.simps [of m us])
qed

subsection \<open>What an undo state says about an object\<close>

text \<open>
  The four relations of the comment in \<open>undo_database::merge\<close>: an object is new, updated
  (with its former value), deleted (with its former value) or untouched.
\<close>

datatype 'v change = New | Upd 'v | Del 'v | Nop

definition change_of :: "'v undo_state \<Rightarrow> object_id_type \<Rightarrow> 'v change" where
  "change_of u i =
     (if i \<in> set (new_ids u) then New
      else case map_of (removed_values u) i of
        Some v \<Rightarrow> Del v
      | None \<Rightarrow> (case map_of (old_values u) i of Some v \<Rightarrow> Upd v | None \<Rightarrow> Nop))"

text \<open>Each object is in at most one of the three containers, and no key is listed twice.\<close>

definition wf_keys :: "'v undo_state \<Rightarrow> bool" where
  "wf_keys u \<longleftrightarrow>
     distinct (map fst (old_values u)) \<and> distinct (map fst (removed_values u)) \<and>
     distinct (new_ids u) \<and> distinct (map fst (old_index_next_ids u))"

definition wf_disjoint :: "'v undo_state \<Rightarrow> bool" where
  "wf_disjoint u \<longleftrightarrow>
     (\<forall>i \<in> set (new_ids u). map_of (old_values u) i = None \<and> map_of (removed_values u) i = None) \<and>
     (\<forall>i. map_of (old_values u) i = None \<or> map_of (removed_values u) i = None)"

text \<open>The state before the changes, computed from the state after them.\<close>

definition before_change :: "'v change \<Rightarrow> 'v option \<Rightarrow> 'v option" where
  "before_change c now =
     (case c of New \<Rightarrow> None | Upd v \<Rightarrow> Some v | Del v \<Rightarrow> Some v | Nop \<Rightarrow> now)"

definition change_possible :: "'v change \<Rightarrow> 'v option \<Rightarrow> bool" where
  "change_possible c now \<longleftrightarrow>
     (case c of New \<Rightarrow> now \<noteq> None | Upd v \<Rightarrow> now \<noteq> None | Del v \<Rightarrow> now = None | Nop \<Rightarrow> True)"

text \<open>
  The composition table of the comment. Its undefined entries (\<open>N/A\<close>) are filled with
  \<open>None\<close>.
\<close>

fun merge_table :: "'v change \<Rightarrow> 'v change \<Rightarrow> 'v change option" where
  "merge_table New (Upd y) = Some New"
| "merge_table New (Del y) = Some Nop"
| "merge_table New Nop = Some New"
| "merge_table (Upd x) (Upd y) = Some (Upd x)"
| "merge_table (Upd x) (Del y) = Some (Del x)"
| "merge_table (Upd x) Nop = Some (Upd x)"
| "merge_table (Del x) Nop = Some (Del x)"
| "merge_table Nop b = Some b"
| "merge_table _ _ = None"

lemma wf_empty [simp]: "wf_keys empty_undo_state" "wf_disjoint empty_undo_state"
  by (simp_all add: wf_keys_def wf_disjoint_def empty_undo_state_def)

lemma change_of_empty [simp]: "change_of empty_undo_state i = Nop"
  by (simp add: change_of_def empty_undo_state_def)

lemma wf_disjointD:
  assumes "wf_disjoint u"
  shows "i \<in> set (new_ids u) \<Longrightarrow> map_of (old_values u) i = None"
    and "i \<in> set (new_ids u) \<Longrightarrow> map_of (removed_values u) i = None"
    and "map_of (removed_values u) i = Some v \<Longrightarrow> map_of (old_values u) i = None"
proof -
  note d = assms [unfolded wf_disjoint_def]
  show "i \<in> set (new_ids u) \<Longrightarrow> map_of (old_values u) i = None"
    and "i \<in> set (new_ids u) \<Longrightarrow> map_of (removed_values u) i = None"
    using d by blast+
  show "map_of (removed_values u) i = Some v \<Longrightarrow> map_of (old_values u) i = None"
    using spec [OF conjunct2 [OF d], of i] by simp
qed

lemma wf_disjointI:
  assumes "\<And>i. i \<in> set (new_ids u) \<Longrightarrow> map_of (old_values u) i = None \<and> map_of (removed_values u) i = None"
    and "\<And>i v. map_of (removed_values u) i = Some v \<Longrightarrow> map_of (old_values u) i = None"
  shows "wf_disjoint u"
  unfolding wf_disjoint_def
proof (intro conjI ballI allI)
  fix i
  show "map_of (old_values u) i = None \<or> map_of (removed_values u) i = None"
    using assms(2) [of i] by (cases "map_of (removed_values u) i") simp_all
qed (use assms(1) in simp_all)

lemma change_of_cases:
  assumes "wf_disjoint u"
  shows "change_of u i = New \<longleftrightarrow> i \<in> set (new_ids u)"
    and "change_of u i = Upd v \<longleftrightarrow> map_of (old_values u) i = Some v"
    and "change_of u i = Del v \<longleftrightarrow> map_of (removed_values u) i = Some v"
  using wf_disjointD [OF assms, of i] by (auto simp: change_of_def split: option.splits)

text \<open>How each notification changes the relation of its object, and only of that one.\<close>

lemma change_of_log_create:
  "change_of u i = Nop \<Longrightarrow> change_of (log_create i u) = (change_of u)(i := New)"
  by (rule ext) (auto simp: change_of_def log_create_def Let_def split: option.splits)

lemma wf_disjoint_log_create:
  assumes "wf_disjoint u" and "change_of u i = Nop"
  shows "wf_disjoint (log_create i u)"
  using assms(2) wf_disjointD [OF assms(1)]
  by (intro wf_disjointI)
    (auto simp: log_create_def Let_def change_of_def split: if_splits option.splits)

lemma change_of_log_modify:
  assumes "wf_disjoint u"
  shows "change_of (log_modify i v u) =
     (if change_of u i = Nop then (change_of u)(i := Upd v) else change_of u)"
  using wf_disjointD [OF assms, of i]
  by (intro ext) (auto simp: change_of_def log_modify_def split: option.splits)

lemma wf_disjoint_log_modify:
  assumes "wf_disjoint u" and "\<And>w. change_of u i \<noteq> Del w"
  shows "wf_disjoint (log_modify i v u)"
proof -
  have "map_of (removed_values u) i = None"
    using assms(2) change_of_cases(3) [OF assms(1), of i] by (cases "map_of (removed_values u) i") auto
  then show ?thesis
    using wf_disjointD [OF assms(1)]
    by (intro wf_disjointI) (auto simp: log_modify_def split: if_splits)
qed

definition after_remove :: "'v \<Rightarrow> 'v change \<Rightarrow> 'v change" where
  "after_remove v c = (case c of New \<Rightarrow> Nop | Upd w \<Rightarrow> Del w | Del w \<Rightarrow> Del w | Nop \<Rightarrow> Del v)"

lemma change_of_log_remove:
  assumes "wf_disjoint u"
  shows "change_of (log_remove i v u) = (change_of u)(i := after_remove v (change_of u i))"
proof (rule ext)
  fix j
  show "change_of (log_remove i v u) j = ((change_of u)(i := after_remove v (change_of u i))) j"
    using wf_disjointD [OF assms, of i]
    by (cases "j = i"; cases "map_of (old_values u) i"; cases "map_of (removed_values u) i")
      (auto simp: change_of_def log_remove_def after_remove_def split: option.split)
qed

lemma wf_disjoint_log_remove:
  assumes "wf_disjoint u"
  shows "wf_disjoint (log_remove i v u)"
proof (cases "i \<in> set (new_ids u)")
  case True
  then show ?thesis
    using wf_disjointD [OF assms] by (intro wf_disjointI) (auto simp: log_remove_def)
next
  case False
  then show ?thesis
    using wf_disjointD [OF assms]
    by (cases "map_of (old_values u) i"; cases "map_of (removed_values u) i"; intro wf_disjointI)
      (auto simp: log_remove_def split: if_splits)
qed

lemma wf_keys_log:
  assumes "wf_keys u"
  shows "wf_keys (log_create i u)" and "wf_keys (log_modify i v u)" and "wf_keys (log_remove i v u)"
  using assms
  by (simp_all add: wf_keys_def log_create_def log_modify_def log_remove_def Let_def
      distinct_keys_update distinct_keys_delete distinct_removeAll split: option.split)

subsection \<open>The loops of merge, key by key\<close>

lemma merge_old_values_fields:
  "new_ids (fold merge_old_value xs p) = new_ids p"
  "removed_values (fold merge_old_value xs p) = removed_values p"
  "old_index_next_ids (fold merge_old_value xs p) = old_index_next_ids p"
  by (induction xs arbitrary: p) (auto simp: merge_old_value_def split: prod.splits)

lemma merge_old_values_map:
  "map_of (old_values (fold merge_old_value xs p)) j =
     (case map_of (old_values p) j of
        Some v \<Rightarrow> Some v
      | None \<Rightarrow> if j \<in> set (new_ids p) then None else map_of xs j)"
proof (induction xs arbitrary: p)
  case (Cons x xs)
  then show ?case by (cases x) (auto simp: merge_old_value_def split: option.splits)
qed (simp split: option.split)

lemma merge_next_ids_fields:
  "new_ids (fold merge_next_id xs p) = new_ids p"
  "removed_values (fold merge_next_id xs p) = removed_values p"
  "old_values (fold merge_next_id xs p) = old_values p"
  by (induction xs arbitrary: p) (auto simp: merge_next_id_def split: prod.splits)

lemma merge_next_ids_map:
  "map_of (old_index_next_ids (fold merge_next_id xs p)) j =
     (case map_of (old_index_next_ids p) j of Some v \<Rightarrow> Some v | None \<Rightarrow> map_of xs j)"
proof (induction xs arbitrary: p)
  case (Cons x xs)
  then show ?case by (cases x) (auto simp: merge_next_id_def split: option.splits)
qed (simp split: option.split)

lemma merge_removed_index [simp]:
  "old_index_next_ids (fold merge_removed xs p) = old_index_next_ids p"
  by (induction xs arbitrary: p) (auto simp: merge_removed_def split: prod.splits option.splits)

lemma change_of_merge_removed:
  assumes "wf_disjoint p"
  shows "change_of (merge_removed (i, v) p) =
     (change_of p)(i := (case change_of p i of New \<Rightarrow> Nop | Upd w \<Rightarrow> Del w | _ \<Rightarrow> Del v))"
proof (rule ext)
  fix j
  show "change_of (merge_removed (i, v) p) j =
     ((change_of p)(i := (case change_of p i of New \<Rightarrow> Nop | Upd w \<Rightarrow> Del w | _ \<Rightarrow> Del v))) j"
    using wf_disjointD [OF assms, of i]
    by (cases "j = i"; cases "map_of (old_values p) i"; cases "map_of (removed_values p) i")
      (auto simp: change_of_def merge_removed_def split: option.split)
qed

lemma wf_disjoint_merge_removed:
  assumes "wf_disjoint p"
  shows "wf_disjoint (merge_removed (i, v) p)"
  using wf_disjointD [OF assms]
  by (cases "map_of (old_values p) i"; intro wf_disjointI)
    (auto simp: merge_removed_def split: if_splits)

lemma merge_removed_fold:
  assumes "wf_disjoint p" and "distinct (map fst xs)"
  shows "wf_disjoint (fold merge_removed xs p) \<and>
    change_of (fold merge_removed xs p) j =
      (case map_of xs j of
         None \<Rightarrow> change_of p j
       | Some v \<Rightarrow> (case change_of p j of New \<Rightarrow> Nop | Upd w \<Rightarrow> Del w | _ \<Rightarrow> Del v))"
  using assms
proof (induction xs arbitrary: p)
  case (Cons x xs)
  obtain i v where x: "x = (i, v)" by (cases x)
  have i: "map_of xs i = None" using Cons.prems(2) x by (simp add: map_of_eq_None_iff)
  have IH: "wf_disjoint (fold merge_removed xs (merge_removed x p)) \<and>
    change_of (fold merge_removed xs (merge_removed x p)) j =
      (case map_of xs j of
         None \<Rightarrow> change_of (merge_removed x p) j
       | Some v \<Rightarrow> (case change_of (merge_removed x p) j of New \<Rightarrow> Nop | Upd w \<Rightarrow> Del w | _ \<Rightarrow> Del v))"
    using Cons.prems by (intro Cons.IH) (auto simp: x wf_disjoint_merge_removed)
  show ?case
    using IH i unfolding x change_of_merge_removed [OF Cons.prems(1)]
    by (cases "j = i"; cases "map_of xs j") simp_all
qed simp

lemma fold_insert_set: "set (fold List.insert xs ys) = set xs \<union> set ys"
  by (induction xs arbitrary: ys) auto

text \<open>
  Two undo states can follow each other when the second never reports a change that the
  table calls impossible after the first.
\<close>

definition can_follow :: "'v undo_state \<Rightarrow> 'v undo_state \<Rightarrow> bool" where
  "can_follow p st \<longleftrightarrow> (\<forall>i. merge_table (change_of p i) (change_of st i) \<noteq> None)"

definition merge_updates :: "'v undo_state \<Rightarrow> 'v undo_state \<Rightarrow> 'v undo_state" where
  "merge_updates prev st =
     (let p1 = fold merge_old_value (old_values st) prev
      in fold merge_next_id (old_index_next_ids st)
           (p1\<lparr>new_ids := fold List.insert (new_ids st) (new_ids p1)\<rparr>))"

lemma merge_state_split:
  "merge_state prev st = fold merge_removed (removed_values st) (merge_updates prev st)"
  by (simp add: merge_state_def merge_updates_def Let_def)

lemma merge_updates_fields:
  "set (new_ids (merge_updates prev st)) = set (new_ids st) \<union> set (new_ids prev)"
  "removed_values (merge_updates prev st) = removed_values prev"
  "map_of (old_values (merge_updates prev st)) j =
     (case map_of (old_values prev) j of
        Some v \<Rightarrow> Some v
      | None \<Rightarrow> if j \<in> set (new_ids prev) then None else map_of (old_values st) j)"
  "map_of (old_index_next_ids (merge_updates prev st)) j =
     (case map_of (old_index_next_ids prev) j of
        Some v \<Rightarrow> Some v | None \<Rightarrow> map_of (old_index_next_ids st) j)"
  by (simp_all add: merge_updates_def Let_def merge_next_ids_fields merge_next_ids_map
      merge_old_values_fields merge_old_values_map fold_insert_set)

lemma merge_updates_change:
  assumes "wf_disjoint prev" and "wf_disjoint st" and "can_follow prev st"
  shows "change_of (merge_updates prev st) j =
      (case change_of st j of
         New \<Rightarrow> New
       | Upd y \<Rightarrow> (case change_of prev j of Nop \<Rightarrow> Upd y | c \<Rightarrow> c)
       | _ \<Rightarrow> change_of prev j)"
proof -
  have "merge_table (change_of prev j) (change_of st j) \<noteq> None"
    using assms(3) by (simp add: can_follow_def)
  then show ?thesis
    using wf_disjointD [OF assms(1), of j] wf_disjointD [OF assms(2), of j]
    by (auto simp: change_of_def merge_updates_fields split: option.splits if_splits)
qed

lemma wf_disjoint_merge_updates:
  assumes "wf_disjoint prev" and "wf_disjoint st" and "can_follow prev st"
  shows "wf_disjoint (merge_updates prev st)"
proof -
  have poss: "merge_table (change_of prev j) (change_of st j) \<noteq> None" for j
    using assms(3) by (simp add: can_follow_def)
  have A: "change_of prev j = Nop" if "j \<in> set (new_ids st)" for j
    using that poss [of j] change_of_cases(1) [OF assms(2), of j]
    by (cases "change_of prev j") simp_all
  have B: "map_of (old_values st) j = None" if "map_of (removed_values prev) j = Some v" for j v
  proof (rule ccontr)
    assume "map_of (old_values st) j \<noteq> None"
    then obtain w where "change_of st j = Upd w"
      using change_of_cases(2) [OF assms(2)] by blast
    with that poss [of j] show False
      using change_of_cases(3) [OF assms(1), of j v] by simp
  qed
  show ?thesis
  proof (rule wf_disjointI)
    fix j
    assume "j \<in> set (new_ids (merge_updates prev st))"
    then consider "j \<in> set (new_ids prev)" | "j \<in> set (new_ids st)" "change_of prev j = Nop"
      using A by (auto simp: merge_updates_fields)
    then show "map_of (old_values (merge_updates prev st)) j = None \<and>
        map_of (removed_values (merge_updates prev st)) j = None"
      using wf_disjointD [OF assms(1), of j] wf_disjointD [OF assms(2), of j]
      by cases (auto simp: merge_updates_fields change_of_def split: option.splits if_splits)
  next
    fix j v
    assume "map_of (removed_values (merge_updates prev st)) j = Some v"
    then show "map_of (old_values (merge_updates prev st)) j = None"
      using B [of j v] wf_disjointD(3) [OF assms(1), of j v] by (simp add: merge_updates_fields)
  qed
qed

lemma merge_state_table:
  assumes "wf_disjoint prev" and "wf_disjoint st" and "wf_keys st" and "can_follow prev st"
  shows "wf_disjoint (merge_state prev st)"
    and "Some (change_of (merge_state prev st) j) = merge_table (change_of prev j) (change_of st j)"
proof -
  note m = merge_removed_fold [OF wf_disjoint_merge_updates [OF assms(1,2,4)], of "removed_values st" j]
  have keys: "distinct (map fst (removed_values st))" using assms(3) by (simp add: wf_keys_def)
  show "wf_disjoint (merge_state prev st)" using m keys by (simp add: merge_state_split)
  have poss: "merge_table (change_of prev j) (change_of st j) \<noteq> None"
    using assms(4) by (simp add: can_follow_def)
  show "Some (change_of (merge_state prev st) j) = merge_table (change_of prev j) (change_of st j)"
  proof (cases "map_of (removed_values st) j")
    case None
    then have "\<And>v. change_of st j \<noteq> Del v"
      using change_of_cases(3) [OF assms(2), of j] by auto
    with None m keys poss show ?thesis
      by (cases "change_of st j"; cases "change_of prev j")
        (simp_all add: merge_state_split merge_updates_change [OF assms(1,2,4)])
  next
    case (Some v)
    then have "change_of st j = Del v" using change_of_cases(3) [OF assms(2), of j] by simp
    with Some m keys poss show ?thesis
      by (cases "change_of prev j")
        (simp_all add: merge_state_split merge_updates_change [OF assms(1,2,4)])
  qed
qed

lemma merge_state_next_ids:
  "map_of (old_index_next_ids (merge_state prev st)) j =
     (case map_of (old_index_next_ids prev) j of
        Some v \<Rightarrow> Some v | None \<Rightarrow> map_of (old_index_next_ids st) j)"
  by (simp add: merge_state_split merge_updates_fields)

lemma merge_keys_steps:
  "wf_keys p \<Longrightarrow> wf_keys (merge_old_value x p)"
  "wf_keys p \<Longrightarrow> wf_keys (merge_next_id y p)"
  "wf_keys p \<Longrightarrow> wf_keys (merge_removed x p)"
  by (auto simp: wf_keys_def merge_old_value_def merge_next_id_def merge_removed_def
      distinct_keys_update distinct_keys_delete distinct_removeAll split: prod.split option.split)

lemma fold_invariant_simple: "P p \<Longrightarrow> (\<And>x p. P p \<Longrightarrow> P (f x p)) \<Longrightarrow> P (fold f xs p)"
  by (induction xs arbitrary: p) auto

lemma distinct_fold_insert: "distinct ys \<Longrightarrow> distinct (fold List.insert xs ys)"
  by (rule fold_invariant_simple) auto

lemma wf_keys_merge_state:
  assumes "wf_keys prev"
  shows "wf_keys (merge_state prev st)"
proof -
  have 1: "wf_keys (fold merge_old_value (old_values st) prev)"
    using assms by (rule fold_invariant_simple) (rule merge_keys_steps)
  then have 2: "wf_keys ((fold merge_old_value (old_values st) prev)\<lparr>new_ids :=
      fold List.insert (new_ids st) (new_ids (fold merge_old_value (old_values st) prev))\<rparr>)"
    by (simp add: wf_keys_def distinct_fold_insert)
  show ?thesis
    unfolding merge_state_split merge_updates_def Let_def
    by (intro fold_invariant_simple [where P = wf_keys] merge_keys_steps 2)
qed

subsection \<open>Undo states track a store\<close>

text \<open>
  Identifiers in use lie below the next identifier of their index, and an index holds
  identifiers of its own space and type.
\<close>

definition ids_ok :: "'v store \<Rightarrow> bool" where
  "ids_ok s \<longleftrightarrow>
     (\<forall>i v. fst s i = Some v \<longrightarrow> (\<exists>n. snd s (index_id i) = Some n \<and> i < n)) \<and>
     (\<forall>i n. snd s i = Some n \<longrightarrow> index_id n = i)"

definition next_tracked :: "'v store \<Rightarrow> 'v undo_state \<Rightarrow> 'v store \<Rightarrow> bool" where
  "next_tracked b u c \<longleftrightarrow>
     snd b = snd c ++ map_of (old_index_next_ids u) \<and>
     (\<forall>i n. snd b i = Some n \<longrightarrow> (\<exists>m. snd c i = Some m \<and> n \<le> m))"

definition new_ids_tracked :: "'v store \<Rightarrow> 'v undo_state \<Rightarrow> bool" where
  "new_ids_tracked b u \<longleftrightarrow> (\<forall>i \<in> set (new_ids u). \<exists>n. snd b (index_id i) = Some n \<and> n \<le> i)"

definition objs_tracked :: "'v store \<Rightarrow> 'v undo_state \<Rightarrow> 'v store \<Rightarrow> bool" where
  "objs_tracked b u c \<longleftrightarrow>
     (\<forall>i. change_possible (change_of u i) (fst c i) \<and>
          fst b i = before_change (change_of u i) (fst c i))"

definition tracks :: "'v store \<Rightarrow> 'v undo_state \<Rightarrow> 'v store \<Rightarrow> bool" where
  "tracks b u c \<longleftrightarrow>
     wf_keys u \<and> wf_disjoint u \<and> objs_tracked b u c \<and> next_tracked b u c \<and>
     new_ids_tracked b u \<and> ids_ok b \<and> ids_ok c"

text \<open>The three kinds of change, as functions on a store and on an undo state.\<close>

datatype 'v db_op = Create object_id_type "object_id_type \<Rightarrow> 'v" | Modify object_id_type "'v \<Rightarrow> 'v" | Remove object_id_type

fun store_exec :: "'v db_op \<Rightarrow> 'v store \<Rightarrow> 'v store option" where
  "store_exec (Create i c) (ob, nx) =
     (case nx (index_id i) of
        None \<Rightarrow> None
      | Some n \<Rightarrow>
          if ob n \<noteq> None \<or> id_instance n = GRAPHENE_DB_MAX_INSTANCE_ID then None
          else Some (ob(n \<mapsto> c n), nx(index_id i \<mapsto> id_succ n)))"
| "store_exec (Modify i m) (ob, nx) =
     (case ob i of None \<Rightarrow> None | Some v \<Rightarrow> Some (ob(i \<mapsto> m v), nx))"
| "store_exec (Remove i) (ob, nx) =
     (case ob i of None \<Rightarrow> None | Some v \<Rightarrow> Some (ob(i := None), nx))"

fun op_log :: "'v db_op \<Rightarrow> 'v store \<Rightarrow> 'v undo_state \<Rightarrow> 'v undo_state" where
  "op_log (Create i c) s u = log_create (the (snd s (index_id i))) u"
| "op_log (Modify i m) s u = log_modify i (the (fst s i)) u"
| "op_log (Remove i) s u = log_remove i (the (fst s i)) u"

lemma tracks_empty: "ids_ok s \<Longrightarrow> tracks s empty_undo_state s"
  by (auto simp: tracks_def objs_tracked_def next_tracked_def new_ids_tracked_def change_possible_def
      before_change_def empty_undo_state_def [of] wf_keys_def wf_disjoint_def change_of_def)

lemma next_tracked_cong:
  "old_index_next_ids u' = old_index_next_ids u \<Longrightarrow> snd c' = snd c \<Longrightarrow>
   next_tracked b u' c' \<longleftrightarrow> next_tracked b u c"
  by (simp add: next_tracked_def)

lemma log_index_next_ids [simp]:
  "old_index_next_ids (log_modify i v u) = old_index_next_ids u"
  "old_index_next_ids (log_remove i v u) = old_index_next_ids u"
  by (simp_all add: log_modify_def log_remove_def split: option.split)

lemma tracks_modify:
  assumes tr: "tracks b u (ob, nx)" and v: "ob i = Some v"
  shows "tracks b (log_modify i v u) (ob(i \<mapsto> w), nx)"
proof -
  have wf: "wf_disjoint u" "wf_keys u" and ot: "objs_tracked b u (ob, nx)"
    using tr by (simp_all add: tracks_def)
  have nd: "change_of u i \<noteq> Del x" for x
    using ot v unfolding objs_tracked_def by (auto simp: change_possible_def dest: spec [of _ i])
  have "objs_tracked b (log_modify i v u) (ob(i \<mapsto> w), nx)"
    using ot v nd unfolding objs_tracked_def change_of_log_modify [OF wf(1)]
    by (auto simp: change_possible_def before_change_def split: change.splits)
  moreover have "next_tracked b (log_modify i v u) (ob(i \<mapsto> w), nx)"
    using tr next_tracked_cong [of "log_modify i v u" u "(ob(i \<mapsto> w), nx)" "(ob, nx)" b]
    by (simp add: tracks_def)
  moreover have "ids_ok (ob(i \<mapsto> w), nx)"
    using tr v by (auto simp: tracks_def ids_ok_def)
  moreover have "new_ids_tracked b (log_modify i v u)"
    using tr by (simp add: tracks_def new_ids_tracked_def log_modify_def)
  ultimately show ?thesis
    using tr wf nd by (simp add: tracks_def wf_keys_log wf_disjoint_log_modify)
qed

lemma tracks_remove:
  assumes tr: "tracks b u (ob, nx)" and v: "ob i = Some v"
  shows "tracks b (log_remove i v u) (ob(i := None), nx)"
proof -
  have wf: "wf_disjoint u" "wf_keys u" and ot: "objs_tracked b u (ob, nx)"
    using tr by (simp_all add: tracks_def)
  have "objs_tracked b (log_remove i v u) (ob(i := None), nx)"
    using ot v unfolding objs_tracked_def change_of_log_remove [OF wf(1)]
    by (auto simp: change_possible_def before_change_def after_remove_def split: change.splits)
  moreover have "next_tracked b (log_remove i v u) (ob(i := None), nx)"
    using tr next_tracked_cong [of "log_remove i v u" u "(ob(i := None), nx)" "(ob, nx)" b]
    by (simp add: tracks_def)
  moreover have "ids_ok (ob(i := None), nx)"
    using tr by (auto simp: tracks_def ids_ok_def)
  moreover have "new_ids_tracked b (log_remove i v u)"
    using tr by (simp add: tracks_def new_ids_tracked_def log_remove_def split: option.split)
  ultimately show ?thesis
    using tr wf by (simp add: tracks_def wf_keys_log wf_disjoint_log_remove)
qed

lemma tracks_fresh:
  assumes tr: "tracks b u (ob, nx)" and n: "nx j = Some n"
  shows "ob n = None" and "fst b n = None" and "change_of u n = Nop"
proof -
  have ix: "index_id n = j" using tr n by (auto simp: tracks_def ids_ok_def)
  have "ids_ok (ob, nx)" and "ids_ok b" and nt: "next_tracked b u (ob, nx)"
    and ot: "objs_tracked b u (ob, nx)" using tr by (simp_all add: tracks_def)
  then show ob: "ob n = None"
    using n ix unfolding ids_ok_def by (metis fst_conv snd_conv not_Some_eq option.inject order_less_irrefl)
  show b: "fst b n = None"
  proof (rule ccontr)
    assume "fst b n \<noteq> None"
    then obtain m where m: "snd b j = Some m" "n < m"
      using \<open>ids_ok b\<close> ix unfolding ids_ok_def by blast
    then have "m \<le> n" using nt n unfolding next_tracked_def by fastforce
    with m(2) show False by simp
  qed
  have "change_possible (change_of u n) None" "None = before_change (change_of u n) None"
    using ot ob b unfolding objs_tracked_def by (metis fst_conv)+
  then show "change_of u n = Nop"
    by (cases "change_of u n") (simp_all add: change_possible_def before_change_def)
qed

lemma tracks_create:
  assumes tr: "tracks b u (ob, nx)" and n: "nx (index_id i) = Some n"
    and room: "id_instance n \<noteq> GRAPHENE_DB_MAX_INSTANCE_ID"
  shows "tracks b (log_create n u) (ob(n \<mapsto> w), nx(index_id i \<mapsto> id_succ n))"
proof -
  have wf: "wf_disjoint u" "wf_keys u" and ot: "objs_tracked b u (ob, nx)"
    and nt: "next_tracked b u (ob, nx)" and idc: "ids_ok (ob, nx)"
    using tr by (simp_all add: tracks_def)
  note fresh = tracks_fresh [OF tr n]
  have ix: "index_id n = index_id i" using idc n by (auto simp: ids_ok_def)
  have up: "n \<le> id_succ n" using id_less_succ [OF room] by simp
  have "objs_tracked b (log_create n u) (ob(n \<mapsto> w), nx(index_id i \<mapsto> id_succ n))"
    using ot fresh unfolding objs_tracked_def change_of_log_create [OF fresh(3)]
    by (auto simp: change_possible_def before_change_def)
  moreover have "next_tracked b (log_create n u) (ob(n \<mapsto> w), nx(index_id i \<mapsto> id_succ n))"
  proof -
    have olds: "map_of (old_index_next_ids (log_create n u)) =
        [index_id i \<mapsto> n] ++ map_of (old_index_next_ids u)"
      by (auto simp: log_create_def Let_def ix map_add_def fun_eq_iff split: option.split)
    have A: "snd b = (nx(index_id i \<mapsto> id_succ n)) ++ map_of (old_index_next_ids (log_create n u))"
      using nt n unfolding next_tracked_def olds
      by (auto simp: map_add_def fun_eq_iff split: option.split)
    have B: "\<exists>m. (nx(index_id i \<mapsto> id_succ n)) j = Some m \<and> k \<le> m" if "snd b j = Some k" for j k
    proof -
      have "\<forall>i n. snd b i = Some n \<longrightarrow> (\<exists>m. snd (ob, nx) i = Some m \<and> n \<le> m)"
        using nt unfolding next_tracked_def by blast
      with that obtain m where "nx j = Some m" "k \<le> m" by fastforce
      with n up show ?thesis by (cases "j = index_id i") auto
    qed
    show ?thesis using A B by (simp add: next_tracked_def)
  qed
  moreover have "ids_ok (ob(n \<mapsto> w), nx(index_id i \<mapsto> id_succ n))"
    using idc n id_less_succ [OF room] index_id_succ [OF room] unfolding ids_ok_def
    by (auto simp: ix dest: less_trans)
  moreover have "new_ids_tracked b (log_create n u)"
  proof -
    have "\<exists>k. snd b (index_id n) = Some k \<and> k \<le> n"
    proof (cases "snd b (index_id i)")
      case None
      then show ?thesis using nt n unfolding next_tracked_def by (auto simp: map_add_None)
    next
      case (Some k)
      moreover have "\<forall>i n. snd b i = Some n \<longrightarrow> (\<exists>m. snd (ob, nx) i = Some m \<and> n \<le> m)"
        using nt unfolding next_tracked_def by blast
      ultimately show ?thesis using n ix by fastforce
    qed
    then show ?thesis
      using tr by (auto simp: tracks_def new_ids_tracked_def log_create_def Let_def)
  qed
  ultimately show ?thesis
    using tr wf fresh(3) by (simp add: tracks_def wf_keys_log wf_disjoint_log_create)
qed

lemma tracks_exec:
  assumes "tracks b u s" and "store_exec op s = Some t"
  shows "tracks b (op_log op s u) t"
  using assms
  by (cases s; cases op)
    (auto simp: tracks_create tracks_modify tracks_remove split: option.splits if_splits)

lemma before_change_merge:
  "merge_table c1 c2 = Some c \<Longrightarrow> change_possible c2 now \<Longrightarrow>
   before_change c1 (before_change c2 now) = before_change c now"
  by (cases c1; cases c2) (auto simp: before_change_def change_possible_def)

lemma change_possible_merge:
  "merge_table c1 c2 = Some c \<Longrightarrow> change_possible c1 (before_change c2 now) \<Longrightarrow>
   change_possible c2 now \<Longrightarrow> change_possible c now"
  by (cases c1; cases c2) (auto simp: before_change_def change_possible_def)

lemma merge_table_defined:
  assumes "change_possible c2 now" and "change_possible c1 (before_change c2 now)"
    and "\<And>x. c1 = Del x \<Longrightarrow> c2 \<noteq> New"
  shows "merge_table c1 c2 \<noteq> None"
  using assms by (cases c1; cases c2) (auto simp: before_change_def change_possible_def)

lemma new_not_deleted:
  assumes 1: "tracks a p b" and 2: "tracks b st c" and "change_of p i = Del x"
  shows "change_of st i \<noteq> New"
proof
  assume "change_of st i = New"
  then have "i \<in> set (new_ids st)" by (simp add: change_of_def split: option.splits if_splits)
  then obtain n where n: "snd b (index_id i) = Some n" "n \<le> i"
    using 2 unfolding tracks_def new_ids_tracked_def by blast
  have "fst a i = Some x"
    using 1 assms(3) unfolding tracks_def objs_tracked_def by (metis before_change_def change.simps(17))
  then obtain m where m: "snd a (index_id i) = Some m" "i < m"
    using 1 unfolding tracks_def ids_ok_def by blast
  then have "m \<le> n" using 1 n(1) unfolding tracks_def next_tracked_def by fastforce
  with n(2) m(2) show False by simp
qed

lemma next_tracked_merge:
  assumes "next_tracked a p b" and "next_tracked b st c"
  shows "next_tracked a (merge_state p st) c"
proof -
  have "map_of (old_index_next_ids (merge_state p st)) =
      map_of (old_index_next_ids st) ++ map_of (old_index_next_ids p)"
    by (simp add: merge_state_next_ids map_add_def fun_eq_iff)
  moreover have "\<exists>m. snd c i = Some m \<and> n \<le> m" if "snd a i = Some n" for i n
  proof -
    from assms(1) that obtain k where k: "snd b i = Some k" "n \<le> k"
      unfolding next_tracked_def by blast
    from assms(2) k(1) obtain m where "snd c i = Some m" "k \<le> m"
      unfolding next_tracked_def by blast
    with k(2) show ?thesis by (blast intro: order_trans)
  qed
  ultimately show ?thesis
    using assms unfolding next_tracked_def by simp
qed

lemma new_ids_merge_state:
  "set (new_ids (merge_state p st)) \<subseteq> set (new_ids st) \<union> set (new_ids p)"
proof -
  have "set (new_ids (fold merge_removed xs q)) \<subseteq> set (new_ids q)" for xs and q :: "'a undo_state"
  proof (induction xs arbitrary: q)
    case (Cons x xs)
    have "set (new_ids (merge_removed x q)) \<subseteq> set (new_ids q)"
      by (auto simp: merge_removed_def split: prod.splits option.splits if_splits)
    with Cons show ?case by fastforce
  qed simp
  then show ?thesis unfolding merge_state_split by (metis merge_updates_fields(1))
qed

lemma tracks_merge:
  assumes 1: "tracks a p b" and 2: "tracks b st c"
  shows "tracks a (merge_state p st) c"
proof -
  have wf: "wf_disjoint p" "wf_disjoint st" "wf_keys st" "wf_keys p" using 1 2 by (simp_all add: tracks_def)
  have o1: "change_possible (change_of p i) (fst b i)" "fst a i = before_change (change_of p i) (fst b i)"
    and o2: "change_possible (change_of st i) (fst c i)" "fst b i = before_change (change_of st i) (fst c i)" for i
    using 1 2 unfolding tracks_def objs_tracked_def by blast+
  have cf: "can_follow p st"
    unfolding can_follow_def using o1(1) o2 merge_table_defined new_not_deleted [OF 1 2] by metis
  note m = merge_state_table [OF wf(1-3) cf]
  have "objs_tracked a (merge_state p st) c"
    unfolding objs_tracked_def
    using before_change_merge [OF m(2) [symmetric]] change_possible_merge [OF m(2) [symmetric]] o1 o2
    by metis
  moreover have "next_tracked a (merge_state p st) c"
    using 1 2 by (auto simp: tracks_def intro: next_tracked_merge)
  moreover have "new_ids_tracked a (merge_state p st)"
  proof -
    have "\<exists>n. snd a j = Some n \<and> n \<le> i" if "snd b j = Some k" "k \<le> i" for i j k
      using 1 that unfolding tracks_def next_tracked_def
      by (cases "snd a j") (fastforce simp: map_add_def split: option.splits intro: order_trans)+
    then show ?thesis
      using 1 2 new_ids_merge_state unfolding tracks_def new_ids_tracked_def by blast
  qed
  ultimately show ?thesis
    using 1 2 m(1) wf_keys_merge_state [OF wf(4)] by (simp add: tracks_def)
qed

subsection \<open>Reverting an undo state\<close>

lemma on_head_disabled [simp]: "disabled d \<Longrightarrow> on_head f d = d"
  by (simp add: on_head_def)

lemma forS_modify:
  assumes "disabled d" and "distinct (map fst xs)"
    and "\<forall>i \<in> fst ` set xs. objs d i \<noteq> None \<and> next_ids d (index_id i) \<noteq> None"
  shows "forS (\<lambda>(i, v). db_modify i (\<lambda>_. v)) xs d = (Inr (), d\<lparr>objs := objs d ++ map_of xs\<rparr>)"
  using assms
proof (induction xs arbitrary: d)
  case (Cons x xs)
  obtain i v where x: "x = (i, v)" by (cases x)
  let ?d = "d\<lparr>objs := (objs d)(i \<mapsto> v)\<rparr>"
  obtain w n where "objs d i = Some w" "next_ids d (index_id i) = Some n"
    using Cons.prems(3) x by auto
  then have step: "db_modify i (\<lambda>_. v) d = (Inr (), ?d)"
    using Cons.prems(1)
    by (simp add: db_modify_def get_object_def get_index_def undo_on_modify_def bindS_def)
  have "(objs d)(i \<mapsto> v) ++ map_of xs = objs d ++ (map_of xs)(i \<mapsto> v)"
    using Cons.prems(2) x by (intro map_add_upd_fresh) simp
  moreover have "forS (\<lambda>(i, v). db_modify i (\<lambda>_. v)) xs ?d = (Inr (), ?d\<lparr>objs := objs ?d ++ map_of xs\<rparr>)"
    using Cons.prems by (intro Cons.IH) auto
  ultimately show ?case by (simp add: x bindS_def step fun_upd_def)
qed simp

lemma forS_remove:
  assumes "disabled d" and "distinct xs"
    and "\<forall>i \<in> set xs. objs d i \<noteq> None \<and> next_ids d (index_id i) \<noteq> None"
  shows "forS db_remove xs d = (Inr (), d\<lparr>objs := objs d |` (- set xs)\<rparr>)"
  using assms
proof (induction xs arbitrary: d)
  case (Cons i xs)
  let ?d = "d\<lparr>objs := (objs d)(i := None)\<rparr>"
  obtain w n where "objs d i = Some w" "next_ids d (index_id i) = Some n"
    using Cons.prems(3) by auto
  then have step: "db_remove i d = (Inr (), ?d)"
    using Cons.prems(1)
    by (simp add: db_remove_def get_object_def get_index_def undo_on_remove_def bindS_def)
  have "(objs d)(i := None) |` (- set xs) = objs d |` (- set (i # xs))"
    by (auto simp: restrict_map_def fun_eq_iff)
  moreover have "forS db_remove xs ?d = (Inr (), ?d\<lparr>objs := objs ?d |` (- set xs)\<rparr>)"
    using Cons.prems by (intro Cons.IH) auto
  ultimately show ?case by (simp add: bindS_def step)
qed (simp add: restrict_map_def)

lemma forS_set_next_id:
  assumes "distinct (map fst xs)"
    and "\<forall>i \<in> fst ` set xs. next_ids d i \<noteq> None \<and> index_id i = i"
  shows "forS (\<lambda>(i, n). set_next_id i n) xs d = (Inr (), d\<lparr>next_ids := next_ids d ++ map_of xs\<rparr>)"
  using assms
proof (induction xs arbitrary: d)
  case (Cons x xs)
  obtain i m where x: "x = (i, m)" by (cases x)
  let ?d = "d\<lparr>next_ids := (next_ids d)(i \<mapsto> m)\<rparr>"
  obtain n where "next_ids d i = Some n" and ix: "index_id i = i" using Cons.prems(2) x by auto
  then have step: "set_next_id i m d = (Inr (), ?d)"
    by (simp add: set_next_id_def get_index_def bindS_def)
  have "(next_ids d)(i \<mapsto> m) ++ map_of xs = next_ids d ++ (map_of xs)(i \<mapsto> m)"
    using Cons.prems(1) x by (intro map_add_upd_fresh) simp
  moreover have "forS (\<lambda>(i, n). set_next_id i n) xs ?d = (Inr (), ?d\<lparr>next_ids := next_ids ?d ++ map_of xs\<rparr>)"
    using Cons.prems by (intro Cons.IH) auto
  ultimately show ?case by (simp add: x bindS_def step fun_upd_def)
qed simp

lemma forS_insert:
  assumes "distinct (map fst xs)"
    and "\<forall>i \<in> fst ` set xs. objs d i = None \<and> next_ids d (index_id i) \<noteq> None"
  shows "forS (\<lambda>(i, v). db_insert i v) xs d = (Inr (), d\<lparr>objs := objs d ++ map_of xs\<rparr>)"
  using assms
proof (induction xs arbitrary: d)
  case (Cons x xs)
  obtain i v where x: "x = (i, v)" by (cases x)
  let ?d = "d\<lparr>objs := (objs d)(i \<mapsto> v)\<rparr>"
  obtain n where "objs d i = None" "next_ids d (index_id i) = Some n"
    using Cons.prems(2) x by auto
  then have step: "db_insert i v d = (Inr (), ?d)"
    by (simp add: db_insert_def get_index_def bindS_def)
  have "(objs d)(i \<mapsto> v) ++ map_of xs = objs d ++ (map_of xs)(i \<mapsto> v)"
    using Cons.prems(1) x by (intro map_add_upd_fresh) simp
  moreover have "forS (\<lambda>(i, v). db_insert i v) xs ?d = (Inr (), ?d\<lparr>objs := objs ?d ++ map_of xs\<rparr>)"
    using Cons.prems x by (intro Cons.IH) (auto simp: map_of_eq_None_iff)
  ultimately show ?case by (simp add: x bindS_def step fun_upd_def)
qed simp

definition store_of :: "'v object_database \<Rightarrow> 'v store" where
  "store_of d = (objs d, next_ids d)"

definition with_store :: "'v store \<Rightarrow> 'v object_database \<Rightarrow> 'v object_database" where
  "with_store s d = d\<lparr>objs := fst s, next_ids := snd s\<rparr>"

lemma tracks_base_objs:
  assumes "tracks b u c"
  shows "fst b = ((fst c ++ map_of (old_values u)) |` (- set (new_ids u))) ++ map_of (removed_values u)"
proof (rule ext)
  fix i
  have wf: "wf_disjoint u" and "fst b i = before_change (change_of u i) (fst c i)"
    using assms unfolding tracks_def objs_tracked_def by blast+
  then show "fst b i = (((fst c ++ map_of (old_values u)) |` (- set (new_ids u))) ++ map_of (removed_values u)) i"
    using wf_disjointD [OF wf, of i]
    by (auto simp: before_change_def change_of_def map_add_def restrict_map_def split: option.splits)
qed

lemma tracks_keys_present:
  assumes "tracks b u c"
  shows "i \<in> fst ` set (old_values u) \<Longrightarrow> fst c i \<noteq> None"
    and "i \<in> set (new_ids u) \<Longrightarrow> fst c i \<noteq> None"
    and "i \<in> fst ` set (removed_values u) \<Longrightarrow> fst c i = None \<and> fst b i \<noteq> None"
proof -
  have wf: "wf_disjoint u" and ot: "change_possible (change_of u i) (fst c i)"
      "fst b i = before_change (change_of u i) (fst c i)"
    using assms unfolding tracks_def objs_tracked_def by blast+
  show "i \<in> fst ` set (old_values u) \<Longrightarrow> fst c i \<noteq> None"
  proof -
    assume "i \<in> fst ` set (old_values u)"
    then obtain v where "change_of u i = Upd v"
      using change_of_cases(2) [OF wf] by (metis map_of_eq_None_iff not_Some_eq)
    with ot show ?thesis by (simp add: change_possible_def)
  qed
  show "i \<in> set (new_ids u) \<Longrightarrow> fst c i \<noteq> None"
    using ot change_of_cases(1) [OF wf, of i] by (simp add: change_possible_def)
  show "i \<in> fst ` set (removed_values u) \<Longrightarrow> fst c i = None \<and> fst b i \<noteq> None"
  proof -
    assume "i \<in> fst ` set (removed_values u)"
    then obtain v where "change_of u i = Del v"
      using change_of_cases(3) [OF wf] by (metis map_of_eq_None_iff not_Some_eq)
    with ot show ?thesis by (simp add: change_possible_def before_change_def)
  qed
qed

lemma revert_state_restores:
  assumes tr: "tracks b u (store_of d)" and dis: "disabled d"
  shows "revert_state u d = (Inr (), with_store b d)"
proof -
  have keys: "distinct (map fst (old_values u))" "distinct (map fst (removed_values u))"
      "distinct (new_ids u)" "distinct (map fst (old_index_next_ids u))"
    using tr by (simp_all add: tracks_def wf_keys_def)
  have nx: "snd b = next_ids d ++ map_of (old_index_next_ids u)"
    and nxm: "\<And>i n. snd b i = Some n \<Longrightarrow> next_ids d i \<noteq> None"
    using tr unfolding tracks_def next_tracked_def store_of_def by fastforce+
  have reg: "objs d i \<noteq> None \<Longrightarrow> next_ids d (index_id i) \<noteq> None" for i
    using tr unfolding tracks_def ids_ok_def store_of_def by fastforce
  have regb: "fst b i \<noteq> None \<Longrightarrow> snd b (index_id i) \<noteq> None" for i
    using tr unfolding tracks_def ids_ok_def by fastforce
  have idx: "next_ids d i \<noteq> None \<and> index_id i = i" if "i \<in> fst ` set (old_index_next_ids u)" for i
  proof -
    from that obtain n where "map_of (old_index_next_ids u) i = Some n"
      by (metis map_of_eq_None_iff not_Some_eq)
    then have n: "snd b i = Some n" by (simp add: nx)
    then have "index_id n = i" using tr unfolding tracks_def ids_ok_def by blast
    with nxm [OF n] show ?thesis by (metis index_id_idem)
  qed
  note present = tracks_keys_present [OF tr, unfolded store_of_def fst_conv]
  let ?d1 = "d\<lparr>objs := objs d ++ map_of (old_values u)\<rparr>"
  let ?d2 = "?d1\<lparr>objs := objs ?d1 |` (- set (new_ids u))\<rparr>"
  let ?d3 = "?d2\<lparr>next_ids := next_ids ?d2 ++ map_of (old_index_next_ids u)\<rparr>"
  have 1: "forS (\<lambda>(i, v). db_modify i (\<lambda>_. v)) (old_values u) d = (Inr (), ?d1)"
    using dis keys(1) present(1) reg by (intro forS_modify) blast+
  have 2: "forS db_remove (new_ids u) ?d1 = (Inr (), ?d2)"
    using dis keys(3) present(2) reg by (intro forS_remove) (auto simp: map_add_None)
  have 3: "forS (\<lambda>(i, n). set_next_id i n) (old_index_next_ids u) ?d2 = (Inr (), ?d3)"
    using keys(4) idx by (intro forS_set_next_id) auto
  have nx3: "next_ids ?d3 = snd b" by (simp add: nx)
  have 4: "forS (\<lambda>(i, v). db_insert i v) (removed_values u) ?d3 =
      (Inr (), ?d3\<lparr>objs := objs ?d3 ++ map_of (removed_values u)\<rparr>)"
  proof (rule forS_insert [OF keys(2)], rule ballI)
    fix i
    assume i: "i \<in> fst ` set (removed_values u)"
    have "map_of (old_values u) i = None"
      using i tr wf_disjointD(3) unfolding tracks_def by (metis map_of_eq_None_iff not_Some_eq)
    then have "objs ?d3 i = None"
      using present(3) [OF i] by (simp add: restrict_map_def map_add_None)
    moreover have "next_ids ?d3 (index_id i) \<noteq> None"
      using present(3) [OF i] regb unfolding nx3 by blast
    ultimately show "objs ?d3 i = None \<and> next_ids ?d3 (index_id i) \<noteq> None" by blast
  qed
  have "?d3\<lparr>objs := objs ?d3 ++ map_of (removed_values u)\<rparr> = with_store b d"
    using tracks_base_objs [OF tr] nx by (simp add: with_store_def store_of_def)
  then show ?thesis
    unfolding revert_state_def
    by (simp only: bindS_def 1 2 3 4 prod.case sum.case)
qed

subsection \<open>The contract of an undo log\<close>

text \<open>
  What the session code needs from the bookkeeping: an empty log tracks the identity, logging
  an operation keeps the log exact, and two logs compose. Everything about nested sessions
  follows from these three laws.
\<close>

locale undo_log =
  fixes good :: "'s \<Rightarrow> bool"
    and empty_log :: "'u"
    and exec :: "'op \<Rightarrow> 's \<Rightarrow> 's option"
    and log :: "'op \<Rightarrow> 's \<Rightarrow> 'u \<Rightarrow> 'u"
    and combine :: "'u \<Rightarrow> 'u \<Rightarrow> 'u"
    and track :: "'s \<Rightarrow> 'u \<Rightarrow> 's \<Rightarrow> bool"
  assumes track_empty: "good s \<Longrightarrow> track s empty_log s"
    and track_exec: "track b u s \<Longrightarrow> exec op s = Some t \<Longrightarrow> track b (log op s u) t"
    and track_combine: "track a p b \<Longrightarrow> track b u c \<Longrightarrow> track a (combine p u) c"
    and track_good: "track b u s \<Longrightarrow> good b \<and> good s"
begin

text \<open>A stack of logs (head first) and the stores they lead back to.\<close>

fun chained :: "'s \<Rightarrow> 'u list \<Rightarrow> 's list \<Rightarrow> bool" where
  "chained c [] [] \<longleftrightarrow> good c"
| "chained c (u # us) (b # bs) \<longleftrightarrow> track b u c \<and> chained b us bs"
| "chained c _ _ \<longleftrightarrow> False"

lemma chained_good: "chained c us bs \<Longrightarrow> good c"
  by (cases "(c, us, bs)" rule: chained.cases) (auto dest: track_good)

lemma chained_push: "chained c us bs \<Longrightarrow> chained c (empty_log # us) (c # bs)"
  by (auto intro: track_empty chained_good)

lemma chained_take: "chained c us bs \<Longrightarrow> chained c (take m us) (take m bs)"
  by (induction c us bs arbitrary: m rule: chained.induct)
    (auto simp: take_Cons' dest: track_good chained_good)

lemma chained_exec:
  "chained c (u # us) (b # bs) \<Longrightarrow> exec op c = Some t \<Longrightarrow> chained t (log op c u # us) (b # bs)"
  by (auto intro: track_exec)

lemma chained_combine:
  "chained c (u # p # us) (b # a # bs) \<Longrightarrow> chained c (combine p u # us) (a # bs)"
  by (auto intro: track_combine)

lemma chained_pop: "chained c (u # us) (b # bs) \<Longrightarrow> track b u c \<and> chained b us bs"
  by simp

lemma chained_length: "chained c us bs \<Longrightarrow> length us = length bs"
  by (induction c us bs rule: chained.induct) auto

end

lemma tracks_good: "tracks b u s \<Longrightarrow> ids_ok b \<and> ids_ok s"
  by (simp add: tracks_def)

interpretation ul: undo_log ids_ok empty_undo_state store_exec op_log merge_state tracks
  by unfold_locales (fact tracks_empty tracks_exec tracks_merge tracks_good)+

subsection \<open>Sessions refine a stack of snapshots\<close>

text \<open>
  The specification of the component is a machine that simply copies the whole store: a
  session start saves a copy, an undo goes back to the last copy, a merge forgets the last
  copy, a commit changes nothing. \<open>refines\<close> relates a database to the current store of such
  a machine and its saved copies, newest first.
\<close>

definition refines :: "'v object_database \<Rightarrow> 'v store \<Rightarrow> 'v store list \<Rightarrow> bool" where
  "refines d cur copies \<longleftrightarrow> store_of d = cur \<and> ul.chained cur (undo_stack d) copies"

text \<open>Running one operation, and a list of operations, on the database.\<close>

fun db_exec :: "'v db_op \<Rightarrow> ('v object_database, unit) action" where
  "db_exec (Create i c) = bindS (db_create i c) (\<lambda>_. returnS ())"
| "db_exec (Modify i m) = db_modify i m"
| "db_exec (Remove i) = db_remove i"

definition db_run :: "'v db_op list \<Rightarrow> ('v object_database, unit) action" where
  "db_run = forS db_exec"

fun store_run :: "'v db_op list \<Rightarrow> 'v store \<Rightarrow> 'v store option" where
  "store_run [] s = Some s"
| "store_run (op # ops) s = (case store_exec op s of None \<Rightarrow> None | Some t \<Rightarrow> store_run ops t)"

lemma ids_ok_index: "ids_ok (store_of d) \<Longrightarrow> objs d i = Some v \<Longrightarrow> \<exists>n. next_ids d (index_id i) = Some n"
  unfolding ids_ok_def store_of_def by (metis fst_conv snd_conv)

lemma db_exec_store:
  assumes ok: "ids_ok (store_of d)" and ex: "store_exec op (store_of d) = Some t"
    and en: "\<not> disabled d" and st: "undo_stack d = u # us"
  shows "db_exec op d = (Inr (), with_store t (d\<lparr>undo_stack := op_log op (store_of d) u # us\<rparr>))"
proof (cases op)
  case (Create i c)
  then show ?thesis
    using ex en st
    by (auto simp: store_of_def with_store_def db_create_def get_index_def bindS_def
        undo_on_create_def on_head_def split: option.splits if_splits)
next
  case (Modify i m)
  with ex obtain v where v: "objs d i = Some v" by (auto simp: store_of_def split: option.splits)
  then show ?thesis
    using Modify ids_ok_index [OF ok v] ex en st
    by (auto simp: store_of_def with_store_def db_modify_def get_object_def get_index_def bindS_def
        undo_on_modify_def on_head_def)
next
  case (Remove i)
  with ex obtain v where v: "objs d i = Some v" by (auto simp: store_of_def split: option.splits)
  then show ?thesis
    using Remove ids_ok_index [OF ok v] ex en st
    by (auto simp: store_of_def with_store_def db_remove_def get_object_def get_index_def bindS_def
        undo_on_remove_def on_head_def)
qed

lemma store_of_with_store [simp]: "store_of (with_store s d) = s"
  by (simp add: store_of_def with_store_def)

lemma with_store_fields [simp]:
  "undo_stack (with_store s d) = undo_stack d" "disabled (with_store s d) = disabled d"
  "active_sessions (with_store s d) = active_sessions d" "max_size (with_store s d) = max_size d"
  by (simp_all add: with_store_def)

lemma store_of_updates [simp]:
  "store_of (d\<lparr>undo_stack := x\<rparr>) = store_of d" "store_of (d\<lparr>active_sessions := n\<rparr>) = store_of d"
  "store_of (d\<lparr>disabled := b\<rparr>) = store_of d"
  by (simp_all add: store_of_def)

lemma undo_disable_fields [simp]:
  "undo_stack (undo_disable d) = undo_stack d" "disabled (undo_disable d)"
  "active_sessions (undo_disable d) = active_sessions d" "max_size (undo_disable d) = max_size d"
  "store_of (undo_disable d) = store_of d"
  by (simp_all add: undo_disable_def)

lemma undo_enable_fields [simp]:
  "undo_stack (undo_enable d) = undo_stack d" "\<not> disabled (undo_enable d)"
  "active_sessions (undo_enable d) = active_sessions d" "max_size (undo_enable d) = max_size d"
  "store_of (undo_enable d) = store_of d"
  by (simp_all add: undo_enable_def)

lemma db_exec_refines:
  assumes "refines d cur (b # bs)" and "\<not> disabled d" and "store_exec op cur = Some t"
  shows "\<exists>d'. db_exec op d = (Inr (), d') \<and> refines d' t (b # bs) \<and>
    disabled d' = disabled d \<and> active_sessions d' = active_sessions d \<and> max_size d' = max_size d"
proof -
  obtain u us where st: "undo_stack d = u # us" and cur: "store_of d = cur"
    and ch: "ul.chained cur (u # us) (b # bs)"
    using assms(1) unfolding refines_def by (cases "undo_stack d") auto
  have ok: "ids_ok (store_of d)" using ul.chained_good [OF ch] cur by simp
  show ?thesis
    using db_exec_store [OF ok _ assms(2) st] assms(3) cur ul.chained_exec [OF ch assms(3)]
    by (simp add: refines_def)
qed

lemma db_run_refines:
  assumes "refines d cur (b # bs)" and "\<not> disabled d" and "store_run ops cur = Some t"
  shows "\<exists>d'. db_run ops d = (Inr (), d') \<and> refines d' t (b # bs) \<and>
    disabled d' = disabled d \<and> active_sessions d' = active_sessions d \<and> max_size d' = max_size d"
  using assms
proof (induction ops arbitrary: d cur)
  case Nil
  then show ?case by (simp add: db_run_def)
next
  case (Cons op ops)
  obtain s where s: "store_exec op cur = Some s" "store_run ops s = Some t"
    using Cons.prems(3) by (auto split: option.splits)
  obtain d1 where d1: "db_exec op d = (Inr (), d1)" "refines d1 s (b # bs)" "disabled d1 = disabled d"
      "active_sessions d1 = active_sessions d" "max_size d1 = max_size d"
    using db_exec_refines [OF Cons.prems(1,2) s(1)] by blast
  show ?case
    using Cons.IH [OF d1(2) _ s(2)] d1 Cons.prems(2) by (auto simp: db_run_def)
qed

lemma start_refines:
  assumes "refines d cur copies" and "\<not> disabled d"
  shows "refines (snd (start_undo_session False d)) cur
      (if take (max_size d) copies = [] then [cur, cur] else cur # take (max_size d) copies)"
    and "\<not> disabled (snd (start_undo_session False d))"
    and "active_sessions (snd (start_undo_session False d)) = active_sessions d + 1"
proof -
  have ch: "ul.chained cur (take (max_size d) (undo_stack d)) (take (max_size d) copies)"
    and cur: "store_of d = cur"
    using assms(1) by (auto simp: refines_def intro: ul.chained_take)
  then have len: "length (take (max_size d) (undo_stack d)) = length (take (max_size d) copies)"
    using ul.chained_length by blast
  note p1 = ul.chained_push [OF ch] and p2 = ul.chained_push [OF ul.chained_push [OF ch]]
  show "refines (snd (start_undo_session False d)) cur
      (if take (max_size d) copies = [] then [cur, cur] else cur # take (max_size d) copies)"
  proof (cases "take (max_size d) copies = []")
    case True
    then have "take (max_size d) (undo_stack d) = []" using len by (metis length_0_conv)
    with True p2 cur assms(2) show ?thesis
      by (auto simp: refines_def start_undo_session_def trim_front_take Let_def)
  next
    case False
    then have "take (max_size d) (undo_stack d) \<noteq> []" using len by (metis length_0_conv)
    with False p1 cur assms(2) show ?thesis
      by (auto simp: refines_def start_undo_session_def trim_front_take Let_def min_def split: if_splits)
  qed
  show "\<not> disabled (snd (start_undo_session False d))"
    and "active_sessions (snd (start_undo_session False d)) = active_sessions d + 1"
    using assms(2) by (simp_all add: start_undo_session_def Let_def)
qed

lemma undo_refines:
  assumes "refines d cur (b # bs)" and "\<not> disabled d" and "0 < active_sessions d"
  shows "\<exists>d'. undo d = (Inr (), d') \<and> refines d' b (if bs = [] then [b] else bs) \<and>
    \<not> disabled d' \<and> active_sessions d' = active_sessions d - 1 \<and> max_size d' = max_size d"
proof -
  obtain u us where st: "undo_stack d = u # us" and cur: "store_of d = cur"
    and tr: "tracks b u cur" and ch: "ul.chained b us bs"
    using assms(1) unfolding refines_def by (cases "undo_stack d") auto
  have rv: "revert_state u (undo_disable d) = (Inr (), with_store b (undo_disable d))"
    using tr cur by (intro revert_state_restores) simp_all
  have "ul.chained b (if us = [] then [empty_undo_state] else us) (if bs = [] then [b] else bs)"
    using ch ul.chained_length [OF ch] ul.chained_push [OF ch] by (cases us; cases bs) auto
  then show ?thesis
    using assms(2,3) by (simp add: undo_def st bindS_def rv refines_def)
qed

lemma merge_refines:
  assumes "refines d cur (b # a # bs)" and "0 < active_sessions d"
  shows "\<exists>d'. merge d = (Inr (), d') \<and> refines d' cur (a # bs) \<and>
    disabled d' = disabled d \<and> active_sessions d' = active_sessions d - 1 \<and> max_size d' = max_size d"
proof -
  obtain u p us where st: "undo_stack d = u # p # us" and cur: "store_of d = cur"
    and ch: "ul.chained cur (u # p # us) (b # a # bs)"
    using assms(1) unfolding refines_def
    by (cases "undo_stack d"; cases "tl (undo_stack d)") auto
  show ?thesis
    using assms(2) ul.chained_combine [OF ch] by (simp add: merge_def st refines_def cur)
qed

lemma pop_commit_refines:
  assumes "refines d cur (b # bs)" and "active_sessions d = 0"
  shows "\<exists>d'. pop_commit d = (Inr (), d') \<and> refines d' b bs \<and>
    \<not> disabled d' \<and> active_sessions d' = 0 \<and> max_size d' = max_size d"
proof -
  obtain u us where st: "undo_stack d = u # us" and cur: "store_of d = cur"
    and tr: "tracks b u cur" and ch: "ul.chained b us bs"
    using assms(1) unfolding refines_def by (cases "undo_stack d") auto
  have rv: "revert_state u (undo_disable d) = (Inr (), with_store b (undo_disable d))"
    using tr cur by (intro revert_state_restores) simp_all
  show ?thesis
    using assms(2) ch
    by (simp add: pop_commit_def st bindS_def rv refines_def)
qed

text \<open>The first change with an empty stack opens an undo state by itself.\<close>

lemma db_exec_refines_empty:
  assumes "refines d cur []" and "\<not> disabled d" and "store_exec op cur = Some t"
  shows "\<exists>d'. db_exec op d = (Inr (), d') \<and> refines d' t [cur] \<and>
    disabled d' = disabled d \<and> active_sessions d' = active_sessions d \<and> max_size d' = max_size d"
proof -
  let ?e = "d\<lparr>undo_stack := [empty_undo_state]\<rparr>"
  have st: "undo_stack d = []" and "ul.chained cur [] []" and "store_of d = cur"
    using assms(1) unfolding refines_def by (cases "undo_stack d"; auto)+
  then have r: "refines ?e cur [cur]"
    using ul.chained_push [of cur "[]" "[]"] by (simp add: refines_def)
  have "on_head f d = on_head f ?e" for f
    using st assms(2) by (simp add: on_head_def)
  then have "on_head f (d\<lparr>objs := x, next_ids := y\<rparr>) = on_head f (?e\<lparr>objs := x, next_ids := y\<rparr>)" for f x y
    using st assms(2) by (simp add: on_head_def)
  moreover have "store_exec op (store_of d) = Some t" using assms(3) \<open>store_of d = cur\<close> by simp
  moreover have "objs d i = None" if "next_ids d (index_id i) = None" for i
    using ul.chained_good [OF \<open>ul.chained cur [] []\<close>] \<open>store_of d = cur\<close> ids_ok_index [of d i] that
    by (cases "objs d i") auto
  ultimately have "db_exec op d = db_exec op ?e"
    using \<open>\<And>f. on_head f d = on_head f ?e\<close>
    by (cases op)
      (auto simp: store_of_def db_create_def db_modify_def db_remove_def get_object_def get_index_def
        bindS_def undo_on_create_def undo_on_modify_def undo_on_remove_def
        split: option.splits if_splits)
  then show ?thesis
    using db_exec_refines [OF r _ assms(3)] assms(2) by auto
qed

text \<open>The commands of the component, on the database and on the snapshot machine.\<close>

datatype 'v cmd = Start | Exec "'v db_op" | Undo | Merge | Commit | Pop

fun impl_step :: "'v cmd \<Rightarrow> ('v object_database, unit) action" where
  "impl_step Start = updateS (\<lambda>d. snd (start_undo_session False d))"
| "impl_step (Exec op) = db_exec op"
| "impl_step Undo = undo"
| "impl_step Merge = merge"
| "impl_step Commit = commit"
| "impl_step Pop = pop_commit"

type_synonym 'v snapshots = "'v store \<times> 'v store list \<times> nat"

fun spec_step :: "nat \<Rightarrow> 'v cmd \<Rightarrow> 'v snapshots \<Rightarrow> 'v snapshots option" where
  "spec_step m Start (cur, copies, a) =
     Some (cur, (if take m copies = [] then [cur, cur] else cur # take m copies), a + 1)"
| "spec_step m (Exec op) (cur, copies, a) =
     (case store_exec op cur of
        None \<Rightarrow> None
      | Some t \<Rightarrow> Some (t, (if copies = [] then [cur] else copies), a))"
| "spec_step m Undo (cur, b # bs, Suc a) = Some (b, (if bs = [] then [b] else bs), a)"
| "spec_step m Merge (cur, _ # b # bs, Suc a) = Some (cur, b # bs, a)"
| "spec_step m Commit (cur, copies, Suc a) = Some (cur, copies, a)"
| "spec_step m Pop (cur, b # bs, 0) = Some (b, bs, 0)"
| "spec_step m _ _ = None"

fun spec_run :: "nat \<Rightarrow> 'v cmd list \<Rightarrow> 'v snapshots \<Rightarrow> 'v snapshots option" where
  "spec_run m [] s = Some s"
| "spec_run m (c # cs) s = (case spec_step m c s of None \<Rightarrow> None | Some t \<Rightarrow> spec_run m cs t)"

definition sim :: "'v object_database \<Rightarrow> 'v snapshots \<Rightarrow> bool" where
  "sim d s \<longleftrightarrow> (case s of (cur, copies, a) \<Rightarrow>
     refines d cur copies \<and> \<not> disabled d \<and> active_sessions d = a)"

lemma start_max_size: "max_size (snd (start_undo_session False d)) = max_size d"
  by (simp add: start_undo_session_def Let_def)

lemma impl_step_sim:
  assumes "sim d s" and "spec_step (max_size d) c s = Some s'"
  shows "\<exists>d'. impl_step c d = (Inr (), d') \<and> sim d' s' \<and> max_size d' = max_size d"
proof -
  obtain cur copies a where s: "s = (cur, copies, a)" by (cases s) auto
  have r: "refines d cur copies" "\<not> disabled d" "active_sessions d = a"
    using assms(1) by (simp_all add: sim_def s)
  show ?thesis
  proof (cases c)
    case Start
    with assms(2) s show ?thesis
      using start_refines [OF r(1,2)] r(3) by (auto simp: sim_def start_max_size)
  next
    case (Exec op)
    with assms(2) s obtain t where t: "store_exec op cur = Some t"
        "s' = (t, (if copies = [] then [cur] else copies), a)"
      by (auto split: option.splits)
    show ?thesis
      using db_exec_refines [OF _ r(2) t(1), of "hd copies" "tl copies"]
        db_exec_refines_empty [OF _ r(2) t(1)] r t(2) Exec
      by (cases copies) (fastforce simp: sim_def)+
  next
    case Undo
    with assms(2) s obtain b bs n where "copies = b # bs" "a = Suc n"
        "s' = (b, (if bs = [] then [b] else bs), n)"
      by (cases copies; cases a) auto
    with Undo r undo_refines [of d cur b bs] show ?thesis by (auto simp: sim_def)
  next
    case Merge
    with assms(2) s obtain b e bs n where "copies = b # e # bs" "a = Suc n" "s' = (cur, e # bs, n)"
      by (cases copies; cases "tl copies"; cases a) auto
    with Merge r merge_refines [of d cur b e bs] show ?thesis by (auto simp: sim_def)
  next
    case Commit
    with assms(2) s obtain n where "a = Suc n" "s' = (cur, copies, n)" by (cases a) auto
    with Commit r show ?thesis by (auto simp: sim_def commit_def refines_def bindS_def)
  next
    case Pop
    with assms(2) s obtain b bs where "copies = b # bs" "a = 0" "s' = (b, bs, 0)"
      by (cases copies; cases a) auto
    with Pop r pop_commit_refines [of d cur b bs] show ?thesis by (auto simp: sim_def)
  qed
qed

subsection \<open>A small concrete database\<close>

lemma index_id_0 [simp]: "index_id 0 = 0"
  by (simp add: index_id_eq)

lemma small_instances [simp]:
  "id_instance 0 \<noteq> GRAPHENE_DB_MAX_INSTANCE_ID" "id_instance 1 \<noteq> GRAPHENE_DB_MAX_INSTANCE_ID"
  "index_id 1 = 0"
  by (simp_all add: id_instance_def GRAPHENE_DB_MAX_INSTANCE_ID_def mask_eq_exp_minus_1 index_id_eq)

definition one_index_db :: "nat object_database" where
  "one_index_db = add_index 0 make_object_database"

lemma one_index_store: "store_of one_index_db = (Map.empty, [0 \<mapsto> 0])"
  by (simp add: one_index_db_def add_index_def make_object_database_def store_of_def)

lemma one_index_fields:
  "\<not> disabled one_index_db" "undo_stack one_index_db = []" "max_size one_index_db = 256"
  "active_sessions one_index_db = 0"
  by (simp_all add: one_index_db_def add_index_def make_object_database_def)

lemma one_index_refines: "refines one_index_db (Map.empty, [0 \<mapsto> 0]) []"
  by (simp add: refines_def one_index_store one_index_fields ids_ok_def)

lemma one_index_sim: "sim one_index_db ((Map.empty, [0 \<mapsto> 0]), [], 0)"
  by (simp add: sim_def one_index_refines one_index_fields)

subsection \<open>Properties\<close>

text \<open>C1: the undo database refines the snapshot machine. Whatever sequence of session starts,
  object changes, undos, merges, commits and pops the snapshot machine can perform, the database
  performs it without an exception, and afterwards its objects and next identifiers are exactly
  those of the snapshot machine.\<close>

theorem undo_database_refines_snapshots:
  assumes "sim d s" and "spec_run (max_size d) cs s = Some s'"
  shows "\<exists>d'. forS impl_step cs d = (Inr (), d') \<and> sim d' s' \<and> store_of d' = fst s'"
  using assms
proof (induction cs arbitrary: d s)
  case Nil
  then show ?case by (auto simp: sim_def refines_def)
next
  case (Cons c cs)
  from Cons.prems(2) obtain t where t: "spec_step (max_size d) c s = Some t"
      "spec_run (max_size d) cs t = Some s'"
    by (auto split: option.splits)
  obtain e where e: "impl_step c d = (Inr (), e)" "sim e t" "max_size e = max_size d"
    using impl_step_sim [OF Cons.prems(1) t(1)] by blast
  show ?case using Cons.IH [OF e(2)] t(2) e by (auto simp: e(3))
qed

theorem undo_database_refines_snapshots_witness:
  "\<exists>d'. forS impl_step [Start, Exec (Create 0 (\<lambda>_. 7)), Start, Exec (Modify 0 Suc), Merge, Undo] one_index_db
      = (Inr (), d') \<and> store_of d' = (Map.empty, [0 \<mapsto> 0])"
  using undo_database_refines_snapshots [OF one_index_sim,
      where cs = "[Start, Exec (Create 0 (\<lambda>_. 7)), Start, Exec (Modify 0 Suc), Merge, Undo]"]
  by (auto simp: one_index_fields)

text \<open>C2: rolling back a session. Start a session, perform any changes, and undo: the objects and
  the next identifiers are those from before the session, and so is the number of sessions.\<close>

theorem undo_restores_store:
  assumes "refines d cur copies" and "\<not> disabled d" and "store_run ops cur = Some t"
  shows "\<exists>d1 d2. db_run ops (snd (start_undo_session False d)) = (Inr (), d1) \<and> store_of d1 = t \<and>
    undo d1 = (Inr (), d2) \<and> store_of d2 = store_of d \<and> active_sessions d2 = active_sessions d"
proof -
  let ?d0 = "snd (start_undo_session False d)"
  obtain b bs where b: "refines ?d0 cur (b # bs)" "b = cur"
    using start_refines(1) [OF assms(1,2)] by (auto split: if_splits)
  obtain d1 where d1: "db_run ops ?d0 = (Inr (), d1)" "refines d1 t (b # bs)" "\<not> disabled d1"
      "active_sessions d1 = active_sessions d + 1"
    using db_run_refines [OF b(1) _ assms(3)] start_refines(2,3) [OF assms(1,2)] by auto
  obtain d2 where "undo d1 = (Inr (), d2)" "store_of d2 = b" "active_sessions d2 = active_sessions d"
    using undo_refines [OF d1(2,3)] d1(4) unfolding refines_def by auto
  with d1 b(2) assms(1) show ?thesis by (auto simp: refines_def)
qed

theorem undo_restores_store_witness:
  "\<exists>d1 d2. db_run [Create 0 (\<lambda>_. 7), Remove 0] (snd (start_undo_session False one_index_db)) = (Inr (), d1) \<and>
     store_of d1 = (Map.empty, [0 \<mapsto> 1]) \<and> undo d1 = (Inr (), d2) \<and> store_of d2 = store_of one_index_db"
  using undo_restores_store [OF one_index_refines one_index_fields(1),
      where ops = "[Create 0 (\<lambda>_. 7), Remove 0]" and t = "(Map.empty, [0 \<mapsto> 1])"]
  by (auto simp: id_succ_def)

text \<open>C3: the effect of merge, object by object, is the four by four table in the comment of
  \<open>undo_database::merge\<close>, whenever the head state can follow its predecessor.\<close>

theorem merge_follows_table:
  assumes "wf_keys st" and "wf_disjoint prev" and "wf_disjoint st" and "can_follow prev st"
  shows "Some (change_of (merge_state prev st) i) = merge_table (change_of prev i) (change_of st i)"
  using merge_state_table(2) [OF assms(2,3,1,4)] .

theorem merge_follows_table_witness:
  "Some (change_of (merge_state (log_modify 3 (5::nat) empty_undo_state) (log_remove 3 6 empty_undo_state)) 3)
     = merge_table (Upd 5) (Del 6)"
proof -
  have u: "change_of (log_modify 3 (5::nat) empty_undo_state) = (\<lambda>_. Nop)(3 := Upd 5)"
    by (simp add: change_of_log_modify fun_eq_iff)
  have d: "change_of (log_remove 3 (6::nat) empty_undo_state) = (\<lambda>_. Nop)(3 := Del 6)"
    by (simp add: change_of_log_remove after_remove_def fun_eq_iff)
  have "can_follow (log_modify 3 (5::nat) empty_undo_state) (log_remove 3 6 empty_undo_state)"
    by (simp add: can_follow_def u d)
  moreover have "wf_disjoint (log_modify 3 (5::nat) empty_undo_state)"
    by (rule wf_disjoint_log_modify) simp_all
  ultimately show ?thesis
    using merge_follows_table [of "log_remove 3 6 empty_undo_state" "log_modify 3 (5::nat) empty_undo_state" 3]
    by (simp add: wf_keys_log wf_disjoint_log_remove u d)
qed

text \<open>
  A failed undo. Without an active session, or with undo disabled, \<open>undo\<close> throws and
  leaves the database as it was; \<open>pop_commit\<close> throws while a session is active.\<close>

theorem undo_guards:
  "(disabled d \<or> active_sessions d = 0 \<longrightarrow> (\<exists>e. undo d = (Inl e, d))) \<and>
   (0 < active_sessions d \<or> undo_stack d = [] \<longrightarrow> (\<exists>e. pop_commit d = (Inl e, d))) \<and>
   (active_sessions d = 0 \<or> length (undo_stack d) < 2 \<longrightarrow> (\<exists>e. merge d = (Inl e, d)))"
  by (cases "disabled d"; cases "active_sessions d = 0"; cases "undo_stack d = []";
      cases "length (undo_stack d) < 2")
    (simp_all add: undo_def pop_commit_def merge_def bindS_def)

theorem undo_guards_witness:
  "\<exists>e. undo one_index_db = (Inl e, one_index_db)"
  using undo_guards [of one_index_db] by (simp add: one_index_fields)

text \<open>moving a session that was started with \<open>force_enable\<close> on a disabled database. The
  destructor of the moved-from session disables undo recording at once, while the new session is
  still open and will not disable it on exit.\<close>

theorem session_move_disables:
  assumes "disabled d"
  shows "let (ses, d1) = start_undo_session True d; (moved, rest) = session_move ses
         in \<not> disabled d1 \<and> apply_undo moved \<and> \<not> disable_on_exit moved \<and>
            (\<exists>d2. session_destroy rest d1 = (Inr (), d2) \<and> disabled d2)"
  using assms
  by (simp add: start_undo_session_def session_move_def session_destroy_def bindS_def Let_def
      undo_enable_def)

theorem session_move_disables_witness:
  "\<exists>d2. session_destroy (snd (session_move (fst (start_undo_session True (undo_disable one_index_db)))))
        (snd (start_undo_session True (undo_disable one_index_db))) = (Inr (), d2) \<and> disabled d2"
  using session_move_disables [of "undo_disable one_index_db"] by (auto simp: Let_def split: prod.splits)

end
