(* ===== verification/Asset_Price.thy ===== *)
theory Asset_Price
  imports Complex_Main Chain_Prelude
begin

text \<open>
  Amounts, prices and price feeds (\<open>libraries/chain/protocol/asset.cpp\<close> and
  \<open>libraries/chain/include/graphene/chain/protocol/asset.hpp\<close>).

  Amounts are the exact values of \<open>share_type\<close>; the 128-bit products of the comparison and
  of the exchange are words, so that a product of negative amounts wraps as it does in the
  code. \<open>boost::rational\<close> is a parameter: a function that normalises a fraction or throws on a
  zero denominator, and \<open>rational_contract\<close> is its documented behaviour. The two rounding
  loops have no bound in the source; they are partial functions, and that they return is a
  theorem.
\<close>

type_synonym asset_id_type = nat
type_synonym account_id_type = nat
type_synonym u128 = "128 word"

record asset =
  amount :: int
  asset_id :: asset_id_type

record price =
  base :: asset
  quote :: asset

record price_feed =
  settlement_price :: price
  core_exchange_rate :: price
  maintenance_collateral_ratio :: nat
  maximum_short_squeeze_ratio :: nat

definition mk_asset :: "int \<Rightarrow> asset_id_type \<Rightarrow> asset" where
  "mk_asset a i = \<lparr>amount = a, asset_id = i\<rparr>"

definition mk_price :: "asset \<Rightarrow> asset \<Rightarrow> price" where
  "mk_price b q = \<lparr>base = b, quote = q\<rparr>"

definition null_price :: price where
  "null_price = mk_price (mk_asset 0 0) (mk_asset 0 0)"

definition GRAPHENE_MAX_SHARE_SUPPLY :: int where
  "GRAPHENE_MAX_SHARE_SUPPLY = 1000000000000"

definition GRAPHENE_COLLATERAL_RATIO_DENOM :: int where
  "GRAPHENE_COLLATERAL_RATIO_DENOM = 1000"

definition GRAPHENE_MIN_COLLATERAL_RATIO :: nat where
  "GRAPHENE_MIN_COLLATERAL_RATIO = 1001"

definition GRAPHENE_MAX_COLLATERAL_RATIO :: nat where
  "GRAPHENE_MAX_COLLATERAL_RATIO = 32000"

subsection \<open>Operators on amounts\<close>

definition asset_plus :: "'z fc_env_scheme \<Rightarrow> asset \<Rightarrow> asset \<Rightarrow> asset res" where
  "asset_plus E a b =
     bindE (assertE (asset_id a = asset_id b) ''a.asset_id == b.asset_id'') (\<lambda>_.
     bindE (safe_add E (amount a) (amount b)) (\<lambda>s. Inr (mk_asset s (asset_id a))))"

definition asset_minus :: "'z fc_env_scheme \<Rightarrow> asset \<Rightarrow> asset \<Rightarrow> asset res" where
  "asset_minus E a b =
     bindE (assertE (asset_id a = asset_id b) ''a.asset_id == b.asset_id'') (\<lambda>_.
     bindE (safe_sub E (amount a) (amount b)) (\<lambda>s. Inr (mk_asset s (asset_id a))))"

definition asset_neg :: "'z fc_env_scheme \<Rightarrow> asset \<Rightarrow> asset res" where
  "asset_neg E a = bindE (safe_neg E (amount a)) (\<lambda>s. Inr (mk_asset s (asset_id a)))"

definition asset_less :: "asset \<Rightarrow> asset \<Rightarrow> bool res" where
  "asset_less a b =
     bindE (assertE (asset_id a = asset_id b) ''a.asset_id == b.asset_id'') (\<lambda>_.
     Inr (amount a < amount b))"

definition asset_le :: "asset \<Rightarrow> asset \<Rightarrow> bool res" where
  "asset_le a b = (if a = b then Inr True else asset_less a b)"

definition asset_gt :: "asset \<Rightarrow> asset \<Rightarrow> bool res" where
  "asset_gt a b = bindE (asset_le a b) (\<lambda>r. Inr (\<not> r))"

definition asset_ge :: "asset \<Rightarrow> asset \<Rightarrow> bool res" where
  "asset_ge a b = bindE (asset_less a b) (\<lambda>r. Inr (\<not> r))"

definition scaled_precision_lut :: "int list" where
  "scaled_precision_lut =
     [1, 10, 100, 1000, 10000, 100000, 1000000, 10000000, 100000000, 1000000000, 10000000000,
      100000000000, 1000000000000, 10000000000000, 100000000000000, 1000000000000000,
      10000000000000000, 100000000000000000, 1000000000000000000]"

definition scaled_precision :: "nat \<Rightarrow> int res" where
  "scaled_precision p =
     bindE (assertE (p < 19) ''precision < 19'') (\<lambda>_. Inr (scaled_precision_lut ! p))"

subsection \<open>Prices\<close>

definition price_invert :: "price \<Rightarrow> price" where
  "price_invert p = mk_price (quote p) (base p)"

definition cross_mult :: "price \<Rightarrow> price \<Rightarrow> u128" where
  "cross_mult a b = word_of_int (amount (quote b)) * word_of_int (amount (base a))"

definition price_eq :: "price \<Rightarrow> price \<Rightarrow> bool" where
  "price_eq a b \<longleftrightarrow>
     asset_id (base a) = asset_id (base b) \<and> asset_id (quote a) = asset_id (quote b) \<and>
     cross_mult a b = cross_mult b a"

definition price_less :: "price \<Rightarrow> price \<Rightarrow> bool" where
  "price_less a b =
     (if asset_id (base a) < asset_id (base b) then True
      else if asset_id (base b) < asset_id (base a) then False
      else if asset_id (quote a) < asset_id (quote b) then True
      else if asset_id (quote b) < asset_id (quote a) then False
      else cross_mult a b < cross_mult b a)"

definition price_le :: "price \<Rightarrow> price \<Rightarrow> bool" where
  "price_le a b \<longleftrightarrow> price_eq a b \<or> price_less a b"

definition price_gt :: "price \<Rightarrow> price \<Rightarrow> bool" where
  "price_gt a b \<longleftrightarrow> \<not> price_le a b"

definition price_ge :: "price \<Rightarrow> price \<Rightarrow> bool" where
  "price_ge a b \<longleftrightarrow> \<not> price_less a b"

definition price_is_null :: "price \<Rightarrow> bool" where
  "price_is_null p \<longleftrightarrow> price_eq p null_price"

definition price_validate :: "price \<Rightarrow> unit res" where
  "price_validate p =
     bindE (assertE (0 < amount (base p)) ''base.amount > share_type(0)'') (\<lambda>_.
     bindE (assertE (0 < amount (quote p)) ''quote.amount > share_type(0)'') (\<lambda>_.
     assertE (asset_id (base p) \<noteq> asset_id (quote p)) ''base.asset_id != quote.asset_id''))"

text \<open>The operator \<open>asset * price\<close>.\<close>

definition u128_muldiv :: "int \<Rightarrow> int \<Rightarrow> int \<Rightarrow> u128" where
  "u128_muldiv a m d = (word_of_int a * word_of_int m) div word_of_int d"

definition asset_mult :: "asset \<Rightarrow> price \<Rightarrow> asset res" where
  "asset_mult a b =
     (if asset_id a = asset_id (base b) then
        bindE (assertE (0 < amount (base b)) ''b.base.amount.value > 0'') (\<lambda>_.
        let r = u128_muldiv (amount a) (amount (quote b)) (amount (base b)) in
        bindE (assertE (uint r \<le> GRAPHENE_MAX_SHARE_SUPPLY) ''result <= GRAPHENE_MAX_SHARE_SUPPLY'') (\<lambda>_.
        Inr (mk_asset (uint r) (asset_id (quote b)))))
      else if asset_id a = asset_id (quote b) then
        bindE (assertE (0 < amount (quote b)) ''b.quote.amount.value > 0'') (\<lambda>_.
        let r = u128_muldiv (amount a) (amount (base b)) (amount (quote b)) in
        bindE (assertE (uint r \<le> GRAPHENE_MAX_SHARE_SUPPLY) ''result <= GRAPHENE_MAX_SHARE_SUPPLY'') (\<lambda>_.
        Inr (mk_asset (uint r) (asset_id (base b)))))
      else throwE (Assert_exception ''invalid asset * price''))"

text \<open>The operator \<open>asset / asset\<close>.\<close>

definition price_of :: "asset \<Rightarrow> asset \<Rightarrow> price res" where
  "price_of b q =
     bindE (assertE (asset_id b \<noteq> asset_id q) ''base.asset_id != quote.asset_id'') (\<lambda>_.
     Inr (mk_price b q))"

definition price_max :: "asset_id_type \<Rightarrow> asset_id_type \<Rightarrow> price res" where
  "price_max b q = price_of (mk_asset GRAPHENE_MAX_SHARE_SUPPLY b) (mk_asset 1 q)"

definition price_min :: "asset_id_type \<Rightarrow> asset_id_type \<Rightarrow> price res" where
  "price_min b q = price_of (mk_asset 1 b) (mk_asset GRAPHENE_MAX_SHARE_SUPPLY q)"

definition unit_price :: "asset_id_type \<Rightarrow> price" where
  "unit_price a = mk_price (mk_asset 1 a) (mk_asset 1 a)"

subsection \<open>Call prices and price feeds\<close>

type_synonym rational = "int \<Rightarrow> int \<Rightarrow> (int \<times> int) res"

definition rational_contract :: "rational \<Rightarrow> bool" where
  "rational_contract R \<longleftrightarrow>
     (\<forall>n d. d \<noteq> 0 \<longrightarrow> (\<exists>p q. R n d = Inr (p, q) \<and> 0 < q \<and> coprime p q \<and> p * d = n * q)) \<and>
     (\<forall>n. \<exists>e. R n 0 = Inl e)"

definition rational_mult :: "rational \<Rightarrow> int \<times> int \<Rightarrow> int \<times> int \<Rightarrow> (int \<times> int) res" where
  "rational_mult R x y = R (fst x * fst y) (snd x * snd y)"

definition too_large :: "int \<times> int \<Rightarrow> bool" where
  "too_large cp \<longleftrightarrow> GRAPHENE_MAX_SHARE_SUPPLY < fst cp \<or> GRAPHENE_MAX_SHARE_SUPPLY < snd cp"

partial_function (option) call_price_loop :: "rational \<Rightarrow> int \<times> int \<Rightarrow> (int \<times> int) res option" where
  "call_price_loop R cp =
     (if too_large cp then
        (case R (fst cp div 2 + 1) (snd cp div 2 + 1) of
           Inl e \<Rightarrow> Some (Inl e)
         | Inr cp' \<Rightarrow> call_price_loop R cp')
      else Some (Inr cp))"

partial_function (option) squeeze_loop :: "rational \<Rightarrow> int \<times> int \<Rightarrow> (int \<times> int) res option" where
  "squeeze_loop R cp =
     (if too_large cp then
        (case R (fst cp div 2 + fst cp mod 2) (snd cp div 2 + snd cp mod 2) of
           Inl e \<Rightarrow> Some (Inl e)
         | Inr cp' \<Rightarrow> squeeze_loop R cp')
      else Some (Inr cp))"

text \<open>\<open>None\<close> means that the loop does not end.\<close>

definition call_price :: "rational \<Rightarrow> asset \<Rightarrow> asset \<Rightarrow> nat \<Rightarrow> price res option" where
  "call_price R debt collateral collateral_ratio =
     (case bindE (R (amount debt) (amount collateral)) (\<lambda>swan.
           bindE (R (int collateral_ratio) GRAPHENE_COLLATERAL_RATIO_DENOM) (\<lambda>ratio.
           rational_mult R swan ratio)) of
        Inl e \<Rightarrow> Some (Inl e)
      | Inr cp \<Rightarrow>
          map_option (\<lambda>r. bindE r (\<lambda>cp.
            bindE (price_of (mk_asset (fst cp) (asset_id debt)) (mk_asset (snd cp) (asset_id collateral)))
              (\<lambda>p. Inr (price_invert p)))) (call_price_loop R cp))"

definition max_short_squeeze_price :: "rational \<Rightarrow> price_feed \<Rightarrow> price res option" where
  "max_short_squeeze_price R f =
     (case bindE (R (amount (base (settlement_price f))) (amount (quote (settlement_price f)))) (\<lambda>sp.
           bindE (R GRAPHENE_COLLATERAL_RATIO_DENOM (int (maximum_short_squeeze_ratio f))) (\<lambda>ratio.
           rational_mult R sp ratio)) of
        Inl e \<Rightarrow> Some (Inl e)
      | Inr cp \<Rightarrow>
          map_option (\<lambda>r. bindE r (\<lambda>cp.
            price_of (mk_asset (fst cp) (asset_id (base (settlement_price f))))
                     (mk_asset (snd cp) (asset_id (quote (settlement_price f)))))) (squeeze_loop R cp))"

definition price_feed_validate :: "rational \<Rightarrow> price_feed \<Rightarrow> unit res option" where
  "price_feed_validate R f =
     (case bindE (if price_is_null (settlement_price f) then Inr () else price_validate (settlement_price f)) (\<lambda>_.
           bindE (assertE (GRAPHENE_MIN_COLLATERAL_RATIO \<le> maximum_short_squeeze_ratio f) ''mssr min'') (\<lambda>_.
           bindE (assertE (maximum_short_squeeze_ratio f \<le> GRAPHENE_MAX_COLLATERAL_RATIO) ''mssr max'') (\<lambda>_.
           bindE (assertE (GRAPHENE_MIN_COLLATERAL_RATIO \<le> maintenance_collateral_ratio f) ''mcr min'') (\<lambda>_.
           assertE (maintenance_collateral_ratio f \<le> GRAPHENE_MAX_COLLATERAL_RATIO) ''mcr max'')))) of
        Inl e \<Rightarrow> Some (Inl e)
      | Inr _ \<Rightarrow> map_option (\<lambda>r. bindE r (\<lambda>_. Inr ())) (max_short_squeeze_price R f))"

definition price_feed_is_for :: "price_feed \<Rightarrow> asset_id_type \<Rightarrow> bool" where
  "price_feed_is_for f a =
     (if \<not> price_is_null (settlement_price f) then asset_id (base (settlement_price f)) = a
      else if \<not> price_is_null (core_exchange_rate f) then asset_id (base (core_exchange_rate f)) = a
      else True)"

definition price_feed_eq :: "price_feed \<Rightarrow> price_feed \<Rightarrow> bool" where
  "price_feed_eq a b \<longleftrightarrow>
     price_eq (settlement_price a) (settlement_price b) \<and>
     maintenance_collateral_ratio a = maintenance_collateral_ratio b \<and>
     maximum_short_squeeze_ratio a = maximum_short_squeeze_ratio b"

lemmas asset_accessors [chain_defs] = mk_asset_def mk_price_def price_invert_def

subsection \<open>The 128-bit products do not wrap on amounts\<close>

definition share_ok :: "int \<Rightarrow> bool" where
  "share_ok x \<longleftrightarrow> 0 \<le> x \<and> x < 2 ^ 63"

definition price_pos :: "price \<Rightarrow> bool" where
  "price_pos p \<longleftrightarrow>
     0 < amount (base p) \<and> amount (base p) < 2 ^ 63 \<and> 0 < amount (quote p) \<and> amount (quote p) < 2 ^ 63"

lemma price_posD:
  assumes "price_pos p"
  shows "share_ok (amount (base p))" "share_ok (amount (quote p))"
    "0 < amount (base p)" "0 < amount (quote p)"
  using assms by (simp_all add: price_pos_def share_ok_def)

lemma share_mult_bound:
  assumes "share_ok x" and "share_ok y"
  shows "0 \<le> x * y" and "x * y < 2 ^ 126"
proof -
  show "0 \<le> x * y" using assms by (simp add: share_ok_def)
  have "x * y \<le> (2 ^ 63 - 1) * (2 ^ 63 - 1)"
    using assms by (intro mult_mono) (auto simp: share_ok_def)
  then show "x * y < 2 ^ 126" by simp
qed

lemma uint_share_mult:
  assumes "share_ok x" and "share_ok y"
  shows "uint (word_of_int x * word_of_int y :: u128) = x * y"
proof -
  have eq: "(word_of_int x * word_of_int y :: u128) = word_of_int (x * y)"
    by simp
  have "x * y < 2 ^ 128"
    using share_mult_bound(2) [OF assms] by (rule order_less_trans) simp
  then have "x * y mod 2 ^ 128 = x * y"
    using share_mult_bound(1) [OF assms] by (intro mod_pos_pos_trivial)
  moreover have "uint (word_of_int (x * y) :: u128) = x * y mod 2 ^ 128"
    by (simp only: uint_word_of_int len_of_numeral_defs) simp
  ultimately show ?thesis unfolding eq by simp
qed

lemma uint_cross_mult:
  assumes "price_pos a" and "price_pos b"
  shows "uint (cross_mult a b) = amount (quote b) * amount (base a)"
  unfolding cross_mult_def using assms by (intro uint_share_mult price_posD)

lemma uint_muldiv:
  assumes "share_ok a" and "share_ok m" and "share_ok d"
  shows "uint (u128_muldiv a m d) = a * m div d"
proof -
  have "uint (word_of_int d :: u128) = d"
    using assms(3) by (simp add: uint_word_of_int share_ok_def)
  then show ?thesis
    by (simp add: u128_muldiv_def uint_div_distrib uint_share_mult [OF assms(1,2)])
qed

subsection \<open>Prices in an ordered index\<close>

text \<open>
  What an ordered index needs of the comparison of its keys: a strict weak order. The clients
  are the order books, sorted by price.
\<close>

locale strict_weak_order =
  fixes valid :: "'a \<Rightarrow> bool" and less :: "'a \<Rightarrow> 'a \<Rightarrow> bool"
  assumes irrefl: "valid a \<Longrightarrow> \<not> less a a"
    and trans: "valid a \<Longrightarrow> valid b \<Longrightarrow> valid c \<Longrightarrow> less a b \<Longrightarrow> less b c \<Longrightarrow> less a c"
    and incomp_trans: "valid a \<Longrightarrow> valid b \<Longrightarrow> valid c \<Longrightarrow>
      \<not> less a b \<Longrightarrow> \<not> less b c \<Longrightarrow> \<not> less a c"
begin

lemma asym: "valid a \<Longrightarrow> valid b \<Longrightarrow> less a b \<Longrightarrow> \<not> less b a"
  using irrefl trans by blast

lemma less_not_less_trans:
  "valid a \<Longrightarrow> valid b \<Longrightarrow> valid c \<Longrightarrow> less a b \<Longrightarrow> \<not> less c b \<Longrightarrow> less a c"
  using incomp_trans by blast

end

lemma price_less_iff:
  assumes "price_pos a" and "price_pos b"
  shows "price_less a b \<longleftrightarrow>
    asset_id (base a) < asset_id (base b) \<or>
    asset_id (base a) = asset_id (base b) \<and>
      (asset_id (quote a) < asset_id (quote b) \<or>
       asset_id (quote a) = asset_id (quote b) \<and>
         amount (quote b) * amount (base a) < amount (quote a) * amount (base b))"
  using uint_cross_mult [OF assms] uint_cross_mult [OF assms(2,1)]
  by (auto simp: price_less_def word_less_def)

lemma ratio_trans:
  fixes p q r s t u :: int
  assumes "0 < q" "0 < s" "0 < u" "s * p \<le> q * r" "u * r \<le> s * t"
  shows "u * p \<le> q * t"
proof -
  have "s * (u * p) \<le> s * (q * t)"
  proof -
    have "s * (u * p) = u * (s * p)" by (simp add: algebra_simps)
    also have "\<dots> \<le> u * (q * r)" using assms(3,4) by (intro mult_left_mono) auto
    also have "\<dots> = q * (u * r)" by (simp add: algebra_simps)
    also have "\<dots> \<le> q * (s * t)" using assms(1,5) by (intro mult_left_mono) auto
    finally show ?thesis by (simp add: algebra_simps)
  qed
  then show ?thesis using assms(2) by simp
qed

lemma ratio_trans_strict:
  fixes p q r s t u :: int
  assumes "0 < q" "0 < s" "0 < u" "s * p < q * r" "u * r < s * t"
  shows "u * p < q * t"
proof -
  have "s * (u * p) < s * (q * t)"
  proof -
    have "s * (u * p) = u * (s * p)" by (simp add: algebra_simps)
    also have "\<dots> < u * (q * r)" using assms(3,4) by (intro mult_strict_left_mono) auto
    also have "\<dots> = q * (u * r)" by (simp add: algebra_simps)
    also have "\<dots> < q * (s * t)" using assms(1,5) by (intro mult_strict_left_mono) auto
    finally show ?thesis by (simp add: algebra_simps)
  qed
  then show ?thesis using assms(2) by simp
qed

interpretation po: strict_weak_order price_pos price_less
proof unfold_locales
  fix a b c
  assume pos: "price_pos a" "price_pos b" "price_pos c"
  show "\<not> price_less a a" by (simp add: price_less_def)
  show "price_less a b \<Longrightarrow> price_less b c \<Longrightarrow> price_less a c"
    using pos ratio_trans_strict [of "amount (quote a)" "amount (quote b)" "amount (quote c)"
        "amount (base a)" "amount (base b)" "amount (base c)"]
    by (auto simp: price_less_iff price_posD)
  show "\<not> price_less a b \<Longrightarrow> \<not> price_less b c \<Longrightarrow> \<not> price_less a c"
    using pos ratio_trans [of "amount (quote c)" "amount (quote b)" "amount (quote a)"
        "amount (base c)" "amount (base b)" "amount (base a)"]
    by (auto simp: price_less_iff price_posD not_less)
qed

lemma price_eq_iff:
  assumes "price_pos a" and "price_pos b"
  shows "price_eq a b \<longleftrightarrow> \<not> price_less a b \<and> \<not> price_less b a"
  using uint_cross_mult [OF assms] uint_cross_mult [OF assms(2,1)]
  by (auto simp: price_eq_def price_less_iff assms word_uint_eq_iff)

subsection \<open>The exchange operator\<close>

lemma asset_mult_base:
  assumes "asset_mult a p = Inr r" and "asset_id a = asset_id (base p)"
    and "share_ok (amount a)" and "price_pos p"
  shows "r = mk_asset (amount a * amount (quote p) div amount (base p)) (asset_id (quote p))"
    and "amount r \<le> GRAPHENE_MAX_SHARE_SUPPLY"
  using assms uint_muldiv [OF assms(3) price_posD(2,1) [OF assms(4)]]
  by (auto simp: asset_mult_def Let_def res_simps mk_asset_def)

lemma asset_mult_quote:
  assumes "asset_mult a p = Inr r" and "asset_id a = asset_id (quote p)"
    and "asset_id (base p) \<noteq> asset_id (quote p)"
    and "share_ok (amount a)" and "price_pos p"
  shows "r = mk_asset (amount a * amount (base p) div amount (quote p)) (asset_id (base p))"
    and "amount r \<le> GRAPHENE_MAX_SHARE_SUPPLY"
  using assms uint_muldiv [OF assms(4) price_posD(1,2) [OF assms(5)]]
  by (auto simp: asset_mult_def Let_def res_simps mk_asset_def)

lemma max_share_ok: "0 \<le> x \<Longrightarrow> x \<le> GRAPHENE_MAX_SHARE_SUPPLY \<Longrightarrow> share_ok x"
  by (simp add: share_ok_def GRAPHENE_MAX_SHARE_SUPPLY_def)

lemma asset_mult_nonneg: "asset_mult a p = Inr r \<Longrightarrow> 0 \<le> amount r \<and> amount r \<le> GRAPHENE_MAX_SHARE_SUPPLY"
  by (auto simp: asset_mult_def Let_def res_simps mk_asset_def throwE_def split: if_splits)

lemma div_mult_round_trip:
  fixes a m d :: int
  assumes "0 \<le> a" "0 < m" "0 < d"
  shows "(a * m div d) * d div m \<le> a"
proof -
  have "(a * m div d) * d \<le> a * m"
    using assms by (metis div_mult_mod_eq add.commute le_add_same_cancel2 pos_mod_sign)
  then have "(a * m div d) * d div m \<le> a * m div m"
    using assms(2) by (intro zdiv_mono1) auto
  then show ?thesis using assms(2) by simp
qed

subsection \<open>The rounding loops\<close>

lemma rational_pos:
  assumes R: "rational_contract R" and pos: "0 < n" "0 < d"
  shows "\<exists>p q. R n d = Inr (p, q) \<and> 0 < p \<and> p \<le> n \<and> 0 < q \<and> q \<le> d \<and> p * d = n * q"
proof -
  obtain p q where pq: "R n d = Inr (p, q)" "0 < q" "coprime p q" "p * d = n * q"
    using R pos unfolding rational_contract_def by (metis less_irrefl)
  have "0 < p * d" using pos pq by simp
  then have p: "0 < p" using pos(2) by (simp add: zero_less_mult_iff)
  have "q dvd d" using pq(3,4) by (metis coprime_commute coprime_dvd_mult_right_iff dvd_triv_right)
  then have "q \<le> d" using pos(2) by (rule zdvd_imp_le)
  have "p dvd n" using pq(3,4) by (metis coprime_dvd_mult_left_iff dvd_triv_left)
  then have "p \<le> n" using pos(1) by (rule zdvd_imp_le)
  then show ?thesis using pq p \<open>q \<le> d\<close> by blast
qed

lemma rational_coprime: "rational_contract R \<Longrightarrow> R n d = Inr (p, q) \<Longrightarrow> d \<noteq> 0 \<Longrightarrow> coprime p q"
proof -
  assume "rational_contract R" and r: "R n d = Inr (p, q)" and "d \<noteq> 0"
  then obtain p' q' where "R n d = Inr (p', q')" "coprime p' q'" unfolding rational_contract_def by blast
  then show ?thesis using r by simp
qed

lemma halving_decreases:
  fixes n d :: int
  assumes "0 < n" "0 < d" "too_large (n, d)"
  shows "max (n div 2 + 1) (d div 2 + 1) < max n d"
    and "max (n div 2 + n mod 2) (d div 2 + d mod 2) < max n d"
    and "0 < n div 2 + 1" and "0 < n div 2 + n mod 2"
proof -
  show "max (n div 2 + 1) (d div 2 + 1) < max n d"
    and "max (n div 2 + n mod 2) (d div 2 + d mod 2) < max n d" and "0 < n div 2 + 1"
    using assms by (auto simp: too_large_def GRAPHENE_MAX_SHARE_SUPPLY_def max_def)
  show "0 < n div 2 + n mod 2" using assms(1) by presburger
qed

lemma call_price_loop_returns:
  assumes R: "rational_contract R"
  shows "0 < n \<Longrightarrow> 0 < d \<Longrightarrow>
    \<exists>p q. call_price_loop R (n, d) = Some (Inr (p, q)) \<and> 0 < p \<and> 0 < q \<and> \<not> too_large (p, q)"
proof (induction "nat (max n d)" arbitrary: n d rule: less_induct)
  case less
  show ?case
  proof (cases "too_large (n, d)")
    case True
    note dec = halving_decreases [OF less.prems True]
    have d': "0 < d div 2 + 1" using less.prems by simp
    obtain p q where pq: "R (n div 2 + 1) (d div 2 + 1) = Inr (p, q)" "0 < p" "p \<le> n div 2 + 1"
        "0 < q" "q \<le> d div 2 + 1"
      using rational_pos [OF R dec(3) d'] by blast
    have "nat (max p q) < nat (max n d)" using pq dec(1) less.prems by auto
    then show ?thesis
      using less.hyps [OF _ pq(2,4)] True pq(1) by (simp add: call_price_loop.simps [of R "(n, d)"])
  qed (use less.prems in \<open>simp add: call_price_loop.simps\<close>)
qed

lemma squeeze_loop_returns:
  assumes R: "rational_contract R"
  shows "0 < n \<Longrightarrow> 0 < d \<Longrightarrow>
    \<exists>p q. squeeze_loop R (n, d) = Some (Inr (p, q)) \<and> 0 < p \<and> 0 < q \<and> \<not> too_large (p, q)"
proof (induction "nat (max n d)" arbitrary: n d rule: less_induct)
  case less
  show ?case
  proof (cases "too_large (n, d)")
    case True
    note dec = halving_decreases [OF less.prems True]
    have d': "0 < d div 2 + d mod 2" using less.prems by presburger
    obtain p q where pq: "R (n div 2 + n mod 2) (d div 2 + d mod 2) = Inr (p, q)" "0 < p"
        "p \<le> n div 2 + n mod 2" "0 < q" "q \<le> d div 2 + d mod 2"
      using rational_pos [OF R dec(4) d'] by blast
    have "nat (max p q) < nat (max n d)" using pq dec(2) less.prems by auto
    then show ?thesis
      using less.hyps [OF _ pq(2,4)] True pq(1) by (simp add: squeeze_loop.simps [of R "(n, d)"])
  qed (use less.prems in \<open>simp add: squeeze_loop.simps\<close>)
qed

lemma rational_product:
  assumes R: "rational_contract R" and "0 < a" "0 < b" "0 < m" "0 < k"
  shows "\<exists>p q. bindE (R a b) (\<lambda>x. bindE (R m k) (\<lambda>y. rational_mult R x y)) = Inr (p, q) \<and>
    0 < p \<and> 0 < q \<and> p \<le> a * m \<and> q \<le> b * k \<and> p * (b * k) = (a * m) * q \<and> coprime p q"
proof -
  obtain p1 q1 where 1: "R a b = Inr (p1, q1)" "0 < p1" "p1 \<le> a" "0 < q1" "q1 \<le> b" "p1 * b = a * q1"
    using rational_pos [OF R assms(2,3)] by blast
  obtain p2 q2 where 2: "R m k = Inr (p2, q2)" "0 < p2" "p2 \<le> m" "0 < q2" "q2 \<le> k" "p2 * k = m * q2"
    using rational_pos [OF R assms(4,5)] by blast
  obtain p q where 3: "R (p1 * p2) (q1 * q2) = Inr (p, q)" "0 < p" "p \<le> p1 * p2" "0 < q"
      "q \<le> q1 * q2" "p * (q1 * q2) = (p1 * p2) * q"
    using rational_pos [OF R, of "p1 * p2" "q1 * q2"] 1 2 by auto
  have "p1 * p2 \<le> a * m" "q1 * q2 \<le> b * k"
    using 1 2 by (auto intro!: mult_mono)
  moreover have "(q1 * q2) * (p * (b * k)) = (q1 * q2) * ((a * m) * q)"
  proof -
    have "(q1 * q2) * (p * (b * k)) = (p * (q1 * q2)) * (b * k)" by (simp add: algebra_simps)
    also have "\<dots> = q * (p1 * b) * (p2 * k)" unfolding 3(6) by (simp add: algebra_simps)
    also have "\<dots> = (q1 * q2) * ((a * m) * q)" unfolding 1(6) 2(6) by (simp add: algebra_simps)
    finally show ?thesis .
  qed
  then have "p * (b * k) = (a * m) * q" using 1(4) 2(4) by simp
  moreover have "coprime p q" by (rule rational_coprime [OF R 3(1)]) (use 1(4) 2(4) in simp)
  ultimately show ?thesis using 1(1) 2(1) 3 by (auto simp: rational_mult_def intro: order_trans)
qed

text \<open>There is one way to write a positive fraction in lowest terms.\<close>

lemma lowest_terms:
  fixes p q n m :: int
  assumes pos: "0 < p" "0 < q" "0 < n" "0 < m" and "coprime p q" and eq: "p * m = n * q"
  shows "p = n div gcd n m" "q = m div gcd n m"
proof -
  define g where "g = gcd n m"
  have g: "0 < g" "g dvd n" "g dvd m" using pos by (simp_all add: g_def)
  obtain n' m' where nm: "n = g * n'" "m = g * m'" using g(2,3) by (auto elim!: dvdE)
  have dv: "n div g = n'" "m div g = m'" using g(1) by (simp_all add: nm)
  have cop: "coprime n' m'" using dv div_gcd_coprime [of n m] pos unfolding g_def [symmetric] by simp
  have e: "p * m' = n' * q" using eq g(1) by (simp add: nm)
  have pos': "0 < n'" "0 < m'" using pos(3,4) g(1) by (auto simp: nm zero_less_mult_iff)
  have "p dvd n'" using e \<open>coprime p q\<close> by (metis coprime_dvd_mult_left_iff dvd_triv_left)
  moreover have "n' dvd p" using e cop by (metis coprime_dvd_mult_left_iff dvd_triv_left)
  ultimately have "p = n'" using pos(1) pos'(1) by (simp add: zdvd_antisym_nonneg)
  moreover have "q = m'" using e \<open>p = n'\<close> pos'(1) by simp
  ultimately show "p = n div gcd n m" "q = m div gcd n m" using dv unfolding g_def [symmetric] by simp_all
qed


lemma price_of_Inr [simp]:
  "price_of b q = Inr p \<longleftrightarrow> asset_id b \<noteq> asset_id q \<and> p = mk_price b q"
  by (auto simp: price_of_def res_simps)

lemma call_price_loop_exact: "\<not> too_large cp \<Longrightarrow> call_price_loop R cp = Some (Inr cp)"
  by (simp add: call_price_loop.simps)

text \<open>A concrete normalising fraction, on which the contract of \<open>boost::rational\<close> holds.\<close>

definition gcd_rational :: rational where
  "gcd_rational n d =
     (if d = 0 then Inl (Assert_exception ''bad rational: zero denominator'')
      else Inr (n div gcd n d * sgn d, d div gcd n d * sgn d))"

lemma gcd_rational_contract: "rational_contract gcd_rational"
proof -
  have "\<exists>p q. gcd_rational n d = Inr (p, q) \<and> 0 < q \<and> coprime p q \<and> p * d = n * q" if d: "d \<noteq> 0" for n d
  proof -
    let ?g = "gcd n d"
    have g: "0 < ?g" using d by simp
    have nd: "n = (n div ?g) * ?g" "d = (d div ?g) * ?g" by simp_all
    have "coprime (n div ?g) (d div ?g)" using d by (simp add: div_gcd_coprime)
    then have "coprime (n div ?g * sgn d) (d div ?g * sgn d)"
      using d by (cases "0 < d") (simp_all add: sgn_if)
    moreover have "0 < d div ?g * sgn d"
    proof (cases "0 < d")
      case True
      then show ?thesis using g by (simp add: pos_imp_zdiv_pos_iff zdvd_imp_le)
    next
      case False
      then have "d div ?g < 0" using d g by (simp add: pos_imp_zdiv_neg_iff)
      then show ?thesis using False d by (simp add: sgn_if)
    qed
    moreover have "(n div ?g * sgn d) * d = n * (d div ?g * sgn d)"
    proof -
      have "(n div ?g) * d = n * (d div ?g)" by (metis nd mult.commute mult.assoc)
      then show ?thesis by (simp add: mult.commute mult.left_commute)
    qed
    ultimately show ?thesis using d by (simp add: gcd_rational_def)
  qed
  then show ?thesis by (auto simp: rational_contract_def gcd_rational_def)
qed

subsection \<open>Properties\<close>

text \<open>The price as a number: units of the base asset for one unit of the quote asset.\<close>

definition price_value :: "price \<Rightarrow> rat" where
  "price_value p = of_int (amount (base p)) / of_int (amount (quote p))"

lemma price_value_less:
  assumes "price_pos a" and "price_pos b"
  shows "price_value a < price_value b \<longleftrightarrow>
    amount (quote b) * amount (base a) < amount (quote a) * amount (base b)"
proof -
  have "(0::rat) < of_int (amount (quote a))" "(0::rat) < of_int (amount (quote b))"
    using assms by (simp_all add: price_pos_def)
  then have "price_value a < price_value b \<longleftrightarrow>
    (of_int (amount (base a) * amount (quote b)) :: rat) < of_int (amount (base b) * amount (quote a))"
    by (simp add: price_value_def divide_simps)
  then show ?thesis by (simp only: of_int_less_iff mult.commute)
qed

text \<open>
  C10: Two prices of the same market with positive amounts are compared as the rational numbers
  they stand for: all six comparison operators, although they work on 128-bit products, agree
  with the order of the fractions base/quote, with no wrap-around for any 63-bit amounts.
\<close>

theorem price_compare_exact:
  assumes "price_pos a" and "price_pos b"
    and "asset_id (base a) = asset_id (base b)" and "asset_id (quote a) = asset_id (quote b)"
  shows "(price_less a b \<longleftrightarrow> price_value a < price_value b) \<and>
    (price_eq a b \<longleftrightarrow> price_value a = price_value b) \<and>
    (price_le a b \<longleftrightarrow> price_value a \<le> price_value b) \<and>
    (price_gt a b \<longleftrightarrow> price_value a > price_value b) \<and>
    (price_ge a b \<longleftrightarrow> price_value a \<ge> price_value b)"
proof -
  have less: "price_less a b \<longleftrightarrow> price_value a < price_value b"
    using assms by (simp add: price_less_iff price_value_less)
  have less': "price_less b a \<longleftrightarrow> price_value b < price_value a"
    using assms by (simp add: price_less_iff price_value_less)
  have eq: "price_eq a b \<longleftrightarrow> price_value a = price_value b"
    unfolding price_eq_iff [OF assms(1,2)] less less' by auto
  show ?thesis
    using less eq by (auto simp: price_le_def price_gt_def price_ge_def)
qed

theorem price_compare_exact_witness:
  "price_less (mk_price (mk_asset 1 0) (mk_asset 3 1)) (mk_price (mk_asset 9000000000000000000 0) (mk_asset 9000000000000000001 1))"
  using price_compare_exact [of "mk_price (mk_asset 1 0) (mk_asset 3 1)"
      "mk_price (mk_asset 9000000000000000000 0) (mk_asset 9000000000000000001 1)"]
  by (simp add: price_pos_def mk_asset_def mk_price_def price_value_def)

text \<open>
  The comparison of prices is a strict weak order on the prices with positive amounts, over
  all markets, and two prices are incomparable exactly when they are equal, as the ordered
  indexes of the market require of their key.
\<close>

theorem price_index_order:
  assumes "price_pos a" and "price_pos b" and "price_pos c"
  shows "\<not> price_less a a \<and>
    (price_less a b \<longrightarrow> price_less b c \<longrightarrow> price_less a c) \<and>
    (price_eq a b \<longleftrightarrow> \<not> price_less a b \<and> \<not> price_less b a) \<and>
    (price_eq a b \<longrightarrow> price_eq b c \<longrightarrow> price_eq a c) \<and>
    (price_eq a b \<longrightarrow> price_less b c \<longrightarrow> price_less a c)"
  using assms po.irrefl [of a] po.trans [of a b c] po.trans [of c b a]
    po.incomp_trans [of a b c] po.incomp_trans [of c b a] po.incomp_trans [of b a c]
  by (simp add: price_eq_iff) blast

theorem price_index_order_witness:
  "price_less (mk_price (mk_asset 1 0) (mk_asset 3 1)) (mk_price (mk_asset 1 1) (mk_asset 2 0))"
proof -
  have "price_less (mk_price (mk_asset 1 0) (mk_asset 3 1)) (mk_price (mk_asset 1 0) (mk_asset 2 1))"
    "price_less (mk_price (mk_asset 1 0) (mk_asset 2 1)) (mk_price (mk_asset 1 1) (mk_asset 2 0))"
    by (simp_all add: price_less_iff price_pos_def mk_asset_def mk_price_def)
  then show ?thesis
    using price_index_order [of "mk_price (mk_asset 1 0) (mk_asset 3 1)"
        "mk_price (mk_asset 1 0) (mk_asset 2 1)" "mk_price (mk_asset 1 1) (mk_asset 2 0)"]
    by (simp add: price_pos_def mk_asset_def mk_price_def)
qed

lemma asset_mult_base_eq:
  assumes "asset_id a = asset_id (base p)" and "share_ok (amount a)" and "price_pos p"
  shows "asset_mult a p =
    (let x = amount a * amount (quote p) div amount (base p) in
     if x \<le> GRAPHENE_MAX_SHARE_SUPPLY then Inr (mk_asset x (asset_id (quote p)))
     else throwE (Assert_exception ''result <= GRAPHENE_MAX_SHARE_SUPPLY''))"
  using assms uint_muldiv [OF assms(2) price_posD(2,1) [OF assms(3)]] price_posD(3) [OF assms(3)]
  by (auto simp: asset_mult_def Let_def bindE_def assertE_def throwE_def)

lemma asset_mult_quote_eq:
  assumes "asset_id a = asset_id (quote p)" and "asset_id (base p) \<noteq> asset_id (quote p)"
    and "share_ok (amount a)" and "price_pos p"
  shows "asset_mult a p =
    (let x = amount a * amount (base p) div amount (quote p) in
     if x \<le> GRAPHENE_MAX_SHARE_SUPPLY then Inr (mk_asset x (asset_id (base p)))
     else throwE (Assert_exception ''result <= GRAPHENE_MAX_SHARE_SUPPLY''))"
  using assms uint_muldiv [OF assms(3) price_posD(1,2) [OF assms(4)]] price_posD(4) [OF assms(4)]
  by (auto simp: asset_mult_def Let_def bindE_def assertE_def throwE_def)

lemma asset_mult_other:
  "asset_mult a p = Inr r \<Longrightarrow> asset_id a = asset_id (base p) \<or> asset_id a = asset_id (quote p)"
  by (auto simp: asset_mult_def throwE_def split: if_splits)

text \<open>
  C11: Exchanging an amount at a price gives the exact quotient rounded down, in the other asset
  of the price; exchanging the result back at the same price succeeds and never gives more than
  the amount one started with.
\<close>

theorem exchange_rounds_down:
  assumes p: "price_pos p" "asset_id (base p) \<noteq> asset_id (quote p)"
    and a: "0 \<le> amount a" "amount a \<le> GRAPHENE_MAX_SHARE_SUPPLY" and r: "asset_mult a p = Inr r"
  shows "(asset_id a = asset_id (base p) \<and>
       r = mk_asset (amount a * amount (quote p) div amount (base p)) (asset_id (quote p)) \<or>
     asset_id a = asset_id (quote p) \<and>
       r = mk_asset (amount a * amount (base p) div amount (quote p)) (asset_id (base p))) \<and>
    (\<exists>r'. asset_mult r p = Inr r' \<and> asset_id r' = asset_id a \<and> amount r' \<le> amount a)"
proof -
  have ok: "share_ok (amount a)" using a by (rule max_share_ok)
  have rok: "share_ok (amount r)" using asset_mult_nonneg [OF r] by (intro max_share_ok) auto
  note pos = price_posD(3,4) [OF p(1)]
  consider "asset_id a = asset_id (base p)" | "asset_id a = asset_id (quote p)"
    using asset_mult_other [OF r] by blast
  then show ?thesis
  proof cases
    case 1
    note r1 = asset_mult_base(1) [OF r 1 ok p(1)]
    have "asset_id r = asset_id (quote p)" by (simp add: r1 mk_asset_def)
    from asset_mult_quote_eq [OF this p(2) rok p(1)]
    have "asset_mult r p = Inr (mk_asset (amount r * amount (base p) div amount (quote p)) (asset_id (base p)))"
      using div_mult_round_trip [OF a(1) pos(2,1)] a(2) by (simp add: r1 mk_asset_def Let_def)
    then show ?thesis
      using 1 r1 div_mult_round_trip [OF a(1) pos(2,1)] by (simp add: mk_asset_def)
  next
    case 2
    note r2 = asset_mult_quote(1) [OF r 2 p(2) ok p(1)]
    have "asset_id r = asset_id (base p)" by (simp add: r2 mk_asset_def)
    from asset_mult_base_eq [OF this rok p(1)]
    have "asset_mult r p = Inr (mk_asset (amount r * amount (quote p) div amount (base p)) (asset_id (quote p)))"
      using div_mult_round_trip [OF a(1) pos(1,2)] a(2) by (simp add: r2 mk_asset_def Let_def)
    then show ?thesis
      using 2 r2 div_mult_round_trip [OF a(1) pos(1,2)] by (simp add: mk_asset_def)
  qed
qed

theorem exchange_rounds_down_witness:
  "\<exists>r'. asset_mult (mk_asset 3 1) (mk_price (mk_asset 3 0) (mk_asset 1 1)) = Inr (mk_asset 9 0) \<and>
    asset_mult (mk_asset 10 0) (mk_price (mk_asset 3 0) (mk_asset 1 1)) = Inr (mk_asset 3 1) \<and>
    asset_mult (mk_asset 3 1) (mk_price (mk_asset 3 0) (mk_asset 1 1)) = Inr r' \<and> amount r' \<le> 10"
proof -
  let ?p = "mk_price (mk_asset 3 0) (mk_asset 1 1)"
  have p: "price_pos ?p" "asset_id (base ?p) \<noteq> asset_id (quote ?p)"
    by (simp_all add: price_pos_def mk_asset_def mk_price_def)
  have r: "asset_mult (mk_asset 10 0) ?p = Inr (mk_asset 3 1)" "asset_mult (mk_asset 3 1) ?p = Inr (mk_asset 9 0)"
    by code_simp+
  show ?thesis
    using exchange_rounds_down [OF p _ _ r(1)] r by (simp add: mk_asset_def GRAPHENE_MAX_SHARE_SUPPLY_def)
qed

text \<open>
  C12: The call price of a position with positive debt and collateral is computed: the halving
  loop ends, both amounts of the result lie between 1 and the maximal supply, and the price is
  collateral over debt. Whenever the fraction of collateral and debt with the collateral ratio
  fits in lowest terms, its numerator and denominator in lowest terms are the two amounts.
\<close>

theorem call_price_total:
  assumes R: "rational_contract R" and pos: "0 < amount d" "0 < amount c" "0 < r"
    and ids: "asset_id d \<noteq> asset_id c"
  defines "g \<equiv> gcd (amount d * int r) (amount c * 1000)"
  shows "\<exists>p. call_price R d c r = Some (Inr p) \<and>
    asset_id (base p) = asset_id c \<and> asset_id (quote p) = asset_id d \<and>
    0 < amount (base p) \<and> amount (base p) \<le> GRAPHENE_MAX_SHARE_SUPPLY \<and>
    0 < amount (quote p) \<and> amount (quote p) \<le> GRAPHENE_MAX_SHARE_SUPPLY \<and>
    (amount d * int r div g \<le> GRAPHENE_MAX_SHARE_SUPPLY \<and> amount c * 1000 div g \<le> GRAPHENE_MAX_SHARE_SUPPLY \<longrightarrow>
      amount (base p) = amount c * 1000 div g \<and> amount (quote p) = amount d * int r div g \<and>
      price_value p = of_int (amount c * 1000) / of_int (amount d * int r))"
proof -
  obtain n m where nm: "bindE (R (amount d) (amount c)) (\<lambda>x. bindE (R (int r) GRAPHENE_COLLATERAL_RATIO_DENOM)
      (\<lambda>y. rational_mult R x y)) = Inr (n, m)" "0 < n" "0 < m" "n * (amount c * 1000) = amount d * int r * m" "coprime n m"
    using rational_product [OF R pos(1,2), of "int r" 1000] pos(3)
    by (auto simp: GRAPHENE_COLLATERAL_RATIO_DENOM_def)
  have low: "n = amount d * int r div g" "m = amount c * 1000 div g"
    using lowest_terms [OF nm(2,3) _ _ nm(5,4)] pos by (simp_all add: g_def)
  obtain p q where pq: "call_price_loop R (n, m) = Some (Inr (p, q))" "0 < p" "0 < q" "\<not> too_large (p, q)"
    using call_price_loop_returns [OF R nm(2,3)] by blast
  let ?P = "mk_price (mk_asset q (asset_id c)) (mk_asset p (asset_id d))"
  have "call_price R d c r = Some (Inr ?P)"
    unfolding call_price_def nm(1) using ids pq(1)
    by (simp add: price_invert_def price_of_def bindE_def assertE_def mk_asset_def mk_price_def)
  moreover have "q = amount c * 1000 div g \<and> p = amount d * int r div g \<and>
      price_value ?P = of_int (amount c * 1000) / of_int (amount d * int r)"
    if fits: "amount d * int r div g \<le> GRAPHENE_MAX_SHARE_SUPPLY" "amount c * 1000 div g \<le> GRAPHENE_MAX_SHARE_SUPPLY"
  proof -
    have "\<not> too_large (n, m)" using fits by (simp add: low too_large_def)
    then have "p = n" "q = m" using pq(1) call_price_loop_exact by auto
    moreover have "(of_int m :: rat) * of_int (amount d * int r) = of_int (amount c * 1000) * of_int n"
      using nm(4) by (metis of_int_mult mult.commute)
    moreover have "(of_int n :: rat) \<noteq> 0" "(of_int (amount d * int r) :: rat) \<noteq> 0"
      using nm(2) pos by simp_all
    ultimately show ?thesis using low by (simp add: price_value_def mk_price_def mk_asset_def frac_eq_eq)
  qed
  ultimately show ?thesis using pq by (auto simp: too_large_def mk_asset_def mk_price_def)
qed

text \<open>Amounts so large that only the reduced fraction fits: debt and collateral of two million billion shares.\<close>

theorem call_price_total_witness:
  "\<exists>p. call_price gcd_rational (mk_asset (2 * 10 ^ 15) 1) (mk_asset (6 * 10 ^ 15) 0) 1750 = Some (Inr p) \<and>
    amount (base p) = 12 \<and> amount (quote p) = 7"
proof -
  have "gcd (2 * 10 ^ 15 * 1750) (6 * 10 ^ 15 * 1000) = (500 * 10 ^ 15 :: int)" by code_simp
  then show ?thesis
    using call_price_total [OF gcd_rational_contract, of "mk_asset (2 * 10 ^ 15) 1" "mk_asset (6 * 10 ^ 15) 0" 1750]
    by (auto simp: mk_asset_def GRAPHENE_MAX_SHARE_SUPPLY_def)
qed

lemma price_is_null_iff: "price_is_null p \<longleftrightarrow> asset_id (base p) = 0 \<and> asset_id (quote p) = 0"
  by (simp add: price_is_null_def price_eq_def cross_mult_def null_price_def mk_price_def mk_asset_def)

lemma max_short_squeeze_price_total:
  assumes R: "rational_contract R" and v: "price_validate (settlement_price f) = Inr ()"
    and m: "0 < maximum_short_squeeze_ratio f"
  shows "\<exists>p. max_short_squeeze_price R f = Some (Inr p) \<and> 0 < amount (base p) \<and> 0 < amount (quote p) \<and>
    amount (base p) \<le> GRAPHENE_MAX_SHARE_SUPPLY \<and> amount (quote p) \<le> GRAPHENE_MAX_SHARE_SUPPLY"
proof -
  let ?s = "settlement_price f"
  have s: "0 < amount (base ?s)" "0 < amount (quote ?s)" "asset_id (base ?s) \<noteq> asset_id (quote ?s)"
    using v by (auto simp: price_validate_def res_simps)
  obtain n d where nd: "bindE (R (amount (base ?s)) (amount (quote ?s))) (\<lambda>x.
      bindE (R GRAPHENE_COLLATERAL_RATIO_DENOM (int (maximum_short_squeeze_ratio f)))
      (\<lambda>y. rational_mult R x y)) = Inr (n, d)" "0 < n" "0 < d"
    using rational_product [OF R s(1,2), of GRAPHENE_COLLATERAL_RATIO_DENOM "int (maximum_short_squeeze_ratio f)"] m
    by (auto simp: GRAPHENE_COLLATERAL_RATIO_DENOM_def)
  obtain p q where pq: "squeeze_loop R (n, d) = Some (Inr (p, q))" "0 < p" "0 < q" "\<not> too_large (p, q)"
    using squeeze_loop_returns [OF R nd(2,3)] by blast
  then show ?thesis
    unfolding max_short_squeeze_price_def nd(1) using s(3)
    by (simp add: price_of_def bindE_def assertE_def mk_asset_def mk_price_def too_large_def)
qed

lemma rational_bounds:
  assumes R: "rational_contract R" and "0 < d" and "R n d = Inr (p, q)"
  shows "0 < q" "q \<le> d" "p \<le> max n 0"
proof -
  obtain p' q' where pq: "R n d = Inr (p', q')" "0 < q'" "coprime p' q'" "p' * d = n * q'"
    using R assms(2) unfolding rational_contract_def by (metis less_irrefl)
  then have eq: "p' = p" "q' = q" using assms(3) by simp_all
  show "0 < q" using pq(2) eq by simp
  have "q dvd d" using pq(3,4) eq by (metis coprime_commute coprime_dvd_mult_right_iff dvd_triv_right)
  then show "q \<le> d" using assms(2) by (rule zdvd_imp_le)
  have "p dvd n" using pq(3,4) eq by (metis coprime_dvd_mult_left_iff dvd_triv_left)
  moreover have "0 < n" if "0 < p"
  proof -
    have "0 < n * q" using pq(4) eq that assms(2) by (metis mult_pos_pos)
    then show ?thesis using pq(2) eq by (simp add: zero_less_mult_iff)
  qed
  ultimately show "p \<le> max n 0" by (cases "0 < p") (auto dest: zdvd_imp_le)
qed

text \<open>The squeeze loop ends whatever the sign of the numerator.\<close>

lemma squeeze_loop_ends:
  assumes R: "rational_contract R"
  shows "0 < d \<Longrightarrow> squeeze_loop R (n, d) \<noteq> None"
proof (induction "nat (max n d)" arbitrary: n d rule: less_induct)
  case less
  show ?case
  proof (cases "too_large (n, d)")
    case True
    have d': "0 < d div 2 + d mod 2" using less.prems by presburger
    have big: "GRAPHENE_MAX_SHARE_SUPPLY < max n d" using True by (auto simp: too_large_def)
    show ?thesis
    proof (cases "R (n div 2 + n mod 2) (d div 2 + d mod 2)")
      case (Inl e)
      then show ?thesis using True by (simp add: squeeze_loop.simps [of R "(n, d)"])
    next
      case (Inr cp)
      obtain p q where cp: "cp = (p, q)" by (cases cp)
      note b = rational_bounds [OF R d' Inr [unfolded cp]]
      have half: "2 * (x div 2 + x mod 2) \<le> x + 1" for x :: int by presburger
      have "2 * p \<le> max n 0 + 1" using b(3) half [of n] by (auto simp: max_def split: if_splits)
      moreover have "2 * q \<le> d + 1" using b(2) by presburger
      ultimately have "max p q < max n d"
        using big less.prems unfolding GRAPHENE_MAX_SHARE_SUPPLY_def max_def by (simp split: if_splits)
      then have "nat (max p q) < nat (max n d)" using less.prems by simp
      then have "squeeze_loop R (p, q) \<noteq> None" using less.hyps b(1) by blast
      then show ?thesis using True Inr cp by (simp add: squeeze_loop.simps [of R "(n, d)"])
    qed
  qed (simp add: squeeze_loop.simps)
qed

lemma rational_denominator_pos:
  assumes "rational_contract R" and "R n d = Inr (p, q)"
  shows "0 < q"
proof (cases "d = 0")
  case True
  then show ?thesis using assms unfolding rational_contract_def by (metis sum.distinct(1))
next
  case False
  then show ?thesis using assms unfolding rational_contract_def by (metis Inr_inject prod.inject)
qed

lemma price_feed_validate_ends:
  assumes R: "rational_contract R"
  shows "price_feed_validate R f \<noteq> None"
proof -
  have "max_short_squeeze_price R f \<noteq> None"
  proof (cases "bindE (R (amount (base (settlement_price f))) (amount (quote (settlement_price f)))) (\<lambda>sp.
           bindE (R GRAPHENE_COLLATERAL_RATIO_DENOM (int (maximum_short_squeeze_ratio f))) (\<lambda>ratio.
           rational_mult R sp ratio))")
    case (Inr cp)
    then obtain sp ratio where "rational_mult R sp ratio = Inr cp" by (auto simp: res_simps)
    then have "0 < snd cp" using rational_denominator_pos [OF R] by (cases cp) (auto simp: rational_mult_def)
    then have "squeeze_loop R cp \<noteq> None" using squeeze_loop_ends [OF R] by (cases cp) simp
    then show ?thesis using Inr by (auto simp: max_short_squeeze_price_def)
  qed (simp add: max_short_squeeze_price_def)
  then show ?thesis by (auto simp: price_feed_validate_def split: sum.splits)
qed

text \<open>
  A feed with a null settlement price, which the validation guards against and which
  \<open>is_for\<close> accepts for every asset when its exchange rate is null too, never passes the
  validation: the squeeze price it computes at the end has no quote to divide by. A feed with a
  valid settlement price and ratios in the allowed range always passes, so the loop of the
  squeeze price ends on it.
\<close>

theorem price_feed_validation:
  assumes "rational_contract R"
  shows "(price_is_null (settlement_price f) \<longrightarrow> price_feed_validate R f \<noteq> Some (Inr ())) \<and>
    (price_validate (settlement_price f) = Inr () \<and>
     maximum_short_squeeze_ratio f \<in> {GRAPHENE_MIN_COLLATERAL_RATIO .. GRAPHENE_MAX_COLLATERAL_RATIO} \<and>
     maintenance_collateral_ratio f \<in> {GRAPHENE_MIN_COLLATERAL_RATIO .. GRAPHENE_MAX_COLLATERAL_RATIO} \<longrightarrow>
     price_feed_validate R f = Some (Inr ()))"
proof (intro conjI impI)
  assume "price_is_null (settlement_price f)"
  then have ids: "asset_id (base (settlement_price f)) = asset_id (quote (settlement_price f))"
    by (simp add: price_is_null_iff)
  have "max_short_squeeze_price R f \<noteq> Some (Inr p)" for p
    by (auto simp: max_short_squeeze_price_def ids res_simps mk_asset_def split: sum.splits)
  then show "price_feed_validate R f \<noteq> Some (Inr ())"
    by (auto simp: price_feed_validate_def res_simps split: sum.splits)
next
  assume v: "price_validate (settlement_price f) = Inr () \<and>
     maximum_short_squeeze_ratio f \<in> {GRAPHENE_MIN_COLLATERAL_RATIO .. GRAPHENE_MAX_COLLATERAL_RATIO} \<and>
     maintenance_collateral_ratio f \<in> {GRAPHENE_MIN_COLLATERAL_RATIO .. GRAPHENE_MAX_COLLATERAL_RATIO}"
  then have "0 < maximum_short_squeeze_ratio f" by (auto simp: GRAPHENE_MIN_COLLATERAL_RATIO_def)
  then obtain p where "max_short_squeeze_price R f = Some (Inr p)"
    using max_short_squeeze_price_total [OF assms] v by blast
  then show "price_feed_validate R f = Some (Inr ())"
    using v by (simp add: price_feed_validate_def bindE_def assertE_def)
qed

theorem price_feed_validation_witness:
  "price_feed_validate gcd_rational \<lparr>settlement_price = null_price, core_exchange_rate = null_price,
     maintenance_collateral_ratio = 1750, maximum_short_squeeze_ratio = 1500\<rparr> \<noteq> Some (Inr ())"
  using price_feed_validation [OF gcd_rational_contract, of "\<lparr>settlement_price = null_price,
     core_exchange_rate = null_price, maintenance_collateral_ratio = 1750, maximum_short_squeeze_ratio = 1500\<rparr>"]
  by (simp add: price_is_null_iff null_price_def mk_price_def mk_asset_def)

end
