(* ===== verification/Vesting.thy ===== *)
theory Vesting
  imports Asset_Price
begin

text \<open>
  Vesting balances (\<open>libraries/chain/vesting_balance_object.cpp\<close> and its header): the two
  vesting policies and the balance object that dispatches to them.

  Coin-seconds are 128-bit words and times are seconds. The \<open>assert\<close>s of the source are
  checks of a debug build and have no effect here; that they hold is part of the lemmas. The
  product of two signed 64-bit values in \<open>on_deposit_vested\<close> is undefined when it does not fit,
  which is the outcome \<open>Undefined_behaviour\<close>.
\<close>

record vesting_policy_context =
  ctx_balance :: asset
  ctx_now :: nat
  ctx_amount :: asset

record linear_vesting_policy =
  begin_timestamp :: nat
  vesting_cliff_seconds :: nat
  vesting_duration_seconds :: nat
  begin_balance :: int

record cdd_vesting_policy =
  vesting_seconds :: nat
  coin_seconds_earned :: u128
  start_claim :: nat
  coin_seconds_earned_last_update :: nat

datatype vesting_policy = Linear linear_vesting_policy | Cdd cdd_vesting_policy

record vesting_balance_object =
  vb_owner :: account_id_type
  vb_balance :: asset
  vb_policy :: vesting_policy

definition mk_ctx :: "asset \<Rightarrow> nat \<Rightarrow> asset \<Rightarrow> vesting_policy_context" where
  "mk_ctx b n a = \<lparr>ctx_balance = b, ctx_now = n, ctx_amount = a\<rparr>"

definition sum_below_max_shares :: "'z fc_env_scheme \<Rightarrow> asset \<Rightarrow> asset \<Rightarrow> bool res" where
  "sum_below_max_shares E a b =
     (if amount a \<le> GRAPHENE_MAX_SHARE_SUPPLY \<and> amount b \<le> GRAPHENE_MAX_SHARE_SUPPLY
      then bindE (safe_add E (amount a) (amount b)) (\<lambda>s. Inr (s \<le> GRAPHENE_MAX_SHARE_SUPPLY))
      else Inr False)"

subsection \<open>The linear policy\<close>

definition linear_total_vested :: "'z fc_env_scheme \<Rightarrow> linear_vesting_policy \<Rightarrow> nat \<Rightarrow> int res" where
  "linear_total_vested E p elapsed_seconds =
     (if elapsed_seconds < vesting_duration_seconds p
      then to_share E ((word_of_int (begin_balance p) * word_of_nat elapsed_seconds)
                       div word_of_nat (vesting_duration_seconds p))
      else Inr (begin_balance p))"

definition linear_get_allowed_withdraw ::
    "'z fc_env_scheme \<Rightarrow> linear_vesting_policy \<Rightarrow> vesting_policy_context \<Rightarrow> asset res" where
  "linear_get_allowed_withdraw E p ctx =
     (if begin_timestamp p < ctx_now ctx \<and> vesting_cliff_seconds p \<le> ctx_now ctx - begin_timestamp p then
        bindE (linear_total_vested E p (ctx_now ctx - begin_timestamp p)) (\<lambda>total_vested.
        bindE (safe_sub E (begin_balance p) (amount (ctx_balance ctx))) (\<lambda>withdrawn_already.
        bindE (safe_sub E total_vested withdrawn_already) (\<lambda>allowed_withdraw.
        Inr (mk_asset allowed_withdraw (asset_id (ctx_balance ctx))))))
      else Inr (mk_asset 0 (asset_id (ctx_balance ctx))))"

definition linear_on_deposit :: "vesting_policy_context \<Rightarrow> linear_vesting_policy \<Rightarrow> linear_vesting_policy res" where
  "linear_on_deposit ctx p = Inr p"

definition linear_on_deposit_vested :: "vesting_policy_context \<Rightarrow> linear_vesting_policy \<Rightarrow> linear_vesting_policy res" where
  "linear_on_deposit_vested ctx p =
     throwE (Assert_exception ''May not deposit vested into a linear vesting balance.'')"

definition linear_on_withdraw :: "vesting_policy_context \<Rightarrow> linear_vesting_policy \<Rightarrow> linear_vesting_policy res" where
  "linear_on_withdraw ctx p = Inr p"

definition linear_is_deposit_allowed ::
    "'z fc_env_scheme \<Rightarrow> linear_vesting_policy \<Rightarrow> vesting_policy_context \<Rightarrow> bool res" where
  "linear_is_deposit_allowed E p ctx =
     (if asset_id (ctx_amount ctx) = asset_id (ctx_balance ctx)
      then sum_below_max_shares E (ctx_amount ctx) (ctx_balance ctx) else Inr False)"

definition linear_is_deposit_vested_allowed :: "linear_vesting_policy \<Rightarrow> vesting_policy_context \<Rightarrow> bool res" where
  "linear_is_deposit_vested_allowed p ctx = Inr False"

definition linear_is_withdraw_allowed ::
    "'z fc_env_scheme \<Rightarrow> linear_vesting_policy \<Rightarrow> vesting_policy_context \<Rightarrow> bool res" where
  "linear_is_withdraw_allowed E p ctx =
     (if asset_id (ctx_amount ctx) = asset_id (ctx_balance ctx)
      then bindE (linear_get_allowed_withdraw E p ctx) (asset_le (ctx_amount ctx)) else Inr False)"

subsection \<open>The coin-days policy\<close>

definition cdd_factor :: "cdd_vesting_policy \<Rightarrow> nat" where
  "cdd_factor p = max (vesting_seconds p) 1"

definition compute_coin_seconds_earned :: "cdd_vesting_policy \<Rightarrow> vesting_policy_context \<Rightarrow> u128" where
  "compute_coin_seconds_earned p ctx =
     (let delta_seconds = int (ctx_now ctx) - int (coin_seconds_earned_last_update p);
          delta_coin_seconds = word_of_int (amount (ctx_balance ctx)) * word_of_int delta_seconds;
          coin_seconds_earned_cap = word_of_int (amount (ctx_balance ctx)) * word_of_nat (cdd_factor p)
      in min (coin_seconds_earned p + delta_coin_seconds) coin_seconds_earned_cap)"

definition update_coin_seconds_earned ::
    "vesting_policy_context \<Rightarrow> cdd_vesting_policy \<Rightarrow> cdd_vesting_policy" where
  "update_coin_seconds_earned ctx p =
     p\<lparr>coin_seconds_earned := compute_coin_seconds_earned p ctx,
       coin_seconds_earned_last_update := ctx_now ctx\<rparr>"

definition cdd_get_allowed_withdraw ::
    "'z fc_env_scheme \<Rightarrow> cdd_vesting_policy \<Rightarrow> vesting_policy_context \<Rightarrow> asset res" where
  "cdd_get_allowed_withdraw E p ctx =
     (if ctx_now ctx \<le> start_claim p then Inr (mk_asset 0 (asset_id (ctx_balance ctx)))
      else bindE (to_share E (compute_coin_seconds_earned p ctx div word_of_nat (cdd_factor p)))
        (\<lambda>w. Inr (mk_asset w (asset_id (ctx_balance ctx)))))"

definition cdd_on_deposit :: "vesting_policy_context \<Rightarrow> cdd_vesting_policy \<Rightarrow> cdd_vesting_policy res" where
  "cdd_on_deposit ctx p = Inr (update_coin_seconds_earned ctx p)"

definition cdd_on_deposit_vested :: "vesting_policy_context \<Rightarrow> cdd_vesting_policy \<Rightarrow> cdd_vesting_policy res" where
  "cdd_on_deposit_vested ctx p =
     bindE (cdd_on_deposit ctx p) (\<lambda>q.
     let x = amount (ctx_amount ctx) * int (cdd_factor q) in
     if fc_int64 x then Inr (q\<lparr>coin_seconds_earned := coin_seconds_earned q + word_of_int x\<rparr>)
     else throwE Undefined_behaviour)"

definition cdd_on_withdraw :: "vesting_policy_context \<Rightarrow> cdd_vesting_policy \<Rightarrow> cdd_vesting_policy res" where
  "cdd_on_withdraw ctx p =
     (let q = update_coin_seconds_earned ctx p;
          coin_seconds_needed = word_of_int (amount (ctx_amount ctx)) * word_of_nat (cdd_factor q)
      in Inr (q\<lparr>coin_seconds_earned := coin_seconds_earned q - coin_seconds_needed\<rparr>))"

definition cdd_is_deposit_allowed ::
    "'z fc_env_scheme \<Rightarrow> cdd_vesting_policy \<Rightarrow> vesting_policy_context \<Rightarrow> bool res" where
  "cdd_is_deposit_allowed E p ctx =
     (if asset_id (ctx_amount ctx) = asset_id (ctx_balance ctx)
      then sum_below_max_shares E (ctx_amount ctx) (ctx_balance ctx) else Inr False)"

definition cdd_is_deposit_vested_allowed ::
    "'z fc_env_scheme \<Rightarrow> cdd_vesting_policy \<Rightarrow> vesting_policy_context \<Rightarrow> bool res" where
  "cdd_is_deposit_vested_allowed E p ctx = cdd_is_deposit_allowed E p ctx"

definition cdd_is_withdraw_allowed ::
    "'z fc_env_scheme \<Rightarrow> cdd_vesting_policy \<Rightarrow> vesting_policy_context \<Rightarrow> bool res" where
  "cdd_is_withdraw_allowed E p ctx =
     bindE (cdd_get_allowed_withdraw E p ctx) (asset_le (ctx_amount ctx))"

subsection \<open>The balance object\<close>

fun on_deposit :: "vesting_policy_context \<Rightarrow> vesting_policy \<Rightarrow> vesting_policy res" where
  "on_deposit ctx (Linear p) = bindE (linear_on_deposit ctx p) (\<lambda>q. Inr (Linear q))"
| "on_deposit ctx (Cdd p) = bindE (cdd_on_deposit ctx p) (\<lambda>q. Inr (Cdd q))"

fun on_deposit_vested :: "vesting_policy_context \<Rightarrow> vesting_policy \<Rightarrow> vesting_policy res" where
  "on_deposit_vested ctx (Linear p) = bindE (linear_on_deposit_vested ctx p) (\<lambda>q. Inr (Linear q))"
| "on_deposit_vested ctx (Cdd p) = bindE (cdd_on_deposit_vested ctx p) (\<lambda>q. Inr (Cdd q))"

fun on_withdraw :: "vesting_policy_context \<Rightarrow> vesting_policy \<Rightarrow> vesting_policy res" where
  "on_withdraw ctx (Linear p) = bindE (linear_on_withdraw ctx p) (\<lambda>q. Inr (Linear q))"
| "on_withdraw ctx (Cdd p) = bindE (cdd_on_withdraw ctx p) (\<lambda>q. Inr (Cdd q))"

definition vb_is_deposit_allowed :: "'z fc_env_scheme \<Rightarrow> vesting_balance_object \<Rightarrow> nat \<Rightarrow> asset \<Rightarrow> bool res" where
  "vb_is_deposit_allowed E v now a =
     (case vb_policy v of
        Linear p \<Rightarrow> linear_is_deposit_allowed E p (mk_ctx (vb_balance v) now a)
      | Cdd p \<Rightarrow> cdd_is_deposit_allowed E p (mk_ctx (vb_balance v) now a))"

definition vb_is_deposit_vested_allowed ::
    "'z fc_env_scheme \<Rightarrow> vesting_balance_object \<Rightarrow> nat \<Rightarrow> asset \<Rightarrow> bool res" where
  "vb_is_deposit_vested_allowed E v now a =
     (case vb_policy v of
        Linear p \<Rightarrow> linear_is_deposit_vested_allowed p (mk_ctx (vb_balance v) now a)
      | Cdd p \<Rightarrow> cdd_is_deposit_vested_allowed E p (mk_ctx (vb_balance v) now a))"

definition vb_is_withdraw_allowed :: "'z fc_env_scheme \<Rightarrow> vesting_balance_object \<Rightarrow> nat \<Rightarrow> asset \<Rightarrow> bool res" where
  "vb_is_withdraw_allowed E v now a =
     (case vb_policy v of
        Linear p \<Rightarrow> linear_is_withdraw_allowed E p (mk_ctx (vb_balance v) now a)
      | Cdd p \<Rightarrow> cdd_is_withdraw_allowed E p (mk_ctx (vb_balance v) now a))"

definition vb_get_allowed_withdraw :: "'z fc_env_scheme \<Rightarrow> vesting_balance_object \<Rightarrow> nat \<Rightarrow> asset res" where
  "vb_get_allowed_withdraw E v now =
     (case vb_policy v of
        Linear p \<Rightarrow> linear_get_allowed_withdraw E p (mk_ctx (vb_balance v) now (mk_asset 0 0))
      | Cdd p \<Rightarrow> cdd_get_allowed_withdraw E p (mk_ctx (vb_balance v) now (mk_asset 0 0)))"

definition vb_deposit ::
    "'z fc_env_scheme \<Rightarrow> nat \<Rightarrow> asset \<Rightarrow> vesting_balance_object \<Rightarrow> vesting_balance_object res" where
  "vb_deposit E now a v =
     bindE (on_deposit (mk_ctx (vb_balance v) now a) (vb_policy v)) (\<lambda>p.
     bindE (asset_plus E (vb_balance v) a) (\<lambda>b. Inr (v\<lparr>vb_policy := p, vb_balance := b\<rparr>)))"

definition vb_deposit_vested ::
    "'z fc_env_scheme \<Rightarrow> nat \<Rightarrow> asset \<Rightarrow> vesting_balance_object \<Rightarrow> vesting_balance_object res" where
  "vb_deposit_vested E now a v =
     bindE (on_deposit_vested (mk_ctx (vb_balance v) now a) (vb_policy v)) (\<lambda>p.
     bindE (asset_plus E (vb_balance v) a) (\<lambda>b. Inr (v\<lparr>vb_policy := p, vb_balance := b\<rparr>)))"

definition vb_withdraw ::
    "'z fc_env_scheme \<Rightarrow> nat \<Rightarrow> asset \<Rightarrow> vesting_balance_object \<Rightarrow> vesting_balance_object res" where
  "vb_withdraw E now a v =
     bindE (on_withdraw (mk_ctx (vb_balance v) now a) (vb_policy v)) (\<lambda>p.
     bindE (asset_minus E (vb_balance v) a) (\<lambda>b. Inr (v\<lparr>vb_policy := p, vb_balance := b\<rparr>)))"

lemmas policy_defs [chain_defs] = linear_on_deposit_def linear_on_deposit_vested_def linear_on_withdraw_def
  linear_is_deposit_vested_allowed_def cdd_on_deposit_def cdd_is_deposit_vested_allowed_def

lemma mk_ctx_simps [simp]:
  "ctx_balance (mk_ctx b t a) = b" "ctx_now (mk_ctx b t a) = t" "ctx_amount (mk_ctx b t a) = a"
  by (simp_all add: mk_ctx_def)

lemma mk_asset_simps [simp]: "amount (mk_asset a i) = a" "asset_id (mk_asset a i) = i"
  by (simp_all add: mk_asset_def)

lemma mk_asset_collapse [simp]: "mk_asset (amount a) (asset_id a) = a"
  by (simp add: mk_asset_def)

lemma asset_le_same: "asset_id a = asset_id b \<Longrightarrow> asset_le a b = Inr (amount a \<le> amount b)"
  by (cases a; cases b) (auto simp: asset_le_def asset_less_def)

subsection \<open>What a policy promises\<close>

text \<open>
  The interface between a policy and the balance object: an invariant of time, balance and
  policy state under which the withdrawable amount is between zero and the balance, which
  allowed withdrawals keep and which the passage of time keeps.
\<close>

locale vesting_rules =
  fixes inv :: "nat \<Rightarrow> asset \<Rightarrow> 'p \<Rightarrow> bool"
    and get_allowed :: "'p \<Rightarrow> vesting_policy_context \<Rightarrow> asset res"
    and withdraw_hook :: "vesting_policy_context \<Rightarrow> 'p \<Rightarrow> 'p res"
  assumes allowed: "inv t b p \<Longrightarrow>
      \<exists>w. get_allowed p (mk_ctx b t a) = Inr (mk_asset w (asset_id b)) \<and> 0 \<le> w \<and> w \<le> amount b"
    and withdraw: "inv t b p \<Longrightarrow> get_allowed p (mk_ctx b t a) = Inr w \<Longrightarrow> asset_id a = asset_id b \<Longrightarrow>
      0 \<le> amount a \<Longrightarrow> amount a \<le> amount w \<Longrightarrow>
      \<exists>q. withdraw_hook (mk_ctx b t a) p = Inr q \<and> inv t (mk_asset (amount b - amount a) (asset_id b)) q"
    and later: "inv t b p \<Longrightarrow> t \<le> t' \<Longrightarrow> t' < 2 ^ 32 \<Longrightarrow> inv t' b p"
begin

lemma withdraw_checked:
  assumes "inv t b p" and "asset_id a = asset_id b" and "0 \<le> amount a"
    and "bindE (get_allowed p (mk_ctx b t a)) (asset_le a) = Inr True"
  shows "amount a \<le> amount b \<and>
    (\<exists>q. withdraw_hook (mk_ctx b t a) p = Inr q \<and> inv t (mk_asset (amount b - amount a) (asset_id b)) q)"
proof -
  obtain w where w: "get_allowed p (mk_ctx b t a) = Inr (mk_asset w (asset_id b))" "w \<le> amount b"
    using allowed [OF assms(1)] by blast
  then have "amount a \<le> w" using assms(2,4) by (simp add: asset_le_same)
  then show ?thesis using withdraw [OF assms(1) w(1) assms(2,3)] w(2) by simp
qed

end

subsection \<open>The linear policy keeps the promise\<close>

definition linear_vested :: "linear_vesting_policy \<Rightarrow> nat \<Rightarrow> int" where
  "linear_vested p t =
     (if begin_timestamp p < t \<and> vesting_cliff_seconds p \<le> t - begin_timestamp p then
        if t - begin_timestamp p < vesting_duration_seconds p
        then begin_balance p * int (t - begin_timestamp p) div int (vesting_duration_seconds p)
        else begin_balance p
      else 0)"

definition linear_inv :: "'z fc_env_scheme \<Rightarrow> nat \<Rightarrow> asset \<Rightarrow> linear_vesting_policy \<Rightarrow> bool" where
  "linear_inv E t b p \<longleftrightarrow> fc_contract E \<and> 0 \<le> amount b \<and> amount b \<le> begin_balance p \<and>
     begin_balance p \<le> GRAPHENE_MAX_SHARE_SUPPLY \<and> begin_balance p - amount b \<le> linear_vested p t \<and>
     t < 2 ^ 32 \<and> vesting_duration_seconds p < 2 ^ 32"

lemma mult_div_le:
  fixes a :: int
  assumes "0 \<le> a" "0 \<le> e" "e \<le> d" "0 < d"
  shows "0 \<le> a * e div d" and "a * e div d \<le> a"
proof -
  show "0 \<le> a * e div d" using assms by (simp add: pos_imp_zdiv_nonneg_iff)
  have "a * e div d \<le> a * d div d"
    using assms by (intro zdiv_mono1 mult_left_mono) auto
  then show "a * e div d \<le> a" using assms by simp
qed

lemma uint_share_muldiv:
  assumes "0 \<le> a" "a \<le> GRAPHENE_MAX_SHARE_SUPPLY" "e < 2 ^ 32" "d < 2 ^ 32"
  shows "uint ((word_of_int a * word_of_nat e :: u128) div word_of_nat d) = a * int e div int d"
proof -
  have "share_ok a" "share_ok (int e)" "share_ok (int d)"
    using assms by (auto simp: share_ok_def GRAPHENE_MAX_SHARE_SUPPLY_def)
  from uint_muldiv [OF this] show ?thesis by (simp add: u128_muldiv_def)
qed

lemma linear_total_vested_exact:
  assumes "fc_contract E" "0 \<le> begin_balance p" "begin_balance p \<le> GRAPHENE_MAX_SHARE_SUPPLY"
    and "e < 2 ^ 32" "vesting_duration_seconds p < 2 ^ 32"
  shows "linear_total_vested E p e = Inr (if e < vesting_duration_seconds p
    then begin_balance p * int e div int (vesting_duration_seconds p) else begin_balance p)"
proof (cases "e < vesting_duration_seconds p")
  case True
  then have "begin_balance p * int e div int (vesting_duration_seconds p) \<le> begin_balance p"
    using assms(2) by (intro mult_div_le) auto
  then have "uint ((word_of_int (begin_balance p) * word_of_nat e :: u128)
      div word_of_nat (vesting_duration_seconds p)) < 2 ^ 63"
    using assms(3) unfolding uint_share_muldiv [OF assms(2-5)] GRAPHENE_MAX_SHARE_SUPPLY_def by simp
  then show ?thesis
    using True by (simp add: linear_total_vested_def to_share_small [OF assms(1)] uint_share_muldiv [OF assms(2-5)])
qed (simp add: linear_total_vested_def)

lemma linear_vested_bounds:
  assumes "0 \<le> begin_balance p"
  shows "0 \<le> linear_vested p t" and "linear_vested p t \<le> begin_balance p"
  using assms mult_div_le [of "begin_balance p" "int (t - begin_timestamp p)" "int (vesting_duration_seconds p)"]
  by (auto simp: linear_vested_def)

lemma linear_vested_mono:
  assumes "0 \<le> begin_balance p" and "t \<le> t'"
  shows "linear_vested p t \<le> linear_vested p t'"
proof (cases "begin_timestamp p < t \<and> vesting_cliff_seconds p \<le> t - begin_timestamp p \<and>
    t' - begin_timestamp p < vesting_duration_seconds p")
  case True
  then have "begin_balance p * int (t - begin_timestamp p) div int (vesting_duration_seconds p)
      \<le> begin_balance p * int (t' - begin_timestamp p) div int (vesting_duration_seconds p)"
    using assms by (intro zdiv_mono1 mult_left_mono) auto
  then show ?thesis using True assms(2) by (auto simp: linear_vested_def)
next
  case False
  have "linear_vested p t = 0 \<or> linear_vested p t' = begin_balance p"
    using False assms(2) by (auto simp: linear_vested_def)
  then show ?thesis using linear_vested_bounds [OF assms(1)] by auto
qed

lemma linear_allowed_exact:
  assumes "linear_inv E t b p"
  shows "linear_get_allowed_withdraw E p (mk_ctx b t a) =
    Inr (mk_asset (linear_vested p t - (begin_balance p - amount b)) (asset_id b))"
proof -
  have i: "fc_contract E" "0 \<le> amount b" "amount b \<le> begin_balance p" "0 \<le> begin_balance p"
      "begin_balance p \<le> GRAPHENE_MAX_SHARE_SUPPLY" "begin_balance p - amount b \<le> linear_vested p t"
      "t - begin_timestamp p < 2 ^ 32" "vesting_duration_seconds p < 2 ^ 32"
    using assms by (auto simp: linear_inv_def)
  have safe: "fc_safe E x" if "0 \<le> x" "x \<le> begin_balance p" for x
    using that i(1,5) by (simp add: fc_contract_safe fc_int64_def GRAPHENE_MAX_SHARE_SUPPLY_def)
  have v: "0 \<le> linear_vested p t" "linear_vested p t \<le> begin_balance p"
    using linear_vested_bounds [OF i(4)] by auto
  note tv = linear_total_vested_exact [OF i(1,4,5,7,8)]
  show ?thesis
  proof (cases "begin_timestamp p < t \<and> vesting_cliff_seconds p \<le> t - begin_timestamp p")
    case True
    then have "linear_total_vested E p (t - begin_timestamp p) = Inr (linear_vested p t)"
      by (simp add: tv linear_vested_def)
    moreover have "safe_sub E (begin_balance p) (amount b) = Inr (begin_balance p - amount b)"
      "safe_sub E (linear_vested p t) (begin_balance p - amount b) = Inr (linear_vested p t - (begin_balance p - amount b))"
      using i v by (auto simp: safe_sub_def safe)
    ultimately show ?thesis using True by (auto simp: linear_get_allowed_withdraw_def)
  next
    case False
    then have "linear_vested p t = 0" unfolding linear_vested_def by (simp only: if_False)
    then have "linear_vested p t - (begin_balance p - amount b) = 0" using i by simp
    then show ?thesis
      unfolding linear_get_allowed_withdraw_def mk_ctx_simps using False by (simp only: if_False)
  qed
qed

interpretation lin: vesting_rules "linear_inv E" "linear_get_allowed_withdraw E" linear_on_withdraw for E
proof unfold_locales
  fix t b p a w t'
  assume i: "linear_inv E t b p"
  then have "0 \<le> begin_balance p" "begin_balance p - amount b \<le> linear_vested p t" "0 \<le> amount b"
      "amount b \<le> begin_balance p"
    by (auto simp: linear_inv_def)
  note v = linear_vested_bounds [OF this(1), of t] this
  show "\<exists>w. linear_get_allowed_withdraw E p (mk_ctx b t a) = Inr (mk_asset w (asset_id b)) \<and> 0 \<le> w \<and> w \<le> amount b"
    unfolding linear_allowed_exact [OF i] using v by auto
  show "linear_inv E t' b p" if "t \<le> t'" "t' < 2 ^ 32"
    using i that linear_vested_mono [OF v(3) that(1)] by (auto simp: linear_inv_def)
  show "\<exists>q. linear_on_withdraw (mk_ctx b t a) p = Inr q \<and>
      linear_inv E t (mk_asset (amount b - amount a) (asset_id b)) q"
    if "linear_get_allowed_withdraw E p (mk_ctx b t a) = Inr w" "0 \<le> amount a" "amount a \<le> amount w"
  proof -
    have "amount w = linear_vested p t - (begin_balance p - amount b)"
      using that(1) unfolding linear_allowed_exact [OF i] by auto
    then show ?thesis using i that v by (auto simp: linear_on_withdraw_def linear_inv_def)
  qed
qed

subsection \<open>The coin-days policy keeps the promise\<close>

definition cdd_inv :: "'z fc_env_scheme \<Rightarrow> nat \<Rightarrow> asset \<Rightarrow> cdd_vesting_policy \<Rightarrow> bool" where
  "cdd_inv E t b p \<longleftrightarrow> fc_contract E \<and> 0 \<le> amount b \<and> amount b \<le> GRAPHENE_MAX_SHARE_SUPPLY \<and>
     coin_seconds_earned_last_update p \<le> t \<and> t < 2 ^ 32 \<and> vesting_seconds p < 2 ^ 32 \<and>
     uint (coin_seconds_earned p) \<le> amount b * int (cdd_factor p)"

definition cdd_earned :: "cdd_vesting_policy \<Rightarrow> nat \<Rightarrow> int \<Rightarrow> int" where
  "cdd_earned p t b =
     min (uint (coin_seconds_earned p) + b * int (t - coin_seconds_earned_last_update p)) (b * int (cdd_factor p))"

lemma cdd_factor_pos [simp]: "0 < cdd_factor p" "int (cdd_factor p) \<noteq> 0" "cdd_factor p \<noteq> 0"
  by (simp_all add: cdd_factor_def)

lemma uint_share_times:
  assumes "0 \<le> a" "a \<le> GRAPHENE_MAX_SHARE_SUPPLY" "n < 2 ^ 32"
  shows "uint (word_of_int a * word_of_nat n :: u128) = a * int n" and "a * int n \<le> 2 ^ 72"
proof -
  have "share_ok a" "share_ok (int n)"
    using assms by (auto simp: share_ok_def GRAPHENE_MAX_SHARE_SUPPLY_def)
  from uint_share_mult [OF this] show "uint (word_of_int a * word_of_nat n :: u128) = a * int n" by simp
  have "a * int n \<le> 2 ^ 40 * 2 ^ 32"
    using assms by (intro mult_mono) (auto simp: GRAPHENE_MAX_SHARE_SUPPLY_def)
  then show "a * int n \<le> 2 ^ 72" by simp
qed

lemma uint_factor: "n < 2 ^ 32 \<Longrightarrow> uint (word_of_nat n :: u128) = int n"
  using uint_share_times(1) [of 1 n] by (simp add: GRAPHENE_MAX_SHARE_SUPPLY_def)

lemma uint_plus_small:
  fixes x y :: u128
  assumes "uint x \<le> 2 ^ 72" "uint y \<le> 2 ^ 72"
  shows "uint (x + y) = uint x + uint y"
  using assms by (simp add: uint_plus_simple_iff [symmetric] no_olen_add)

lemma word_min_uint: "uint (min x y) = min (uint x) (uint (y :: u128))"
  by (simp add: min_def word_le_def)

lemma cdd_inv_factor: "cdd_inv E t b p \<Longrightarrow> cdd_factor p < 2 ^ 32"
  by (auto simp: cdd_inv_def cdd_factor_def max_def)

lemma cdd_earned_exact:
  assumes "cdd_inv E t b p"
  shows "uint (compute_coin_seconds_earned p (mk_ctx b t a)) = cdd_earned p t (amount b)"
proof -
  let ?d = "t - coin_seconds_earned_last_update p"
  have i: "0 \<le> amount b" "amount b \<le> GRAPHENE_MAX_SHARE_SUPPLY" "?d < 2 ^ 32"
      "coin_seconds_earned_last_update p \<le> t"
    using assms by (auto simp: cdd_inv_def)
  note f = cdd_inv_factor [OF assms]
  have d: "int t - int (coin_seconds_earned_last_update p) = int ?d" using i(4) by simp
  have "uint (coin_seconds_earned p) \<le> 2 ^ 72"
    using assms uint_share_times(2) [OF i(1,2) f] by (simp add: cdd_inv_def)
  then have "uint (coin_seconds_earned p + word_of_int (amount b) * word_of_nat ?d)
      = uint (coin_seconds_earned p) + amount b * int ?d"
    using uint_share_times [OF i(1-3)] by (subst uint_plus_small) auto
  then show ?thesis
    unfolding compute_coin_seconds_earned_def Let_def mk_ctx_simps d of_int_of_nat_eq
    by (simp add: word_min_uint cdd_earned_def uint_share_times(1) [OF i(1,2) f])
qed

lemma cdd_earned_bounds:
  assumes "cdd_inv E t b p"
  shows "uint (coin_seconds_earned p) \<le> cdd_earned p t (amount b)"
    and "cdd_earned p t (amount b) \<le> amount b * int (cdd_factor p)"
  using assms by (auto simp: cdd_inv_def cdd_earned_def)

lemma cdd_allowed_exact:
  assumes "cdd_inv E t b p"
  shows "cdd_get_allowed_withdraw E p (mk_ctx b t a) =
    Inr (mk_asset (if t \<le> start_claim p then 0 else cdd_earned p t (amount b) div int (cdd_factor p)) (asset_id b))"
proof -
  let ?w = "compute_coin_seconds_earned p (mk_ctx b t a) div word_of_nat (cdd_factor p)"
  have i: "fc_contract E" "amount b \<le> GRAPHENE_MAX_SHARE_SUPPLY"
    using assms by (auto simp: cdd_inv_def)
  have w: "uint ?w = cdd_earned p t (amount b) div int (cdd_factor p)"
    by (simp add: uint_div_distrib cdd_earned_exact [OF assms] uint_factor [OF cdd_inv_factor [OF assms]])
  have "cdd_earned p t (amount b) div int (cdd_factor p) \<le> amount b * int (cdd_factor p) div int (cdd_factor p)"
    using cdd_earned_bounds(2) [OF assms] by (intro zdiv_mono1) auto
  then have "uint ?w < 2 ^ 63" unfolding w using i(2) by (simp add: GRAPHENE_MAX_SHARE_SUPPLY_def)
  then show ?thesis using w by (simp add: cdd_get_allowed_withdraw_def to_share_small [OF i(1)])
qed

lemma uint_minus_le:
  fixes x y :: u128
  assumes "uint y \<le> uint x"
  shows "uint (x - y) = uint x - uint y"
  using assms by (simp add: uint_sub_lem)

lemma cdd_on_withdraw_exact:
  assumes i: "cdd_inv E t b p" and a: "0 \<le> amount a" "amount a * int (cdd_factor p) \<le> cdd_earned p t (amount b)"
  shows "\<exists>q. cdd_on_withdraw (mk_ctx b t a) p = Inr q \<and> vesting_seconds q = vesting_seconds p \<and>
    start_claim q = start_claim p \<and> coin_seconds_earned_last_update q = t \<and> amount a \<le> amount b \<and>
    uint (coin_seconds_earned q) = cdd_earned p t (amount b) - amount a * int (cdd_factor p)"
proof -
  have "amount a * int (cdd_factor p) \<le> amount b * int (cdd_factor p)"
    by (rule order_trans [OF a(2) cdd_earned_bounds(2) [OF i]])
  then have le: "amount a \<le> amount b" by (simp only: mult_le_cancel_right_pos of_nat_0_less_iff cdd_factor_pos(1))
  then have m: "uint (word_of_int (amount a) * word_of_nat (cdd_factor p) :: u128) = amount a * int (cdd_factor p)"
    using a(1) i cdd_inv_factor [OF i] by (intro uint_share_times) (auto simp: cdd_inv_def)
  show ?thesis
    using a(2) le m cdd_earned_exact [OF i, of a]
    by (simp add: cdd_on_withdraw_def Let_def update_coin_seconds_earned_def cdd_factor_def uint_minus_le)
qed

interpretation cdd: vesting_rules "cdd_inv E" "cdd_get_allowed_withdraw E" cdd_on_withdraw for E
proof unfold_locales
  fix t b p a w t'
  assume i: "cdd_inv E t b p"
  have le: "cdd_earned p t (amount b) div int (cdd_factor p) \<le> amount b * int (cdd_factor p) div int (cdd_factor p)"
    using cdd_earned_bounds(2) [OF i] by (intro zdiv_mono1) auto
  have nn: "0 \<le> cdd_earned p t (amount b)" using cdd_earned_bounds(1) [OF i] uint_ge_0 order_trans by blast
  show "\<exists>w. cdd_get_allowed_withdraw E p (mk_ctx b t a) = Inr (mk_asset w (asset_id b)) \<and> 0 \<le> w \<and> w \<le> amount b"
    unfolding cdd_allowed_exact [OF i] using i le nn by (auto simp: cdd_inv_def pos_imp_zdiv_nonneg_iff)
  show "cdd_inv E t' b p" if "t \<le> t'" "t' < 2 ^ 32"
    using i that by (auto simp: cdd_inv_def)
  show "\<exists>q. cdd_on_withdraw (mk_ctx b t a) p = Inr q \<and> cdd_inv E t (mk_asset (amount b - amount a) (asset_id b)) q"
    if "cdd_get_allowed_withdraw E p (mk_ctx b t a) = Inr w" "0 \<le> amount a" "amount a \<le> amount w"
  proof -
    note nonneg = that(2)
    have "amount w \<le> cdd_earned p t (amount b) div int (cdd_factor p)"
      using that(1) nn unfolding cdd_allowed_exact [OF i] by (auto simp: pos_imp_zdiv_nonneg_iff split: if_splits)
    then have "amount a * int (cdd_factor p) \<le> cdd_earned p t (amount b) div int (cdd_factor p) * int (cdd_factor p)"
      using that(3) by (intro mult_right_mono) auto
    also have "\<dots> \<le> cdd_earned p t (amount b)"
      by (metis cdd_factor_pos(1) div_mult_mod_eq add.commute le_add_same_cancel2 of_nat_0_less_iff pos_mod_sign)
    finally have need: "amount a * int (cdd_factor p) \<le> cdd_earned p t (amount b)" .
    obtain q where q: "cdd_on_withdraw (mk_ctx b t a) p = Inr q" "vesting_seconds q = vesting_seconds p"
        "coin_seconds_earned_last_update q = t" "amount a \<le> amount b"
        "uint (coin_seconds_earned q) = cdd_earned p t (amount b) - amount a * int (cdd_factor p)"
      using cdd_on_withdraw_exact [OF i nonneg need] by blast
    have "cdd_factor q = cdd_factor p" by (simp add: cdd_factor_def q(2))
    then show ?thesis
      using q i that(2) cdd_earned_bounds(2) [OF i] by (auto simp: cdd_inv_def left_diff_distrib)
  qed
qed

lemma cdd_on_deposit_exact:
  assumes i: "cdd_inv E t b p" and a: "0 \<le> amount a" "amount b + amount a \<le> GRAPHENE_MAX_SHARE_SUPPLY"
  shows "\<exists>q. cdd_on_deposit (mk_ctx b t a) p = Inr q \<and> vesting_seconds q = vesting_seconds p \<and>
    start_claim q = start_claim p \<and> coin_seconds_earned_last_update q = t \<and>
    uint (coin_seconds_earned q) = cdd_earned p t (amount b) \<and>
    cdd_inv E t (mk_asset (amount b + amount a) (asset_id b)) q"
proof -
  have "amount b * int (cdd_factor p) \<le> (amount b + amount a) * int (cdd_factor p)"
    using a(1) by (intro mult_right_mono) auto
  then show ?thesis
    using i a cdd_earned_exact [OF i, of a] cdd_earned_bounds(2) [OF i]
    by (auto simp: cdd_on_deposit_def update_coin_seconds_earned_def cdd_inv_def cdd_factor_def)
qed

subsection \<open>The balance object\<close>

definition vb_inv :: "'z fc_env_scheme \<Rightarrow> nat \<Rightarrow> vesting_balance_object \<Rightarrow> bool" where
  "vb_inv E t v = (case vb_policy v of Linear p \<Rightarrow> linear_inv E t (vb_balance v) p
                                     | Cdd p \<Rightarrow> cdd_inv E t (vb_balance v) p)"

lemma vb_inv_contract: "vb_inv E t v \<Longrightarrow> fc_contract E \<and> 0 \<le> amount (vb_balance v) \<and>
    amount (vb_balance v) \<le> GRAPHENE_MAX_SHARE_SUPPLY"
  by (auto simp: vb_inv_def linear_inv_def cdd_inv_def split: vesting_policy.splits)

lemma vb_inv_later: "vb_inv E t v \<Longrightarrow> t \<le> t' \<Longrightarrow> t' < 2 ^ 32 \<Longrightarrow> vb_inv E t' v"
  using lin.later cdd.later by (auto simp: vb_inv_def split: vesting_policy.splits)

lemma asset_minus_exact:
  assumes "fc_contract E" "asset_id a = asset_id b" "0 \<le> amount b - amount a" "amount b - amount a < 2 ^ 63"
  shows "asset_minus E b a = Inr (mk_asset (amount b - amount a) (asset_id b))"
  using assms by (simp add: asset_minus_def safe_sub_def fc_contract_safe fc_int64_def)

lemma asset_plus_exact:
  assumes "fc_contract E" "asset_id a = asset_id b" "0 \<le> amount b + amount a" "amount b + amount a < 2 ^ 63"
  shows "asset_plus E b a = Inr (mk_asset (amount b + amount a) (asset_id b))"
  using assms by (simp add: asset_plus_def safe_add_def fc_contract_safe fc_int64_def)

lemma asset_le_True: "asset_le a b = Inr True \<Longrightarrow> asset_id a = asset_id b"
  by (auto simp: asset_le_def asset_less_def res_simps split: if_splits)

lemma vb_withdraw_allowed_id:
  assumes "vb_inv E t v" and "vb_is_withdraw_allowed E v t a = Inr True"
  shows "asset_id a = asset_id (vb_balance v)"
proof (cases "vb_policy v")
  case (Linear p)
  then show ?thesis using assms(2) by (simp add: vb_is_withdraw_allowed_def linear_is_withdraw_allowed_def split: if_splits)
next
  case (Cdd p)
  then obtain w where "cdd_get_allowed_withdraw E p (mk_ctx (vb_balance v) t a) = Inr (mk_asset w (asset_id (vb_balance v)))"
    using assms(1) cdd.allowed by (fastforce simp: vb_inv_def)
  then show ?thesis
    using assms(2) Cdd asset_le_True by (fastforce simp: vb_is_withdraw_allowed_def cdd_is_withdraw_allowed_def)
qed

lemma vb_withdraw_step:
  assumes i: "vb_inv E t v" and a: "0 \<le> amount a" "vb_is_withdraw_allowed E v t a = Inr True"
  shows "\<exists>v'. vb_withdraw E t a v = Inr v' \<and> vb_inv E t v' \<and> vb_owner v' = vb_owner v \<and>
    vb_balance v' = mk_asset (amount (vb_balance v) - amount a) (asset_id (vb_balance v)) \<and>
    amount a \<le> amount (vb_balance v) \<and> on_withdraw (mk_ctx (vb_balance v) t a) (vb_policy v) = Inr (vb_policy v')"
proof -
  note id = vb_withdraw_allowed_id [OF i a(2)]
  have "amount a \<le> amount (vb_balance v) \<and> (\<exists>q. on_withdraw (mk_ctx (vb_balance v) t a) (vb_policy v) = Inr q \<and>
      vb_inv E t (v\<lparr>vb_policy := q, vb_balance := mk_asset (amount (vb_balance v) - amount a) (asset_id (vb_balance v))\<rparr>))"
  proof (cases "vb_policy v")
    case (Linear p)
    then show ?thesis
      using lin.withdraw_checked [of E t "vb_balance v" p a] i a id
      by (fastforce simp: vb_inv_def vb_is_withdraw_allowed_def linear_is_withdraw_allowed_def)
  next
    case (Cdd p)
    then show ?thesis
      using cdd.withdraw_checked [of E t "vb_balance v" p a] i a id
      by (fastforce simp: vb_inv_def vb_is_withdraw_allowed_def cdd_is_withdraw_allowed_def)
  qed
  then obtain q where q: "amount a \<le> amount (vb_balance v)"
      "on_withdraw (mk_ctx (vb_balance v) t a) (vb_policy v) = Inr q"
      "vb_inv E t (v\<lparr>vb_policy := q, vb_balance := mk_asset (amount (vb_balance v) - amount a) (asset_id (vb_balance v))\<rparr>)"
    by blast
  have "asset_minus E (vb_balance v) a = Inr (mk_asset (amount (vb_balance v) - amount a) (asset_id (vb_balance v)))"
    using vb_inv_contract [OF i] id q(1) a(1) by (intro asset_minus_exact) (auto simp: GRAPHENE_MAX_SHARE_SUPPLY_def)
  then show ?thesis using q by (simp add: vb_withdraw_def)
qed

lemma sum_below_max_shares_True:
  "sum_below_max_shares E a b = Inr True \<Longrightarrow> amount a + amount b \<le> GRAPHENE_MAX_SHARE_SUPPLY"
  by (auto simp: sum_below_max_shares_def res_simps split: if_splits)

lemma vb_deposit_allowed_cdd:
  assumes "vb_policy v = Cdd p" "vb_is_deposit_allowed E v t a = Inr True"
  shows "asset_id a = asset_id (vb_balance v)" "amount (vb_balance v) + amount a \<le> GRAPHENE_MAX_SHARE_SUPPLY"
  using assms sum_below_max_shares_True [of E a "vb_balance v"]
  by (auto simp: vb_is_deposit_allowed_def cdd_is_deposit_allowed_def split: if_splits)

lemma vb_deposit_step:
  assumes i: "vb_inv E t v" "vb_policy v = Cdd p" and a: "0 \<le> amount a" "vb_is_deposit_allowed E v t a = Inr True"
  shows "\<exists>q v'. vb_deposit E t a v = Inr v' \<and> vb_inv E t v' \<and> vb_owner v' = vb_owner v \<and>
    cdd_on_deposit (mk_ctx (vb_balance v) t a) p = Inr q \<and> vb_policy v' = Cdd q \<and>
    vb_balance v' = mk_asset (amount (vb_balance v) + amount a) (asset_id (vb_balance v))"
proof -
  note al = vb_deposit_allowed_cdd [OF i(2) a(2)]
  have ci: "cdd_inv E t (vb_balance v) p" using i by (simp add: vb_inv_def)
  obtain q where q: "cdd_on_deposit (mk_ctx (vb_balance v) t a) p = Inr q"
      "cdd_inv E t (mk_asset (amount (vb_balance v) + amount a) (asset_id (vb_balance v))) q"
    using cdd_on_deposit_exact [OF ci a(1) al(2)] by blast
  moreover have "asset_plus E (vb_balance v) a = Inr (mk_asset (amount (vb_balance v) + amount a) (asset_id (vb_balance v)))"
    using vb_inv_contract [OF i(1)] al a(1) by (intro asset_plus_exact) (auto simp: GRAPHENE_MAX_SHARE_SUPPLY_def)
  ultimately show ?thesis using i(2) by (simp add: vb_deposit_def vb_inv_def)
qed

lemma cdd_allowed_need:
  assumes "cdd_inv E t b p" and "bindE (cdd_get_allowed_withdraw E p (mk_ctx b t a)) (asset_le a) = Inr True"
    and "asset_id a = asset_id b" and "0 \<le> amount a"
  shows "amount a * int (cdd_factor p) \<le> cdd_earned p t (amount b)"
proof -
  have nn: "0 \<le> cdd_earned p t (amount b)"
    using cdd_earned_bounds(1) [OF assms(1)] uint_ge_0 order_trans by blast
  have "amount a \<le> cdd_earned p t (amount b) div int (cdd_factor p)"
    using assms(2,3,4) nn unfolding cdd_allowed_exact [OF assms(1)]
    by (auto simp: asset_le_same pos_imp_zdiv_nonneg_iff split: if_splits)
  then have "amount a * int (cdd_factor p) \<le> cdd_earned p t (amount b) div int (cdd_factor p) * int (cdd_factor p)"
    by (intro mult_right_mono) auto
  also have "\<dots> \<le> cdd_earned p t (amount b)"
    by (metis cdd_factor_pos(1) div_mult_mod_eq add.commute le_add_same_cancel2 of_nat_0_less_iff pos_mod_sign)
  finally show ?thesis .
qed

lemma vb_allowed_uniform:
  assumes "vb_inv E t v"
  shows "\<exists>w. vb_get_allowed_withdraw E v t = Inr (mk_asset w (asset_id (vb_balance v))) \<and>
      0 \<le> w \<and> w \<le> amount (vb_balance v) \<and>
      (\<forall>a. asset_id a = asset_id (vb_balance v) \<longrightarrow> vb_is_withdraw_allowed E v t a = Inr (amount a \<le> w))"
proof (cases "vb_policy v")
  case (Linear p)
  then have i: "linear_inv E t (vb_balance v) p" using assms by (simp add: vb_inv_def)
  obtain w where w: "linear_vested p t - (begin_balance p - amount (vb_balance v)) = w"
      "0 \<le> w" "w \<le> amount (vb_balance v)"
    using lin.allowed [OF i] unfolding linear_allowed_exact [OF i] by (auto simp: mk_asset_def)
  then show ?thesis
    using Linear
    by (auto simp: vb_get_allowed_withdraw_def vb_is_withdraw_allowed_def linear_is_withdraw_allowed_def
        linear_allowed_exact [OF i] asset_le_same)
next
  case (Cdd p)
  then have i: "cdd_inv E t (vb_balance v) p" using assms by (simp add: vb_inv_def)
  obtain w where w: "(if t \<le> start_claim p then 0 else cdd_earned p t (amount (vb_balance v)) div int (cdd_factor p)) = w"
      "0 \<le> w" "w \<le> amount (vb_balance v)"
    using cdd.allowed [OF i] unfolding cdd_allowed_exact [OF i] by (auto simp: mk_asset_def)
  then show ?thesis
    using Cdd
    by (auto simp: vb_get_allowed_withdraw_def vb_is_withdraw_allowed_def cdd_is_withdraw_allowed_def
        cdd_allowed_exact [OF i] asset_le_same)
qed

lemma cdd_earned_plus:
  assumes "cdd_inv E t b p" and "uint w = cdd_earned p t (amount b)" and "0 < x" and "x * int (cdd_factor p) < 2 ^ 63"
  shows "uint (w + word_of_int (x * int (cdd_factor p)) :: u128) = cdd_earned p t (amount b) + x * int (cdd_factor p)"
proof -
  have "x * 1 \<le> x * int (cdd_factor p)"
    using assms(3) by (intro mult_left_mono) (auto simp: cdd_factor_def)
  then have "x < 2 ^ 63" using assms(4) by linarith
  then have s: "share_ok x" "share_ok (int (cdd_factor p))"
    using assms(3) cdd_inv_factor [OF assms(1)] by (auto simp: share_ok_def)
  have u: "uint (word_of_int (x * int (cdd_factor p)) :: u128) = x * int (cdd_factor p)"
    using uint_share_mult [OF s(1,2)] by simp
  have "cdd_earned p t (amount b) \<le> 2 ^ 72"
    using cdd_earned_bounds(2) [OF assms(1)] uint_share_times(2) [OF _ _ cdd_inv_factor [OF assms(1)], of "amount b"] assms(1)
    by (auto simp: cdd_inv_def)
  then show ?thesis using assms(2,4) u by (subst uint_plus_small) auto
qed

subsection \<open>Histories of a balance\<close>

datatype vest_op = Vest_deposit asset | Vest_withdraw asset

text \<open>One operation at a time, with the check its caller makes before it.\<close>

fun vest_exec :: "'z fc_env_scheme \<Rightarrow> nat \<Rightarrow> vest_op \<Rightarrow> vesting_balance_object \<Rightarrow> vesting_balance_object res" where
  "vest_exec E t (Vest_deposit a) v =
     bindE (vb_is_deposit_allowed E v t a) (\<lambda>ok. bindE (assertE ok ''is_deposit_allowed'') (\<lambda>_. vb_deposit E t a v))"
| "vest_exec E t (Vest_withdraw a) v =
     bindE (vb_is_withdraw_allowed E v t a) (\<lambda>ok. bindE (assertE ok ''is_withdraw_allowed'') (\<lambda>_. vb_withdraw E t a v))"

fun op_amount :: "vest_op \<Rightarrow> int" where
  "op_amount (Vest_deposit a) = amount a"
| "op_amount (Vest_withdraw a) = amount a"

fun vest_run :: "'z fc_env_scheme \<Rightarrow> (nat \<times> vest_op) list \<Rightarrow> vesting_balance_object \<Rightarrow> vesting_balance_object res" where
  "vest_run E [] v = Inr v"
| "vest_run E ((t, oper) # ops) v = bindE (vest_exec E t oper v) (vest_run E ops)"

text \<open>Times do not decrease and amounts are positive.\<close>

fun vest_history :: "nat \<Rightarrow> (nat \<times> vest_op) list \<Rightarrow> bool" where
  "vest_history t [] \<longleftrightarrow> True"
| "vest_history t ((t', oper) # ops) \<longleftrightarrow> t \<le> t' \<and> t' < 2 ^ 32 \<and> 0 < op_amount oper \<and> vest_history t' ops"

fun end_time :: "nat \<Rightarrow> (nat \<times> vest_op) list \<Rightarrow> nat" where
  "end_time t [] = t"
| "end_time t ((t', oper) # ops) = end_time t' ops"

fun withdrawn :: "(nat \<times> vest_op) list \<Rightarrow> int" where
  "withdrawn [] = 0"
| "withdrawn ((t, Vest_withdraw a) # ops) = amount a + withdrawn ops"
| "withdrawn ((t, Vest_deposit a) # ops) = withdrawn ops"

fun deposited :: "(nat \<times> vest_op) list \<Rightarrow> int" where
  "deposited [] = 0"
| "deposited ((t, Vest_withdraw a) # ops) = deposited ops"
| "deposited ((t, Vest_deposit a) # ops) = amount a + deposited ops"

text \<open>The balance times the seconds it was held, summed over a history.\<close>

fun coin_seconds :: "'z fc_env_scheme \<Rightarrow> nat \<Rightarrow> (nat \<times> vest_op) list \<Rightarrow> vesting_balance_object \<Rightarrow> int" where
  "coin_seconds E t [] v = 0"
| "coin_seconds E t ((t', oper) # ops) v =
     amount (vb_balance v) * int (t' - t) +
     (case vest_exec E t' oper v of Inl e \<Rightarrow> 0 | Inr w \<Rightarrow> coin_seconds E t' ops w)"

lemma vest_run_linear:
  assumes "vest_run E ops v = Inr v'" and "vest_history t ops" and "vb_inv E t v"
    and "vb_policy v = Linear p" and "deposited ops = 0"
  shows "vb_policy v' = Linear p \<and> vb_inv E (end_time t ops) v' \<and>
    amount (vb_balance v') = amount (vb_balance v) - withdrawn ops"
  using assms
proof (induction ops arbitrary: t v)
  case (Cons x ops)
  obtain t' oper where x: "x = (t', oper)" by (cases x)
  have nonneg: "0 \<le> deposited ops" if "vest_history t ops" for t ops
    using that by (induction ops arbitrary: t rule: deposited.induct) fastforce+
  from Cons.prems x obtain a where oper: "oper = Vest_withdraw a"
    using nonneg by (cases oper) fastforce+
  obtain v1 where v1: "vb_is_withdraw_allowed E v t' a = Inr True" "vb_withdraw E t' a v = Inr v1"
      "vest_run E ops v1 = Inr v'"
    using Cons.prems(1) by (auto simp: x oper res_simps)
  have i: "vb_inv E t' v" using Cons.prems(2,3) vb_inv_later by (auto simp: x)
  have "0 \<le> amount a" using Cons.prems(2) by (simp add: x oper)
  from vb_withdraw_step [OF i this v1(1)] v1(2)
  have "vb_inv E t' v1" "vb_policy v1 = Linear p" "amount (vb_balance v1) = amount (vb_balance v) - amount a"
    using Cons.prems(4) by (auto simp: linear_on_withdraw_def)
  from Cons.IH [OF v1(3) _ this(1,2)] this Cons.prems(2,5) show ?case by (simp add: x oper)
qed simp

lemma vest_run_cdd:
  assumes "vest_run E ops v = Inr v'" and "vest_history t ops" and "vb_inv E t v"
    and "vb_policy v = Cdd p" and "coin_seconds_earned_last_update p = t"
  shows "\<exists>q. vb_policy v' = Cdd q \<and> vb_inv E (end_time t ops) v' \<and> vesting_seconds q = vesting_seconds p \<and>
    amount (vb_balance v') = amount (vb_balance v) + deposited ops - withdrawn ops \<and>
    uint (coin_seconds_earned q) + withdrawn ops * int (cdd_factor p)
      \<le> uint (coin_seconds_earned p) + coin_seconds E t ops v"
  using assms
proof (induction ops arbitrary: t v p)
  case (Cons x ops)
  obtain t' oper where x: "x = (t', oper)" by (cases x)
  obtain v1 where v1: "vest_exec E t' oper v = Inr v1" "vest_run E ops v1 = Inr v'"
    using Cons.prems(1) by (auto simp: x res_simps)
  have i: "vb_inv E t' v" using Cons.prems(2,3) vb_inv_later by (auto simp: x)
  then have ci: "cdd_inv E t' (vb_balance v) p" using Cons.prems(4) by (simp add: vb_inv_def)
  have pos: "0 \<le> op_amount oper" using Cons.prems(2) by (simp add: x)
  have earned: "cdd_earned p t' (amount (vb_balance v))
      \<le> uint (coin_seconds_earned p) + amount (vb_balance v) * int (t' - t)"
    using Cons.prems(5) by (simp add: cdd_earned_def)
  obtain q1 where q1: "vb_inv E t' v1" "vb_policy v1 = Cdd q1" "coin_seconds_earned_last_update q1 = t'"
      "vesting_seconds q1 = vesting_seconds p"
      "amount (vb_balance v1) = amount (vb_balance v) + deposited [(t', oper)] - withdrawn [(t', oper)]"
      "uint (coin_seconds_earned q1) = cdd_earned p t' (amount (vb_balance v)) - withdrawn [(t', oper)] * int (cdd_factor p)"
  proof (cases oper)
    case (Vest_deposit a)
    then have a: "0 \<le> amount a" "vb_is_deposit_allowed E v t' a = Inr True" "vb_deposit E t' a v = Inr v1"
      using pos v1(1) by (auto simp: res_simps)
    obtain q where q: "cdd_on_deposit (mk_ctx (vb_balance v) t' a) p = Inr q" "vb_policy v1 = Cdd q" "vb_inv E t' v1"
        "vb_balance v1 = mk_asset (amount (vb_balance v) + amount a) (asset_id (vb_balance v))"
      using vb_deposit_step [OF i Cons.prems(4) a(1,2)] a(3) by auto
    show ?thesis
      using q cdd_on_deposit_exact [OF ci a(1) vb_deposit_allowed_cdd(2) [OF Cons.prems(4) a(2)]]
      by (intro that [OF q(3,2)]) (auto simp: Vest_deposit)
  next
    case (Vest_withdraw a)
    then have a: "0 \<le> amount a" "vb_is_withdraw_allowed E v t' a = Inr True" "vb_withdraw E t' a v = Inr v1"
      using pos v1(1) by (auto simp: res_simps)
    note step = vb_withdraw_step [OF i a(1,2)]
    from step obtain q where q: "cdd_on_withdraw (mk_ctx (vb_balance v) t' a) p = Inr q" "vb_policy v1 = Cdd q"
      using Cons.prems(4) a(3) by (auto simp: res_simps)
    have need: "amount a * int (cdd_factor p) \<le> cdd_earned p t' (amount (vb_balance v))"
      using cdd_allowed_need [OF ci] a(2) vb_withdraw_allowed_id [OF i a(2)] Cons.prems(4)
      by (simp add: vb_is_withdraw_allowed_def cdd_is_withdraw_allowed_def a(1))
    show ?thesis
      using step a(3) q(1) cdd_on_withdraw_exact [OF ci a(1) need]
      by (intro that [OF _ q(2)]) (auto simp: Vest_withdraw)
  qed
  have f: "cdd_factor q1 = cdd_factor p" by (simp add: cdd_factor_def q1(4))
  obtain q where q: "vb_policy v' = Cdd q" "vb_inv E (end_time t' ops) v'" "vesting_seconds q = vesting_seconds q1"
      "amount (vb_balance v') = amount (vb_balance v1) + deposited ops - withdrawn ops"
      "uint (coin_seconds_earned q) + withdrawn ops * int (cdd_factor p)
        \<le> uint (coin_seconds_earned q1) + coin_seconds E t' ops v1"
    using Cons.IH [OF v1(2) _ q1(1,2,3)] Cons.prems(2) f by (auto simp: x)
  show ?case
    using q q1 earned v1(1) by (cases oper) (auto simp: x algebra_simps)
qed simp

subsection \<open>Properties\<close>

text \<open>
  C16: A withdrawal that passes the check never fails and never takes more than the balance, on
  either policy, and keeps the invariant, so the debug assertions of the withdrawal code hold;
  the amount reported as withdrawable lies between zero and the balance, and a withdrawal of
  that asset passes the check exactly when it does not exceed that amount.
\<close>

theorem vesting_withdraw_safe:
  assumes "vb_inv E t v"
  shows "(\<exists>w. vb_get_allowed_withdraw E v t = Inr (mk_asset w (asset_id (vb_balance v))) \<and>
      0 \<le> w \<and> w \<le> amount (vb_balance v) \<and>
      (\<forall>a. asset_id a = asset_id (vb_balance v) \<longrightarrow> vb_is_withdraw_allowed E v t a = Inr (amount a \<le> w))) \<and>
    (\<forall>a. 0 \<le> amount a \<and> vb_is_withdraw_allowed E v t a = Inr True \<longrightarrow>
      (\<exists>v'. vb_withdraw E t a v = Inr v' \<and> vb_inv E t v' \<and> vb_owner v' = vb_owner v \<and>
        vb_balance v' = mk_asset (amount (vb_balance v) - amount a) (asset_id (vb_balance v)) \<and>
        0 \<le> amount (vb_balance v')))"
proof (intro conjI allI impI)
  show "\<exists>w. vb_get_allowed_withdraw E v t = Inr (mk_asset w (asset_id (vb_balance v))) \<and>
      0 \<le> w \<and> w \<le> amount (vb_balance v) \<and>
      (\<forall>a. asset_id a = asset_id (vb_balance v) \<longrightarrow> vb_is_withdraw_allowed E v t a = Inr (amount a \<le> w))"
    using vb_allowed_uniform [OF assms] by blast
next
  fix a
  assume "0 \<le> amount a \<and> vb_is_withdraw_allowed E v t a = Inr True"
  then show "\<exists>v'. vb_withdraw E t a v = Inr v' \<and> vb_inv E t v' \<and> vb_owner v' = vb_owner v \<and>
        vb_balance v' = mk_asset (amount (vb_balance v) - amount a) (asset_id (vb_balance v)) \<and>
        0 \<le> amount (vb_balance v')"
    using vb_withdraw_step [OF assms] by fastforce
qed

text \<open>A position of 1000 shares vesting over 100 seconds, and a coin-days position.\<close>

definition linear_example :: vesting_balance_object where
  "linear_example = \<lparr>vb_owner = 7, vb_balance = mk_asset 1000 0, vb_policy = Linear
     \<lparr>begin_timestamp = 50, vesting_cliff_seconds = 10, vesting_duration_seconds = 100, begin_balance = 1000\<rparr>\<rparr>"

definition cdd_example :: vesting_balance_object where
  "cdd_example = \<lparr>vb_owner = 7, vb_balance = mk_asset 1000 0, vb_policy = Cdd
     \<lparr>vesting_seconds = 10, coin_seconds_earned = 0, start_claim = 0, coin_seconds_earned_last_update = 50\<rparr>\<rparr>"

lemma example_inv: "vb_inv fc_std 50 linear_example" "vb_inv fc_std 50 cdd_example"
  by (simp_all add: vb_inv_def linear_example_def cdd_example_def linear_inv_def cdd_inv_def fc_std_contract
      GRAPHENE_MAX_SHARE_SUPPLY_def linear_vested_def)

theorem vesting_withdraw_safe_witness:
  "\<exists>w. vb_get_allowed_withdraw fc_std linear_example 60 = Inr (mk_asset w 0) \<and> 0 \<le> w \<and> w \<le> 1000"
proof -
  have "vb_inv fc_std 60 linear_example" using vb_inv_later [OF example_inv(1)] by simp
  from vesting_withdraw_safe [OF this] show ?thesis by (auto simp: linear_example_def)
qed

text \<open>
  C17: A linear vesting balance pays out no faster than its schedule: over any history of
  withdrawals that the checks let through, the total withdrawn is the difference of the
  balances and is at most the amount vested at the time of the last one, which is nothing
  before the cliff and grows linearly afterwards.
\<close>

theorem linear_vesting_schedule:
  assumes "vest_run E ops v = Inr v'" and "vest_history t ops" and "vb_inv E t v"
    and "vb_policy v = Linear p" and "amount (vb_balance v) = begin_balance p" and "deposited ops = 0"
  shows "withdrawn ops = begin_balance p - amount (vb_balance v') \<and>
    withdrawn ops \<le> linear_vested p (end_time t ops)"
  using vest_run_linear [OF assms(1-4,6)] assms(5) by (auto simp: vb_inv_def linear_inv_def)

theorem linear_vesting_schedule_witness:
  "\<exists>v'. vest_run fc_std [(60, Vest_withdraw (mk_asset 100 0)), (90, Vest_withdraw (mk_asset 250 0))] linear_example = Inr v' \<and>
    350 = 1000 - amount (vb_balance v') \<and> (350::int) \<le> 400"
proof -
  let ?ops = "[(60, Vest_withdraw (mk_asset 100 0)), (90, Vest_withdraw (mk_asset 250 0))]"
  let ?v = "linear_example\<lparr>vb_balance := mk_asset 650 0\<rparr>"
  have r: "vest_run fc_std ?ops linear_example = Inr ?v" by code_simp
  show ?thesis
    using linear_vesting_schedule [OF r _ example_inv(1), of "\<lparr>begin_timestamp = 50, vesting_cliff_seconds = 10,
        vesting_duration_seconds = 100, begin_balance = 1000\<rparr>"] r
    by (simp add: linear_example_def linear_vested_def)
qed

text \<open>
  C18: A coin-days balance pays out only what has matured: over any history of deposits and
  checked withdrawals on a fresh balance, the total withdrawn times the vesting period is at
  most the balance integrated over time, and the balance is what was deposited less what was
  withdrawn.
\<close>

theorem cdd_vesting_matures:
  assumes "vest_run E ops v = Inr v'" and "vest_history t ops" and "vb_inv E t v"
    and "vb_policy v = Cdd p" and "coin_seconds_earned_last_update p = t" and "coin_seconds_earned p = 0"
  shows "withdrawn ops * int (max (vesting_seconds p) 1) \<le> coin_seconds E t ops v \<and>
    amount (vb_balance v') = amount (vb_balance v) + deposited ops - withdrawn ops \<and>
    0 \<le> amount (vb_balance v') \<and> amount (vb_balance v') \<le> GRAPHENE_MAX_SHARE_SUPPLY"
proof -
  obtain q :: cdd_vesting_policy where q: "vb_inv E (end_time t ops) v'"
      "amount (vb_balance v') = amount (vb_balance v) + deposited ops - withdrawn ops"
      "uint (coin_seconds_earned q) + withdrawn ops * int (cdd_factor p)
        \<le> uint (coin_seconds_earned p) + coin_seconds E t ops v"
    using vest_run_cdd [OF assms(1-5)] by blast
  have "withdrawn ops * int (cdd_factor p) \<le> coin_seconds E t ops v"
    using q(3) uint_ge_0 [of "coin_seconds_earned q"] by (simp only: assms(6) uint_0_eq)
  then show ?thesis using q(2) vb_inv_contract [OF q(1)] by (simp add: cdd_factor_def)
qed

theorem cdd_vesting_matures_witness:
  "\<exists>v'. vest_run fc_std [(53, Vest_deposit (mk_asset 500 0)), (55, Vest_withdraw (mk_asset 600 0))] cdd_example = Inr v' \<and>
    (600::int) * 10 \<le> coin_seconds fc_std 50 [(53, Vest_deposit (mk_asset 500 0)), (55, Vest_withdraw (mk_asset 600 0))] cdd_example \<and>
    amount (vb_balance v') = 900"
proof -
  let ?ops = "[(53, Vest_deposit (mk_asset 500 0)), (55, Vest_withdraw (mk_asset 600 0))]"
  have "isl (vest_run fc_std ?ops cdd_example) = False" by code_simp
  then obtain v' where r: "vest_run fc_std ?ops cdd_example = Inr v'" by (cases "vest_run fc_std ?ops cdd_example") auto
  show ?thesis
    using cdd_vesting_matures [OF r _ example_inv(2), of "\<lparr>vesting_seconds = 10, coin_seconds_earned = 0,
        start_claim = 0, coin_seconds_earned_last_update = 50\<rparr>"] r
    by (simp add: cdd_example_def)
qed

text \<open>
  Funds deposited as already vested are withdrawable at once: on a coin-days balance the
  withdrawable amount grows by exactly the deposit, at the same instant, when the product of
  the deposit and the vesting period fits a signed 64-bit integer; when it does not, which the
  checks before the deposit do not exclude, the behaviour of the code is undefined.
\<close>

theorem deposit_vested_withdrawable:
  assumes i: "vb_inv E t v" and p: "vb_policy v = Cdd p" and st: "start_claim p < t"
    and a: "0 < amount a" "vb_is_deposit_vested_allowed E v t a = Inr True"
  shows "if amount a * int (max (vesting_seconds p) 1) < 2 ^ 63
    then \<exists>v' w. vb_deposit_vested E t a v = Inr v' \<and> vb_inv E t v' \<and>
      vb_get_allowed_withdraw E v t = Inr (mk_asset w (asset_id (vb_balance v))) \<and>
      vb_get_allowed_withdraw E v' t = Inr (mk_asset (w + amount a) (asset_id (vb_balance v)))
    else vb_deposit_vested E t a v = Inl Undefined_behaviour"
proof -
  let ?b = "vb_balance v" let ?f = "int (cdd_factor p)"
  have al: "asset_id a = asset_id ?b" "amount ?b + amount a \<le> GRAPHENE_MAX_SHARE_SUPPLY"
    using vb_deposit_allowed_cdd [OF p] a(2) p
    by (simp_all add: vb_is_deposit_vested_allowed_def vb_is_deposit_allowed_def cdd_is_deposit_vested_allowed_def)
  have ci: "cdd_inv E t ?b p" using i p by (simp add: vb_inv_def)
  have "0 \<le> amount a" using a(1) by simp
  from cdd_on_deposit_exact [OF ci this al(2)] obtain q where
    q: "cdd_on_deposit (mk_ctx ?b t a) p = Inr q" "vesting_seconds q = vesting_seconds p" "start_claim q = start_claim p"
      "coin_seconds_earned_last_update q = t" "uint (coin_seconds_earned q) = cdd_earned p t (amount ?b)"
    by blast
  have f: "cdd_factor q = cdd_factor p" by (simp add: cdd_factor_def q(2))
  have fits: "fc_int64 (amount a * ?f) \<longleftrightarrow> amount a * ?f < 2 ^ 63"
    using mult_nonneg_nonneg [of "amount a" ?f] a(1) unfolding fc_int64_def by linarith
  let ?q = "q\<lparr>coin_seconds_earned := coin_seconds_earned q + word_of_int (amount a * ?f)\<rparr>"
  show ?thesis
  proof (cases "amount a * ?f < 2 ^ 63")
    case True
    have sum: "uint (coin_seconds_earned ?q) = cdd_earned p t (amount ?b) + amount a * ?f"
      using cdd_earned_plus [OF ci q(5) a(1) True] by simp
    have le: "cdd_earned p t (amount ?b) + amount a * ?f \<le> (amount ?b + amount a) * ?f"
      using cdd_earned_bounds(2) [OF ci] by (simp add: distrib_right)
    define v' where "v' = v\<lparr>vb_policy := Cdd ?q, vb_balance := mk_asset (amount ?b + amount a) (asset_id ?b)\<rparr>"
    have "asset_plus E ?b a = Inr (mk_asset (amount ?b + amount a) (asset_id ?b))"
      using vb_inv_contract [OF i] al a(1) by (intro asset_plus_exact) (auto simp: GRAPHENE_MAX_SHARE_SUPPLY_def)
    then have dep: "vb_deposit_vested E t a v = Inr v'"
      using True by (simp add: vb_deposit_vested_def p cdd_on_deposit_vested_def q(1) f fits Let_def v'_def)
    have ci': "cdd_inv E t (mk_asset (amount ?b + amount a) (asset_id ?b)) ?q"
      using ci al(2) a(1) q(2,4) f sum le by (auto simp: cdd_inv_def cdd_factor_def)
    have "cdd_earned ?q t (amount ?b + amount a) = cdd_earned p t (amount ?b) + amount a * ?f"
      using le f q(4) sum by (simp add: cdd_earned_def cdd_factor_def)
    then show ?thesis
      using True dep ci' st p q(3) cdd_allowed_exact [OF ci] cdd_allowed_exact [OF ci'] f
      by (auto simp: vb_inv_def v'_def vb_get_allowed_withdraw_def cdd_factor_def)
  next
    case False
    then have "vb_deposit_vested E t a v = Inl Undefined_behaviour"
      by (simp add: vb_deposit_vested_def p cdd_on_deposit_vested_def q(1) f fits Let_def throwE_def)
    then show ?thesis using False by (simp add: cdd_factor_def)
  qed
qed

theorem deposit_vested_withdrawable_witness:
  "(\<exists>v' w. vb_deposit_vested fc_std 60 (mk_asset 500 0) cdd_example = Inr v' \<and>
    vb_get_allowed_withdraw fc_std cdd_example 60 = Inr (mk_asset w 0) \<and>
    vb_get_allowed_withdraw fc_std v' 60 = Inr (mk_asset (w + 500) 0))"
proof -
  have i: "vb_inv fc_std 60 cdd_example" using vb_inv_later [OF example_inv(2)] by simp
  have al: "vb_is_deposit_vested_allowed fc_std cdd_example 60 (mk_asset 500 0) = Inr True" by code_simp
  show ?thesis
    using deposit_vested_withdrawable [OF i _ _ _ al] by (simp add: cdd_example_def) blast
qed

end
