(* ===== verification/Authority.thy ===== *)
theory Authority
  imports Asset_Price
begin

text \<open>
  Authorities and signatures of transactions (\<open>libraries/chain/protocol/transaction.cpp\<close>,
  \<open>authority.cpp\<close>, \<open>authority.hpp\<close>).

  The recovery of a public key from a signature and the addresses of a key are cryptography of
  the \<open>fc\<close> library and are parameters, as are the accounts' authorities, which the source
  passes as functions too. The operations a transaction contains are a type parameter with the
  visitor that collects their required authorities.

  \<open>check_authority\<close> counts its depth up to \<open>max_recursion\<close>; here the argument is the number
  of levels that are left, \<open>max_recursion - depth\<close>, so that the recursion is structural. The
  weights are summed in 32 bits, which wraps.
\<close>

type_synonym public_key_type = nat
type_synonym address_type = nat

record authority =
  weight_threshold :: nat
  account_auths :: "(account_id_type \<times> nat) list"
  key_auths :: "(public_key_type \<times> nat) list"
  address_auths :: "(address_type \<times> nat) list"

record sign_env =
  get_active :: "account_id_type \<Rightarrow> authority option"
  addresses_of :: "public_key_type \<Rightarrow> address_type list"

record sign_state =
  available_keys :: "public_key_type list"
  provided_signatures :: "(public_key_type \<times> bool) list"
  approved_by :: "account_id_type list"
  available_address_sigs :: "(address_type \<times> public_key_type) list option"
  provided_address_sigs :: "(address_type \<times> public_key_type) list option"

definition GRAPHENE_COMMITTEE_ACCOUNT :: account_id_type where "GRAPHENE_COMMITTEE_ACCOUNT = 0"
definition GRAPHENE_WITNESS_ACCOUNT :: account_id_type where "GRAPHENE_WITNESS_ACCOUNT = 1"
definition GRAPHENE_RELAXED_COMMITTEE_ACCOUNT :: account_id_type where "GRAPHENE_RELAXED_COMMITTEE_ACCOUNT = 2"
definition GRAPHENE_NULL_ACCOUNT :: account_id_type where "GRAPHENE_NULL_ACCOUNT = 3"
definition GRAPHENE_TEMP_ACCOUNT :: account_id_type where "GRAPHENE_TEMP_ACCOUNT = 4"

subsection \<open>Authorities\<close>

definition is_impossible :: "authority \<Rightarrow> bool" where
  "is_impossible a \<longleftrightarrow>
     (sum_list (map snd (account_auths a)) + sum_list (map snd (key_auths a))
      + sum_list (map snd (address_auths a))) mod 2 ^ 64 < weight_threshold a"

definition num_auths :: "authority \<Rightarrow> nat" where
  "num_auths a =
     (length (account_auths a) + length (key_auths a) + length (address_auths a)) mod 2 ^ 32"

definition add_authority_key :: "public_key_type \<Rightarrow> nat \<Rightarrow> authority \<Rightarrow> authority" where
  "add_authority_key k w a = a\<lparr>key_auths := fm_insert k w (key_auths a)\<rparr>"

definition add_authority_address :: "address_type \<Rightarrow> nat \<Rightarrow> authority \<Rightarrow> authority" where
  "add_authority_address k w a = a\<lparr>address_auths := fm_insert k w (address_auths a)\<rparr>"

definition add_authority_account :: "account_id_type \<Rightarrow> nat \<Rightarrow> authority \<Rightarrow> authority" where
  "add_authority_account k w a = a\<lparr>account_auths := fm_insert k w (account_auths a)\<rparr>"

definition authority_clear :: "authority \<Rightarrow> authority" where
  "authority_clear a = a\<lparr>account_auths := [], key_auths := []\<rparr>"

definition authority_get_keys :: "authority \<Rightarrow> public_key_type list" where
  "authority_get_keys a = map fst (key_auths a)"

definition authority_get_addresses :: "authority \<Rightarrow> address_type list" where
  "authority_get_addresses a = map fst (address_auths a)"

definition authority_empty :: authority where
  "authority_empty = \<lparr>weight_threshold = 0, account_auths = [], key_auths = [], address_auths = []\<rparr>"

definition null_authority :: authority where
  "null_authority = add_authority_account GRAPHENE_NULL_ACCOUNT 1 (authority_empty\<lparr>weight_threshold := 1\<rparr>)"

definition add_authority_accounts :: "account_id_type list \<Rightarrow> authority \<Rightarrow> account_id_type list" where
  "add_authority_accounts result a = fold (\<lambda>item r. fs_insert (fst item) r) (account_auths a) result"

subsection \<open>The signature state\<close>

definition make_sign_state :: "public_key_type list \<Rightarrow> public_key_type list \<Rightarrow> sign_state" where
  "make_sign_state sigs keys =
     \<lparr>available_keys = keys,
      provided_signatures = fold (\<lambda>key m. fm_insert key False m) sigs [],
      approved_by = [GRAPHENE_TEMP_ACCOUNT],
      available_address_sigs = None, provided_address_sigs = None\<rparr>"

definition mark_used :: "public_key_type \<Rightarrow> sign_state \<Rightarrow> sign_state" where
  "mark_used k s = s\<lparr>provided_signatures := fm_insert k True (provided_signatures s)\<rparr>"

definition signed_by_key :: "public_key_type \<Rightarrow> sign_state \<Rightarrow> bool \<times> sign_state" where
  "signed_by_key k s =
     (case map_of (provided_signatures s) k of
        None \<Rightarrow> if k \<in> set (available_keys s) then (True, mark_used k s) else (False, s)
      | Some _ \<Rightarrow> (True, mark_used k s))"

definition index_addresses :: "sign_env \<Rightarrow> public_key_type list \<Rightarrow> (address_type \<times> public_key_type) list" where
  "index_addresses A keys = fold (\<lambda>item. fold (\<lambda>a m. fm_insert a item m) (addresses_of A item)) keys []"

definition load_address_sigs :: "sign_env \<Rightarrow> sign_state \<Rightarrow> sign_state" where
  "load_address_sigs A s =
     (case available_address_sigs s of
        None \<Rightarrow> s\<lparr>available_address_sigs := Some (index_addresses A (available_keys s)),
                  provided_address_sigs := Some (index_addresses A (map fst (provided_signatures s)))\<rparr>
      | Some _ \<Rightarrow> s)"

text \<open>
  When the address belongs to no known key, the source dereferences the past-the-end iterator
  of \<open>provided_address_sigs\<close>.
\<close>

definition signed_by_address :: "sign_env \<Rightarrow> address_type \<Rightarrow> sign_state \<Rightarrow> (bool \<times> sign_state) res" where
  "signed_by_address A a s0 =
     (let s = load_address_sigs A s0 in
      case map_of (the (provided_address_sigs s)) a of
        None \<Rightarrow>
          (case map_of (the (available_address_sigs s)) a of
             Some k \<Rightarrow> Inr (if k \<in> set (available_keys s) then (True, mark_used k s) else (False, s))
           | None \<Rightarrow> throwE Undefined_behaviour)
      | Some k \<Rightarrow> Inr (True, mark_used k s))"

text \<open>
  The three loops of \<open>check_authority\<close> over the members of an authority differ in the test
  only: they add the weight of each member that passes and stop as soon as the threshold is
  reached. The result says whether the loop stopped that way.
\<close>

fun weigh :: "('x \<Rightarrow> 's \<Rightarrow> (bool \<times> 's) res) \<Rightarrow> nat \<Rightarrow> ('x \<times> nat) list \<Rightarrow> nat \<Rightarrow> 's \<Rightarrow> (bool \<times> nat \<times> 's) res" where
  "weigh test th [] total_weight s = Inr (False, total_weight, s)"
| "weigh test th ((x, w) # xs) total_weight s =
     bindE (test x s) (\<lambda>(b, s').
       if b then
         let total_weight' = (total_weight + w) mod 2 ^ 32 in
         if th \<le> total_weight' then Inr (True, total_weight', s') else weigh test th xs total_weight' s'
       else weigh test th xs total_weight s')"

definition account_approves ::
    "sign_env \<Rightarrow> (authority option \<Rightarrow> sign_state \<Rightarrow> (bool \<times> sign_state) res) option \<Rightarrow>
     account_id_type \<Rightarrow> sign_state \<Rightarrow> (bool \<times> sign_state) res" where
  "account_approves A descend a s =
     (if a \<in> set (approved_by s) then Inr (True, s)
      else case descend of
        None \<Rightarrow> Inr (False, s)
      | Some check \<Rightarrow> bindE (check (get_active A a) s) (\<lambda>(b, s').
          Inr (if b then (True, s'\<lparr>approved_by := fs_insert a (approved_by s')\<rparr>) else (False, s'))))"

definition check_authority_body ::
    "sign_env \<Rightarrow> (authority option \<Rightarrow> sign_state \<Rightarrow> (bool \<times> sign_state) res) option \<Rightarrow>
     authority option \<Rightarrow> sign_state \<Rightarrow> (bool \<times> sign_state) res" where
  "check_authority_body A descend au s =
     (case au of None \<Rightarrow> Inr (False, s)
      | Some auth \<Rightarrow>
          bindE (weigh (\<lambda>k s. Inr (signed_by_key k s)) (weight_threshold auth) (key_auths auth) 0 s) (\<lambda>(stop, total_weight, s).
          if stop then Inr (True, s) else
          bindE (weigh (signed_by_address A) (weight_threshold auth) (address_auths auth) total_weight s) (\<lambda>(stop, total_weight, s).
          if stop then Inr (True, s) else
          bindE (weigh (account_approves A descend) (weight_threshold auth) (account_auths auth) total_weight s) (\<lambda>(stop, total_weight, s).
          Inr (stop \<or> weight_threshold auth \<le> total_weight, s)))))"

primrec check_authority :: "sign_env \<Rightarrow> nat \<Rightarrow> authority option \<Rightarrow> sign_state \<Rightarrow> (bool \<times> sign_state) res" where
  "check_authority A 0 = check_authority_body A None"
| "check_authority A (Suc levels) = check_authority_body A (Some (check_authority A levels))"

definition check_account :: "sign_env \<Rightarrow> nat \<Rightarrow> account_id_type \<Rightarrow> sign_state \<Rightarrow> (bool \<times> sign_state) res" where
  "check_account A n i s =
     (if i \<in> set (approved_by s) then Inr (True, s) else check_authority A n (get_active A i) s)"

definition remove_unused_signatures :: "sign_state \<Rightarrow> bool \<times> sign_state" where
  "remove_unused_signatures s =
     (let remove_sigs = map fst (filter (\<lambda>sig. \<not> snd sig) (provided_signatures s))
      in (remove_sigs \<noteq> [], s\<lparr>provided_signatures := fold fm_erase remove_sigs (provided_signatures s)\<rparr>))"

subsection \<open>Verification of a transaction\<close>

type_synonym required_auths = "account_id_type list \<times> account_id_type list \<times> authority list"

definition get_required_authorities ::
    "('op \<Rightarrow> required_auths \<Rightarrow> required_auths) \<Rightarrow> 'op list \<Rightarrow> required_auths \<Rightarrow> required_auths" where
  "get_required_authorities required ops = fold required ops"

definition check_other :: "sign_env \<Rightarrow> nat \<Rightarrow> authority \<Rightarrow> sign_state \<Rightarrow> sign_state res" where
  "check_other A n auth s =
     bindE (check_authority A n (Some auth) s) (\<lambda>(b, s').
     if b then Inr s' else throwE Tx_missing_other_auth)"

text \<open>
  The message of a failed assertion dereferences the account's authorities, which are null for
  an unknown account.
\<close>

definition check_active ::
    "sign_env \<Rightarrow> (account_id_type \<Rightarrow> authority option) \<Rightarrow> nat \<Rightarrow> account_id_type \<Rightarrow> sign_state \<Rightarrow> sign_state res" where
  "check_active A get_owner n i s =
     bindE (check_account A n i s) (\<lambda>(b, s').
     if b then Inr s' else
     bindE (check_authority A n (get_owner i) s') (\<lambda>(b, s').
     if b then Inr s'
     else if get_active A i = None \<or> get_owner i = None then throwE Undefined_behaviour
     else throwE Tx_missing_active_auth))"

definition check_owner ::
    "sign_env \<Rightarrow> (account_id_type \<Rightarrow> authority option) \<Rightarrow> nat \<Rightarrow> account_id_type list \<Rightarrow>
     account_id_type \<Rightarrow> sign_state \<Rightarrow> sign_state res" where
  "check_owner A get_owner n owner_approvals i s =
     (if i \<in> set owner_approvals then Inr s else
      bindE (check_authority A n (get_owner i) s) (\<lambda>(b, s').
      if b then Inr s'
      else if get_owner i = None then throwE Undefined_behaviour
      else throwE Tx_missing_owner_auth))"

definition verify_authority ::
    "sign_env \<Rightarrow> ('op \<Rightarrow> required_auths \<Rightarrow> required_auths) \<Rightarrow> (account_id_type \<Rightarrow> authority option) \<Rightarrow>
     'op list \<Rightarrow> public_key_type list \<Rightarrow> nat \<Rightarrow> bool \<Rightarrow> account_id_type list \<Rightarrow> account_id_type list \<Rightarrow> unit res" where
  "verify_authority A required get_owner ops sigs max_recursion_depth allow_committee active_approvals owner_approvals =
     (let (required_active, required_owner, other) = get_required_authorities required ops ([], [], []);
          s = make_sign_state sigs [];
          s = s\<lparr>approved_by := fold fs_insert owner_approvals (fold fs_insert active_approvals (approved_by s))\<rparr>
      in
      bindE (if \<not> allow_committee \<and> GRAPHENE_COMMITTEE_ACCOUNT \<in> set required_active
             then throwE Invalid_committee_approval else Inr ()) (\<lambda>_.
      bindE (foldE (check_other A max_recursion_depth) other s) (\<lambda>s.
      bindE (foldE (check_active A get_owner max_recursion_depth) required_active s) (\<lambda>s.
      bindE (foldE (check_owner A get_owner max_recursion_depth owner_approvals) required_owner s) (\<lambda>s.
      if fst (remove_unused_signatures s) then throwE Tx_irrelevant_sig else Inr ())))))"

record ('op, 'sig) signed_transaction =
  operations :: "'op list"
  signatures :: "'sig list"

definition transaction_validate :: "('op \<Rightarrow> unit res) \<Rightarrow> ('op, 'sig) signed_transaction \<Rightarrow> unit res" where
  "transaction_validate operation_validate tx =
     bindE (assertE (operations tx \<noteq> []) ''A transaction must have at least one operation'') (\<lambda>_.
     foldE (\<lambda>oper _. operation_validate oper) (operations tx) ())"

definition get_signature_keys ::
    "('op list \<Rightarrow> 'sig \<Rightarrow> public_key_type) \<Rightarrow> ('op, 'sig) signed_transaction \<Rightarrow> public_key_type list res" where
  "get_signature_keys recover tx =
     foldE (\<lambda>sig result. let k = recover (operations tx) sig in
       if k \<in> set result then throwE Tx_duplicate_sig else Inr (fs_insert k result)) (signatures tx) []"

definition run_checks :: "(sign_state \<Rightarrow> (bool \<times> sign_state) res) list \<Rightarrow> sign_state \<Rightarrow> sign_state res" where
  "run_checks checks s = foldE (\<lambda>check s. bindE (check s) (\<lambda>(_, s'). Inr s')) checks s"

definition get_required_signatures ::
    "sign_env \<Rightarrow> ('op list \<Rightarrow> 'sig \<Rightarrow> public_key_type) \<Rightarrow> ('op \<Rightarrow> required_auths \<Rightarrow> required_auths) \<Rightarrow>
     (account_id_type \<Rightarrow> authority option) \<Rightarrow> public_key_type list \<Rightarrow> nat \<Rightarrow>
     ('op, 'sig) signed_transaction \<Rightarrow> public_key_type list res" where
  "get_required_signatures A recover required get_owner keys max_recursion_depth tx =
     (let (required_active, required_owner, other) = get_required_authorities required (operations tx) ([], [], [])
      in
      bindE (get_signature_keys recover tx) (\<lambda>sigs.
      bindE (run_checks (map (\<lambda>auth. check_authority A max_recursion_depth (Some auth)) other @
                         map (\<lambda>owner. check_authority A max_recursion_depth (get_owner owner)) required_owner @
                         map (check_account A max_recursion_depth) required_active)
               (make_sign_state sigs keys)) (\<lambda>s.
      Inr (filter (\<lambda>k. k \<in> set keys) (map fst (provided_signatures (snd (remove_unused_signatures s))))))))"

text \<open>Only the three missing-authority exceptions are caught; any other one propagates.\<close>

definition minimize_step ::
    "(public_key_type list \<Rightarrow> unit res) \<Rightarrow> public_key_type \<Rightarrow> public_key_type list \<Rightarrow> public_key_type list res" where
  "minimize_step verify k result =
     (let smaller = filter (\<lambda>x. x \<noteq> k) result in
      case verify smaller of
        Inr _ \<Rightarrow> Inr smaller
      | Inl e \<Rightarrow>
          if e \<in> {Tx_missing_owner_auth, Tx_missing_active_auth, Tx_missing_other_auth}
          then Inr (fs_insert k smaller) else Inl e)"

definition minimize_required_signatures ::
    "sign_env \<Rightarrow> ('op list \<Rightarrow> 'sig \<Rightarrow> public_key_type) \<Rightarrow> ('op \<Rightarrow> required_auths \<Rightarrow> required_auths) \<Rightarrow>
     (account_id_type \<Rightarrow> authority option) \<Rightarrow> public_key_type list \<Rightarrow> nat \<Rightarrow>
     ('op, 'sig) signed_transaction \<Rightarrow> public_key_type list res" where
  "minimize_required_signatures A recover required get_owner keys max_recursion tx =
     bindE (get_required_signatures A recover required get_owner keys max_recursion tx) (\<lambda>s.
     foldE (minimize_step (\<lambda>sigs. verify_authority A required get_owner (operations tx) sigs max_recursion False [] []))
       s s)"

definition tx_verify_authority ::
    "sign_env \<Rightarrow> ('op list \<Rightarrow> 'sig \<Rightarrow> public_key_type) \<Rightarrow> ('op \<Rightarrow> required_auths \<Rightarrow> required_auths) \<Rightarrow>
     (account_id_type \<Rightarrow> authority option) \<Rightarrow> nat \<Rightarrow> ('op, 'sig) signed_transaction \<Rightarrow> unit res" where
  "tx_verify_authority A recover required get_owner max_recursion tx =
     bindE (get_signature_keys recover tx) (\<lambda>sigs.
     verify_authority A required get_owner (operations tx) sigs max_recursion False [] [])"

subsection \<open>Weighing the members of an authority\<close>

text \<open>The weight of the members of which \<open>P\<close> holds.\<close>

definition weight_of :: "('x \<Rightarrow> bool) \<Rightarrow> ('x \<times> nat) list \<Rightarrow> nat" where
  "weight_of P xs = sum_list (map snd (filter (\<lambda>x. P (fst x)) xs))"

lemma weight_of_Nil [simp]: "weight_of P [] = 0"
  by (simp add: weight_of_def)

lemma weight_of_Cons [simp]: "weight_of P ((x, w) # xs) = (if P x then w else 0) + weight_of P xs"
  by (simp add: weight_of_def)

lemma weight_of_mono: "(\<And>x. x \<in> fst ` set xs \<Longrightarrow> P x \<Longrightarrow> Q x) \<Longrightarrow> weight_of P xs \<le> weight_of Q xs"
  by (induction xs) (auto intro: add_mono trans_le_add2)

text \<open>
  The contract between a loop of \<open>check_authority\<close> and its test: the test keeps an invariant
  of the state and passes only members that really approve.
\<close>

locale weighing =
  fixes test :: "'x \<Rightarrow> 's \<Rightarrow> (bool \<times> 's) res" and inv :: "'s \<Rightarrow> bool"
    and elem :: "'x \<Rightarrow> bool" and ok :: "'x \<Rightarrow> bool"
  assumes test_sound: "elem x \<Longrightarrow> inv s \<Longrightarrow> test x s = Inr (b, s') \<Longrightarrow> inv s' \<and> (b \<longrightarrow> ok x)"
begin

lemma weigh_sound:
  assumes "weigh test th xs t s = Inr (stop, t', s')" and "inv s" and "\<forall>x\<in>fst ` set xs. elem x"
  shows "inv s' \<and> t' \<le> t + weight_of ok xs \<and> (stop \<longrightarrow> th \<le> t')"
  using assms
proof (induction xs arbitrary: t s)
  case (Cons xw xs)
  obtain x w where xw: "xw = (x, w)" by (cases xw)
  obtain b s1 where t1: "test x s = Inr (b, s1)" using Cons.prems(1) by (auto simp: xw res_simps)
  have s1: "inv s1" "b \<longrightarrow> ok x" using test_sound [OF _ Cons.prems(2) t1] Cons.prems(3) by (auto simp: xw)
  have le: "(t + w) mod 4294967296 \<le> t + w" by (rule mod_less_eq_dividend)
  show ?case
  proof (cases "b \<and> th \<le> (t + w) mod 2 ^ 32")
    case True
    then show ?thesis using Cons.prems(1) t1 s1 le by (auto simp: xw)
  next
    case False
    let ?t = "if b then (t + w) mod 2 ^ 32 else t"
    have "weigh test th xs ?t s1 = Inr (stop, t', s')"
      using Cons.prems(1) t1 False by (auto simp: xw Let_def split: if_splits)
    from Cons.IH [OF this s1(1)] Cons.prems(3) show ?thesis using s1(2) le by (auto simp: xw split: if_splits)
  qed
qed simp

end

text \<open>
  If the test also never fails and passes every member that has to, then the loop reaches the
  weight of those members, as long as the weights fit 32 bits.
\<close>

locale weighing_total = weighing +
  fixes must :: "'a \<Rightarrow> bool"
  assumes test_total: "elem x \<Longrightarrow> inv s \<Longrightarrow> \<exists>b s'. test x s = Inr (b, s') \<and> (must x \<longrightarrow> b)"
begin

lemma weigh_total:
  assumes "inv s" and "\<forall>x\<in>fst ` set xs. elem x" and "t + sum_list (map snd xs) < 2 ^ 32"
  shows "\<exists>stop t' s'. weigh test th xs t s = Inr (stop, t', s') \<and>
    (stop \<or> t + weight_of must xs \<le> t') \<and> t' \<le> t + sum_list (map snd xs)"
  using assms
proof (induction xs arbitrary: t s)
  case (Cons xw xs)
  obtain x w where xw: "xw = (x, w)" by (cases xw)
  have "elem x" using Cons.prems(2) by (simp add: xw)
  then obtain b s1 where t1: "test x s = Inr (b, s1)" "must x \<longrightarrow> b"
    using test_total [OF _ Cons.prems(1)] by blast
  have s1: "inv s1" using test_sound [OF _ Cons.prems(1) t1(1)] Cons.prems(2) by (simp add: xw)
  have m: "(t + w) mod 4294967296 = t + w" using Cons.prems(3) by (simp add: xw)
  let ?t = "if b then t + w else t"
  have el: "\<forall>x\<in>fst ` set xs. elem x" using Cons.prems(2) by simp
  have small: "?t + sum_list (map snd xs) < 2 ^ 32" using Cons.prems(3) by (simp add: xw)
  obtain stop t' s' where ih: "weigh test th xs ?t s1 = Inr (stop, t', s')"
      "stop \<or> ?t + weight_of must xs \<le> t'" "t' \<le> ?t + sum_list (map snd xs)"
    using Cons.IH [OF s1 el small] by blast
  show ?case
  proof (cases "b \<and> th \<le> t + w")
    case True
    then have "weigh test th (xw # xs) t s = Inr (True, t + w, s1)" using t1(1) m by (simp add: xw)
    then show ?thesis by (auto simp: xw)
  next
    case False
    then have "weigh test th (xw # xs) t s = Inr (stop, t', s')" using t1(1) m ih(1) by (auto simp: xw)
    moreover have "t + weight_of must (xw # xs) \<le> ?t + weight_of must xs" using t1(2) by (auto simp: xw)
    moreover have "?t + sum_list (map snd xs) \<le> t + sum_list (map snd (xw # xs))" by (simp add: xw)
    ultimately show ?thesis using ih(2,3) by (meson order_trans)
  qed
qed auto

end

subsection \<open>Who approves\<close>

definition address_known :: "sign_env \<Rightarrow> public_key_type set \<Rightarrow> address_type \<Rightarrow> bool" where
  "address_known A K a \<longleftrightarrow> (\<exists>k\<in>K. a \<in> set (addresses_of A k))"

text \<open>
  The weight an authority gets from a set \<open>K\<close> of keys and a set \<open>S\<close> of approving accounts.
\<close>

definition auth_weight :: "sign_env \<Rightarrow> public_key_type set \<Rightarrow> account_id_type set \<Rightarrow> authority \<Rightarrow> nat" where
  "auth_weight A K S auth =
     weight_of (\<lambda>k. k \<in> K) (key_auths auth) + weight_of (address_known A K) (address_auths auth)
     + weight_of (\<lambda>x. x \<in> S) (account_auths auth)"

lemma auth_weight_mono: "S \<subseteq> T \<Longrightarrow> auth_weight A K S auth \<le> auth_weight A K T auth"
  unfolding auth_weight_def by (intro add_left_mono weight_of_mono) auto

text \<open>
  The accounts whose approval follows from the keys \<open>K\<close> and the approvals \<open>B\<close>, at any depth:
  the least set that contains \<open>B\<close> and every account whose active authority is reached by the
  keys and accounts of the set.
\<close>

inductive approvable :: "sign_env \<Rightarrow> public_key_type set \<Rightarrow> account_id_type set \<Rightarrow> account_id_type \<Rightarrow> bool"
  for A K B where
    approvable_base: "x \<in> B \<Longrightarrow> approvable A K B x"
  | approvable_step: "get_active A x = Some auth \<Longrightarrow> \<forall>y\<in>S. approvable A K B y \<Longrightarrow>
      weight_threshold auth \<le> auth_weight A K S auth \<Longrightarrow> approvable A K B x"

definition satisfied :: "sign_env \<Rightarrow> public_key_type set \<Rightarrow> account_id_type set \<Rightarrow> authority option \<Rightarrow> bool" where
  "satisfied A K B au =
     (case au of None \<Rightarrow> False
      | Some auth \<Rightarrow> weight_threshold auth \<le> auth_weight A K (Collect (approvable A K B)) auth)"

lemma satisfied_active: "satisfied A K B (get_active A x) \<Longrightarrow> approvable A K B x"
  by (auto simp: satisfied_def split: option.splits intro: approvable_step)

text \<open>A key occurs in an authority when one of its members is the key or one of its addresses.\<close>

definition mentions :: "sign_env \<Rightarrow> public_key_type \<Rightarrow> authority \<Rightarrow> bool" where
  "mentions A k auth \<longleftrightarrow> k \<in> fst ` set (key_auths auth) \<or> (\<exists>a\<in>fst ` set (address_auths auth). a \<in> set (addresses_of A k))"

definition address_index :: "sign_env \<Rightarrow> public_key_type set \<Rightarrow> (address_type \<times> public_key_type) list \<Rightarrow> bool" where
  "address_index A ks m \<longleftrightarrow>
     (\<forall>a k. map_of m a = Some k \<longrightarrow> k \<in> ks \<and> a \<in> set (addresses_of A k)) \<and>
     (\<forall>k\<in>ks. \<forall>a\<in>set (addresses_of A k). map_of m a \<noteq> None)"

definition sign_inv ::
    "sign_env \<Rightarrow> public_key_type set \<Rightarrow> account_id_type set \<Rightarrow> authority set \<Rightarrow> sign_state \<Rightarrow> bool" where
  "sign_inv A K B Au s \<longleftrightarrow>
     fst ` set (provided_signatures s) \<union> set (available_keys s) = K \<and>
     B \<subseteq> set (approved_by s) \<and> (\<forall>x\<in>set (approved_by s). approvable A K B x) \<and>
     (\<forall>k. (k, True) \<in> set (provided_signatures s) \<longrightarrow> (\<exists>auth\<in>Au. mentions A k auth)) \<and>
     (case (available_address_sigs s, provided_address_sigs s) of
        (None, None) \<Rightarrow> True
      | (Some av, Some pr) \<Rightarrow> address_index A (set (available_keys s)) av \<and>
          (\<exists>ks. ks \<subseteq> fst ` set (provided_signatures s) \<and> ks \<union> set (available_keys s) = K \<and> address_index A ks pr)
      | _ \<Rightarrow> False)"

lemma sign_invD:
  assumes "sign_inv A K B Au s"
  shows "fst ` set (provided_signatures s) \<union> set (available_keys s) = K"
    and "B \<subseteq> set (approved_by s)" and "\<And>x. x \<in> set (approved_by s) \<Longrightarrow> approvable A K B x"
  using assms by (auto simp: sign_inv_def)

lemma mark_used_simps [simp]:
  "available_keys (mark_used k s) = available_keys s" "approved_by (mark_used k s) = approved_by s"
  "available_address_sigs (mark_used k s) = available_address_sigs s"
  "provided_address_sigs (mark_used k s) = provided_address_sigs s"
  "provided_signatures (mark_used k s) = fm_insert k True (provided_signatures s)"
  by (simp_all add: mark_used_def)

lemma mark_used_inv:
  assumes s: "sign_inv A K B Au s" and k: "k \<in> K" and m: "\<exists>auth\<in>Au. mentions A k auth"
  shows "sign_inv A K B Au (mark_used k s)"
proof -
  have "\<exists>auth\<in>Au. mentions A x auth" if "(x, True) \<in> set (fm_insert k True (provided_signatures s))" for x
    using that m s set_fm_insert_subset [of k True "provided_signatures s"] by (auto simp: sign_inv_def)
  moreover have "\<exists>ks. ks \<subseteq> insert k (fst ` set (provided_signatures s)) \<and> P ks"
    if "\<exists>ks. ks \<subseteq> fst ` set (provided_signatures s) \<and> P ks" for P
    using that by blast
  ultimately show ?thesis
    using s k unfolding sign_inv_def by (auto split: option.splits)
qed

lemma signed_by_key_sound:
  assumes "signed_by_key k s = (b, s')" and "sign_inv A K B Au s" and "\<exists>auth\<in>Au. k \<in> fst ` set (key_auths auth)"
  shows "sign_inv A K B Au s' \<and> b = (k \<in> K)"
proof -
  have K: "k \<in> K \<longleftrightarrow> map_of (provided_signatures s) k \<noteq> None \<or> k \<in> set (available_keys s)"
    using sign_invD(1) [OF assms(2)] by (auto simp: map_of_eq_None_iff)
  have "\<exists>auth\<in>Au. mentions A k auth" using assms(3) by (auto simp: mentions_def)
  from mark_used_inv [OF assms(2) _ this] show ?thesis
    using assms(1,2) K by (auto simp: signed_by_key_def split: option.splits if_splits)
qed

lemma address_index_insert:
  assumes "address_index A ks m"
  shows "set as \<subseteq> set (addresses_of A k) \<Longrightarrow>
    address_index A ks m \<Longrightarrow>
    (\<forall>a x. map_of (fold (\<lambda>a m. fm_insert a k m) as m) a = Some x \<longrightarrow> x \<in> insert k ks \<and> a \<in> set (addresses_of A x)) \<and>
    (\<forall>x\<in>ks. \<forall>a\<in>set (addresses_of A x). map_of (fold (\<lambda>a m. fm_insert a k m) as m) a \<noteq> None) \<and>
    (\<forall>a\<in>set as. map_of (fold (\<lambda>a m. fm_insert a k m) as m) a \<noteq> None)"
proof (induction as rule: rev_induct)
  case (snoc a as)
  then show ?case by auto
qed (use assms in \<open>auto simp: address_index_def\<close>)

lemma index_addresses_index: "address_index A (set keys) (index_addresses A keys)"
proof (induction keys rule: rev_induct)
  case (snoc k keys)
  from address_index_insert [OF snoc order_refl snoc, of k] show ?case
    by (auto simp: index_addresses_def address_index_def)
qed (simp add: index_addresses_def address_index_def)

lemma load_address_sigs_inv:
  assumes "sign_inv A K B Au s"
  obtains av pr ks where "sign_inv A K B Au (load_address_sigs A s)"
    "available_address_sigs (load_address_sigs A s) = Some av" "provided_address_sigs (load_address_sigs A s) = Some pr"
    "address_index A (set (available_keys (load_address_sigs A s))) av" "address_index A ks pr"
    "ks \<union> set (available_keys (load_address_sigs A s)) = K"
proof (cases "available_address_sigs s")
  case None
  have "sign_inv A K B Au (load_address_sigs A s)"
    using assms None index_addresses_index [of A "available_keys s"]
      index_addresses_index [of A "map fst (provided_signatures s)"]
    unfolding sign_inv_def load_address_sigs_def by (auto split: option.splits)
  then show ?thesis
    using that assms None index_addresses_index [of A "available_keys s"]
      index_addresses_index [of A "map fst (provided_signatures s)"]
    by (fastforce simp: load_address_sigs_def sign_inv_def)
next
  case (Some av)
  then obtain pr where "provided_address_sigs s = Some pr" using assms by (auto simp: sign_inv_def split: option.splits)
  then show ?thesis using that assms Some by (auto simp: load_address_sigs_def sign_inv_def)
qed

lemma signed_by_address_sound:
  assumes "sign_inv A K B Au s" and "\<exists>auth\<in>Au. a \<in> fst ` set (address_auths auth)"
  shows "if address_known A K a then \<exists>s'. signed_by_address A a s = Inr (True, s') \<and> sign_inv A K B Au s'
    else signed_by_address A a s = Inl Undefined_behaviour"
proof -
  let ?s = "load_address_sigs A s"
  obtain av pr ks where l: "sign_inv A K B Au ?s"
      "available_address_sigs ?s = Some av" "provided_address_sigs ?s = Some pr"
      "address_index A (set (available_keys ?s)) av" "address_index A ks pr" "ks \<union> set (available_keys ?s) = K"
    using load_address_sigs_inv [OF assms(1)] by blast
  have known: "address_known A K a \<longleftrightarrow> map_of pr a \<noteq> None \<or> map_of av a \<noteq> None"
    using l(4-6) unfolding address_known_def address_index_def by (metis Un_iff not_None_eq)
  have mark: "sign_inv A K B Au (mark_used k ?s)" if "k \<in> K" "a \<in> set (addresses_of A k)" for k
    using that assms(2) by (intro mark_used_inv [OF l(1)]) (auto simp: mentions_def)
  show ?thesis
  proof (cases "map_of pr a")
    case (Some k)
    then have "k \<in> K" "a \<in> set (addresses_of A k)" using l(5,6) by (auto simp: address_index_def)
    then show ?thesis using Some l(3) known mark by (auto simp: signed_by_address_def Let_def)
  next
    case None
    show ?thesis
    proof (cases "map_of av a")
      case (Some k)
      then have "k \<in> set (available_keys ?s)" "a \<in> set (addresses_of A k)" using l(4) by (auto simp: address_index_def)
      then show ?thesis using None Some l(2,3,6) known mark by (auto simp: signed_by_address_def Let_def)
    next
      case avNone: None
      then show ?thesis using None l(2,3) known by (simp add: signed_by_address_def Let_def throwE_def)
    qed
  qed
qed

interpretation kw: weighing "\<lambda>k s. Inr (signed_by_key k s)" "sign_inv A K B Au"
    "\<lambda>k. \<exists>auth\<in>Au. k \<in> fst ` set (key_auths auth)" "\<lambda>k. k \<in> K" for A K B Au
proof unfold_locales
  fix k s b s'
  assume "\<exists>auth\<in>Au. k \<in> fst ` set (key_auths auth)" "sign_inv A K B Au s"
    "(Inr (signed_by_key k s) :: (bool \<times> sign_state) res) = Inr (b, s')"
  then show "sign_inv A K B Au s' \<and> (b \<longrightarrow> k \<in> K)" using signed_by_key_sound by blast
qed

interpretation kwt: weighing_total "\<lambda>k s. Inr (signed_by_key k s)" "sign_inv A K B Au"
    "\<lambda>k. \<exists>auth\<in>Au. k \<in> fst ` set (key_auths auth)" "\<lambda>k. k \<in> K" "\<lambda>k. k \<in> K" for A K B Au
proof unfold_locales
  fix k s
  assume "\<exists>auth\<in>Au. k \<in> fst ` set (key_auths auth)" "sign_inv A K B Au s"
  then show "\<exists>b s'. (Inr (signed_by_key k s) :: (bool \<times> sign_state) res) = Inr (b, s') \<and> (k \<in> K \<longrightarrow> b)"
    using signed_by_key_sound by (cases "signed_by_key k s") blast
qed

interpretation aw: weighing "signed_by_address A" "sign_inv A K B Au"
    "\<lambda>a. \<exists>auth\<in>Au. a \<in> fst ` set (address_auths auth)" "address_known A K" for A K B Au
proof unfold_locales
  fix a s b s'
  assume "\<exists>auth\<in>Au. a \<in> fst ` set (address_auths auth)" "sign_inv A K B Au s" "signed_by_address A a s = Inr (b, s')"
  then show "sign_inv A K B Au s' \<and> (b \<longrightarrow> address_known A K a)"
    using signed_by_address_sound [of A K B Au s a] by (auto split: if_splits)
qed

text \<open>What a level of the recursion has to provide to the level above.\<close>

definition descend_sound ::
    "sign_env \<Rightarrow> public_key_type set \<Rightarrow> account_id_type set \<Rightarrow> authority set \<Rightarrow>
     (authority option \<Rightarrow> sign_state \<Rightarrow> (bool \<times> sign_state) res) \<Rightarrow> bool" where
  "descend_sound A K B Au f \<longleftrightarrow> (\<forall>au s b s'. set_option au \<subseteq> Au \<longrightarrow> sign_inv A K B Au s \<longrightarrow> f au s = Inr (b, s') \<longrightarrow>
     sign_inv A K B Au s' \<and> (b \<longrightarrow> satisfied A K B au))"

lemma approve_inv:
  "sign_inv A K B Au s \<Longrightarrow> approvable A K B x \<Longrightarrow>
    sign_inv A K B Au (s\<lparr>approved_by := fs_insert x (approved_by s)\<rparr>)"
  unfolding sign_inv_def by (auto split: option.splits)

lemma account_approves_weighing:
  assumes Au: "\<forall>x. set_option (get_active A x) \<subseteq> Au" and f: "\<forall>f. descend = Some f \<longrightarrow> descend_sound A K B Au f"
  shows "weighing (account_approves A descend) (sign_inv A K B Au) (\<lambda>_. True) (approvable A K B)"
proof
  fix x s b s'
  assume s: "sign_inv A K B Au s" and t: "account_approves A descend x s = Inr (b, s')"
  show "sign_inv A K B Au s' \<and> (b \<longrightarrow> approvable A K B x)"
  proof (cases "x \<in> set (approved_by s) \<or> descend = None")
    case True
    then show ?thesis using s t sign_invD(3) [OF s, of x] by (auto simp: account_approves_def split: if_splits)
  next
    case False
    then obtain g where g: "descend = Some g" by blast
    then obtain c s1 where c: "g (get_active A x) s = Inr (c, s1)" "b = c"
        "s' = (if c then s1\<lparr>approved_by := fs_insert x (approved_by s1)\<rparr> else s1)"
      using False t by (auto simp: account_approves_def res_simps split: if_splits)
    have "set_option (get_active A x) \<subseteq> Au" using Au by blast
    with c(1) s f g have "sign_inv A K B Au s1" "c \<longrightarrow> satisfied A K B (get_active A x)"
      unfolding descend_sound_def by blast+
    then show ?thesis using c(2,3) satisfied_active [of A K B x] by (auto intro: approve_inv)
  qed
qed

lemma check_authority_body_sound:
  assumes Au: "\<forall>x. set_option (get_active A x) \<subseteq> Au" and f: "\<forall>f. descend = Some f \<longrightarrow> descend_sound A K B Au f"
  shows "descend_sound A K B Au (check_authority_body A descend)"
  unfolding descend_sound_def
proof (intro allI impI)
  fix au s b s'
  assume au: "set_option au \<subseteq> Au" and s: "sign_inv A K B Au s" and c: "check_authority_body A descend au s = Inr (b, s')"
  show "sign_inv A K B Au s' \<and> (b \<longrightarrow> satisfied A K B au)"
  proof (cases au)
    case None
    then show ?thesis using c s by (simp add: check_authority_body_def)
  next
    case (Some auth)
    let ?th = "weight_threshold auth"
    have e: "\<forall>x\<in>fst ` set (key_auths auth). \<exists>auth\<in>Au. x \<in> fst ` set (key_auths auth)"
      "\<forall>x\<in>fst ` set (address_auths auth). \<exists>auth\<in>Au. x \<in> fst ` set (address_auths auth)"
      using au Some by auto
    obtain st1 t1 s1 where 1: "weigh (\<lambda>k s. Inr (signed_by_key k s)) ?th (key_auths auth) 0 s = Inr (st1, t1, s1)"
      using c Some by (auto simp: check_authority_body_def res_simps)
    note k1 = kw.weigh_sound [OF 1 s e(1)]
    show ?thesis
    proof (cases st1)
      case True
      then show ?thesis using 1 k1 c Some by (auto simp: check_authority_body_def satisfied_def auth_weight_def)
    next
      case nst1: False
      obtain st2 t2 s2 where 2: "weigh (signed_by_address A) ?th (address_auths auth) t1 s1 = Inr (st2, t2, s2)"
        using c Some 1 nst1 by (auto simp: check_authority_body_def res_simps)
      note k2 = aw.weigh_sound [OF 2 conjunct1 [OF k1] e(2)]
      show ?thesis
      proof (cases st2)
        case True
        then show ?thesis using 1 2 k1 k2 nst1 c Some by (auto simp: check_authority_body_def satisfied_def auth_weight_def)
      next
        case nst2: False
        obtain st3 t3 s3 where 3: "weigh (account_approves A descend) ?th (account_auths auth) t2 s2 = Inr (st3, t3, s3)"
            "b = (st3 \<or> ?th \<le> t3)" "s' = s3"
          using c Some 1 2 nst1 nst2 by (auto simp: check_authority_body_def res_simps)
        have "sign_inv A K B Au s3 \<and> t3 \<le> t2 + weight_of (approvable A K B) (account_auths auth) \<and> (st3 \<longrightarrow> ?th \<le> t3)"
          using weighing.weigh_sound [OF account_approves_weighing [OF assms] 3(1)] k2 by blast
        then show ?thesis using 3 k1 k2 Some by (auto simp: satisfied_def auth_weight_def)
      qed
    qed
  qed
qed

lemma check_authority_descend:
  assumes "\<forall>x. set_option (get_active A x) \<subseteq> Au"
  shows "descend_sound A K B Au (check_authority A n)"
  by (induction n) (simp_all add: check_authority_body_sound [OF assms])

lemma check_authority_sound:
  assumes "\<forall>x. set_option (get_active A x) \<subseteq> Au" and "set_option au \<subseteq> Au" and "sign_inv A K B Au s"
    and "check_authority A n au s = Inr (b, s')"
  shows "sign_inv A K B Au s' \<and> (b \<longrightarrow> satisfied A K B au)"
  using check_authority_descend [OF assms(1)] assms(2-) unfolding descend_sound_def by blast

subsection \<open>Enough signatures are accepted\<close>

text \<open>An authority that is reached by the keys and approvals through at most \<open>n\<close> levels of accounts.\<close>

primrec reaches :: "sign_env \<Rightarrow> public_key_type set \<Rightarrow> account_id_type set \<Rightarrow> nat \<Rightarrow> authority \<Rightarrow> bool" where
  "reaches A K B 0 auth \<longleftrightarrow> weight_threshold auth \<le> auth_weight A K B auth"
| "reaches A K B (Suc n) auth \<longleftrightarrow>
     weight_threshold auth \<le>
       auth_weight A K (B \<union> {x. \<exists>au. get_active A x = Some au \<and> reaches A K B n au}) auth"

text \<open>Authorities without addresses whose weights fit 32 bits.\<close>

definition plain_authority :: "authority \<Rightarrow> bool" where
  "plain_authority auth \<longleftrightarrow> address_auths auth = [] \<and>
     sum_list (map snd (key_auths auth)) + sum_list (map snd (account_auths auth)) < 2 ^ 32"

definition descend_total ::
    "sign_env \<Rightarrow> public_key_type set \<Rightarrow> account_id_type set \<Rightarrow> authority set \<Rightarrow> nat \<Rightarrow>
     (authority option \<Rightarrow> sign_state \<Rightarrow> (bool \<times> sign_state) res) \<Rightarrow> bool" where
  "descend_total A K B Au n f \<longleftrightarrow> (\<forall>au s. set_option au \<subseteq> Au \<longrightarrow> sign_inv A K B Au s \<longrightarrow>
     (\<exists>b s'. f au s = Inr (b, s') \<and> (\<forall>auth. au = Some auth \<and> reaches A K B n auth \<longrightarrow> b)))"

lemma account_approves_total:
  assumes Au: "\<forall>x. set_option (get_active A x) \<subseteq> Au"
    and f: "\<forall>f. descend = Some f \<longrightarrow> descend_sound A K B Au f \<and> descend_total A K B Au n f"
  shows "weighing_total (account_approves A descend) (sign_inv A K B Au) (\<lambda>_. True) (approvable A K B)
    (\<lambda>x. x \<in> B \<or> descend \<noteq> None \<and> (\<exists>au. get_active A x = Some au \<and> reaches A K B n au))"
    (is "weighing_total _ _ _ _ ?must")
proof -
  have w: "weighing (account_approves A descend) (sign_inv A K B Au) (\<lambda>_. True) (approvable A K B)"
    using account_approves_weighing [OF Au] f by blast
  have t: "\<exists>b s'. account_approves A descend x s = Inr (b, s') \<and> (?must x \<longrightarrow> b)" if s: "sign_inv A K B Au s" for x s
  proof (cases "x \<in> set (approved_by s) \<or> descend = None")
    case True
    then show ?thesis using sign_invD(2) [OF s] by (auto simp: account_approves_def)
  next
    case False
    then obtain g where g: "descend = Some g" by blast
    have "set_option (get_active A x) \<subseteq> Au" using Au by blast
    then obtain b s1 where b: "g (get_active A x) s = Inr (b, s1)"
        "\<forall>auth. get_active A x = Some auth \<and> reaches A K B n auth \<longrightarrow> b"
      using f g s unfolding descend_total_def by blast
    have "x \<notin> B" using False sign_invD(2) [OF s] by blast
    then show ?thesis using b False g by (auto simp: account_approves_def)
  qed
  show ?thesis using w t by (simp add: weighing_total_def weighing_total_axioms_def)
qed

lemma check_authority_body_total:
  assumes Au: "\<forall>x. set_option (get_active A x) \<subseteq> Au" and plain: "\<forall>auth\<in>Au. plain_authority auth"
    and f: "\<forall>f. descend = Some f \<longrightarrow> descend_sound A K B Au f \<and> descend_total A K B Au n f"
    and n: "\<And>auth. reaches A K B m auth \<Longrightarrow> weight_threshold auth \<le> auth_weight A K
      (B \<union> {x. descend \<noteq> None \<and> (\<exists>au. get_active A x = Some au \<and> reaches A K B n au)}) auth"
  shows "descend_total A K B Au m (check_authority_body A descend)"
  unfolding descend_total_def
proof (intro allI impI)
  fix au s
  assume au: "set_option au \<subseteq> Au" and s: "sign_inv A K B Au s"
  show "\<exists>b s'. check_authority_body A descend au s = Inr (b, s') \<and> (\<forall>auth. au = Some auth \<and> reaches A K B m auth \<longrightarrow> b)"
  proof (cases au)
    case None
    then show ?thesis by (auto simp: check_authority_body_def)
  next
    case (Some auth)
    let ?th = "weight_threshold auth"
    let ?must = "\<lambda>x. x \<in> B \<or> descend \<noteq> None \<and> (\<exists>au. get_active A x = Some au \<and> reaches A K B n au)"
    have p: "address_auths auth = []" "sum_list (map snd (key_auths auth)) + sum_list (map snd (account_auths auth)) < 2 ^ 32"
      using plain au Some by (auto simp: plain_authority_def)
    have e: "\<forall>x\<in>fst ` set (key_auths auth). \<exists>auth\<in>Au. x \<in> fst ` set (key_auths auth)" using au Some by auto
    obtain st1 t1 s1 where 1: "weigh (\<lambda>k s. Inr (signed_by_key k s)) ?th (key_auths auth) 0 s = Inr (st1, t1, s1)"
        "st1 \<or> weight_of (\<lambda>k. k \<in> K) (key_auths auth) \<le> t1" "t1 \<le> sum_list (map snd (key_auths auth))"
      using kwt.weigh_total [OF s e, of 0 ?th] p(2) by auto
    have s1: "sign_inv A K B Au s1" using kw.weigh_sound [OF 1(1) s e] by blast
    show ?thesis
    proof (cases st1)
      case True
      then show ?thesis using 1(1) Some by (auto simp: check_authority_body_def)
    next
      case False
      have "t1 + sum_list (map snd (account_auths auth)) < 2 ^ 32" using 1(3) p(2) by linarith
      then obtain st3 t3 s3 where 3: "weigh (account_approves A descend) ?th (account_auths auth) t1 s1 = Inr (st3, t3, s3)"
          "st3 \<or> t1 + weight_of ?must (account_auths auth) \<le> t3"
        using weighing_total.weigh_total [OF account_approves_total [OF Au f] s1] by blast
      have w: "auth_weight A K (B \<union> {x. descend \<noteq> None \<and> (\<exists>au. get_active A x = Some au \<and> reaches A K B n au)}) auth
          = weight_of (\<lambda>k. k \<in> K) (key_auths auth) + weight_of ?must (account_auths auth)"
        by (simp add: auth_weight_def p(1))
      have "?th \<le> t3" if "reaches A K B m auth" "\<not> st3"
        using n [OF that(1)] that(2) 1(2) 3(2) False unfolding w by linarith
      then show ?thesis using 1(1) 3(1) False Some p(1) by (auto simp: check_authority_body_def)
    qed
  qed
qed

lemma check_authority_descend_total:
  assumes "\<forall>x. set_option (get_active A x) \<subseteq> Au" and "\<forall>auth\<in>Au. plain_authority auth"
  shows "descend_total A K B Au n (check_authority A n)"
proof (induction n)
  case 0
  show ?case using check_authority_body_total [OF assms, of None K B 0 0] by simp
next
  case (Suc n)
  then show ?case
    using check_authority_body_total [OF assms, of "Some (check_authority A n)" K B n "Suc n"]
      check_authority_descend [OF assms(1)] by simp
qed

subsection \<open>The available keys never change\<close>

definition keeps_available :: "('x \<Rightarrow> sign_state \<Rightarrow> (bool \<times> sign_state) res) \<Rightarrow> bool" where
  "keeps_available f \<longleftrightarrow> (\<forall>x s b s'. f x s = Inr (b, s') \<longrightarrow> available_keys s' = available_keys s)"

lemma weigh_keeps_available:
  assumes "keeps_available test" and "weigh test th xs t s = Inr (stop, t', s')"
  shows "available_keys s' = available_keys s"
proof -
  have "weighing test (\<lambda>u. available_keys u = available_keys s) (\<lambda>_. True) (\<lambda>_. True)"
    using assms(1) by (simp add: weighing_def keeps_available_def)
  from weighing.weigh_sound [OF this assms(2)] show ?thesis by simp
qed

lemma keeps_available_tests:
  "keeps_available (\<lambda>k s. Inr (signed_by_key k s))" "keeps_available (signed_by_address A)"
  "(\<And>f. descend = Some f \<Longrightarrow> keeps_available f) \<Longrightarrow> keeps_available (account_approves A descend)"
proof -
  show "keeps_available (\<lambda>k s. Inr (signed_by_key k s))"
    by (auto simp: keeps_available_def signed_by_key_def split: option.splits if_splits)
  show "keeps_available (signed_by_address A)"
    by (auto simp: keeps_available_def signed_by_address_def load_address_sigs_def Let_def throwE_def
        split: option.splits if_splits)
  show "(\<And>f. descend = Some f \<Longrightarrow> keeps_available f) \<Longrightarrow> keeps_available (account_approves A descend)"
    by (auto simp: keeps_available_def account_approves_def res_simps split: option.splits if_splits)
qed

lemma check_authority_body_keeps:
  assumes "\<And>f. descend = Some f \<Longrightarrow> keeps_available f"
  shows "keeps_available (check_authority_body A descend)"
proof -
  have "keeps_available (account_approves A descend)" using keeps_available_tests(3) assms by blast
  note w = weigh_keeps_available [OF keeps_available_tests(1)] weigh_keeps_available [OF keeps_available_tests(2)]
    weigh_keeps_available [OF this]
  show ?thesis
    unfolding keeps_available_def check_authority_body_def
    by (auto simp: res_simps split: option.splits if_splits dest!: w)
qed

lemma check_authority_keeps: "keeps_available (check_authority A n)"
  by (induction n) (auto intro!: check_authority_body_keeps)

lemma check_steps_keep:
  "check_other A n x s = Inr s' \<Longrightarrow> available_keys s' = available_keys s"
  "check_active A get_owner n i s = Inr s' \<Longrightarrow> available_keys s' = available_keys s"
  "check_owner A get_owner n own i s = Inr s' \<Longrightarrow> available_keys s' = available_keys s"
  using check_authority_keeps [of A n] unfolding keeps_available_def
  by (auto simp: check_other_def check_active_def check_owner_def check_account_def res_simps split: if_splits)

subsection \<open>Verification\<close>

lemma fold_fs_insert [simp]: "set (fold fs_insert xs m) = set xs \<union> set m"
  by (induction xs arbitrary: m) auto

lemma fold_fm_insert_False:
  "set (fold (\<lambda>key m. fm_insert key False m) sigs m) \<subseteq> (\<lambda>k. (k, False)) ` set sigs \<union> set m"
  "fst ` set (fold (\<lambda>key m. fm_insert key False m) sigs m) = set sigs \<union> fst ` set m"
proof (induction sigs arbitrary: m)
  case (Cons k sigs)
  { case 1 show ?case using Cons.IH(1) [of "fm_insert k False m"] set_fm_insert_subset [of k False m] by auto }
  { case 2 show ?case by (simp add: Cons.IH(2)) }
qed simp_all

text \<open>The approvals a verification starts with.\<close>

definition given_approvals :: "account_id_type list \<Rightarrow> account_id_type list \<Rightarrow> account_id_type set" where
  "given_approvals active_approvals owner_approvals =
     insert GRAPHENE_TEMP_ACCOUNT (set active_approvals \<union> set owner_approvals)"

lemma initial_sign_inv:
  "sign_inv A (set sigs \<union> set keys) (given_approvals act own) Au
     ((make_sign_state sigs keys)\<lparr>approved_by := fold fs_insert own (fold fs_insert act [GRAPHENE_TEMP_ACCOUNT])\<rparr>)"
  using fold_fm_insert_False [of sigs "[]"]
  by (auto simp: sign_inv_def make_sign_state_def given_approvals_def intro: approvable_base)

lemma fresh_sign_inv:
  "sign_inv A (set sigs \<union> set keys) {GRAPHENE_TEMP_ACCOUNT} Au (make_sign_state sigs keys)"
  using fold_fm_insert_False [of sigs "[]"]
  by (auto simp: sign_inv_def make_sign_state_def intro: approvable_base)

definition account_authorities :: "sign_env \<Rightarrow> (account_id_type \<Rightarrow> authority option) \<Rightarrow> authority set" where
  "account_authorities A get_owner = {auth. \<exists>x. get_active A x = Some auth \<or> get_owner x = Some auth}"

lemma remove_unused_none:
  "\<not> fst (remove_unused_signatures s) \<longleftrightarrow> (\<forall>k b. (k, b) \<in> set (provided_signatures s) \<longrightarrow> b)"
  by (auto simp: remove_unused_signatures_def Let_def filter_empty_conv) blast

text \<open>What a successful verification establishes of the required authorities.\<close>

lemma verify_authority_steps:
  assumes v: "verify_authority A required get_owner ops sigs n allow act own = Inr ()"
    and r: "get_required_authorities required ops ([], [], []) = (ra, ro, other)"
    and K: "K = set sigs" "B = given_approvals act own" "Au = account_authorities A get_owner \<union> set other"
  shows "(\<forall>auth\<in>set other. satisfied A K B (Some auth)) \<and>
    (\<forall>i\<in>set ra. approvable A K B i \<or> satisfied A K B (get_owner i)) \<and>
    (\<forall>i\<in>set ro. i \<in> set own \<or> satisfied A K B (get_owner i)) \<and>
    (\<forall>k\<in>K. \<exists>auth\<in>Au. mentions A k auth) \<and> (allow \<or> GRAPHENE_COMMITTEE_ACCOUNT \<notin> set ra)"
proof -
  let ?s0 = "(make_sign_state sigs [])\<lparr>approved_by := fold fs_insert own (fold fs_insert act [GRAPHENE_TEMP_ACCOUNT])\<rparr>"
  let ?I = "sign_inv A K B Au"
  have act: "\<forall>x. set_option (get_active A x) \<subseteq> Au" and own: "\<And>x. set_option (get_owner x) \<subseteq> Au"
    by (auto simp: K account_authorities_def)
  note sound = check_authority_sound [OF act]
  have ap: "approved_by (make_sign_state sigs []) = [GRAPHENE_TEMP_ACCOUNT]" by (simp add: make_sign_state_def)
  obtain s1 s2 s3 where s: "foldE (check_other A n) other ?s0 = Inr s1"
      "foldE (check_active A get_owner n) ra s1 = Inr s2" "foldE (check_owner A get_owner n own) ro s2 = Inr s3"
      "\<not> fst (remove_unused_signatures s3)" and c: "allow \<or> GRAPHENE_COMMITTEE_ACCOUNT \<notin> set ra"
    using v unfolding verify_authority_def r prod.case Let_def ap by (auto simp: res_simps split: if_splits)
  have i0: "?I ?s0" using initial_sign_inv [of A sigs "[]" act own Au] by (simp add: K)
  have 1: "?I s1 \<and> (\<forall>auth\<in>set other. satisfied A K B (Some auth))"
  proof (rule foldE_all [where I = ?I, OF s(1) i0])
    fix x u w
    assume "x \<in> set other" "?I u" "check_other A n x u = Inr w"
    then show "?I w \<and> satisfied A K B (Some x)"
      using sound [of "Some x"] by (auto simp: check_other_def K res_simps split: if_splits)
  qed
  have 2: "?I s2 \<and> (\<forall>i\<in>set ra. approvable A K B i \<or> satisfied A K B (get_owner i))"
  proof (rule foldE_all [where I = ?I, OF s(2) conjunct1 [OF 1]])
    fix x u w
    assume u: "?I u" and w: "check_active A get_owner n x u = Inr w"
    obtain b u1 where b: "check_account A n x u = Inr (b, u1)" using w by (auto simp: check_active_def res_simps)
    have u1: "?I u1 \<and> (b \<longrightarrow> approvable A K B x)"
      using b u sound [OF spec [OF act] u, of n x] satisfied_active [of A K B x] sign_invD(3) [OF u, of x]
      by (auto simp: check_account_def split: if_splits)
    then show "?I w \<and> (approvable A K B x \<or> satisfied A K B (get_owner x))"
      using w b sound [OF own [of x] conjunct1 [OF u1], of n] by (auto simp: check_active_def res_simps split: if_splits)
  qed
  have 3: "?I s3 \<and> (\<forall>i\<in>set ro. i \<in> set own \<or> satisfied A K B (get_owner i))"
  proof (rule foldE_all [where I = ?I, OF s(3) conjunct1 [OF 2]])
    fix x u w
    assume u: "?I u" and w: "check_owner A get_owner n own x u = Inr w"
    then show "?I w \<and> (x \<in> set own \<or> satisfied A K B (get_owner x))"
      using sound [OF own [of x] u, of n] by (auto simp: check_owner_def res_simps split: if_splits)
  qed
  have "available_keys s3 = []"
  proof -
    have "available_keys s1 = []"
      by (rule foldE_invariant [OF s(1)]) (auto simp: make_sign_state_def dest: check_steps_keep(1))
    then have "available_keys s2 = []"
      by (rule foldE_invariant [where P = "\<lambda>u. available_keys u = []", OF s(2)]) (auto dest: check_steps_keep(2))
    then show ?thesis
      by (rule foldE_invariant [where P = "\<lambda>u. available_keys u = []", OF s(3)]) (auto dest: check_steps_keep(3))
  qed
  then have keys: "fst ` set (provided_signatures s3) = K" using sign_invD(1) [OF conjunct1 [OF 3]] by simp
  have "\<exists>auth\<in>Au. mentions A k auth" if k: "k \<in> K" for k
  proof -
    obtain b where "(k, b) \<in> set (provided_signatures s3)" using k keys by force
    moreover from this have "b" using s(4) unfolding remove_unused_none by blast
    ultimately show ?thesis using conjunct1 [OF 3] by (auto simp: sign_inv_def)
  qed
  then show ?thesis using 1 2 3 c by blast
qed

subsection \<open>Properties\<close>

text \<open>
  C13: A transaction that passes \<open>verify_authority\<close> is authorised. Every further authority is
  satisfied by the keys that signed; every account whose active authority is required approves,
  through its active authority at some depth of nested accounts or through its owner authority;
  every account whose owner authority is required gave an owner approval or its owner authority
  is satisfied; the committee account is not required unless it is allowed; and each of the
  signatures belongs to a key that occurs in one of the authorities.
\<close>

theorem verify_authority_sound:
  assumes "verify_authority A required get_owner ops sigs depth allow act own = Inr ()"
  shows "let (ra, ro, other) = get_required_authorities required ops ([], [], []);
      K = set sigs; B = given_approvals act own in
    (\<forall>auth\<in>set other. satisfied A K B (Some auth)) \<and>
    (\<forall>i\<in>set ra. approvable A K B i \<or> satisfied A K B (get_owner i)) \<and>
    (\<forall>i\<in>set ro. i \<in> set own \<or> satisfied A K B (get_owner i)) \<and>
    (\<forall>k\<in>K. \<exists>auth\<in>account_authorities A get_owner \<union> set other. mentions A k auth) \<and>
    (allow \<or> GRAPHENE_COMMITTEE_ACCOUNT \<notin> set ra)"
proof -
  obtain ra ro other where r: "get_required_authorities required ops ([], [], []) = (ra, ro, other)"
    by (cases "get_required_authorities required ops ([], [], [])") auto
  from verify_authority_steps [OF assms this refl refl refl] show ?thesis unfolding r Let_def prod.case .
qed

text \<open>
  An example: account 11 is controlled by two keys with threshold 2, account 10 by account 11.
\<close>

definition example_active :: "account_id_type \<Rightarrow> authority option" where
  "example_active x =
     (if x = 10 then Some \<lparr>weight_threshold = 1, account_auths = [(11, 1)], key_auths = [], address_auths = []\<rparr>
      else if x = 11 then Some \<lparr>weight_threshold = 2, account_auths = [], key_auths = [(100, 1), (101, 1)], address_auths = []\<rparr>
      else None)"

definition example_env :: sign_env where
  "example_env = \<lparr>get_active = example_active, addresses_of = (\<lambda>k. [k + 1000])\<rparr>"

definition example_required :: "account_id_type \<Rightarrow> required_auths \<Rightarrow> required_auths" where
  "example_required x r = (fs_insert x (fst r), snd r)"

theorem verify_authority_sound_witness:
  "verify_authority example_env example_required (\<lambda>_. None) [10] [100, 101] (Suc (Suc 0)) False [] [] = Inr () \<and>
   approvable example_env {100, 101} {GRAPHENE_TEMP_ACCOUNT} 10"
proof -
  have v: "verify_authority example_env example_required (\<lambda>_. None) [10] [100, 101] (Suc (Suc 0)) False [] [] = Inr ()"
    by (simp add: verify_authority_def get_required_authorities_def example_required_def make_sign_state_def
        GRAPHENE_TEMP_ACCOUNT_def GRAPHENE_COMMITTEE_ACCOUNT_def check_active_def check_account_def
        check_authority_body_def account_approves_def signed_by_key_def mark_used_def remove_unused_signatures_def
        example_env_def example_active_def Let_def)
  from verify_authority_sound [OF v] show ?thesis
    using v by (simp add: get_required_authorities_def example_required_def given_approvals_def satisfied_def)
qed

text \<open>
  C15: Enough signatures are accepted: when the authorities hold no addresses and their weights
  fit 32 bits, a check never fails with an exception, and it succeeds on every authority that
  is reached by the provided keys, the available keys and the approved accounts through at most
  as many levels of accounts as the recursion allows.
\<close>

theorem check_authority_complete:
  assumes "\<forall>x. set_option (get_active A x) \<subseteq> Au" and "\<forall>auth\<in>Au. plain_authority auth" and "auth \<in> Au"
  shows "\<exists>b s'. check_authority A levels (Some auth) (make_sign_state sigs keys) = Inr (b, s') \<and>
    (reaches A (set sigs \<union> set keys) {GRAPHENE_TEMP_ACCOUNT} levels auth \<longrightarrow> b)"
  using check_authority_descend_total [OF assms(1,2), of "set sigs \<union> set keys" "{GRAPHENE_TEMP_ACCOUNT}" levels]
    fresh_sign_inv [of A sigs keys Au] assms(3)
  unfolding descend_total_def by (metis empty_subsetI insert_subset option.set(2))

theorem check_authority_complete_witness:
  "\<exists>s'. check_authority example_env 1 (example_active 10) (make_sign_state [100, 101] []) = Inr (True, s')"
proof -
  let ?a = "\<lparr>weight_threshold = 1, account_auths = [(11, 1)], key_auths = [], address_auths = []\<rparr> :: authority"
  let ?b = "\<lparr>weight_threshold = 2, account_auths = [], key_auths = [(100, 1), (101, 1)], address_auths = []\<rparr> :: authority"
  have r: "reaches example_env (set [100, 101] \<union> set []) {GRAPHENE_TEMP_ACCOUNT} 1 ?a"
    by (simp add: auth_weight_def example_env_def example_active_def)
  have act: "\<forall>x. set_option (get_active example_env x) \<subseteq> {?a, ?b}"
    by (simp add: example_env_def example_active_def)
  have plain: "\<forall>auth\<in>{?a, ?b}. plain_authority auth" by (simp add: plain_authority_def)
  have "example_active 10 = Some ?a" by (simp add: example_active_def)
  then show ?thesis
    using check_authority_complete [OF act plain, of ?a 1 "[100, 101]" "[]"] r by (metis insertI1)
qed

text \<open>
  A check of an authority with an address that belongs to none of the signing or available
  keys has undefined behaviour, unless the keys listed before it already reach the threshold:
  the source dereferences the end of the map of provided addresses. In particular the check
  does not return false for such an authority.
\<close>

theorem unsigned_address_undefined:
  assumes "address_auths auth = (a, w) # rest" and "\<not> address_known A (set sigs \<union> set keys) a"
    and "weight_of (\<lambda>k. k \<in> set sigs \<union> set keys) (key_auths auth) < weight_threshold auth"
    and "sum_list (map snd (key_auths auth)) < 2 ^ 32"
  shows "check_authority A levels (Some auth) (make_sign_state sigs keys) = Inl Undefined_behaviour"
proof -
  let ?K = "set sigs \<union> set keys" let ?s = "make_sign_state sigs keys"
  have i: "sign_inv A ?K {GRAPHENE_TEMP_ACCOUNT} {auth} ?s" by (rule fresh_sign_inv)
  have e: "\<forall>x\<in>fst ` set (key_auths auth). \<exists>au\<in>{auth}. x \<in> fst ` set (key_auths au)" by simp
  obtain st t s1 where 1: "weigh (\<lambda>k s. Inr (signed_by_key k s)) (weight_threshold auth) (key_auths auth) 0 ?s = Inr (st, t, s1)"
    using kwt.weigh_total [OF i e, of 0 "weight_threshold auth"] assms(4) by auto
  have "sign_inv A ?K {GRAPHENE_TEMP_ACCOUNT} {auth} s1" "\<not> st"
    using kw.weigh_sound [OF 1 i e] assms(3) by auto
  moreover from signed_by_address_sound [OF this(1), of a] assms(1,2)
  have "signed_by_address A a s1 = Inl Undefined_behaviour" by simp
  ultimately have "check_authority_body A d (Some auth) ?s = Inl Undefined_behaviour" for d
    using 1 assms(1) by (simp add: check_authority_body_def)
  then show ?thesis by (cases levels) simp_all
qed

theorem unsigned_address_undefined_witness:
  "check_authority example_env 2 (Some \<lparr>weight_threshold = 1, account_auths = [], key_auths = [],
     address_auths = [(5, 1)]\<rparr>) (make_sign_state [100] []) = Inl Undefined_behaviour"
  using unsigned_address_undefined [of "\<lparr>weight_threshold = 1, account_auths = [], key_auths = [],
     address_auths = [(5, 1)]\<rparr>" 5 1 "[]" example_env "[100]" "[]" 2]
  by (simp add: address_known_def example_env_def)

end
