(* ===== verification/Fork_Database.thy ===== *)
theory Fork_Database
  imports Chain_Prelude
begin

text \<open>
  Blocks (\<open>libraries/chain/protocol/block.cpp\<close>) and the fork database
  (\<open>libraries/chain/fork_database.cpp\<close>).

  Hashes and the byte swap are functions of the \<open>fc\<close> library and are the fields of
  \<open>block_env\<close>. A \<open>shared_ptr<fork_item>\<close> is a position in the list of all items ever made; an
  item is alive while the index, the cache of unlinked blocks or the head refers to it, and only
  then does locking a \<open>weak_ptr\<close> to it succeed. The index is kept sorted by block number, in
  the order of insertion among equal numbers, as its ordered view is; its uniqueness by
  identifier is checked at insertion.
\<close>

subsection \<open>Blocks\<close>

datatype block_id_type = Block_id (id_hash0: "32 word") (id_rest: "128 word")

record 'tx signed_block =
  previous :: block_id_type
  timestamp :: nat
  block_witness :: nat
  transaction_merkle_root :: nat
  witness_signature :: nat
  transactions :: "'tx list"

record 'tx block_env =
  endian_reverse_u32 :: "32 word \<Rightarrow> 32 word"
  sha224_rest :: "'tx signed_block \<Rightarrow> 128 word"

text \<open>The documented behaviour of the byte swap that the block numbers rest on.\<close>

definition block_env_contract :: "'tx block_env \<Rightarrow> bool" where
  "block_env_contract H \<longleftrightarrow> (\<forall>w. endian_reverse_u32 H (endian_reverse_u32 H w) = w)"

definition num_from_id :: "'tx block_env \<Rightarrow> block_id_type \<Rightarrow> nat" where
  "num_from_id H i = unat (endian_reverse_u32 H (id_hash0 i))"

definition block_num :: "'tx block_env \<Rightarrow> 'tx signed_block \<Rightarrow> nat" where
  "block_num H b = unat (endian_reverse_u32 H (id_hash0 (previous b)) + 1)"

definition block_id :: "'tx block_env \<Rightarrow> 'tx signed_block \<Rightarrow> block_id_type" where
  "block_id H b = Block_id (endian_reverse_u32 H (word_of_nat (block_num H b))) (sha224_rest H b)"

definition null_block_id :: block_id_type where
  "null_block_id = Block_id 0 0"

subsection \<open>The Merkle root of a block\<close>

text \<open>
  One round: \<open>ids[k++] = hash(ids[i], ids[i+1])\<close> for even \<open>i\<close> below \<open>i_max\<close>, in place.
\<close>

function merkle_round :: "('d \<times> 'd \<Rightarrow> 'd) \<Rightarrow> nat \<Rightarrow> nat \<Rightarrow> nat \<Rightarrow> 'd list \<Rightarrow> 'd list \<times> nat" where
  "merkle_round h i_max i k ids =
     (if i < i_max then merkle_round h i_max (i + 2) (k + 1) (ids[k := h (ids ! i, ids ! (i + 1))]) else (ids, k))"
  by pat_completeness auto
termination by (relation "measure (\<lambda>(h, i_max, i, k, ids). i_max - i)") auto

declare merkle_round.simps [simp del]

lemma merkle_round_count: "snd (merkle_round h i_max i k ids) = k + (i_max - i + 1) div 2"
proof (induction h i_max i k ids rule: merkle_round.induct)
  case (1 h i_max i k ids)
  show ?case
  proof (cases "i < i_max")
    case True
    then have "(i_max - (i + 2) + 1) div 2 + 1 = (i_max - i + 1) div 2" by presburger
    then show ?thesis using True 1 by (subst merkle_round.simps) simp
  qed (subst merkle_round.simps, simp)
qed

definition merkle_step :: "('d \<times> 'd \<Rightarrow> 'd) \<Rightarrow> nat \<Rightarrow> 'd list \<Rightarrow> 'd list \<times> nat" where
  "merkle_step h n ids =
     (let i_max = n - n mod 2; (ids, k) = merkle_round h i_max 0 0 ids
      in if n mod 2 = 1 then (ids[k := ids ! i_max], k + 1) else (ids, k))"

lemma merkle_step_count: "snd (merkle_step h n ids) = (n + 1) div 2"
proof -
  have "(n - n mod 2 + 1) div 2 + n mod 2 = (n + 1) div 2" by presburger
  then show ?thesis
    using merkle_round_count [of h "n - n mod 2" 0 0 ids] by (auto simp: merkle_step_def Let_def split: prod.splits)
qed

function merkle_loop :: "('d \<times> 'd \<Rightarrow> 'd) \<Rightarrow> nat \<Rightarrow> 'd list \<Rightarrow> 'd list" where
  "merkle_loop h n ids =
     (if 1 < n then merkle_loop h (snd (merkle_step h n ids)) (fst (merkle_step h n ids)) else ids)"
  by pat_completeness auto
termination
proof (relation "measure (\<lambda>(h, n, ids). n)")
  fix h :: "'d \<times> 'd \<Rightarrow> 'd" and n :: nat and ids :: "'d list"
  assume "1 < n"
  then have "(n + 1) div 2 < n" by linarith
  then show "((h, snd (merkle_step h n ids), fst (merkle_step h n ids)), (h, n, ids)) \<in> measure (\<lambda>(h, n, ids). n)"
    by (simp add: merkle_step_count)
qed simp

declare merkle_loop.simps [simp del]

definition calculate_merkle_root ::
    "('tx \<Rightarrow> 'd) \<Rightarrow> ('d \<times> 'd \<Rightarrow> 'd) \<Rightarrow> ('d \<Rightarrow> 'c) \<Rightarrow> 'c \<Rightarrow> 'tx signed_block \<Rightarrow> 'c" where
  "calculate_merkle_root merkle_digest hash_pair hash_root empty_checksum b =
     (if length (transactions b) = 0 then empty_checksum
      else let ids = map merkle_digest (transactions b)
           in hash_root (merkle_loop hash_pair (length ids) ids ! 0))"

subsection \<open>The fork database\<close>

type_synonym item_ptr = nat

record 'tx fork_item =
  fi_prev :: "item_ptr option"
  fi_num :: nat
  fi_invalid :: bool
  fi_id :: block_id_type
  fi_data :: "'tx signed_block"

record 'tx fork_database =
  fk_items :: "'tx fork_item list"
  fk_index :: "item_ptr list"
  fk_unlinked :: "item_ptr list"
  fk_head :: "item_ptr option"
  fk_max_size :: nat

definition make_fork_database :: "'tx fork_database" where
  "make_fork_database = \<lparr>fk_items = [], fk_index = [], fk_unlinked = [], fk_head = None, fk_max_size = 1024\<rparr>"

definition make_fork_item :: "'tx block_env \<Rightarrow> 'tx signed_block \<Rightarrow> 'tx fork_item" where
  "make_fork_item H b = \<lparr>fi_prev = None, fi_num = block_num H b, fi_invalid = False, fi_id = block_id H b, fi_data = b\<rparr>"

abbreviation item :: "'tx fork_database \<Rightarrow> item_ptr \<Rightarrow> 'tx fork_item" where
  "item f p \<equiv> fk_items f ! p"

definition alive :: "'tx fork_database \<Rightarrow> item_ptr \<Rightarrow> bool" where
  "alive f p \<longleftrightarrow> p \<in> set (fk_index f) \<or> p \<in> set (fk_unlinked f) \<or> fk_head f = Some p"

definition lock_prev :: "'tx fork_database \<Rightarrow> item_ptr \<Rightarrow> item_ptr option" where
  "lock_prev f p =
     (case fi_prev (item f p) of None \<Rightarrow> None | Some q \<Rightarrow> if alive f q then Some q else None)"

definition find_id :: "'tx fork_database \<Rightarrow> block_id_type \<Rightarrow> item_ptr option" where
  "find_id f i = find (\<lambda>p. fi_id (item f p) = i) (fk_index f)"

definition find_unlinked :: "'tx fork_database \<Rightarrow> block_id_type \<Rightarrow> item_ptr option" where
  "find_unlinked f i = find (\<lambda>p. fi_id (item f p) = i) (fk_unlinked f)"

text \<open>Insertion behind the last item whose number is not greater.\<close>

definition insert_by_num :: "(item_ptr \<Rightarrow> nat) \<Rightarrow> item_ptr \<Rightarrow> item_ptr list \<Rightarrow> item_ptr list" where
  "insert_by_num num p ps = takeWhile (\<lambda>q. num q \<le> num p) ps @ p # dropWhile (\<lambda>q. num q \<le> num p) ps"

definition index_insert :: "item_ptr \<Rightarrow> 'tx fork_database \<Rightarrow> 'tx fork_database" where
  "index_insert p f =
     (if find_id f (fi_id (item f p)) = None
      then f\<lparr>fk_index := insert_by_num (\<lambda>q. fi_num (item f q)) p (fk_index f)\<rparr> else f)"

text \<open>A new item; its pointer is the first free position.\<close>

definition new_item :: "'tx fork_item \<Rightarrow> 'tx fork_database \<Rightarrow> item_ptr \<times> 'tx fork_database" where
  "new_item it f = (length (fk_items f), f\<lparr>fk_items := fk_items f @ [it]\<rparr>)"

definition fork_reset :: "'tx fork_database \<Rightarrow> 'tx fork_database" where
  "fork_reset f = f\<lparr>fk_head := None, fk_index := []\<rparr>"

definition fork_pop_block :: "'tx fork_database \<Rightarrow> 'tx fork_database res" where
  "fork_pop_block f =
     (case fk_head f of None \<Rightarrow> throwE (Assert_exception ''no blocks to pop'')
      | Some h \<Rightarrow> (case lock_prev f h of
          None \<Rightarrow> throwE (Assert_exception ''poping block would leave head block null'')
        | Some p \<Rightarrow> Inr (f\<lparr>fk_head := Some p\<rparr>)))"

definition start_block :: "'tx block_env \<Rightarrow> 'tx signed_block \<Rightarrow> 'tx fork_database \<Rightarrow> 'tx fork_database" where
  "start_block H b f =
     (let (p, f) = new_item (make_fork_item H b) f in (index_insert p f)\<lparr>fk_head := Some p\<rparr>)"

definition erase_below :: "(item_ptr \<Rightarrow> nat) \<Rightarrow> nat \<Rightarrow> item_ptr list \<Rightarrow> item_ptr list" where
  "erase_below num n ps = dropWhile (\<lambda>p. num p < n) ps"

definition link_item :: "item_ptr \<Rightarrow> 'tx fork_database \<Rightarrow> 'tx fork_database res" where
  "link_item p f =
     (if fk_head f \<noteq> None \<and> previous (fi_data (item f p)) \<noteq> null_block_id then
        (case find_id f (previous (fi_data (item f p))) of
           None \<Rightarrow> throwE Unlinkable_block
         | Some q \<Rightarrow>
             bindE (assertE (\<not> fi_invalid (item f q)) ''!(*itr)->invalid'') (\<lambda>_.
             Inr (f\<lparr>fk_items := (fk_items f)[p := (item f p)\<lparr>fi_prev := Some q\<rparr>]\<rparr>)))
      else Inr f)"

text \<open>
  The key of the last erasure, \<open>_head->num - _max_size\<close>, is computed in 32 bits.
\<close>

definition push_item :: "item_ptr \<Rightarrow> 'tx fork_database \<Rightarrow> 'tx fork_database res" where
  "push_item p f =
     bindE (case fk_head f of None \<Rightarrow> Inr ()
            | Some h \<Rightarrow> assertE (max 0 (int (fi_num (item f h)) - int (fk_max_size f)) < int (fi_num (item f p)))
                         ''attempting to push a block that is too old'') (\<lambda>_.
     bindE (link_item p f) (\<lambda>f.
     let f' = index_insert p f in
     case fk_head f of
       None \<Rightarrow> Inr (f'\<lparr>fk_head := Some p\<rparr>)
     | Some h \<Rightarrow>
         if fi_num (item f h) < fi_num (item f p) then
           let n = fi_num (item f p);
               min_num = n - min (fk_max_size f) n;
               num = (\<lambda>q. fi_num (item f' q));
               erased = nat ((int n - int (fk_max_size f)) mod 2 ^ 32)
           in Inr (f'\<lparr>fk_head := Some p, fk_index := erase_below num min_num (fk_index f'),
                      fk_unlinked := filter (\<lambda>q. num q \<noteq> erased) (fk_unlinked f')\<rparr>)
         else Inr f'))"

text \<open>
  A block that does not link is not cached: the handler throws before the insertion into the
  cache of unlinked blocks. On an exception the new item is dropped and the database is the one
  before the call, as the linking and the checks precede every change.
\<close>

definition fork_push_block ::
    "'tx block_env \<Rightarrow> 'tx signed_block \<Rightarrow> 'tx fork_database \<Rightarrow> (item_ptr option \<times> 'tx fork_database) res" where
  "fork_push_block H b f =
     (let (p, f) = new_item (make_fork_item H b) f
      in bindE (push_item p f) (\<lambda>f'. Inr (fk_head f', f')))"

definition set_max_size :: "nat \<Rightarrow> 'tx fork_database \<Rightarrow> 'tx fork_database" where
  "set_max_size s f =
     (let f = f\<lparr>fk_max_size := s\<rparr> in
      case fk_head f of None \<Rightarrow> f
      | Some h \<Rightarrow>
          let n = nat (max 0 (int (fi_num (item f h)) - int s)); num = (\<lambda>q. fi_num (item f q))
          in f\<lparr>fk_index := erase_below num n (fk_index f), fk_unlinked := erase_below num n (fk_unlinked f)\<rparr>)"

definition is_known_block :: "'tx fork_database \<Rightarrow> block_id_type \<Rightarrow> bool" where
  "is_known_block f i \<longleftrightarrow> find_id f i \<noteq> None \<or> find_unlinked f i \<noteq> None"

definition fetch_block :: "'tx fork_database \<Rightarrow> block_id_type \<Rightarrow> item_ptr option" where
  "fetch_block f i = (case find_id f i of Some p \<Rightarrow> Some p | None \<Rightarrow> find_unlinked f i)"

definition fetch_block_by_number :: "'tx fork_database \<Rightarrow> nat \<Rightarrow> item_ptr list" where
  "fetch_block_by_number f n =
     takeWhile (\<lambda>p. fi_num (item f p) = n) (dropWhile (\<lambda>p. fi_num (item f p) < n) (fk_index f))"

definition fork_set_head :: "item_ptr option \<Rightarrow> 'tx fork_database \<Rightarrow> 'tx fork_database" where
  "fork_set_head h f = f\<lparr>fk_head := h\<rparr>"

definition fork_remove :: "block_id_type \<Rightarrow> 'tx fork_database \<Rightarrow> 'tx fork_database" where
  "fork_remove i f = f\<lparr>fk_index := filter (\<lambda>p. fi_id (item f p) \<noteq> i) (fk_index f)\<rparr>"

text \<open>
  The loops of \<open>fetch_branch_from\<close>; \<open>None\<close> stands for a loop that does not end. The branch
  is collected in the accumulator.
\<close>

definition prev_item :: "'tx fork_database \<Rightarrow> item_ptr \<Rightarrow> item_ptr res" where
  "prev_item f p = (case lock_prev f p of None \<Rightarrow> throwE (Assert_exception ''first_branch'') | Some q \<Rightarrow> Inr q)"

partial_function (option) walk_down ::
    "'tx block_env \<Rightarrow> 'tx fork_database \<Rightarrow> nat \<Rightarrow> item_ptr \<Rightarrow> item_ptr list \<Rightarrow> (item_ptr \<times> item_ptr list) res option" where
  "walk_down H f n p acc =
     (if n < block_num H (fi_data (item f p)) then
        (case prev_item f p of Inl e \<Rightarrow> Some (Inl e) | Inr q \<Rightarrow> walk_down H f n q (acc @ [p]))
      else Some (Inr (p, acc)))"

partial_function (option) walk_both ::
    "'tx fork_database \<Rightarrow> item_ptr \<Rightarrow> item_ptr \<Rightarrow> item_ptr list \<Rightarrow> item_ptr list \<Rightarrow>
     (item_ptr list \<times> item_ptr list) res option" where
  "walk_both f p q a b =
     (if previous (fi_data (item f p)) \<noteq> previous (fi_data (item f q)) then
        (case prev_item f p of Inl e \<Rightarrow> Some (Inl e)
         | Inr p' \<Rightarrow> (case prev_item f q of Inl e \<Rightarrow> Some (Inl e)
                      | Inr q' \<Rightarrow> walk_both f p' q' (a @ [p]) (b @ [q])))
      else Some (Inr (a @ [p], b @ [q])))"

definition fetch_branch_from ::
    "'tx block_env \<Rightarrow> 'tx fork_database \<Rightarrow> block_id_type \<Rightarrow> block_id_type \<Rightarrow>
     (item_ptr list \<times> item_ptr list) res option" where
  "fetch_branch_from H f first second =
     (case (find_id f first, find_id f second) of
        (Some p, Some q) \<Rightarrow>
          (case walk_down H f (block_num H (fi_data (item f q))) p [] of
             None \<Rightarrow> None
           | Some (Inl e) \<Rightarrow> Some (Inl e)
           | Some (Inr (p, a)) \<Rightarrow>
               (case walk_down H f (block_num H (fi_data (item f p))) q [] of
                  None \<Rightarrow> None
                | Some (Inl e) \<Rightarrow> Some (Inl e)
                | Some (Inr (q, b)) \<Rightarrow> walk_both f p q a b))
      | _ \<Rightarrow> Some (throwE (Assert_exception ''branch_itr != end'')))"

subsection \<open>The Merkle root is the root of a hash tree\<close>

fun pair_up :: "('d \<times> 'd \<Rightarrow> 'd) \<Rightarrow> 'd list \<Rightarrow> 'd list" where
  "pair_up h (x # y # xs) = h (x, y) # pair_up h xs"
| "pair_up h xs = xs"

lemma length_pair_up [simp]: "length (pair_up h xs) = (length xs + 1) div 2"
  by (induction h xs rule: pair_up.induct) auto

function merkle_ref :: "('d \<times> 'd \<Rightarrow> 'd) \<Rightarrow> 'd list \<Rightarrow> 'd" where
  "merkle_ref h xs = (if 1 < length xs then merkle_ref h (pair_up h xs) else xs ! 0)"
  by pat_completeness auto
termination by (relation "measure (\<lambda>(h, xs). length xs)") auto

declare merkle_ref.simps [simp del]

lemma merkle_round_spec:
  assumes "even (i_max - i)" and "i \<le> i_max" and "i_max \<le> length ids" and "k \<le> i"
  shows "length (fst (merkle_round h i_max i k ids)) = length ids \<and>
    take (snd (merkle_round h i_max i k ids)) (fst (merkle_round h i_max i k ids))
      = take k ids @ pair_up h (take (i_max - i) (drop i ids)) \<and>
    drop i_max (fst (merkle_round h i_max i k ids)) = drop i_max ids"
  using assms
proof (induction h i_max i k ids rule: merkle_round.induct)
  case (1 h i_max i k ids)
  show ?case
  proof (cases "i < i_max")
    case True
    have lt: "i + 1 < i_max" using True "1.prems"(1,2) by presburger
    let ?ids = "ids[k := h (ids ! i, ids ! (i + 1))]"
    have ih: "length (fst (merkle_round h i_max (i + 2) (k + 1) ?ids)) = length ids"
      "take (snd (merkle_round h i_max (i + 2) (k + 1) ?ids)) (fst (merkle_round h i_max (i + 2) (k + 1) ?ids))
        = take (k + 1) ?ids @ pair_up h (take (i_max - (i + 2)) (drop (i + 2) ids))"
      "drop i_max (fst (merkle_round h i_max (i + 2) (k + 1) ?ids)) = drop i_max ids"
      using "1.IH" [OF True] "1.prems" lt by auto
    have "drop i ids = ids ! i # ids ! (i + 1) # drop (i + 2) ids"
      using lt "1.prems"(3) by (simp add: Cons_nth_drop_Suc)
    moreover obtain m where "i_max - i = Suc (Suc m)" "i_max - (i + 2) = m"
      using lt by (metis Suc_diff_Suc add_2_eq_Suc' Suc_eq_plus1 True)
    moreover have "take (k + 1) ?ids = take k ids @ [h (ids ! i, ids ! (i + 1))]"
      using "1.prems"(3,4) True by (simp add: take_Suc_conv_app_nth)
    ultimately show ?thesis using True ih by (subst (1 2 3 4) merkle_round.simps) simp
  qed (use "1.prems" in \<open>subst (1 2 3 4) merkle_round.simps, simp\<close>)
qed

lemma pair_up_odd: "even (length xs) \<Longrightarrow> pair_up h (xs @ [x]) = pair_up h xs @ [x]"
  by (induction h xs rule: pair_up.induct) auto

lemma merkle_step_spec:
  assumes "n \<le> length ids"
  shows "length (fst (merkle_step h n ids)) = length ids \<and>
    take ((n + 1) div 2) (fst (merkle_step h n ids)) = pair_up h (take n ids)"
proof -
  let ?m = "n - n mod 2"
  obtain ids' k where r: "merkle_round h ?m 0 0 ids = (ids', k)" by fastforce
  have sp: "length ids' = length ids" "take k ids' = pair_up h (take ?m ids)" "drop ?m ids' = drop ?m ids"
    using merkle_round_spec [of ?m 0 ids 0 h] assms by (auto simp: r)
  have k: "k = (?m + 1) div 2" using merkle_round_count [of h ?m 0 0 ids] by (simp add: r)
  show ?thesis
  proof (cases "n mod 2 = 1")
    case True
    then have n: "n = Suc ?m" "even ?m" "k = ?m div 2" "k \<le> ?m" using k by presburger+
    have len: "?m < length ids" using n(1) assms by linarith
    have "ids' ! ?m = drop ?m ids' ! 0" "ids ! ?m = drop ?m ids ! 0" using len sp(1) by simp_all
    then have "ids' ! ?m = ids ! ?m" by (simp only: sp(3))
    moreover have "take n ids = take ?m ids @ [ids ! ?m]"
      using take_Suc_conv_app_nth [OF len] unfolding n(1) [symmetric] .
    moreover have "pair_up h (take ?m ids @ [ids ! ?m]) = pair_up h (take ?m ids) @ [ids ! ?m]"
      using n(2) assms by (intro pair_up_odd) simp
    moreover have "(n + 1) div 2 = Suc k" using True unfolding k by presburger
    moreover have "take (Suc k) (ids'[k := v]) = take k ids' @ [v]" for v
      using n(4) len sp(1) by (simp add: take_Suc_conv_app_nth)
    ultimately show ?thesis using True r sp(1,2) by (simp add: merkle_step_def Let_def)
  next
    case False
    then have "n mod 2 = 0" by simp
    then show ?thesis using r sp k by (simp add: merkle_step_def Let_def)
  qed
qed

lemma merkle_loop_ref: "0 < n \<Longrightarrow> n \<le> length ids \<Longrightarrow> merkle_loop h n ids ! 0 = merkle_ref h (take n ids)"
proof (induction h n ids rule: merkle_loop.induct)
  case (1 h n ids)
  show ?case
  proof (cases "1 < n")
    case True
    let ?r = "merkle_step h n ids"
    have "0 < snd ?r" "snd ?r \<le> length (fst ?r)"
      using True "1.prems" by (auto simp: merkle_step_count merkle_step_spec)
    from "1.IH" [OF True this]
    have "merkle_loop h (snd ?r) (fst ?r) ! 0 = merkle_ref h (pair_up h (take n ids))"
      using conjunct2 [OF merkle_step_spec [OF "1.prems"(2), of h]] unfolding merkle_step_count by simp
    then show ?thesis
      using True "1.prems" by (subst merkle_loop.simps, subst merkle_ref.simps) simp
  next
    case False
    then show ?thesis using "1.prems" by (subst merkle_loop.simps, subst merkle_ref.simps) simp
  qed
qed

datatype 'd mtree = MLeaf 'd | MNode "'d mtree" "'d mtree"

primrec mleaves :: "'d mtree \<Rightarrow> 'd list" where
  "mleaves (MLeaf d) = [d]"
| "mleaves (MNode l r) = mleaves l @ mleaves r"

primrec meval :: "('d \<times> 'd \<Rightarrow> 'd) \<Rightarrow> 'd mtree \<Rightarrow> 'd" where
  "meval h (MLeaf d) = d"
| "meval h (MNode l r) = h (meval h l, meval h r)"

lemma pair_up_trees:
  "\<exists>us. pair_up h (map (meval h) ts) = map (meval h) us \<and> concat (map mleaves us) = concat (map mleaves ts)"
proof (induction ts rule: induct_list012)
  case (3 x y zs)
  then obtain us where "pair_up h (map (meval h) zs) = map (meval h) us" "concat (map mleaves us) = concat (map mleaves zs)"
    by blast
  then show ?case by (intro exI [of _ "MNode x y # us"]) simp
next
  case (2 x)
  show ?case by (intro exI [of _ "[x]"]) simp
qed simp

lemma merkle_ref_tree:
  assumes "ts \<noteq> []"
  shows "\<exists>t. meval h t = merkle_ref h (map (meval h) ts) \<and> mleaves t = concat (map mleaves ts)"
  using assms
proof (induction "length ts" arbitrary: ts rule: less_induct)
  case less
  show ?case
  proof (cases "1 < length ts")
    case True
    obtain us where us: "pair_up h (map (meval h) ts) = map (meval h) us" "concat (map mleaves us) = concat (map mleaves ts)"
      using pair_up_trees by blast
    have "length us = (length ts + 1) div 2" using arg_cong [OF us(1), of length] by simp
    then have "length us < length ts" "us \<noteq> []" using True by auto
    from less.hyps [OF this] us show ?thesis using True by (subst merkle_ref.simps) simp
  next
    case False
    then obtain t where "ts = [t]" using less.prems by (cases ts) auto
    then show ?thesis by (subst merkle_ref.simps) auto
  qed
qed

subsection \<open>The invariant of the fork database\<close>

definition item_ok :: "'tx block_env \<Rightarrow> 'tx fork_item list \<Rightarrow> item_ptr \<Rightarrow> bool" where
  "item_ok H its p \<longleftrightarrow>
     fi_num (its ! p) = block_num H (fi_data (its ! p)) \<and> fi_id (its ! p) = block_id H (fi_data (its ! p)) \<and>
     (\<forall>q. fi_prev (its ! p) = Some q \<longrightarrow> q < p \<and> fi_id (its ! q) = previous (fi_data (its ! p)))"

definition fork_inv :: "'tx block_env \<Rightarrow> 'tx fork_database \<Rightarrow> bool" where
  "fork_inv H f \<longleftrightarrow>
     (\<forall>p<length (fk_items f). item_ok H (fk_items f) p) \<and>
     (\<forall>p. alive f p \<longrightarrow> p < length (fk_items f)) \<and>
     sorted_wrt (\<lambda>p q. fi_num (item f p) \<le> fi_num (item f q)) (fk_index f) \<and>
     distinct (map (\<lambda>p. fi_id (item f p)) (fk_index f))"

lemma fork_invD:
  assumes "fork_inv H f"
  shows "p < length (fk_items f) \<Longrightarrow> item_ok H (fk_items f) p" and "alive f p \<Longrightarrow> p < length (fk_items f)"
  using assms by (auto simp: fork_inv_def)

lemma item_ok_append: "item_ok H its p \<Longrightarrow> p < length its \<Longrightarrow> item_ok H (its @ xs) p"
  by (auto simp: item_ok_def nth_append)

lemma make_item_ok: "item_ok H (its @ [make_fork_item H b]) (length its)"
  by (simp add: item_ok_def make_fork_item_def)

lemma alive_simps [simp]: "p \<in> set (fk_index f) \<Longrightarrow> alive f p" "p \<in> set (fk_unlinked f) \<Longrightarrow> alive f p"
  "fk_head f = Some p \<Longrightarrow> alive f p"
  by (simp_all add: alive_def)

lemma find_id_Some: "find_id f i = Some p \<Longrightarrow> p \<in> set (fk_index f) \<and> fi_id (item f p) = i"
  by (auto simp: find_id_def find_Some_iff)

lemma find_id_None: "find_id f i = None \<longleftrightarrow> (\<forall>p\<in>set (fk_index f). fi_id (item f p) \<noteq> i)"
  by (auto simp: find_id_def find_None_iff)

text \<open>Linking and adding items do not disturb what is read through the index.\<close>

definition same_items :: "'tx fork_database \<Rightarrow> 'tx fork_item list \<Rightarrow> bool" where
  "same_items f its \<longleftrightarrow> length (fk_items f) \<le> length its \<and>
     (\<forall>p<length (fk_items f). fi_num (its ! p) = fi_num (item f p) \<and> fi_id (its ! p) = fi_id (item f p))"

lemma fork_inv_index:
  assumes "fork_inv H f"
  shows "sorted_wrt (\<lambda>p q. fi_num (item f p) \<le> fi_num (item f q)) (fk_index f)"
    and "distinct (map (\<lambda>p. fi_id (item f p)) (fk_index f))" and "distinct (fk_index f)"
  using assms by (auto simp: fork_inv_def distinct_map)

lemma sorted_insert_by_num:
  assumes "sorted_wrt (\<lambda>p q. num p \<le> num q) ps"
  shows "sorted_wrt (\<lambda>p q. num p \<le> num q) (insert_by_num num p ps)"
proof -
  define t d where td: "t = takeWhile (\<lambda>q. num q \<le> num p) ps" "d = dropWhile (\<lambda>q. num q \<le> num p) ps"
  have "sorted_wrt (\<lambda>p q. num p \<le> num q) (t @ d)" using assms by (simp add: td)
  then have s: "sorted_wrt (\<lambda>p q. num p \<le> num q) t" "sorted_wrt (\<lambda>p q. num p \<le> num q) d"
      "\<forall>x\<in>set t. \<forall>y\<in>set d. num x \<le> num y"
    unfolding sorted_wrt_append by blast+
  have "\<forall>y\<in>set d. num p \<le> num y"
  proof (cases d)
    case (Cons y ys)
    then have "num p < num y" unfolding td by (metis dropWhile_eq_Cons_conv not_le)
    then show ?thesis using s(2) Cons by auto
  qed simp
  moreover have "\<forall>x\<in>set t. num x \<le> num p" unfolding td by (auto dest: set_takeWhileD)
  ultimately have "sorted_wrt (\<lambda>p q. num p \<le> num q) (t @ p # d)" using s by (auto simp: sorted_wrt_append)
  then show ?thesis by (simp add: insert_by_num_def td)
qed

lemma set_insert_by_num [simp]: "set (insert_by_num num p ps) = insert p (set ps)"
proof -
  have "set (insert_by_num num p ps) =
      insert p (set (takeWhile (\<lambda>q. num q \<le> num p) ps @ dropWhile (\<lambda>q. num q \<le> num p) ps))"
    unfolding insert_by_num_def set_append by simp
  then show ?thesis by (simp only: takeWhile_dropWhile_id)
qed

lemma mset_insert_by_num: "distinct (map g (insert_by_num num p ps)) \<longleftrightarrow> distinct (map g (p # ps))"
proof -
  have "distinct (map g (xs @ p # ys)) \<longleftrightarrow> distinct (map g (p # xs @ ys))" for xs ys by auto
  then show ?thesis by (simp only: insert_by_num_def takeWhile_dropWhile_id)
qed

lemma set_erase_below:
  assumes "sorted_wrt (\<lambda>p q. num p \<le> num q) ps"
  shows "set (erase_below num n ps) = {p\<in>set ps. n \<le> num p}"
  using assms by (induction ps) (auto simp: erase_below_def)

lemma sorted_wrt_dropWhile: "sorted_wrt P ps \<Longrightarrow> sorted_wrt P (dropWhile Q ps)"
  by (induction ps) auto

lemma distinct_map_dropWhile: "distinct (map g ps) \<Longrightarrow> distinct (map g (dropWhile Q ps))"
  by (induction ps) auto

text \<open>Dropping entries of the index keeps the invariant.\<close>

lemma fork_inv_shrink:
  assumes "fork_inv H f" and "fk_items g = fk_items f" and "\<And>p. alive g p \<Longrightarrow> p < length (fk_items f)"
    and "sorted_wrt (\<lambda>p q. fi_num (item f p) \<le> fi_num (item f q)) (fk_index g)"
    and "distinct (map (\<lambda>p. fi_id (item f p)) (fk_index g))"
  shows "fork_inv H g"
  using assms by (simp add: fork_inv_def)

lemma fork_pop_inv:
  assumes "fork_inv H f" and "fork_pop_block f = Inr g"
  shows "fork_inv H g"
proof -
  obtain p where p: "g = f\<lparr>fk_head := Some p\<rparr>" "alive f p"
    using assms(2) by (auto simp: fork_pop_block_def lock_prev_def throwE_def split: option.splits if_splits)
  have "alive g q \<Longrightarrow> q < length (fk_items f)" for q
    using p fork_invD(2) [OF assms(1), of p] fork_invD(2) [OF assms(1), of q] by (auto simp: alive_def)
  then show ?thesis using p fork_inv_index [OF assms(1)] by (intro fork_inv_shrink [OF assms(1)]) auto
qed

lemma fork_remove_inv:
  assumes "fork_inv H f"
  shows "fork_inv H (fork_remove i f)"
proof -
  have "alive (fork_remove i f) q \<Longrightarrow> q < length (fk_items f)" for q
    using fork_invD(2) [OF assms(1), of q] by (auto simp: alive_def fork_remove_def)
  then show ?thesis
    using fork_inv_index [OF assms]
    by (intro fork_inv_shrink [OF assms]) (auto simp: fork_remove_def sorted_wrt_filter distinct_map_filter)
qed

lemma set_max_size_inv:
  assumes "fork_inv H f"
  shows "fork_inv H (set_max_size s f)"
proof -
  have d: "set (dropWhile P xs) \<subseteq> set xs" for P and xs :: "nat list" by (rule set_dropWhileD [THEN subsetI]) simp
  have "alive (set_max_size s f) q \<Longrightarrow> alive f q" for q
    using set_dropWhileD by (fastforce simp: alive_def set_max_size_def erase_below_def Let_def split: option.splits)
  then show ?thesis
    using fork_inv_index [OF assms] fork_invD(2) [OF assms]
    by (intro fork_inv_shrink [OF assms])
      (auto simp: set_max_size_def erase_below_def Let_def sorted_wrt_dropWhile distinct_map_dropWhile split: option.splits)
qed

lemma fork_reset_inv: "fork_inv H f \<Longrightarrow> fork_inv H (fork_reset f)"
  by (rule fork_inv_shrink) (auto simp: fork_reset_def alive_def fork_inv_def)

lemma fork_set_head_inv: "fork_inv H f \<Longrightarrow> (\<And>p. h = Some p \<Longrightarrow> p < length (fk_items f)) \<Longrightarrow> fork_inv H (fork_set_head h f)"
  by (rule fork_inv_shrink) (auto simp: fork_set_head_def alive_def fork_inv_def)

lemma item_append [simp]: "p < length its \<Longrightarrow> (its @ xs) ! p = its ! p"
  by (simp add: nth_append)

lemma new_item_inv:
  assumes "fork_inv H f" and "new_item (make_fork_item H b) f = (p, g)"
  shows "fork_inv H g" and "p < length (fk_items g)" and "\<And>q. alive g q \<Longrightarrow> q < p" and "\<And>q. alive g q = alive f q"
    and "\<And>q. q < p \<Longrightarrow> item g q = item f q" and "item g p = make_fork_item H b"
proof -
  have g: "p = length (fk_items f)" "g = f\<lparr>fk_items := fk_items f @ [make_fork_item H b]\<rparr>"
    using assms(2) by (auto simp: new_item_def)
  show al: "\<And>q. alive g q = alive f q" by (simp add: g alive_def)
  show lt: "\<And>q. alive g q \<Longrightarrow> q < p" using fork_invD(2) [OF assms(1)] by (simp add: al g(1))
  show it: "\<And>q. q < p \<Longrightarrow> item g q = item f q" "item g p = make_fork_item H b" by (simp_all add: g)
  show "p < length (fk_items g)" by (simp add: g)
  have idx: "fi_num (item g q) = fi_num (item f q)" "fi_id (item g q) = fi_id (item f q)" if "q \<in> set (fk_index f)" for q
    using fork_invD(2) [OF assms(1), of q] that by (simp_all add: g)
  have "sorted_wrt (\<lambda>p q. fi_num (item g p) \<le> fi_num (item g q)) (fk_index f)"
    by (rule sorted_wrt_mono_rel [OF _ fork_inv_index(1) [OF assms(1)]]) (simp add: idx)
  moreover have "distinct (map (\<lambda>p. fi_id (item g p)) (fk_index f))"
    using fork_inv_index(2) [OF assms(1)] by (simp add: idx(2) cong: map_cong)
  moreover have "item_ok H (fk_items g) q" if "q < length (fk_items g)" for q
  proof (cases "q < length (fk_items f)")
    case True
    then show ?thesis using fork_invD(1) [OF assms(1)] by (simp add: g item_ok_append)
  next
    case False
    then have "q = length (fk_items f)" using that by (simp add: g)
    then show ?thesis by (simp add: g make_item_ok)
  qed
  moreover have "q < length (fk_items g)" if "alive g q" for q using lt [OF that] by (simp add: g)
  ultimately show "fork_inv H g" by (simp add: fork_inv_def g(2))
qed

lemma link_item_inv:
  assumes f: "fork_inv H f" and p: "p < length (fk_items f)" "\<And>q. alive f q \<Longrightarrow> q < p" and l: "link_item p f = Inr g"
  shows "fork_inv H g" and "fk_index g = fk_index f" and "fk_head g = fk_head f" and "fk_unlinked g = fk_unlinked f"
    and "fk_max_size g = fk_max_size f" and "\<And>q. q \<noteq> p \<Longrightarrow> item g q = item f q"
    and "fi_num (item g p) = fi_num (item f p)" and "fi_data (item g p) = fi_data (item f p)"
    and "fi_id (item g p) = fi_id (item f p)" and "length (fk_items g) = length (fk_items f)"
proof -
  consider "g = f" | q where "q \<in> set (fk_index f)" "fi_id (item f q) = previous (fi_data (item f p))"
      "g = f\<lparr>fk_items := (fk_items f)[p := (item f p)\<lparr>fi_prev := Some q\<rparr>]\<rparr>"
  proof (cases "fk_head f \<noteq> None \<and> previous (fi_data (item f p)) \<noteq> null_block_id")
    case True
    then obtain q where q: "find_id f (previous (fi_data (item f p))) = Some q"
        "g = f\<lparr>fk_items := (fk_items f)[p := (item f p)\<lparr>fi_prev := Some q\<rparr>]\<rparr>"
      using l by (auto simp: link_item_def res_simps split: option.splits)
    from that(2) [OF _ _ q(2)] find_id_Some [OF q(1)] show ?thesis by blast
  next
    case False
    have "link_item p f = Inr f" unfolding link_item_def using False by (rule if_not_P)
    then show ?thesis using l that(1) by simp
  qed
  then have "fork_inv H g \<and> fk_index g = fk_index f \<and> fk_head g = fk_head f \<and> fk_unlinked g = fk_unlinked f \<and>
    fk_max_size g = fk_max_size f \<and> (\<forall>q. q \<noteq> p \<longrightarrow> item g q = item f q) \<and>
    fi_num (item g p) = fi_num (item f p) \<and> fi_data (item g p) = fi_data (item f p) \<and>
    fi_id (item g p) = fi_id (item f p) \<and> length (fk_items g) = length (fk_items f)"
  proof cases
    case 1
    then show ?thesis using f by simp
  next
    case (2 q)
    have qp: "q < p" using p(2) 2(1) by simp
    have same: "fi_num (item g r) = fi_num (item f r)" "fi_id (item g r) = fi_id (item f r)"
        "fi_data (item g r) = fi_data (item f r)" for r
      using p(1) by (cases "r = p"; simp add: 2(3))+
    have prev: "fi_prev (item g r) = (if r = p then Some q else fi_prev (item f r))" for r
      using p(1) by (cases "r = p") (simp_all add: 2(3))
    have "item_ok H (fk_items g) r" if "r < length (fk_items f)" for r
      using fork_invD(1) [OF f that] qp 2(2) unfolding item_ok_def same prev by auto
    then have "fork_inv H g" using f unfolding fork_inv_def same by (simp add: 2(3) alive_def)
    then show ?thesis using same(1,2,3) [of p] by (simp add: 2(3))
  qed
  then show "fork_inv H g" "fk_index g = fk_index f" "fk_head g = fk_head f" "fk_unlinked g = fk_unlinked f"
    "fk_max_size g = fk_max_size f" "\<And>q. q \<noteq> p \<Longrightarrow> item g q = item f q"
    "fi_num (item g p) = fi_num (item f p)" "fi_data (item g p) = fi_data (item f p)"
    "fi_id (item g p) = fi_id (item f p)" "length (fk_items g) = length (fk_items f)"
    by blast+
qed

lemma index_insert_inv:
  assumes f: "fork_inv H f" and p: "p < length (fk_items f)"
  shows "fork_inv H (index_insert p f)"
proof (cases "find_id f (fi_id (item f p)) = None")
  case True
  let ?g = "f\<lparr>fk_index := insert_by_num (\<lambda>q. fi_num (item f q)) p (fk_index f)\<rparr>"
  have "distinct (map (\<lambda>p. fi_id (item f p)) (p # fk_index f))"
    using True fork_inv_index(2) [OF f] unfolding find_id_None by auto
  then have "fork_inv H ?g"
    using sorted_insert_by_num [OF fork_inv_index(1) [OF f]] fork_invD(2) [OF f] p
    by (intro fork_inv_shrink [OF f]) (auto simp: mset_insert_by_num alive_def)
  then show ?thesis using True by (simp add: index_insert_def)
next
  case False
  then have "index_insert p f = f" unfolding index_insert_def by (rule if_not_P)
  then show ?thesis using f by simp
qed

lemma index_insert_simps [simp]:
  "fk_items (index_insert p f) = fk_items f" "fk_head (index_insert p f) = fk_head f"
  "fk_unlinked (index_insert p f) = fk_unlinked f" "fk_max_size (index_insert p f) = fk_max_size f"
  by (simp_all add: index_insert_def)

lemma index_insert_known: "find_id (index_insert p f) (fi_id (item f p)) \<noteq> None"
  by (auto simp: index_insert_def find_id_None)

lemma start_block_inv:
  assumes "fork_inv H f"
  shows "fork_inv H (start_block H b f)"
proof -
  obtain p g where g: "new_item (make_fork_item H b) f = (p, g)" by fastforce
  note n = new_item_inv [OF assms g]
  have i: "fork_inv H (index_insert p g)" using n(1,2) by (rule index_insert_inv)
  have "fork_inv H ((index_insert p g)\<lparr>fk_head := Some p\<rparr>)"
    using fork_inv_index [OF i] n(2) fork_invD(2) [OF i] by (intro fork_inv_shrink [OF i]) (auto simp: alive_def)
  then show ?thesis by (simp add: start_block_def g)
qed

subsection \<open>Pushing a block\<close>

text \<open>When a push is rejected, and with which exception.\<close>

definition push_rejected :: "'tx block_env \<Rightarrow> 'tx signed_block \<Rightarrow> 'tx fork_database \<Rightarrow> fc_exception option" where
  "push_rejected H b f =
     (case fk_head f of None \<Rightarrow> None
      | Some h \<Rightarrow>
          if int (block_num H b) \<le> max 0 (int (fi_num (item f h)) - int (fk_max_size f))
          then Some (Assert_exception ''attempting to push a block that is too old'')
          else if previous b = null_block_id then None
          else (case find_id f (previous b) of
                  None \<Rightarrow> Some Unlinkable_block
                | Some q \<Rightarrow> if fi_invalid (item f q) then Some (Assert_exception ''!(*itr)->invalid'') else None))"

lemma find_id_cong:
  assumes "fk_index g = fk_index f" and "\<And>q. q \<in> set (fk_index f) \<Longrightarrow> fi_id (item g q) = fi_id (item f q)"
  shows "find_id g i = find_id f i"
proof -
  have *: "find P xs = find Q xs" if "\<And>q. q \<in> set xs \<Longrightarrow> P q = Q q" for P Q :: "item_ptr \<Rightarrow> bool" and xs
    using that by (induction xs) auto
  show ?thesis unfolding find_id_def assms(1) by (rule *) (simp add: assms(2))
qed

lemma block_id_num:
  assumes "block_env_contract H" and "block_id H a = block_id H b"
  shows "block_num H a = block_num H b"
proof -
  have "word_of_nat (block_num H a) = (word_of_nat (block_num H b) :: 32 word)"
    using assms by (metis block_env_contract_def block_id_def block_id_type.inject)
  then show ?thesis by (simp add: block_num_def)
qed

lemma fork_push_cases:
  assumes H: "block_env_contract H" and f: "fork_inv H f"
  shows "case push_rejected H b f of
      Some e \<Rightarrow> fork_push_block H b f = Inl e
    | None \<Rightarrow> \<exists>g. fork_push_block H b f = Inr (fk_head g, g) \<and> fork_inv H g \<and>
        length (fk_items g) = Suc (length (fk_items f)) \<and>
        (\<forall>q<length (fk_items f). item g q = item f q) \<and> fi_data (item g (length (fk_items f))) = b \<and>
        find_id g (block_id H b) \<noteq> None \<and>
        fk_head g = (case fk_head f of
            Some h \<Rightarrow> if fi_num (item f h) < block_num H b then Some (length (fk_items f)) else Some h
          | None \<Rightarrow> Some (length (fk_items f))) \<and>
        (\<forall>h. fk_head f = Some h \<and> fi_num (item f h) < block_num H b \<longrightarrow>
          (\<forall>q\<in>set (fk_index g). block_num H b - fk_max_size f \<le> fi_num (item g q)))"
proof -
  let ?p = "length (fk_items f)"
  obtain f1 where f1: "new_item (make_fork_item H b) f = (?p, f1)" by (simp add: new_item_def)
  note n = new_item_inv [OF f f1]
  have h1: "fk_head f1 = fk_head f" "fk_max_size f1 = fk_max_size f" "fk_index f1 = fk_index f"
      "length (fk_items f1) = Suc ?p"
    using f1 by (auto simp: new_item_def)
  have old: "item f1 q = item f q" if "alive f q" for q using n(3,5) n(4) [of q] that by blast
  have fid: "find_id f1 i = find_id f i" for i using old by (intro find_id_cong) (auto simp: h1)
  have itp: "fi_data (item f1 ?p) = b" "fi_num (item f1 ?p) = block_num H b" "fi_id (item f1 ?p) = block_id H b"
    by (simp_all add: n(6) make_fork_item_def)
  show ?thesis
  proof (cases "push_rejected H b f")
    case (Some e)
    then show ?thesis
      using old
      by (auto simp: push_rejected_def fork_push_block_def f1 push_item_def link_item_def h1 itp fid
          assertE_def throwE_def find_id_Some split: option.splits if_splits dest: find_id_Some)
  next
    case None
    have age: "\<And>h. fk_head f = Some h \<Longrightarrow> max 0 (int (fi_num (item f1 h)) - int (fk_max_size f)) < int (block_num H b)"
      using None old by (auto simp: push_rejected_def split: if_splits)
    have "\<exists>f2. link_item ?p f1 = Inr f2"
      using None old
      by (auto simp: push_rejected_def link_item_def h1 itp fid split: option.splits if_splits dest!: find_id_Some)
    then obtain f2 where f2: "link_item ?p f1 = Inr f2" by blast
    note l = link_item_inv [OF n(1,2,3) f2]
    have items: "item f2 q = item f q" if "q < ?p" for q using that l(6) n(5) by simp
    have num: "fi_num (item f2 ?p) = block_num H b" "fi_id (item f2 ?p) = block_id H b" using l itp by simp_all
    let ?g = "index_insert ?p f2"
    have g: "fork_inv H ?g" using l(1) n(2) l(10) by (intro index_insert_inv) simp_all
    have known: "find_id ?g (block_id H b) \<noteq> None" using index_insert_known [of ?p f2] num(2) by simp
    let ?num = "\<lambda>q. fi_num (item f2 q)"
    show ?thesis
    proof (cases "\<exists>h. fk_head f = Some h \<and> fi_num (item f h) < block_num H b")
      case False
      let ?g' = "?g\<lparr>fk_head := (case fk_head f of None \<Rightarrow> Some ?p | Some h \<Rightarrow> Some h)\<rparr>"
      have "fork_push_block H b f = Inr (fk_head ?g', ?g')"
        using False age items f1 f2 fork_invD(2) [OF f] itp num
        by (auto simp: fork_push_block_def push_item_def h1 l(3) old Let_def split: option.splits)
      moreover have "fork_inv H ?g'"
        using fork_inv_index [OF g] fork_invD(2) [OF g] l(3,10) h1 by (intro fork_inv_shrink [OF g]) (auto simp: alive_def split: option.splits)
      ultimately show ?thesis
        using None False items known l(8,10) h1 itp(1) by (auto simp: find_id_def split: option.splits)
    next
      case True
      then obtain h where h: "fk_head f = Some h" "fi_num (item f h) < block_num H b" by blast
      let ?n = "block_num H b - min (fk_max_size f) (block_num H b)"
      let ?g' = "?g\<lparr>fk_head := Some ?p, fk_index := erase_below ?num ?n (fk_index ?g),
          fk_unlinked := filter (\<lambda>q. ?num q \<noteq> nat ((int (block_num H b) - int (fk_max_size f)) mod 2 ^ 32)) (fk_unlinked ?g)\<rparr>"
      have hp: "h < ?p" "item f1 h = item f h" using fork_invD(2) [OF f, of h] old [of h] h(1) by auto
      have "fork_push_block H b f = Inr (fk_head ?g', ?g')"
        using age [OF h(1)] f1 f2 h hp items itp num
        by (simp add: fork_push_block_def push_item_def h1 l(3,5) Let_def)
      moreover have set: "set (fk_index ?g') = {q\<in>set (fk_index ?g). ?n \<le> ?num q}"
        using set_erase_below [OF fork_inv_index(1) [OF g]] by simp
      moreover have "fork_inv H ?g'"
        using fork_inv_index [OF g] fork_invD(2) [OF g] l(10) h1 set
        by (intro fork_inv_shrink [OF g]) (auto simp: alive_def erase_below_def sorted_wrt_dropWhile distinct_map_dropWhile)
      moreover have "find_id ?g' (block_id H b) \<noteq> None"
      proof -
        obtain q where q: "q \<in> set (fk_index ?g)" "fi_id (item f2 q) = block_id H b"
          using known unfolding find_id_None by auto
        have "item_ok H (fk_items ?g) q" using fork_invD [OF g] q(1) by (meson alive_simps(1))
        then have iq: "fi_num (item f2 q) = block_num H (fi_data (item f2 q))"
            "block_id H (fi_data (item f2 q)) = block_id H b"
          using q(2) by (simp_all add: item_ok_def)
        have "fi_num (item f2 q) = block_num H b" using iq(1) block_id_num [OF H iq(2)] by (rule trans)
        then show ?thesis using q set unfolding find_id_None by auto
      qed
      moreover have "\<forall>q\<in>set (fk_index ?g'). block_num H b - fk_max_size f \<le> fi_num (item ?g' q)"
      proof -
        have "block_num H b - fk_max_size f = ?n" by simp
        then show ?thesis using set by (simp only: fork_database.simps index_insert_simps mem_Collect_eq) simp
      qed
      moreover have "length (fk_items ?g') = Suc ?p" "\<forall>q<?p. item ?g' q = item f q" "fi_data (item ?g' ?p) = b"
        using items l(8,10) h1 itp(1) by simp_all
      moreover have "fk_head ?g' = Some ?p" by simp
      ultimately show ?thesis
        unfolding None option.case(1) h(1) option.case(2) if_P [OF h(2)] by (intro exI [of _ ?g'] conjI) (assumption | blast)+
    qed
  qed
qed

text \<open>What a push that succeeds does to the link of the new item and to the index.\<close>

lemma link_item_prev:
  assumes "link_item p f = Inr g" and "p < length (fk_items f)"
  shows "fi_prev (item g p) = (if fk_head f \<noteq> None \<and> previous (fi_data (item f p)) \<noteq> null_block_id
    then find_id f (previous (fi_data (item f p))) else fi_prev (item f p))"
  using assms by (auto simp: link_item_def res_simps throwE_not_Inr split: option.splits if_splits)

lemma set_index_insert: "set (fk_index (index_insert p f)) =
    (if find_id f (fi_id (item f p)) = None then insert p (set (fk_index f)) else set (fk_index f))"
proof -
  have "set (insert_by_num num p ps) = insert p (set ps)" for num ps
    by (auto simp: insert_by_num_def dest: set_takeWhileD set_dropWhileD) (metis Un_iff set_append takeWhile_dropWhile_id)
  then show ?thesis by (simp add: index_insert_def)
qed

lemma fork_push_contents:
  assumes f: "fork_inv H f" and ok: "fork_push_block H b f = Inr (r, g)"
  defines "p \<equiv> length (fk_items f)"
  defines "grown \<equiv> if find_id f (block_id H b) = None then insert p (set (fk_index f)) else set (fk_index f)"
  shows "fi_prev (item g p) = (if fk_head f \<noteq> None \<and> previous b \<noteq> null_block_id then find_id f (previous b) else None)"
    and "set (fk_index g) = (if \<exists>h. fk_head f = Some h \<and> fi_num (item f h) < block_num H b
      then {q\<in>grown. block_num H b - fk_max_size f \<le> fi_num (item g q)} else grown)"
    and "fk_max_size g = fk_max_size f"
proof -
  obtain f1 where f1: "new_item (make_fork_item H b) f = (p, f1)" by (simp add: new_item_def p_def)
  note n = new_item_inv [OF f f1]
  have h1: "fk_head f1 = fk_head f" "fk_max_size f1 = fk_max_size f" "fk_index f1 = fk_index f"
    using f1 by (auto simp: new_item_def)
  have old: "item f1 q = item f q" if "alive f q" for q using n(3,5) n(4) [of q] that by blast
  have fid: "find_id f1 i = find_id f i" for i using old by (intro find_id_cong) (auto simp: h1)
  have it: "fi_prev (item f1 p) = None" "fi_data (item f1 p) = b" "fi_num (item f1 p) = block_num H b" "fi_id (item f1 p) = block_id H b"
    by (simp_all add: n(6) make_fork_item_def)
  have ok1: "push_item p f1 = Inr g" using ok by (auto simp: fork_push_block_def f1 res_simps)
  then obtain f2 where f2: "link_item p f1 = Inr f2" by (auto simp: push_item_def res_simps)
  note l = link_item_inv [OF n(1,2,3) f2]
  let ?g = "index_insert p f2"
  have gi: "fork_inv H ?g" using l(1) n(2) l(10) by (intro index_insert_inv) simp_all
  have fid2: "find_id f2 i = find_id f i" for i
    unfolding fid [symmetric]
  proof (rule find_id_cong [OF l(2)])
    fix q assume "q \<in> set (fk_index f1)"
    then have "q < p" using n(3) [of q] by (simp add: alive_def)
    then show "fi_id (item f2 q) = fi_id (item f1 q)" using l(6) [of q] by simp
  qed
  have grown: "set (fk_index ?g) = grown" using l(2,9) it(4) by (simp add: set_index_insert fid2 grown_def h1)
  have prev: "fi_prev (item f2 p) = (if fk_head f \<noteq> None \<and> previous b \<noteq> null_block_id then find_id f (previous b) else None)"
    using link_item_prev [OF f2 n(2)] by (simp add: h1 it fid)
  have hd: "fi_num (item f2 h) = fi_num (item f h)" if "fk_head f = Some h" for h
    using that old [of h] l(6) [of h] n(3) [of h] n(4) [of h] by (simp add: alive_def)
  show "fi_prev (item g p) = (if fk_head f \<noteq> None \<and> previous b \<noteq> null_block_id then find_id f (previous b) else None)"
    "fk_max_size g = fk_max_size f"
    using ok1 f2 prev l(5) h1(2) by (auto simp: push_item_def res_simps Let_def split: option.splits if_splits)
  show "set (fk_index g) = (if \<exists>h. fk_head f = Some h \<and> fi_num (item f h) < block_num H b
      then {q\<in>grown. block_num H b - fk_max_size f \<le> fi_num (item g q)} else grown)"
  proof (cases "\<exists>h. fk_head f = Some h \<and> fi_num (item f h) < block_num H b")
    case True
    then obtain h where h: "fk_head f = Some h" "fi_num (item f h) < block_num H b" by blast
    have "fk_items g = fk_items f2" "fk_index g = erase_below (\<lambda>q. fi_num (item f2 q)) (block_num H b - min (fk_max_size f) (block_num H b)) (fk_index ?g)"
      using ok1 f2 h hd [OF h(1)] it(3) l(3,5,7) h1 by (auto simp: push_item_def res_simps Let_def)
    then show ?thesis using True set_erase_below [OF fork_inv_index(1) [OF gi]] grown by auto
  next
    case False
    then have "fk_index g = fk_index ?g"
      using ok1 f2 hd it(3) l(3,7) h1 by (auto simp: push_item_def res_simps Let_def split: option.splits if_splits)
    then show ?thesis unfolding if_not_P [OF False] using grown by simp
  qed
qed

subsection \<open>Branches\<close>

text \<open>Each item of a branch is linked to the next one.\<close>

fun linked :: "'tx fork_database \<Rightarrow> item_ptr list \<Rightarrow> bool" where
  "linked f (p # q # ps) \<longleftrightarrow> fi_prev (item f p) = Some q \<and> linked f (q # ps)"
| "linked f ps \<longleftrightarrow> True"

lemma linked_snoc: "linked f (a @ [p]) \<Longrightarrow> fi_prev (item f p) = Some q \<Longrightarrow> linked f (a @ [p, q])"
  by (induction f a rule: linked.induct) auto

lemma prev_item_Inr:
  assumes "fork_inv H f" and "p < length (fk_items f)" and "prev_item f p = Inr q"
  shows "fi_prev (item f p) = Some q" "q < p" "fi_id (item f q) = previous (fi_data (item f p))"
proof -
  show "fi_prev (item f p) = Some q"
    using assms(3) by (auto simp: prev_item_def lock_prev_def throwE_def split: option.splits if_splits)
  then show "q < p" "fi_id (item f q) = previous (fi_data (item f p))"
    using fork_invD(1) [OF assms(1,2)] by (auto simp: item_ok_def)
qed

lemma prev_num:
  assumes H: "block_env_contract H" and f: "fork_inv H f" and p: "p < length (fk_items f)" "prev_item f p = Inr q"
    and pos: "0 < block_num H (fi_data (item f p))"
  shows "block_num H (fi_data (item f p)) = Suc (block_num H (fi_data (item f q)))"
proof -
  note pq = prev_item_Inr [OF f p]
  have "fi_id (item f q) = block_id H (fi_data (item f q))"
    using fork_invD(1) [OF f, of q] pq(2) p(1) by (simp add: item_ok_def)
  then have "endian_reverse_u32 H (id_hash0 (previous (fi_data (item f p))))
      = word_of_nat (block_num H (fi_data (item f q)))"
    using pq(3) H by (metis block_env_contract_def block_id_def block_id_type.sel(1))
  then have "block_num H (fi_data (item f p)) = unat (word_of_nat (block_num H (fi_data (item f q))) + 1 :: 32 word)"
    by (simp add: block_num_def)
  moreover have "unat (word_of_nat (block_num H (fi_data (item f q))) :: 32 word) = block_num H (fi_data (item f q))"
    by (simp add: block_num_def)
  ultimately show ?thesis using pos by (metis Suc_eq_plus1 add.commute unatSuc unsigned_0 less_numeral_extra(3))
qed

lemma walk_down_spec:
  assumes H: "block_env_contract H" and f: "fork_inv H f"
  shows "p < length (fk_items f) \<Longrightarrow> linked f (acc @ [p]) \<Longrightarrow>
    \<exists>r. walk_down H f n p acc = Some r \<and> (\<forall>q acc'. r = Inr (q, acc') \<longrightarrow>
      q < length (fk_items f) \<and> linked f (acc' @ [q]) \<and> hd (acc' @ [q]) = hd (acc @ [p]) \<and>
      block_num H (fi_data (item f q)) \<le> n \<and>
      (n \<le> block_num H (fi_data (item f p)) \<longrightarrow> block_num H (fi_data (item f q)) = n) \<and>
      (block_num H (fi_data (item f p)) \<le> n \<longrightarrow> q = p \<and> acc' = acc))"
proof (induction p arbitrary: acc rule: less_induct)
  case (less p)
  show ?case
  proof (cases "n < block_num H (fi_data (item f p))")
    case False
    then show ?thesis using less.prems by (subst walk_down.simps) auto
  next
    case True
    show ?thesis
    proof (cases "prev_item f p")
      case (Inl e)
      then show ?thesis using True by (subst walk_down.simps) simp
    next
      case (Inr q)
      note pq = prev_item_Inr [OF f less.prems(1) Inr]
      have num: "block_num H (fi_data (item f p)) = Suc (block_num H (fi_data (item f q)))"
        using prev_num [OF H f less.prems(1) Inr] True by simp
      have ln: "linked f ((acc @ [p]) @ [q])" using linked_snoc [OF less.prems(2) pq(1)] by simp
      have lt: "q < length (fk_items f)" using pq(2) less.prems(1) by simp
      have hd: "hd ((acc @ [p]) @ [q]) = hd (acc @ [p])" by (cases acc) auto
      obtain r where "walk_down H f n q (acc @ [p]) = Some r" "\<forall>q' acc'. r = Inr (q', acc') \<longrightarrow>
          q' < length (fk_items f) \<and> linked f (acc' @ [q']) \<and> hd (acc' @ [q']) = hd (acc @ [p]) \<and>
          block_num H (fi_data (item f q')) \<le> n \<and>
          (n \<le> block_num H (fi_data (item f q)) \<longrightarrow> block_num H (fi_data (item f q')) = n)"
        using less.IH [OF pq(2) lt ln] unfolding hd by blast
      moreover have "n \<le> block_num H (fi_data (item f q))" using True num by simp
      ultimately show ?thesis using True Inr by (subst walk_down.simps) auto
    qed
  qed
qed

text \<open>The joint part of two branches: same length, first common predecessor at the end.\<close>

definition joint :: "'tx fork_database \<Rightarrow> item_ptr list \<Rightarrow> item_ptr list \<Rightarrow> bool" where
  "joint f a b \<longleftrightarrow> a \<noteq> [] \<and> length a = length b \<and>
     previous (fi_data (item f (last a))) = previous (fi_data (item f (last b))) \<and>
     (\<forall>j. Suc j < length a \<longrightarrow> previous (fi_data (item f (a ! j))) \<noteq> previous (fi_data (item f (b ! j))))"

lemma joint_Cons:
  assumes "joint f a b" and "previous (fi_data (item f p)) \<noteq> previous (fi_data (item f q))"
  shows "joint f (p # a) (q # b)"
  unfolding joint_def
proof (intro conjI allI impI)
  fix j assume "Suc j < length (p # a)"
  then show "previous (fi_data (item f ((p # a) ! j))) \<noteq> previous (fi_data (item f ((q # b) ! j)))"
    using assms by (cases j) (auto simp: joint_def)
qed (use assms in \<open>auto simp: joint_def\<close>)

lemma walk_both_spec:
  assumes f: "fork_inv H f"
  shows "p < length (fk_items f) \<Longrightarrow> q < length (fk_items f) \<Longrightarrow> linked f (a @ [p]) \<Longrightarrow> linked f (b @ [q]) \<Longrightarrow>
    \<exists>r. walk_both f p q a b = Some r \<and> (\<forall>a' b'. r = Inr (a', b') \<longrightarrow>
      linked f a' \<and> linked f b' \<and> (\<exists>a1 b1. a' = a @ a1 \<and> b' = b @ b1 \<and> joint f a1 b1 \<and> hd a1 = p \<and> hd b1 = q))"
proof (induction p arbitrary: q a b rule: less_induct)
  case (less p)
  show ?case
  proof (cases "previous (fi_data (item f p)) = previous (fi_data (item f q))")
    case True
    then have "walk_both f p q a b = Some (Inr (a @ [p], b @ [q]))" by (subst walk_both.simps) simp
    moreover have "joint f [p] [q]" using True by (simp add: joint_def)
    ultimately show ?thesis using less.prems(3,4) by fastforce
  next
    case False
    show ?thesis
    proof (cases "\<exists>e. prev_item f p = Inl e \<or> prev_item f q = Inl e")
      case True
      then have "\<exists>e. walk_both f p q a b = Some (Inl e)"
        using False by (subst walk_both.simps) (auto split: sum.splits)
      then show ?thesis by auto
    next
      case nerr: False
      obtain p' q' where pq: "prev_item f p = Inr p'" "prev_item f q = Inr q'"
        using nerr by (cases "prev_item f p"; cases "prev_item f q") auto
      note p' = prev_item_Inr [OF f less.prems(1) pq(1)] and q' = prev_item_Inr [OF f less.prems(2) pq(2)]
      have ln: "linked f ((a @ [p]) @ [p'])" "linked f ((b @ [q]) @ [q'])"
        using linked_snoc [OF less.prems(3) p'(1)] linked_snoc [OF less.prems(4) q'(1)] by simp_all
      have lt: "p' < length (fk_items f)" "q' < length (fk_items f)" using less.prems p'(2) q'(2) by simp_all
      obtain r where r: "walk_both f p' q' (a @ [p]) (b @ [q]) = Some r" "\<forall>a' b'. r = Inr (a', b') \<longrightarrow>
          linked f a' \<and> linked f b' \<and> (\<exists>a1 b1. a' = (a @ [p]) @ a1 \<and> b' = (b @ [q]) @ b1 \<and> joint f a1 b1)"
        using less.IH [OF p'(2) lt ln] by blast
      have "walk_both f p q a b = Some r" using False pq r(1) by (subst walk_both.simps) simp
      moreover have "linked f a' \<and> linked f b' \<and> (\<exists>a1 b1. a' = a @ a1 \<and> b' = b @ b1 \<and> joint f a1 b1 \<and> hd a1 = p \<and> hd b1 = q)"
        if ab: "r = Inr (a', b')" for a' b'
      proof -
        obtain a1 b1 where "linked f a'" "linked f b'" "a' = (a @ [p]) @ a1" "b' = (b @ [q]) @ b1" "joint f a1 b1"
          using r(2) ab by blast
        then show ?thesis
          using joint_Cons [OF _ False, of a1 b1] by (intro conjI exI [of _ "p # a1"] exI [of _ "q # b1"]) auto
      qed
      ultimately show ?thesis by blast
    qed
  qed
qed


subsection \<open>Properties\<close>

text \<open>
  C20: A push into the fork database. It is rejected exactly when the block is too old for the
  cached range, does not link to a known block, or links to a block marked invalid, each with
  its exception. Otherwise the block becomes known in a new item that is linked to the item of
  its predecessor, the older items keep their place, the head moves to the new block exactly
  when its number is greater than the number of the old head, and the invariant is kept. The
  index loses the items below the cached range when the head moves, and no others.
\<close>

theorem fork_push_block_correct:
  fixes b :: "'tx signed_block"
  assumes "block_env_contract H" and "fork_inv H f"
  defines "p \<equiv> length (fk_items f)" and "moves \<equiv> \<exists>h. fk_head f = Some h \<and> fi_num (item f h) < block_num H b"
  shows "case push_rejected H b f of
      Some e \<Rightarrow> fork_push_block H b f = Inl e
    | None \<Rightarrow> \<exists>g. fork_push_block H b f = Inr (fk_head g, g) \<and> fork_inv H g \<and> fk_max_size g = fk_max_size f \<and>
        (\<forall>q<p. item g q = item f q) \<and> fi_data (item g p) = b \<and>
        fi_prev (item g p) = (if fk_head f \<noteq> None \<and> previous b \<noteq> null_block_id then find_id f (previous b) else None) \<and>
        find_id g (block_id H b) \<noteq> None \<and>
        fk_head g = (if fk_head f = None \<or> moves then Some p else fk_head f) \<and>
        set (fk_index g) =
          {q \<in> set (fk_index f) \<union> (if find_id f (block_id H b) = None then {p} else {}).
             moves \<longrightarrow> block_num H b - fk_max_size f \<le> fi_num (item g q)}"
proof (cases "push_rejected H b f")
  case (Some e)
  then show ?thesis using fork_push_cases [OF assms(1,2), of b] by simp
next
  case None
  then obtain g where g: "fork_push_block H b f = Inr (fk_head g, g)" "fork_inv H g"
      "\<forall>q<length (fk_items f). item g q = item f q" "fi_data (item g (length (fk_items f))) = b" "find_id g (block_id H b) \<noteq> None"
      "fk_head g = (case fk_head f of
            Some h \<Rightarrow> if fi_num (item f h) < block_num H b then Some (length (fk_items f)) else Some h
          | None \<Rightarrow> Some (length (fk_items f)))"
    using fork_push_cases [OF assms(1,2), of b] by auto
  note c = fork_push_contents [OF assms(2) g(1)]
  have "fk_head g = (if fk_head f = None \<or> moves then Some p else fk_head f)"
    using g(6) by (auto simp: moves_def p_def split: option.splits)
  moreover have "set (fk_index g) = {q \<in> set (fk_index f) \<union> (if find_id f (block_id H b) = None then {p} else {}).
      moves \<longrightarrow> block_num H b - fk_max_size f \<le> fi_num (item g q)}"
    unfolding c(2) moves_def [symmetric] p_def by auto
  ultimately show ?thesis using None g c(1,3) by (auto simp: p_def)
qed

definition example_blocks_env :: "nat block_env" where
  "example_blocks_env = \<lparr>endian_reverse_u32 = (\<lambda>w. w), sha224_rest = (\<lambda>b. word_of_nat (timestamp b))\<rparr>"

definition example_block :: "block_id_type \<Rightarrow> nat \<Rightarrow> nat signed_block" where
  "example_block prev t = \<lparr>previous = prev, timestamp = t, block_witness = 0, transaction_merkle_root = 0,
     witness_signature = 0, transactions = []\<rparr>"

lemma example_blocks_contract: "block_env_contract example_blocks_env"
  by (simp add: block_env_contract_def example_blocks_env_def)

lemma empty_fork_inv: "fork_inv H make_fork_database"
  by (simp add: fork_inv_def make_fork_database_def alive_def)

text \<open>
  C19: Fetching the branches of two known blocks always returns. If it does not throw because an
  item has been dropped, each of the two results starts at its block and follows the links to
  predecessors, and both end in a part of equal length over equal block numbers whose last
  blocks have the same predecessor while no earlier pair does: the fork point is the most recent
  common ancestor.
\<close>

theorem fetch_branch_from_correct:
  assumes H: "block_env_contract H" and f: "fork_inv H f"
    and p: "find_id f first = Some p" and q: "find_id f second = Some q"
  shows "\<exists>r. fetch_branch_from H f first second = Some r \<and> (\<forall>a b. r = Inr (a, b) \<longrightarrow>
    linked f a \<and> linked f b \<and> hd a = p \<and> hd b = q \<and>
    (\<exists>a0 b0 a1 b1. a = a0 @ a1 \<and> b = b0 @ b1 \<and> (a0 = [] \<or> b0 = []) \<and> joint f a1 b1 \<and>
       fi_num (item f (hd a1)) = fi_num (item f (hd b1))))"
proof -
  have lt: "p < length (fk_items f)" "q < length (fk_items f)"
    using find_id_Some [OF p] find_id_Some [OF q] fork_invD(2) [OF f] by auto
  have num: "fi_num (item f x) = block_num H (fi_data (item f x))" if "x < length (fk_items f)" for x
    using fork_invD(1) [OF f that] by (simp add: item_ok_def)
  let ?n = "\<lambda>x. block_num H (fi_data (item f x))"
  have l0: "linked f ([] @ [x])" for x by simp
  obtain r1 where r1: "walk_down H f (?n q) p [] = Some r1" "\<forall>p' a. r1 = Inr (p', a) \<longrightarrow>
      p' < length (fk_items f) \<and> linked f (a @ [p']) \<and> hd (a @ [p']) = p \<and> ?n p' \<le> ?n q \<and>
      (?n q \<le> ?n p \<longrightarrow> ?n p' = ?n q) \<and> (?n p \<le> ?n q \<longrightarrow> p' = p \<and> a = [])"
    using walk_down_spec [OF H f lt(1) l0, of "?n q"] by auto
  show ?thesis
  proof (cases r1)
    case (Inl e)
    then show ?thesis using p q r1(1) by (simp add: fetch_branch_from_def)
  next
    case (Inr pa)
    then obtain p' a where pa: "r1 = Inr (p', a)" by (cases pa) auto
    note p' = mp [OF spec [OF spec [OF r1(2)]] pa]
    obtain r2 where r2: "walk_down H f (?n p') q [] = Some r2" "\<forall>q' b. r2 = Inr (q', b) \<longrightarrow>
        q' < length (fk_items f) \<and> linked f (b @ [q']) \<and> hd (b @ [q']) = q \<and> ?n q' \<le> ?n p' \<and>
        (?n p' \<le> ?n q \<longrightarrow> ?n q' = ?n p') \<and> (?n q \<le> ?n p' \<longrightarrow> q' = q \<and> b = [])"
      using walk_down_spec [OF H f lt(2) l0, of "?n p'"] by auto
    show ?thesis
    proof (cases r2)
      case (Inl e)
      then show ?thesis using p q r1(1) pa r2(1) by (simp add: fetch_branch_from_def)
    next
      case (Inr qb)
      then obtain q' b where qb: "r2 = Inr (q', b)" by (cases qb) auto
      note q' = mp [OF spec [OF spec [OF r2(2)]] qb]
      have eq: "?n p' = ?n q'" using p' q' by simp
      have one: "a = [] \<or> b = []" using p' q' by (cases "?n p \<le> ?n q") auto
      obtain r where r: "walk_both f p' q' a b = Some r" "\<forall>a' b'. r = Inr (a', b') \<longrightarrow> linked f a' \<and> linked f b' \<and>
          (\<exists>a1 b1. a' = a @ a1 \<and> b' = b @ b1 \<and> joint f a1 b1 \<and> hd a1 = p' \<and> hd b1 = q')"
        using walk_both_spec [OF f, of p' q' a b] p' q' by blast
      have "fetch_branch_from H f first second = Some r"
        using p q r1(1) pa r2(1) qb r(1) by (simp add: fetch_branch_from_def)
      moreover have "linked f a' \<and> linked f b' \<and> hd a' = p \<and> hd b' = q \<and>
          (\<exists>a0 b0 a1 b1. a' = a0 @ a1 \<and> b' = b0 @ b1 \<and> (a0 = [] \<or> b0 = []) \<and> joint f a1 b1 \<and>
             fi_num (item f (hd a1)) = fi_num (item f (hd b1)))" if ab: "r = Inr (a', b')" for a' b'
      proof -
        obtain a1 b1 where 1: "linked f a'" "linked f b'" "a' = a @ a1" "b' = b @ b1" "joint f a1 b1" "hd a1 = p'" "hd b1 = q'"
          using r(2) ab by blast
        have "a1 \<noteq> []" "b1 \<noteq> []" using 1(5) by (auto simp: joint_def)
        then have "hd a' = p" "hd b' = q" using p' q' 1(3,4,6,7) by (cases a; cases b; simp)+
        then show ?thesis using 1 one eq num [of p'] num [of q'] p' q' by metis
      qed
      ultimately show ?thesis by blast
    qed
  qed
qed


text \<open>A chain of three blocks and a fork of one block on top of the first.\<close>

definition example_pushes :: "nat signed_block list" where
  "example_pushes =
     (let H = example_blocks_env; b1 = example_block null_block_id 1; b2 = example_block (block_id H b1) 2;
          b3 = example_block (block_id H b2) 3; c2 = example_block (block_id H b1) 4
      in [b1, b2, b3, c2])"

definition example_forks :: "nat fork_database res" where
  "example_forks = foldE (\<lambda>b f. bindE (fork_push_block example_blocks_env b f) (\<lambda>(_, g). Inr g)) example_pushes make_fork_database"

lemma example_forks_inv: "example_forks = Inr f \<Longrightarrow> fork_inv example_blocks_env f"
proof (unfold example_forks_def, erule foldE_invariant [where P = "fork_inv example_blocks_env"])
  fix b u v
  assume i: "fork_inv example_blocks_env u"
    and s: "bindE (fork_push_block example_blocks_env b u) (\<lambda>(_, g). Inr g) = Inr v"
  show "fork_inv example_blocks_env v"
    using fork_push_cases [OF example_blocks_contract i, of b] s
    by (cases "push_rejected example_blocks_env b u") (auto simp: res_simps)
qed (rule empty_fork_inv)

definition example_db :: "nat fork_database" where
  "example_db = (case example_forks of Inr f \<Rightarrow> f | Inl _ \<Rightarrow> make_fork_database)"

lemmas example_eval = example_pushes_def Let_def fork_push_block_def new_item_def make_fork_item_def push_item_def
  link_item_def index_insert_def find_id_def insert_by_num_def erase_below_def block_num_def block_id_def
  make_fork_database_def example_blocks_env_def example_block_def null_block_id_def

lemma example_db_forks: "example_forks = Inr example_db"
proof -
  have "isl example_forks = False"
    by (simp add: example_forks_def example_eval)
  then obtain f :: "nat fork_database" where "example_forks = Inr f" by (metis isl_def old.sum.exhaust)
  show ?thesis unfolding example_db_def \<open>example_forks = Inr f\<close> by simp
qed

text \<open>A fourth block is pushed on the third: it is linked to it, becomes the head, and all others stay.\<close>

theorem fork_push_block_correct_witness:
  "\<exists>g. fork_push_block example_blocks_env (example_block (block_id example_blocks_env (example_pushes ! 2)) 9) example_db = Inr (Some 4, g) \<and>
     fork_inv example_blocks_env g \<and> fi_prev (item g 4) = Some 2 \<and> set (fk_index g) = {0, 1, 2, 3, 4}"
proof -
  let ?H = example_blocks_env let ?b = "example_block (block_id ?H (example_pushes ! 2)) 9"
  have db: "length (fk_items example_db) = 4" "fk_head example_db = Some 2" "fi_num (item example_db 2) = 3" "fk_max_size example_db = 1024"
      "set (fk_index example_db) = {0, 1, 2, 3}" "\<not> fi_invalid (item example_db 2)"
    by (auto simp: example_db_def example_forks_def example_eval)
  have p: "find_id example_db (previous ?b) = Some 2" "find_id example_db (block_id ?H ?b) = None" "previous ?b \<noteq> null_block_id" "block_num ?H ?b = 4"
    by (simp_all add: example_db_def example_forks_def example_eval)
  have "push_rejected ?H ?b example_db = None" by (simp add: push_rejected_def db p)
  then obtain g where "fork_push_block ?H ?b example_db = Inr (fk_head g, g)" "fork_inv ?H g" "fi_prev (item g 4) = Some 2"
      "fk_head g = Some 4" "set (fk_index g) = {q. q = 4 \<or> q = 0 \<or> q = Suc 0 \<or> q = 2 \<or> q = 3}"
    using fork_push_block_correct [OF example_blocks_contract example_forks_inv [OF example_db_forks], of ?b] by (auto simp: db p)
  then show ?thesis by auto
qed

theorem fetch_branch_from_correct_witness:
  "\<exists>r. fetch_branch_from example_blocks_env example_db (block_id example_blocks_env (example_pushes ! 2))
      (block_id example_blocks_env (example_pushes ! 3)) = Some r \<and>
    (\<forall>a b. r = Inr (a, b) \<longrightarrow> linked example_db a \<and> linked example_db b \<and> hd a = 2 \<and> hd b = 3)"
proof -
  have p: "find_id example_db (block_id example_blocks_env (example_pushes ! 2)) = Some 2"
    and q: "find_id example_db (block_id example_blocks_env (example_pushes ! 3)) = Some 3"
    by (simp_all add: example_db_def example_forks_def example_eval)
  show ?thesis
    using fetch_branch_from_correct [OF example_blocks_contract example_forks_inv [OF example_db_forks] p q] by blast
qed

text \<open>
  C21: The Merkle root of a non-empty block, computed in place in one array, is the hash of the
  root of a binary hash tree whose leaves are the digests of all the transactions in order; it
  agrees with the level-by-level definition on lists, and the loop ends.
\<close>

theorem merkle_root_correct:
  assumes "transactions b \<noteq> []"
  shows "calculate_merkle_root dig h root none b = root (merkle_ref h (map dig (transactions b))) \<and>
    (\<exists>t. mleaves t = map dig (transactions b) \<and> calculate_merkle_root dig h root none b = root (meval h t))"
proof -
  let ?ids = "map dig (transactions b)"
  have eq: "calculate_merkle_root dig h root none b = root (merkle_ref h ?ids)"
    using assms merkle_loop_ref [of "length ?ids" ?ids h] by (simp add: calculate_merkle_root_def Let_def)
  obtain t where "meval h t = merkle_ref h (map (meval h) (map MLeaf ?ids))" "mleaves t = concat (map mleaves (map MLeaf ?ids))"
    using merkle_ref_tree [of "map MLeaf ?ids" h] assms by auto
  moreover have "map (meval h) (map MLeaf ?ids) = ?ids" "concat (map mleaves (map MLeaf ?ids)) = ?ids"
    by (simp_all add: comp_def)
  ultimately show ?thesis using eq by metis
qed

theorem merkle_root_correct_witness:
  "calculate_merkle_root (\<lambda>x. x) (\<lambda>(x, y). 2 * x + 3 * y) (\<lambda>x. x) 0 ((example_block null_block_id 0)\<lparr>transactions := [1, 2, 3]\<rparr>)
     = merkle_ref (\<lambda>(x, y). 2 * x + 3 * y) [1, 2, 3]"
  using merkle_root_correct [of "(example_block null_block_id 0)\<lparr>transactions := [1, 2, 3]\<rparr>" "\<lambda>x. x"
      "\<lambda>(x, y). 2 * x + 3 * y" "\<lambda>x. x" 0]
  by simp

end
