(* ===== verification/Names.thy ===== *)
theory Names
  imports Chain_Prelude "HOL-Library.Sublist"
begin

text \<open>
  Account names and asset symbols (\<open>is_valid_name\<close> and \<open>is_cheap_name\<close> of
  \<open>libraries/chain/protocol/account.cpp\<close>, \<open>is_valid_symbol\<close> of
  \<open>libraries/chain/protocol/asset_ops.cpp\<close>).

  The name check walks over the string with two indices; the theory shows that it accepts
  exactly the words of the grammar in the comment above it. The wall clock that the check
  compares with the time of a hard fork is the argument \<open>before_385\<close>. The character classes of
  \<open>ctype.h\<close> are those of the C locale.
\<close>

definition GRAPHENE_MIN_ACCOUNT_NAME_LENGTH :: nat where "GRAPHENE_MIN_ACCOUNT_NAME_LENGTH = 1"
definition GRAPHENE_MAX_ACCOUNT_NAME_LENGTH :: nat where "GRAPHENE_MAX_ACCOUNT_NAME_LENGTH = 63"
definition GRAPHENE_MIN_ASSET_SYMBOL_LENGTH :: nat where "GRAPHENE_MIN_ASSET_SYMBOL_LENGTH = 3"
definition GRAPHENE_MAX_ASSET_SYMBOL_LENGTH :: nat where "GRAPHENE_MAX_ASSET_SYMBOL_LENGTH = 16"

lemmas name_lengths [chain_defs] =
  GRAPHENE_MIN_ACCOUNT_NAME_LENGTH_def GRAPHENE_MAX_ACCOUNT_NAME_LENGTH_def
  GRAPHENE_MIN_ASSET_SYMBOL_LENGTH_def GRAPHENE_MAX_ASSET_SYMBOL_LENGTH_def

subsection \<open>Account names\<close>

definition is_letter :: "char \<Rightarrow> bool" where
  "is_letter c \<longleftrightarrow> c \<in> set ''abcdefghijklmnopqrstuvwxyz''"

definition is_let_dig :: "char \<Rightarrow> bool" where
  "is_let_dig c \<longleftrightarrow> is_letter c \<or> c \<in> set ''0123456789''"

definition is_let_dig_hyp :: "char \<Rightarrow> bool" where
  "is_let_dig_hyp c \<longleftrightarrow> is_let_dig c \<or> c = CHR ''-''"

definition find_first_of :: "string \<Rightarrow> char \<Rightarrow> nat \<Rightarrow> nat option" where
  "find_first_of name c pos = find (\<lambda>i. name ! i = c) [pos..<length name]"

definition label_end :: "string \<Rightarrow> nat \<Rightarrow> nat" where
  "label_end name b = (case find_first_of name CHR ''.'' b of None \<Rightarrow> length name | Some e \<Rightarrow> e)"

lemma label_end_bounds: "b \<le> length name \<Longrightarrow> b \<le> label_end name b \<and> label_end name b \<le> length name"
  by (auto simp: label_end_def find_first_of_def find_Some_iff split: option.split)

lemma label_end_past: "length name < b \<Longrightarrow> label_end name b = length name"
  by (simp add: label_end_def find_first_of_def)

function valid_labels :: "string \<Rightarrow> nat \<Rightarrow> bool" where
  "valid_labels name b =
     (let e = label_end name b in
      if e - b < GRAPHENE_MIN_ACCOUNT_NAME_LENGTH then False
      else if \<not> is_letter (name ! b) then False
      else if \<not> is_let_dig (name ! (e - 1)) then False
      else if \<not> list_all (\<lambda>i. is_let_dig_hyp (name ! i)) [b + 1..<e - 1] then False
      else if e = length name then True
      else valid_labels name (e + 1))"
  by pat_completeness auto

termination valid_labels
proof (relation "measure (\<lambda>(name, b). length name + 1 - b)"; simp)
  fix name :: string and b
  assume "\<not> label_end name b - b < GRAPHENE_MIN_ACCOUNT_NAME_LENGTH" "label_end name b \<noteq> length name"
  then show "length name - label_end name b < Suc (length name) - b"
    using label_end_bounds [of b name] label_end_past [of name b] by (force simp: chain_defs)
qed

declare valid_labels.simps [simp del]

definition is_valid_name :: "bool \<Rightarrow> string \<Rightarrow> bool res" where
  "is_valid_name before_385 name =
     bindE (if before_385 then assertE (3 \<le> length name) ''len >= 3'' else Inr ()) (\<lambda>_.
     Inr (if length name < GRAPHENE_MIN_ACCOUNT_NAME_LENGTH then False
          else if GRAPHENE_MAX_ACCOUNT_NAME_LENGTH < length name then False
          else valid_labels name 0))"

fun is_cheap_loop :: "bool \<Rightarrow> string \<Rightarrow> bool" where
  "is_cheap_loop v [] = (if \<not> v then True else False)"
| "is_cheap_loop v (c # cs) =
     (if c \<in> set ''0123456789'' then True
      else if c = CHR ''.'' \<or> c = CHR ''-'' \<or> c = CHR ''/'' then True
      else is_cheap_loop (if c \<in> set ''aeiouy'' then True else v) cs)"

definition is_cheap_name :: "string \<Rightarrow> bool" where
  "is_cheap_name n = is_cheap_loop False n"

subsection \<open>Asset symbols\<close>

definition isupper :: "char \<Rightarrow> bool" where
  "isupper c \<longleftrightarrow> c \<in> set ''ABCDEFGHIJKLMNOPQRSTUVWXYZ''"

definition isalpha :: "char \<Rightarrow> bool" where
  "isalpha c \<longleftrightarrow> isupper c \<or> is_letter c"

definition isdigit :: "char \<Rightarrow> bool" where
  "isdigit c \<longleftrightarrow> c \<in> set ''0123456789''"

fun symbol_chars :: "bool \<Rightarrow> string \<Rightarrow> bool" where
  "symbol_chars dot_already_present [] = True"
| "symbol_chars dot_already_present (c # cs) =
     (if isalpha c \<and> isupper c \<or> isdigit c then symbol_chars dot_already_present cs
      else if c = CHR ''.'' then (if dot_already_present then False else symbol_chars True cs)
      else False)"

definition is_valid_symbol :: "string \<Rightarrow> bool" where
  "is_valid_symbol symbol =
     (if length symbol < GRAPHENE_MIN_ASSET_SYMBOL_LENGTH then False
      else if take 3 symbol = ''BIT'' then False
      else if GRAPHENE_MAX_ASSET_SYMBOL_LENGTH < length symbol then False
      else if \<not> isalpha (hd symbol) then False
      else if \<not> isalpha (last symbol) then False
      else symbol_chars False symbol)"

subsection \<open>The grammar of the comment\<close>

inductive ldh_str :: "string \<Rightarrow> bool" where
  ldh_one: "is_let_dig_hyp c \<Longrightarrow> ldh_str [c]"
| ldh_more: "is_let_dig_hyp c \<Longrightarrow> ldh_str s \<Longrightarrow> ldh_str (c # s)"

inductive label :: "string \<Rightarrow> bool" where
  label_one: "is_letter c \<Longrightarrow> label [c]"
| label_two: "is_letter c \<Longrightarrow> is_let_dig d \<Longrightarrow> label [c, d]"
| label_many: "is_letter c \<Longrightarrow> ldh_str s \<Longrightarrow> is_let_dig d \<Longrightarrow> label (c # s @ [d])"

inductive subdomain :: "string \<Rightarrow> bool" where
  sub_label: "label l \<Longrightarrow> subdomain l"
| sub_more: "subdomain s \<Longrightarrow> label l \<Longrightarrow> subdomain (s @ CHR ''.'' # l)"

lemma ldh_str_iff: "ldh_str s \<longleftrightarrow> s \<noteq> [] \<and> (\<forall>c\<in>set s. is_let_dig_hyp c)"
proof (induction s)
  case Nil
  then show ?case by (auto elim: ldh_str.cases)
next
  case (Cons c s)
  then show ?case
    by (cases s) (auto intro: ldh_str.intros elim: ldh_str.cases)
qed

lemma label_iff:
  "label l \<longleftrightarrow> l \<noteq> [] \<and> is_letter (hd l) \<and> is_let_dig (last l) \<and> (\<forall>c\<in>set l. is_let_dig_hyp c)"
  (is "?L = ?R")
proof
  show "?L \<Longrightarrow> ?R"
    by (induction rule: label.induct) (auto simp: is_let_dig_hyp_def is_let_dig_def ldh_str_iff)
next
  assume R: ?R
  then obtain c t where l: "l = c # t" by (cases l) auto
  show ?L
  proof (cases t rule: rev_cases)
    case Nil
    then show ?thesis using R l by (simp add: label_one)
  next
    case (snoc m d)
    then show ?thesis
      using R l by (cases "m = []") (auto simp: ldh_str_iff intro: label_two label_many)
  qed
qed

lemma dot_not_ldh: "\<not> is_let_dig_hyp CHR ''.''"
  by (simp add: is_let_dig_hyp_def is_let_dig_def is_letter_def)

lemma label_no_dot: "label l \<Longrightarrow> CHR ''.'' \<notin> set l"
  using dot_not_ldh by (auto simp: label_iff)

lemma subdomain_front: "subdomain s \<Longrightarrow> label l \<Longrightarrow> subdomain (l @ CHR ''.'' # s)"
proof (induction rule: subdomain.induct)
  case (sub_label l')
  then show ?case by (blast intro: subdomain.intros)
next
  case (sub_more s l')
  then have "subdomain ((l @ CHR ''.'' # s) @ CHR ''.'' # l')" by (blast intro: subdomain.sub_more)
  then show ?case by simp
qed

lemma subdomain_cases_front:
  assumes "subdomain s"
  shows "label s \<or> (\<exists>l t. s = l @ CHR ''.'' # t \<and> label l \<and> subdomain t)"
  using assms
proof (induction rule: subdomain.induct)
  case (sub_more s l)
  from sub_more.IH show ?case
  proof (elim disjE exE conjE)
    assume "label s"
    then show ?case using subdomain.sub_label [OF sub_more.hyps(2)] by blast
  next
    fix l' t
    assume s: "s = l' @ CHR ''.'' # t" "label l'" "subdomain t"
    have "subdomain (t @ CHR ''.'' # l)" by (rule subdomain.sub_more [OF s(3) sub_more.hyps(2)])
    then show ?case using s(1,2) by (intro disjI2 exI [of _ l'] exI [of _ "t @ CHR ''.'' # l"]) simp
  qed
qed blast

text \<open>Splitting at the first dot is unambiguous.\<close>

lemma split_at_dot:
  assumes "CHR ''.'' \<notin> set l" and "CHR ''.'' \<notin> set l'" and "l @ CHR ''.'' # t = l' @ CHR ''.'' # t'"
  shows "l = l' \<and> t = t'"
  using assms
proof (induction l arbitrary: l')
  case Nil
  then show ?case by (cases l') auto
next
  case (Cons c l)
  then show ?case by (cases l') auto
qed

lemma subdomain_split:
  assumes "CHR ''.'' \<notin> set l"
  shows "subdomain (l @ CHR ''.'' # t) \<longleftrightarrow> label l \<and> subdomain t"
proof
  assume "subdomain (l @ CHR ''.'' # t)"
  then obtain l' t' where s: "l @ CHR ''.'' # t = l' @ CHR ''.'' # t'" "label l'" "subdomain t'"
    using subdomain_cases_front label_no_dot by (metis in_set_conv_decomp)
  from split_at_dot [OF assms label_no_dot [OF s(2)] s(1)] s(2,3)
  show "label l \<and> subdomain t" by simp
qed (blast intro: subdomain_front)

lemma subdomain_no_dot: "CHR ''.'' \<notin> set l \<Longrightarrow> subdomain l \<longleftrightarrow> label l"
  using subdomain_cases_front [of l] sub_label by fastforce

subsection \<open>The index loop recognises the grammar\<close>

lemma label_end_split:
  assumes "b \<le> length name"
  defines "e \<equiv> label_end name b" and "l \<equiv> map ((!) name) [b..<label_end name b]"
  shows "CHR ''.'' \<notin> set l"
    and "drop b name = (if e = length name then l else l @ CHR ''.'' # drop (e + 1) name)"
proof -
  have e: "b \<le> e" "e \<le> length name" using label_end_bounds [OF assms(1)] by (auto simp: e_def)
  have l: "l = take (e - b) (drop b name)"
    by (rule nth_equalityI) (use e in \<open>auto simp: l_def e_def [symmetric]\<close>)
  have no: "name ! i \<noteq> CHR ''.''" if "b \<le> i" "i < e" for i
  proof (cases "find_first_of name CHR ''.'' b")
    case None
    then show ?thesis using that e by (auto simp: find_first_of_def find_None_iff)
  next
    case (Some k)
    then have "e = k" by (simp add: e_def label_end_def)
    moreover obtain j where "k = b + j" "\<forall>i<j. name ! (b + i) \<noteq> CHR ''.''"
      using Some by (auto simp: find_first_of_def find_Some_iff)
    ultimately show ?thesis using that by (metis add_diff_inverse_nat add_less_cancel_left not_le)
  qed
  then show "CHR ''.'' \<notin> set l" by (force simp: l_def e_def [symmetric])
  show "drop b name = (if e = length name then l else l @ CHR ''.'' # drop (e + 1) name)"
  proof (cases "e = length name")
    case True
    then show ?thesis by (simp add: l)
  next
    case False
    then have lt: "e < length name" using e by simp
    have dot: "name ! e = CHR ''.''"
    proof (cases "find_first_of name CHR ''.'' b")
      case None
      then show ?thesis using False by (simp add: e_def label_end_def)
    next
      case (Some k)
      then have "e = k" by (simp add: e_def label_end_def)
      then show ?thesis using Some by (auto simp: find_first_of_def find_Some_iff)
    qed
    have "drop b name = take (e - b) (drop b name) @ drop (e - b) (drop b name)"
      by (rule append_take_drop_id [symmetric])
    also have "drop (e - b) (drop b name) = drop e name" using e by simp
    also have "\<dots> = CHR ''.'' # drop (e + 1) name"
      using Cons_nth_drop_Suc [OF lt] dot by simp
    finally show ?thesis using False l by simp
  qed
qed

lemma label_indices:
  assumes "b < e" and l_def: "l = map ((!) name) [b..<e]"
  shows "label l \<longleftrightarrow>
    is_letter (name ! b) \<and> is_let_dig (name ! (e - 1)) \<and> (\<forall>i\<in>set [b + 1..<e - 1]. is_let_dig_hyp (name ! i))"
proof -
  have ends: "hd l = name ! b" "last l = name ! (e - 1)" "l \<noteq> []"
    using assms(1) by (simp_all add: l_def hd_map last_map)
  have hyp: "is_let_dig_hyp (name ! i)"
    if "is_letter (name ! b)" "is_let_dig (name ! (e - 1))" "\<forall>i\<in>set [b + 1..<e - 1]. is_let_dig_hyp (name ! i)"
      "b \<le> i" "i < e" for i
  proof -
    note facts = that
    consider "i = b" | "i = e - 1" | "i \<in> set [b + 1..<e - 1]"
      using facts(4,5) by fastforce
    then show ?thesis using facts by cases (simp_all add: is_let_dig_hyp_def is_let_dig_def)
  qed
  have "(\<forall>c\<in>set l. is_let_dig_hyp c) \<longleftrightarrow> (\<forall>i. b \<le> i \<and> i < e \<longrightarrow> is_let_dig_hyp (name ! i))"
    by (auto simp: l_def)
  then show ?thesis using ends hyp by (auto simp: label_iff)
qed

lemma valid_labels_iff:
  assumes "b \<le> length name"
  shows "valid_labels name b \<longleftrightarrow> subdomain (drop b name)"
  using assms
proof (induction name b rule: valid_labels.induct)
  case (1 name b)
  define e where "e = label_end name b"
  define l where "l = map ((!) name) [b..<e]"
  have e: "b \<le> e" "e \<le> length name" using label_end_bounds [OF "1.prems"] by (auto simp: e_def)
  note split = label_end_split [OF "1.prems", folded e_def, folded l_def]
  have dom: "subdomain (drop b name) \<longleftrightarrow> label l \<and> (e = length name \<or> subdomain (drop (e + 1) name))"
    using split subdomain_split [OF split(1)] subdomain_no_dot [OF split(1)] by auto
  show ?case
  proof (cases "b < e \<and> label l \<and> e \<noteq> length name")
    case True
    then have ok: "is_letter (name ! b)" "is_let_dig (name ! (e - 1))"
        "list_all (\<lambda>i. is_let_dig_hyp (name ! i)) [b + 1..<e - 1]"
      using label_indices [OF _ l_def] by (auto simp: list_all_iff)
    have "valid_labels name (e + 1) \<longleftrightarrow> subdomain (drop (e + 1) name)"
      using "1.IH" [OF e_def] True ok e by (simp add: chain_defs)
    then show ?thesis
      using True ok dom by (subst valid_labels.simps) (simp add: e_def [symmetric] chain_defs)
  next
    case False
    show ?thesis
    proof (cases "b < e")
      case True
      then show ?thesis
        using False label_indices [OF True l_def] dom
        by (subst valid_labels.simps) (auto simp: e_def [symmetric] chain_defs list_all_iff)
    next
      case False
      then have "l = []" by (simp add: l_def)
      then have "\<not> subdomain (drop b name)" using dom by (simp add: label_iff)
      moreover have "\<not> valid_labels name b"
        using False by (subst valid_labels.simps) (simp add: e_def [symmetric] Let_def chain_defs)
      ultimately show ?thesis by blast
    qed
  qed
qed

text \<open>
  The index loop of \<open>is_valid_name\<close> decides the grammar of the comment above it: a name
  is accepted exactly when it is a word of \<open>subdomain\<close> (lower case) of at most 63 characters.
  Labels of one character are accepted, although the comment asks for three. Before the hard
  fork time a shorter name throws instead of giving an answer.
\<close>

theorem is_valid_name_grammar:
  "is_valid_name before_385 name =
     (if before_385 \<and> length name < 3 then Inl (Assert_exception ''len >= 3'')
      else Inr (subdomain name \<and> length name \<le> 63))"
proof -
  have "subdomain s \<Longrightarrow> s \<noteq> []" for s
    by (induction rule: subdomain.induct) (auto simp: label_iff)
  then have "subdomain name \<Longrightarrow> 1 \<le> length name" by (simp add: Suc_le_eq)
  then show ?thesis
    using valid_labels_iff [of 0 name]
    by (auto simp: is_valid_name_def assertE_def name_lengths)
qed

subsection \<open>Symbols and cheap names\<close>

lemma symbol_chars_iff:
  "symbol_chars d cs \<longleftrightarrow>
     (\<forall>c\<in>set cs. isupper c \<or> isdigit c \<or> c = CHR ''.'') \<and>
     length (filter (\<lambda>c. c = CHR ''.'') cs) \<le> (if d then 0 else 1)"
proof -
  have no_dot: "\<not> isupper CHR ''.''" "\<not> isdigit CHR ''.''"
    by (simp_all add: isupper_def isdigit_def)
  show ?thesis
    by (induction d cs rule: symbol_chars.induct) (auto simp: isalpha_def no_dot filter_empty_conv)
qed

lemma upper_not_lower: "isupper c \<Longrightarrow> \<not> is_letter c"
  by (auto simp: isupper_def is_letter_def)

text \<open>
  \<open>is_valid_symbol\<close> accepts exactly the strings of 3 to 16 characters of \<open>[A-Z0-9.]\<close>
  that start and end with a capital letter, have at most one dot, and do not start with
  \<open>BIT\<close> (a rule the comment does not state).
\<close>

theorem is_valid_symbol_spec:
  "is_valid_symbol s \<longleftrightarrow>
     3 \<le> length s \<and> length s \<le> 16 \<and> \<not> prefix ''BIT'' s \<and>
     isupper (hd s) \<and> isupper (last s) \<and>
     list_all (\<lambda>c. isupper c \<or> isdigit c \<or> c = CHR ''.'') s \<and>
     length (filter (\<lambda>c. c = CHR ''.'') s) \<le> 1"
proof (cases "3 \<le> length s")
  case True
  then have ne: "s \<noteq> []" by auto
  have pre: "take 3 s = ''BIT'' \<longleftrightarrow> prefix ''BIT'' s"
    using True by (metis append_take_drop_id append_eq_conv_conj length_Cons list.size(3) numeral_3_eq_3 prefix_def)
  have alpha: "isalpha c \<longleftrightarrow> isupper c" if "isupper c \<or> isdigit c \<or> c = CHR ''.''" for c
    using that by (auto simp: isalpha_def isdigit_def is_letter_def)
  show ?thesis
    using True ne pre alpha [of "hd s"] alpha [of "last s"] hd_in_set [OF ne] last_in_set [OF ne]
    by (auto simp: is_valid_symbol_def name_lengths symbol_chars_iff list_all_iff)
next
  case False
  then show ?thesis by (simp add: is_valid_symbol_def name_lengths)
qed

lemma is_cheap_loop_iff:
  "is_cheap_loop v n \<longleftrightarrow>
     (\<exists>c\<in>set n. c \<in> set ''0123456789./-'') \<or> \<not> v \<and> (\<forall>c\<in>set n. c \<notin> set ''aeiouy'')"
  by (induction v n rule: is_cheap_loop.induct) auto

lemma is_cheap_name_iff:
  "is_cheap_name n \<longleftrightarrow>
     (\<exists>c\<in>set n. c \<in> set ''0123456789./-'') \<or> (\<forall>c\<in>set n. c \<notin> set ''aeiouy'')"
  by (simp add: is_cheap_name_def is_cheap_loop_iff)

end
