(* ===== verification/Op_Types.thy ===== *)
theory Op_Types
  imports Names Asset_Price Authority
begin

text \<open>
  The types the operations of the protocol share: vote identifiers
  (\<open>protocol/vote.hpp\<close>), the permission flags of assets (\<open>protocol/types.hpp\<close>), special
  authorities, fee parameters, the chain parameters (\<open>protocol/chain_parameters.hpp\<close>) and the
  data fee (\<open>protocol/operations.cpp\<close>).

  Every operation struct becomes a record that extends \<open>base_operation\<close> with its own fields; a
  field name that several structs use carries the name of its struct. The member
  \<open>extensions\<close> of type \<open>extensions_type\<close> can only hold the empty \<open>void_t\<close> and is left out.
  Times are seconds, and sizes of serialised data come from the serialisation library and are
  parameters.
\<close>

subsection \<open>Vote identifiers\<close>

type_synonym vote_id_type = "32 word"

datatype vote_type = Committee | Witness | Worker

definition vote_type_code :: "vote_type \<Rightarrow> 32 word" where
  "vote_type_code t = (case t of Committee \<Rightarrow> 0 | Witness \<Rightarrow> 1 | Worker \<Rightarrow> 2)"

unbundle bit_operations_syntax

definition make_vote_id :: "vote_type \<Rightarrow> 32 word \<Rightarrow> vote_id_type" where
  "make_vote_id t inst = push_bit 8 inst OR vote_type_code t"

definition vote_id_set_type :: "vote_type \<Rightarrow> vote_id_type \<Rightarrow> vote_id_type" where
  "vote_id_set_type t v = (v AND 0xffffff00) OR (vote_type_code t AND 0xff)"

definition vote_id_type_of :: "vote_id_type \<Rightarrow> 32 word" where
  "vote_id_type_of v = v AND 0xff"

definition vote_id_set_instance :: "32 word \<Rightarrow> vote_id_type \<Rightarrow> vote_id_type res" where
  "vote_id_set_instance inst v =
     bindE (assertE (inst < 0x01000000) ''instance < 0x01000000'') (\<lambda>_.
     Inr ((v AND 0xff) OR push_bit 8 inst))"

definition vote_id_instance :: "vote_id_type \<Rightarrow> 32 word" where
  "vote_id_instance v = drop_bit 8 v"

text \<open>The counter of the global properties that numbers the votes.\<close>

definition get_next_vote_id :: "32 word \<Rightarrow> vote_type \<Rightarrow> vote_id_type \<times> 32 word" where
  "get_next_vote_id next_available_vote_id t =
     (make_vote_id t next_available_vote_id, next_available_vote_id + 1)"

subsection \<open>Flags of assets\<close>

definition charge_market_fee :: "32 word" where "charge_market_fee = 0x01"
definition white_list :: "32 word" where "white_list = 0x02"
definition override_authority :: "32 word" where "override_authority = 0x04"
definition transfer_restricted :: "32 word" where "transfer_restricted = 0x08"
definition disable_force_settle :: "32 word" where "disable_force_settle = 0x10"
definition global_settle :: "32 word" where "global_settle = 0x20"
definition disable_confidential :: "32 word" where "disable_confidential = 0x40"
definition witness_fed_asset :: "32 word" where "witness_fed_asset = 0x80"
definition committee_fed_asset :: "32 word" where "committee_fed_asset = 0x100"

lemmas asset_flag_defs =
  charge_market_fee_def white_list_def override_authority_def transfer_restricted_def
  disable_force_settle_def global_settle_def disable_confidential_def witness_fed_asset_def
  committee_fed_asset_def

definition ASSET_ISSUER_PERMISSION_MASK :: "32 word" where
  "ASSET_ISSUER_PERMISSION_MASK =
     charge_market_fee OR white_list OR override_authority OR transfer_restricted OR
     disable_force_settle OR global_settle OR disable_confidential OR witness_fed_asset OR
     committee_fed_asset"

definition UIA_ASSET_ISSUER_PERMISSION_MASK :: "32 word" where
  "UIA_ASSET_ISSUER_PERMISSION_MASK =
     charge_market_fee OR white_list OR override_authority OR transfer_restricted OR
     disable_confidential"

text \<open>A 16-bit flag field tested against a mask: the field is promoted first.\<close>

definition flag_and :: "16 word \<Rightarrow> 32 word \<Rightarrow> 32 word" where
  "flag_and f m = ucast f AND m"

subsection \<open>Limits\<close>

definition GRAPHENE_100_PERCENT :: nat where "GRAPHENE_100_PERCENT = 10000"
definition GRAPHENE_MAX_URL_LENGTH :: nat where "GRAPHENE_MAX_URL_LENGTH = 127"
definition GRAPHENE_MAX_WORKER_NAME_LENGTH :: nat where "GRAPHENE_MAX_WORKER_NAME_LENGTH = 63"
definition GRAPHENE_MIN_BLOCK_INTERVAL :: nat where "GRAPHENE_MIN_BLOCK_INTERVAL = 1"
definition GRAPHENE_MAX_BLOCK_INTERVAL :: nat where "GRAPHENE_MAX_BLOCK_INTERVAL = 30"
definition GRAPHENE_MIN_TRANSACTION_SIZE_LIMIT :: nat where "GRAPHENE_MIN_TRANSACTION_SIZE_LIMIT = 1024"
definition GRAPHENE_MIN_BLOCK_SIZE_LIMIT :: nat where
  "GRAPHENE_MIN_BLOCK_SIZE_LIMIT = GRAPHENE_MIN_TRANSACTION_SIZE_LIMIT * 5"

subsection \<open>Members of operations\<close>

record base_operation =
  fee :: asset

record memo_data =
  memo_from :: public_key_type
  memo_to :: public_key_type
  nonce :: nat
  message :: "nat list"

datatype special_authority =
    No_special_authority
  | Top_holders_special_authority asset_id_type nat

definition validate_special_authority :: "special_authority \<Rightarrow> unit res" where
  "validate_special_authority a =
     (case a of
        No_special_authority \<Rightarrow> Inr ()
      | Top_holders_special_authority _ num_top_holders \<Rightarrow>
          assertE (0 < num_top_holders) ''a.num_top_holders > 0'')"

record buyback_account_options =
  asset_to_buy :: asset_id_type
  asset_to_buy_issuer :: account_id_type
  markets :: "asset_id_type list"

text \<open>An optional member is validated when it is present.\<close>

definition whenE :: "'a option \<Rightarrow> ('a \<Rightarrow> unit res) \<Rightarrow> unit res" where
  "whenE x f = (case x of None \<Rightarrow> Inr () | Some v \<Rightarrow> f v)"

lemma whenE_eq_Inr [res_simps]: "whenE x f = Inr u \<longleftrightarrow> (\<forall>v. x = Some v \<longrightarrow> f v = Inr ())"
  by (cases x) (simp_all add: whenE_def)

definition fee_not_negative :: "'a base_operation_scheme \<Rightarrow> unit res" where
  "fee_not_negative x = assertE (0 \<le> amount (fee x)) ''fee.amount >= 0''"

lemma fee_not_negative_eq_Inr [res_simps]: "fee_not_negative x = Inr u \<longleftrightarrow> 0 \<le> amount (fee x)"
  by (simp add: fee_not_negative_def res_simps)

subsection \<open>Fees of data\<close>

text \<open>
  The shapes of the structs \<open>fee_parameters_type\<close>: no parameter, a fee, a fee with a price per
  kilobyte or per output, and those of account and asset creation and of upgrades.
\<close>

datatype fee_data =
    Fee_none
  | Fee_flat nat
  | Fee_sized nat nat
  | Fee_account_create nat nat nat
  | Fee_asset_create nat nat nat nat
  | Fee_membership nat nat

text \<open>
  \<open>fc_share_of\<close> is the construction of a share from an unsigned 64-bit number, which belongs to
  the class \<open>fc::safe\<close>; it is exact on numbers below \<open>2 ^ 63\<close>.
\<close>

record fee_env = fc_env +
  fc_share_of :: "nat \<Rightarrow> int res"

definition fee_contract :: "'z fee_env_scheme \<Rightarrow> bool" where
  "fee_contract E \<longleftrightarrow> fc_contract E \<and> (\<forall>n. n < 2 ^ 63 \<longrightarrow> fc_share_of E n = Inr (int n))"

definition fee_std :: fee_env where
  "fee_std = fc_env.extend fc_std
     \<lparr>fc_share_of = (\<lambda>n. if n < 2 ^ 63 then Inr (int n) else Inl Overflow_exception)\<rparr>"

lemma fee_std_contract: "fee_contract fee_std"
  using fc_std_contract by (simp add: fee_contract_def fee_std_def fc_env.defs fc_contract_def)

text \<open>
  The product of the size and the price is formed with 128 bits and cannot wrap, since both are
  64-bit numbers.
\<close>

definition calculate_data_fee :: "'z fee_env_scheme \<Rightarrow> nat \<Rightarrow> nat \<Rightarrow> nat res" where
  "calculate_data_fee E bytes price_per_kbyte =
     (let result = ((of_nat bytes * of_nat price_per_kbyte) :: u128) div 1024 in
      bindE (assertE (uint result \<le> GRAPHENE_MAX_SHARE_SUPPLY) ''result <= GRAPHENE_MAX_SHARE_SUPPLY'') (\<lambda>_.
      bindE (fc_to_uint64 E result) (\<lambda>r. Inr (unat r))))"

lemma calculate_data_fee_exact:
  assumes "fc_contract E" and "bytes < 2 ^ 64" and "price < 2 ^ 64" and "bytes * price div 1024 \<le> 10 ^ 12"
  shows "calculate_data_fee E bytes price = Inr (bytes * price div 1024)"
proof -
  define r where "r = ((of_nat bytes * of_nat price) :: u128) div 1024"
  have "bytes * price < 2 ^ 64 * 2 ^ 64" by (rule mult_strict_mono) (use assms(2,3) in simp_all)
  then have small: "bytes * price < 2 ^ 128" by simp
  have "unat (of_nat (bytes * price) :: u128) = bytes * price"
    using small by (simp only: unat_of_nat) (simp add: take_bit_nat_eq_self)
  then have r: "unat r = bytes * price div 1024" by (simp add: r_def unat_div_distrib)
  then have u: "uint r = int (bytes * price div 1024)" by (simp only: uint_nat)
  then have le: "uint r \<le> GRAPHENE_MAX_SHARE_SUPPLY"
    using assms(4) unfolding GRAPHENE_MAX_SHARE_SUPPLY_def by simp
  then have lt: "uint r < 2 ^ 64" unfolding GRAPHENE_MAX_SHARE_SUPPLY_def by simp
  have "unat r < 2 ^ 64" using assms(4) by (simp add: r)
  then have "unat (ucast r :: 64 word) = unat r"
    by (simp add: unsigned_ucast_eq take_bit_nat_eq_self)
  moreover have "fc_to_uint64 E r = Inr (ucast r)" using assms(1) lt by (simp add: fc_contract_def)
  ultimately show ?thesis
    using le r by (simp add: calculate_data_fee_def r_def [symmetric])
qed

subsection \<open>Chain parameters\<close>

text \<open>A fee schedule holds the parameters of each kind of operation, tagged by its position.\<close>

record fee_schedule =
  parameters :: "(nat \<times> fee_data) list"
  scale :: nat

record chain_parameters =
  current_fees :: fee_schedule
  block_interval :: nat
  maintenance_interval :: nat
  maintenance_skip_slots :: nat
  committee_proposal_review_period :: nat
  maximum_transaction_size :: nat
  maximum_block_size :: nat
  maximum_time_until_expiration :: nat
  maximum_proposal_lifetime :: nat
  maximum_asset_whitelist_authorities :: nat
  maximum_asset_feed_publishers :: nat
  maximum_witness_count :: nat
  maximum_committee_count :: nat
  maximum_authority_membership :: nat
  reserve_percent_of_fee :: nat
  network_percent_of_fee :: nat
  lifetime_referrer_percent_of_fee :: nat
  cashback_vesting_period_seconds :: nat
  cashback_vesting_threshold :: int
  count_non_member_votes :: bool
  allow_non_member_whitelists :: bool
  witness_pay_per_block :: int
  witness_pay_vesting_seconds :: nat
  worker_budget_per_day :: int
  max_predicate_opcode :: nat
  fee_liquidation_threshold :: int
  accounts_per_fee_scale :: nat
  account_fee_scale_bitshifts :: nat
  max_authority_depth :: nat
  issuance_rate :: nat
  instant_payback_rate :: nat
  max_incentive_operations_per_block :: nat
  min_construction_capital_amount :: int
  min_construction_capital_period :: nat
  max_construction_capital_period :: nat
  min_construction_capital_period_len :: nat
  max_construction_capital_period_len :: nat
  max_construction_capital_vote :: nat

definition default_chain_parameters :: "fee_schedule \<Rightarrow> chain_parameters" where
  "default_chain_parameters fees =
    \<lparr>current_fees = fees, block_interval = 3, maintenance_interval = 86400, maintenance_skip_slots = 3,
     committee_proposal_review_period = 86400, maximum_transaction_size = 2048,
     maximum_block_size = 2048 * 3 * 200000, maximum_time_until_expiration = 86400,
     maximum_proposal_lifetime = 2419200, maximum_asset_whitelist_authorities = 10,
     maximum_asset_feed_publishers = 10, maximum_witness_count = 101, maximum_committee_count = 101,
     maximum_authority_membership = 10, reserve_percent_of_fee = 2000, network_percent_of_fee = 2000,
     lifetime_referrer_percent_of_fee = 3000, cashback_vesting_period_seconds = 31536000,
     cashback_vesting_threshold = 10000000, count_non_member_votes = True,
     allow_non_member_whitelists = False, witness_pay_per_block = 1000000,
     witness_pay_vesting_seconds = 86400, worker_budget_per_day = 50000000000,
     max_predicate_opcode = 1, fee_liquidation_threshold = 10000000, accounts_per_fee_scale = 1000,
     account_fee_scale_bitshifts = 4, max_authority_depth = 2, issuance_rate = 104285714,
     instant_payback_rate = 15000000, max_incentive_operations_per_block = 256,
     min_construction_capital_amount = 30000000, min_construction_capital_period = 604800,
     max_construction_capital_period = 31536000, min_construction_capital_period_len = 50,
     max_construction_capital_period_len = 600, max_construction_capital_vote = 5\<rparr>"

text \<open>
  The validation of the fee schedule visits every entry and does nothing. The difference of the
  two proposal periods is taken with unsigned 32-bit numbers.
\<close>

definition fee_schedule_validate :: "fee_schedule \<Rightarrow> unit res" where
  "fee_schedule_validate s = foldE (\<lambda>f u. Inr u) (parameters s) ()"

definition uint32_minus :: "nat \<Rightarrow> nat \<Rightarrow> nat" where
  "uint32_minus a b = nat ((int a - int b) mod 2 ^ 32)"

definition chain_parameters_validate :: "chain_parameters \<Rightarrow> unit res" where
  "chain_parameters_validate p =
     bindE (fee_schedule_validate (current_fees p)) (\<lambda>_.
     bindE (assertE (reserve_percent_of_fee p \<le> GRAPHENE_100_PERCENT) ''reserve_percent_of_fee'') (\<lambda>_.
     bindE (assertE (network_percent_of_fee p \<le> GRAPHENE_100_PERCENT) ''network_percent_of_fee'') (\<lambda>_.
     bindE (assertE (lifetime_referrer_percent_of_fee p \<le> GRAPHENE_100_PERCENT) ''lifetime_referrer_percent_of_fee'') (\<lambda>_.
     bindE (assertE (network_percent_of_fee p + lifetime_referrer_percent_of_fee p \<le> GRAPHENE_100_PERCENT) ''network_percent_of_fee + lifetime_referrer_percent_of_fee'') (\<lambda>_.
     bindE (assertE (GRAPHENE_MIN_BLOCK_INTERVAL \<le> block_interval p) ''block_interval min'') (\<lambda>_.
     bindE (assertE (block_interval p \<le> GRAPHENE_MAX_BLOCK_INTERVAL) ''block_interval max'') (\<lambda>_.
     bindE (assertE (0 < block_interval p) ''block_interval > 0'') (\<lambda>_.
     bindE (assertE (block_interval p < maintenance_interval p) ''Maintenance interval must be longer than block interval'') (\<lambda>_.
     bindE (assertE (maintenance_interval p mod block_interval p = 0) ''Maintenance interval must be a multiple of block interval'') (\<lambda>_.
     bindE (assertE (GRAPHENE_MIN_TRANSACTION_SIZE_LIMIT \<le> maximum_transaction_size p) ''Transaction size limit is too low'') (\<lambda>_.
     bindE (assertE (GRAPHENE_MIN_BLOCK_SIZE_LIMIT \<le> maximum_block_size p) ''Block size limit is too low'') (\<lambda>_.
     bindE (assertE (block_interval p < maximum_time_until_expiration p) ''Maximum transaction expiration time must be greater than a block interval'') (\<lambda>_.
     assertE (block_interval p < uint32_minus (maximum_proposal_lifetime p) (committee_proposal_review_period p))
       ''Committee proposal review period must be less than the maximum proposal lifetime'')))))))))))))"

subsection \<open>Laws\<close>

lemma fee_schedule_validate_ok [simp]: "fee_schedule_validate s = Inr ()"
proof -
  have "foldE (\<lambda>f u. Inr u) xs () = Inr ()" for xs :: "(nat \<times> fee_data) list"
    by (induction xs) simp_all
  then show ?thesis by (simp add: fee_schedule_validate_def)
qed

lemma vote_type_code_small: "vote_type_code t AND 0xff = vote_type_code t"
  by (cases t) (simp_all add: vote_type_code_def)

lemma drop_vote_type_code: "drop_bit 8 (vote_type_code t) = 0"
  by (cases t) (simp_all add: vote_type_code_def)

lemma mask_push_8: "push_bit 8 (w :: 32 word) AND 0xff = 0"
proof (rule bit_eqI)
  fix n assume "possible_bit TYPE(32 word) n"
  have m: "(0xff :: 32 word) = mask 8" by (simp add: mask_eq_exp_minus_1)
  show "bit (push_bit 8 w AND 0xff) n = bit (0 :: 32 word) n"
    unfolding m by (auto simp only: bit_and_iff bit_push_bit_iff bit_mask_iff bit_0_eq bot_fun_def bot_bool_def)
qed

lemma drop_push_8:
  assumes "unat (w :: 32 word) < 2 ^ 24"
  shows "drop_bit 8 (push_bit 8 w) = w"
proof (rule bit_eqI)
  fix n assume n: "possible_bit TYPE(32 word) n"
  have "bit w n \<Longrightarrow> n < 24"
  proof (rule ccontr)
    assume b: "bit w n" and "\<not> n < 24"
    then have "(2 :: nat) ^ 24 \<le> 2 ^ n" by (intro power_increasing) simp_all
    then have "unat w < 2 ^ n" using assms by (rule less_le_trans [rotated])
    then have "\<not> bit (unat w) n" by (simp add: bit_iff_odd)
    then show False using b by (simp add: bit_unsigned_iff)
  qed
  then show "bit (drop_bit 8 (push_bit 8 w)) n = bit w n"
    using n by (auto simp: bit_drop_bit_eq bit_push_bit_iff dest: bit_imp_le_length)
qed

lemma drop_or_8: "drop_bit 8 (a OR b :: 32 word) = drop_bit 8 a OR drop_bit 8 b"
  by (rule bit_eqI) (simp add: bit_drop_bit_eq bit_or_iff)

lemma and_or_distrib_32: "(a OR b) AND c = (a AND c) OR (b AND c :: 32 word)"
  by (rule bit_eqI) (auto simp: bit_and_iff bit_or_iff)

lemma drop_low_mask: "drop_bit 8 (v AND 0xff :: 32 word) = 0"
proof (rule bit_eqI)
  fix n
  have m: "(0xff :: 32 word) = mask 8" by (simp add: mask_eq_exp_minus_1)
  show "bit (drop_bit 8 (v AND 0xff)) n = bit (0 :: 32 word) n"
    unfolding m by (auto simp only: bit_drop_bit_eq comp_apply bit_and_iff bit_mask_iff bit_0_eq bot_fun_def bot_bool_def)
qed

lemma mask_low_24: "(v AND 0xff) AND 0xff = (v AND 0xff :: 32 word)"
  by (simp add: and.assoc)

text \<open>
  A vote identifier packs its type and an instance below \<open>2 ^ 24\<close> without loss: both are
  read back from the identifier the constructor makes and after either setter, and the setter of
  the instance keeps the type. The setter throws on a larger instance; the constructor, which
  numbers new votes, does not check and drops the high bits.
\<close>

theorem vote_id_roundtrip:
  assumes "unat inst < 2 ^ 24"
  shows "vote_id_type_of (make_vote_id t inst) = vote_type_code t \<and>
    vote_id_instance (make_vote_id t inst) = inst \<and>
    (\<exists>v'. vote_id_set_instance inst v = Inr v' \<and> vote_id_instance v' = inst \<and>
       vote_id_type_of v' = vote_id_type_of v) \<and>
    vote_id_set_instance 0x01000000 v = Inl (Assert_exception ''instance < 0x01000000'') \<and>
    vote_id_instance (make_vote_id t 0x01000000) = 0"
proof (intro conjI)
  note inst = drop_push_8 [OF assms]
  show "vote_id_type_of (make_vote_id t inst) = vote_type_code t"
    by (simp only: vote_id_type_of_def make_vote_id_def and_or_distrib_32 mask_push_8 vote_type_code_small or.left_neutral)
  show "vote_id_instance (make_vote_id t inst) = inst"
    by (simp only: vote_id_instance_def make_vote_id_def drop_or_8 inst drop_vote_type_code or.right_neutral)
  have "inst < 0x01000000" using assms by (simp add: word_less_nat_alt)
  then have "vote_id_set_instance inst v = Inr ((v AND 0xff) OR push_bit 8 inst)"
    by (simp add: vote_id_set_instance_def)
  moreover have "vote_id_instance ((v AND 0xff) OR push_bit 8 inst) = inst"
    by (simp only: vote_id_instance_def drop_or_8 inst drop_low_mask or.left_neutral)
  moreover have "vote_id_type_of ((v AND 0xff) OR push_bit 8 inst) = vote_id_type_of v"
    by (simp only: vote_id_type_of_def and_or_distrib_32 mask_push_8 mask_low_24 or.right_neutral)
  ultimately show "\<exists>v'. vote_id_set_instance inst v = Inr v' \<and> vote_id_instance v' = inst \<and>
       vote_id_type_of v' = vote_id_type_of v" by blast
  show "vote_id_set_instance 0x01000000 v = Inl (Assert_exception ''instance < 0x01000000'')"
    by (simp add: vote_id_set_instance_def assertE_def)
  show "vote_id_instance (make_vote_id t 0x01000000) = 0"
    by (cases t) (simp_all add: vote_id_instance_def make_vote_id_def vote_type_code_def)
qed

theorem vote_id_roundtrip_witness:
  "vote_id_instance (make_vote_id Witness 42) = 42 \<and>
   (\<exists>v'. vote_id_set_instance 42 0x101 = Inr v' \<and> vote_id_instance v' = 42 \<and> vote_id_type_of v' = 1)"
  using vote_id_roundtrip [where inst = 42 and t = Witness and v = "0x101"] by (auto simp: vote_id_type_of_def)

lemma uint32_minus_le: "b \<le> a \<Longrightarrow> a < 2 ^ 32 \<Longrightarrow> uint32_minus a b = a - b"
  unfolding uint32_minus_def by (subst mod_pos_pos_trivial) simp_all

text \<open>
  chain parameters that pass the validation split the fees in shares of at most 100 percent
  and have a maintenance interval that is a proper multiple of the block interval of 1 to 30
  seconds. The review period is below the proposal lifetime by more than a block interval only
  when it does not exceed the lifetime: the unsigned difference wraps, so the defaults with a
  review period longer than the lifetime are accepted.
\<close>

theorem chain_parameters_validation:
  assumes "chain_parameters_validate p = Inr ()" and "maximum_proposal_lifetime p < 2 ^ 32"
  shows "network_percent_of_fee p + lifetime_referrer_percent_of_fee p \<le> 10000 \<and>
    reserve_percent_of_fee p \<le> 10000 \<and> 1 \<le> block_interval p \<and> block_interval p \<le> 30 \<and>
    block_interval p dvd maintenance_interval p \<and> block_interval p < maintenance_interval p \<and>
    (committee_proposal_review_period p \<le> maximum_proposal_lifetime p \<longrightarrow>
       committee_proposal_review_period p + block_interval p < maximum_proposal_lifetime p) \<and>
    chain_parameters_validate ((default_chain_parameters fees)\<lparr>committee_proposal_review_period :=
       maximum_proposal_lifetime (default_chain_parameters fees) + 1\<rparr>) = Inr ()"
proof -
  have "chain_parameters_validate ((default_chain_parameters fees)\<lparr>committee_proposal_review_period :=
       maximum_proposal_lifetime (default_chain_parameters fees) + 1\<rparr>) = Inr ()"
    by (simp add: chain_parameters_validate_def default_chain_parameters_def GRAPHENE_100_PERCENT_def
        GRAPHENE_MIN_BLOCK_INTERVAL_def GRAPHENE_MAX_BLOCK_INTERVAL_def GRAPHENE_MIN_BLOCK_SIZE_LIMIT_def
        GRAPHENE_MIN_TRANSACTION_SIZE_LIMIT_def uint32_minus_def)
  moreover have "block_interval p < uint32_minus (maximum_proposal_lifetime p) (committee_proposal_review_period p)"
    using assms(1) by (simp add: chain_parameters_validate_def res_simps)
  then have "committee_proposal_review_period p \<le> maximum_proposal_lifetime p \<longrightarrow>
       committee_proposal_review_period p + block_interval p < maximum_proposal_lifetime p"
    using uint32_minus_le [OF _ assms(2)] by auto
  ultimately show ?thesis
    using assms(1)
    by (simp add: chain_parameters_validate_def res_simps GRAPHENE_100_PERCENT_def
        GRAPHENE_MIN_BLOCK_INTERVAL_def GRAPHENE_MAX_BLOCK_INTERVAL_def mod_eq_0_iff_dvd)
qed

theorem chain_parameters_validation_witness:
  "chain_parameters_validate ((default_chain_parameters \<lparr>parameters = [], scale = 10000\<rparr>)
     \<lparr>committee_proposal_review_period := 2419201\<rparr>) = Inr () \<and>
   network_percent_of_fee (default_chain_parameters \<lparr>parameters = [], scale = 10000\<rparr>) + 3000 \<le> 10000"
  using chain_parameters_validation [of "default_chain_parameters \<lparr>parameters = [], scale = 10000\<rparr>"
    "\<lparr>parameters = [], scale = 10000\<rparr>"]
  by (simp add: chain_parameters_validate_def default_chain_parameters_def GRAPHENE_100_PERCENT_def
        GRAPHENE_MIN_BLOCK_INTERVAL_def GRAPHENE_MAX_BLOCK_INTERVAL_def GRAPHENE_MIN_BLOCK_SIZE_LIMIT_def
        GRAPHENE_MIN_TRANSACTION_SIZE_LIMIT_def uint32_minus_def)

end
