(* ===== verification/Account_Ops.thy ===== *)
theory Account_Ops
  imports Op_Types
begin

text \<open>
  The operations on accounts (\<open>protocol/account.hpp\<close>, \<open>protocol/account.cpp\<close>) with their
  fees and validation, and those on transfers, withdraw permissions, vesting balances and genesis
  balances (\<open>protocol/transfer.cpp\<close>, \<open>withdraw_permission.cpp\<close>, \<open>vesting.hpp\<close>,
  \<open>balance.hpp\<close>).

  A function \<open>..._calculate_fee\<close> takes the parameters of the fee schedule as separate
  arguments, and the packed size of the operation or of its memo as \<open>bytes\<close>.
\<close>

definition u64_add :: "nat \<Rightarrow> nat \<Rightarrow> nat" where
  "u64_add a b = (a + b) mod 2 ^ 64"

subsection \<open>Account operations\<close>

record account_options =
  memo_key :: public_key_type
  voting_account :: account_id_type
  num_witness :: nat
  num_committee :: nat
  votes :: "vote_id_type list"

record account_create_operation = base_operation +
  registrar :: account_id_type
  referrer :: account_id_type
  referrer_percent :: nat
  acc_name :: string
  acc_owner :: authority
  acc_active :: authority
  acc_options :: account_options
  acc_owner_special_authority :: "special_authority option"
  acc_active_special_authority :: "special_authority option"
  buyback_options :: "buyback_account_options option"

record account_update_operation = base_operation +
  upd_account :: account_id_type
  upd_owner :: "authority option"
  upd_active :: "authority option"
  new_options :: "account_options option"
  upd_owner_special_authority :: "special_authority option"
  upd_active_special_authority :: "special_authority option"

record account_whitelist_operation = base_operation +
  authorizing_account :: account_id_type
  account_to_list :: account_id_type
  new_listing :: nat

record account_upgrade_operation = base_operation +
  account_to_upgrade :: account_id_type
  upgrade_to_lifetime_member :: bool

record account_transfer_operation = base_operation +
  atr_account_id :: account_id_type
  new_owner :: account_id_type

record account_create_by_transfer_operation = base_operation +
  cbt_from :: account_id_type
  account_key :: public_key_type
  cbt_amount :: asset
  cbt_memo :: "memo_data option"

definition account_create_fee_parameters :: fee_data where
  "account_create_fee_parameters = Fee_account_create 1000 2000000 1000"
definition account_update_fee_parameters :: fee_data where
  "account_update_fee_parameters = Fee_sized 100 100"
definition account_whitelist_fee_parameters :: fee_data where
  "account_whitelist_fee_parameters = Fee_flat 5000"
definition account_upgrade_fee_parameters :: fee_data where
  "account_upgrade_fee_parameters = Fee_membership 1000000 10000000"
definition account_transfer_fee_parameters :: fee_data where
  "account_transfer_fee_parameters = Fee_flat 10000000"
definition account_create_by_transfer_fee_parameters :: fee_data where
  "account_create_by_transfer_fee_parameters = Fee_sized 1000 100"

text \<open>
  The loop of \<open>account_options::validate\<close>: each vote lowers the counter of its kind while that
  counter is not zero; the \<open>else\<close> belongs to the first condition as a whole.
\<close>

fun remaining_votes :: "vote_id_type list \<Rightarrow> nat \<Rightarrow> nat \<Rightarrow> nat \<times> nat" where
  "remaining_votes [] needed_witnesses needed_committee = (needed_witnesses, needed_committee)"
| "remaining_votes (v # vs) needed_witnesses needed_committee =
     (if vote_id_type_of v = vote_type_code Witness \<and> needed_witnesses \<noteq> 0
      then remaining_votes vs (needed_witnesses - 1) needed_committee
      else if vote_id_type_of v = vote_type_code Committee \<and> needed_committee \<noteq> 0
      then remaining_votes vs needed_witnesses (needed_committee - 1)
      else remaining_votes vs needed_witnesses needed_committee)"

definition account_options_validate :: "account_options \<Rightarrow> unit res" where
  "account_options_validate opts =
     (let (needed_witnesses, needed_committee) = remaining_votes (votes opts) (num_witness opts) (num_committee opts)
      in assertE (needed_witnesses = 0 \<and> needed_committee = 0)
           ''May not specify fewer witnesses or committee members than the number voted for.'')"

definition account_create_calculate_fee :: "'z fee_env_scheme \<Rightarrow> nat \<Rightarrow> nat \<Rightarrow> nat \<Rightarrow> int res" where
  "account_create_calculate_fee E basic_fee price_per_kbyte bytes =
     bindE (calculate_data_fee E bytes price_per_kbyte) (\<lambda>data_fee.
     fc_share_of E (u64_add basic_fee data_fee))"

definition account_update_calculate_fee :: "'z fee_env_scheme \<Rightarrow> nat \<Rightarrow> nat \<Rightarrow> bool \<Rightarrow> nat \<Rightarrow> int res" where
  "account_update_calculate_fee E k_fee price_per_kbyte has_options bytes =
     bindE (fc_share_of E k_fee) (\<lambda>core_fee_required.
     if has_options then
       bindE (calculate_data_fee E bytes price_per_kbyte) (\<lambda>d.
       bindE (fc_share_of E d) (safe_add E core_fee_required))
     else Inr core_fee_required)"

definition account_upgrade_calculate_fee :: "'z fee_env_scheme \<Rightarrow> nat \<Rightarrow> nat \<Rightarrow> account_upgrade_operation \<Rightarrow> int res" where
  "account_upgrade_calculate_fee E membership_annual_fee membership_lifetime_fee x =
     (if upgrade_to_lifetime_member x then fc_share_of E membership_lifetime_fee
      else fc_share_of E membership_annual_fee)"

definition account_create_by_transfer_calculate_fee :: "'z fee_env_scheme \<Rightarrow> nat \<Rightarrow> nat \<Rightarrow> 'm option \<Rightarrow> nat \<Rightarrow> int res" where
  "account_create_by_transfer_calculate_fee E s_fee price_per_kbyte memo bytes =
     bindE (fc_share_of E s_fee) (\<lambda>core_fee_required.
     if memo \<noteq> None then
       bindE (calculate_data_fee E bytes price_per_kbyte) (\<lambda>d.
       bindE (fc_share_of E d) (safe_add E core_fee_required))
     else Inr core_fee_required)"

definition buyback_validate :: "account_create_operation \<Rightarrow> buyback_account_options \<Rightarrow> unit res" where
  "buyback_validate x b =
     bindE (assertE (acc_owner_special_authority x = None) ''no owner_special_authority'') (\<lambda>_.
     bindE (assertE (acc_active_special_authority x = None) ''no active_special_authority'') (\<lambda>_.
     bindE (assertE (acc_owner x = null_authority) ''owner == authority::null_authority()'') (\<lambda>_.
     bindE (assertE (acc_active x = null_authority) ''active == authority::null_authority()'') (\<lambda>_.
     bindE (assertE (0 < length (markets b)) ''n_markets > 0'') (\<lambda>_.
     foldE (\<lambda>m _. assertE (m \<noteq> asset_to_buy b) ''m != asset_to_buy'') (markets b) ())))))"

definition account_create_validate :: "bool \<Rightarrow> account_create_operation \<Rightarrow> unit res" where
  "account_create_validate before_385 x =
     bindE (fee_not_negative x) (\<lambda>_.
     bindE (is_valid_name before_385 (acc_name x)) (\<lambda>valid_name.
     bindE (assertE valid_name ''is_valid_name( name )'') (\<lambda>_.
     bindE (assertE (referrer_percent x \<le> GRAPHENE_100_PERCENT) ''referrer_percent <= GRAPHENE_100_PERCENT'') (\<lambda>_.
     bindE (assertE (num_auths (acc_owner x) \<noteq> 0) ''owner.num_auths() != 0'') (\<lambda>_.
     bindE (assertE (address_auths (acc_owner x) = []) ''owner.address_auths.size() == 0'') (\<lambda>_.
     bindE (assertE (num_auths (acc_active x) \<noteq> 0) ''active.num_auths() != 0'') (\<lambda>_.
     bindE (assertE (address_auths (acc_active x) = []) ''active.address_auths.size() == 0'') (\<lambda>_.
     bindE (assertE (\<not> is_impossible (acc_owner x)) ''cannot create an account with an imposible owner authority threshold'') (\<lambda>_.
     bindE (assertE (\<not> is_impossible (acc_active x)) ''cannot create an account with an imposible active authority threshold'') (\<lambda>_.
     bindE (account_options_validate (acc_options x)) (\<lambda>_.
     bindE (whenE (acc_owner_special_authority x) validate_special_authority) (\<lambda>_.
     bindE (whenE (acc_active_special_authority x) validate_special_authority) (\<lambda>_.
     whenE (buyback_options x) (buyback_validate x))))))))))))))"

definition authority_update_validate :: "authority \<Rightarrow> unit res" where
  "authority_update_validate a =
     bindE (assertE (num_auths a \<noteq> 0) ''num_auths() != 0'') (\<lambda>_.
     bindE (assertE (address_auths a = []) ''address_auths.size() == 0'') (\<lambda>_.
     assertE (\<not> is_impossible a) ''cannot update an account with an imposible authority threshold''))"

definition account_update_validate :: "account_update_operation \<Rightarrow> unit res" where
  "account_update_validate x =
     bindE (assertE (upd_account x \<noteq> GRAPHENE_TEMP_ACCOUNT) ''account != GRAPHENE_TEMP_ACCOUNT'') (\<lambda>_.
     bindE (fee_not_negative x) (\<lambda>_.
     bindE (assertE (upd_account x \<noteq> 0) ''account != account_id_type()'') (\<lambda>_.
     bindE (assertE (upd_owner x \<noteq> None \<or> upd_active x \<noteq> None \<or> new_options x \<noteq> None \<or>
                     upd_owner_special_authority x \<noteq> None \<or> upd_active_special_authority x \<noteq> None) ''has_action'') (\<lambda>_.
     bindE (whenE (upd_owner x) authority_update_validate) (\<lambda>_.
     bindE (whenE (upd_active x) authority_update_validate) (\<lambda>_.
     bindE (whenE (new_options x) account_options_validate) (\<lambda>_.
     bindE (whenE (upd_owner_special_authority x) validate_special_authority) (\<lambda>_.
     whenE (upd_active_special_authority x) validate_special_authority))))))))"

definition account_whitelist_validate :: "account_whitelist_operation \<Rightarrow> unit res" where
  "account_whitelist_validate x =
     bindE (fee_not_negative x) (\<lambda>_. assertE (new_listing x < 4) ''new_listing < 0x4'')"

definition account_upgrade_validate :: "account_upgrade_operation \<Rightarrow> unit res" where
  "account_upgrade_validate x = fee_not_negative x"

definition account_transfer_validate :: "account_transfer_operation \<Rightarrow> unit res" where
  "account_transfer_validate x = fee_not_negative x"

definition account_create_by_transfer_validate :: "account_create_by_transfer_operation \<Rightarrow> unit res" where
  "account_create_by_transfer_validate x =
     bindE (fee_not_negative x) (\<lambda>_. assertE (0 < amount (cbt_amount x)) ''amount.amount > 0'')"

definition is_owner_update :: "account_update_operation \<Rightarrow> bool" where
  "is_owner_update x \<longleftrightarrow> upd_owner x \<noteq> None \<or> upd_owner_special_authority x \<noteq> None"

subsection \<open>Transfers\<close>

record transfer_operation = base_operation +
  transfer_from :: account_id_type
  transfer_to :: account_id_type
  transfer_amount :: asset
  transfer_memo :: "memo_data option"

record override_transfer_operation = base_operation +
  ovr_issuer :: account_id_type
  ovr_from :: account_id_type
  ovr_to :: account_id_type
  ovr_amount :: asset
  ovr_memo :: "memo_data option"

definition transfer_fee_parameters :: fee_data where
  "transfer_fee_parameters = Fee_sized 300 100"

text \<open>The price \<open>0.001\<close> is truncated to an integer.\<close>

definition override_transfer_fee_parameters :: fee_data where
  "override_transfer_fee_parameters = Fee_sized 300 0"

definition transfer_calculate_fee :: "'z fee_env_scheme \<Rightarrow> nat \<Rightarrow> nat \<Rightarrow> 'm option \<Rightarrow> nat \<Rightarrow> int res" where
  "transfer_calculate_fee E s_fee price_per_kbyte memo bytes =
     bindE (fc_share_of E s_fee) (\<lambda>core_fee_required.
     if memo \<noteq> None then
       bindE (calculate_data_fee E bytes price_per_kbyte) (\<lambda>d.
       bindE (fc_share_of E d) (safe_add E core_fee_required))
     else Inr core_fee_required)"

definition override_transfer_calculate_fee :: "'z fee_env_scheme \<Rightarrow> nat \<Rightarrow> nat \<Rightarrow> 'm option \<Rightarrow> nat \<Rightarrow> int res" where
  "override_transfer_calculate_fee E s_fee price_per_kbyte memo bytes =
     bindE (fc_share_of E s_fee) (\<lambda>core_fee_required.
     if memo \<noteq> None then
       bindE (calculate_data_fee E bytes price_per_kbyte) (\<lambda>d.
       bindE (fc_share_of E d) (safe_add E core_fee_required))
     else Inr core_fee_required)"

definition transfer_validate :: "transfer_operation \<Rightarrow> unit res" where
  "transfer_validate x =
     bindE (fee_not_negative x) (\<lambda>_.
     bindE (assertE (transfer_from x \<noteq> transfer_to x) ''from != to'') (\<lambda>_.
     assertE (0 < amount (transfer_amount x)) ''amount.amount > 0''))"

definition override_transfer_validate :: "override_transfer_operation \<Rightarrow> unit res" where
  "override_transfer_validate x =
     bindE (fee_not_negative x) (\<lambda>_.
     bindE (assertE (ovr_from x \<noteq> ovr_to x) ''from != to'') (\<lambda>_.
     bindE (assertE (0 < amount (ovr_amount x)) ''amount.amount > 0'') (\<lambda>_.
     assertE (ovr_issuer x \<noteq> ovr_from x) ''issuer != from'')))"

subsection \<open>Withdraw permissions\<close>

record withdraw_permission_create_operation = base_operation +
  wpc_withdraw_from_account :: account_id_type
  wpc_authorized_account :: account_id_type
  wpc_withdrawal_limit :: asset
  wpc_withdrawal_period_sec :: nat
  wpc_periods_until_expiration :: nat
  wpc_period_start_time :: nat

record withdraw_permission_update_operation = base_operation +
  wpu_withdraw_from_account :: account_id_type
  wpu_authorized_account :: account_id_type
  permission_to_update :: nat
  wpu_withdrawal_limit :: asset
  wpu_withdrawal_period_sec :: nat
  wpu_period_start_time :: nat
  wpu_periods_until_expiration :: nat

record withdraw_permission_claim_operation = base_operation +
  withdraw_permission :: nat
  wcl_withdraw_from_account :: account_id_type
  wcl_withdraw_to_account :: account_id_type
  amount_to_withdraw :: asset
  wcl_memo :: "memo_data option"

record withdraw_permission_delete_operation = base_operation +
  wpd_withdraw_from_account :: account_id_type
  wpd_authorized_account :: account_id_type
  withdrawal_permission :: nat

definition withdraw_permission_create_fee_parameters :: fee_data where
  "withdraw_permission_create_fee_parameters = Fee_flat 100000"
definition withdraw_permission_update_fee_parameters :: fee_data where
  "withdraw_permission_update_fee_parameters = Fee_flat 100000"
definition withdraw_permission_claim_fee_parameters :: fee_data where
  "withdraw_permission_claim_fee_parameters = Fee_sized 100000 10"
definition withdraw_permission_delete_fee_parameters :: fee_data where
  "withdraw_permission_delete_fee_parameters = Fee_flat 0"

definition withdraw_permission_update_validate :: "withdraw_permission_update_operation \<Rightarrow> unit res" where
  "withdraw_permission_update_validate x =
     bindE (assertE (0 < amount (wpu_withdrawal_limit x)) ''withdrawal_limit.amount > 0'') (\<lambda>_.
     bindE (fee_not_negative x) (\<lambda>_.
     bindE (assertE (0 < wpu_withdrawal_period_sec x) ''withdrawal_period_sec > 0'') (\<lambda>_.
     bindE (assertE (wpu_withdraw_from_account x \<noteq> wpu_authorized_account x) ''withdraw_from_account != authorized_account'') (\<lambda>_.
     assertE (0 < wpu_periods_until_expiration x) ''periods_until_expiration > 0''))))"

definition withdraw_permission_claim_validate :: "withdraw_permission_claim_operation \<Rightarrow> unit res" where
  "withdraw_permission_claim_validate x =
     bindE (assertE (wcl_withdraw_to_account x \<noteq> wcl_withdraw_from_account x) ''withdraw_to_account != withdraw_from_account'') (\<lambda>_.
     bindE (assertE (0 < amount (amount_to_withdraw x)) ''amount_to_withdraw.amount > 0'') (\<lambda>_.
     fee_not_negative x))"

definition withdraw_permission_claim_calculate_fee :: "'z fee_env_scheme \<Rightarrow> nat \<Rightarrow> nat \<Rightarrow> 'm option \<Rightarrow> nat \<Rightarrow> int res" where
  "withdraw_permission_claim_calculate_fee E k_fee price_per_kbyte memo bytes =
     bindE (fc_share_of E k_fee) (\<lambda>core_fee_required.
     if memo \<noteq> None then
       bindE (calculate_data_fee E bytes price_per_kbyte) (\<lambda>d.
       bindE (fc_share_of E d) (safe_add E core_fee_required))
     else Inr core_fee_required)"

definition withdraw_permission_create_validate :: "withdraw_permission_create_operation \<Rightarrow> unit res" where
  "withdraw_permission_create_validate x =
     bindE (fee_not_negative x) (\<lambda>_.
     bindE (assertE (wpc_withdraw_from_account x \<noteq> wpc_authorized_account x) ''withdraw_from_account != authorized_account'') (\<lambda>_.
     bindE (assertE (0 < amount (wpc_withdrawal_limit x)) ''withdrawal_limit.amount > 0'') (\<lambda>_.
     bindE (assertE (0 < wpc_withdrawal_period_sec x) ''withdrawal_period_sec > 0'') (\<lambda>_.
     assertE (0 < wpc_periods_until_expiration x) ''periods_until_expiration > 0''))))"

definition withdraw_permission_delete_validate :: "withdraw_permission_delete_operation \<Rightarrow> unit res" where
  "withdraw_permission_delete_validate x =
     bindE (fee_not_negative x) (\<lambda>_.
     assertE (wpd_withdraw_from_account x \<noteq> wpd_authorized_account x) ''withdraw_from_account != authorized_account'')"

subsection \<open>Vesting balances and genesis balances\<close>

datatype vesting_policy_initializer =
    Linear_vesting_policy_initializer nat nat nat
  | Cdd_vesting_policy_initializer nat nat

record vesting_balance_create_operation = base_operation +
  vbc_creator :: account_id_type
  vbc_owner :: account_id_type
  vbc_amount :: asset
  vbc_policy :: vesting_policy_initializer

record vesting_balance_withdraw_operation = base_operation +
  vbw_vesting_balance :: nat
  vbw_owner :: account_id_type
  vbw_amount :: asset

record balance_claim_operation = base_operation +
  deposit_to_account :: account_id_type
  balance_to_claim :: nat
  balance_owner_key :: public_key_type
  total_claimed :: asset

definition vesting_balance_create_fee_parameters :: fee_data where
  "vesting_balance_create_fee_parameters = Fee_flat 100000"
definition vesting_balance_withdraw_fee_parameters :: fee_data where
  "vesting_balance_withdraw_fee_parameters = Fee_flat 50000"
definition balance_claim_fee_parameters :: fee_data where
  "balance_claim_fee_parameters = Fee_none"

definition vesting_balance_create_validate :: "vesting_balance_create_operation \<Rightarrow> unit res" where
  "vesting_balance_create_validate x =
     bindE (fee_not_negative x) (\<lambda>_. assertE (0 < amount (vbc_amount x)) ''amount.amount > 0'')"

definition vesting_balance_withdraw_validate :: "vesting_balance_withdraw_operation \<Rightarrow> unit res" where
  "vesting_balance_withdraw_validate x =
     bindE (fee_not_negative x) (\<lambda>_. assertE (0 < amount (vbw_amount x)) ''amount.amount > 0'')"

text \<open>The default public key is key number 0.\<close>

definition balance_claim_validate :: "balance_claim_operation \<Rightarrow> unit res" where
  "balance_claim_validate x =
     bindE (assertE (fee x = mk_asset 0 0) ''fee == asset()'') (\<lambda>_.
     assertE (balance_owner_key x \<noteq> 0) ''balance_owner_key != public_key_type()'')"

definition balance_claim_required_authority :: "balance_claim_operation \<Rightarrow> authority" where
  "balance_claim_required_authority x =
     add_authority_key (balance_owner_key x) 1 (authority_empty\<lparr>weight_threshold := 1\<rparr>)"

subsection \<open>The votes of an account\<close>

definition votes_of :: "vote_type \<Rightarrow> vote_id_type list \<Rightarrow> nat" where
  "votes_of t vs = length (filter (\<lambda>v. vote_id_type_of v = vote_type_code t) vs)"

lemma vote_codes_distinct: "vote_type_code Witness \<noteq> vote_type_code Committee"
  by (simp add: vote_type_code_def)

lemma remaining_votes_count:
  "remaining_votes vs w c = (w - votes_of Witness vs, c - votes_of Committee vs)"
  by (induction vs w c rule: remaining_votes.induct) (auto simp: votes_of_def vote_codes_distinct)

text \<open>
  account options pass their validation exactly when they ask for no more witnesses and no
  more committee members than they vote for; the loop with its two counters and its dangling
  \<open>else\<close> counts the votes of each kind, in any order.
\<close>

theorem account_options_validate_counts:
  "account_options_validate opts = Inr () \<longleftrightarrow>
     num_witness opts \<le> votes_of Witness (votes opts) \<and> num_committee opts \<le> votes_of Committee (votes opts)"
  by (simp add: account_options_validate_def remaining_votes_count res_simps)

end
