(* ===== verification/Asset_Ops.thy ===== *)
theory Asset_Ops
  imports Account_Ops
begin

text \<open>
  The operations on assets (\<open>protocol/asset_ops.hpp\<close>, \<open>protocol/asset_ops.cpp\<close>) and on
  markets (\<open>protocol/market.hpp\<close>, \<open>protocol/market.cpp\<close>) with their fees and validation.

  The validation of a price feed computes a squeeze price with a loop of its own, so
  \<open>asset_publish_feed_validate\<close> has the result \<open>None\<close> when that loop does not end.
\<close>

subsection \<open>Options of assets\<close>

record asset_options =
  max_supply :: int
  market_fee_percent :: nat
  max_market_fee :: int
  issuer_permissions :: "16 word"
  asset_flags :: "16 word"
  core_exchange_rate_opt :: price
  whitelist_authorities :: "account_id_type list"
  blacklist_authorities :: "account_id_type list"
  whitelist_markets :: "asset_id_type list"
  blacklist_markets :: "asset_id_type list"
  description :: string

record bitasset_options =
  feed_lifetime_sec :: nat
  minimum_feeds :: nat
  force_settlement_delay_sec :: nat
  force_settlement_offset_percent :: nat
  maximum_force_settlement_volume :: nat
  short_backing_asset :: asset_id_type

definition bitasset_options_validate :: "bitasset_options \<Rightarrow> unit res" where
  "bitasset_options_validate b =
     bindE (assertE (0 < minimum_feeds b) ''minimum_feeds > 0'') (\<lambda>_.
     bindE (assertE (force_settlement_offset_percent b \<le> GRAPHENE_100_PERCENT) ''force_settlement_offset_percent'') (\<lambda>_.
     assertE (maximum_force_settlement_volume b \<le> GRAPHENE_100_PERCENT) ''maximum_force_settlement_volume''))"

definition asset_options_validate :: "asset_options \<Rightarrow> unit res" where
  "asset_options_validate a =
     bindE (assertE (0 < max_supply a) ''max_supply > 0'') (\<lambda>_.
     bindE (assertE (max_supply a \<le> GRAPHENE_MAX_SHARE_SUPPLY) ''max_supply <= GRAPHENE_MAX_SHARE_SUPPLY'') (\<lambda>_.
     bindE (assertE (market_fee_percent a \<le> GRAPHENE_100_PERCENT) ''market_fee_percent'') (\<lambda>_.
     bindE (assertE (0 \<le> max_market_fee a \<and> max_market_fee a \<le> GRAPHENE_MAX_SHARE_SUPPLY) ''max_market_fee'') (\<lambda>_.
     bindE (assertE (flag_and (issuer_permissions a) (NOT ASSET_ISSUER_PERMISSION_MASK) = 0) ''issuer_permissions'') (\<lambda>_.
     bindE (assertE (flag_and (asset_flags a) global_settle = 0) ''global_settle'') (\<lambda>_.
     bindE (assertE (flag_and (asset_flags a) (witness_fed_asset OR committee_fed_asset) \<noteq>
                     (witness_fed_asset OR committee_fed_asset)) ''witness_fed and committee_fed'') (\<lambda>_.
     bindE (price_validate (core_exchange_rate_opt a)) (\<lambda>_.
     bindE (assertE (asset_id (base (core_exchange_rate_opt a)) = 0 \<or> asset_id (quote (core_exchange_rate_opt a)) = 0)
              ''core_exchange_rate'') (\<lambda>_.
     bindE (if whitelist_authorities a \<noteq> [] \<or> blacklist_authorities a \<noteq> []
            then assertE (flag_and (asset_flags a) white_list \<noteq> 0) ''flags & white_list'' else Inr ()) (\<lambda>_.
     bindE (foldE (\<lambda>item _. assertE (item \<notin> set (blacklist_markets a)) ''blacklist_markets'') (whitelist_markets a) ()) (\<lambda>_.
     foldE (\<lambda>item _. assertE (item \<notin> set (whitelist_markets a)) ''whitelist_markets'') (blacklist_markets a) ())))))))))))"

subsection \<open>Asset operations\<close>

record asset_create_operation = base_operation +
  acr_issuer :: account_id_type
  symbol :: string
  precision :: nat
  common_options :: asset_options
  bitasset_opts :: "bitasset_options option"
  is_prediction_market :: bool

record asset_global_settle_operation = base_operation +
  ags_issuer :: account_id_type
  asset_to_settle :: asset_id_type
  settle_price :: price

record asset_settle_operation = base_operation +
  settle_account :: account_id_type
  settle_amount :: asset

record asset_settle_cancel_operation = base_operation +
  settlement :: nat
  asc_account :: account_id_type
  asc_amount :: asset

record asset_fund_fee_pool_operation = base_operation +
  from_account :: account_id_type
  ffp_asset_id :: asset_id_type
  ffp_amount :: int

record asset_update_operation = base_operation +
  aup_issuer :: account_id_type
  asset_to_update :: asset_id_type
  new_issuer :: "account_id_type option"
  aup_new_options :: asset_options

record asset_update_bitasset_operation = base_operation +
  aub_issuer :: account_id_type
  aub_asset_to_update :: asset_id_type
  aub_new_options :: bitasset_options

record asset_update_feed_producers_operation = base_operation +
  afp_issuer :: account_id_type
  afp_asset_to_update :: asset_id_type
  new_feed_producers :: "account_id_type list"

record asset_publish_feed_operation = base_operation +
  publisher :: account_id_type
  apf_asset_id :: asset_id_type
  feed :: price_feed

record asset_issue_operation = base_operation +
  issue_issuer :: account_id_type
  asset_to_issue :: asset
  issue_to_account :: account_id_type
  issue_memo :: "memo_data option"

record asset_reserve_operation = base_operation +
  reserve_payer :: account_id_type
  amount_to_reserve :: asset

record asset_claim_fees_operation = base_operation +
  acf_issuer :: account_id_type
  amount_to_claim :: asset

definition asset_create_fee_parameters :: fee_data where
  "asset_create_fee_parameters = Fee_asset_create 10000000 5000000 2000000 1"
definition asset_global_settle_fee_parameters :: fee_data where
  "asset_global_settle_fee_parameters = Fee_flat 1000000"
definition asset_settle_fee_parameters :: fee_data where
  "asset_settle_fee_parameters = Fee_flat 500000"
definition asset_settle_cancel_fee_parameters :: fee_data where
  "asset_settle_cancel_fee_parameters = Fee_none"
definition asset_fund_fee_pool_fee_parameters :: fee_data where
  "asset_fund_fee_pool_fee_parameters = Fee_flat 100000"
definition asset_update_fee_parameters :: fee_data where
  "asset_update_fee_parameters = Fee_sized 500000 1"
definition asset_update_bitasset_fee_parameters :: fee_data where
  "asset_update_bitasset_fee_parameters = Fee_flat 500000"
definition asset_update_feed_producers_fee_parameters :: fee_data where
  "asset_update_feed_producers_fee_parameters = Fee_flat 500000"
definition asset_publish_feed_fee_parameters :: fee_data where
  "asset_publish_feed_fee_parameters = Fee_flat 100000"
definition asset_issue_fee_parameters :: fee_data where
  "asset_issue_fee_parameters = Fee_sized 1000 100"
definition asset_reserve_fee_parameters :: fee_data where
  "asset_reserve_fee_parameters = Fee_flat 200000"
definition asset_claim_fees_fee_parameters :: fee_data where
  "asset_claim_fees_fee_parameters = Fee_flat 20000"

definition asset_issue_calculate_fee :: "'z fee_env_scheme \<Rightarrow> nat \<Rightarrow> nat \<Rightarrow> nat \<Rightarrow> int res" where
  "asset_issue_calculate_fee E k_fee price_per_kbyte bytes =
     bindE (calculate_data_fee E bytes price_per_kbyte) (\<lambda>d. fc_share_of E (u64_add k_fee d))"

definition asset_create_calculate_fee ::
    "'z fee_env_scheme \<Rightarrow> nat \<Rightarrow> nat \<Rightarrow> nat \<Rightarrow> nat \<Rightarrow> asset_create_operation \<Rightarrow> nat \<Rightarrow> int res" where
  "asset_create_calculate_fee E symbol3 symbol4 long_symbol price_per_kbyte x bytes =
     (let core_fee_required =
        (if length (symbol x) = 3 then symbol3 else if length (symbol x) = 4 then symbol4 else long_symbol)
      in bindE (calculate_data_fee E bytes price_per_kbyte) (\<lambda>d.
         fc_share_of E (u64_add core_fee_required d)))"

definition asset_update_calculate_fee :: "'z fee_env_scheme \<Rightarrow> nat \<Rightarrow> nat \<Rightarrow> nat \<Rightarrow> int res" where
  "asset_update_calculate_fee E k_fee price_per_kbyte bytes =
     bindE (calculate_data_fee E bytes price_per_kbyte) (\<lambda>d. fc_share_of E (u64_add k_fee d))"

definition asset_create_validate :: "asset_create_operation \<Rightarrow> unit res" where
  "asset_create_validate x =
     bindE (fee_not_negative x) (\<lambda>_.
     bindE (assertE (is_valid_symbol (symbol x)) ''is_valid_symbol(symbol)'') (\<lambda>_.
     bindE (asset_options_validate (common_options x)) (\<lambda>_.
     bindE (if flag_and (issuer_permissions (common_options x)) (disable_force_settle OR global_settle) \<noteq> 0
            then assertE (bitasset_opts x \<noteq> None) ''bitasset_opts.valid()'' else Inr ()) (\<lambda>_.
     bindE (if is_prediction_market x
            then bindE (assertE (bitasset_opts x \<noteq> None) ''Cannot have a User-Issued Asset implement a prediction market.'') (\<lambda>_.
                 assertE (flag_and (issuer_permissions (common_options x)) global_settle \<noteq> 0) ''issuer_permissions & global_settle'')
            else Inr ()) (\<lambda>_.
     bindE (whenE (bitasset_opts x) bitasset_options_validate) (\<lambda>_.
     bindE (asset_mult (mk_asset 1 0) (core_exchange_rate_opt (common_options x))) (\<lambda>dummy.
     bindE (assertE (asset_id dummy = 1) ''dummy.asset_id == asset_id_type(1)'') (\<lambda>_.
     assertE (precision x \<le> 12) ''precision <= 12''))))))))"

definition asset_update_validate :: "asset_update_operation \<Rightarrow> unit res" where
  "asset_update_validate x =
     bindE (fee_not_negative x) (\<lambda>_.
     bindE (whenE (new_issuer x) (\<lambda>n. assertE (aup_issuer x \<noteq> n) ''issuer != *new_issuer'')) (\<lambda>_.
     bindE (asset_options_validate (aup_new_options x)) (\<lambda>_.
     bindE (asset_mult (mk_asset 1 (asset_to_update x)) (core_exchange_rate_opt (aup_new_options x))) (\<lambda>dummy.
     assertE (asset_id dummy = 0) ''dummy.asset_id == asset_id_type()''))))"

definition asset_publish_feed_validate :: "rational \<Rightarrow> asset_publish_feed_operation \<Rightarrow> unit res option" where
  "asset_publish_feed_validate R x =
     (case fee_not_negative x of
        Inl e \<Rightarrow> Some (Inl e)
      | Inr _ \<Rightarrow>
          map_option (\<lambda>r. bindE r (\<lambda>_.
            bindE (if \<not> price_is_null (core_exchange_rate (feed x)) then price_validate (core_exchange_rate (feed x)) else Inr ()) (\<lambda>_.
            bindE (if \<not> price_is_null (settlement_price (feed x)) \<and> \<not> price_is_null (core_exchange_rate (feed x))
                   then assertE (asset_id (base (settlement_price (feed x))) = asset_id (base (core_exchange_rate (feed x))))
                          ''feed.settlement_price.base.asset_id == feed.core_exchange_rate.base.asset_id''
                   else Inr ()) (\<lambda>_.
            bindE (assertE (\<not> price_is_null (settlement_price (feed x))) ''!feed.settlement_price.is_null()'') (\<lambda>_.
            bindE (assertE (\<not> price_is_null (core_exchange_rate (feed x))) ''!feed.core_exchange_rate.is_null()'') (\<lambda>_.
            assertE (price_feed_is_for (feed x) (apf_asset_id x)) ''feed.is_for( asset_id )''))))))
            (price_feed_validate R (feed x)))"

definition asset_reserve_validate :: "asset_reserve_operation \<Rightarrow> unit res" where
  "asset_reserve_validate x =
     bindE (fee_not_negative x) (\<lambda>_.
     bindE (assertE (amount (amount_to_reserve x) \<le> GRAPHENE_MAX_SHARE_SUPPLY) ''amount_to_reserve max'') (\<lambda>_.
     assertE (0 < amount (amount_to_reserve x)) ''amount_to_reserve.amount.value > 0''))"

definition asset_issue_validate :: "asset_issue_operation \<Rightarrow> unit res" where
  "asset_issue_validate x =
     bindE (fee_not_negative x) (\<lambda>_.
     bindE (assertE (amount (asset_to_issue x) \<le> GRAPHENE_MAX_SHARE_SUPPLY) ''asset_to_issue max'') (\<lambda>_.
     bindE (assertE (0 < amount (asset_to_issue x)) ''asset_to_issue.amount.value > 0'') (\<lambda>_.
     assertE (asset_id (asset_to_issue x) \<noteq> 0) ''asset_to_issue.asset_id != asset_id_type(0)'')))"

definition asset_fund_fee_pool_validate :: "asset_fund_fee_pool_operation \<Rightarrow> unit res" where
  "asset_fund_fee_pool_validate x =
     bindE (fee_not_negative x) (\<lambda>_.
     bindE (assertE (asset_id (fee x) = 0) ''fee.asset_id == asset_id_type()'') (\<lambda>_.
     assertE (0 < ffp_amount x) ''amount > 0''))"

definition asset_settle_validate :: "asset_settle_operation \<Rightarrow> unit res" where
  "asset_settle_validate x =
     bindE (fee_not_negative x) (\<lambda>_. assertE (0 \<le> amount (settle_amount x)) ''amount.amount >= 0'')"

definition asset_settle_cancel_validate :: "asset_settle_cancel_operation \<Rightarrow> unit res" where
  "asset_settle_cancel_validate x = assertE (0 < amount (asc_amount x)) ''Must settle at least 1 unit''"

definition asset_update_bitasset_validate :: "asset_update_bitasset_operation \<Rightarrow> unit res" where
  "asset_update_bitasset_validate x =
     bindE (fee_not_negative x) (\<lambda>_. bitasset_options_validate (aub_new_options x))"

definition asset_update_feed_producers_validate :: "asset_update_feed_producers_operation \<Rightarrow> unit res" where
  "asset_update_feed_producers_validate x = fee_not_negative x"

definition asset_global_settle_validate :: "asset_global_settle_operation \<Rightarrow> unit res" where
  "asset_global_settle_validate x =
     bindE (fee_not_negative x) (\<lambda>_.
     assertE (asset_to_settle x = asset_id (base (settle_price x))) ''asset_to_settle == settle_price.base.asset_id'')"

definition asset_claim_fees_validate :: "asset_claim_fees_operation \<Rightarrow> unit res" where
  "asset_claim_fees_validate x =
     bindE (fee_not_negative x) (\<lambda>_. assertE (0 < amount (amount_to_claim x)) ''amount_to_claim.amount > 0'')"

subsection \<open>Market operations\<close>

record limit_order_fee_config_operation = base_operation +
  lfc_receiver :: account_id_type
  asset_a :: asset_id_type
  rate_a :: nat
  asset_b :: asset_id_type
  rate_b :: nat

text \<open>The extension of a limit order holds at most one exchange fee, the receiver of the fee.\<close>

record limit_order_create_operation = base_operation +
  seller :: account_id_type
  amount_to_sell :: asset
  min_to_receive :: asset
  expiration :: nat
  fill_or_kill :: bool
  exchange_fee_extension :: "account_id_type option"

record limit_order_cancel_operation = base_operation +
  cancel_order_id :: nat
  loc_fee_paying_account :: account_id_type

record call_order_update_operation = base_operation +
  funding_account :: account_id_type
  delta_collateral :: asset
  delta_debt :: asset

record fill_order_operation = base_operation +
  fill_order_id :: nat
  fill_account_id :: account_id_type
  pays :: asset
  receives :: asset
  exchange_fee_rate :: "nat option"
  exchange_fee_receiver :: "account_id_type option"

definition limit_order_fee_config_fee_parameters :: fee_data where
  "limit_order_fee_config_fee_parameters = Fee_flat 1000"
definition limit_order_create_fee_parameters :: fee_data where
  "limit_order_create_fee_parameters = Fee_flat 300"
definition limit_order_cancel_fee_parameters :: fee_data where
  "limit_order_cancel_fee_parameters = Fee_flat 0"
definition call_order_update_fee_parameters :: fee_data where
  "call_order_update_fee_parameters = Fee_flat 1200"
definition fill_order_fee_parameters :: fee_data where
  "fill_order_fee_parameters = Fee_none"

definition limit_order_fee_config_validate :: "limit_order_fee_config_operation \<Rightarrow> unit res" where
  "limit_order_fee_config_validate x = fee_not_negative x"

definition limit_order_create_validate :: "limit_order_create_operation \<Rightarrow> unit res" where
  "limit_order_create_validate x =
     bindE (assertE (asset_id (amount_to_sell x) \<noteq> asset_id (min_to_receive x)) ''amount_to_sell.asset_id != min_to_receive.asset_id'') (\<lambda>_.
     bindE (fee_not_negative x) (\<lambda>_.
     bindE (assertE (0 < amount (amount_to_sell x)) ''amount_to_sell.amount > 0'') (\<lambda>_.
     assertE (0 < amount (min_to_receive x)) ''min_to_receive.amount > 0'')))"

definition limit_order_cancel_validate :: "limit_order_cancel_operation \<Rightarrow> unit res" where
  "limit_order_cancel_validate x = fee_not_negative x"

definition call_order_update_validate :: "call_order_update_operation \<Rightarrow> unit res" where
  "call_order_update_validate x =
     bindE (fee_not_negative x) (\<lambda>_.
     bindE (assertE (asset_id (delta_collateral x) \<noteq> asset_id (delta_debt x)) ''delta_collateral.asset_id != delta_debt.asset_id'') (\<lambda>_.
     assertE (amount (delta_collateral x) \<noteq> 0 \<or> amount (delta_debt x) \<noteq> 0) ''delta_collateral.amount != 0 || delta_debt.amount != 0''))"

definition fill_order_validate :: "fill_order_operation \<Rightarrow> unit res" where
  "fill_order_validate x = assertE False ''virtual operation''"

definition limit_order_get_market :: "limit_order_create_operation \<Rightarrow> asset_id_type \<times> asset_id_type" where
  "limit_order_get_market x =
     (if asset_id (amount_to_sell x) < asset_id (min_to_receive x)
      then (asset_id (amount_to_sell x), asset_id (min_to_receive x))
      else (asset_id (min_to_receive x), asset_id (amount_to_sell x)))"

definition limit_order_get_price :: "limit_order_create_operation \<Rightarrow> price res" where
  "limit_order_get_price x = price_of (amount_to_sell x) (min_to_receive x)"

definition fill_order_get_market :: "fill_order_operation \<Rightarrow> asset_id_type \<times> asset_id_type" where
  "fill_order_get_market x =
     (if asset_id (pays x) < asset_id (receives x) then (asset_id (pays x), asset_id (receives x))
      else (asset_id (receives x), asset_id (pays x)))"

subsection \<open>What the validation of asset options establishes\<close>

lemma foldE_assert_iff:
  "foldE (\<lambda>x _. assertE (P x) msg) xs () = Inr () \<longleftrightarrow> (\<forall>x\<in>set xs. P x)"
  by (induction xs) (auto simp: res_simps assertE_def)

lemma bit_promoted: "bit (ucast (f :: 16 word) :: 32 word) n \<longleftrightarrow> bit f n"
  by (auto simp: bit_ucast_iff dest: bit_imp_le_length)

lemma flag_and_single:
  assumes "m = 2 ^ k" and "k < 32"
  shows "flag_and f m = 0 \<longleftrightarrow> \<not> bit f k"
proof -
  have "flag_and f m = 0 \<longleftrightarrow> \<not> bit (ucast f :: 32 word) k"
    unfolding flag_and_def assms(1) by (rule and_exp_eq_0_iff_not_bit)
  then show ?thesis by (simp add: bit_promoted)
qed

lemma permission_mask_bits: "ASSET_ISSUER_PERMISSION_MASK = mask 9"
  by (simp add: ASSET_ISSUER_PERMISSION_MASK_def asset_flag_defs mask_eq_exp_minus_1)

lemma permission_mask_iff:
  "flag_and f (NOT ASSET_ISSUER_PERMISSION_MASK) = 0 \<longleftrightarrow> {n. bit f n} \<subseteq> {..<9}"
proof -
  have "flag_and f (NOT (mask 9)) = 0 \<longleftrightarrow> (\<forall>n. \<not> bit (flag_and f (NOT (mask 9))) n)"
    by (metis bit_0_eq bit_eqI bot_apply bot_bool_def)
  moreover have "bit (flag_and f (NOT (mask 9))) n \<longleftrightarrow> bit f n \<and> \<not> n < 9" for n
    using bit_imp_le_length [of f n]
    by (auto simp: flag_and_def bit_and_iff bit_not_iff bit_mask_iff bit_promoted)
  ultimately show ?thesis unfolding permission_mask_bits by auto
qed

lemma both_fed_iff:
  "flag_and f (witness_fed_asset OR committee_fed_asset) = (witness_fed_asset OR committee_fed_asset) \<longleftrightarrow>
     bit f 7 \<and> bit f 8"
proof -
  have m: "witness_fed_asset OR committee_fed_asset = 2 ^ 7 OR 2 ^ 8"
    by (simp add: asset_flag_defs)
  have "flag_and f (2 ^ 7 OR 2 ^ 8) = 2 ^ 7 OR 2 ^ 8 \<longleftrightarrow>
      (\<forall>n. bit (flag_and f (2 ^ 7 OR 2 ^ 8)) n = bit (2 ^ 7 OR 2 ^ 8 :: 32 word) n)"
    by (metis bit_eqI)
  also have "\<dots> \<longleftrightarrow> (\<forall>n. bit (2 ^ 7 OR 2 ^ 8 :: 32 word) n \<longrightarrow> bit f n)"
    unfolding flag_and_def bit_and_iff bit_promoted by blast
  also have "\<dots> \<longleftrightarrow> bit f 7 \<and> bit f 8"
  proof -
    have "bit (2 ^ 7 OR 2 ^ 8 :: 32 word) n \<longleftrightarrow> n = 7 \<or> n = 8" for n
      by (simp only: bit_or_iff bit_exp_iff) (auto simp: possible_bit_def)
    then show ?thesis by (simp only:) blast
  qed
  finally show ?thesis unfolding m .
qed

text \<open>
  C23: the options an asset can be created with or updated to are exactly those with a supply
  limit and a market fee limit within the maximal supply, a market fee of at most 100 percent, no
  permission bit of unknown meaning, the flag \<open>global_settle\<close> off, not both feed flags on, a
  positive exchange rate between two assets of which one is the core asset, a white-list flag
  when there are list authorities, and disjoint market lists.
\<close>

theorem asset_options_validation:
  "asset_options_validate a = Inr () \<longleftrightarrow>
     0 < max_supply a \<and> max_supply a \<le> 10 ^ 12 \<and> market_fee_percent a \<le> 10000 \<and>
     0 \<le> max_market_fee a \<and> max_market_fee a \<le> 10 ^ 12 \<and>
     {n. bit (issuer_permissions a) n} \<subseteq> {..<9} \<and>
     \<not> bit (asset_flags a) 5 \<and> \<not> (bit (asset_flags a) 7 \<and> bit (asset_flags a) 8) \<and>
     0 < amount (base (core_exchange_rate_opt a)) \<and> 0 < amount (quote (core_exchange_rate_opt a)) \<and>
     asset_id (base (core_exchange_rate_opt a)) \<noteq> asset_id (quote (core_exchange_rate_opt a)) \<and>
     0 \<in> {asset_id (base (core_exchange_rate_opt a)), asset_id (quote (core_exchange_rate_opt a))} \<and>
     (whitelist_authorities a \<noteq> [] \<or> blacklist_authorities a \<noteq> [] \<longrightarrow> bit (asset_flags a) 1) \<and>
     set (whitelist_markets a) \<inter> set (blacklist_markets a) = {}"
proof -
  have g: "flag_and f global_settle = 0 \<longleftrightarrow> \<not> bit f 5" for f
    by (rule flag_and_single) (simp_all add: global_settle_def)
  have w: "flag_and f white_list = 0 \<longleftrightarrow> \<not> bit f 1" for f
    by (rule flag_and_single) (simp_all add: white_list_def)
  show ?thesis
    by (auto simp: asset_options_validate_def res_simps foldE_assert_iff g w permission_mask_iff both_fed_iff
        price_validate_def GRAPHENE_100_PERCENT_def GRAPHENE_MAX_SHARE_SUPPLY_def)
qed

definition sample_options :: asset_options where
  "sample_options = \<lparr>max_supply = 1000, market_fee_percent = 100, max_market_fee = 5,
     issuer_permissions = 0x4f, asset_flags = 0x03,
     core_exchange_rate_opt = mk_price (mk_asset 1 0) (mk_asset 2 1),
     whitelist_authorities = [7], blacklist_authorities = [], whitelist_markets = [3],
     blacklist_markets = [4], description = []\<rparr>"

theorem asset_options_validation_witness:
  "asset_options_validate sample_options = Inr () \<and> bit (asset_flags sample_options) 1 \<and>
   {n. bit (issuer_permissions sample_options) n} \<subseteq> {..<9}"
proof -
  have "asset_options_validate sample_options = Inr ()"
    by (simp add: asset_options_validate_def sample_options_def flag_and_def asset_flag_defs price_validate_def
        ASSET_ISSUER_PERMISSION_MASK_def GRAPHENE_100_PERCENT_def GRAPHENE_MAX_SHARE_SUPPLY_def mk_price_def mk_asset_def)
  then show ?thesis
    using asset_options_validation [of sample_options] by (simp add: sample_options_def)
qed

end
