(* ===== verification/Governance_Ops.thy ===== *)
theory Governance_Ops
  imports Asset_Ops
begin

text \<open>
  The operations on proposals, witnesses, committee members, workers, construction capital,
  deflation, incentives and buybacks, the custom and assert operations and the confidential
  transfers, with their fees and validation (\<open>protocol/proposal.cpp\<close>, \<open>witness.cpp\<close>,
  \<open>committee_member.cpp\<close>, \<open>worker.cpp\<close>, \<open>custom.cpp\<close>, \<open>assert.cpp\<close>,
  \<open>construction_capital.cpp\<close>, \<open>deflation.cpp\<close>, \<open>incentive.cpp\<close>, \<open>fba.hpp\<close>,
  \<open>confidential.cpp\<close>).

  Commitments and range proofs belong to the cryptographic library: the record \<open>ecc_env\<close> holds
  the three functions the source calls.
\<close>

subsection \<open>Proposals\<close>

record proposal_update_operation = base_operation +
  pup_fee_paying_account :: account_id_type
  pup_proposal :: nat
  active_approvals_to_add :: "account_id_type list"
  active_approvals_to_remove :: "account_id_type list"
  owner_approvals_to_add :: "account_id_type list"
  owner_approvals_to_remove :: "account_id_type list"
  key_approvals_to_add :: "public_key_type list"
  key_approvals_to_remove :: "public_key_type list"

record proposal_delete_operation = base_operation +
  pdel_fee_paying_account :: account_id_type
  using_owner_authority :: bool
  pdel_proposal :: nat

definition proposal_create_fee_parameters :: fee_data where
  "proposal_create_fee_parameters = Fee_sized 5000 10"
definition proposal_update_fee_parameters :: fee_data where
  "proposal_update_fee_parameters = Fee_sized 5000 10"
definition proposal_delete_fee_parameters :: fee_data where
  "proposal_delete_fee_parameters = Fee_flat 5000"

definition proposal_create_calculate_fee :: "'z fee_env_scheme \<Rightarrow> nat \<Rightarrow> nat \<Rightarrow> nat \<Rightarrow> int res" where
  "proposal_create_calculate_fee E k_fee price_per_kbyte bytes =
     bindE (calculate_data_fee E bytes price_per_kbyte) (\<lambda>d. fc_share_of E (u64_add k_fee d))"

definition proposal_update_calculate_fee :: "'z fee_env_scheme \<Rightarrow> nat \<Rightarrow> nat \<Rightarrow> nat \<Rightarrow> int res" where
  "proposal_update_calculate_fee E k_fee price_per_kbyte bytes =
     bindE (calculate_data_fee E bytes price_per_kbyte) (\<lambda>d. fc_share_of E (u64_add k_fee d))"

definition not_both :: "nat list \<Rightarrow> nat list \<Rightarrow> unit res" where
  "not_both to_add to_remove =
     foldE (\<lambda>a _. assertE (a \<notin> set to_remove) ''Cannot add and remove approval at the same time.'') to_add ()"

definition proposal_update_validate :: "proposal_update_operation \<Rightarrow> unit res" where
  "proposal_update_validate x =
     bindE (fee_not_negative x) (\<lambda>_.
     bindE (assertE (\<not> (active_approvals_to_add x = [] \<and> active_approvals_to_remove x = [] \<and>
                       owner_approvals_to_add x = [] \<and> owner_approvals_to_remove x = [] \<and>
                       key_approvals_to_add x = [] \<and> key_approvals_to_remove x = [])) ''no approvals'') (\<lambda>_.
     bindE (not_both (active_approvals_to_add x) (active_approvals_to_remove x)) (\<lambda>_.
     bindE (not_both (owner_approvals_to_add x) (owner_approvals_to_remove x)) (\<lambda>_.
     not_both (key_approvals_to_add x) (key_approvals_to_remove x)))))"

definition proposal_delete_validate :: "proposal_delete_operation \<Rightarrow> unit res" where
  "proposal_delete_validate x = fee_not_negative x"

definition proposal_update_required_authority :: "proposal_update_operation \<Rightarrow> authority" where
  "proposal_update_required_authority x =
     (let ks = fold (\<lambda>k m. fm_insert k (1 :: nat) m) (key_approvals_to_remove x)
                 (fold (\<lambda>k m. fm_insert k 1 m) (key_approvals_to_add x) [])
      in authority_empty\<lparr>key_auths := ks, weight_threshold := length ks\<rparr>)"

definition proposal_update_required_active :: "proposal_update_operation \<Rightarrow> account_id_type list \<Rightarrow> account_id_type list" where
  "proposal_update_required_active x a =
     fold fs_insert (active_approvals_to_remove x) (fold fs_insert (active_approvals_to_add x) a)"

definition proposal_update_required_owner :: "proposal_update_operation \<Rightarrow> account_id_type list \<Rightarrow> account_id_type list" where
  "proposal_update_required_owner x a =
     fold fs_insert (owner_approvals_to_remove x) (fold fs_insert (owner_approvals_to_add x) a)"

subsection \<open>Witnesses, committee members and workers\<close>

record witness_create_operation = base_operation +
  wcr_witness_account :: account_id_type
  wcr_url :: string
  block_signing_key :: public_key_type

record witness_update_operation = base_operation +
  wup_witness :: nat
  wup_witness_account :: account_id_type
  wup_new_url :: "string option"
  new_signing_key :: "public_key_type option"

record committee_member_create_operation = base_operation +
  cmc_committee_member_account :: account_id_type
  cmc_url :: string

record committee_member_update_operation = base_operation +
  committee_member :: nat
  cmu_committee_member_account :: account_id_type
  cmu_new_url :: "string option"

record committee_member_update_global_parameters_operation = base_operation +
  new_parameters :: chain_parameters

record committee_member_issue_construction_capital_operation = base_operation +
  icc_amount :: int
  icc_receiver :: account_id_type

record committee_member_grant_instant_payback_operation = base_operation +
  gip_account_id :: account_id_type
  grant :: bool

datatype worker_initializer =
    Refund_worker_initializer
  | Vesting_balance_worker_initializer nat
  | Burn_worker_initializer

record worker_create_operation = base_operation +
  worker_owner :: account_id_type
  work_begin_date :: nat
  work_end_date :: nat
  daily_pay :: int
  worker_name :: string
  worker_url :: string
  initializer :: worker_initializer

definition witness_create_fee_parameters :: fee_data where
  "witness_create_fee_parameters = Fee_flat 10000000"
definition witness_update_fee_parameters :: fee_data where
  "witness_update_fee_parameters = Fee_flat 200000"
definition committee_member_create_fee_parameters :: fee_data where
  "committee_member_create_fee_parameters = Fee_flat 50000000"
definition committee_member_update_fee_parameters :: fee_data where
  "committee_member_update_fee_parameters = Fee_flat 200000"
definition committee_member_update_global_parameters_fee_parameters :: fee_data where
  "committee_member_update_global_parameters_fee_parameters = Fee_flat 50000"
definition committee_member_issue_construction_capital_fee_parameters :: fee_data where
  "committee_member_issue_construction_capital_fee_parameters = Fee_flat 100000"
definition committee_member_grant_instant_payback_fee_parameters :: fee_data where
  "committee_member_grant_instant_payback_fee_parameters = Fee_flat 50000"
definition worker_create_fee_parameters :: fee_data where
  "worker_create_fee_parameters = Fee_flat 10000000"

definition witness_create_validate :: "witness_create_operation \<Rightarrow> unit res" where
  "witness_create_validate x =
     bindE (fee_not_negative x) (\<lambda>_. assertE (length (wcr_url x) < GRAPHENE_MAX_URL_LENGTH) ''url.size() < GRAPHENE_MAX_URL_LENGTH'')"

definition witness_update_validate :: "witness_update_operation \<Rightarrow> unit res" where
  "witness_update_validate x =
     bindE (fee_not_negative x) (\<lambda>_.
     whenE (wup_new_url x) (\<lambda>u. assertE (length u < GRAPHENE_MAX_URL_LENGTH) ''new_url->size() < GRAPHENE_MAX_URL_LENGTH''))"

definition committee_member_create_validate :: "committee_member_create_operation \<Rightarrow> unit res" where
  "committee_member_create_validate x =
     bindE (fee_not_negative x) (\<lambda>_. assertE (length (cmc_url x) < GRAPHENE_MAX_URL_LENGTH) ''url.size() < GRAPHENE_MAX_URL_LENGTH'')"

definition committee_member_update_validate :: "committee_member_update_operation \<Rightarrow> unit res" where
  "committee_member_update_validate x =
     bindE (fee_not_negative x) (\<lambda>_.
     whenE (cmu_new_url x) (\<lambda>u. assertE (length u < GRAPHENE_MAX_URL_LENGTH) ''new_url->size() < GRAPHENE_MAX_URL_LENGTH''))"

definition committee_member_update_global_parameters_validate ::
    "committee_member_update_global_parameters_operation \<Rightarrow> unit res" where
  "committee_member_update_global_parameters_validate x =
     bindE (fee_not_negative x) (\<lambda>_. chain_parameters_validate (new_parameters x))"

definition committee_member_issue_construction_capital_validate ::
    "committee_member_issue_construction_capital_operation \<Rightarrow> unit res" where
  "committee_member_issue_construction_capital_validate x = fee_not_negative x"

definition committee_member_grant_instant_payback_validate ::
    "committee_member_grant_instant_payback_operation \<Rightarrow> unit res" where
  "committee_member_grant_instant_payback_validate x = fee_not_negative x"

definition worker_create_validate :: "worker_create_operation \<Rightarrow> unit res" where
  "worker_create_validate x =
     bindE (fee_not_negative x) (\<lambda>_.
     bindE (assertE (work_begin_date x < work_end_date x) ''work_end_date > work_begin_date'') (\<lambda>_.
     bindE (assertE (0 < daily_pay x) ''daily_pay > 0'') (\<lambda>_.
     bindE (assertE (daily_pay x < GRAPHENE_MAX_SHARE_SUPPLY) ''daily_pay < GRAPHENE_MAX_SHARE_SUPPLY'') (\<lambda>_.
     bindE (assertE (length (worker_name x) < GRAPHENE_MAX_WORKER_NAME_LENGTH) ''name.size() < GRAPHENE_MAX_WORKER_NAME_LENGTH'') (\<lambda>_.
     assertE (length (worker_url x) < GRAPHENE_MAX_URL_LENGTH) ''url.size() < GRAPHENE_MAX_URL_LENGTH'')))))"

subsection \<open>Custom and assert operations\<close>

record custom_operation = base_operation +
  custom_payer :: account_id_type
  custom_required_auths :: "account_id_type list"
  custom_id :: nat
  custom_data :: "nat list"

datatype predicate =
    Account_name_eq_lit account_id_type string
  | Asset_symbol_eq_lit asset_id_type string
  | Block_id_predicate nat

record assert_operation = base_operation +
  assert_fee_paying_account :: account_id_type
  predicates :: "predicate list"
  assert_required_auths :: "account_id_type list"

definition custom_fee_parameters :: fee_data where
  "custom_fee_parameters = Fee_sized 100000 10"
definition assert_fee_parameters :: fee_data where
  "assert_fee_parameters = Fee_flat 100000"

definition custom_validate :: "custom_operation \<Rightarrow> unit res" where
  "custom_validate x = assertE (0 < amount (fee x)) ''fee.amount > 0''"

definition custom_calculate_fee :: "'z fee_env_scheme \<Rightarrow> nat \<Rightarrow> nat \<Rightarrow> nat \<Rightarrow> int res" where
  "custom_calculate_fee E k_fee price_per_kbyte bytes =
     bindE (calculate_data_fee E bytes price_per_kbyte) (\<lambda>d. fc_share_of E (u64_add k_fee d))"

definition predicate_validate :: "bool \<Rightarrow> predicate \<Rightarrow> bool res" where
  "predicate_validate before_385 p =
     (case p of
        Account_name_eq_lit _ name \<Rightarrow> is_valid_name before_385 name
      | Asset_symbol_eq_lit _ s \<Rightarrow> Inr (is_valid_symbol s)
      | Block_id_predicate _ \<Rightarrow> Inr True)"

text \<open>The visitor calls the validation of each predicate and drops its result.\<close>

definition assert_validate :: "bool \<Rightarrow> assert_operation \<Rightarrow> unit res" where
  "assert_validate before_385 x =
     bindE (fee_not_negative x) (\<lambda>_.
     foldE (\<lambda>item _. bindE (predicate_validate before_385 item) (\<lambda>_. Inr ())) (predicates x) ())"

definition assert_calculate_fee :: "'z fee_env_scheme \<Rightarrow> nat \<Rightarrow> assert_operation \<Rightarrow> int res" where
  "assert_calculate_fee E k_fee x = fc_share_of E (k_fee * length (predicates x) mod 2 ^ 64)"

subsection \<open>Construction capital, deflation, incentives and buybacks\<close>

record construction_capital_create_operation = base_operation +
  ccc_account_id :: account_id_type
  ccc_amount :: int
  ccc_period :: nat
  ccc_total_periods :: nat

record construction_capital_vote_operation = base_operation +
  ccv_account_id :: account_id_type
  cc_from :: nat
  cc_to :: nat

record construction_capital_rate_vote_operation = base_operation +
  ccr_account_id :: account_id_type
  vote_option :: nat

record deflation_operation = base_operation +
  deflation_issuer :: account_id_type
  deflation_op_rate :: nat

record account_deflation_operation = base_operation +
  adf_deflation_id :: nat
  adf_owner :: account_id_type
  adf_amount :: int

record order_deflation_operation = base_operation +
  odf_deflation_id :: nat
  odf_order :: nat
  odf_owner :: account_id_type
  odf_amount :: int

record incentive_operation = base_operation +
  incentive_amount :: int
  incentive_ccid :: nat
  incentive_reason :: nat

record fba_distribute_operation = base_operation +
  fba_account_id :: account_id_type
  fba_id :: nat
  fba_amount :: int

definition construction_capital_create_fee_parameters :: fee_data where
  "construction_capital_create_fee_parameters = Fee_flat 0"
definition construction_capital_vote_fee_parameters :: fee_data where
  "construction_capital_vote_fee_parameters = Fee_flat 0"
definition construction_capital_rate_vote_fee_parameters :: fee_data where
  "construction_capital_rate_vote_fee_parameters = Fee_flat 0"
definition deflation_fee_parameters :: fee_data where
  "deflation_fee_parameters = Fee_flat 0"
definition account_deflation_fee_parameters :: fee_data where
  "account_deflation_fee_parameters = Fee_flat 0"
definition order_deflation_fee_parameters :: fee_data where
  "order_deflation_fee_parameters = Fee_flat 0"
definition incentive_fee_parameters :: fee_data where
  "incentive_fee_parameters = Fee_flat 0"
definition fba_distribute_fee_parameters :: fee_data where
  "fba_distribute_fee_parameters = Fee_none"

definition fba_distribute_validate :: "fba_distribute_operation \<Rightarrow> unit res" where
  "fba_distribute_validate x = assertE False ''false''"

subsection \<open>Confidential transfers\<close>

type_synonym commitment_type = nat

record ecc_env =
  ecc_blind :: "nat \<Rightarrow> int \<Rightarrow> commitment_type"
  ecc_verify_sum :: "commitment_type list \<Rightarrow> commitment_type list \<Rightarrow> int \<Rightarrow> bool"
  ecc_range_max_value :: "nat list \<Rightarrow> int res"

record blind_input =
  in_commitment :: commitment_type
  in_owner :: authority

record stealth_confirmation =
  one_time_key :: public_key_type
  stealth_to :: "public_key_type option"
  encrypted_memo :: "nat list"

record blind_output =
  out_commitment :: commitment_type
  range_proof :: "nat list"
  out_owner :: authority
  stealth_memo :: "stealth_confirmation option"

record transfer_to_blind_operation = base_operation +
  ttb_amount :: asset
  ttb_from :: account_id_type
  ttb_blinding_factor :: nat
  ttb_outputs :: "blind_output list"

record transfer_from_blind_operation = base_operation +
  tfb_amount :: asset
  tfb_to :: account_id_type
  tfb_blinding_factor :: nat
  tfb_inputs :: "blind_input list"

record blind_transfer_operation = base_operation +
  bt_inputs :: "blind_input list"
  bt_outputs :: "blind_output list"

definition transfer_to_blind_fee_parameters :: fee_data where
  "transfer_to_blind_fee_parameters = Fee_sized 1000 1000"
definition transfer_from_blind_fee_parameters :: fee_data where
  "transfer_from_blind_fee_parameters = Fee_flat 1000"
definition blind_transfer_fee_parameters :: fee_data where
  "blind_transfer_fee_parameters = Fee_sized 1000 1000"

definition check_outputs :: "blind_output list \<Rightarrow> unit res" where
  "check_outputs outputs =
     foldE (\<lambda>i _.
       bindE (if 0 < i then assertE (out_commitment (outputs ! (i - 1)) < out_commitment (outputs ! i))
                ''all outputs must be sorted by commitment id'' else Inr ()) (\<lambda>_.
       assertE (\<not> is_impossible (out_owner (outputs ! i))) ''!outputs[i].owner.is_impossible()''))
       [0..<length outputs] ()"

definition check_inputs :: "blind_input list \<Rightarrow> unit res" where
  "check_inputs inputs =
     foldE (\<lambda>i _. if 0 < i then assertE (in_commitment (inputs ! (i - 1)) < in_commitment (inputs ! i))
                ''all inputs must be sorted by commitment id'' else Inr ())
       [0..<length inputs] ()"

definition check_ranges :: "'e ecc_env_scheme \<Rightarrow> blind_output list \<Rightarrow> unit res" where
  "check_ranges C outputs =
     (if 1 < length outputs then
        foldE (\<lambda>out _. bindE (ecc_range_max_value C (range_proof out)) (\<lambda>m.
          assertE (m \<le> GRAPHENE_MAX_SHARE_SUPPLY) ''info.max_value <= GRAPHENE_MAX_SHARE_SUPPLY'')) outputs ()
      else Inr ())"

definition transfer_to_blind_validate :: "'e ecc_env_scheme \<Rightarrow> transfer_to_blind_operation \<Rightarrow> unit res" where
  "transfer_to_blind_validate C x =
     (let out = map out_commitment (ttb_outputs x); net_public = amount (ttb_amount x) in
      bindE (fee_not_negative x) (\<lambda>_.
      bindE (assertE (0 < amount (ttb_amount x)) ''amount.amount > 0'') (\<lambda>_.
      bindE (check_outputs (ttb_outputs x)) (\<lambda>_.
      bindE (assertE (out \<noteq> []) ''there must be at least one output'') (\<lambda>_.
      bindE (assertE (ecc_verify_sum C [ecc_blind C (ttb_blinding_factor x) net_public] out 0) ''verify_sum'') (\<lambda>_.
      check_ranges C (ttb_outputs x)))))))"

definition transfer_to_blind_calculate_fee :: "'z fee_env_scheme \<Rightarrow> nat \<Rightarrow> nat \<Rightarrow> transfer_to_blind_operation \<Rightarrow> int res" where
  "transfer_to_blind_calculate_fee E k_fee price_per_output x =
     fc_share_of E (u64_add k_fee (length (ttb_outputs x) * price_per_output mod 2 ^ 64))"

text \<open>The sum of the fee and the amount is a signed 64-bit addition of the raw values.\<close>

definition transfer_from_blind_validate :: "'e ecc_env_scheme \<Rightarrow> transfer_from_blind_operation \<Rightarrow> unit res" where
  "transfer_from_blind_validate C x =
     (let ins = map in_commitment (tfb_inputs x); net_public = amount (fee x) + amount (tfb_amount x) in
      bindE (assertE (0 < amount (tfb_amount x)) ''amount.amount > 0'') (\<lambda>_.
      bindE (fee_not_negative x) (\<lambda>_.
      bindE (assertE (tfb_inputs x \<noteq> []) ''inputs.size() > 0'') (\<lambda>_.
      bindE (assertE (asset_id (tfb_amount x) = asset_id (fee x)) ''amount.asset_id == fee.asset_id'') (\<lambda>_.
      bindE (if fc_int64 net_public then Inr () else throwE Undefined_behaviour) (\<lambda>_.
      bindE (check_inputs (tfb_inputs x)) (\<lambda>_.
      bindE (assertE (ins \<noteq> []) ''there must be at least one input'') (\<lambda>_.
      assertE (ecc_verify_sum C ins [ecc_blind C (tfb_blinding_factor x) net_public] 0) ''verify_sum''))))))))"

definition blind_transfer_validate :: "'e ecc_env_scheme \<Rightarrow> blind_transfer_operation \<Rightarrow> unit res" where
  "blind_transfer_validate C x =
     (let ins = map in_commitment (bt_inputs x); out = map out_commitment (bt_outputs x);
          net_public = amount (fee x) in
      bindE (check_inputs (bt_inputs x)) (\<lambda>_.
      bindE (check_outputs (bt_outputs x)) (\<lambda>_.
      bindE (assertE (ins \<noteq> []) ''there must be at least one input'') (\<lambda>_.
      bindE (assertE (ecc_verify_sum C ins out net_public) ''verify_sum'') (\<lambda>_.
      bindE (check_ranges C (bt_outputs x)) (\<lambda>_.
      assertE (ecc_verify_sum C ins out net_public) ''verify_sum''))))))"

definition blind_transfer_calculate_fee :: "'z fee_env_scheme \<Rightarrow> nat \<Rightarrow> nat \<Rightarrow> blind_transfer_operation \<Rightarrow> int res" where
  "blind_transfer_calculate_fee E k_fee price_per_output x =
     fc_share_of E (u64_add k_fee (length (bt_outputs x) * price_per_output mod 2 ^ 64))"

end
