(* ===== verification/Operations.thy ===== *)
theory Operations
  imports Governance_Ops
begin

text \<open>
  The variant of all operations (\<open>protocol/operations.hpp\<close>, \<open>protocol/operations.cpp\<close>) with
  its visitors: validation, the authorities an operation requires, fees (\<open>fee_schedule.cpp\<close>).

  A proposal contains operations, so the variant is recursive. Validation can meet the loop of a
  price feed: its result is \<open>None\<close> when that loop does not end, and that it always ends is a
  theorem. The record \<open>op_env\<close> holds what validation takes from outside: the clock compared
  with the hard fork, \<open>boost::rational\<close> and the elliptic-curve functions.
\<close>

datatype (plugins only: code size) operation =
    Transfer_op transfer_operation
  | Limit_order_create_op limit_order_create_operation
  | Limit_order_cancel_op limit_order_cancel_operation
  | Call_order_update_op call_order_update_operation
  | Fill_order_op fill_order_operation
  | Account_create_op account_create_operation
  | Account_update_op account_update_operation
  | Account_whitelist_op account_whitelist_operation
  | Account_upgrade_op account_upgrade_operation
  | Account_transfer_op account_transfer_operation
  | Asset_create_op asset_create_operation
  | Asset_update_op asset_update_operation
  | Asset_update_bitasset_op asset_update_bitasset_operation
  | Asset_update_feed_producers_op asset_update_feed_producers_operation
  | Asset_issue_op asset_issue_operation
  | Asset_reserve_op asset_reserve_operation
  | Asset_fund_fee_pool_op asset_fund_fee_pool_operation
  | Asset_settle_op asset_settle_operation
  | Asset_global_settle_op asset_global_settle_operation
  | Asset_publish_feed_op asset_publish_feed_operation
  | Witness_create_op witness_create_operation
  | Witness_update_op witness_update_operation
  | Proposal_create_op asset account_id_type "operation list" nat "nat option"
  | Proposal_update_op proposal_update_operation
  | Proposal_delete_op proposal_delete_operation
  | Withdraw_permission_create_op withdraw_permission_create_operation
  | Withdraw_permission_update_op withdraw_permission_update_operation
  | Withdraw_permission_claim_op withdraw_permission_claim_operation
  | Withdraw_permission_delete_op withdraw_permission_delete_operation
  | Committee_member_create_op committee_member_create_operation
  | Committee_member_update_op committee_member_update_operation
  | Committee_member_update_global_parameters_op committee_member_update_global_parameters_operation
  | Vesting_balance_create_op vesting_balance_create_operation
  | Vesting_balance_withdraw_op vesting_balance_withdraw_operation
  | Worker_create_op worker_create_operation
  | Custom_op custom_operation
  | Assert_op assert_operation
  | Balance_claim_op balance_claim_operation
  | Override_transfer_op override_transfer_operation
  | Transfer_to_blind_op transfer_to_blind_operation
  | Blind_transfer_op blind_transfer_operation
  | Transfer_from_blind_op transfer_from_blind_operation
  | Asset_settle_cancel_op asset_settle_cancel_operation
  | Asset_claim_fees_op asset_claim_fees_operation
  | Fba_distribute_op fba_distribute_operation
  | Incentive_op incentive_operation
  | Construction_capital_create_op construction_capital_create_operation
  | Construction_capital_vote_op construction_capital_vote_operation
  | Committee_member_issue_construction_capital_op committee_member_issue_construction_capital_operation
  | Committee_member_grant_instant_payback_op committee_member_grant_instant_payback_operation
  | Account_create_by_transfer_op account_create_by_transfer_operation
  | Limit_order_fee_config_op limit_order_fee_config_operation
  | Construction_capital_rate_vote_op construction_capital_rate_vote_operation
  | Deflation_op deflation_operation
  | Account_deflation_op account_deflation_operation
  | Order_deflation_op order_deflation_operation

record op_env =
  op_before_385 :: bool
  op_rational :: rational
  op_ecc :: ecc_env

subsection \<open>Validation\<close>

definition bindO :: "'a res option \<Rightarrow> ('a \<Rightarrow> 'b res option) \<Rightarrow> 'b res option" where
  "bindO m f = (case m of None \<Rightarrow> None | Some (Inl e) \<Rightarrow> Some (Inl e) | Some (Inr x) \<Rightarrow> f x)"

text \<open>The results of the proposed operations are consulted in order.\<close>

fun first_failure :: "unit res option list \<Rightarrow> unit res option" where
  "first_failure [] = Some (Inr ())"
| "first_failure (r # rs) = bindO r (\<lambda>_. first_failure rs)"

definition proposal_create_validate :: "unit res option list \<Rightarrow> unit res option" where
  "proposal_create_validate results =
     bindO (Some (assertE (results \<noteq> []) ''!proposed_ops.empty()'')) (\<lambda>_. first_failure results)"

primrec operation_validate :: "op_env \<Rightarrow> operation \<Rightarrow> unit res option" where
    "operation_validate V (Transfer_op x) = Some (transfer_validate x)"
  | "operation_validate V (Limit_order_create_op x) = Some (limit_order_create_validate x)"
  | "operation_validate V (Limit_order_cancel_op x) = Some (limit_order_cancel_validate x)"
  | "operation_validate V (Call_order_update_op x) = Some (call_order_update_validate x)"
  | "operation_validate V (Fill_order_op x) = Some (fill_order_validate x)"
  | "operation_validate V (Account_create_op x) = Some (account_create_validate (op_before_385 V) x)"
  | "operation_validate V (Account_update_op x) = Some (account_update_validate x)"
  | "operation_validate V (Account_whitelist_op x) = Some (account_whitelist_validate x)"
  | "operation_validate V (Account_upgrade_op x) = Some (account_upgrade_validate x)"
  | "operation_validate V (Account_transfer_op x) = Some (account_transfer_validate x)"
  | "operation_validate V (Asset_create_op x) = Some (asset_create_validate x)"
  | "operation_validate V (Asset_update_op x) = Some (asset_update_validate x)"
  | "operation_validate V (Asset_update_bitasset_op x) = Some (asset_update_bitasset_validate x)"
  | "operation_validate V (Asset_update_feed_producers_op x) = Some (asset_update_feed_producers_validate x)"
  | "operation_validate V (Asset_issue_op x) = Some (asset_issue_validate x)"
  | "operation_validate V (Asset_reserve_op x) = Some (asset_reserve_validate x)"
  | "operation_validate V (Asset_fund_fee_pool_op x) = Some (asset_fund_fee_pool_validate x)"
  | "operation_validate V (Asset_settle_op x) = Some (asset_settle_validate x)"
  | "operation_validate V (Asset_global_settle_op x) = Some (asset_global_settle_validate x)"
  | "operation_validate V (Asset_publish_feed_op x) = asset_publish_feed_validate (op_rational V) x"
  | "operation_validate V (Witness_create_op x) = Some (witness_create_validate x)"
  | "operation_validate V (Witness_update_op x) = Some (witness_update_validate x)"
  | "operation_validate V (Proposal_create_op f a ops e r) = proposal_create_validate (map (operation_validate V) ops)"
  | "operation_validate V (Proposal_update_op x) = Some (proposal_update_validate x)"
  | "operation_validate V (Proposal_delete_op x) = Some (proposal_delete_validate x)"
  | "operation_validate V (Withdraw_permission_create_op x) = Some (withdraw_permission_create_validate x)"
  | "operation_validate V (Withdraw_permission_update_op x) = Some (withdraw_permission_update_validate x)"
  | "operation_validate V (Withdraw_permission_claim_op x) = Some (withdraw_permission_claim_validate x)"
  | "operation_validate V (Withdraw_permission_delete_op x) = Some (withdraw_permission_delete_validate x)"
  | "operation_validate V (Committee_member_create_op x) = Some (committee_member_create_validate x)"
  | "operation_validate V (Committee_member_update_op x) = Some (committee_member_update_validate x)"
  | "operation_validate V (Committee_member_update_global_parameters_op x) = Some (committee_member_update_global_parameters_validate x)"
  | "operation_validate V (Vesting_balance_create_op x) = Some (vesting_balance_create_validate x)"
  | "operation_validate V (Vesting_balance_withdraw_op x) = Some (vesting_balance_withdraw_validate x)"
  | "operation_validate V (Worker_create_op x) = Some (worker_create_validate x)"
  | "operation_validate V (Custom_op x) = Some (custom_validate x)"
  | "operation_validate V (Assert_op x) = Some (assert_validate (op_before_385 V) x)"
  | "operation_validate V (Balance_claim_op x) = Some (balance_claim_validate x)"
  | "operation_validate V (Override_transfer_op x) = Some (override_transfer_validate x)"
  | "operation_validate V (Transfer_to_blind_op x) = Some (transfer_to_blind_validate (op_ecc V) x)"
  | "operation_validate V (Blind_transfer_op x) = Some (blind_transfer_validate (op_ecc V) x)"
  | "operation_validate V (Transfer_from_blind_op x) = Some (transfer_from_blind_validate (op_ecc V) x)"
  | "operation_validate V (Asset_settle_cancel_op x) = Some (asset_settle_cancel_validate x)"
  | "operation_validate V (Asset_claim_fees_op x) = Some (asset_claim_fees_validate x)"
  | "operation_validate V (Fba_distribute_op x) = Some (fba_distribute_validate x)"
  | "operation_validate V (Incentive_op x) = Some (Inr ())"
  | "operation_validate V (Construction_capital_create_op x) = Some (Inr ())"
  | "operation_validate V (Construction_capital_vote_op x) = Some (Inr ())"
  | "operation_validate V (Committee_member_issue_construction_capital_op x) = Some (committee_member_issue_construction_capital_validate x)"
  | "operation_validate V (Committee_member_grant_instant_payback_op x) = Some (committee_member_grant_instant_payback_validate x)"
  | "operation_validate V (Account_create_by_transfer_op x) = Some (account_create_by_transfer_validate x)"
  | "operation_validate V (Limit_order_fee_config_op x) = Some (limit_order_fee_config_validate x)"
  | "operation_validate V (Construction_capital_rate_vote_op x) = Some (Inr ())"
  | "operation_validate V (Deflation_op x) = Some (Inr ())"
  | "operation_validate V (Account_deflation_op x) = Some (Inr ())"
  | "operation_validate V (Order_deflation_op x) = Some (Inr ())"

subsection \<open>Required authorities\<close>

primrec fee_payer :: "operation \<Rightarrow> account_id_type" where
    "fee_payer (Transfer_op x) = transfer_from x"
  | "fee_payer (Limit_order_create_op x) = seller x"
  | "fee_payer (Limit_order_cancel_op x) = loc_fee_paying_account x"
  | "fee_payer (Call_order_update_op x) = funding_account x"
  | "fee_payer (Fill_order_op x) = fill_account_id x"
  | "fee_payer (Account_create_op x) = registrar x"
  | "fee_payer (Account_update_op x) = upd_account x"
  | "fee_payer (Account_whitelist_op x) = authorizing_account x"
  | "fee_payer (Account_upgrade_op x) = account_to_upgrade x"
  | "fee_payer (Account_transfer_op x) = atr_account_id x"
  | "fee_payer (Asset_create_op x) = acr_issuer x"
  | "fee_payer (Asset_update_op x) = aup_issuer x"
  | "fee_payer (Asset_update_bitasset_op x) = aub_issuer x"
  | "fee_payer (Asset_update_feed_producers_op x) = afp_issuer x"
  | "fee_payer (Asset_issue_op x) = issue_issuer x"
  | "fee_payer (Asset_reserve_op x) = reserve_payer x"
  | "fee_payer (Asset_fund_fee_pool_op x) = from_account x"
  | "fee_payer (Asset_settle_op x) = settle_account x"
  | "fee_payer (Asset_global_settle_op x) = ags_issuer x"
  | "fee_payer (Asset_publish_feed_op x) = publisher x"
  | "fee_payer (Witness_create_op x) = wcr_witness_account x"
  | "fee_payer (Witness_update_op x) = wup_witness_account x"
  | "fee_payer (Proposal_create_op f a ops e r) = a"
  | "fee_payer (Proposal_update_op x) = pup_fee_paying_account x"
  | "fee_payer (Proposal_delete_op x) = pdel_fee_paying_account x"
  | "fee_payer (Withdraw_permission_create_op x) = wpc_withdraw_from_account x"
  | "fee_payer (Withdraw_permission_update_op x) = wpu_withdraw_from_account x"
  | "fee_payer (Withdraw_permission_claim_op x) = wcl_withdraw_to_account x"
  | "fee_payer (Withdraw_permission_delete_op x) = wpd_withdraw_from_account x"
  | "fee_payer (Committee_member_create_op x) = cmc_committee_member_account x"
  | "fee_payer (Committee_member_update_op x) = cmu_committee_member_account x"
  | "fee_payer (Committee_member_update_global_parameters_op x) = 0"
  | "fee_payer (Vesting_balance_create_op x) = vbc_creator x"
  | "fee_payer (Vesting_balance_withdraw_op x) = vbw_owner x"
  | "fee_payer (Worker_create_op x) = worker_owner x"
  | "fee_payer (Custom_op x) = custom_payer x"
  | "fee_payer (Assert_op x) = assert_fee_paying_account x"
  | "fee_payer (Balance_claim_op x) = deposit_to_account x"
  | "fee_payer (Override_transfer_op x) = ovr_issuer x"
  | "fee_payer (Transfer_to_blind_op x) = ttb_from x"
  | "fee_payer (Blind_transfer_op x) = GRAPHENE_TEMP_ACCOUNT"
  | "fee_payer (Transfer_from_blind_op x) = GRAPHENE_TEMP_ACCOUNT"
  | "fee_payer (Asset_settle_cancel_op x) = asc_account x"
  | "fee_payer (Asset_claim_fees_op x) = acf_issuer x"
  | "fee_payer (Fba_distribute_op x) = fba_account_id x"
  | "fee_payer (Incentive_op x) = GRAPHENE_TEMP_ACCOUNT"
  | "fee_payer (Construction_capital_create_op x) = ccc_account_id x"
  | "fee_payer (Construction_capital_vote_op x) = ccv_account_id x"
  | "fee_payer (Committee_member_issue_construction_capital_op x) = 0"
  | "fee_payer (Committee_member_grant_instant_payback_op x) = 0"
  | "fee_payer (Account_create_by_transfer_op x) = cbt_from x"
  | "fee_payer (Limit_order_fee_config_op x) = lfc_receiver x"
  | "fee_payer (Construction_capital_rate_vote_op x) = ccr_account_id x"
  | "fee_payer (Deflation_op x) = deflation_issuer x"
  | "fee_payer (Account_deflation_op x) = GRAPHENE_TEMP_ACCOUNT"
  | "fee_payer (Order_deflation_op x) = GRAPHENE_TEMP_ACCOUNT"

definition required_active_authorities :: "operation \<Rightarrow> account_id_type list \<Rightarrow> account_id_type list" where
  "required_active_authorities x a =
     (case x of
        Account_create_op c \<Rightarrow>
          (let a' = fs_insert (registrar c) a in
           case buyback_options c of None \<Rightarrow> a' | Some b \<Rightarrow> fs_insert (asset_to_buy_issuer b) a')
      | Account_update_op u \<Rightarrow> if \<not> is_owner_update u then fs_insert (upd_account u) a else a
      | Proposal_update_op u \<Rightarrow> proposal_update_required_active u a
      | _ \<Rightarrow> a)"

definition required_owner_authorities :: "operation \<Rightarrow> account_id_type list \<Rightarrow> account_id_type list" where
  "required_owner_authorities x a =
     (case x of
        Account_update_op u \<Rightarrow> if is_owner_update u then fs_insert (upd_account u) a else a
      | Proposal_update_op u \<Rightarrow> proposal_update_required_owner u a
      | _ \<Rightarrow> a)"

definition required_other_authorities :: "operation \<Rightarrow> authority list \<Rightarrow> authority list" where
  "required_other_authorities x other =
     (case x of
        Proposal_update_op u \<Rightarrow> other @ [proposal_update_required_authority u]
      | Balance_claim_op b \<Rightarrow> other @ [balance_claim_required_authority b]
      | Transfer_from_blind_op t \<Rightarrow> other @ map in_owner (tfb_inputs t)
      | Blind_transfer_op t \<Rightarrow> other @ map in_owner (bt_inputs t)
      | _ \<Rightarrow> other)"

definition operation_get_required_authorities :: "operation \<Rightarrow> required_auths \<Rightarrow> required_auths" where
  "operation_get_required_authorities x r =
     (let (active, owner, other) = r in
      (required_active_authorities x (fs_insert (fee_payer x) active),
       required_owner_authorities x owner, required_other_authorities x other))"

subsection \<open>Validation always ends\<close>

lemma bindO_simps [simp]:
  "bindO (Some (Inr x)) f = f x" "bindO (Some (Inl e)) f = Some (Inl e)" "bindO None f = None"
  by (simp_all add: bindO_def)

lemma first_failure_ends: "(\<And>r. r \<in> set rs \<Longrightarrow> r \<noteq> None) \<Longrightarrow> first_failure rs \<noteq> None"
proof (induction rs)
  case (Cons r rs)
  then obtain v where "r = Some v" by fastforce
  then show ?case using Cons by (cases v) auto
qed simp

lemma asset_publish_feed_ends: "rational_contract R \<Longrightarrow> asset_publish_feed_validate R x \<noteq> None"
  using price_feed_validate_ends [of R "feed x"]
  by (auto simp: asset_publish_feed_validate_def split: sum.splits)

text \<open>
  The validation of an operation always returns, for every operation and any nesting of
  proposals: the only loop with no bound of its own is the rounding loop of a published price
  feed, and it ends on every feed, the ones with a null or negative settlement price included.
\<close>

theorem operation_validate_ends:
  assumes "rational_contract (op_rational V)"
  shows "operation_validate V x \<noteq> None"
proof (induction x)
  case (Asset_publish_feed_op x)
  show ?case using asset_publish_feed_ends [OF assms] by simp
next
  case (Proposal_create_op f a ops e r)
  then have "first_failure (map (operation_validate V) ops) \<noteq> None"
    by (intro first_failure_ends) auto
  then show ?case by (auto simp: proposal_create_validate_def assertE_def)
qed simp_all

theorem operation_validate_ends_witness:
  "operation_validate \<lparr>op_before_385 = False, op_rational = gcd_rational,
     op_ecc = \<lparr>ecc_blind = (\<lambda>f v. 0), ecc_verify_sum = (\<lambda>i u n. True), ecc_range_max_value = (\<lambda>p. Inr 0)\<rparr>\<rparr>
     (Proposal_create_op (mk_asset 0 0) 5 [Asset_publish_feed_op \<lparr>fee = mk_asset 0 0, publisher = 7, apf_asset_id = 1,
       feed = \<lparr>settlement_price = null_price, core_exchange_rate = null_price,
         maintenance_collateral_ratio = 1750, maximum_short_squeeze_ratio = 1500\<rparr>\<rparr>] 100 None) \<noteq> None"
  by (rule operation_validate_ends) (simp add: gcd_rational_contract)

lemma assert_predicates_total: "foldE (\<lambda>item _. bindE (predicate_validate False item) (\<lambda>_. Inr ())) ps () = Inr ()"
proof (induction ps)
  case (Cons p ps)
  have "\<exists>b. predicate_validate False p = Inr b"
    by (cases p) (auto simp: predicate_validate_def is_valid_name_def)
  then show ?case using Cons.IH by auto
qed simp

text \<open>
  the validation of an assert operation never looks at the answer of a predicate. After the
  hard fork time it accepts every list of predicates, so a name or symbol that can never exist
  passes, where the comments on the predicates say that the validation verifies them.
\<close>

theorem assert_validate_ignores_predicates:
  "assert_validate False x = fee_not_negative x \<and>
   predicate_validate False (Asset_symbol_eq_lit 0 ''bad symbol'') = Inr False \<and>
   assert_validate False \<lparr>fee = mk_asset 0 0, assert_fee_paying_account = 5,
     predicates = [Asset_symbol_eq_lit 0 ''bad symbol''], assert_required_auths = []\<rparr> = Inr ()"
proof (intro conjI)
  have all: "assert_validate False y = fee_not_negative y" for y
    by (cases "fee_not_negative y") (simp_all add: assert_validate_def assert_predicates_total)
  then show "assert_validate False x = fee_not_negative x" .
  show "assert_validate False \<lparr>fee = mk_asset 0 0, assert_fee_paying_account = 5,
     predicates = [Asset_symbol_eq_lit 0 ''bad symbol''], assert_required_auths = []\<rparr> = Inr ()"
    by (simp add: all fee_not_negative_def mk_asset_def)
  show "predicate_validate False (Asset_symbol_eq_lit 0 ''bad symbol'') = Inr False"
    by (simp add: predicate_validate_def is_valid_symbol_def name_lengths isalpha_def isupper_def isdigit_def is_letter_def)
qed

subsection \<open>Required authorities only grow\<close>

lemma set_fold_fs_insert [simp]: "set (fold fs_insert xs a) = set xs \<union> set a"
  by (induction xs arbitrary: a) auto

lemma required_active_grow: "set a \<subseteq> set (required_active_authorities x a)"
  by (cases x) (auto simp: required_active_authorities_def proposal_update_required_active_def Let_def split: option.splits)

lemma required_owner_grow: "set a \<subseteq> set (required_owner_authorities x a)"
  by (cases x) (auto simp: required_owner_authorities_def proposal_update_required_owner_def)

lemma required_owner_mono: "set a \<subseteq> set b \<Longrightarrow> set (required_owner_authorities x a) \<subseteq> set (required_owner_authorities x b)"
  by (cases x) (auto simp: required_owner_authorities_def proposal_update_required_owner_def)

lemma required_other_grow: "set a \<subseteq> set (required_other_authorities x a)"
  by (cases x) (auto simp: required_other_authorities_def)

lemma required_other_eq: "set (required_other_authorities x a) = set (required_other_authorities x []) \<union> set a"
  by (cases x) (auto simp: required_other_authorities_def)

lemma required_auths_fold:
  assumes "get_required_authorities operation_get_required_authorities ops (a, w, z) = (ra, ro, other)"
  shows "set a \<subseteq> set ra \<and> set w \<subseteq> set ro \<and> set z \<subseteq> set other \<and>
    (\<forall>x\<in>set ops. fee_payer x \<in> set ra \<and> set (required_owner_authorities x []) \<subseteq> set ro \<and>
      set (required_other_authorities x []) \<subseteq> set other)"
  using assms
proof (induction ops arbitrary: a w z)
  case Nil
  then show ?case by (simp add: get_required_authorities_def)
next
  case (Cons y ops)
  let ?a = "required_active_authorities y (fs_insert (fee_payer y) a)"
  let ?w = "required_owner_authorities y w" and ?z = "required_other_authorities y z"
  have "get_required_authorities operation_get_required_authorities ops (?a, ?w, ?z) = (ra, ro, other)"
    using Cons.prems unfolding get_required_authorities_def fold_simps operation_get_required_authorities_def [of y]
    by simp
  note IH = Cons.IH [OF this]
  have "insert (fee_payer y) (set a) \<subseteq> set ?a"
    using required_active_grow [of "fs_insert (fee_payer y) a" y] by simp
  moreover have "set w \<subseteq> set ?w" "set z \<subseteq> set ?z"
    by (rule required_owner_grow, rule required_other_grow)
  moreover have "set (required_owner_authorities y []) \<subseteq> set ?w"
    by (rule required_owner_mono) simp
  moreover have "set (required_other_authorities y []) \<subseteq> set ?z"
    using required_other_eq [of y z] by blast
  ultimately show ?case using IH by (simp add: subset_iff)
qed

text \<open>
  The accounts a custom operation lists as required do not enter the required authorities: only
  the payer has to sign.
\<close>

lemma custom_auths_not_required:
  "operation_get_required_authorities (Custom_op (x\<lparr>custom_required_auths := auths\<rparr>)) =
   operation_get_required_authorities (Custom_op x)"
  by (simp add: fun_eq_iff operation_get_required_authorities_def required_active_authorities_def
      required_owner_authorities_def required_other_authorities_def)

end
