(* ===== verification/Fee_Schedule.thy ===== *)
theory Fee_Schedule
  imports Operations
begin

text \<open>
  Fees of operations (\<open>protocol/fee_schedule.cpp\<close>, \<open>fee_schedule.hpp\<close>): the default schedule,
  the fee of an operation in the core asset, its conversion to the asset the fee is paid in, and
  the iteration that sets the fee of an operation.

  The parameters of the schedule are tagged by the position of the operation in the variant, and
  the set compares the tags only. A parameter struct of another shape than the one of the
  operation cannot be stored under its tag in the source; here the case is the exception
  \<open>Bad_cast\<close> of the variant. The sizes of packed data come from the record \<open>pack_env\<close>.
\<close>

record pack_env =
  pack_op :: "operation \<Rightarrow> nat"
  pack_memo :: "memo_data option \<Rightarrow> nat"

definition MAX_FEE_STABILIZATION_ITERATION :: nat where
  "MAX_FEE_STABILIZATION_ITERATION = 4"

primrec which :: "operation \<Rightarrow> nat" where
    "which (Transfer_op x) = 0"
  | "which (Limit_order_create_op x) = 1"
  | "which (Limit_order_cancel_op x) = 2"
  | "which (Call_order_update_op x) = 3"
  | "which (Fill_order_op x) = 4"
  | "which (Account_create_op x) = 5"
  | "which (Account_update_op x) = 6"
  | "which (Account_whitelist_op x) = 7"
  | "which (Account_upgrade_op x) = 8"
  | "which (Account_transfer_op x) = 9"
  | "which (Asset_create_op x) = 10"
  | "which (Asset_update_op x) = 11"
  | "which (Asset_update_bitasset_op x) = 12"
  | "which (Asset_update_feed_producers_op x) = 13"
  | "which (Asset_issue_op x) = 14"
  | "which (Asset_reserve_op x) = 15"
  | "which (Asset_fund_fee_pool_op x) = 16"
  | "which (Asset_settle_op x) = 17"
  | "which (Asset_global_settle_op x) = 18"
  | "which (Asset_publish_feed_op x) = 19"
  | "which (Witness_create_op x) = 20"
  | "which (Witness_update_op x) = 21"
  | "which (Proposal_create_op f a ops e r) = 22"
  | "which (Proposal_update_op x) = 23"
  | "which (Proposal_delete_op x) = 24"
  | "which (Withdraw_permission_create_op x) = 25"
  | "which (Withdraw_permission_update_op x) = 26"
  | "which (Withdraw_permission_claim_op x) = 27"
  | "which (Withdraw_permission_delete_op x) = 28"
  | "which (Committee_member_create_op x) = 29"
  | "which (Committee_member_update_op x) = 30"
  | "which (Committee_member_update_global_parameters_op x) = 31"
  | "which (Vesting_balance_create_op x) = 32"
  | "which (Vesting_balance_withdraw_op x) = 33"
  | "which (Worker_create_op x) = 34"
  | "which (Custom_op x) = 35"
  | "which (Assert_op x) = 36"
  | "which (Balance_claim_op x) = 37"
  | "which (Override_transfer_op x) = 38"
  | "which (Transfer_to_blind_op x) = 39"
  | "which (Blind_transfer_op x) = 40"
  | "which (Transfer_from_blind_op x) = 41"
  | "which (Asset_settle_cancel_op x) = 42"
  | "which (Asset_claim_fees_op x) = 43"
  | "which (Fba_distribute_op x) = 44"
  | "which (Incentive_op x) = 45"
  | "which (Construction_capital_create_op x) = 46"
  | "which (Construction_capital_vote_op x) = 47"
  | "which (Committee_member_issue_construction_capital_op x) = 48"
  | "which (Committee_member_grant_instant_payback_op x) = 49"
  | "which (Account_create_by_transfer_op x) = 50"
  | "which (Limit_order_fee_config_op x) = 51"
  | "which (Construction_capital_rate_vote_op x) = 52"
  | "which (Deflation_op x) = 53"
  | "which (Account_deflation_op x) = 54"
  | "which (Order_deflation_op x) = 55"

definition default_fee_parameters :: "fee_data list" where
  "default_fee_parameters =
     [transfer_fee_parameters,
      limit_order_create_fee_parameters,
      limit_order_cancel_fee_parameters,
      call_order_update_fee_parameters,
      fill_order_fee_parameters,
      account_create_fee_parameters,
      account_update_fee_parameters,
      account_whitelist_fee_parameters,
      account_upgrade_fee_parameters,
      account_transfer_fee_parameters,
      asset_create_fee_parameters,
      asset_update_fee_parameters,
      asset_update_bitasset_fee_parameters,
      asset_update_feed_producers_fee_parameters,
      asset_issue_fee_parameters,
      asset_reserve_fee_parameters,
      asset_fund_fee_pool_fee_parameters,
      asset_settle_fee_parameters,
      asset_global_settle_fee_parameters,
      asset_publish_feed_fee_parameters,
      witness_create_fee_parameters,
      witness_update_fee_parameters,
      proposal_create_fee_parameters,
      proposal_update_fee_parameters,
      proposal_delete_fee_parameters,
      withdraw_permission_create_fee_parameters,
      withdraw_permission_update_fee_parameters,
      withdraw_permission_claim_fee_parameters,
      withdraw_permission_delete_fee_parameters,
      committee_member_create_fee_parameters,
      committee_member_update_fee_parameters,
      committee_member_update_global_parameters_fee_parameters,
      vesting_balance_create_fee_parameters,
      vesting_balance_withdraw_fee_parameters,
      worker_create_fee_parameters,
      custom_fee_parameters,
      assert_fee_parameters,
      balance_claim_fee_parameters,
      override_transfer_fee_parameters,
      transfer_to_blind_fee_parameters,
      blind_transfer_fee_parameters,
      transfer_from_blind_fee_parameters,
      asset_settle_cancel_fee_parameters,
      asset_claim_fees_fee_parameters,
      fba_distribute_fee_parameters,
      incentive_fee_parameters,
      construction_capital_create_fee_parameters,
      construction_capital_vote_fee_parameters,
      committee_member_issue_construction_capital_fee_parameters,
      committee_member_grant_instant_payback_fee_parameters,
      account_create_by_transfer_fee_parameters,
      limit_order_fee_config_fee_parameters,
      construction_capital_rate_vote_fee_parameters,
      deflation_fee_parameters,
      account_deflation_fee_parameters,
      order_deflation_fee_parameters]"

definition get_default :: fee_schedule where
  "get_default =
     \<lparr>parameters = fold (\<lambda>i m. fm_insert i (default_fee_parameters ! i) m)
        [0..<length default_fee_parameters] [], scale = GRAPHENE_100_PERCENT\<rparr>"

fun zero_fee :: "fee_data \<Rightarrow> fee_data" where
  "zero_fee Fee_none = Fee_none"
| "zero_fee (Fee_flat _) = Fee_flat 0"
| "zero_fee (Fee_sized _ _) = Fee_sized 0 0"
| "zero_fee (Fee_account_create _ _ _) = Fee_account_create 0 0 0"
| "zero_fee (Fee_asset_create _ _ _ _) = Fee_asset_create 0 0 0 0"
| "zero_fee (Fee_membership _ _) = Fee_membership 0 0"

definition zero_all_fees :: fee_schedule where
  "zero_all_fees =
     \<lparr>parameters = map (\<lambda>(i, d). (i, zero_fee d)) (parameters get_default), scale = 0\<rparr>"

subsection \<open>Visitors\<close>

primrec calc_fee :: "'z fee_env_scheme \<Rightarrow> pack_env \<Rightarrow> fee_data \<Rightarrow> operation \<Rightarrow> int res" where
    "calc_fee E P d (Transfer_op x) = (case d of Fee_sized k p \<Rightarrow> transfer_calculate_fee E k p (transfer_memo x) (pack_memo P (transfer_memo x)) | _ \<Rightarrow> throwE Bad_cast)"
  | "calc_fee E P d (Limit_order_create_op x) = (case d of Fee_flat k \<Rightarrow> fc_share_of E k | _ \<Rightarrow> throwE Bad_cast)"
  | "calc_fee E P d (Limit_order_cancel_op x) = (case d of Fee_flat k \<Rightarrow> fc_share_of E k | _ \<Rightarrow> throwE Bad_cast)"
  | "calc_fee E P d (Call_order_update_op x) = (case d of Fee_flat k \<Rightarrow> fc_share_of E k | _ \<Rightarrow> throwE Bad_cast)"
  | "calc_fee E P d (Fill_order_op x) = (case d of Fee_none \<Rightarrow> Inr 0 | _ \<Rightarrow> throwE Bad_cast)"
  | "calc_fee E P d (Account_create_op x) = (case d of Fee_account_create k _ p \<Rightarrow> account_create_calculate_fee E k p (pack_op P (Account_create_op x)) | _ \<Rightarrow> throwE Bad_cast)"
  | "calc_fee E P d (Account_update_op x) = (case d of Fee_sized k p \<Rightarrow> account_update_calculate_fee E k p (new_options x \<noteq> None) (pack_op P (Account_update_op x)) | _ \<Rightarrow> throwE Bad_cast)"
  | "calc_fee E P d (Account_whitelist_op x) = (case d of Fee_flat k \<Rightarrow> fc_share_of E k | _ \<Rightarrow> throwE Bad_cast)"
  | "calc_fee E P d (Account_upgrade_op x) = (case d of Fee_membership a l \<Rightarrow> account_upgrade_calculate_fee E a l x | _ \<Rightarrow> throwE Bad_cast)"
  | "calc_fee E P d (Account_transfer_op x) = (case d of Fee_flat k \<Rightarrow> fc_share_of E k | _ \<Rightarrow> throwE Bad_cast)"
  | "calc_fee E P d (Asset_create_op x) = (case d of Fee_asset_create a b c p \<Rightarrow> asset_create_calculate_fee E a b c p x (pack_op P (Asset_create_op x)) | _ \<Rightarrow> throwE Bad_cast)"
  | "calc_fee E P d (Asset_update_op x) = (case d of Fee_sized k p \<Rightarrow> asset_update_calculate_fee E k p (pack_op P (Asset_update_op x)) | _ \<Rightarrow> throwE Bad_cast)"
  | "calc_fee E P d (Asset_update_bitasset_op x) = (case d of Fee_flat k \<Rightarrow> fc_share_of E k | _ \<Rightarrow> throwE Bad_cast)"
  | "calc_fee E P d (Asset_update_feed_producers_op x) = (case d of Fee_flat k \<Rightarrow> fc_share_of E k | _ \<Rightarrow> throwE Bad_cast)"
  | "calc_fee E P d (Asset_issue_op x) = (case d of Fee_sized k p \<Rightarrow> asset_issue_calculate_fee E k p (pack_memo P (issue_memo x)) | _ \<Rightarrow> throwE Bad_cast)"
  | "calc_fee E P d (Asset_reserve_op x) = (case d of Fee_flat k \<Rightarrow> fc_share_of E k | _ \<Rightarrow> throwE Bad_cast)"
  | "calc_fee E P d (Asset_fund_fee_pool_op x) = (case d of Fee_flat k \<Rightarrow> fc_share_of E k | _ \<Rightarrow> throwE Bad_cast)"
  | "calc_fee E P d (Asset_settle_op x) = (case d of Fee_flat k \<Rightarrow> fc_share_of E k | _ \<Rightarrow> throwE Bad_cast)"
  | "calc_fee E P d (Asset_global_settle_op x) = (case d of Fee_flat k \<Rightarrow> fc_share_of E k | _ \<Rightarrow> throwE Bad_cast)"
  | "calc_fee E P d (Asset_publish_feed_op x) = (case d of Fee_flat k \<Rightarrow> fc_share_of E k | _ \<Rightarrow> throwE Bad_cast)"
  | "calc_fee E P d (Witness_create_op x) = (case d of Fee_flat k \<Rightarrow> fc_share_of E k | _ \<Rightarrow> throwE Bad_cast)"
  | "calc_fee E P d (Witness_update_op x) = (case d of Fee_flat k \<Rightarrow> fc_share_of E k | _ \<Rightarrow> throwE Bad_cast)"
  | "calc_fee E P d (Proposal_create_op f a ops e r) = (case d of Fee_sized k p \<Rightarrow> proposal_create_calculate_fee E k p (pack_op P (Proposal_create_op f a ops e r)) | _ \<Rightarrow> throwE Bad_cast)"
  | "calc_fee E P d (Proposal_update_op x) = (case d of Fee_sized k p \<Rightarrow> proposal_update_calculate_fee E k p (pack_op P (Proposal_update_op x)) | _ \<Rightarrow> throwE Bad_cast)"
  | "calc_fee E P d (Proposal_delete_op x) = (case d of Fee_flat k \<Rightarrow> fc_share_of E k | _ \<Rightarrow> throwE Bad_cast)"
  | "calc_fee E P d (Withdraw_permission_create_op x) = (case d of Fee_flat k \<Rightarrow> fc_share_of E k | _ \<Rightarrow> throwE Bad_cast)"
  | "calc_fee E P d (Withdraw_permission_update_op x) = (case d of Fee_flat k \<Rightarrow> fc_share_of E k | _ \<Rightarrow> throwE Bad_cast)"
  | "calc_fee E P d (Withdraw_permission_claim_op x) = (case d of Fee_sized k p \<Rightarrow> withdraw_permission_claim_calculate_fee E k p (wcl_memo x) (pack_memo P (wcl_memo x)) | _ \<Rightarrow> throwE Bad_cast)"
  | "calc_fee E P d (Withdraw_permission_delete_op x) = (case d of Fee_flat k \<Rightarrow> fc_share_of E k | _ \<Rightarrow> throwE Bad_cast)"
  | "calc_fee E P d (Committee_member_create_op x) = (case d of Fee_flat k \<Rightarrow> fc_share_of E k | _ \<Rightarrow> throwE Bad_cast)"
  | "calc_fee E P d (Committee_member_update_op x) = (case d of Fee_flat k \<Rightarrow> fc_share_of E k | _ \<Rightarrow> throwE Bad_cast)"
  | "calc_fee E P d (Committee_member_update_global_parameters_op x) = (case d of Fee_flat k \<Rightarrow> fc_share_of E k | _ \<Rightarrow> throwE Bad_cast)"
  | "calc_fee E P d (Vesting_balance_create_op x) = (case d of Fee_flat k \<Rightarrow> fc_share_of E k | _ \<Rightarrow> throwE Bad_cast)"
  | "calc_fee E P d (Vesting_balance_withdraw_op x) = (case d of Fee_flat k \<Rightarrow> fc_share_of E k | _ \<Rightarrow> throwE Bad_cast)"
  | "calc_fee E P d (Worker_create_op x) = (case d of Fee_flat k \<Rightarrow> fc_share_of E k | _ \<Rightarrow> throwE Bad_cast)"
  | "calc_fee E P d (Custom_op x) = (case d of Fee_sized k p \<Rightarrow> custom_calculate_fee E k p (pack_op P (Custom_op x)) | _ \<Rightarrow> throwE Bad_cast)"
  | "calc_fee E P d (Assert_op x) = (case d of Fee_flat k \<Rightarrow> assert_calculate_fee E k x | _ \<Rightarrow> throwE Bad_cast)"
  | "calc_fee E P d (Balance_claim_op x) = (case d of Fee_none \<Rightarrow> Inr 0 | _ \<Rightarrow> throwE Bad_cast)"
  | "calc_fee E P d (Override_transfer_op x) = (case d of Fee_sized k p \<Rightarrow> override_transfer_calculate_fee E k p (ovr_memo x) (pack_memo P (ovr_memo x)) | _ \<Rightarrow> throwE Bad_cast)"
  | "calc_fee E P d (Transfer_to_blind_op x) = (case d of Fee_sized k p \<Rightarrow> transfer_to_blind_calculate_fee E k p x | _ \<Rightarrow> throwE Bad_cast)"
  | "calc_fee E P d (Blind_transfer_op x) = (case d of Fee_sized k p \<Rightarrow> blind_transfer_calculate_fee E k p x | _ \<Rightarrow> throwE Bad_cast)"
  | "calc_fee E P d (Transfer_from_blind_op x) = (case d of Fee_flat k \<Rightarrow> fc_share_of E k | _ \<Rightarrow> throwE Bad_cast)"
  | "calc_fee E P d (Asset_settle_cancel_op x) = (case d of Fee_none \<Rightarrow> Inr 0 | _ \<Rightarrow> throwE Bad_cast)"
  | "calc_fee E P d (Asset_claim_fees_op x) = (case d of Fee_flat k \<Rightarrow> fc_share_of E k | _ \<Rightarrow> throwE Bad_cast)"
  | "calc_fee E P d (Fba_distribute_op x) = (case d of Fee_none \<Rightarrow> Inr 0 | _ \<Rightarrow> throwE Bad_cast)"
  | "calc_fee E P d (Incentive_op x) = (case d of Fee_flat _ \<Rightarrow> Inr 0 | _ \<Rightarrow> throwE Bad_cast)"
  | "calc_fee E P d (Construction_capital_create_op x) = (case d of Fee_flat k \<Rightarrow> fc_share_of E k | _ \<Rightarrow> throwE Bad_cast)"
  | "calc_fee E P d (Construction_capital_vote_op x) = (case d of Fee_flat k \<Rightarrow> fc_share_of E k | _ \<Rightarrow> throwE Bad_cast)"
  | "calc_fee E P d (Committee_member_issue_construction_capital_op x) = (case d of Fee_flat k \<Rightarrow> fc_share_of E k | _ \<Rightarrow> throwE Bad_cast)"
  | "calc_fee E P d (Committee_member_grant_instant_payback_op x) = (case d of Fee_flat k \<Rightarrow> fc_share_of E k | _ \<Rightarrow> throwE Bad_cast)"
  | "calc_fee E P d (Account_create_by_transfer_op x) = (case d of Fee_sized k p \<Rightarrow> account_create_by_transfer_calculate_fee E k p (cbt_memo x) (pack_memo P (cbt_memo x)) | _ \<Rightarrow> throwE Bad_cast)"
  | "calc_fee E P d (Limit_order_fee_config_op x) = (case d of Fee_flat k \<Rightarrow> fc_share_of E k | _ \<Rightarrow> throwE Bad_cast)"
  | "calc_fee E P d (Construction_capital_rate_vote_op x) = (case d of Fee_flat k \<Rightarrow> fc_share_of E k | _ \<Rightarrow> throwE Bad_cast)"
  | "calc_fee E P d (Deflation_op x) = (case d of Fee_flat _ \<Rightarrow> Inr 0 | _ \<Rightarrow> throwE Bad_cast)"
  | "calc_fee E P d (Account_deflation_op x) = (case d of Fee_flat _ \<Rightarrow> Inr 0 | _ \<Rightarrow> throwE Bad_cast)"
  | "calc_fee E P d (Order_deflation_op x) = (case d of Fee_flat _ \<Rightarrow> Inr 0 | _ \<Rightarrow> throwE Bad_cast)"

primrec operation_fee :: "operation \<Rightarrow> asset" where
    "operation_fee (Transfer_op x) = fee x"
  | "operation_fee (Limit_order_create_op x) = fee x"
  | "operation_fee (Limit_order_cancel_op x) = fee x"
  | "operation_fee (Call_order_update_op x) = fee x"
  | "operation_fee (Fill_order_op x) = fee x"
  | "operation_fee (Account_create_op x) = fee x"
  | "operation_fee (Account_update_op x) = fee x"
  | "operation_fee (Account_whitelist_op x) = fee x"
  | "operation_fee (Account_upgrade_op x) = fee x"
  | "operation_fee (Account_transfer_op x) = fee x"
  | "operation_fee (Asset_create_op x) = fee x"
  | "operation_fee (Asset_update_op x) = fee x"
  | "operation_fee (Asset_update_bitasset_op x) = fee x"
  | "operation_fee (Asset_update_feed_producers_op x) = fee x"
  | "operation_fee (Asset_issue_op x) = fee x"
  | "operation_fee (Asset_reserve_op x) = fee x"
  | "operation_fee (Asset_fund_fee_pool_op x) = fee x"
  | "operation_fee (Asset_settle_op x) = fee x"
  | "operation_fee (Asset_global_settle_op x) = fee x"
  | "operation_fee (Asset_publish_feed_op x) = fee x"
  | "operation_fee (Witness_create_op x) = fee x"
  | "operation_fee (Witness_update_op x) = fee x"
  | "operation_fee (Proposal_create_op f a ops e r) = f"
  | "operation_fee (Proposal_update_op x) = fee x"
  | "operation_fee (Proposal_delete_op x) = fee x"
  | "operation_fee (Withdraw_permission_create_op x) = fee x"
  | "operation_fee (Withdraw_permission_update_op x) = fee x"
  | "operation_fee (Withdraw_permission_claim_op x) = fee x"
  | "operation_fee (Withdraw_permission_delete_op x) = fee x"
  | "operation_fee (Committee_member_create_op x) = fee x"
  | "operation_fee (Committee_member_update_op x) = fee x"
  | "operation_fee (Committee_member_update_global_parameters_op x) = fee x"
  | "operation_fee (Vesting_balance_create_op x) = fee x"
  | "operation_fee (Vesting_balance_withdraw_op x) = fee x"
  | "operation_fee (Worker_create_op x) = fee x"
  | "operation_fee (Custom_op x) = fee x"
  | "operation_fee (Assert_op x) = fee x"
  | "operation_fee (Balance_claim_op x) = fee x"
  | "operation_fee (Override_transfer_op x) = fee x"
  | "operation_fee (Transfer_to_blind_op x) = fee x"
  | "operation_fee (Blind_transfer_op x) = fee x"
  | "operation_fee (Transfer_from_blind_op x) = fee x"
  | "operation_fee (Asset_settle_cancel_op x) = fee x"
  | "operation_fee (Asset_claim_fees_op x) = fee x"
  | "operation_fee (Fba_distribute_op x) = fee x"
  | "operation_fee (Incentive_op x) = fee x"
  | "operation_fee (Construction_capital_create_op x) = fee x"
  | "operation_fee (Construction_capital_vote_op x) = fee x"
  | "operation_fee (Committee_member_issue_construction_capital_op x) = fee x"
  | "operation_fee (Committee_member_grant_instant_payback_op x) = fee x"
  | "operation_fee (Account_create_by_transfer_op x) = fee x"
  | "operation_fee (Limit_order_fee_config_op x) = fee x"
  | "operation_fee (Construction_capital_rate_vote_op x) = fee x"
  | "operation_fee (Deflation_op x) = fee x"
  | "operation_fee (Account_deflation_op x) = fee x"
  | "operation_fee (Order_deflation_op x) = fee x"

primrec set_operation_fee :: "asset \<Rightarrow> operation \<Rightarrow> operation" where
    "set_operation_fee g (Transfer_op x) = Transfer_op (x\<lparr>fee := g\<rparr>)"
  | "set_operation_fee g (Limit_order_create_op x) = Limit_order_create_op (x\<lparr>fee := g\<rparr>)"
  | "set_operation_fee g (Limit_order_cancel_op x) = Limit_order_cancel_op (x\<lparr>fee := g\<rparr>)"
  | "set_operation_fee g (Call_order_update_op x) = Call_order_update_op (x\<lparr>fee := g\<rparr>)"
  | "set_operation_fee g (Fill_order_op x) = Fill_order_op (x\<lparr>fee := g\<rparr>)"
  | "set_operation_fee g (Account_create_op x) = Account_create_op (x\<lparr>fee := g\<rparr>)"
  | "set_operation_fee g (Account_update_op x) = Account_update_op (x\<lparr>fee := g\<rparr>)"
  | "set_operation_fee g (Account_whitelist_op x) = Account_whitelist_op (x\<lparr>fee := g\<rparr>)"
  | "set_operation_fee g (Account_upgrade_op x) = Account_upgrade_op (x\<lparr>fee := g\<rparr>)"
  | "set_operation_fee g (Account_transfer_op x) = Account_transfer_op (x\<lparr>fee := g\<rparr>)"
  | "set_operation_fee g (Asset_create_op x) = Asset_create_op (x\<lparr>fee := g\<rparr>)"
  | "set_operation_fee g (Asset_update_op x) = Asset_update_op (x\<lparr>fee := g\<rparr>)"
  | "set_operation_fee g (Asset_update_bitasset_op x) = Asset_update_bitasset_op (x\<lparr>fee := g\<rparr>)"
  | "set_operation_fee g (Asset_update_feed_producers_op x) = Asset_update_feed_producers_op (x\<lparr>fee := g\<rparr>)"
  | "set_operation_fee g (Asset_issue_op x) = Asset_issue_op (x\<lparr>fee := g\<rparr>)"
  | "set_operation_fee g (Asset_reserve_op x) = Asset_reserve_op (x\<lparr>fee := g\<rparr>)"
  | "set_operation_fee g (Asset_fund_fee_pool_op x) = Asset_fund_fee_pool_op (x\<lparr>fee := g\<rparr>)"
  | "set_operation_fee g (Asset_settle_op x) = Asset_settle_op (x\<lparr>fee := g\<rparr>)"
  | "set_operation_fee g (Asset_global_settle_op x) = Asset_global_settle_op (x\<lparr>fee := g\<rparr>)"
  | "set_operation_fee g (Asset_publish_feed_op x) = Asset_publish_feed_op (x\<lparr>fee := g\<rparr>)"
  | "set_operation_fee g (Witness_create_op x) = Witness_create_op (x\<lparr>fee := g\<rparr>)"
  | "set_operation_fee g (Witness_update_op x) = Witness_update_op (x\<lparr>fee := g\<rparr>)"
  | "set_operation_fee g (Proposal_create_op f a ops e r) = Proposal_create_op g a ops e r"
  | "set_operation_fee g (Proposal_update_op x) = Proposal_update_op (x\<lparr>fee := g\<rparr>)"
  | "set_operation_fee g (Proposal_delete_op x) = Proposal_delete_op (x\<lparr>fee := g\<rparr>)"
  | "set_operation_fee g (Withdraw_permission_create_op x) = Withdraw_permission_create_op (x\<lparr>fee := g\<rparr>)"
  | "set_operation_fee g (Withdraw_permission_update_op x) = Withdraw_permission_update_op (x\<lparr>fee := g\<rparr>)"
  | "set_operation_fee g (Withdraw_permission_claim_op x) = Withdraw_permission_claim_op (x\<lparr>fee := g\<rparr>)"
  | "set_operation_fee g (Withdraw_permission_delete_op x) = Withdraw_permission_delete_op (x\<lparr>fee := g\<rparr>)"
  | "set_operation_fee g (Committee_member_create_op x) = Committee_member_create_op (x\<lparr>fee := g\<rparr>)"
  | "set_operation_fee g (Committee_member_update_op x) = Committee_member_update_op (x\<lparr>fee := g\<rparr>)"
  | "set_operation_fee g (Committee_member_update_global_parameters_op x) = Committee_member_update_global_parameters_op (x\<lparr>fee := g\<rparr>)"
  | "set_operation_fee g (Vesting_balance_create_op x) = Vesting_balance_create_op (x\<lparr>fee := g\<rparr>)"
  | "set_operation_fee g (Vesting_balance_withdraw_op x) = Vesting_balance_withdraw_op (x\<lparr>fee := g\<rparr>)"
  | "set_operation_fee g (Worker_create_op x) = Worker_create_op (x\<lparr>fee := g\<rparr>)"
  | "set_operation_fee g (Custom_op x) = Custom_op (x\<lparr>fee := g\<rparr>)"
  | "set_operation_fee g (Assert_op x) = Assert_op (x\<lparr>fee := g\<rparr>)"
  | "set_operation_fee g (Balance_claim_op x) = Balance_claim_op (x\<lparr>fee := g\<rparr>)"
  | "set_operation_fee g (Override_transfer_op x) = Override_transfer_op (x\<lparr>fee := g\<rparr>)"
  | "set_operation_fee g (Transfer_to_blind_op x) = Transfer_to_blind_op (x\<lparr>fee := g\<rparr>)"
  | "set_operation_fee g (Blind_transfer_op x) = Blind_transfer_op (x\<lparr>fee := g\<rparr>)"
  | "set_operation_fee g (Transfer_from_blind_op x) = Transfer_from_blind_op (x\<lparr>fee := g\<rparr>)"
  | "set_operation_fee g (Asset_settle_cancel_op x) = Asset_settle_cancel_op (x\<lparr>fee := g\<rparr>)"
  | "set_operation_fee g (Asset_claim_fees_op x) = Asset_claim_fees_op (x\<lparr>fee := g\<rparr>)"
  | "set_operation_fee g (Fba_distribute_op x) = Fba_distribute_op (x\<lparr>fee := g\<rparr>)"
  | "set_operation_fee g (Incentive_op x) = Incentive_op (x\<lparr>fee := g\<rparr>)"
  | "set_operation_fee g (Construction_capital_create_op x) = Construction_capital_create_op (x\<lparr>fee := g\<rparr>)"
  | "set_operation_fee g (Construction_capital_vote_op x) = Construction_capital_vote_op (x\<lparr>fee := g\<rparr>)"
  | "set_operation_fee g (Committee_member_issue_construction_capital_op x) = Committee_member_issue_construction_capital_op (x\<lparr>fee := g\<rparr>)"
  | "set_operation_fee g (Committee_member_grant_instant_payback_op x) = Committee_member_grant_instant_payback_op (x\<lparr>fee := g\<rparr>)"
  | "set_operation_fee g (Account_create_by_transfer_op x) = Account_create_by_transfer_op (x\<lparr>fee := g\<rparr>)"
  | "set_operation_fee g (Limit_order_fee_config_op x) = Limit_order_fee_config_op (x\<lparr>fee := g\<rparr>)"
  | "set_operation_fee g (Construction_capital_rate_vote_op x) = Construction_capital_rate_vote_op (x\<lparr>fee := g\<rparr>)"
  | "set_operation_fee g (Deflation_op x) = Deflation_op (x\<lparr>fee := g\<rparr>)"
  | "set_operation_fee g (Account_deflation_op x) = Account_deflation_op (x\<lparr>fee := g\<rparr>)"
  | "set_operation_fee g (Order_deflation_op x) = Order_deflation_op (x\<lparr>fee := g\<rparr>)"

subsection \<open>The fee of an operation\<close>

definition fee_parameters_for :: "fee_schedule \<Rightarrow> operation \<Rightarrow> fee_data" where
  "fee_parameters_for s x =
     (case map_of (parameters s) (which x) of
        None \<Rightarrow> default_fee_parameters ! which x
      | Some d \<Rightarrow> d)"

text \<open>The fee in core, scaled; the share is read back as an unsigned 64-bit number.\<close>

definition scaled_fee :: "nat \<Rightarrow> int \<Rightarrow> u128" where
  "scaled_fee sc base_value = ((word_of_int (base_value mod 2 ^ 64) :: u128) * of_nat sc) div of_nat GRAPHENE_100_PERCENT"

partial_function (option) fee_loop :: "'z fee_env_scheme \<Rightarrow> price \<Rightarrow> int \<Rightarrow> asset \<Rightarrow> asset res option" where
  "fee_loop E cer scaled result =
     (case bindE (asset_mult result cer) (\<lambda>b. asset_less b (mk_asset scaled 0)) of
        Inl e \<Rightarrow> Some (Inl e)
      | Inr is_less \<Rightarrow>
          if is_less then
            (case safe_add E (amount result) 1 of
               Inl e \<Rightarrow> Some (Inl e)
             | Inr a \<Rightarrow> fee_loop E cer scaled (mk_asset a (asset_id result)))
          else Some (Inr result))"

definition convert_fee :: "'z fee_env_scheme \<Rightarrow> price \<Rightarrow> int \<Rightarrow> asset res option" where
  "convert_fee E cer scaled =
     bindO (Some (asset_mult (mk_asset scaled 0) cer)) (\<lambda>result.
     bindO (fee_loop E cer scaled result) (\<lambda>result.
     Some (bindE (assertE (amount result \<le> GRAPHENE_MAX_SHARE_SUPPLY) ''result.amount <= GRAPHENE_MAX_SHARE_SUPPLY'') (\<lambda>_.
       Inr result))))"

definition calculate_fee :: "'z fee_env_scheme \<Rightarrow> pack_env \<Rightarrow> fee_schedule \<Rightarrow> operation \<Rightarrow> price \<Rightarrow> asset res option" where
  "calculate_fee E P s x cer =
     bindO (Some (calc_fee E P (fee_parameters_for s x) x)) (\<lambda>base_value.
     let scaled = scaled_fee (scale s) base_value in
     bindO (Some (assertE (uint scaled \<le> GRAPHENE_MAX_SHARE_SUPPLY) ''scaled <= GRAPHENE_MAX_SHARE_SUPPLY'')) (\<lambda>_.
     bindO (Some (to_share E scaled)) (convert_fee E cer)))"

text \<open>
  The stabilisation loop: \<open>n\<close> iterations are left; it returns the operation with the last fee
  that was set and the largest fee seen. \<open>std::max\<close> compares with the operator on assets.
\<close>

definition asset_max :: "asset \<Rightarrow> asset \<Rightarrow> asset res" where
  "asset_max a b = bindE (asset_less a b) (\<lambda>l. Inr (if l then b else a))"

fun stabilize :: "'z fee_env_scheme \<Rightarrow> pack_env \<Rightarrow> fee_schedule \<Rightarrow> price \<Rightarrow> nat \<Rightarrow> operation \<Rightarrow> asset \<Rightarrow> asset \<Rightarrow>
    (operation \<times> asset) res option" where
  "stabilize E P s cer 0 x f f_max = Some (Inr (x, f_max))"
| "stabilize E P s cer (Suc n) x f f_max =
     (let x' = set_operation_fee f_max x in
      bindO (calculate_fee E P s x' cer) (\<lambda>f2.
      if f = f2 then Some (Inr (x', f_max))
      else bindO (Some (asset_max f_max f2)) (\<lambda>m. stabilize E P s cer n x' f2 m)))"

definition set_fee :: "'z fee_env_scheme \<Rightarrow> pack_env \<Rightarrow> fee_schedule \<Rightarrow> operation \<Rightarrow> price \<Rightarrow> (operation \<times> asset) res option" where
  "set_fee E P s x cer =
     bindO (calculate_fee E P s x cer) (\<lambda>f. stabilize E P s cer MAX_FEE_STABILIZATION_ITERATION x f f)"

subsection \<open>The conversion to the fee asset\<close>

lemma ceiling_by_floor:
  fixes x n d :: int
  assumes "0 < n" "0 < d"
  shows "x \<le> (x * n div d + 1) * d div n"
proof -
  have "x * n < (x * n div d + 1) * d"
    using assms(2) by (simp add: int_distrib) (metis add.commute add_less_cancel_right mult_div_mod_eq mult.commute pos_mod_bound)
  then have "x * n div n \<le> (x * n div d + 1) * d div n" using assms(1) by (intro zdiv_mono1) simp_all
  then show ?thesis using assms(1) by simp
qed

text \<open>
  The two directions of a price between core and the fee asset: core amounts are multiplied by
  \<open>n\<close> and divided by \<open>d\<close>, and amounts of the fee asset the other way round. The fee asset may
  be core itself, at the rate one to one: that is \<open>price::unit_price()\<close>, the default argument
  with which the evaluators compute a fee.
\<close>

definition core_price :: "price \<Rightarrow> asset_id_type \<Rightarrow> int \<Rightarrow> int \<Rightarrow> bool" where
  "core_price p a n d \<longleftrightarrow> price_pos p \<and>
     (a \<noteq> 0 \<and> asset_id (base p) = 0 \<and> asset_id (quote p) = a \<and> n = amount (quote p) \<and> d = amount (base p) \<or>
      a \<noteq> 0 \<and> asset_id (quote p) = 0 \<and> asset_id (base p) = a \<and> n = amount (base p) \<and> d = amount (quote p) \<or>
      a = 0 \<and> asset_id (base p) = 0 \<and> asset_id (quote p) = 0 \<and> amount (base p) = amount (quote p) \<and>
        n = amount (quote p) \<and> d = amount (base p))"

lemma core_price_unit: "core_price (unit_price 0) 0 1 1"
  by (simp add: core_price_def unit_price_def price_pos_def mk_price_def mk_asset_def)

abbreviation exchanged :: "int \<Rightarrow> asset_id_type \<Rightarrow> asset res" where
  "exchanged x a \<equiv> (if x \<le> GRAPHENE_MAX_SHARE_SUPPLY then Inr (mk_asset x a)
     else throwE (Assert_exception ''result <= GRAPHENE_MAX_SHARE_SUPPLY''))"

lemma core_price_mult:
  assumes "core_price p a n d" and "share_ok x"
  shows "asset_mult (mk_asset x 0) p = exchanged (x * n div d) a"
    and "asset_mult (mk_asset x a) p = exchanged (x * d div n) 0"
    and "0 < n" and "0 < d"
proof -
  have p: "price_pos p" using assms(1) by (simp add: core_price_def)
  note pos = price_posD(3,4) [OF p]
  have "asset_mult (mk_asset x 0) p = exchanged (x * n div d) a \<and>
    asset_mult (mk_asset x a) p = exchanged (x * d div n) 0 \<and> 0 < n \<and> 0 < d"
    using conjunct2 [OF assms(1) [unfolded core_price_def]]
  proof (elim disjE)
    assume "a \<noteq> 0 \<and> asset_id (base p) = 0 \<and> asset_id (quote p) = a \<and> n = amount (quote p) \<and> d = amount (base p)"
    then show ?thesis
      using p assms(2) asset_mult_base_eq [of "mk_asset x 0" p] asset_mult_quote_eq [of "mk_asset x a" p] pos
      by (simp add: mk_asset_def Let_def)
  next
    assume "a \<noteq> 0 \<and> asset_id (quote p) = 0 \<and> asset_id (base p) = a \<and> n = amount (base p) \<and> d = amount (quote p)"
    then show ?thesis
      using p assms(2) asset_mult_base_eq [of "mk_asset x a" p] asset_mult_quote_eq [of "mk_asset x 0" p] pos
      by (simp add: mk_asset_def Let_def)
  next
    assume "a = 0 \<and> asset_id (base p) = 0 \<and> asset_id (quote p) = 0 \<and> amount (base p) = amount (quote p) \<and>
      n = amount (quote p) \<and> d = amount (base p)"
    then show ?thesis
      using p assms(2) asset_mult_base_eq [of "mk_asset x 0" p] pos by (simp add: mk_asset_def Let_def)
  qed
  then show "asset_mult (mk_asset x 0) p = exchanged (x * n div d) a"
    and "asset_mult (mk_asset x a) p = exchanged (x * d div n) 0" and "0 < n" and "0 < d" by simp_all
qed

text \<open>One pass of the loop, on the result of the conversion or on its successor.\<close>

lemma fee_loop_step:
  assumes "core_price p a n d" and "share_ok r" and "fc_contract E"
  shows "fee_loop E p x (mk_asset r a) =
    (if GRAPHENE_MAX_SHARE_SUPPLY < r * d div n then Some (throwE (Assert_exception ''result <= GRAPHENE_MAX_SHARE_SUPPLY''))
     else if r * d div n < x then
       (if fc_int64 (r + 1) then fee_loop E p x (mk_asset (r + 1) a) else Some (Inl Overflow_exception))
     else Some (Inr (mk_asset r a)))"
  using core_price_mult(2) [OF assms(1,2)] assms(3)
  by (subst fee_loop.simps)
     (simp add: asset_less_def assertE_def safe_add_def throwE_def fc_contract_safe mk_asset_def)

text \<open>The least amount that is exchanged to \<open>x\<close> or more: the first try of the loop or the next number.\<close>

definition least_cover :: "int \<Rightarrow> int \<Rightarrow> int \<Rightarrow> int" where
  "least_cover n d x = (if x * n div d * d div n < x then x * n div d + 1 else x * n div d)"

lemma least_cover_least:
  assumes nd: "0 < n" "0 < d" and y: "y < least_cover n d x"
  shows "y * d div n < x"
proof (cases "y < x * n div d")
  case True
  then have "y * d < x * n"
    using nd by (metis less_le_trans mult.commute mult_strict_right_mono not_less div_mult_mod_eq le_add_same_cancel1 pos_mod_sign)
  moreover have "y * d div n * n \<le> y * d"
    using nd(1) by (simp add: minus_mod_eq_div_mult [symmetric])
  ultimately have "y * d div n * n < x * n" by linarith
  then show ?thesis using nd(1) by (simp add: mult_less_cancel_right)
next
  case False
  then have "y = x * n div d" "x * n div d * d div n < x" using y by (auto simp: least_cover_def split: if_splits)
  then show ?thesis by simp
qed

lemma convert_fee_cases:
  assumes p: "core_price p a n d" and x: "0 \<le> x" "x \<le> GRAPHENE_MAX_SHARE_SUPPLY" and E: "fc_contract E"
  shows "\<exists>r. convert_fee E p x = Some r \<and>
    (\<forall>f. r = Inr f \<longrightarrow> asset_id f = a \<and> 0 \<le> amount f \<and> amount f \<le> GRAPHENE_MAX_SHARE_SUPPLY \<and>
       x \<le> amount f * d div n \<and> amount f * d div n \<le> GRAPHENE_MAX_SHARE_SUPPLY \<and>
       amount f = least_cover n d x) \<and>
    (least_cover n d x \<le> GRAPHENE_MAX_SHARE_SUPPLY \<and> least_cover n d x * d div n \<le> GRAPHENE_MAX_SHARE_SUPPLY \<longrightarrow> (\<exists>f. r = Inr f))"
proof -
  define r0 where "r0 = x * n div d"
  note m = core_price_mult [OF p max_share_ok [OF x]]
  show ?thesis
  proof (cases "r0 \<le> GRAPHENE_MAX_SHARE_SUPPLY")
    case False
    then show ?thesis using m(1) by (auto simp: convert_fee_def throwE_def r0_def least_cover_def)
  next
    case True
    have r0: "0 \<le> r0" using x m(3,4) by (simp add: r0_def pos_imp_zdiv_nonneg_iff)
    have ok: "share_ok r0" "share_ok (r0 + 1)" "fc_int64 (r0 + 1)"
      using r0 True by (simp_all add: share_ok_def GRAPHENE_MAX_SHARE_SUPPLY_def fc_int64_def)
    have up: "x \<le> (r0 + 1) * d div n" unfolding r0_def by (rule ceiling_by_floor [OF m(3,4)])
    have fwd: "asset_mult (mk_asset x 0) p = Inr (mk_asset r0 a)" using m(1) True by (simp add: r0_def)
    note l0 = fee_loop_step [OF p ok(1) E] and l1 = fee_loop_step [OF p ok(2) E]
    have "fee_loop E p x (mk_asset r0 a) =
      (if GRAPHENE_MAX_SHARE_SUPPLY < r0 * d div n then Some (throwE (Assert_exception ''result <= GRAPHENE_MAX_SHARE_SUPPLY''))
       else if r0 * d div n < x then
         (if GRAPHENE_MAX_SHARE_SUPPLY < (r0 + 1) * d div n then Some (throwE (Assert_exception ''result <= GRAPHENE_MAX_SHARE_SUPPLY''))
          else Some (Inr (mk_asset (r0 + 1) a)))
       else Some (Inr (mk_asset r0 a)))"
      unfolding l0 l1 using ok(3) up by (simp add: not_less)
    then show ?thesis
      unfolding convert_fee_def fwd using r0 up
      by (auto simp: bindO_def throwE_def assertE_def mk_asset_def least_cover_def r0_def [symmetric] bindE_def)
  qed
qed

lemma scaled_fee_nonneg: "0 \<le> uint (scaled_fee sc v)"
  by simp

text \<open>
  C22: the fee of an operation, paid in core or in an asset that has an exchange rate to core. The
  loop that raises it always ends. A fee is returned exactly when the fee in core is computed,
  it is in range after scaling, and some amount of the fee asset up to the maximal supply is
  worth it; otherwise an exception is thrown. The fee is the least such amount: exchanged to core
  it covers the scaled fee, and no smaller amount does.
\<close>

theorem calculate_fee_least_cover:
  assumes E: "fee_contract E" and p: "core_price p a n d"
  defines "worth \<equiv> \<lambda>y x. \<exists>core. asset_mult (mk_asset y a) p = Inr core \<and> asset_id core = 0 \<and> x \<le> amount core"
  shows "\<exists>r. calculate_fee E P s x p = Some r \<and>
    ((\<exists>f. r = Inr f) \<longleftrightarrow> (\<exists>v y. calc_fee E P (fee_parameters_for s x) x = Inr v \<and>
       uint (scaled_fee (scale s) v) \<le> GRAPHENE_MAX_SHARE_SUPPLY \<and>
       0 \<le> y \<and> y \<le> GRAPHENE_MAX_SHARE_SUPPLY \<and> worth y (uint (scaled_fee (scale s) v)))) \<and>
    (\<forall>f. r = Inr f \<longrightarrow> (\<exists>v. calc_fee E P (fee_parameters_for s x) x = Inr v \<and>
       asset_id f = a \<and> 0 \<le> amount f \<and> amount f \<le> GRAPHENE_MAX_SHARE_SUPPLY \<and>
       worth (amount f) (uint (scaled_fee (scale s) v)) \<and>
       (\<forall>y. 0 \<le> y \<and> y < amount f \<longrightarrow> \<not> worth y (uint (scaled_fee (scale s) v)))))"
proof (cases "calc_fee E P (fee_parameters_for s x) x")
  case (Inl e)
  then show ?thesis by (simp add: calculate_fee_def)
next
  case (Inr v)
  define w where "w = scaled_fee (scale s) v"
  have E': "fc_contract E" using E by (simp add: fee_contract_def)
  have nd: "0 < n" "0 < d" using core_price_mult(3,4) [OF p, of 0] by (simp_all add: share_ok_def)
  have worth: "worth y z \<longleftrightarrow> y * d div n \<le> GRAPHENE_MAX_SHARE_SUPPLY \<and> z \<le> y * d div n"
    if "0 \<le> y" "y \<le> GRAPHENE_MAX_SHARE_SUPPLY" for y z
    unfolding worth_def using core_price_mult(2) [OF p max_share_ok [OF that]] by (auto simp: mk_asset_def throwE_def)
  show ?thesis
  proof (cases "uint w \<le> GRAPHENE_MAX_SHARE_SUPPLY")
    case False
    then show ?thesis using Inr by (simp add: calculate_fee_def w_def [symmetric] assertE_def)
  next
    case True
    then have "uint w < 2 ^ 63" unfolding GRAPHENE_MAX_SHARE_SUPPLY_def by simp
    from to_share_small [OF E' this]
    have c: "calculate_fee E P s x p = convert_fee E p (uint w)"
      using Inr True by (simp add: calculate_fee_def w_def [symmetric])
    let ?m = "least_cover n d (uint w)"
    obtain r where r: "convert_fee E p (uint w) = Some r"
      and rf: "\<And>f. r = Inr f \<Longrightarrow> asset_id f = a \<and> 0 \<le> amount f \<and> amount f \<le> GRAPHENE_MAX_SHARE_SUPPLY \<and>
       uint w \<le> amount f * d div n \<and> amount f * d div n \<le> GRAPHENE_MAX_SHARE_SUPPLY \<and> amount f = ?m"
      and ok: "?m \<le> GRAPHENE_MAX_SHARE_SUPPLY \<Longrightarrow> ?m * d div n \<le> GRAPHENE_MAX_SHARE_SUPPLY \<Longrightarrow> \<exists>f. r = Inr f"
      using convert_fee_cases [OF p _ True E'] by auto
    have "\<exists>f. r = Inr f" if y: "0 \<le> y" "y \<le> GRAPHENE_MAX_SHARE_SUPPLY" "worth y (uint w)" for y
    proof -
      have "?m \<le> y" using y worth least_cover_least [OF nd, of y "uint w"] by (meson leD le_less_linear)
      moreover have "?m * d div n \<le> y * d div n" using \<open>?m \<le> y\<close> nd by (intro zdiv_mono1 mult_right_mono) simp_all
      ultimately show ?thesis using y worth by (intro ok) auto
    qed
    moreover have "worth (amount f) (uint w)" "\<not> worth y (uint w)" if "r = Inr f" "0 \<le> y" "y < amount f" for f y
      using rf [OF that(1)] that(2,3) worth least_cover_least [OF nd, of y "uint w"] by auto
    moreover have "worth (amount f) (uint w)" if "r = Inr f" for f using rf [OF that] worth by auto
    ultimately show ?thesis
      using c r rf Inr True unfolding w_def [symmetric] by (intro exI [of _ r]) (auto simp: w_def [symmetric])
  qed
qed

definition example_fee_op :: operation where
  "example_fee_op = Transfer_op \<lparr>fee = mk_asset 0 0, transfer_from = 7, transfer_to = 8, transfer_amount = mk_asset 5 0, transfer_memo = None\<rparr>"

definition example_fees :: fee_schedule where
  "example_fees = \<lparr>parameters = [(0, Fee_sized 2000 100)], scale = 5000\<rparr>"

lemma example_fee:
  "calc_fee fee_std P (fee_parameters_for example_fees example_fee_op) example_fee_op = Inr 2000"
  "uint (scaled_fee (scale example_fees) 2000) = 1000"
proof -
  show "calc_fee fee_std P (fee_parameters_for example_fees example_fee_op) example_fee_op = Inr 2000"
    by (simp add: example_fee_op_def example_fees_def fee_parameters_for_def transfer_calculate_fee_def fee_std_def fc_std_def fc_env.extend_def)
  show "uint (scaled_fee (scale example_fees) 2000) = 1000" by code_simp
qed

text \<open>The fee in core at the unit price, and in an asset of which seven shares are worth three of core.\<close>

lemma fee_result:
  assumes "\<exists>r. c = Some r \<and> ((\<exists>f. r = Inr f) \<longleftrightarrow> (\<exists>v y. k = Inr v \<and> S v \<and> 0 \<le> y \<and> y \<le> GRAPHENE_MAX_SHARE_SUPPLY \<and> W y v)) \<and>
      (\<forall>f. r = Inr f \<longrightarrow> (\<exists>v. k = Inr v \<and> asset_id f = a \<and> Q f v))"
    and "k = Inr v" "S v" "0 \<le> y" "y \<le> GRAPHENE_MAX_SHARE_SUPPLY" "W y v"
  shows "\<exists>f. c = Some (Inr f) \<and> asset_id f = a"
  using assms by blast

theorem calculate_fee_least_cover_witness:
  "\<exists>f g. calculate_fee fee_std \<lparr>pack_op = (\<lambda>_. 100), pack_memo = (\<lambda>_. 10)\<rparr> example_fees example_fee_op (unit_price 0) = Some (Inr f) \<and>
     asset_id f = 0 \<and>
     calculate_fee fee_std \<lparr>pack_op = (\<lambda>_. 100), pack_memo = (\<lambda>_. 10)\<rparr> example_fees example_fee_op
       (mk_price (mk_asset 3 0) (mk_asset 7 1)) = Some (Inr g) \<and> asset_id g = 1"
proof -
  let ?p = "mk_price (mk_asset 3 0) (mk_asset 7 1)"
  let ?P = "\<lparr>pack_op = (\<lambda>_. 100), pack_memo = (\<lambda>_. 10)\<rparr> :: pack_env"
  have p: "core_price ?p 1 7 3"
    by (simp add: core_price_def price_pos_def mk_price_def mk_asset_def)
  have small: "uint (scaled_fee (scale example_fees) 2000) \<le> GRAPHENE_MAX_SHARE_SUPPLY" "(1000 :: int) \<le> GRAPHENE_MAX_SHARE_SUPPLY"
      "(2334 :: int) \<le> GRAPHENE_MAX_SHARE_SUPPLY"
    by (simp_all add: example_fee GRAPHENE_MAX_SHARE_SUPPLY_def)
  have core: "asset_mult (mk_asset 1000 0) (unit_price 0) = Inr (mk_asset 1000 0)" "asset_mult (mk_asset 2334 1) ?p = Inr (mk_asset 1000 0)"
    by code_simp+
  have "\<exists>f. calculate_fee fee_std ?P example_fees example_fee_op (unit_price 0) = Some (Inr f) \<and> asset_id f = 0"
    by (rule fee_result [OF calculate_fee_least_cover [OF fee_std_contract core_price_unit] example_fee(1) small(1) _ small(2)])
       (simp_all add: core example_fee del: One_nat_def, simp_all add: mk_asset_def)
  moreover have "\<exists>g. calculate_fee fee_std ?P example_fees example_fee_op ?p = Some (Inr g) \<and> asset_id g = 1"
    by (rule fee_result [OF calculate_fee_least_cover [OF fee_std_contract p] example_fee(1) small(1) _ small(3)])
       (simp_all add: core example_fee del: One_nat_def, simp_all add: mk_asset_def)
  ultimately show ?thesis by blast
qed

end
