(* ===== verification/Witness_Schedule.thy ===== *)
theory Witness_Schedule
  imports Op_Types Fork_Database "HOL-Library.Multiset"
begin

text \<open>
  Slots, the witness schedule and the per-block properties of the chain
  (\<open>libraries/chain/db_witness_schedule.cpp\<close>, the first part of \<open>libraries/chain/db_update.cpp\<close>,
  \<open>global_property_object.hpp\<close>, \<open>witness_object.hpp\<close>).

  The record \<open>chain_state\<close> holds the objects these functions read and change; all other
  objects are its field \<open>objects\<close>. Times are 32-bit seconds and wrap. Division by an empty
  schedule or a zero block interval, and a failed \<open>assert\<close>, are the exception
  \<open>Undefined_behaviour\<close>. The left shift and the bit count of 128-bit numbers belong to the
  \<open>fc\<close> library and are fields of \<open>slot_env\<close>.
\<close>

type_synonym witness_id_type = nat
type_synonym time_point_sec = nat

record slot_env =
  fc_shl :: "128 word \<Rightarrow> nat \<Rightarrow> 128 word"
  fc_popcount :: "128 word \<Rightarrow> nat"

definition GRAPHENE_RECENTLY_MISSED_COUNT_INCREMENT :: nat where "GRAPHENE_RECENTLY_MISSED_COUNT_INCREMENT = 4"
definition GRAPHENE_RECENTLY_MISSED_COUNT_DECREMENT :: nat where "GRAPHENE_RECENTLY_MISSED_COUNT_DECREMENT = 3"
definition GRAPHENE_MAX_UNDO_HISTORY :: nat where "GRAPHENE_MAX_UNDO_HISTORY = 10000"
definition GRAPHENE_IRREVERSIBLE_THRESHOLD :: nat where "GRAPHENE_IRREVERSIBLE_THRESHOLD = 7000"

subsection \<open>Objects\<close>

record global_property_object =
  gpo_parameters :: chain_parameters
  pending_parameters :: "chain_parameters option"
  next_available_vote_id :: "32 word"
  active_committee_members :: "nat list"
  active_witnesses :: "witness_id_type list"
  next_construction_capital_rate_vote_time :: "nat option"

record dynamic_global_property_object =
  head_block_number :: nat
  dgp_head_block_id :: block_id_type
  dgp_time :: time_point_sec
  current_witness :: witness_id_type
  next_maintenance_time :: time_point_sec
  last_budget_time :: time_point_sec
  witness_budget :: int
  accounts_registered_this_interval :: nat
  recently_missed_count :: nat
  current_aslot :: nat
  recent_slots_filled :: "128 word"
  dynamic_flags :: "32 word"
  last_irreversible_block_num :: nat

record witness_object =
  witness_account :: account_id_type
  last_aslot :: nat
  signing_key :: public_key_type
  pay_vb :: "nat option"
  witness_vote_id :: vote_id_type
  total_votes :: nat
  witness_obj_url :: string
  total_missed :: int
  last_confirmed_block_num :: nat

record 'o chain_state =
  gpo :: global_property_object
  dgpo :: dynamic_global_property_object
  current_shuffled_witnesses :: "witness_id_type list"
  witnesses :: "witness_id_type \<rightharpoonup> witness_object"
  checkpoints :: "(nat \<times> block_id_type) list"
  skip_flags :: "32 word"
  undo_max_size :: nat
  fork_max_size :: nat
  objects :: 'o

definition maintenance_flag :: "32 word" where "maintenance_flag = 0x01"
definition skip_undo_history_check :: "32 word" where "skip_undo_history_check = 2 ^ 9"

definition head_block_time :: "'o chain_state \<Rightarrow> time_point_sec" where
  "head_block_time st = dgp_time (dgpo st)"

definition head_block_num :: "'o chain_state \<Rightarrow> nat" where
  "head_block_num st = head_block_number (dgpo st)"

definition head_block_id :: "'o chain_state \<Rightarrow> block_id_type" where
  "head_block_id st = dgp_head_block_id (dgpo st)"

definition chain_block_interval :: "'o chain_state \<Rightarrow> nat" where
  "chain_block_interval st = block_interval (gpo_parameters (gpo st))"

definition update_dgpo :: "(dynamic_global_property_object \<Rightarrow> dynamic_global_property_object) \<Rightarrow> 'o chain_state \<Rightarrow> 'o chain_state" where
  "update_dgpo f st = st\<lparr>dgpo := f (dgpo st)\<rparr>"

text \<open>Modification of a witness object; a missing object throws.\<close>

definition modify_witness :: "witness_id_type \<Rightarrow> (witness_object \<Rightarrow> witness_object) \<Rightarrow> 'o chain_state \<Rightarrow> 'o chain_state res" where
  "modify_witness i f st =
     bindE (getE (witnesses st) i) (\<lambda>w. Inr (st\<lparr>witnesses := (witnesses st)(i \<mapsto> f w)\<rparr>))"

subsection \<open>Slots\<close>

definition get_scheduled_witness :: "'o chain_state \<Rightarrow> nat \<Rightarrow> witness_id_type res" where
  "get_scheduled_witness st slot_num =
     (let aslot = (current_aslot (dgpo st) + slot_num) mod 2 ^ 64;
          ws = current_shuffled_witnesses st
      in if ws = [] then throwE Undefined_behaviour else Inr (ws ! (aslot mod length ws)))"

definition get_slot_time :: "'o chain_state \<Rightarrow> nat \<Rightarrow> time_point_sec res" where
  "get_slot_time st slot_num =
     (if slot_num = 0 then Inr 0
      else let interval = chain_block_interval st in
        if head_block_num st = 0 then
          Inr ((dgp_time (dgpo st) + (slot_num * interval) mod 2 ^ 32) mod 2 ^ 32)
        else if interval = 0 then throwE Undefined_behaviour
        else
          let head_block_abs_slot = head_block_time st div interval;
              head_slot_time = (head_block_abs_slot * interval) mod 2 ^ 32;
              slot_num = (if dynamic_flags (dgpo st) AND maintenance_flag \<noteq> 0
                          then (slot_num + maintenance_skip_slots (gpo_parameters (gpo st))) mod 2 ^ 32
                          else slot_num)
          in Inr ((head_slot_time + (slot_num * interval) mod 2 ^ 32) mod 2 ^ 32))"

definition get_slot_at_time :: "'o chain_state \<Rightarrow> time_point_sec \<Rightarrow> nat res" where
  "get_slot_at_time st when =
     bindE (get_slot_time st 1) (\<lambda>first_slot_time.
     if when < first_slot_time then Inr 0
     else if chain_block_interval st = 0 then throwE Undefined_behaviour
     else Inr ((when - first_slot_time) div chain_block_interval st + 1))"

definition witness_participation_rate :: "slot_env \<Rightarrow> 'o chain_state \<Rightarrow> nat" where
  "witness_participation_rate S st =
     GRAPHENE_100_PERCENT * fc_popcount S (recent_slots_filled (dgpo st)) div 128"

subsection \<open>The schedule of a round\<close>

definition shuffle_random :: "time_point_sec \<Rightarrow> nat \<Rightarrow> 64 word" where
  "shuffle_random now i =
     (let now_hi = push_bit 32 (of_nat now :: 64 word);
          k = now_hi + of_nat i * 2685821657736338717;
          k = k XOR drop_bit 12 k;
          k = k XOR push_bit 25 k;
          k = k XOR drop_bit 27 k
      in k * 2685821657736338717)"

definition swap_at :: "nat \<Rightarrow> nat \<Rightarrow> 'a list \<Rightarrow> 'a list" where
  "swap_at i j xs = xs[i := xs ! j, j := xs ! i]"

definition shuffle_step :: "time_point_sec \<Rightarrow> nat \<Rightarrow> witness_id_type list \<Rightarrow> witness_id_type list" where
  "shuffle_step now i xs =
     (let jmax = length xs - i; j = i + unat (shuffle_random now i) mod jmax in swap_at i j xs)"

definition shuffle :: "time_point_sec \<Rightarrow> witness_id_type list \<Rightarrow> witness_id_type list" where
  "shuffle now xs = fold (shuffle_step now) [0..<length xs] xs"

definition update_witness_schedule :: "'o chain_state \<Rightarrow> 'o chain_state res" where
  "update_witness_schedule st =
     (let ws = active_witnesses (gpo st) in
      if ws = [] then throwE Undefined_behaviour
      else if head_block_num st mod length ws = 0
      then Inr (st\<lparr>current_shuffled_witnesses := shuffle (head_block_time st) ws\<rparr>)
      else Inr st)"

subsection \<open>Updates with every block\<close>

text \<open>The largest checkpoint; the container is sorted by block number.\<close>

definition last_checkpoint :: "'o chain_state \<Rightarrow> (nat \<times> block_id_type) option" where
  "last_checkpoint st = (if checkpoints st = [] then None else Some (last (checkpoints st)))"

definition count_missed :: "'tx signed_block \<Rightarrow> nat \<Rightarrow> 'o chain_state \<Rightarrow> 'o chain_state res" where
  "count_missed b missed_blocks st =
     foldE (\<lambda>i st.
       bindE (get_scheduled_witness st (i + 1)) (\<lambda>w.
       bindE (getE (witnesses st) w) (\<lambda>_.
       if w \<noteq> block_witness b
       then modify_witness w (\<lambda>x. x\<lparr>total_missed := total_missed x + 1\<rparr>) st
       else Inr st))) [0..<missed_blocks] st"

definition next_missed_count :: "'tx block_env \<Rightarrow> 'o chain_state \<Rightarrow> 'tx signed_block \<Rightarrow> nat \<Rightarrow> nat \<Rightarrow> nat" where
  "next_missed_count H st b missed_blocks n =
     (if block_num H b = 1 then 0
      else if (case last_checkpoint st of None \<Rightarrow> False | Some c \<Rightarrow> block_num H b \<le> fst c) then 0
      else if missed_blocks \<noteq> 0 then (n + GRAPHENE_RECENTLY_MISSED_COUNT_INCREMENT * missed_blocks) mod 2 ^ 32
      else if GRAPHENE_RECENTLY_MISSED_COUNT_INCREMENT < n then n - GRAPHENE_RECENTLY_MISSED_COUNT_DECREMENT
      else if 0 < n then n - 1 else n)"

definition update_global_dynamic_data ::
    "slot_env \<Rightarrow> 'tx block_env \<Rightarrow> 'tx signed_block \<Rightarrow> 'o chain_state \<Rightarrow> 'o chain_state res" where
  "update_global_dynamic_data S H b st =
     bindE (get_slot_at_time st (timestamp b)) (\<lambda>slot.
     if slot = 0 then throwE Undefined_behaviour
     else let missed_blocks = slot - 1 in
     bindE (count_missed b missed_blocks st) (\<lambda>st.
     let st = update_dgpo (\<lambda>dgp. dgp
           \<lparr>recently_missed_count := next_missed_count H st b missed_blocks (recently_missed_count dgp),
            head_block_number := block_num H b,
            dgp_head_block_id := block_id H b,
            dgp_time := timestamp b,
            current_witness := block_witness b,
            recent_slots_filled := fc_shl S (fc_shl S (recent_slots_filled dgp) 1 + 1) missed_blocks,
            current_aslot := (current_aslot dgp + missed_blocks + 1) mod 2 ^ 64\<rparr>) st;
         depth = nat ((int (head_block_num st) - int (last_irreversible_block_num (dgpo st))) mod 2 ^ 32)
     in
     bindE (if skip_flags st AND skip_undo_history_check = 0
            then if depth < GRAPHENE_MAX_UNDO_HISTORY then Inr () else throwE Undo_database_exception
            else Inr ()) (\<lambda>_.
     Inr (st\<lparr>undo_max_size := (depth + 1) mod 2 ^ 32, fork_max_size := (depth + 1) mod 2 ^ 32\<rparr>))))"

text \<open>\<open>deposit\<close> pays a witness into its vesting balance.\<close>

definition update_signing_witness ::
    "'z fc_env_scheme \<Rightarrow> (witness_id_type \<Rightarrow> int \<Rightarrow> 'o chain_state \<Rightarrow> 'o chain_state res) \<Rightarrow> 'tx block_env \<Rightarrow>
     witness_id_type \<Rightarrow> 'tx signed_block \<Rightarrow> 'o chain_state \<Rightarrow> 'o chain_state res" where
  "update_signing_witness E deposit H signing_witness b st =
     bindE (get_slot_at_time st (timestamp b)) (\<lambda>slot.
     let new_block_aslot = (current_aslot (dgpo st) + slot) mod 2 ^ 64;
         witness_pay = min (witness_pay_per_block (gpo_parameters (gpo st))) (witness_budget (dgpo st))
     in
     bindE (safe_sub E (witness_budget (dgpo st)) witness_pay) (\<lambda>budget.
     bindE (deposit signing_witness witness_pay (update_dgpo (\<lambda>d. d\<lparr>witness_budget := budget\<rparr>) st)) (\<lambda>st.
     modify_witness signing_witness (\<lambda>w. w\<lparr>last_aslot := new_block_aslot, last_confirmed_block_num := block_num H b\<rparr>) st)))"

definition get_witnesses :: "'o chain_state \<Rightarrow> witness_id_type list \<Rightarrow> witness_object list res" where
  "get_witnesses st ws = foldE (\<lambda>i acc. bindE (getE (witnesses st) i) (\<lambda>w. Inr (acc @ [w]))) ws []"

text \<open>
  \<open>std::nth_element\<close> puts at the given position the element that sorting would put there, so
  the number read from it is the one of the sorted list.
\<close>

definition update_last_irreversible_block :: "'o chain_state \<Rightarrow> 'o chain_state res" where
  "update_last_irreversible_block st =
     bindE (get_witnesses st (active_witnesses (gpo st))) (\<lambda>wit_objs.
     let offset = (GRAPHENE_100_PERCENT - GRAPHENE_IRREVERSIBLE_THRESHOLD) * length wit_objs div GRAPHENE_100_PERCENT
     in if wit_objs = [] then throwE Undefined_behaviour
        else let new_lib = sort (map last_confirmed_block_num wit_objs) ! offset
        in Inr (if last_irreversible_block_num (dgpo st) < new_lib
                then update_dgpo (\<lambda>d. d\<lparr>last_irreversible_block_num := new_lib\<rparr>) st else st))"

definition update_maintenance_flag :: "bool \<Rightarrow> 'o chain_state \<Rightarrow> 'o chain_state" where
  "update_maintenance_flag new_maintenance_flag st =
     update_dgpo (\<lambda>d. d\<lparr>dynamic_flags :=
       (dynamic_flags d AND NOT maintenance_flag) OR (if new_maintenance_flag then maintenance_flag else 0)\<rparr>) st"

subsection \<open>A round visits every witness once\<close>

lemma length_swap_at [simp]: "length (swap_at i j xs) = length xs"
  by (simp add: swap_at_def)

lemma mset_swap_at: "i < length xs \<Longrightarrow> j < length xs \<Longrightarrow> mset (swap_at i j xs) = mset xs"
  unfolding swap_at_def by (rule mset_swap)

lemma shuffle_step_perm:
  assumes "i < length xs"
  shows "mset (shuffle_step now i xs) = mset xs" "length (shuffle_step now i xs) = length xs"
proof -
  have "unat (shuffle_random now i) mod (length xs - i) < length xs - i" using assms by simp
  then have "i + unat (shuffle_random now i) mod (length xs - i) < length xs" using assms by linarith
  then show "mset (shuffle_step now i xs) = mset xs" using assms by (simp add: shuffle_step_def Let_def mset_swap_at)
  show "length (shuffle_step now i xs) = length xs" by (simp add: shuffle_step_def Let_def)
qed

lemma shuffle_perm: "mset (shuffle now xs) = mset xs"
proof -
  have "mset (fold (shuffle_step now) is xs) = mset xs \<and> length (fold (shuffle_step now) is xs) = length xs"
    if "\<forall>i\<in>set is. i < length xs" for "is"
    using that
  proof (induction "is" arbitrary: xs)
    case (Cons i "is")
    have "i < length xs" using Cons.prems by simp
    note p = shuffle_step_perm [OF this, of now]
    show ?case using Cons.IH [of "shuffle_step now i xs"] Cons.prems p by simp
  qed simp
  then show ?thesis unfolding shuffle_def by simp
qed

lemma scheduled_round:
  assumes "ws = current_shuffled_witnesses st" and "ws \<noteq> []"
    and "current_aslot (dgpo st) + s + length ws < 2 ^ 64"
  shows "map (\<lambda>i. get_scheduled_witness st (s + i)) [0..<length ws] =
    map Inr (rotate (current_aslot (dgpo st) + s) ws)"
proof (rule nth_equalityI)
  fix i assume "i < length (map (\<lambda>i. get_scheduled_witness st (s + i)) [0..<length ws])"
  then have i: "i < length ws" by simp
  have "(current_aslot (dgpo st) + (s + i)) mod 2 ^ 64 = current_aslot (dgpo st) + s + i"
    using assms(3) i by (simp add: mod_less)
  then show "map (\<lambda>i. get_scheduled_witness st (s + i)) [0..<length ws] ! i =
      map Inr (rotate (current_aslot (dgpo st) + s) ws) ! i"
    using assms(1,2) i by (simp add: get_scheduled_witness_def Let_def nth_rotate add.commute)
qed simp


definition sample_state :: "nat list \<Rightarrow> nat \<Rightarrow> (nat \<rightharpoonup> witness_object) \<Rightarrow> unit chain_state" where
  "sample_state ws n wits =
     \<lparr>gpo = \<lparr>gpo_parameters = default_chain_parameters \<lparr>parameters = [], scale = 10000\<rparr>, pending_parameters = None,
        next_available_vote_id = 0, active_committee_members = [], active_witnesses = ws,
        next_construction_capital_rate_vote_time = None\<rparr>,
      dgpo = \<lparr>head_block_number = n, dgp_head_block_id = null_block_id, dgp_time = 1000, current_witness = 0,
        next_maintenance_time = 0, last_budget_time = 0, witness_budget = 0, accounts_registered_this_interval = 0,
        recently_missed_count = 0, current_aslot = n, recent_slots_filled = 0, dynamic_flags = 0,
        last_irreversible_block_num = 0\<rparr>,
      current_shuffled_witnesses = ws, witnesses = wits, checkpoints = [], skip_flags = 0,
      undo_max_size = 10, fork_max_size = 10, objects = ()\<rparr>"


subsection \<open>Slot numbers and times\<close>

definition slot_base :: "'o chain_state \<Rightarrow> nat" where
  "slot_base st = (if head_block_num st = 0 then head_block_time st
     else head_block_time st div chain_block_interval st * chain_block_interval st)"

definition skipped_slots :: "'o chain_state \<Rightarrow> nat" where
  "skipped_slots st = (if head_block_num st \<noteq> 0 \<and> dynamic_flags (dgpo st) AND maintenance_flag \<noteq> 0
     then maintenance_skip_slots (gpo_parameters (gpo st)) else 0)"

lemma get_slot_time_exact:
  assumes "0 < chain_block_interval st" and "0 < n"
    and bound: "head_block_time st + (n + skipped_slots st) * chain_block_interval st < 2 ^ 32"
  shows "get_slot_time st n = Inr (slot_base st + (n + skipped_slots st) * chain_block_interval st)"
proof -
  let ?i = "chain_block_interval st" and ?m = "n + skipped_slots st"
  have "slot_base st \<le> head_block_time st" by (simp add: slot_base_def)
  then have all: "slot_base st + ?m * ?i < 2 ^ 32" using bound by linarith
  have "?m \<le> ?m * ?i" using assms(1) by simp
  then have m: "?m mod 2 ^ 32 = ?m" "(?m * ?i) mod 2 ^ 32 = ?m * ?i" "slot_base st mod 2 ^ 32 = slot_base st"
    "(slot_base st + ?m * ?i) mod 2 ^ 32 = slot_base st + ?m * ?i"
    using all by (simp_all only: mod_less)
  show ?thesis
  proof (cases "head_block_num st = 0")
    case True
    then have "skipped_slots st = 0" "slot_base st = dgp_time (dgpo st)"
      by (simp_all add: skipped_slots_def slot_base_def head_block_time_def)
    then show ?thesis using True assms(2) m unfolding get_slot_time_def Let_def by simp
  next
    case False
    then have b: "head_block_time st div ?i * ?i = slot_base st" by (simp add: slot_base_def)
    have s: "(if dynamic_flags (dgpo st) AND maintenance_flag \<noteq> 0
        then (n + maintenance_skip_slots (gpo_parameters (gpo st))) mod 2 ^ 32 else n) = ?m"
      using False m(1) by (cases "dynamic_flags (dgpo st) AND maintenance_flag = 0") (simp_all add: skipped_slots_def)
    show ?thesis
      using False assms(1,2) unfolding get_slot_time_def Let_def s b m by simp
  qed
qed

text \<open>
  C25: slot numbers and times are inverse to each other, with and without a maintenance gap
  behind the head block: every time from the start of slot \<open>n\<close> to just before the next slot is
  in slot \<open>n\<close>, and a time before the first slot is in slot 0.
\<close>

theorem slot_time_roundtrip:
  assumes i: "0 < chain_block_interval st" and n: "0 < n"
    and bound: "head_block_time st + (n + skipped_slots st) * chain_block_interval st < 2 ^ 32"
  shows "\<exists>t first. get_slot_time st n = Inr t \<and> get_slot_time st 1 = Inr first \<and>
    (\<forall>r < chain_block_interval st. get_slot_at_time st (t + r) = Inr n) \<and>
    (\<forall>w < first. get_slot_at_time st w = Inr 0)"
proof -
  let ?i = "chain_block_interval st"
  have le: "(1 + skipped_slots st) * ?i \<le> (n + skipped_slots st) * ?i" using n by (intro mult_right_mono) auto
  have t: "get_slot_time st n = Inr (slot_base st + (n + skipped_slots st) * ?i)"
    by (rule get_slot_time_exact [OF i n bound])
  have f: "get_slot_time st 1 = Inr (slot_base st + (1 + skipped_slots st) * ?i)"
    by (rule get_slot_time_exact [OF i]) (use le bound in linarith)+
  have "get_slot_at_time st (slot_base st + (n + skipped_slots st) * ?i + r) = Inr n" if "r < ?i" for r
  proof -
    have split: "(n + skipped_slots st) * ?i = (1 + skipped_slots st) * ?i + (n - 1) * ?i"
      using n unfolding distrib_right [symmetric] by (intro arg_cong2 [where f = "(*)"]) simp_all
    have "((n - 1) * ?i + r) div ?i = n - 1" using that i by simp
    then show ?thesis
      using i n unfolding get_slot_at_time_def f split by (simp add: add.assoc)
  qed
  moreover have "get_slot_at_time st w = Inr 0" if "w < slot_base st + (1 + skipped_slots st) * ?i" for w
    using that unfolding get_slot_at_time_def f by simp
  ultimately show ?thesis using t f by blast
qed

theorem slot_time_roundtrip_witness:
  "get_slot_time (sample_state [4] 5 Map.empty) 7 = Inr 1020 \<and> get_slot_at_time (sample_state [4] 5 Map.empty) 1022 = Inr 7"
proof -
  let ?st = "sample_state [4] 5 Map.empty"
  have s: "chain_block_interval ?st = 3" "skipped_slots ?st = 0" "head_block_time ?st = 1000"
    by (simp_all add: sample_state_def chain_block_interval_def skipped_slots_def default_chain_parameters_def
        maintenance_flag_def head_block_time_def)
  have t: "get_slot_time ?st 7 = Inr 1020"
    by (simp add: get_slot_time_def sample_state_def chain_block_interval_def default_chain_parameters_def
        maintenance_flag_def head_block_time_def head_block_num_def)
  from slot_time_roundtrip [of ?st 7] obtain x where
    "get_slot_time ?st 7 = Inr x" "\<forall>r < 3. get_slot_at_time ?st (x + r) = Inr 7"
    by (auto simp: s)
  then have "\<forall>r < 3. get_slot_at_time ?st (1020 + r) = Inr 7" using t by simp
  from this [rule_format, of 2] show ?thesis using t by simp
qed

subsection \<open>Irreversible blocks\<close>

lemma get_witnesses_eq:
  "get_witnesses st ws = Inr xs \<Longrightarrow> map (witnesses st) ws = map Some xs"
proof -
  have gen: "foldE (\<lambda>i acc. bindE (getE (witnesses st) i) (\<lambda>w. Inr (acc @ [w]))) ws acc = Inr xs \<Longrightarrow>
      map Some acc @ map (witnesses st) ws = map Some xs" for acc
  proof (induction ws arbitrary: acc)
    case (Cons i ws)
    then obtain w where w: "witnesses st i = Some w"
        "foldE (\<lambda>i acc. bindE (getE (witnesses st) i) (\<lambda>w. Inr (acc @ [w]))) ws (acc @ [w]) = Inr xs"
      by (auto simp: res_simps)
    then show ?case using Cons.IH [OF w(2)] by simp
  qed simp
  then show "get_witnesses st ws = Inr xs \<Longrightarrow> ?thesis" unfolding get_witnesses_def by force
qed

lemma count_from_position:
  fixes xs :: "nat list"
  assumes "k < length xs"
  shows "length xs - k \<le> length (filter (\<lambda>x. sort xs ! k \<le> x) xs)"
proof -
  let ?ys = "sort xs"
  have "length (filter (\<lambda>x. ?ys ! k \<le> x) xs) = length (filter (\<lambda>x. ?ys ! k \<le> x) ?ys)"
    by (metis mset_filter mset_sort size_mset)
  moreover have "filter (\<lambda>x. ?ys ! k \<le> x) (drop k ?ys) = drop k ?ys"
    using sorted_nth_mono [of ?ys k] by (auto simp: filter_id_conv in_set_conv_nth)
  then have "length (drop k ?ys) \<le> length (filter (\<lambda>x. ?ys ! k \<le> x) ?ys)"
    by (metis append_take_drop_id filter_append le_add2 length_append)
  ultimately show ?thesis by simp
qed

text \<open>
  C26: the last irreversible block number never goes down, and when it moves, at least 70 percent
  of the active witnesses have confirmed a block of that number or a later one.
\<close>

theorem irreversible_block_confirmed:
  assumes "update_last_irreversible_block st = Inr st'"
  defines "lib \<equiv> last_irreversible_block_num (dgpo st)" and "lib' \<equiv> last_irreversible_block_num (dgpo st')"
    and "ws \<equiv> active_witnesses (gpo st)"
  shows "lib \<le> lib' \<and> (lib < lib' \<longrightarrow>
    7000 * length ws \<le> 10000 * length (filter (\<lambda>i. \<exists>w. witnesses st i = Some w \<and> lib' \<le> last_confirmed_block_num w) ws))"
proof -
  obtain xs where xs: "get_witnesses st ws = Inr xs" "xs \<noteq> []"
      and st': "st' = (let new_lib = sort (map last_confirmed_block_num xs) ! (3000 * length xs div 10000) in
         if lib < new_lib then update_dgpo (\<lambda>d. d\<lparr>last_irreversible_block_num := new_lib\<rparr>) st else st)"
    using assms(1) unfolding update_last_irreversible_block_def lib_def ws_def Let_def
    by (auto simp: res_simps GRAPHENE_100_PERCENT_def GRAPHENE_IRREVERSIBLE_THRESHOLD_def split: if_splits)
  note eq = get_witnesses_eq [OF xs(1)]
  define ns where "ns = map last_confirmed_block_num xs"
  define k where "k = 3000 * length xs div 10000"
  have k: "k < length ns" "7000 * length ns \<le> 10000 * (length ns - k)"
    using xs(2) by (cases xs, simp_all add: k_def ns_def)+
  have same: "filter (\<lambda>i. \<exists>w. witnesses st i = Some w \<and> m \<le> last_confirmed_block_num w) vs =
      filter (\<lambda>i. m \<le> last_confirmed_block_num (the (witnesses st i))) vs \<and>
      length (filter (\<lambda>i. m \<le> last_confirmed_block_num (the (witnesses st i))) vs) =
      length (filter (\<lambda>x. m \<le> x) (map last_confirmed_block_num ys))"
    if "map (witnesses st) vs = map Some ys" for m vs ys
    using that
  proof (induction vs arbitrary: ys)
    case (Cons v vs)
    then obtain y zs where "ys = y # zs" "witnesses st v = Some y" "map (witnesses st) vs = map Some zs"
      by (cases ys) auto
    then show ?case using Cons.IH [of zs] by simp
  qed simp
  have len: "length ws = length ns" using eq by (metis length_map ns_def)
  have "lib' = max lib (sort ns ! k)"
    unfolding lib'_def st' Let_def by (simp add: ns_def k_def lib_def update_dgpo_def max_def)
  moreover have "length ns - k \<le> length (filter (\<lambda>x. sort ns ! k \<le> x) ns)"
    by (rule count_from_position [OF k(1)])
  ultimately show ?thesis
    using k(2) same [OF eq] len by (auto simp: max_def ns_def split: if_splits)
qed

definition sample_witness :: "nat \<Rightarrow> witness_object" where
  "sample_witness n = \<lparr>witness_account = 1, last_aslot = 0, signing_key = 0, pay_vb = None, witness_vote_id = 1,
     total_votes = 0, witness_obj_url = [], total_missed = 0, last_confirmed_block_num = n\<rparr>"

theorem irreversible_block_confirmed_witness:
  "\<exists>st'. update_last_irreversible_block (sample_state [4, 2] 9 [4 \<mapsto> sample_witness 8, 2 \<mapsto> sample_witness 5]) = Inr st' \<and>
     last_irreversible_block_num (dgpo st') = 5 \<and>
     7000 * 2 \<le> 10000 * length (filter (\<lambda>i. \<exists>w. [4 \<mapsto> sample_witness 8, 2 \<mapsto> sample_witness 5] i = Some w \<and>
       5 \<le> last_confirmed_block_num w) [4, 2])"
proof -
  let ?st = "sample_state [4, 2] 9 [4 \<mapsto> sample_witness 8, 2 \<mapsto> sample_witness 5]"
  have ok: "update_last_irreversible_block ?st = Inr (update_dgpo (\<lambda>d. d\<lparr>last_irreversible_block_num := 5\<rparr>) ?st)"
    by (simp add: update_last_irreversible_block_def get_witnesses_def sample_state_def sample_witness_def
        GRAPHENE_100_PERCENT_def GRAPHENE_IRREVERSIBLE_THRESHOLD_def)
  show ?thesis
    using irreversible_block_confirmed [OF ok] ok by (simp add: sample_state_def update_dgpo_def sample_witness_def)
qed

end
