(* ===== verification/Block_Log.thy ===== *)
theory Block_Log
  imports Fork_Database
begin

text \<open>
  The log of applied blocks (\<open>libraries/chain/block_database.cpp\<close>): a file of packed blocks and
  an index file with one entry per block number.

  The index file is the list of its entries and the data file the list of its bytes. Writing an
  entry beyond the end of the index leaves a hole, which reads as zeros. Packing belongs to the
  \<open>fc\<close> library and is held by \<open>raw_env\<close>. What is assumed of it concerns the blocks that are
  stored (\<open>packs\<close>): such a block is read again from its packed form, which is not empty and has
  fewer than \<open>2 ^ 32\<close> bytes. What unpacking an empty vector gives is left open: an exception, or
  a block, whose identifier is then \<open>empty_id\<close>. Opening, closing and flushing the two files is
  not modelled.
\<close>

record index_entry =
  block_pos :: nat
  block_size :: nat
  entry_id :: block_id_type

record 'b block_database =
  bd_index :: "index_entry list"
  bd_data :: "'b list"

record ('tx, 'b) raw_env =
  raw_pack :: "'tx signed_block \<Rightarrow> 'b list"
  raw_unpack :: "'b list \<Rightarrow> 'tx signed_block res"

definition packs :: "('tx, 'b) raw_env \<Rightarrow> 'tx signed_block \<Rightarrow> bool" where
  "packs P b \<longleftrightarrow> raw_unpack P (raw_pack P b) = Inr b \<and> raw_pack P b \<noteq> [] \<and> length (raw_pack P b) < 2 ^ 32"

definition zero_entry :: index_entry where
  "zero_entry = \<lparr>block_pos = 0, block_size = 0, entry_id = null_block_id\<rparr>"

definition write_entry :: "nat \<Rightarrow> index_entry \<Rightarrow> index_entry list \<Rightarrow> index_entry list" where
  "write_entry num e idx =
     (if num < length idx then idx[num := e] else idx @ replicate (num - length idx) zero_entry @ [e])"

definition read_data :: "nat \<Rightarrow> nat \<Rightarrow> 'b list \<Rightarrow> 'b list res" where
  "read_data pos n d = (if n = 0 \<or> pos + n \<le> length d then Inr (take n (drop pos d)) else throwE Bad_cast)"

definition store_block ::
    "'tx block_env \<Rightarrow> ('tx, 'b) raw_env \<Rightarrow> block_id_type \<Rightarrow> 'tx signed_block \<Rightarrow> 'b block_database \<Rightarrow> 'b block_database" where
  "store_block H P i b db =
     (let i = (if i = null_block_id then block_id H b else i);
          num = num_from_id H i;
          vec = raw_pack P b;
          e = \<lparr>block_pos = length (bd_data db), block_size = length vec mod 2 ^ 32, entry_id = i\<rparr>
      in db\<lparr>bd_data := bd_data db @ vec, bd_index := write_entry num e (bd_index db)\<rparr>)"

definition remove_block :: "'tx block_env \<Rightarrow> block_id_type \<Rightarrow> 'b block_database \<Rightarrow> 'b block_database res" where
  "remove_block H i db =
     (let num = num_from_id H i in
      if length (bd_index db) \<le> num then throwE Key_not_found
      else let e = bd_index db ! num in
        Inr (if entry_id e = i
             then db\<lparr>bd_index := write_entry num (e\<lparr>block_size := 0\<rparr>) (bd_index db)\<rparr> else db))"

definition contains_block :: "'tx block_env \<Rightarrow> 'b block_database \<Rightarrow> block_id_type \<Rightarrow> bool" where
  "contains_block H db i =
     (if i = null_block_id then False
      else let num = num_from_id H i in
        if length (bd_index db) \<le> num then False
        else entry_id (bd_index db ! num) = i \<and> 0 < block_size (bd_index db ! num))"

definition fetch_block_id :: "'b block_database \<Rightarrow> nat \<Rightarrow> block_id_type res" where
  "fetch_block_id db num =
     bindE (if num = 0 then throwE Undefined_behaviour else Inr ()) (\<lambda>_.
     if length (bd_index db) \<le> num then throwE Key_not_found
     else let e = bd_index db ! num in
       bindE (assertE (entry_id e \<noteq> null_block_id) ''Empty block_id in block_database (maybe corrupt on disk?)'') (\<lambda>_.
       Inr (entry_id e)))"

text \<open>Reading the block of an entry, with every exception caught by the caller.\<close>

definition read_block :: "'tx block_env \<Rightarrow> ('tx, 'b) raw_env \<Rightarrow> 'b block_database \<Rightarrow> index_entry \<Rightarrow> 'tx signed_block res" where
  "read_block H P db e =
     bindE (read_data (block_pos e) (block_size e) (bd_data db)) (\<lambda>data.
     bindE (raw_unpack P data) (\<lambda>result.
     bindE (assertE (block_id H result = entry_id e) ''result.id() == e.block_id'') (\<lambda>_.
     Inr result)))"

definition caught :: "'a res \<Rightarrow> 'a option" where
  "caught r = (case r of Inl _ \<Rightarrow> None | Inr x \<Rightarrow> Some x)"

definition fetch_optional ::
    "'tx block_env \<Rightarrow> ('tx, 'b) raw_env \<Rightarrow> 'b block_database \<Rightarrow> block_id_type \<Rightarrow> 'tx signed_block option" where
  "fetch_optional H P db i =
     (let num = num_from_id H i in
      if length (bd_index db) \<le> num then None
      else let e = bd_index db ! num in
        if entry_id e \<noteq> i then None else caught (read_block H P db e))"

definition fetch_by_number ::
    "'tx block_env \<Rightarrow> ('tx, 'b) raw_env \<Rightarrow> 'b block_database \<Rightarrow> nat \<Rightarrow> 'tx signed_block option" where
  "fetch_by_number H P db num =
     (if length (bd_index db) \<le> num then None else caught (read_block H P db (bd_index db ! num)))"

text \<open>The loop of \<open>last\<close> and \<open>last_id\<close>: \<open>pos\<close> entries lie before the position of the file.\<close>

fun last_entry :: "index_entry list \<Rightarrow> nat \<Rightarrow> index_entry \<Rightarrow> index_entry" where
  "last_entry idx 0 e = e"
| "last_entry idx (Suc pos) e = (if block_size e = 0 then last_entry idx pos (idx ! pos) else e)"

definition last_block :: "('tx, 'b) raw_env \<Rightarrow> 'b block_database \<Rightarrow> 'tx signed_block option" where
  "last_block P db =
     (if bd_index db = [] then None
      else let e = last_entry (bd_index db) (length (bd_index db)) (last (bd_index db)) in
        if block_size e = 0 then None
        else caught (bindE (read_data (block_pos e) (block_size e) (bd_data db)) (raw_unpack P)))"

definition last_id :: "'b block_database \<Rightarrow> block_id_type option" where
  "last_id db =
     (if bd_index db = [] then None
      else let e = last_entry (bd_index db) (length (bd_index db)) (last (bd_index db)) in
        if block_size e = 0 then None else Some (entry_id e))"

definition empty_block_database :: "'b block_database" where
  "empty_block_database = \<lparr>bd_index = [], bd_data = []\<rparr>"

subsection \<open>The interface of a block store\<close>

text \<open>
  What the chain database relies on: a block stored under its own identifier is found again,
  other block numbers are not affected, and a removed block is gone. Some blocks may not be
  storable and some identifiers not be told apart from an empty slot.
\<close>

locale block_store =
  fixes ident :: "'blk \<Rightarrow> 'id" and num :: "'id \<Rightarrow> nat" and inv :: "'d \<Rightarrow> bool"
    and store :: "'id \<Rightarrow> 'blk \<Rightarrow> 'd \<Rightarrow> 'd" and remove :: "'id \<Rightarrow> 'd \<Rightarrow> 'd res"
    and fetch :: "'d \<Rightarrow> 'id \<Rightarrow> 'blk option" and storable :: "'blk \<Rightarrow> bool" and regular :: "'id \<Rightarrow> bool"
  assumes inv_store: "inv d \<Longrightarrow> storable b \<Longrightarrow> inv (store (ident b) b d)"
    and inv_remove: "inv d \<Longrightarrow> remove i d = Inr d' \<Longrightarrow> inv d'"
    and fetch_store: "inv d \<Longrightarrow> storable b \<Longrightarrow> fetch (store (ident b) b d) (ident b) = Some b"
    and fetch_store_other: "inv d \<Longrightarrow> storable b \<Longrightarrow> regular i \<Longrightarrow> num i \<noteq> num (ident b) \<Longrightarrow> fetch (store (ident b) b d) i = fetch d i"
    and fetch_remove: "inv d \<Longrightarrow> regular j \<Longrightarrow> remove i d = Inr d' \<Longrightarrow> fetch d' j = (if j = i then None else fetch d j)"
begin

lemma inv_store_all: "inv d \<Longrightarrow> list_all storable bs \<Longrightarrow> inv (fold (\<lambda>b. store (ident b) b) bs d)"
  by (induction bs arbitrary: d) (auto intro: inv_store)

lemma fetch_store_all:
  assumes "inv d" and "distinct (map (num \<circ> ident) bs)" and "list_all (\<lambda>b. storable b \<and> regular (ident b)) bs"
  shows "b \<in> set bs \<Longrightarrow> fetch (fold (\<lambda>b. store (ident b) b) bs d) (ident b) = Some b"
    and "regular i \<Longrightarrow> num i \<notin> (num \<circ> ident) ` set bs \<Longrightarrow> fetch (fold (\<lambda>b. store (ident b) b) bs d) i = fetch d i"
proof -
  have "(b \<in> set bs \<longrightarrow> fetch (fold (\<lambda>b. store (ident b) b) bs d) (ident b) = Some b) \<and>
    (regular i \<and> num i \<notin> (num \<circ> ident) ` set bs \<longrightarrow> fetch (fold (\<lambda>b. store (ident b) b) bs d) i = fetch d i)" for b i
    using assms
  proof (induction bs arbitrary: d b i)
    case (Cons c bs)
    have sc: "storable c" "regular (ident c)" "list_all (\<lambda>b. storable b \<and> regular (ident b)) bs" using Cons.prems(3) by simp_all
    have "inv (store (ident c) c d)" by (rule inv_store [OF Cons.prems(1) sc(1)])
    note IH = Cons.IH [OF this]
    have c: "num (ident c) \<notin> (num \<circ> ident) ` set bs" using Cons.prems(2) by auto
    show ?case
    proof (intro conjI impI)
      assume "b \<in> set (c # bs)"
      then show "fetch (fold (\<lambda>b. store (ident b) b) (c # bs) d) (ident b) = Some b"
        using IH [of b "ident c"] c fetch_store [OF Cons.prems(1) sc(1)] sc Cons.prems(2) by (cases "b = c") auto
    next
      assume "regular i \<and> num i \<notin> (num \<circ> ident) ` set (c # bs)"
      then show "fetch (fold (\<lambda>b. store (ident b) b) (c # bs) d) i = fetch d i"
        using IH [of c i] fetch_store_other [OF Cons.prems(1) sc(1), of i] sc Cons.prems(2) by auto
    qed
  qed simp
  then show "b \<in> set bs \<Longrightarrow> fetch (fold (\<lambda>b. store (ident b) b) bs d) (ident b) = Some b"
    and "regular i \<Longrightarrow> num i \<notin> (num \<circ> ident) ` set bs \<Longrightarrow> fetch (fold (\<lambda>b. store (ident b) b) bs d) i = fetch d i" by blast+
qed

end

subsection \<open>The log is such a store\<close>

text \<open>An entry of the index is empty or points to a packed block.\<close>

definition entry_ok :: "('tx, 'b) raw_env \<Rightarrow> 'b list \<Rightarrow> index_entry \<Rightarrow> bool" where
  "entry_ok P d e \<longleftrightarrow> block_size e = 0 \<or>
     (\<exists>b. read_data (block_pos e) (block_size e) d = Inr (raw_pack P b) \<and> packs P b)"

definition log_inv :: "('tx, 'b) raw_env \<Rightarrow> 'b block_database \<Rightarrow> bool" where
  "log_inv P db \<longleftrightarrow> (\<forall>e\<in>set (bd_index db). entry_ok P (bd_data db) e)"

text \<open>The abstract log: a map from block numbers to an identifier and a block.\<close>

definition log_of :: "('tx, 'b) raw_env \<Rightarrow> 'b block_database \<Rightarrow> nat \<rightharpoonup> block_id_type \<times> 'tx signed_block" where
  "log_of P db num =
     (if num < length (bd_index db) \<and> 0 < block_size (bd_index db ! num) then
        (case bindE (read_data (block_pos (bd_index db ! num)) (block_size (bd_index db ! num)) (bd_data db)) (raw_unpack P) of
           Inl _ \<Rightarrow> None | Inr b \<Rightarrow> Some (entry_id (bd_index db ! num), b))
      else None)"

text \<open>The identifier of the block that unpacking an empty vector gives, if it gives one.\<close>

definition empty_id :: "'tx block_env \<Rightarrow> ('tx, 'b) raw_env \<Rightarrow> block_id_type option" where
  "empty_id H P = (case raw_unpack P [] of Inl _ \<Rightarrow> None | Inr b \<Rightarrow> Some (block_id H b))"

lemma packsD:
  assumes "packs P b"
  shows "raw_unpack P (raw_pack P b) = Inr b" "0 < length (raw_pack P b)" "length (raw_pack P b) mod 2 ^ 32 = length (raw_pack P b)"
  using assms unfolding packs_def by (auto simp: mod_less)

lemma length_write_entry: "length (write_entry n e idx) = max (length idx) (n + 1)"
  by (auto simp: write_entry_def)

lemma nth_write_entry:
  "m < length (write_entry n e idx) \<Longrightarrow> write_entry n e idx ! m =
     (if m = n then e else if m < length idx then idx ! m else zero_entry)"
  by (auto simp: write_entry_def nth_append nth_Cons' split: if_splits)

lemma set_write_entry: "set (write_entry n e idx) \<subseteq> insert e (insert zero_entry (set idx))"
  by (auto simp: write_entry_def dest: set_update_subset_insert [THEN subsetD])

lemma read_data_append: "read_data p n d = Inr x \<Longrightarrow> read_data p n (d @ d') = Inr x"
  by (auto simp: read_data_def throwE_def split: if_splits)

lemma read_data_end: "read_data (length d) (length v) (d @ v) = Inr v"
  by (simp add: read_data_def)

lemma zero_entry_size [simp]: "block_size zero_entry = 0"
  by (simp add: zero_entry_def)

lemma entry_ok_nth: "log_inv P db \<Longrightarrow> n < length (bd_index db) \<Longrightarrow> 0 < block_size (bd_index db ! n) \<Longrightarrow>
  \<exists>b. read_data (block_pos (bd_index db ! n)) (block_size (bd_index db ! n)) (bd_data db) = Inr (raw_pack P b) \<and> packs P b"
  using nth_mem by (fastforce simp: log_inv_def entry_ok_def)

lemma log_inv_store:
  assumes inv: "log_inv P db" and c: "packs P b"
  shows "log_inv P (store_block H P i b db)"
proof -
  let ?vec = "raw_pack P b"
  have old: "entry_ok P (bd_data db @ ?vec) e" if "e \<in> set (bd_index db)" for e
    using inv that read_data_append by (fastforce simp: log_inv_def entry_ok_def)
  moreover have "entry_ok P (bd_data db @ ?vec)
      \<lparr>block_pos = length (bd_data db), block_size = length ?vec mod 2 ^ 32, entry_id = j\<rparr>" for j
    unfolding entry_ok_def packsD(3) [OF c] using read_data_end c by fastforce
  moreover have "entry_ok P (bd_data db @ ?vec) zero_entry" by (simp add: entry_ok_def)
  ultimately show ?thesis
    using set_write_entry by (fastforce simp: log_inv_def store_block_def Let_def)
qed

lemma log_of_store:
  assumes inv: "log_inv P db" and c: "packs P b"
  shows "log_of P (store_block H P i b db) =
    (let i' = (if i = null_block_id then block_id H b else i) in (log_of P db)(num_from_id H i' \<mapsto> (i', b)))"
proof -
  define i' where "i' = (if i = null_block_id then block_id H b else i)"
  define n where "n = num_from_id H i'"
  define e where "e = \<lparr>block_pos = length (bd_data db), block_size = length (raw_pack P b) mod 2 ^ 32, entry_id = i'\<rparr>"
  have s: "store_block H P i b db = db\<lparr>bd_data := bd_data db @ raw_pack P b, bd_index := write_entry n e (bd_index db)\<rparr>"
    by (simp add: store_block_def Let_def i'_def n_def e_def)
  have e: "block_size e = length (raw_pack P b)" "block_pos e = length (bd_data db)" "entry_id e = i'"
    unfolding e_def using packsD(3) [OF c] by simp_all
  have "log_of P (store_block H P i b db) m = ((log_of P db)(n \<mapsto> (i', b))) m" for m
  proof -
    consider "m = n" | "m \<noteq> n" "m < length (bd_index db)" | "m \<noteq> n" "length (bd_index db) \<le> m" by linarith
    then show ?thesis
    proof cases
      case 1
      have nth: "write_entry n e (bd_index db) ! n = e" and len: "n < length (write_entry n e (bd_index db))"
        by (simp_all add: nth_write_entry length_write_entry)
      show ?thesis
        using 1 packsD(1,2) [OF c] len read_data_end [of "bd_data db" "raw_pack P b"]
        by (simp add: log_of_def s nth e)
    next
      case 2
      then have nth: "write_entry n e (bd_index db) ! m = bd_index db ! m"
        by (simp add: nth_write_entry length_write_entry)
      show ?thesis
        using 2 entry_ok_nth [OF inv 2(2)] read_data_append packsD(1)
        by (fastforce simp: log_of_def s length_write_entry nth)
    next
      case 3
      then show ?thesis by (auto simp: log_of_def s length_write_entry nth_write_entry)
    qed
  qed
  then show ?thesis by (simp add: fun_eq_iff i'_def n_def Let_def)
qed

lemma log_inv_remove: "log_inv P db \<Longrightarrow> remove_block H i db = Inr db' \<Longrightarrow> log_inv P db'"
  using set_write_entry
  by (fastforce simp: remove_block_def Let_def throwE_def log_inv_def entry_ok_def split: if_splits)

lemma log_of_remove:
  assumes "remove_block H i db = Inr db'"
  shows "log_of P db' = (if \<exists>b. log_of P db (num_from_id H i) = Some (i, b) then (log_of P db)(num_from_id H i := None) else log_of P db)"
proof -
  let ?n = "num_from_id H i" and ?idx = "bd_index db"
  have n: "?n < length ?idx" and db': "db' = (if entry_id (?idx ! ?n) = i
      then db\<lparr>bd_index := write_entry ?n ((?idx ! ?n)\<lparr>block_size := 0\<rparr>) ?idx\<rparr> else db)"
    using assms by (auto simp: remove_block_def Let_def throwE_def split: if_splits)
  show ?thesis
  proof (cases "entry_id (?idx ! ?n) = i")
    case True
    define idx' where "idx' = write_entry ?n ((?idx ! ?n)\<lparr>block_size := 0\<rparr>) ?idx"
    have nth: "idx' ! m = (if m = ?n then (?idx ! ?n)\<lparr>block_size := 0\<rparr> else ?idx ! m)" if "m < length ?idx" for m
      using that n by (simp add: idx'_def nth_write_entry length_write_entry)
    have "length idx' = length ?idx" using n by (simp add: idx'_def length_write_entry)
    moreover have "bd_index db' = idx'" "bd_data db' = bd_data db" using True by (simp_all add: db' idx'_def)
    ultimately have "log_of P db' m = (if m = ?n then None else log_of P db m)" for m
      by (cases "m < length ?idx") (simp_all add: log_of_def nth split: sum.split)
    moreover have "log_of P db ?n = None \<or> (\<exists>b. log_of P db ?n = Some (i, b))"
      using True n by (auto simp: log_of_def split: sum.splits)
    ultimately show ?thesis by (auto simp: fun_eq_iff)
  next
    case False
    then have "\<not> (\<exists>b. log_of P db ?n = Some (i, b))" by (auto simp: log_of_def split: sum.splits if_splits)
    then show ?thesis using False by (simp add: db')
  qed
qed

lemma fetch_optional_log:
  assumes "log_inv P db" and id: "empty_id H P \<noteq> Some i \<or> log_of P db (num_from_id H i) \<noteq> None"
  shows "fetch_optional H P db i =
    (case log_of P db (num_from_id H i) of None \<Rightarrow> None | Some (j, b) \<Rightarrow> if j = i \<and> block_id H b = i then Some b else None)"
proof (cases "num_from_id H i < length (bd_index db)")
  case True
  define e where "e = bd_index db ! num_from_id H i"
  show ?thesis
  proof (cases "block_size e = 0")
    case True
    then have "log_of P db (num_from_id H i) = None" by (simp add: log_of_def e_def)
    then have "entry_id e = i \<Longrightarrow> caught (read_block H P db e) = None"
      using True id by (auto simp: read_block_def caught_def read_data_def empty_id_def assertE_def throwE_def split: sum.splits)
    then show ?thesis using True \<open>num_from_id H i < _\<close> by (simp add: fetch_optional_def log_of_def e_def [symmetric] Let_def)
  next
    case False
    then obtain b where "read_data (block_pos e) (block_size e) (bd_data db) = Inr (raw_pack P b)" "packs P b"
      using entry_ok_nth [OF assms(1) True] by (auto simp: e_def)
    moreover from this(2) have "raw_unpack P (raw_pack P b) = Inr b" by (rule packsD(1))
    ultimately show ?thesis
      using True False
      by (auto simp: fetch_optional_def log_of_def e_def [symmetric] Let_def read_block_def caught_def assertE_def)
  qed
next
  case False
  then show ?thesis by (simp add: fetch_optional_def log_of_def)
qed

interpretation bl: block_store "block_id H" "num_from_id H" "log_inv P" "store_block H P" "remove_block H" "fetch_optional H P" "packs P"
    "\<lambda>i. empty_id H P \<noteq> Some i"
  for H :: "'tx block_env" and P :: "('tx, 'b) raw_env"
proof
  fix d d' :: "'b block_database" and b i j
  assume inv: "log_inv P d"
  assume r: "remove_block H i d = Inr d'"
  show inv': "log_inv P d'" by (rule log_inv_remove [OF inv r])
  assume "empty_id H P \<noteq> Some j"
  then have j: "empty_id H P \<noteq> Some j \<or> log_of P db (num_from_id H j) \<noteq> None" for db by simp
  show "fetch_optional H P d' j = (if j = i then None else fetch_optional H P d j)"
    unfolding fetch_optional_log [OF inv' j] fetch_optional_log [OF inv j] log_of_remove [OF r]
    by (auto split: option.splits)
next
  fix d :: "'b block_database" and b i
  assume inv: "log_inv P d" and p: "packs P b"
  have st: "log_of P (store_block H P (block_id H b) b d) = (log_of P d)(num_from_id H (block_id H b) \<mapsto> (block_id H b, b))"
    using log_of_store [OF inv p] by (simp add: Let_def)
  show inv': "log_inv P (store_block H P (block_id H b) b d)" by (rule log_inv_store [OF inv p])
  show "fetch_optional H P (store_block H P (block_id H b) b d) (block_id H b) = Some b"
    by (subst fetch_optional_log [OF inv']) (simp_all add: st)
  assume "empty_id H P \<noteq> Some i" and "num_from_id H i \<noteq> num_from_id H (block_id H b)"
  then show "fetch_optional H P (store_block H P (block_id H b) b d) i = fetch_optional H P d i"
    by (simp add: fetch_optional_log [OF inv'] fetch_optional_log [OF inv] st)
qed

lemma log_of_present:
  assumes "log_inv P db"
  shows "(\<exists>b. log_of P db n = Some (i, b)) \<longleftrightarrow>
    n < length (bd_index db) \<and> 0 < block_size (bd_index db ! n) \<and> entry_id (bd_index db ! n) = i"
proof (cases "n < length (bd_index db) \<and> 0 < block_size (bd_index db ! n)")
  case True
  then obtain b where "read_data (block_pos (bd_index db ! n)) (block_size (bd_index db ! n)) (bd_data db) = Inr (raw_pack P b)" "packs P b"
    using entry_ok_nth [OF assms] by blast
  moreover from this(2) have "raw_unpack P (raw_pack P b) = Inr b" by (rule packsD(1))
  ultimately show ?thesis using True by (simp add: log_of_def)
qed (auto simp: log_of_def)

lemma last_entry_spec:
  assumes "block_size e = 0" and "pos \<le> length idx" and "\<forall>k<length idx. pos \<le> k \<longrightarrow> block_size (idx ! k) = 0"
  shows "block_size (last_entry idx pos e) = 0 \<and> (\<forall>k<length idx. block_size (idx ! k) = 0) \<or>
    (\<exists>m<length idx. last_entry idx pos e = idx ! m \<and> 0 < block_size (idx ! m) \<and>
      (\<forall>k<length idx. m < k \<longrightarrow> block_size (idx ! k) = 0))"
  using assms
proof (induction pos arbitrary: e)
  case (Suc pos)
  show ?case
  proof (cases "block_size (idx ! pos) = 0")
    case True
    have "\<forall>k<length idx. pos \<le> k \<longrightarrow> block_size (idx ! k) = 0"
      using Suc.prems(3) True by (metis Suc_leI le_neq_implies_less)
    then show ?thesis using Suc.IH [OF True] Suc.prems(1,2) by simp
  next
    case False
    then have "last_entry idx (Suc pos) e = idx ! pos" using Suc.prems(1) by (cases pos) simp_all
    then show ?thesis using False Suc.prems(2,3) by (intro disjI2 exI [of _ pos]) simp
  qed
qed simp

lemma last_id_spec:
  "last_id db = None \<and> (\<forall>k<length (bd_index db). block_size (bd_index db ! k) = 0) \<or>
   (\<exists>m<length (bd_index db). last_id db = Some (entry_id (bd_index db ! m)) \<and> 0 < block_size (bd_index db ! m) \<and>
     (\<forall>k<length (bd_index db). m < k \<longrightarrow> block_size (bd_index db ! k) = 0))"
proof (cases "bd_index db = []")
  case False
  let ?idx = "bd_index db" and ?e = "last (bd_index db)"
  show ?thesis
  proof (cases "block_size ?e = 0")
    case True
    show ?thesis
      using last_entry_spec [OF True, of "length ?idx" ?idx] False by (auto simp: last_id_def Let_def)
  next
    case size: False
    then have "last_entry ?idx (length ?idx) ?e = ?e" by (cases "length ?idx") simp_all
    then have "last_id db = Some (entry_id ?e)" using False size by (simp add: last_id_def Let_def)
    moreover have "?e = ?idx ! (length ?idx - 1)" by (rule last_conv_nth [OF False])
    moreover have "length ?idx - 1 < length ?idx" using False by simp
    ultimately show ?thesis using size by (intro disjI2 exI [of _ "length ?idx - 1"]) auto
  qed
qed (simp add: last_id_def)

subsection \<open>Properties\<close>

text \<open>
  C27: the two files refine a map from block numbers to an identifier and a block. Storing a block
  that can be packed overwrites the slot of its number and keeps all others; removing an
  identifier empties the slot of its number exactly when the slot holds that identifier; a block
  is fetched when the slot of its number holds its identifier and the stored block has that
  identifier, unless the identifier is the one of the block that an empty vector unpacks to;
  \<open>contains\<close> does not look at the stored block; and \<open>last_id\<close> is the identifier in the highest
  slot in use.
\<close>

theorem block_log_refines_map:
  assumes inv: "log_inv P db" and b: "packs P b" and i: "empty_id H P \<noteq> Some i"
  shows "log_inv P (store_block H P i b db) \<and>
    log_of P (store_block H P i b db) =
      (let i' = (if i = null_block_id then block_id H b else i) in (log_of P db)(num_from_id H i' \<mapsto> (i', b))) \<and>
    (case remove_block H i db of
       Inl _ \<Rightarrow> length (bd_index db) \<le> num_from_id H i
     | Inr db' \<Rightarrow> log_inv P db' \<and> log_of P db' =
         (if \<exists>b. log_of P db (num_from_id H i) = Some (i, b) then (log_of P db)(num_from_id H i := None) else log_of P db)) \<and>
    fetch_optional H P db i = (case log_of P db (num_from_id H i) of
       None \<Rightarrow> None | Some (j, b) \<Rightarrow> if j = i \<and> block_id H b = i then Some b else None) \<and>
    (contains_block H db i \<longleftrightarrow> i \<noteq> null_block_id \<and> (\<exists>b. log_of P db (num_from_id H i) = Some (i, b))) \<and>
    (case last_id db of
       None \<Rightarrow> log_of P db = Map.empty
     | Some j \<Rightarrow> \<exists>m b. log_of P db m = Some (j, b) \<and> log_of P db ` {k. m < k} \<subseteq> {None})"
proof (intro conjI)
  show "contains_block H db i \<longleftrightarrow> i \<noteq> null_block_id \<and> (\<exists>b. log_of P db (num_from_id H i) = Some (i, b))"
    unfolding log_of_present [OF inv] by (auto simp: contains_block_def Let_def)
  show "case remove_block H i db of
       Inl _ \<Rightarrow> length (bd_index db) \<le> num_from_id H i
     | Inr db' \<Rightarrow> log_inv P db' \<and> log_of P db' =
         (if \<exists>b. log_of P db (num_from_id H i) = Some (i, b) then (log_of P db)(num_from_id H i := None) else log_of P db)"
  proof (cases "remove_block H i db")
    case (Inl e)
    then show ?thesis by (auto simp: remove_block_def Let_def split: if_splits)
  next
    case (Inr db')
    then show ?thesis using log_inv_remove [OF inv Inr] log_of_remove [OF Inr, of P] by simp
  qed
  show "case last_id db of
       None \<Rightarrow> log_of P db = Map.empty
     | Some j \<Rightarrow> \<exists>m b. log_of P db m = Some (j, b) \<and> log_of P db ` {k. m < k} \<subseteq> {None}"
    using last_id_spec [of db]
  proof (elim disjE exE conjE)
    assume "last_id db = None" "\<forall>k<length (bd_index db). block_size (bd_index db ! k) = 0"
    then show ?thesis by (auto simp: log_of_def fun_eq_iff)
  next
    fix m assume m: "m < length (bd_index db)" "last_id db = Some (entry_id (bd_index db ! m))"
      "0 < block_size (bd_index db ! m)" "\<forall>k<length (bd_index db). m < k \<longrightarrow> block_size (bd_index db ! k) = 0"
    then have "\<exists>b. log_of P db m = Some (entry_id (bd_index db ! m), b)" unfolding log_of_present [OF inv] by simp
    moreover have "log_of P db ` {k. m < k} \<subseteq> {None}" using m(4) by (auto simp: log_of_def)
    ultimately show ?thesis using m(2) by auto
  qed
qed (rule log_inv_store [OF inv b] log_of_store [OF inv b] fetch_optional_log [OF inv disjI1, OF i])+

lemma empty_log_inv [simp]: "log_inv P empty_block_database"
  by (simp add: log_inv_def empty_block_database_def)

lemma empty_log_of [simp]: "log_of P empty_block_database = Map.empty"
  by (simp add: log_of_def empty_block_database_def fun_eq_iff)

text \<open>
  A packing into bytes for the blocks of the example: the two bytes of their time. An empty
  vector gives the block of time zero.
\<close>

definition example_raw :: "(nat, 8 word) raw_env" where
  "example_raw =
    \<lparr>raw_pack = (\<lambda>b. [word_of_nat (timestamp b div 256), word_of_nat (timestamp b mod 256)]),
     raw_unpack = (\<lambda>v. case v of [] \<Rightarrow> Inr (example_block null_block_id 0)
        | [hi, lo] \<Rightarrow> Inr (example_block null_block_id (256 * unat hi + unat lo)) | _ \<Rightarrow> throwE Bad_cast)\<rparr>"

lemma example_packs: "t < 65536 \<Longrightarrow> packs example_raw (example_block null_block_id t)"
  by (simp add: packs_def example_raw_def example_block_def unat_of_nat less_mult_imp_div_less)

theorem block_log_refines_map_witness:
  "let H = example_blocks_env; b = example_block null_block_id 515; i = block_id H b; db = store_block H example_raw i b empty_block_database
   in bd_data db = [2, 3] \<and> log_of example_raw db = [num_from_id H i \<mapsto> (i, b)] \<and> empty_id H example_raw \<noteq> Some i"
proof -
  let ?H = example_blocks_env and ?b = "example_block null_block_id 515"
  have i: "block_id ?H ?b \<noteq> null_block_id" "empty_id ?H example_raw \<noteq> Some (block_id ?H ?b)"
    by (simp_all add: empty_id_def example_raw_def block_id_def block_num_def null_block_id_def example_blocks_env_def example_block_def)
  have "bd_data (store_block ?H example_raw (block_id ?H ?b) ?b empty_block_database) = [2, 3]"
    by (simp add: store_block_def example_raw_def empty_block_database_def example_block_def Let_def)
  then show ?thesis
    using block_log_refines_map [OF empty_log_inv example_packs i(2)] i unfolding Let_def by simp
qed

end
