(* ===== verification/Ledger.thy ===== *)
theory Ledger
  imports Operations Vesting Witness_Schedule
begin

text \<open>
  The objects of the ledger and what moves shares between them outside of the market
  (\<open>libraries/chain/db_balance.cpp\<close>, \<open>account_object.cpp\<close>, \<open>account_object.hpp\<close>,
  \<open>asset_object.hpp\<close>, \<open>deflation_object.hpp\<close>, \<open>market_object.hpp\<close>).

  An index of objects is a \<open>table\<close>: its rows in the order of their identifiers and the next
  identifier. An identifier is the instance number alone, since the two type bytes are fixed by
  the index. Balances are indexed by owner and asset, as in the index \<open>by_account_asset\<close>, and
  their own identifiers, which nothing refers to, are left out. The ledger is the part of the
  chain state that the undo database tracks besides the properties of \<open>Witness_Schedule\<close>.
\<close>

subsection \<open>Tables of objects\<close>

record 'v table =
  rows :: "(nat \<times> 'v) list"
  next_instance :: nat

definition empty_table :: "'v table" where
  "empty_table = \<lparr>rows = [], next_instance = 0\<rparr>"

definition tbl_find :: "'v table \<Rightarrow> nat \<Rightarrow> 'v option" where
  "tbl_find t i = map_of (rows t) i"

definition tbl_get :: "'v table \<Rightarrow> nat \<Rightarrow> 'v res" where
  "tbl_get t i = getE (tbl_find t) i"

definition tbl_create :: "'v \<Rightarrow> 'v table \<Rightarrow> nat \<times> 'v table" where
  "tbl_create v t =
     (next_instance t, t\<lparr>rows := rows t @ [(next_instance t, v)], next_instance := next_instance t + 1\<rparr>)"

definition tbl_modify :: "nat \<Rightarrow> ('v \<Rightarrow> 'v res) \<Rightarrow> 'v table \<Rightarrow> 'v table res" where
  "tbl_modify i f t =
     bindE (tbl_get t i) (\<lambda>v. bindE (f v) (\<lambda>w. Inr (t\<lparr>rows := AList.update i w (rows t)\<rparr>)))"

definition tbl_remove :: "nat \<Rightarrow> 'v table \<Rightarrow> 'v table" where
  "tbl_remove i t = t\<lparr>rows := AList.delete i (rows t)\<rparr>"

subsection \<open>Objects\<close>

record account_statistics_object =
  stat_owner :: account_id_type
  most_recent_op :: nat
  total_ops :: nat
  removed_ops :: nat
  total_core_in_orders :: int
  lifetime_fees_paid :: int
  pending_fees :: int
  pending_vested_fees :: int

record account_object =
  membership_expiration_date :: time_point_sec
  instant_payback_expiration_date :: time_point_sec
  acct_registrar :: account_id_type
  acct_referrer :: account_id_type
  lifetime_referrer :: account_id_type
  network_fee_percentage :: nat
  lifetime_referrer_fee_percentage :: nat
  referrer_rewards_percentage :: nat
  acct_name :: string
  acct_owner :: authority
  acct_active :: authority
  acct_options :: account_options
  acct_statistics :: nat
  whitelisting_accounts :: "account_id_type list"
  whitelisted_accounts :: "account_id_type list"
  blacklisted_accounts :: "account_id_type list"
  blacklisting_accounts :: "account_id_type list"
  cashback_vb :: "nat option"
  acct_owner_special :: special_authority
  acct_active_special :: special_authority
  top_n_control_flags :: nat
  allowed_assets :: "asset_id_type list option"

record asset_dynamic_data_object =
  current_supply :: int
  confidential_supply :: int
  accumulated_fees :: int
  fee_pool :: int

record asset_object =
  asset_symbol :: string
  asset_precision :: nat
  asset_issuer :: account_id_type
  asset_opts :: asset_options
  dynamic_asset_data_id :: nat
  bitasset_data_id :: "nat option"
  buyback_account :: "account_id_type option"

record limit_order_object =
  lo_expiration :: time_point_sec
  lo_seller :: account_id_type
  for_sale :: int
  sell_price :: price
  deferred_fee :: int
  exchange_fee_receiver :: "account_id_type option"

record deflation_object =
  dfl_timestamp :: time_point_sec
  dfl_issuer :: account_id_type
  dfl_rate :: nat
  last_account :: account_id_type
  account_cursor :: account_id_type
  balance_cleared :: bool
  last_order :: nat
  order_cursor :: nat
  order_cleared :: bool
  total_amount :: int

record account_deflation_object =
  adf_obj_owner :: account_id_type
  adf_last_deflation_id :: nat
  adf_frozen :: int
  adf_cleared :: bool

record order_deflation_object =
  odf_obj_order :: nat
  odf_last_deflation_id :: nat
  odf_frozen :: int
  odf_cleared :: bool

record asset_bitasset_data_object =
  bit_options :: bitasset_options
  feeds :: "(account_id_type \<times> time_point_sec \<times> price_feed) list"
  current_feed :: price_feed
  current_feed_publication_time :: time_point_sec
  is_prediction_market :: bool
  force_settled_volume :: int
  bit_settlement_price :: price
  settlement_fund :: int

record call_order_object =
  borrower :: account_id_type
  collateral :: int
  debt :: int
  co_call_price :: price

record force_settlement_object =
  settle_owner :: account_id_type
  settle_balance :: asset
  settlement_date :: time_point_sec

record limit_order_fee_config_object =
  fee_receiver :: account_id_type
  fee_rates :: "((asset_id_type \<times> asset_id_type) \<times> nat \<times> nat) list"

text \<open>\<open>applied_ops\<close> is the list \<open>_applied_ops\<close> of operations for the observers of a block.\<close>

record ledger =
  accounts :: "account_object table"
  account_stats :: "account_statistics_object table"
  balances :: "((account_id_type \<times> asset_id_type) \<times> int) list"
  assets :: "asset_object table"
  asset_dynamic :: "asset_dynamic_data_object table"
  vesting_balances :: "vesting_balance_object table"
  limit_orders :: "limit_order_object table"
  deflations :: "deflation_object table"
  account_deflations :: "account_deflation_object table"
  order_deflations :: "order_deflation_object table"
  bitassets :: "asset_bitasset_data_object table"
  call_orders :: "call_order_object table"
  force_settlements :: "force_settlement_object table"
  order_fee_configs :: "limit_order_fee_config_object table"
  applied_ops :: "operation list"

type_synonym 'z chain = "'z ledger_scheme chain_state"

definition on_ledger :: "('z ledger_scheme \<Rightarrow> 'z ledger_scheme res) \<Rightarrow> 'z chain \<Rightarrow> 'z chain res" where
  "on_ledger f st = bindE (f (objects st)) (\<lambda>L. Inr (st\<lparr>objects := L\<rparr>))"

definition modify_account :: "nat \<Rightarrow> (account_object \<Rightarrow> account_object res) \<Rightarrow> 'z chain \<Rightarrow> 'z chain res" where
  "modify_account i f = on_ledger (\<lambda>L. bindE (tbl_modify i f (accounts L)) (\<lambda>t. Inr (L\<lparr>accounts := t\<rparr>)))"

definition modify_stats :: "nat \<Rightarrow> (account_statistics_object \<Rightarrow> account_statistics_object res) \<Rightarrow> 'z chain \<Rightarrow> 'z chain res" where
  "modify_stats i f = on_ledger (\<lambda>L. bindE (tbl_modify i f (account_stats L)) (\<lambda>t. Inr (L\<lparr>account_stats := t\<rparr>)))"

definition modify_dynamic :: "nat \<Rightarrow> (asset_dynamic_data_object \<Rightarrow> asset_dynamic_data_object res) \<Rightarrow> 'z chain \<Rightarrow> 'z chain res" where
  "modify_dynamic i f = on_ledger (\<lambda>L. bindE (tbl_modify i f (asset_dynamic L)) (\<lambda>t. Inr (L\<lparr>asset_dynamic := t\<rparr>)))"

definition modify_vesting :: "nat \<Rightarrow> (vesting_balance_object \<Rightarrow> vesting_balance_object res) \<Rightarrow> 'z chain \<Rightarrow> 'z chain res" where
  "modify_vesting i f = on_ledger (\<lambda>L. bindE (tbl_modify i f (vesting_balances L)) (\<lambda>t. Inr (L\<lparr>vesting_balances := t\<rparr>)))"

definition push_applied_operation :: "operation \<Rightarrow> 'z chain \<Rightarrow> 'z chain" where
  "push_applied_operation x st = st\<lparr>objects := objects st\<lparr>applied_ops := applied_ops (objects st) @ [x]\<rparr>\<rparr>"

subsection \<open>Memberships\<close>

definition time_point_sec_maximum :: time_point_sec where
  "time_point_sec_maximum = 2 ^ 32 - 1"

definition is_lifetime_member :: "account_object \<Rightarrow> bool" where
  "is_lifetime_member a \<longleftrightarrow> membership_expiration_date a = time_point_sec_maximum"

definition is_basic_account :: "time_point_sec \<Rightarrow> account_object \<Rightarrow> bool" where
  "is_basic_account now a \<longleftrightarrow> membership_expiration_date a < now"

definition is_annual_member :: "time_point_sec \<Rightarrow> account_object \<Rightarrow> bool" where
  "is_annual_member now a \<longleftrightarrow> \<not> is_lifetime_member a \<and> \<not> is_basic_account now a"

definition is_member :: "time_point_sec \<Rightarrow> account_object \<Rightarrow> bool" where
  "is_member now a \<longleftrightarrow> \<not> is_basic_account now a"

definition is_instant_payback :: "time_point_sec \<Rightarrow> account_object \<Rightarrow> bool" where
  "is_instant_payback now a \<longleftrightarrow> now < instant_payback_expiration_date a"

subsection \<open>Balances\<close>

definition get_balance :: "'z chain \<Rightarrow> account_id_type \<Rightarrow> asset_id_type \<Rightarrow> asset" where
  "get_balance st owner a =
     mk_asset (case map_of (balances (objects st)) (owner, a) of None \<Rightarrow> 0 | Some b \<Rightarrow> b) a"

definition adjust_balance :: "'e fc_env_scheme \<Rightarrow> account_id_type \<Rightarrow> asset \<Rightarrow> 'z chain \<Rightarrow> 'z chain res" where
  "adjust_balance E account delta st =
     (if amount delta = 0 then Inr st
      else let key = (account, asset_id delta); bs = balances (objects st) in
        case map_of bs key of
          None \<Rightarrow>
            bindE (assertE (0 < amount delta) ''Insufficient Balance'') (\<lambda>_.
            on_ledger (\<lambda>L. Inr (L\<lparr>balances := bs @ [(key, amount delta)]\<rparr>)) st)
        | Some b \<Rightarrow>
            bindE (if amount delta < 0
                   then bindE (asset_neg E delta) (\<lambda>needed.
                        bindE (asset_ge (mk_asset b (asset_id delta)) needed) (\<lambda>ok.
                        assertE ok ''Insufficient Balance''))
                   else Inr ()) (\<lambda>_.
            bindE (safe_add E b (amount delta)) (\<lambda>b'.
            on_ledger (\<lambda>L. Inr (L\<lparr>balances := AList.update key b' bs\<rparr>)) st)))"

text \<open>The initial coin-seconds are a product of two signed 64-bit numbers.\<close>

definition lazy_policy :: "'z chain \<Rightarrow> int \<Rightarrow> nat \<Rightarrow> bool \<Rightarrow> cdd_vesting_policy res" where
  "lazy_policy st amt req_vesting_seconds require_vesting =
     (let x = (if require_vesting then 0 else amt * int req_vesting_seconds) in
      if fc_int64 x
      then Inr \<lparr>vesting_seconds = req_vesting_seconds, coin_seconds_earned = word_of_int x, start_claim = 0,
                coin_seconds_earned_last_update = head_block_time st\<rparr>
      else throwE Undefined_behaviour)"

definition lazy_target :: "'z chain \<Rightarrow> nat option \<Rightarrow> nat \<Rightarrow> account_id_type \<Rightarrow> nat option res" where
  "lazy_target st ovbid req_vesting_seconds req_owner =
     (case ovbid of
        None \<Rightarrow> Inr None
      | Some i \<Rightarrow>
          bindE (tbl_get (vesting_balances (objects st)) i) (\<lambda>vbo.
          if vb_owner vbo \<noteq> req_owner then Inr None
          else case vb_policy vbo of
            Linear _ \<Rightarrow> Inr None
          | Cdd p \<Rightarrow> if vesting_seconds p \<noteq> req_vesting_seconds then Inr None else Inr (Some i)))"

definition deposit_lazy_vesting ::
    "'e fc_env_scheme \<Rightarrow> nat option \<Rightarrow> int \<Rightarrow> nat \<Rightarrow> account_id_type \<Rightarrow> bool \<Rightarrow> 'z chain \<Rightarrow> ('z chain \<times> nat option) res" where
  "deposit_lazy_vesting E ovbid amt req_vesting_seconds req_owner require_vesting st =
     (if amt = 0 then Inr (st, None)
      else let now = head_block_time st in
        bindE (lazy_target st ovbid req_vesting_seconds req_owner) (\<lambda>target.
        case target of
          Some i \<Rightarrow>
            bindE (modify_vesting i (\<lambda>v. if require_vesting then vb_deposit E now (mk_asset amt 0) v
                                         else vb_deposit_vested E now (mk_asset amt 0) v) st) (\<lambda>st.
            Inr (st, None))
        | None \<Rightarrow>
            bindE (lazy_policy st amt req_vesting_seconds require_vesting) (\<lambda>policy.
            let L = objects st;
                (i, t) = tbl_create \<lparr>vb_owner = req_owner, vb_balance = mk_asset amt 0, vb_policy = Cdd policy\<rparr>
                           (vesting_balances L)
            in Inr (st\<lparr>objects := L\<lparr>vesting_balances := t\<rparr>\<rparr>, Some i))))"

definition deposit_cashback ::
    "'e fc_env_scheme \<Rightarrow> account_id_type \<Rightarrow> int \<Rightarrow> bool \<Rightarrow> 'z chain \<Rightarrow> 'z chain res" where
  "deposit_cashback E acct amt require_vesting st =
     bindE (tbl_get (accounts (objects st)) acct) (\<lambda>a.
     if amt = 0 then Inr st
     else if acct = GRAPHENE_COMMITTEE_ACCOUNT \<or> acct = GRAPHENE_WITNESS_ACCOUNT \<or>
             acct = GRAPHENE_RELAXED_COMMITTEE_ACCOUNT \<or> acct = GRAPHENE_NULL_ACCOUNT \<or> acct = GRAPHENE_TEMP_ACCOUNT
     then bindE (tbl_get (assets (objects st)) 0) (\<lambda>core.
          modify_dynamic (dynamic_asset_data_id core)
            (\<lambda>d. bindE (safe_sub E (current_supply d) amt) (\<lambda>s. Inr (d\<lparr>current_supply := s\<rparr>))) st)
     else
       bindE (deposit_lazy_vesting E (cashback_vb a) amt
                (cashback_vesting_period_seconds (gpo_parameters (gpo st))) acct require_vesting st) (\<lambda>(st, new_vbid).
       case new_vbid of
         None \<Rightarrow> Inr st
       | Some i \<Rightarrow> modify_account acct (\<lambda>a. Inr (a\<lparr>cashback_vb := Some i\<rparr>)) st))"

definition deposit_witness_pay :: "'e fc_env_scheme \<Rightarrow> witness_id_type \<Rightarrow> int \<Rightarrow> 'z chain \<Rightarrow> 'z chain res" where
  "deposit_witness_pay E wit amt st =
     bindE (getE (witnesses st) wit) (\<lambda>w.
     if amt = 0 then Inr st
     else
       bindE (deposit_lazy_vesting E (pay_vb w) amt (witness_pay_vesting_seconds (gpo_parameters (gpo st)))
                (witness_account w) True st) (\<lambda>(st, new_vbid).
       case new_vbid of
         None \<Rightarrow> Inr st
       | Some i \<Rightarrow> modify_witness wit (\<lambda>w. w\<lparr>pay_vb := Some i\<rparr>) st))"

subsection \<open>Fees\<close>

definition cut_fee :: "'e fc_env_scheme \<Rightarrow> int \<Rightarrow> nat \<Rightarrow> int res" where
  "cut_fee E a p =
     (if a = 0 \<or> p = 0 then Inr 0
      else if p = GRAPHENE_100_PERCENT then Inr a
      else to_share E ((word_of_int a * word_of_nat p :: u128) div word_of_nat GRAPHENE_100_PERCENT))"

definition stat_pay_fee :: "'e fc_env_scheme \<Rightarrow> int \<Rightarrow> int \<Rightarrow> account_statistics_object \<Rightarrow> account_statistics_object res" where
  "stat_pay_fee E core_fee threshold s =
     (if threshold < core_fee
      then bindE (safe_add E (pending_fees s) core_fee) (\<lambda>f. Inr (s\<lparr>pending_fees := f\<rparr>))
      else bindE (safe_add E (pending_vested_fees s) core_fee) (\<lambda>f. Inr (s\<lparr>pending_vested_fees := f\<rparr>)))"

text \<open>The lambda of \<open>process_fees\<close>; its assertions only concern a debug build.\<close>

definition pay_out_fees :: "'e fc_env_scheme \<Rightarrow> account_id_type \<Rightarrow> int \<Rightarrow> bool \<Rightarrow> 'z chain \<Rightarrow> 'z chain res" where
  "pay_out_fees E acct core_fee_total require_vesting st =
     bindE (tbl_get (accounts (objects st)) acct) (\<lambda>account.
     bindE (tbl_get (accounts (objects st)) (acct_referrer account)) (\<lambda>ref.
     bindE (if is_basic_account (head_block_time st) ref
            then modify_account acct (\<lambda>a. Inr (a\<lparr>acct_referrer := lifetime_referrer a\<rparr>)) st else Inr st) (\<lambda>st.
     bindE (tbl_get (accounts (objects st)) acct) (\<lambda>account.
     bindE (cut_fee E core_fee_total (network_fee_percentage account)) (\<lambda>network_cut.
     bindE (cut_fee E core_fee_total (lifetime_referrer_fee_percentage account)) (\<lambda>lifetime_cut.
     bindE (bindE (safe_sub E core_fee_total network_cut) (\<lambda>x. safe_sub E x lifetime_cut)) (\<lambda>referral.
     bindE (modify_dynamic 0
              (\<lambda>d. bindE (safe_add E (accumulated_fees d) network_cut) (\<lambda>f. Inr (d\<lparr>accumulated_fees := f\<rparr>))) st) (\<lambda>st.
     bindE (cut_fee E referral (referrer_rewards_percentage account)) (\<lambda>referrer_cut.
     bindE (safe_sub E referral referrer_cut) (\<lambda>registrar_cut.
     bindE (deposit_cashback E (lifetime_referrer account) lifetime_cut require_vesting st) (\<lambda>st.
     bindE (deposit_cashback E (acct_referrer account) referrer_cut require_vesting st) (\<lambda>st.
     deposit_cashback E (acct_registrar account) registrar_cut require_vesting st))))))))))))"

definition process_fees :: "'e fc_env_scheme \<Rightarrow> nat \<Rightarrow> account_id_type \<Rightarrow> 'z chain \<Rightarrow> 'z chain res" where
  "process_fees E stat acct st =
     bindE (tbl_get (account_stats (objects st)) stat) (\<lambda>s.
     if 0 < pending_fees s \<or> 0 < pending_vested_fees s then
       bindE (pay_out_fees E acct (pending_fees s) True st) (\<lambda>st.
       bindE (pay_out_fees E acct (pending_vested_fees s) False st) (\<lambda>st.
       modify_stats stat (\<lambda>s.
         bindE (safe_add E (pending_fees s) (pending_vested_fees s)) (\<lambda>sum.
         bindE (safe_add E (lifetime_fees_paid s) sum) (\<lambda>paid.
         Inr (s\<lparr>lifetime_fees_paid := paid, pending_fees := 0, pending_vested_fees := 0\<rparr>)))) st))
     else Inr st)"

end
