(* ===== verification/Conservation.thy ===== *)
theory Conservation
  imports Ledger
begin

text \<open>
  Where the shares of an asset are, and how the operations of \<open>Ledger\<close> move them.

  \<open>held\<close> adds up what the ledger holds of an asset: balances, vesting balances, limit orders
  with their deferred fees, accumulated fees, collateral, settlements and settlement funds and,
  for the core asset, fee pools, fees that are not yet paid out and the amounts frozen or
  destroyed by deflation. \<open>gap\<close> is the part of the current supply that is not in these places. An operation conserves shares when it leaves the
  gap of every asset as it is; \<open>moves\<close> states by how much an operation closes it, and is
  closed under sequencing.
\<close>

subsection \<open>Sums over association lists\<close>

lemma sum_update:
  fixes g :: "'k \<times> 'v \<Rightarrow> int"
  assumes "distinct (map fst xs)" and "map_of xs k = Some v"
  shows "sum_list (map g (AList.update k w xs)) = sum_list (map g xs) - g (k, v) + g (k, w)"
  using assms
proof (induction xs)
  case (Cons x xs)
  obtain k' v' where x: "x = (k', v')" by fastforce
  show ?case
  proof (cases "k' = k")
    case True
    then show ?thesis using Cons.prems x by simp
  next
    case False
    then show ?thesis using Cons x by simp
  qed
qed simp

definition tsum :: "('v \<Rightarrow> int) \<Rightarrow> 'v table \<Rightarrow> int" where
  "tsum f t = sum_list (map (\<lambda>(i, v). f v) (rows t))"

definition tbl_wf :: "'v table \<Rightarrow> bool" where
  "tbl_wf t \<longleftrightarrow> distinct (map fst (rows t)) \<and> list_all (\<lambda>(i, v). i < next_instance t) (rows t)"

lemma tbl_modify_Inr [res_simps]:
  "tbl_modify i f t = Inr t' \<longleftrightarrow>
    (\<exists>v w. tbl_find t i = Some v \<and> f v = Inr w \<and> t' = t\<lparr>rows := AList.update i w (rows t)\<rparr>)"
  by (auto simp: tbl_modify_def tbl_get_def res_simps)

lemma tbl_get_Inr [res_simps]: "tbl_get t i = Inr v \<longleftrightarrow> tbl_find t i = Some v"
  by (simp add: tbl_get_def res_simps)

lemma tbl_find_update [simp]: "tbl_find (t\<lparr>rows := AList.update i w (rows t)\<rparr>) = (tbl_find t)(i \<mapsto> w)"
  by (simp add: tbl_find_def fun_eq_iff)

lemma tsum_update:
  assumes "tbl_wf t" and "tbl_find t i = Some v"
  shows "tsum f (t\<lparr>rows := AList.update i w (rows t)\<rparr>) = tsum f t - f v + f w"
  using sum_update [of "rows t" i v "\<lambda>(i, v). f v" w] assms by (simp add: tsum_def tbl_wf_def tbl_find_def)

lemma tbl_wf_update:
  assumes "tbl_wf t" and "tbl_find t i = Some v"
  shows "tbl_wf (t\<lparr>rows := AList.update i w (rows t)\<rparr>)"
proof -
  have "fst ` set (AList.update i w (rows t)) = fst ` set (rows t)"
    using assms(2) by (auto simp: AList.update_keys dom_update tbl_find_def dest: map_of_SomeD)
      (metis AList.dom_update dom_map_of_conv_image_fst insert_absorb map_of_SomeD image_eqI fst_conv insertE)+
  then have "\<forall>j\<in>fst ` set (AList.update i w (rows t)). j < next_instance t"
    using assms(1) by (auto simp: tbl_wf_def list_all_iff)
  then show ?thesis
    using assms(1) distinct_keys_update by (fastforce simp: tbl_wf_def list_all_iff)
qed

lemma tbl_create_eq:
  "tbl_create v t = (i, t') \<longleftrightarrow>
    i = next_instance t \<and> t' = t\<lparr>rows := rows t @ [(next_instance t, v)], next_instance := next_instance t + 1\<rparr>"
  by (auto simp: tbl_create_def)

lemma tsum_create: "tbl_create v t = (i, t') \<Longrightarrow> tsum f t' = tsum f t + f v"
  by (auto simp: tbl_create_def tsum_def)

lemma tbl_wf_create: "tbl_wf t \<Longrightarrow> tbl_create v t = (i, t') \<Longrightarrow> tbl_wf t'"
  by (fastforce simp: tbl_create_def tbl_wf_def list_all_iff)

lemma tbl_wf_empty [simp]: "tbl_wf empty_table" "tsum f empty_table = 0" "tbl_find empty_table i = None"
  by (simp_all add: tbl_wf_def empty_table_def tsum_def tbl_find_def)

subsection \<open>Where the shares are\<close>

definition balances_of :: "asset_id_type \<Rightarrow> 'z ledger_scheme \<Rightarrow> int" where
  "balances_of a L = sum_list (map (\<lambda>((owner, a'), b). if a' = a then b else 0) (balances L))"

definition amount_in :: "asset_id_type \<Rightarrow> asset \<Rightarrow> int" where
  "amount_in a x = (if asset_id x = a then amount x else 0)"

definition vesting_of :: "asset_id_type \<Rightarrow> 'z ledger_scheme \<Rightarrow> int" where
  "vesting_of a L = tsum (\<lambda>v. amount_in a (vb_balance v)) (vesting_balances L)"

definition order_holds :: "asset_id_type \<Rightarrow> limit_order_object \<Rightarrow> int" where
  "order_holds a x = (if asset_id (base (sell_price x)) = a then for_sale x else 0) + (if a = 0 then deferred_fee x else 0)"

definition orders_of :: "asset_id_type \<Rightarrow> 'z ledger_scheme \<Rightarrow> int" where
  "orders_of a L = tsum (order_holds a) (limit_orders L)"

definition of_dynamic :: "(asset_dynamic_data_object \<Rightarrow> int) \<Rightarrow> asset_id_type \<Rightarrow> 'z ledger_scheme \<Rightarrow> int" where
  "of_dynamic f a L = (case tbl_find (asset_dynamic L) a of None \<Rightarrow> 0 | Some d \<Rightarrow> f d)"

definition core_of :: "'z ledger_scheme \<Rightarrow> int" where
  "core_of L = tsum fee_pool (asset_dynamic L) +
     tsum (\<lambda>s. pending_fees s + pending_vested_fees s) (account_stats L) +
     tsum total_amount (deflations L) + tsum adf_frozen (account_deflations L) + tsum odf_frozen (order_deflations L)"

definition collateral_in :: "asset_id_type \<Rightarrow> call_order_object \<Rightarrow> int" where
  "collateral_in a c = (if asset_id (base (co_call_price c)) = a then collateral c else 0)"

definition fund_in :: "asset_id_type \<Rightarrow> asset_bitasset_data_object \<Rightarrow> int" where
  "fund_in a b = (if short_backing_asset (bit_options b) = a then settlement_fund b else 0)"

definition settling_in :: "asset_id_type \<Rightarrow> force_settlement_object \<Rightarrow> int" where
  "settling_in a s = amount_in a (settle_balance s)"

definition margin_of :: "asset_id_type \<Rightarrow> 'z ledger_scheme \<Rightarrow> int" where
  "margin_of a L = tsum (collateral_in a) (call_orders L) + tsum (settling_in a) (force_settlements L) +
     tsum (fund_in a) (bitassets L)"

definition held :: "asset_id_type \<Rightarrow> 'z ledger_scheme \<Rightarrow> int" where
  "held a L = balances_of a L + vesting_of a L + orders_of a L + of_dynamic accumulated_fees a L + margin_of a L +
     (if a = 0 then core_of L else 0)"

definition gap :: "asset_id_type \<Rightarrow> 'z chain \<Rightarrow> int" where
  "gap a st = of_dynamic current_supply a (objects st) - held a (objects st)"

text \<open>
  An asset and its dynamic data have the same instance number, as they are created together. An
  amount is frozen only for an account or an order that was cleared ahead of its turn.
\<close>

definition ledger_wf :: "'z ledger_scheme \<Rightarrow> bool" where
  "ledger_wf L \<longleftrightarrow> distinct (map fst (balances L)) \<and> tbl_wf (accounts L) \<and> tbl_wf (account_stats L) \<and>
     tbl_wf (asset_dynamic L) \<and> tbl_wf (vesting_balances L) \<and> tbl_wf (limit_orders L) \<and> tbl_wf (deflations L) \<and>
     tbl_wf (account_deflations L) \<and> tbl_wf (order_deflations L) \<and>
     tbl_wf (bitassets L) \<and> tbl_wf (call_orders L) \<and> tbl_wf (force_settlements L) \<and>
     list_all (\<lambda>(i, x). dynamic_asset_data_id x = i) (rows (assets L)) \<and>
     list_all (\<lambda>(i, x). adf_cleared x \<or> adf_frozen x = 0) (rows (account_deflations L)) \<and>
     list_all (\<lambda>(i, x). odf_cleared x \<or> odf_frozen x = 0) (rows (order_deflations L))"

definition no_debt :: "'z ledger_scheme \<Rightarrow> bool" where
  "no_debt L \<longleftrightarrow> list_all (\<lambda>(k, b). 0 \<le> b \<and> fc_int64 b) (balances L)"

lemmas held_defs = gap_def held_def vesting_of_def orders_of_def of_dynamic_def core_of_def margin_of_def

definition moves :: "(asset_id_type \<Rightarrow> int) \<Rightarrow> 'z chain \<Rightarrow> 'z chain res \<Rightarrow> bool" where
  "moves d st r \<longleftrightarrow> (ledger_wf (objects st) \<longrightarrow>
     (\<forall>st'. r = Inr st' \<longrightarrow> ledger_wf (objects st') \<and> (\<forall>a. gap a st' = gap a st - d a)))"

lemma movesI:
  assumes "\<And>st'. ledger_wf (objects st) \<Longrightarrow> r = Inr st' \<Longrightarrow> ledger_wf (objects st')"
    and "\<And>st' a. ledger_wf (objects st) \<Longrightarrow> r = Inr st' \<Longrightarrow> gap a st' = gap a st - d a"
  shows "moves d st r"
  using assms by (auto simp: moves_def)

lemma moves_return: "d = (\<lambda>_. 0) \<Longrightarrow> moves d st (Inr st)"
  by (simp add: moves_def)

lemma moves_throw [simp]: "moves d st (Inl e)" "moves d st (throwE e)"
  by (simp_all add: moves_def throwE_def)

lemma moves_result: "moves d st r \<Longrightarrow> r = Inr st' \<Longrightarrow> ledger_wf (objects st) \<Longrightarrow>
  ledger_wf (objects st') \<and> (\<forall>a. gap a st' = gap a st - d a)"
  by (simp add: moves_def)

lemma moves_bind:
  assumes "moves d1 st m" and "\<And>st'. m = Inr st' \<Longrightarrow> moves d2 st' (f st')"
    and "\<And>a. d a = d1 a + d2 a"
  shows "moves d st (bindE m f)"
proof (rule movesI)
  fix st'' assume wf: "ledger_wf (objects st)" and "bindE m f = Inr st''"
  then obtain st' where m: "m = Inr st'" and f: "f st' = Inr st''" by (auto simp: res_simps)
  have 1: "ledger_wf (objects st') \<and> (\<forall>a. gap a st' = gap a st - d1 a)" by (rule moves_result [OF assms(1) m wf])
  have 2: "ledger_wf (objects st'') \<and> (\<forall>a. gap a st'' = gap a st' - d2 a)"
    by (rule moves_result [OF assms(2) [OF m] f]) (use 1 in blast)
  show "ledger_wf (objects st'')" using 2 by blast
  show "gap a st'' = gap a st - d a" for a using 1 2 assms(3) by simp
qed

lemma moves_cong: "moves d st r \<Longrightarrow> (\<And>a. d' a = d a) \<Longrightarrow> moves d' st r"
  by (simp add: moves_def)

lemma moves_check: "(\<And>x. m = Inr x \<Longrightarrow> moves d st (f x)) \<Longrightarrow> moves d st (bindE m f)"
  by (cases m) simp_all

lemma on_ledger_Inr [res_simps]: "on_ledger f st = Inr st' \<longleftrightarrow> (\<exists>L. f (objects st) = Inr L \<and> st' = st\<lparr>objects := L\<rparr>)"
  by (auto simp: on_ledger_def res_simps)

subsection \<open>Balances\<close>

lemma balances_of_update:
  assumes "distinct (map fst (balances L))" and "map_of (balances L) (owner, a') = Some b"
  shows "balances_of a (L\<lparr>balances := AList.update (owner, a') b' (balances L)\<rparr>) =
    balances_of a L + (if a = a' then b' - b else 0)"
  using sum_update [OF assms, of "\<lambda>((owner, a'), b). if a' = a then b else 0" b'] by (simp add: balances_of_def)

lemma gap_balances: "gap a (st\<lparr>objects := objects st\<lparr>balances := bs\<rparr>\<rparr>) =
  gap a st + balances_of a (objects st) - balances_of a (objects st\<lparr>balances := bs\<rparr>)"
  by (simp add: held_defs)

lemma adjust_balance_cases:
  assumes "adjust_balance E account delta st = Inr st'" and "amount delta \<noteq> 0"
  obtains (new) "map_of (balances (objects st)) (account, asset_id delta) = None" "0 < amount delta"
      "st' = st\<lparr>objects := objects st\<lparr>balances := balances (objects st) @ [((account, asset_id delta), amount delta)]\<rparr>\<rparr>"
  | (old) b where "map_of (balances (objects st)) (account, asset_id delta) = Some b" "0 < amount delta \<or> 0 \<le> b + amount delta"
      "st' = st\<lparr>objects := objects st\<lparr>balances := AList.update (account, asset_id delta) (b + amount delta) (balances (objects st))\<rparr>\<rparr>"
proof (cases "map_of (balances (objects st)) (account, asset_id delta)")
  case None
  then show ?thesis using assms new by (auto simp: adjust_balance_def Let_def res_simps)
next
  case (Some b)
  have "0 < amount delta \<or> 0 \<le> b + amount delta"
    using assms Some
    by (auto simp: adjust_balance_def Let_def res_simps asset_neg_def asset_ge_def asset_less_def mk_asset_def split: if_splits)
  moreover have "st' = st\<lparr>objects := objects st\<lparr>balances :=
      AList.update (account, asset_id delta) (b + amount delta) (balances (objects st))\<rparr>\<rparr>"
    using assms Some by (auto simp: adjust_balance_def Let_def res_simps split: if_splits)
  ultimately show ?thesis using old Some by blast
qed

lemma moves_adjust_balance: "moves (\<lambda>a. amount_in a delta) st (adjust_balance E account delta st)"
proof (cases "amount delta = 0")
  case True
  then show ?thesis by (auto simp: adjust_balance_def amount_in_def intro!: moves_return)
next
  case nz: False
  have "ledger_wf (objects st') \<and> gap a st' = gap a st - amount_in a delta"
    if wf: "ledger_wf (objects st)" and ok: "adjust_balance E account delta st = Inr st'" for st' a
    using ok nz
  proof (cases rule: adjust_balance_cases)
    case new
    have "(account, asset_id delta) \<notin> fst ` set (balances (objects st))" using new(1) by (simp add: map_of_eq_None_iff)
    then show ?thesis using wf unfolding new(3) by (simp add: gap_balances balances_of_def amount_in_def ledger_wf_def)
  next
    case (old b)
    have d: "distinct (map fst (balances (objects st)))" using wf by (simp add: ledger_wf_def)
    show ?thesis
      using wf distinct_keys_update [OF d] unfolding old(3)
      by (simp add: gap_balances balances_of_update [OF d old(1)] amount_in_def ledger_wf_def)
  qed
  then show ?thesis by (blast intro: movesI)
qed

lemma list_all_update: "list_all Q xs \<Longrightarrow> Q (k, v) \<Longrightarrow> list_all Q (AList.update k v xs)"
  by (induction xs) auto

text \<open>
  An adjustment of a balance by an amount succeeds exactly when the new balance is neither
  negative nor over 63 bits (or the amount is zero); it changes the balance of that account and
  asset by the amount and no other balance; and balances stay non-negative.
\<close>

theorem adjust_balance_correct:
  fixes account :: account_id_type
  assumes E: "fc_contract E" and nd: "no_debt (objects st)" and d: "fc_int64 (amount delta)"
  defines "b \<equiv> amount (get_balance st account (asset_id delta))"
  shows "case adjust_balance E account delta st of
      Inl _ \<Rightarrow> amount delta \<noteq> 0 \<and> (b + amount delta < 0 \<or> 2 ^ 63 \<le> b + amount delta)
    | Inr st' \<Rightarrow> no_debt (objects st') \<and> (amount delta = 0 \<or> 0 \<le> b + amount delta \<and> b + amount delta < 2 ^ 63) \<and>
        get_balance st' = (\<lambda>owner a. if owner = account \<and> a = asset_id delta
          then mk_asset (b + amount delta) a else get_balance st owner a)"
proof (cases "amount delta = 0")
  case True
  then show ?thesis using nd by (auto simp: adjust_balance_def b_def get_balance_def mk_asset_def fun_eq_iff)
next
  case nz: False
  let ?k = "(account, asset_id delta)" and ?bs = "balances (objects st)"
  have safe: "fc_safe E = fc_int64" using E by (simp add: fc_contract_def fun_eq_iff)
  show ?thesis
  proof (cases "map_of ?bs ?k")
    case None
    then have b: "b = 0" by (simp add: b_def get_balance_def mk_asset_def)
    show ?thesis
    proof (cases "0 < amount delta")
      case True
      then have "adjust_balance E account delta st = Inr (st\<lparr>objects := objects st\<lparr>balances := ?bs @ [(?k, amount delta)]\<rparr>\<rparr>)"
        using None by (simp add: adjust_balance_def on_ledger_def)
      moreover have "map_of (?bs @ [(?k, amount delta)]) = (map_of ?bs)(?k \<mapsto> amount delta)"
        using None by (simp add: map_add_def fun_eq_iff split: option.splits)
      ultimately show ?thesis
        using True nd d b by (simp add: no_debt_def fc_int64_def get_balance_def fun_eq_iff del: map_of_append)
    next
      case False
      then have "adjust_balance E account delta st = Inl (Assert_exception ''Insufficient Balance'')"
        using None nz by (simp add: adjust_balance_def assertE_def)
      then show ?thesis using False nz b by simp
    qed
  next
    case (Some c)
    then have b: "b = c" and c: "0 \<le> c" "fc_int64 c"
      using nd map_of_SomeD [OF Some] by (auto simp: b_def get_balance_def mk_asset_def no_debt_def list_all_iff)
    show ?thesis
    proof (cases "0 \<le> c + amount delta \<and> c + amount delta < 2 ^ 63")
      case True
      have "adjust_balance E account delta st =
          Inr (st\<lparr>objects := objects st\<lparr>balances := AList.update ?k (c + amount delta) ?bs\<rparr>\<rparr>)"
        using Some nz True c d
        by (simp add: adjust_balance_def on_ledger_def safe_add_def safe fc_int64_def asset_neg_def safe_neg_def
            asset_ge_def asset_less_def mk_asset_def)
      moreover have "no_debt (objects st\<lparr>balances := AList.update ?k (c + amount delta) ?bs\<rparr>)"
        using nd True by (simp add: no_debt_def list_all_update fc_int64_def)
      ultimately show ?thesis using True b by (simp add: get_balance_def fun_eq_iff)
    next
      case False
      then have "\<exists>e. adjust_balance E account delta st = Inl e"
        using Some nz c d
        by (auto simp: adjust_balance_def on_ledger_def safe_add_def safe fc_int64_def asset_neg_def safe_neg_def
            asset_ge_def asset_less_def mk_asset_def assertE_def)
      then show ?thesis using False nz b by auto
    qed
  qed
qed

subsection \<open>Changes of single objects\<close>

definition only_core :: "int \<Rightarrow> asset_id_type \<Rightarrow> int" where
  "only_core x a = (if a = 0 then x else 0)"

lemma amount_in_core: "amount_in a (mk_asset x 0) = only_core x a"
  by (simp add: amount_in_def mk_asset_def only_core_def)


lemma gap_field:
  "gap a (st\<lparr>objects := objects st\<lparr>accounts := t1\<rparr>\<rparr>) = gap a st"
  "gap a (st\<lparr>objects := objects st\<lparr>account_stats := t2\<rparr>\<rparr>) = gap a st +
     (if a = 0 then tsum (\<lambda>s. pending_fees s + pending_vested_fees s) (account_stats (objects st)) -
       tsum (\<lambda>s. pending_fees s + pending_vested_fees s) t2 else 0)"
  "gap a (st\<lparr>objects := objects st\<lparr>vesting_balances := t3\<rparr>\<rparr>) = gap a st +
     tsum (\<lambda>v. amount_in a (vb_balance v)) (vesting_balances (objects st)) - tsum (\<lambda>v. amount_in a (vb_balance v)) t3"
  "gap a (st\<lparr>objects := objects st\<lparr>limit_orders := t4\<rparr>\<rparr>) = gap a st +
     tsum (order_holds a) (limit_orders (objects st)) - tsum (order_holds a) t4"
  "gap a (st\<lparr>objects := objects st\<lparr>deflations := t5\<rparr>\<rparr>) = gap a st +
     (if a = 0 then tsum total_amount (deflations (objects st)) - tsum total_amount t5 else 0)"
  "gap a (st\<lparr>objects := objects st\<lparr>account_deflations := t6\<rparr>\<rparr>) = gap a st +
     (if a = 0 then tsum adf_frozen (account_deflations (objects st)) - tsum adf_frozen t6 else 0)"
  "gap a (st\<lparr>objects := objects st\<lparr>order_deflations := t7\<rparr>\<rparr>) = gap a st +
     (if a = 0 then tsum odf_frozen (order_deflations (objects st)) - tsum odf_frozen t7 else 0)"
  "gap a (st\<lparr>objects := objects st\<lparr>bitassets := t8\<rparr>\<rparr>) = gap a st + tsum (fund_in a) (bitassets (objects st)) - tsum (fund_in a) t8"
  "gap a (st\<lparr>objects := objects st\<lparr>call_orders := t9\<rparr>\<rparr>) = gap a st +
     tsum (collateral_in a) (call_orders (objects st)) - tsum (collateral_in a) t9"
  "gap a (st\<lparr>objects := objects st\<lparr>force_settlements := t10\<rparr>\<rparr>) = gap a st +
     tsum (settling_in a) (force_settlements (objects st)) - tsum (settling_in a) t10"
  "gap a (st\<lparr>objects := objects st\<lparr>order_fee_configs := t11\<rparr>\<rparr>) = gap a st"
  "gap a (st\<lparr>objects := objects st\<lparr>applied_ops := t12\<rparr>\<rparr>) = gap a st"
  by (simp_all add: held_defs balances_of_def)

lemma gap_chain_fields [simp]:
  "gap a (st\<lparr>witnesses := w\<rparr>) = gap a st" "gap a (st\<lparr>dgpo := g\<rparr>) = gap a st"
  by (simp_all add: gap_def)

lemma moves_modify_account: "moves (\<lambda>_. 0) st (modify_account i f st)"
  by (rule movesI) (auto simp: modify_account_def res_simps gap_field ledger_wf_def tbl_wf_update)

lemma moves_modify_stats:
  assumes "\<And>s s'. tbl_find (account_stats (objects st)) i = Some s \<Longrightarrow> f s = Inr s' \<Longrightarrow>
    pending_fees s' + pending_vested_fees s' = pending_fees s + pending_vested_fees s + c"
  shows "moves (only_core c) st (modify_stats i f st)"
proof (rule movesI)
  fix st' assume wf: "ledger_wf (objects st)" and ok: "modify_stats i f st = Inr st'"
  let ?t = "account_stats (objects st)"
  obtain s s' where s: "tbl_find ?t i = Some s" "f s = Inr s'"
      and st': "st' = st\<lparr>objects := objects st\<lparr>account_stats := ?t\<lparr>rows := AList.update i s' (rows ?t)\<rparr>\<rparr>\<rparr>"
    using ok by (auto simp: modify_stats_def res_simps)
  have t: "tbl_wf ?t" using wf by (simp add: ledger_wf_def)
  show "ledger_wf (objects st')" using wf tbl_wf_update [OF t s(1)] by (simp add: st' ledger_wf_def)
  show "gap a st' = gap a st - only_core c a" for a
    using assms [OF s] by (simp add: st' gap_field tsum_update [OF t s(1)] only_core_def)
qed

lemma moves_modify_vesting:
  assumes "\<And>v v' a. tbl_find (vesting_balances (objects st)) i = Some v \<Longrightarrow> f v = Inr v' \<Longrightarrow>
    amount_in a (vb_balance v') = amount_in a (vb_balance v) + d a"
  shows "moves d st (modify_vesting i f st)"
  by (rule movesI)
    (auto simp: modify_vesting_def res_simps gap_field ledger_wf_def tbl_wf_update tsum_update assms)

lemma gap_dynamic:
  "gap a (st\<lparr>objects := objects st\<lparr>asset_dynamic := t\<rparr>\<rparr>) = gap a st +
     (case tbl_find t a of None \<Rightarrow> 0 | Some d \<Rightarrow> current_supply d - accumulated_fees d) -
     (case tbl_find (asset_dynamic (objects st)) a of None \<Rightarrow> 0 | Some d \<Rightarrow> current_supply d - accumulated_fees d) +
     (if a = 0 then tsum fee_pool (asset_dynamic (objects st)) - tsum fee_pool t else 0)"
  by (simp add: held_defs balances_of_def split: option.splits)

lemma moves_modify_dynamic:
  assumes "\<And>d d'. tbl_find (asset_dynamic (objects st)) i = Some d \<Longrightarrow> f d = Inr d' \<Longrightarrow>
    current_supply d' = current_supply d + s \<and> accumulated_fees d' = accumulated_fees d + c \<and> fee_pool d' = fee_pool d + p"
  shows "moves (\<lambda>a. (if a = i then c - s else 0) + (if a = 0 then p else 0)) st (modify_dynamic i f st)"
proof (rule movesI)
  fix st' assume wf: "ledger_wf (objects st)" and ok: "modify_dynamic i f st = Inr st'"
  let ?t = "asset_dynamic (objects st)"
  obtain d d' where d: "tbl_find ?t i = Some d" "f d = Inr d'"
      and st': "st' = st\<lparr>objects := objects st\<lparr>asset_dynamic := ?t\<lparr>rows := AList.update i d' (rows ?t)\<rparr>\<rparr>\<rparr>"
    using ok by (auto simp: modify_dynamic_def res_simps)
  have t: "tbl_wf ?t" using wf by (simp add: ledger_wf_def)
  note d' = assms [OF d]
  show "ledger_wf (objects st')" using wf tbl_wf_update [OF t d(1)] by (simp add: st' ledger_wf_def)
  show "gap a st' = gap a st - ((if a = i then c - s else 0) + (if a = 0 then p else 0))" for a
    using d' d(1) by (auto simp: st' gap_dynamic tsum_update [OF t d(1)])
qed

subsection \<open>Deposits\<close>

lemma vb_deposit_amount:
  assumes "vb_deposit E now x v = Inr v' \<or> vb_deposit_vested E now x v = Inr v'"
  shows "amount_in a (vb_balance v') = amount_in a (vb_balance v) + amount_in a x"
  using assms by (auto simp: vb_deposit_def vb_deposit_vested_def asset_plus_def res_simps amount_in_def mk_asset_def)

lemma vb_withdraw_amount:
  assumes "vb_withdraw E now x v = Inr v'"
  shows "amount_in a (vb_balance v') = amount_in a (vb_balance v) - amount_in a x"
  using assms by (auto simp: vb_withdraw_def asset_minus_def res_simps amount_in_def mk_asset_def)

lemma moves_create_vesting:
  assumes "tbl_create v (vesting_balances (objects st)) = (i, t)" and "\<And>a. d a = amount_in a (vb_balance v)"
  shows "moves d st (Inr (st\<lparr>objects := objects st\<lparr>vesting_balances := t\<rparr>\<rparr>))"
  using assms(2) tsum_create [OF assms(1)] tbl_wf_create [OF _ assms(1)]
  by (intro movesI) (auto simp: gap_field ledger_wf_def)

lemma moves_lazy_vesting:
  "moves (only_core amt) st (map_sum id fst (deposit_lazy_vesting E ovbid amt secs owner req st))"
proof (cases "amt = 0")
  case True
  then show ?thesis by (auto simp: deposit_lazy_vesting_def only_core_def intro!: moves_return)
next
  case False
  show ?thesis
  proof (rule movesI)
    fix st' assume wf: "ledger_wf (objects st)"
      and ok: "map_sum id fst (deposit_lazy_vesting E ovbid amt secs owner req st) = Inr st'"
    then obtain new where new: "deposit_lazy_vesting E ovbid amt secs owner req st = Inr (st', new)"
      by (cases "deposit_lazy_vesting E ovbid amt secs owner req st") auto
    have m: "moves (only_core amt) st (Inr st')"
    proof (cases "lazy_target st ovbid secs owner")
      case (Inl e)
      then show ?thesis using new False by (simp add: deposit_lazy_vesting_def Let_def)
    next
      case (Inr target)
      show ?thesis
      proof (cases target)
        case None
        then obtain policy where st': "st' = st\<lparr>objects := objects st\<lparr>vesting_balances :=
            snd (tbl_create \<lparr>vb_owner = owner, vb_balance = mk_asset amt 0, vb_policy = Cdd policy\<rparr> (vesting_balances (objects st)))\<rparr>\<rparr>"
          using new False Inr by (auto simp: deposit_lazy_vesting_def Let_def res_simps case_prod_beta)
        show ?thesis unfolding st' by (rule moves_create_vesting [OF surjective_pairing]) (simp add: amount_in_core)
      next
        case (Some i)
        let ?f = "\<lambda>v. if req then vb_deposit E (head_block_time st) (mk_asset amt 0) v
          else vb_deposit_vested E (head_block_time st) (mk_asset amt 0) v"
        have "modify_vesting i ?f st = Inr st'"
          using new False Inr Some by (auto simp: deposit_lazy_vesting_def Let_def res_simps)
        moreover have "moves (only_core amt) st (modify_vesting i ?f st)"
          by (rule moves_modify_vesting) (auto simp: amount_in_core [symmetric] intro!: vb_deposit_amount split: if_splits)
        ultimately show ?thesis by simp
      qed
    qed
    show "ledger_wf (objects st')" using moves_result [OF m refl wf] by blast
    show "gap a st' = gap a st - only_core amt a" for a using moves_result [OF m refl wf] by blast
  qed
qed

lemma moves_deposit_cashback: 
  assumes wf: "ledger_wf (objects st)"
  shows "moves (only_core amt) st (deposit_cashback E acct amt req st)"
proof -
  have core: "dynamic_asset_data_id core = 0" if "tbl_find (assets (objects st)) 0 = Some core" for core
    using wf that by (auto simp: ledger_wf_def list_all_iff tbl_find_def dest!: map_of_SomeD)
  have "moves (only_core amt) st (modify_dynamic 0
      (\<lambda>d. bindE (safe_sub E (current_supply d) amt) (\<lambda>s. Inr (d\<lparr>current_supply := s\<rparr>))) st)"
    by (rule moves_cong [OF moves_modify_dynamic [where s = "- amt" and c = 0 and p = 0]])
      (auto simp: res_simps only_core_def)
  moreover have "moves (only_core amt) st (bindE (deposit_lazy_vesting E ov amt secs acct req st) (\<lambda>(st, new_vbid).
       case new_vbid of
         None \<Rightarrow> Inr st
       | Some i \<Rightarrow> modify_account acct (\<lambda>a. Inr (a\<lparr>cashback_vb := Some i\<rparr>)) st))" for ov secs
  proof (cases "deposit_lazy_vesting E ov amt secs acct req st")
    case (Inr r)
    obtain st' new where r: "r = (st', new)" by fastforce
    have "moves (only_core amt) st (Inr st')" using moves_lazy_vesting [of amt st E ov secs acct req] by (simp add: Inr r)
    then have "moves (only_core amt) st (bindE (Inr st') (\<lambda>st. case new of None \<Rightarrow> Inr st
         | Some i \<Rightarrow> modify_account acct (\<lambda>a. Inr (a\<lparr>cashback_vb := Some i\<rparr>)) st))"
      by (rule moves_bind [where ?d2.0 = "\<lambda>_. 0"])
        (auto intro: moves_modify_account moves_return split: option.splits)
    then show ?thesis by (simp add: Inr r)
  qed simp
  ultimately show ?thesis
    unfolding deposit_cashback_def
    by (auto intro!: moves_check moves_return simp: res_simps core only_core_def fun_eq_iff)
qed

lemma moves_wf: "(ledger_wf (objects st) \<Longrightarrow> moves d st r) \<Longrightarrow> moves d st r"
  by (auto simp: moves_def)

subsection \<open>Paying out fees\<close>

lemma moves_pay_out_fees: "moves (only_core tot) st (pay_out_fees E acct tot req st)"
proof -
  have dyn: "moves (only_core x) st (modify_dynamic 0
      (\<lambda>d. bindE (safe_add E (accumulated_fees d) x) (\<lambda>f. Inr (d\<lparr>accumulated_fees := f\<rparr>))) st)" for x and st :: "'a chain"
    by (rule moves_cong [OF moves_modify_dynamic [where s = 0 and c = x and p = 0]]) (auto simp: res_simps only_core_def)
  have cash: "moves (only_core x) st (deposit_cashback E i x req st)" for x i and st :: "'a chain"
    by (rule moves_wf) (rule moves_deposit_cashback)
  have three: "moves (only_core (x + y + z)) st (bindE (deposit_cashback E i x req st) (\<lambda>st.
      bindE (deposit_cashback E j y req st) (deposit_cashback E k z req)))" for x y z i j k and st :: "'a chain"
    by (rule moves_bind [OF cash moves_bind [OF cash cash], where d = "only_core (x + y + z)"]) (auto simp: only_core_def)
  have rest: "moves (only_core tot) st (bindE (bindE (safe_sub E tot n) (\<lambda>x. safe_sub E x l)) (\<lambda>referral.
     bindE (modify_dynamic 0 (\<lambda>d. bindE (safe_add E (accumulated_fees d) n) (\<lambda>f. Inr (d\<lparr>accumulated_fees := f\<rparr>))) st) (\<lambda>st.
     bindE (cut_fee E referral q) (\<lambda>referrer_cut.
     bindE (safe_sub E referral referrer_cut) (\<lambda>registrar_cut.
     bindE (deposit_cashback E i l req st) (\<lambda>st.
     bindE (deposit_cashback E j referrer_cut req st) (deposit_cashback E k registrar_cut req)))))))"
    for n l q i j k and st :: "'a chain"
  proof (rule moves_check, rule moves_bind [OF dyn, where ?d2.0 = "only_core (tot - n)"])
    fix referral and st' :: "'a chain"
    assume r: "bindE (safe_sub E tot n) (\<lambda>x. safe_sub E x l) = Inr referral"
    show "moves (only_core (tot - n)) st' (bindE (cut_fee E referral q) (\<lambda>referrer_cut.
       bindE (safe_sub E referral referrer_cut) (\<lambda>registrar_cut.
       bindE (deposit_cashback E i l req st') (\<lambda>st.
       bindE (deposit_cashback E j referrer_cut req st) (deposit_cashback E k registrar_cut req)))))"
      by (rule moves_check, rule moves_check, rule moves_cong [OF three]) (use r in \<open>auto simp: res_simps only_core_def\<close>)
  qed (simp add: only_core_def)
  show ?thesis
    unfolding pay_out_fees_def
  proof (rule moves_check, rule moves_check, rule moves_bind [where ?d1.0 = "\<lambda>_. 0" and ?d2.0 = "only_core tot"])
    fix account ref
    show "moves (\<lambda>_. 0) st (if is_basic_account (head_block_time st) ref
        then modify_account acct (\<lambda>a. Inr (a\<lparr>acct_referrer := lifetime_referrer a\<rparr>)) st else Inr st)"
      by (simp add: moves_modify_account moves_return)
  qed (auto intro!: rest moves_check simp del: bindE_eq_Inr)
qed

text \<open>Paying out does not touch the statistics that \<open>process_fees\<close> resets afterwards.\<close>

lemma stats_frame:
  "modify_account i f st = Inr st' \<Longrightarrow> account_stats (objects st') = account_stats (objects st)"
  "modify_dynamic i g st = Inr st' \<Longrightarrow> account_stats (objects st') = account_stats (objects st)"
  "modify_vesting i h st = Inr st' \<Longrightarrow> account_stats (objects st') = account_stats (objects st)"
  by (auto simp: modify_account_def modify_dynamic_def modify_vesting_def res_simps)

lemma lazy_vesting_stats:
  "deposit_lazy_vesting E ov amt secs owner req st = Inr (st', new) \<Longrightarrow> account_stats (objects st') = account_stats (objects st)"
  by (auto simp: deposit_lazy_vesting_def Let_def res_simps case_prod_beta dest!: stats_frame split: if_splits option.split_asm)

lemma cashback_stats: "deposit_cashback E i x req st = Inr st' \<Longrightarrow> account_stats (objects st') = account_stats (objects st)"
  by (auto simp: deposit_cashback_def res_simps dest!: stats_frame lazy_vesting_stats split: if_splits option.split_asm)

lemma pay_out_stats: "pay_out_fees E acct tot req st = Inr st' \<Longrightarrow> account_stats (objects st') = account_stats (objects st)"
  by (auto simp: pay_out_fees_def res_simps dest!: stats_frame cashback_stats split: if_splits)

text \<open>
  C28: paying out the fees that an account has collected neither creates nor destroys shares: what
  the network, the lifetime referrer, the referrer and the registrar receive, with what goes back
  to the reserve pool for the accounts of the blockchain, adds up to the fees that were pending,
  and the pending fees are reset.
\<close>

theorem process_fees_conserves:
  assumes ok: "process_fees E stat acct st = Inr st'" and wf: "ledger_wf (objects st)"
  shows "ledger_wf (objects st') \<and> gap a st' = gap a st \<and>
    (\<exists>s. tbl_find (account_stats (objects st')) stat = Some s \<and> pending_fees s \<le> 0 \<and> pending_vested_fees s \<le> 0)"
proof -
  obtain s where s: "tbl_find (account_stats (objects st)) stat = Some s"
    using ok by (auto simp: process_fees_def res_simps)
  show ?thesis
  proof (cases "0 < pending_fees s \<or> 0 < pending_vested_fees s")
    case False
    then show ?thesis using ok s wf by (auto simp: process_fees_def res_simps)
  next
    case True
    let ?reset = "\<lambda>s. bindE (safe_add E (pending_fees s) (pending_vested_fees s)) (\<lambda>sum.
         bindE (safe_add E (lifetime_fees_paid s) sum) (\<lambda>paid.
         Inr (s\<lparr>lifetime_fees_paid := paid, pending_fees := 0, pending_vested_fees := 0\<rparr>)))"
    obtain st1 st2 where 1: "pay_out_fees E acct (pending_fees s) True st = Inr st1"
        and 2: "pay_out_fees E acct (pending_vested_fees s) False st1 = Inr st2"
        and 3: "modify_stats stat ?reset st2 = Inr st'"
      using ok s True by (auto simp: process_fees_def res_simps)
    have stat: "account_stats (objects st2) = account_stats (objects st)" using pay_out_stats [OF 1] pay_out_stats [OF 2] by simp
    note m1 = moves_result [OF moves_pay_out_fees 1 wf]
    note m2 = moves_result [OF moves_pay_out_fees 2 conjunct1 [OF m1]]
    have "moves (only_core (- pending_fees s - pending_vested_fees s)) st2 (modify_stats stat ?reset st2)"
      by (rule moves_modify_stats) (use s in \<open>auto simp: stat res_simps\<close>)
    note m3 = moves_result [OF this 3 conjunct1 [OF m2]]
    have "gap a st' = gap a st" using m1 m2 m3 by (simp add: only_core_def)
    moreover have "\<exists>s. tbl_find (account_stats (objects st')) stat = Some s \<and> pending_fees s = 0 \<and> pending_vested_fees s = 0"
      using 3 by (auto simp: modify_stats_def res_simps)
    ultimately show ?thesis using m3 by force
  qed
qed

text \<open>A chain with two accounts, of which the first has paid fees and was referred by the second.\<close>

definition example_account :: "string \<Rightarrow> nat \<Rightarrow> account_object" where
  "example_account n stat =
    \<lparr>membership_expiration_date = time_point_sec_maximum, instant_payback_expiration_date = 0, acct_registrar = 11,
     acct_referrer = 11, lifetime_referrer = 11, network_fee_percentage = 10000, lifetime_referrer_fee_percentage = 0,
     referrer_rewards_percentage = 0, acct_name = n, acct_owner = authority_empty, acct_active = authority_empty,
     acct_options = \<lparr>memo_key = 0, voting_account = 0, num_witness = 0, num_committee = 0, votes = []\<rparr>,
     acct_statistics = stat, whitelisting_accounts = [], whitelisted_accounts = [], blacklisted_accounts = [],
     blacklisting_accounts = [], cashback_vb = None, acct_owner_special = No_special_authority,
     acct_active_special = No_special_authority, top_n_control_flags = 0, allowed_assets = None\<rparr>"

definition example_statistics :: "nat \<Rightarrow> int \<Rightarrow> account_statistics_object" where
  "example_statistics i f = \<lparr>stat_owner = i, most_recent_op = 0, total_ops = 0, removed_ops = 0, total_core_in_orders = 0,
     lifetime_fees_paid = 0, pending_fees = f, pending_vested_fees = 0\<rparr>"

definition example_core_asset :: asset_object where
  "example_core_asset = \<lparr>asset_symbol = ''PIC'', asset_precision = 5, asset_issuer = 3,
     asset_opts = \<lparr>max_supply = 1000, market_fee_percent = 0, max_market_fee = 0, issuer_permissions = 0, asset_flags = 0,
       core_exchange_rate_opt = mk_price (mk_asset 1 0) (mk_asset 1 0), whitelist_authorities = [],
       blacklist_authorities = [], whitelist_markets = [], blacklist_markets = [], description = []\<rparr>,
     dynamic_asset_data_id = 0, bitasset_data_id = None, buyback_account = None\<rparr>"

definition example_ledger :: ledger where
  "example_ledger =
    \<lparr>accounts = \<lparr>rows = [(10, example_account ''alice'' 2), (11, example_account ''bob'' 3)], next_instance = 12\<rparr>,
     account_stats = \<lparr>rows = [(2, example_statistics 10 5), (3, example_statistics 11 0)], next_instance = 4\<rparr>,
     balances = [((10, 0), 100)], assets = \<lparr>rows = [(0, example_core_asset)], next_instance = 1\<rparr>,
     asset_dynamic = \<lparr>rows = [(0, \<lparr>current_supply = 105, confidential_supply = 0, accumulated_fees = 0, fee_pool = 0\<rparr>)],
       next_instance = 1\<rparr>,
     vesting_balances = empty_table, limit_orders = empty_table, deflations = empty_table,
     account_deflations = empty_table, order_deflations = empty_table, bitassets = empty_table, call_orders = empty_table,
     force_settlements = empty_table, order_fee_configs = empty_table, applied_ops = []\<rparr>"

definition example_chain :: "unit chain" where
  "example_chain = (let s = sample_state [4] 5 Map.empty in
     \<lparr>gpo = gpo s, dgpo = dgpo s, current_shuffled_witnesses = [4], witnesses = Map.empty, checkpoints = [], skip_flags = 0,
      undo_max_size = 10, fork_max_size = 10, objects = example_ledger\<rparr>)"

lemma example_ledger_wf: "ledger_wf (objects example_chain)"
  by (simp add: example_chain_def Let_def example_ledger_def ledger_wf_def tbl_wf_def empty_table_def example_core_asset_def)

lemma example_time: "head_block_time example_chain = 1000"
  by (simp add: head_block_time_def example_chain_def sample_state_def Let_def)

lemmas example_eval_defs = example_ledger_def example_account_def example_statistics_def example_core_asset_def
  tbl_get_def tbl_find_def tbl_modify_def tbl_create_def empty_table_def on_ledger_def
  modify_account_def modify_stats_def modify_dynamic_def modify_vesting_def

lemma fc_std_safe [simp]: "fc_safe fc_std = fc_int64"
  by (simp add: fc_std_def)

lemma fc_int64_0 [simp]: "fc_int64 0"
  by (simp add: fc_int64_def)

lemma example_account_simps [simp]:
  "acct_referrer (example_account n i) = 11" "acct_registrar (example_account n i) = 11"
  "lifetime_referrer (example_account n i) = 11" "network_fee_percentage (example_account n i) = 10000"
  "lifetime_referrer_fee_percentage (example_account n i) = 0" "referrer_rewards_percentage (example_account n i) = 0"
  "membership_expiration_date (example_account n i) = time_point_sec_maximum" "acct_statistics (example_account n i) = i"
  by (simp_all add: example_account_def)

lemma example_lookup:
  "tbl_find (accounts example_ledger) 10 = Some (example_account ''alice'' 2)"
  "tbl_find (accounts example_ledger) 11 = Some (example_account ''bob'' 3)"
  "tbl_find (account_stats example_ledger) 2 = Some (example_statistics 10 5)"
  "tbl_find (assets example_ledger) 0 = Some example_core_asset"
  by (simp_all add: example_ledger_def tbl_find_def)

lemma pay_out_network:
  assumes "tbl_find (accounts (objects st)) 10 = Some (example_account ''alice'' 2)"
    and "tbl_find (accounts (objects st)) 11 = Some (example_account ''bob'' 3)" and "head_block_time st = 1000"
    and "tbl_find (asset_dynamic (objects st)) 0 = Some d" and "fc_int64 (accumulated_fees d + tot)" and "fc_int64 tot"
  shows "\<exists>st'. pay_out_fees fc_std 10 tot req st = Inr st' \<and> accounts (objects st') = accounts (objects st) \<and>
    head_block_time st' = head_block_time st \<and> account_stats (objects st') = account_stats (objects st) \<and>
    tbl_find (asset_dynamic (objects st')) 0 = Some (d\<lparr>accumulated_fees := accumulated_fees d + tot\<rparr>)"
proof -
  have n: "cut_fee fc_std tot 10000 = Inr tot" "cut_fee fc_std tot 0 = Inr 0" "cut_fee fc_std 0 0 = Inr 0"
    by (simp_all add: cut_fee_def GRAPHENE_100_PERCENT_def)
  have dyn: "modify_dynamic 0 (\<lambda>d. bindE (safe_add fc_std (accumulated_fees d) tot) (\<lambda>f. Inr (d\<lparr>accumulated_fees := f\<rparr>))) st
      = Inr (st\<lparr>objects := objects st\<lparr>asset_dynamic := asset_dynamic (objects st)
      \<lparr>rows := AList.update 0 (d\<lparr>accumulated_fees := accumulated_fees d + tot\<rparr>) (rows (asset_dynamic (objects st)))\<rparr>\<rparr>\<rparr>)"
    using assms(4,5) by (simp add: modify_dynamic_def on_ledger_def tbl_modify_def tbl_get_def safe_add_def)
  show ?thesis
    using assms(1-3,6) n
    by (simp add: pay_out_fees_def tbl_get_def is_basic_account_def time_point_sec_maximum_def dyn deposit_cashback_def
        safe_sub_def head_block_time_def)
qed

theorem adjust_balance_correct_witness:
  "case adjust_balance fc_std 10 (mk_asset (- 40) 0) example_chain of
     Inl _ \<Rightarrow> False | Inr st' \<Rightarrow> get_balance st' 10 0 = mk_asset 60 0 \<and> get_balance st' 11 0 = get_balance example_chain 11 0"
proof -
  have b: "get_balance example_chain 10 0 = mk_asset 100 0"
    by (simp add: get_balance_def example_chain_def example_ledger_def Let_def)
  have nd: "no_debt (objects example_chain)"
    by (simp add: no_debt_def example_chain_def example_ledger_def Let_def fc_int64_def)
  have d: "fc_int64 (amount (mk_asset (- 40) 0))" by (simp add: mk_asset_def fc_int64_def)
  show ?thesis
    using adjust_balance_correct [OF fc_std_contract nd d, of 10] b
    by (auto simp: mk_asset_def split: sum.splits)
qed

theorem process_fees_conserves_witness:
  "\<exists>st'. process_fees fc_std 2 10 example_chain = Inr st' \<and> gap 0 st' = gap 0 example_chain \<and>
     map_option accumulated_fees (tbl_find (asset_dynamic (objects st')) 0) = Some 5"
proof -
  have ex: "objects example_chain = example_ledger" by (simp add: example_chain_def Let_def)
  have d: "\<exists>d. tbl_find (asset_dynamic example_ledger) 0 = Some d \<and> accumulated_fees d = 0"
    by (simp add: example_ledger_def tbl_find_def)
  obtain st1 d1 where 1: "pay_out_fees fc_std 10 5 True example_chain = Inr st1" "accounts (objects st1) = accounts example_ledger"
      "head_block_time st1 = 1000" "account_stats (objects st1) = account_stats example_ledger"
      "tbl_find (asset_dynamic (objects st1)) 0 = Some d1" "accumulated_fees d1 = 5"
    using pay_out_network [of example_chain _ 5 True] d by (auto simp: ex example_lookup example_time fc_int64_def)
  obtain st2 d2 where 2: "pay_out_fees fc_std 10 0 False st1 = Inr st2" "account_stats (objects st2) = account_stats example_ledger"
      "tbl_find (asset_dynamic (objects st2)) 0 = Some d2" "accumulated_fees d2 = 5"
    using pay_out_network [of st1 d1 0 False] 1 by (auto simp: example_lookup fc_int64_def)
  have "\<exists>st'. process_fees fc_std 2 10 example_chain = Inr st' \<and>
      map_option accumulated_fees (tbl_find (asset_dynamic (objects st')) 0) = Some 5"
    using 1(1) 2 by (simp add: process_fees_def tbl_get_def ex example_lookup example_statistics_def modify_stats_def
        on_ledger_def tbl_modify_def safe_add_def fc_int64_def)
  then show ?thesis using process_fees_conserves [OF _ example_ledger_wf, of fc_std 2 10 _ 0] by blast
qed

end
