(* ===== verification/Evaluators.thy ===== *)
theory Evaluators
  imports Conservation Operations Fee_Schedule
begin

text \<open>
  The frame that all evaluators share (\<open>libraries/chain/evaluator.cpp\<close>, \<open>evaluator.hpp\<close>,
  \<open>is_authorized_asset.cpp\<close>) and the evaluators of transfers and vesting balances
  (\<open>transfer_evaluator.cpp\<close>, \<open>vesting_balance_evaluator.cpp\<close>).

  \<open>start_evaluate\<close> takes the two functions of a concrete evaluator, \<open>do_evaluate\<close>, which only
  checks, and \<open>do_apply\<close>, which changes the ledger. The members of the class that carry values
  from the check to the application are the record \<open>fee_state\<close>. The value \<open>None\<close> of
  \<open>start_evaluate\<close> stands for a fee computation that does not return; \<open>Fee_Schedule\<close> shows
  that there is none.
\<close>

subsection \<open>Authorised assets\<close>

definition HARDFORK_415_TIME :: time_point_sec where "HARDFORK_415_TIME = 1446652800"
definition HARDFORK_419_TIME :: time_point_sec where "HARDFORK_419_TIME = 1446652800"

definition slow_authorized_asset :: "time_point_sec \<Rightarrow> account_object \<Rightarrow> asset_id_type \<Rightarrow> asset_object \<Rightarrow> bool" where
  "slow_authorized_asset now acct i a =
     (if (case allowed_assets acct of None \<Rightarrow> False | Some ok \<Rightarrow> i \<notin> set ok) then False
      else if list_ex (\<lambda>x. x \<in> set (blacklist_authorities (asset_opts a))) (blacklisting_accounts acct) then False
      else if HARDFORK_415_TIME < now \<and> whitelist_authorities (asset_opts a) = [] then True
      else list_ex (\<lambda>x. x \<in> set (whitelist_authorities (asset_opts a))) (whitelisting_accounts acct))"

definition is_authorized_asset :: "time_point_sec \<Rightarrow> account_object \<Rightarrow> asset_id_type \<Rightarrow> asset_object \<Rightarrow> bool" where
  "is_authorized_asset now acct i a =
     (if flag_and (asset_flags (asset_opts a)) white_list = 0 \<and> allowed_assets acct = None then True
      else slow_authorized_asset now acct i a)"

definition is_transfer_restricted :: "asset_object \<Rightarrow> bool" where
  "is_transfer_restricted a \<longleftrightarrow> flag_and (asset_flags (asset_opts a)) transfer_restricted \<noteq> 0"

definition can_override :: "asset_object \<Rightarrow> bool" where
  "can_override a \<longleftrightarrow> flag_and (asset_flags (asset_opts a)) override_authority \<noteq> 0"

subsection \<open>Fees of an operation\<close>

datatype operation_result = Void_result | Object_result nat | Asset_result asset

record transaction_evaluation_state =
  is_proposed_trx :: bool
  skip_fee :: bool
  skip_fee_schedule_check :: bool

record fee_state =
  fee_from_account :: asset
  core_fee_paid :: int
  fee_paying_statistics :: nat
  fee_asset_dyn_data :: nat

definition prepare_fee :: "'e fc_env_scheme \<Rightarrow> account_id_type \<Rightarrow> asset \<Rightarrow> 'z chain \<Rightarrow> fee_state res" where
  "prepare_fee E account_id f st =
     bindE (assertE (0 \<le> amount f) ''fee.amount >= 0'') (\<lambda>_.
     bindE (tbl_get (accounts (objects st)) account_id) (\<lambda>acct.
     bindE (tbl_get (account_stats (objects st)) (acct_statistics acct)) (\<lambda>_.
     bindE (tbl_get (assets (objects st)) (asset_id f)) (\<lambda>fee_asset.
     bindE (tbl_get (asset_dynamic (objects st)) (dynamic_asset_data_id fee_asset)) (\<lambda>dyn.
     bindE (if HARDFORK_419_TIME < head_block_time st
            then assertE (is_authorized_asset (head_block_time st) acct (asset_id f) fee_asset) ''unauthorized fee asset''
            else Inr ()) (\<lambda>_.
     bindE (if asset_id f = 0 then Inr (amount f)
            else bindE (asset_mult f (core_exchange_rate_opt (asset_opts fee_asset))) (\<lambda>from_pool.
                 bindE (assertE (asset_id from_pool = 0) ''fee_from_pool.asset_id == asset_id_type()'') (\<lambda>_.
                 bindE (assertE (amount from_pool \<le> fee_pool dyn) ''Fee pool balance is less'') (\<lambda>_.
                 Inr (amount from_pool))))) (\<lambda>core.
     Inr \<lparr>fee_from_account = f, core_fee_paid = core, fee_paying_statistics = acct_statistics acct,
          fee_asset_dyn_data = dynamic_asset_data_id fee_asset\<rparr>)))))))"

definition evaluator_convert_fee :: "'e fc_env_scheme \<Rightarrow> transaction_evaluation_state \<Rightarrow> fee_state \<Rightarrow> 'z chain \<Rightarrow> 'z chain res" where
  "evaluator_convert_fee E ts fs st =
     (if \<not> skip_fee ts \<and> asset_id (fee_from_account fs) \<noteq> 0 then
        modify_dynamic (fee_asset_dyn_data fs) (\<lambda>d.
          bindE (safe_add E (accumulated_fees d) (amount (fee_from_account fs))) (\<lambda>acc.
          bindE (safe_sub E (fee_pool d) (core_fee_paid fs)) (\<lambda>pool.
          Inr (d\<lparr>accumulated_fees := acc, fee_pool := pool\<rparr>)))) st
      else Inr st)"

definition evaluator_pay_fee :: "'e fc_env_scheme \<Rightarrow> transaction_evaluation_state \<Rightarrow> fee_state \<Rightarrow> 'z chain \<Rightarrow> 'z chain res" where
  "evaluator_pay_fee E ts fs st =
     (if skip_fee ts then Inr st
      else modify_stats (fee_paying_statistics fs)
        (stat_pay_fee E (core_fee_paid fs) (cashback_vesting_threshold (gpo_parameters (gpo st)))) st)"

definition evaluate_op ::
    "'e fee_env_scheme \<Rightarrow> pack_env \<Rightarrow> transaction_evaluation_state \<Rightarrow> operation \<Rightarrow> account_id_type \<Rightarrow> asset \<Rightarrow>
     ('z chain \<Rightarrow> unit res) \<Rightarrow> 'z chain \<Rightarrow> fee_state res option" where
  "evaluate_op E P ts x payer f do_evaluate st =
     bindO (Some (prepare_fee E payer f st)) (\<lambda>fs.
     bindO (if skip_fee_schedule_check ts then Some (Inr ())
            else bindO (calculate_fee E P (current_fees (gpo_parameters (gpo st))) x (unit_price 0)) (\<lambda>required_fee.
                 Some (assertE (amount required_fee \<le> core_fee_paid fs) ''Insufficient Fee Paid''))) (\<lambda>_.
     bindO (Some (do_evaluate st)) (\<lambda>_. Some (Inr fs))))"

definition apply_op ::
    "'e fee_env_scheme \<Rightarrow> transaction_evaluation_state \<Rightarrow> account_id_type \<Rightarrow> fee_state \<Rightarrow>
     ('z chain \<Rightarrow> ('z chain \<times> operation_result) res) \<Rightarrow> 'z chain \<Rightarrow> ('z chain \<times> operation_result) res" where
  "apply_op E ts payer fs do_apply st =
     bindE (evaluator_convert_fee E ts fs st) (\<lambda>st.
     bindE (evaluator_pay_fee E ts fs st) (\<lambda>st.
     bindE (do_apply st) (\<lambda>(st, result).
     bindE (asset_neg E (fee_from_account fs)) (\<lambda>minus_fee.
     bindE (adjust_balance E payer minus_fee st) (\<lambda>st.
     Inr (st, result))))))"

definition start_evaluate ::
    "'e fee_env_scheme \<Rightarrow> pack_env \<Rightarrow> transaction_evaluation_state \<Rightarrow> operation \<Rightarrow> account_id_type \<Rightarrow> asset \<Rightarrow>
     ('z chain \<Rightarrow> unit res) \<Rightarrow> ('z chain \<Rightarrow> ('z chain \<times> operation_result) res) \<Rightarrow> bool \<Rightarrow>
     'z chain \<Rightarrow> ('z chain \<times> operation_result) res option" where
  "start_evaluate E P ts x payer f do_evaluate do_apply apply st =
     bindO (evaluate_op E P ts x payer f do_evaluate st) (\<lambda>fs.
     Some (if apply then apply_op E ts payer fs do_apply st else Inr (st, Void_result)))"

subsection \<open>Deflation of an account\<close>

definition GRAPHENE_DEFLATION_RATE_SCALE :: nat where "GRAPHENE_DEFLATION_RATE_SCALE = 100000000"

definition last_row :: "'v table \<Rightarrow> (nat \<times> 'v) option" where
  "last_row t = (if rows t = [] then None else Some (last (rows t)))"

definition deflated_part :: "'e fc_env_scheme \<Rightarrow> int \<Rightarrow> nat \<Rightarrow> int res" where
  "deflated_part E x rate =
     to_share E ((word_of_int x * word_of_nat rate :: u128) div word_of_nat GRAPHENE_DEFLATION_RATE_SCALE)"

definition account_deflation_of :: "'z chain \<Rightarrow> account_id_type \<Rightarrow> (nat \<times> account_deflation_object) option" where
  "account_deflation_of st owner = find (\<lambda>(i, x). adf_obj_owner x = owner) (rows (account_deflations (objects st)))"

definition needs_deflation :: "'z chain \<Rightarrow> nat \<Rightarrow> account_id_type \<Rightarrow> bool" where
  "needs_deflation st dflt_id owner =
     (case account_deflation_of st owner of
        None \<Rightarrow> True
      | Some (i, x) \<Rightarrow> adf_last_deflation_id x < dflt_id \<and> \<not> adf_cleared x)"

definition running_deflation :: "'z chain \<Rightarrow> asset_id_type \<Rightarrow> (nat \<times> deflation_object) option" where
  "running_deflation st a =
     (if a = 0 then
        (case last_row (deflations (objects st)) of
           None \<Rightarrow> None
         | Some (i, d) \<Rightarrow> if balance_cleared d then None else Some (i, d))
      else None)"

text \<open>The blocks FROM and TO of \<open>transfer_evaluator::do_apply\<close>.\<close>

definition freeze_account ::
    "'e fc_env_scheme \<Rightarrow> nat \<Rightarrow> nat \<Rightarrow> account_id_type \<Rightarrow> 'z chain \<Rightarrow> ('z chain \<times> int) res" where
  "freeze_account E dflt_id rate owner st =
     (if needs_deflation st dflt_id owner then
        bindE (deflated_part E (amount (get_balance st owner 0)) rate) (\<lambda>dlft.
        let L = objects st in
        case account_deflation_of st owner of
          None \<Rightarrow>
            let (i, t) = tbl_create \<lparr>adf_obj_owner = owner, adf_last_deflation_id = 0, adf_frozen = dlft, adf_cleared = True\<rparr>
                           (account_deflations L)
            in Inr (st\<lparr>objects := L\<lparr>account_deflations := t\<rparr>\<rparr>, dlft)
        | Some (i, _) \<Rightarrow>
            bindE (tbl_modify i (\<lambda>x. Inr (x\<lparr>adf_frozen := dlft, adf_cleared := True\<rparr>)) (account_deflations L)) (\<lambda>t.
            Inr (st\<lparr>objects := L\<lparr>account_deflations := t\<rparr>\<rparr>, dlft)))
      else Inr (st, 0))"

subsection \<open>Transfers\<close>

definition transfer_do_evaluate :: "'e fc_env_scheme \<Rightarrow> transfer_operation \<Rightarrow> 'z chain \<Rightarrow> unit res" where
  "transfer_do_evaluate E x st =
     (let now = head_block_time st; a = asset_id (transfer_amount x) in
      bindE (tbl_get (accounts (objects st)) (transfer_from x)) (\<lambda>from_account.
      bindE (tbl_get (accounts (objects st)) (transfer_to x)) (\<lambda>to_account.
      bindE (tbl_get (assets (objects st)) a) (\<lambda>asset_type.
      bindE (assertE (is_authorized_asset now from_account a asset_type) ''transfer_from_account_not_whitelisted'') (\<lambda>_.
      bindE (assertE (is_authorized_asset now to_account a asset_type) ''transfer_to_account_not_whitelisted'') (\<lambda>_.
      bindE (if is_transfer_restricted asset_type
             then assertE (transfer_from x = asset_issuer asset_type \<or> transfer_to x = asset_issuer asset_type)
                    ''transfer_restricted_transfer_asset''
             else Inr ()) (\<lambda>_.
      bindE (case running_deflation st a of
               None \<Rightarrow> Inr 0
             | Some (i, d) \<Rightarrow>
                 if needs_deflation st i (transfer_from x)
                 then deflated_part E (amount (get_balance st (transfer_from x) a)) (dfl_rate d) else Inr 0) (\<lambda>dlft_amt.
      bindE (safe_add E (amount (transfer_amount x)) dlft_amt) (\<lambda>needed.
      assertE (needed \<le> amount (get_balance st (transfer_from x) a)) ''Insufficient Balance'')))))))))"

definition transfer_do_apply ::
    "'e fc_env_scheme \<Rightarrow> transfer_operation \<Rightarrow> 'z chain \<Rightarrow> ('z chain \<times> operation_result) res" where
  "transfer_do_apply E x st =
     (let a = asset_id (transfer_amount x) in
      bindE (case running_deflation st a of
               None \<Rightarrow> Inr (st, 0, 0)
             | Some (i, d) \<Rightarrow>
                 bindE (freeze_account E i (dfl_rate d) (transfer_from x) st) (\<lambda>(st, dlft_from).
                 bindE (freeze_account E i (dfl_rate d) (transfer_to x) st) (\<lambda>(st, dlft_to).
                 Inr (st, dlft_from, dlft_to)))) (\<lambda>(st, dlft_from, dlft_to).
      bindE (asset_neg E (transfer_amount x)) (\<lambda>neg.
      bindE (asset_minus E neg (mk_asset dlft_from a)) (\<lambda>taken.
      bindE (adjust_balance E (transfer_from x) taken st) (\<lambda>st.
      bindE (asset_minus E (transfer_amount x) (mk_asset dlft_to a)) (\<lambda>given.
      bindE (adjust_balance E (transfer_to x) given st) (\<lambda>st.
      Inr (st, Void_result))))))))"

definition override_transfer_do_evaluate :: "override_transfer_operation \<Rightarrow> 'z chain \<Rightarrow> unit res" where
  "override_transfer_do_evaluate x st =
     (let now = head_block_time st; a = asset_id (ovr_amount x) in
      bindE (tbl_get (assets (objects st)) a) (\<lambda>asset_type.
      bindE (assertE (can_override asset_type) ''override_transfer_not_permitted'') (\<lambda>_.
      bindE (assertE (asset_issuer asset_type = ovr_issuer x) ''asset_type.issuer == op.issuer'') (\<lambda>_.
      bindE (tbl_get (accounts (objects st)) (ovr_from x)) (\<lambda>from_account.
      bindE (tbl_get (accounts (objects st)) (ovr_to x)) (\<lambda>to_account.
      bindE (assertE (is_authorized_asset now to_account a asset_type) ''is_authorized_asset( d, to_account )'') (\<lambda>_.
      bindE (assertE (is_authorized_asset now from_account a asset_type) ''is_authorized_asset( d, from_account )'') (\<lambda>_.
      bindE (if now \<le> HARDFORK_419_TIME
             then assertE (is_authorized_asset now from_account a asset_type) ''is_authorized_asset( d, from_account )''
             else Inr ()) (\<lambda>_.
      assertE (amount (ovr_amount x) \<le> amount (get_balance st (ovr_from x) a)) ''balance'')))))))))"

definition override_transfer_do_apply ::
    "'e fc_env_scheme \<Rightarrow> override_transfer_operation \<Rightarrow> 'z chain \<Rightarrow> ('z chain \<times> operation_result) res" where
  "override_transfer_do_apply E x st =
     bindE (asset_neg E (ovr_amount x)) (\<lambda>neg.
     bindE (adjust_balance E (ovr_from x) neg st) (\<lambda>st.
     bindE (adjust_balance E (ovr_to x) (ovr_amount x) st) (\<lambda>st.
     Inr (st, Void_result))))"

subsection \<open>Vesting balances\<close>

definition vesting_create_do_evaluate :: "vesting_balance_create_operation \<Rightarrow> 'z chain \<Rightarrow> unit res" where
  "vesting_create_do_evaluate x st =
     bindE (tbl_get (accounts (objects st)) (vbc_creator x)) (\<lambda>_.
     bindE (tbl_get (accounts (objects st)) (vbc_owner x)) (\<lambda>_.
     bindE (assertE (0 < amount (vbc_amount x)) ''op.amount.amount > 0'') (\<lambda>_.
     bindE (asset_ge (get_balance st (vbc_creator x) (asset_id (vbc_amount x))) (vbc_amount x)) (\<lambda>enough.
     bindE (assertE enough ''d.get_balance >= op.amount'') (\<lambda>_.
     bindE (tbl_get (assets (objects st)) (asset_id (vbc_amount x))) (\<lambda>a.
     assertE (\<not> is_transfer_restricted a) ''!is_transfer_restricted''))))))"

definition init_policy :: "time_point_sec \<Rightarrow> int \<Rightarrow> vesting_policy_initializer \<Rightarrow> vesting_policy" where
  "init_policy now init_balance p =
     (case p of
        Linear_vesting_policy_initializer b c d \<Rightarrow>
          Linear \<lparr>begin_timestamp = b, vesting_cliff_seconds = c, vesting_duration_seconds = d, begin_balance = init_balance\<rparr>
      | Cdd_vesting_policy_initializer c s \<Rightarrow>
          Cdd \<lparr>vesting_seconds = s, coin_seconds_earned = 0, start_claim = c, coin_seconds_earned_last_update = now\<rparr>)"

definition vesting_create_do_apply ::
    "'e fc_env_scheme \<Rightarrow> vesting_balance_create_operation \<Rightarrow> 'z chain \<Rightarrow> ('z chain \<times> operation_result) res" where
  "vesting_create_do_apply E x st =
     (let now = head_block_time st in
      bindE (asset_ge (get_balance st (vbc_creator x) (asset_id (vbc_amount x))) (vbc_amount x)) (\<lambda>enough.
      bindE (assertE enough ''d.get_balance >= op.amount'') (\<lambda>_.
      bindE (asset_neg E (vbc_amount x)) (\<lambda>neg.
      bindE (adjust_balance E (vbc_creator x) neg st) (\<lambda>st.
      let L = objects st;
          (i, t) = tbl_create \<lparr>vb_owner = vbc_owner x, vb_balance = vbc_amount x,
                     vb_policy = init_policy now (amount (vbc_amount x)) (vbc_policy x)\<rparr> (vesting_balances L)
      in Inr (st\<lparr>objects := L\<lparr>vesting_balances := t\<rparr>\<rparr>, Object_result i))))))"

definition vesting_withdraw_do_evaluate :: "'e fc_env_scheme \<Rightarrow> vesting_balance_withdraw_operation \<Rightarrow> 'z chain \<Rightarrow> unit res" where
  "vesting_withdraw_do_evaluate E x st =
     bindE (tbl_get (vesting_balances (objects st)) (vbw_vesting_balance x)) (\<lambda>vbo.
     bindE (assertE (vbw_owner x = vb_owner vbo) ''op.owner == vbo.owner'') (\<lambda>_.
     bindE (vb_is_withdraw_allowed E vbo (head_block_time st) (vbw_amount x)) (\<lambda>allowed.
     bindE (assertE allowed ''vbo.is_withdraw_allowed( now, op.amount )'') (\<lambda>_.
     bindE (tbl_get (accounts (objects st)) (vbw_owner x)) (\<lambda>_. Inr ())))))"

definition vesting_withdraw_do_apply ::
    "'e fc_env_scheme \<Rightarrow> vesting_balance_withdraw_operation \<Rightarrow> 'z chain \<Rightarrow> ('z chain \<times> operation_result) res" where
  "vesting_withdraw_do_apply E x st =
     bindE (modify_vesting (vbw_vesting_balance x) (vb_withdraw E (head_block_time st) (vbw_amount x)) st) (\<lambda>st.
     bindE (adjust_balance E (vbw_owner x) (vbw_amount x) st) (\<lambda>st.
     Inr (st, Void_result)))"

subsection \<open>Fees keep shares\<close>

definition fee_prepared :: "fee_state \<Rightarrow> bool" where
  "fee_prepared fs \<longleftrightarrow> fee_asset_dyn_data fs = asset_id (fee_from_account fs) \<and>
     (asset_id (fee_from_account fs) = 0 \<longrightarrow> core_fee_paid fs = amount (fee_from_account fs)) \<and> 0 \<le> core_fee_paid fs"

lemma prepare_fee_prepared:
  assumes ok: "prepare_fee E payer f st = Inr fs" and wf: "ledger_wf (objects st)"
  shows "fee_prepared fs" "fee_from_account fs = f"
proof -
  have id: "dynamic_asset_data_id y = i" if "tbl_find (assets (objects st)) i = Some y" for i y
    using wf that by (auto simp: ledger_wf_def list_all_iff tbl_find_def dest!: map_of_SomeD)
  show "fee_prepared fs" "fee_from_account fs = f"
    using ok id by (auto simp: prepare_fee_def fee_prepared_def res_simps split: if_splits dest: asset_mult_nonneg)
qed

lemma moves_convert_fee:
  assumes "\<not> skip_fee ts" and "fee_prepared fs"
  shows "moves (\<lambda>a. amount_in a (fee_from_account fs) - only_core (core_fee_paid fs) a) st (evaluator_convert_fee E ts fs st)"
proof (cases "asset_id (fee_from_account fs) = 0")
  case True
  then show ?thesis
    using assms(2) by (auto simp: evaluator_convert_fee_def fee_prepared_def amount_in_def only_core_def intro!: moves_return)
next
  case False
  then show ?thesis
    using assms unfolding evaluator_convert_fee_def fee_prepared_def
    by (auto simp: res_simps only_core_def amount_in_def
        intro!: moves_cong [OF moves_modify_dynamic [where s = 0 and c = "amount (fee_from_account fs)" and p = "- core_fee_paid fs"]])
qed

lemma moves_pay_fee: "\<not> skip_fee ts \<Longrightarrow> moves (only_core (core_fee_paid fs)) st (evaluator_pay_fee E ts fs st)"
  by (auto simp: evaluator_pay_fee_def stat_pay_fee_def res_simps split: if_splits intro!: moves_modify_stats)

lemma moves_neg:
  assumes "asset_neg E f = Inr neg"
  shows "moves (\<lambda>a. - amount_in a f) st (adjust_balance E payer neg st)"
  by (rule moves_cong [OF moves_adjust_balance]) (use assms in \<open>auto simp: asset_neg_def res_simps amount_in_def mk_asset_def\<close>)

subsection \<open>What an evaluator promises\<close>

text \<open>
  The frame relies on one law of a concrete evaluator: applying it conserves the shares of every
  asset. Then the whole evaluation does, with the conversion and the payment of the fee.
\<close>

locale conserving_evaluator =
  fixes do_apply :: "'z chain \<Rightarrow> ('z chain \<times> operation_result) res"
  assumes do_apply_moves: "moves (\<lambda>_. 0) st (map_sum id fst (do_apply st))"
begin

lemma apply_op_moves:
  assumes ok: "apply_op E ts payer fs do_apply st = Inr (st', res)" and fee: "\<not> skip_fee ts" "fee_prepared fs"
  shows "moves (\<lambda>_. 0) st (Inr st')"
proof -
  let ?f = "fee_from_account fs"
  obtain st1 st2 st3 neg where 1: "evaluator_convert_fee E ts fs st = Inr st1" and 2: "evaluator_pay_fee E ts fs st1 = Inr st2"
      and 3: "do_apply st2 = Inr (st3, res)" and 4: "asset_neg E ?f = Inr neg" and 5: "adjust_balance E payer neg st3 = Inr st'"
    using ok by (auto simp: apply_op_def res_simps)
  note c = moves_convert_fee [OF fee, of st E, unfolded 1] and p = moves_pay_fee [OF fee(1), of fs st1 E, unfolded 2]
    and n = moves_neg [OF 4, of st3 payer, unfolded 5]
  have a: "moves (\<lambda>_. 0) st2 (Inr st3)" using do_apply_moves [of st2] by (simp add: 3)
  have "ledger_wf (objects st') \<and> gap a st' = gap a st" if "ledger_wf (objects st)" for a
    using that c p a n by (auto simp: moves_def only_core_def amount_in_def)
  then show ?thesis by (simp add: moves_def)
qed

theorem start_evaluate_conserves:
  assumes ok: "start_evaluate E P ts x payer f do_evaluate do_apply b st = Some (Inr (st', res))"
    and "\<not> skip_fee ts" and wf: "ledger_wf (objects st)"
  shows "ledger_wf (objects st') \<and> (\<forall>a. gap a st' = gap a st)"
proof -
  obtain fs where fs: "prepare_fee E payer f st = Inr fs"
      and ap: "(if b then apply_op E ts payer fs do_apply st else Inr (st, Void_result)) = Inr (st', res)"
    using ok by (auto simp: start_evaluate_def evaluate_op_def bindO_def split: option.splits sum.splits)
  show ?thesis
  proof (cases b)
    case True
    then have "moves (\<lambda>_. 0) st (Inr st')"
      using apply_op_moves [OF _ assms(2) prepare_fee_prepared(1) [OF fs wf]] ap by simp
    then show ?thesis using wf by (simp add: moves_def)
  qed (use ap wf in simp)
qed

end

subsection \<open>Transfers and vesting balances conserve shares\<close>

lemma moves_result_pair:
  assumes "\<And>st' r. m = Inr (st', r) \<Longrightarrow> moves d st (Inr st')"
  shows "moves d st (map_sum id fst m)"
  using assms by (cases m) auto

lemma moves_seq:
  assumes "moves d1 st (Inr st1)" and "moves d2 st1 (Inr st2)" and "\<And>a. d a = d1 a + d2 a"
  shows "moves d st (Inr st2)"
  using moves_bind [OF assms(1), of d2 "\<lambda>_. Inr st2" d] assms(2,3) by simp

lemma account_deflation_found:
  assumes "ledger_wf (objects st)" and "account_deflation_of st owner = Some (i, x)"
  shows "tbl_find (account_deflations (objects st)) i = Some x" "adf_cleared x \<or> adf_frozen x = 0"
proof -
  have "(i, x) \<in> set (rows (account_deflations (objects st)))"
    using assms(2) by (auto simp: account_deflation_of_def find_Some_iff in_set_conv_nth)
  then show "tbl_find (account_deflations (objects st)) i = Some x" "adf_cleared x \<or> adf_frozen x = 0"
    using assms(1) by (auto simp: ledger_wf_def tbl_wf_def tbl_find_def list_all_iff)
qed

lemma moves_freeze:
  assumes ok: "freeze_account E i rate owner st = Inr (st', dlft)"
  shows "moves (only_core dlft) st (Inr st')"
proof (rule moves_wf)
  assume wf: "ledger_wf (objects st)"
  let ?t = "account_deflations (objects st)"
  have t: "tbl_wf ?t" using wf by (simp add: ledger_wf_def)
  show ?thesis
  proof (cases "needs_deflation st i owner")
    case False
    then show ?thesis using ok by (auto simp: freeze_account_def only_core_def intro!: moves_return)
  next
    case True
    show ?thesis
    proof (cases "account_deflation_of st owner")
      case None
      let ?new = "\<lparr>adf_obj_owner = owner, adf_last_deflation_id = 0, adf_frozen = dlft, adf_cleared = True\<rparr>"
      have st': "st' = st\<lparr>objects := objects st\<lparr>account_deflations := snd (tbl_create ?new ?t)\<rparr>\<rparr>"
        using ok True None by (auto simp: freeze_account_def Let_def res_simps case_prod_beta)
      show ?thesis
        unfolding st' using tsum_create [OF surjective_pairing, of adf_frozen ?new ?t] tbl_wf_create [OF t surjective_pairing, of ?new] wf
        by (intro movesI) (auto simp: gap_field ledger_wf_def only_core_def tbl_create_def)
    next
      case (Some r)
      then obtain j x where x: "account_deflation_of st owner = Some (j, x)" by (cases r) auto
      note f = account_deflation_found [OF wf x]
      have fr: "adf_frozen x = 0" using True x f(2) by (auto simp: needs_deflation_def)
      have st': "st' = st\<lparr>objects := objects st\<lparr>account_deflations :=
          ?t\<lparr>rows := AList.update j (x\<lparr>adf_frozen := dlft, adf_cleared := True\<rparr>) (rows ?t)\<rparr>\<rparr>\<rparr>"
        using ok True x f(1) by (auto simp: freeze_account_def Let_def res_simps)
      have w: "list_all (\<lambda>(i, x). adf_cleared x \<or> adf_frozen x = 0)
          (AList.update j (x\<lparr>adf_frozen := dlft, adf_cleared := True\<rparr>) (rows ?t))"
        by (rule list_all_update) (use wf in \<open>auto simp: ledger_wf_def\<close>)
      show ?thesis
        unfolding st' using wf tbl_wf_update [OF t f(1)] w fr
        by (intro movesI) (auto simp: gap_field tsum_update [OF t f(1)] ledger_wf_def only_core_def)
    qed
  qed
qed

lemma moves_transfer: "moves (\<lambda>_. 0) st (map_sum id fst (transfer_do_apply E x st))"
proof (rule moves_result_pair)
  fix st' r assume ok: "transfer_do_apply E x st = Inr (st', r)"
  let ?a = "asset_id (transfer_amount x)" and ?m = "amount (transfer_amount x)"
  obtain st1 st2 df dt neg taken given where
      1: "(case running_deflation st ?a of None \<Rightarrow> Inr (st, 0, 0)
           | Some (i, d) \<Rightarrow> bindE (freeze_account E i (dfl_rate d) (transfer_from x) st) (\<lambda>(st, dlft_from).
                 bindE (freeze_account E i (dfl_rate d) (transfer_to x) st) (\<lambda>(st, dlft_to).
                 Inr (st, dlft_from, dlft_to)))) = Inr (st1, df, dt)"
      and n: "asset_neg E (transfer_amount x) = Inr neg" "asset_minus E neg (mk_asset df ?a) = Inr taken"
        "asset_minus E (transfer_amount x) (mk_asset dt ?a) = Inr given"
      and 2: "adjust_balance E (transfer_from x) taken st1 = Inr st2" and 3: "adjust_balance E (transfer_to x) given st2 = Inr st'"
    using ok by (auto simp: transfer_do_apply_def Let_def res_simps)
  have amt: "amount_in a taken = (if a = ?a then - ?m - df else 0)" "amount_in a given = (if a = ?a then ?m - dt else 0)" for a
    using n by (auto simp: asset_neg_def asset_minus_def res_simps amount_in_def mk_asset_def)
  have "moves (\<lambda>a. if a = ?a then df + dt else 0) st (Inr st1)"
  proof (cases "running_deflation st ?a")
    case None
    then show ?thesis using 1 by (auto intro!: moves_return)
  next
    case (Some r)
    then obtain i and d :: deflation_object and st0 where f: "freeze_account E i (dfl_rate d) (transfer_from x) st = Inr (st0, df)"
        "freeze_account E i (dfl_rate d) (transfer_to x) st0 = Inr (st1, dt)"
      using 1 by (cases r) (auto simp: res_simps)
    moreover have "?a = 0" using Some by (auto simp: running_deflation_def split: if_splits)
    ultimately show ?thesis
      using moves_seq [OF moves_freeze [OF f(1)] moves_freeze [OF f(2)]] by (simp add: only_core_def)
  qed
  moreover have "moves (\<lambda>a. amount_in a taken) st1 (Inr st2)" "moves (\<lambda>a. amount_in a given) st2 (Inr st')"
    using moves_adjust_balance [of taken st1 E "transfer_from x"] moves_adjust_balance [of given st2 E "transfer_to x"] 2 3 by simp_all
  from this have "moves (\<lambda>a. amount_in a taken + amount_in a given) st1 (Inr st')" by (rule moves_seq) simp
  ultimately show "moves (\<lambda>_. 0) st (Inr st')" by (rule moves_seq) (simp add: amt)
qed

lemma moves_override_transfer: "moves (\<lambda>_. 0) st (map_sum id fst (override_transfer_do_apply E x st))"
proof (rule moves_result_pair)
  fix st' r assume "override_transfer_do_apply E x st = Inr (st', r)"
  then obtain neg st1 where n: "asset_neg E (ovr_amount x) = Inr neg" and 1: "adjust_balance E (ovr_from x) neg st = Inr st1"
      and 2: "adjust_balance E (ovr_to x) (ovr_amount x) st1 = Inr st'"
    by (auto simp: override_transfer_do_apply_def res_simps)
  have "moves (\<lambda>a. amount_in a neg) st (Inr st1)" "moves (\<lambda>a. amount_in a (ovr_amount x)) st1 (Inr st')"
    using moves_adjust_balance [of neg st E "ovr_from x"] moves_adjust_balance [of "ovr_amount x" st1 E "ovr_to x"] 1 2 by simp_all
  then show "moves (\<lambda>_. 0) st (Inr st')"
    by (rule moves_seq) (use n in \<open>auto simp: asset_neg_def res_simps amount_in_def mk_asset_def\<close>)
qed

lemma moves_vesting_create: "moves (\<lambda>_. 0) st (map_sum id fst (vesting_create_do_apply E x st))"
proof (rule moves_result_pair)
  fix st' r assume ok: "vesting_create_do_apply E x st = Inr (st', r)"
  let ?v = "\<lparr>vb_owner = vbc_owner x, vb_balance = vbc_amount x,
      vb_policy = init_policy (head_block_time st) (amount (vbc_amount x)) (vbc_policy x)\<rparr>"
  obtain neg st1 where n: "asset_neg E (vbc_amount x) = Inr neg" and 1: "adjust_balance E (vbc_creator x) neg st = Inr st1"
      and 2: "st' = st1\<lparr>objects := objects st1\<lparr>vesting_balances := snd (tbl_create ?v (vesting_balances (objects st1)))\<rparr>\<rparr>"
    using ok by (auto simp: vesting_create_do_apply_def Let_def res_simps case_prod_beta)
  have "moves (\<lambda>a. amount_in a neg) st (Inr st1)" using moves_adjust_balance [of neg st E "vbc_creator x"] 1 by simp
  moreover have "moves (\<lambda>a. amount_in a (vbc_amount x)) st1 (Inr st')"
    unfolding 2 by (rule moves_create_vesting [OF surjective_pairing]) simp
  ultimately show "moves (\<lambda>_. 0) st (Inr st')"
    by (rule moves_seq) (use n in \<open>auto simp: asset_neg_def res_simps amount_in_def mk_asset_def\<close>)
qed

lemma moves_vesting_withdraw: "moves (\<lambda>_. 0) st (map_sum id fst (vesting_withdraw_do_apply E x st))"
proof (rule moves_result_pair)
  fix st' r assume "vesting_withdraw_do_apply E x st = Inr (st', r)"
  then obtain st1 where 1: "modify_vesting (vbw_vesting_balance x) (vb_withdraw E (head_block_time st) (vbw_amount x)) st = Inr st1"
      and 2: "adjust_balance E (vbw_owner x) (vbw_amount x) st1 = Inr st'"
    by (auto simp: vesting_withdraw_do_apply_def res_simps)
  have "moves (\<lambda>a. - amount_in a (vbw_amount x)) st
      (modify_vesting (vbw_vesting_balance x) (vb_withdraw E (head_block_time st) (vbw_amount x)) st)"
    by (rule moves_modify_vesting) (simp add: vb_withdraw_amount)
  moreover have "moves (\<lambda>a. amount_in a (vbw_amount x)) st1 (Inr st')"
    using moves_adjust_balance [of "vbw_amount x" st1 E "vbw_owner x"] 2 by simp
  ultimately show "moves (\<lambda>_. 0) st (Inr st')" unfolding 1 by (rule moves_seq) simp
qed

interpretation ev_transfer: conserving_evaluator "transfer_do_apply E x" for E :: "'e fc_env_scheme" and x
  by unfold_locales (rule moves_transfer)

interpretation ev_override: conserving_evaluator "override_transfer_do_apply E x" for E :: "'e fc_env_scheme" and x
  by unfold_locales (rule moves_override_transfer)

interpretation ev_vesting_create: conserving_evaluator "vesting_create_do_apply E x" for E :: "'e fc_env_scheme" and x
  by unfold_locales (rule moves_vesting_create)

interpretation ev_vesting_withdraw: conserving_evaluator "vesting_withdraw_do_apply E x" for E :: "'e fc_env_scheme" and x
  by unfold_locales (rule moves_vesting_withdraw)

subsection \<open>The amount that is cut\<close>

lemma to_share_scaled:
  fixes p q :: nat
  assumes E: "fc_contract E" and x: "0 \<le> x" "x < 2 ^ 63" and p: "p \<le> q" "0 < q" "q < 2 ^ 64"
  shows "to_share E ((word_of_int x * word_of_nat p :: u128) div word_of_nat q) = Inr (x * int p div int q)"
    "0 \<le> x * int p div int q" "x * int p div int q \<le> x"
proof -
  define w where "w = (word_of_int x * word_of_nat p :: u128) div word_of_nat q"
  have le: "x * int p \<le> x * int q" using x(1) p by (intro mult_left_mono) auto
  have "x * int q \<le> 2 ^ 63 * 2 ^ 64" using x p by (intro mult_mono) auto
  then have "x * int p < 2 ^ 128" using le by simp
  moreover have "(word_of_int x * word_of_nat p :: u128) = word_of_int (x * int p)" by simp
  ultimately have m: "uint (word_of_int x * word_of_nat p :: u128) = x * int p"
    using x(1) by (simp only: uint_word_of_int_eq) (rule take_bit_int_eq_self, simp_all)
  have "uint (word_of_nat q :: u128) = int q"
    using p(3) by (simp add: uint_nat unat_of_nat)
  then have w: "uint w = x * int p div int q" unfolding w_def by (simp add: uint_div_distrib m)
  show up: "x * int p div int q \<le> x" using zdiv_mono1 [OF le, of "int q"] p(2) by simp
  show "0 \<le> x * int p div int q" using x(1) p(2) by (simp add: pos_imp_zdiv_nonneg_iff)
  have "uint w < 2 ^ 63" using w up x(2) by simp
  then show "to_share E ((word_of_int x * word_of_nat p :: u128) div word_of_nat q) = Inr (x * int p div int q)"
    using to_share_small [OF E, of w] w by (simp add: w_def)
qed

lemma deflated_part_exact:
  assumes "fc_contract E" and "0 \<le> x" "x < 2 ^ 63" and "rate \<le> GRAPHENE_DEFLATION_RATE_SCALE"
  shows "deflated_part E x rate = Inr (x * int rate div 100000000)"
    "0 \<le> x * int rate div 100000000" "x * int rate div 100000000 \<le> x"
  using to_share_scaled [OF assms] by (simp_all add: deflated_part_def GRAPHENE_DEFLATION_RATE_SCALE_def)

subsection \<open>What a transfer does to balances\<close>

lemma find_update_other:
  assumes "map_of xs i = Some y" and "\<not> Q (i, y)" and "\<not> Q (i, v)"
  shows "find Q (AList.update i v xs) = find Q xs"
  using assms by (induction xs) auto

lemma find_snoc: "\<not> Q y \<Longrightarrow> find Q (xs @ [y]) = find Q xs"
  by (induction xs) auto

lemma find_snoc_found: "find Q xs = None \<Longrightarrow> Q y \<Longrightarrow> find Q (xs @ [y]) = Some y"
  by (induction xs) (auto split: if_splits)

lemma find_update_same:
  "find Q xs = Some (j, u) \<Longrightarrow> map_of xs j = Some u \<Longrightarrow> Q (j, v) \<Longrightarrow> find Q (AList.update j v xs) = Some (j, v)"
  by (induction xs) (auto split: if_splits)

lemma freeze_account_result:
  assumes E: "fc_contract E" and wf: "ledger_wf (objects st)" and rate: "rate \<le> GRAPHENE_DEFLATION_RATE_SCALE"
    and b: "0 \<le> amount (get_balance st owner 0)" "amount (get_balance st owner 0) < 2 ^ 63"
    and ok: "freeze_account E i rate owner st = Inr (st', dlft)"
  shows "dlft = (if needs_deflation st i owner then amount (get_balance st owner 0) * int rate div 100000000 else 0)"
    "\<exists>t. st' = st\<lparr>objects := objects st\<lparr>account_deflations := t\<rparr>\<rparr>"
    "owner' \<noteq> owner \<Longrightarrow> account_deflation_of st' owner' = account_deflation_of st owner'"
proof -
  note part = deflated_part_exact(1) [OF E b rate]
  show "dlft = (if needs_deflation st i owner then amount (get_balance st owner 0) * int rate div 100000000 else 0)"
    "\<exists>t. st' = st\<lparr>objects := objects st\<lparr>account_deflations := t\<rparr>\<rparr>"
    using ok part
    by (auto simp: freeze_account_def Let_def res_simps case_prod_beta split: if_splits option.split_asm
        intro: exI [of _ "account_deflations (objects st)"])
  assume ne: "owner' \<noteq> owner"
  show "account_deflation_of st' owner' = account_deflation_of st owner'"
  proof (cases "account_deflation_of st owner")
    case None
    then show ?thesis
      using ok ne by (auto simp: freeze_account_def Let_def res_simps case_prod_beta tbl_create_def account_deflation_of_def find_snoc
          split: if_splits option.splits)
  next
    case (Some r)
    then obtain j x where x: "account_deflation_of st owner = Some (j, x)" by (cases r) auto
    have f: "tbl_find (account_deflations (objects st)) j = Some x" by (rule account_deflation_found(1) [OF wf x])
    have o: "adf_obj_owner x = owner" using x by (auto simp: account_deflation_of_def find_Some_iff)
    show ?thesis
      using ok ne x f o
      by (auto simp: freeze_account_def Let_def res_simps account_deflation_of_def tbl_find_def split: if_splits intro!: find_update_other)
  qed
qed

text \<open>An account that is cut gets its mark, and the amount is recorded as frozen.\<close>

lemma freeze_account_marks:
  assumes wf: "ledger_wf (objects st)" and ok: "freeze_account E i rate owner st = Inr (st', dlft)"
  shows "\<not> needs_deflation st' i owner"
    "needs_deflation st i owner \<Longrightarrow> \<exists>j y. account_deflation_of st' owner = Some (j, y) \<and> adf_frozen y = dlft \<and> adf_cleared y"
proof -
  have "\<exists>j y. account_deflation_of st' owner = Some (j, y) \<and> adf_frozen y = dlft \<and> adf_cleared y" if n: "needs_deflation st i owner"
  proof (cases "account_deflation_of st owner")
    case None
    then show ?thesis
      using ok n by (auto simp: freeze_account_def Let_def res_simps tbl_create_def account_deflation_of_def find_snoc_found)
  next
    case (Some r)
    then obtain j x where x: "account_deflation_of st owner = Some (j, x)" by (cases r) auto
    have f: "map_of (rows (account_deflations (objects st))) j = Some x"
      using account_deflation_found(1) [OF wf x] by (simp add: tbl_find_def)
    let ?y = "x\<lparr>adf_frozen := dlft, adf_cleared := True\<rparr>"
    note upd = find_update_same [OF x [unfolded account_deflation_of_def] f, of ?y]
    have "rows (account_deflations (objects st')) = AList.update j ?y (rows (account_deflations (objects st)))"
      using ok n x f by (auto simp: freeze_account_def Let_def res_simps tbl_find_def)
    moreover have "adf_obj_owner x = owner" using x by (auto simp: account_deflation_of_def find_Some_iff)
    ultimately have "account_deflation_of st' owner = Some (j, ?y)"
      using upd by (simp add: account_deflation_of_def)
    then show ?thesis by auto
  qed
  then show "needs_deflation st i owner \<Longrightarrow> \<exists>j y. account_deflation_of st' owner = Some (j, y) \<and> adf_frozen y = dlft \<and> adf_cleared y" .
  then show "\<not> needs_deflation st' i owner"
    using ok by (cases "needs_deflation st i owner") (auto simp: needs_deflation_def [of st'] freeze_account_def)
qed

lemma adjust_balance_deflations:
  assumes "adjust_balance E account delta st = Inr st'"
  shows "account_deflation_of st' = account_deflation_of st" "running_deflation st' = running_deflation st"
proof -
  have "account_deflations (objects st') = account_deflations (objects st) \<and> deflations (objects st') = deflations (objects st)"
  proof (cases "amount delta = 0")
    case False
    with assms show ?thesis by (cases rule: adjust_balance_cases) auto
  qed (use assms in \<open>simp add: adjust_balance_def\<close>)
  then show "account_deflation_of st' = account_deflation_of st" "running_deflation st' = running_deflation st"
    by (simp_all add: account_deflation_of_def running_deflation_def fun_eq_iff)
qed

lemma adjust_balance_get:
  assumes "adjust_balance E account delta st = Inr st'"
  shows "amount (get_balance st' owner a) = amount (get_balance st owner a) +
    (if owner = account \<and> a = asset_id delta then amount delta else 0)"
proof (cases "amount delta = 0")
  case False
  with assms show ?thesis
    by (cases rule: adjust_balance_cases)
      (auto simp: get_balance_def mk_asset_def map_add_def split: option.splits)
qed (use assms in \<open>simp add: adjust_balance_def\<close>)

lemma running_deflation_row:
  assumes "running_deflation st a = Some (i, d)"
  shows "(i, d) \<in> set (rows (deflations (objects st)))"
proof -
  have "last_row (deflations (objects st)) = Some (i, d)"
    using assms by (simp add: running_deflation_def split: if_splits option.splits prod.splits)
  then show ?thesis by (metis last_row_def last_in_set option.distinct(1) option.inject)
qed

definition deflation_cut :: "'z chain \<Rightarrow> asset_id_type \<Rightarrow> account_id_type \<Rightarrow> int" where
  "deflation_cut st a owner =
     (case running_deflation st a of
        None \<Rightarrow> 0
      | Some (i, d) \<Rightarrow> if needs_deflation st i owner then amount (get_balance st owner a) * int (dfl_rate d) div 100000000 else 0)"

text \<open>What a transfer does to the two accounts before it moves the amount.\<close>

lemma transfer_freezes:
  assumes E: "fc_contract E" and wf: "ledger_wf (objects st)" and nd: "no_debt (objects st)"
    and rates: "list_all (\<lambda>(i, d). dfl_rate d \<le> GRAPHENE_DEFLATION_RATE_SCALE) (rows (deflations (objects st)))"
    and ne: "from \<noteq> to" and d: "running_deflation st a = Some (i, d)"
    and f: "freeze_account E i (dfl_rate d) from st = Inr (st0, df)" "freeze_account E i (dfl_rate d) to st0 = Inr (st1, dt)"
  shows "get_balance st1 = get_balance st" "df = deflation_cut st a from" "dt = deflation_cut st a to"
    "running_deflation st1 = running_deflation st"
    "owner \<in> {from, to} \<Longrightarrow> \<not> needs_deflation st1 i owner \<and> (needs_deflation st i owner \<longrightarrow>
       (\<exists>j y. account_deflation_of st1 owner = Some (j, y) \<and> adf_frozen y = deflation_cut st a owner \<and> adf_cleared y))"
    "owner \<notin> {from, to} \<Longrightarrow> account_deflation_of st1 owner = account_deflation_of st owner"
proof -
  have a0: "a = 0" using d by (auto simp: running_deflation_def split: if_splits)
  have rate: "dfl_rate d \<le> GRAPHENE_DEFLATION_RATE_SCALE" using running_deflation_row [OF d] rates by (auto simp: list_all_iff)
  have b: "0 \<le> amount (get_balance st k 0)" "amount (get_balance st k 0) < 2 ^ 63" for k
    using nd by (auto simp: get_balance_def mk_asset_def no_debt_def list_all_iff fc_int64_def split: option.splits dest!: map_of_SomeD)
  note r1 = freeze_account_result [OF E wf rate b f(1)] and k1 = freeze_account_marks [OF wf f(1)]
  have wf0: "ledger_wf (objects st0)" using moves_result [OF moves_freeze [OF f(1)] refl wf] by blast
  have g: "get_balance st0 = get_balance st" using r1(2) by (auto simp: get_balance_def fun_eq_iff)
  note r2 = freeze_account_result [OF E wf0 rate b [of to, folded g] f(2)] and k2 = freeze_account_marks [OF wf0 f(2)]
  have nt: "needs_deflation st0 i to = needs_deflation st i to"
    using r1(3) [OF ne [symmetric]] by (simp add: needs_deflation_def)
  show "get_balance st1 = get_balance st" using r2(2) g by (auto simp: get_balance_def fun_eq_iff)
  show df: "df = deflation_cut st a from" and dt: "dt = deflation_cut st a to"
    using r1(1) r2(1) nt d a0 g by (simp_all add: deflation_cut_def)
  show "running_deflation st1 = running_deflation st"
    using r1(2) r2(2) by (auto simp: running_deflation_def fun_eq_iff)
  have nf: "needs_deflation st1 i from = needs_deflation st0 i from" "account_deflation_of st1 from = account_deflation_of st0 from"
    using r2(3) [OF ne] by (simp_all add: needs_deflation_def)
  show "\<not> needs_deflation st1 i owner \<and> (needs_deflation st i owner \<longrightarrow>
       (\<exists>j y. account_deflation_of st1 owner = Some (j, y) \<and> adf_frozen y = deflation_cut st a owner \<and> adf_cleared y))"
    if "owner \<in> {from, to}"
    using that k1 k2 nf nt df dt by auto
  show "account_deflation_of st1 owner = account_deflation_of st owner" if "owner \<notin> {from, to}"
    using that r1(3) [of owner] r2(3) [of owner] by simp
qed

text \<open>
  C29: a transfer between two accounts takes the amount from one, gives it to the other and touches no other
  balance. While a deflation of the core asset has not reached them, both accounts are first cut
  by its rate, rounded down, on the balances they had before the transfer; the cut is recorded as
  frozen and the account marked. After the transfer neither of the two accounts is still to be
  cut by this deflation, so that each is cut once; the marks of other accounts stay.
\<close>

theorem transfer_balances:
  assumes E: "fc_contract E" and wf: "ledger_wf (objects st)" and nd: "no_debt (objects st)"
    and rates: "list_all (\<lambda>(i, d). dfl_rate d \<le> GRAPHENE_DEFLATION_RATE_SCALE) (rows (deflations (objects st)))"
    and ne: "transfer_from x \<noteq> transfer_to x" and ok: "transfer_do_apply E x st = Inr (st', r)"
  defines "a \<equiv> asset_id (transfer_amount x)" and "m \<equiv> amount (transfer_amount x)"
  shows "amount (get_balance st' owner b) = amount (get_balance st owner b) +
      (if b \<noteq> a then 0
       else if owner = transfer_from x then - deflation_cut st a owner - m
       else if owner = transfer_to x then m - deflation_cut st a owner else 0) \<and>
    running_deflation st' a = running_deflation st a \<and>
    (\<forall>i d. running_deflation st a = Some (i, d) \<and> owner \<in> {transfer_from x, transfer_to x} \<longrightarrow>
       \<not> needs_deflation st' i owner \<and> (needs_deflation st i owner \<longrightarrow>
         (\<exists>j y. account_deflation_of st' owner = Some (j, y) \<and> adf_frozen y = deflation_cut st a owner \<and> adf_cleared y))) \<and>
    (owner \<notin> {transfer_from x, transfer_to x} \<or> running_deflation st a = None \<longrightarrow>
       account_deflation_of st' owner = account_deflation_of st owner)"
proof -
  let ?from = "transfer_from x" and ?to = "transfer_to x"
  obtain st1 st2 df dt neg taken given where
      1: "(case running_deflation st a of None \<Rightarrow> Inr (st, 0, 0)
           | Some (i, d) \<Rightarrow> bindE (freeze_account E i (dfl_rate d) ?from st) (\<lambda>(st, dlft_from).
                 bindE (freeze_account E i (dfl_rate d) ?to st) (\<lambda>(st, dlft_to).
                 Inr (st, dlft_from, dlft_to)))) = Inr (st1, df, dt)"
      and n: "asset_neg E (transfer_amount x) = Inr neg" "asset_minus E neg (mk_asset df a) = Inr taken"
        "asset_minus E (transfer_amount x) (mk_asset dt a) = Inr given"
      and 2: "adjust_balance E ?from taken st1 = Inr st2" and 3: "adjust_balance E ?to given st2 = Inr st'"
    using ok by (auto simp: transfer_do_apply_def Let_def res_simps a_def)
  have amt: "taken = mk_asset (- m - df) a" "given = mk_asset (m - dt) a"
    using n by (auto simp: asset_neg_def asset_minus_def res_simps mk_asset_def a_def m_def)
  have kept: "account_deflation_of st' = account_deflation_of st1" "running_deflation st' = running_deflation st1"
    using adjust_balance_deflations [OF 2] adjust_balance_deflations [OF 3] by simp_all
  then have needs: "needs_deflation st' = needs_deflation st1" by (simp add: needs_deflation_def fun_eq_iff)
  have bal: "amount (get_balance st' owner b) = amount (get_balance st owner b) +
      (if b \<noteq> a then 0 else if owner = ?from then - deflation_cut st a owner - m
       else if owner = ?to then m - deflation_cut st a owner else 0)"
    if "get_balance st1 = get_balance st" "df = deflation_cut st a ?from" "dt = deflation_cut st a ?to"
    using that adjust_balance_get [OF 2, of owner b] adjust_balance_get [OF 3, of owner b] ne by (auto simp: amt mk_asset_def)
  show ?thesis
  proof (cases "running_deflation st a")
    case None
    then have "st1 = st" "df = 0" "dt = 0" using 1 by simp_all
    then show ?thesis using None bal kept by (simp add: deflation_cut_def)
  next
    case (Some p)
    then obtain i and d :: deflation_object and st0 where d: "running_deflation st a = Some (i, d)"
        and f: "freeze_account E i (dfl_rate d) ?from st = Inr (st0, df)" "freeze_account E i (dfl_rate d) ?to st0 = Inr (st1, dt)"
      using 1 by (cases p) (auto simp: res_simps)
    note t = transfer_freezes [OF E wf nd rates ne d f]
    show ?thesis unfolding kept needs using bal [OF t(1-3)] t(4) t(5) [of owner] t(6) [of owner] d by auto
  qed
qed

text \<open>
  A deflation of ten per cent is running; account 10 owns 100 and sends 30 to account 11. It is
  cut by 10 and will not be cut again.
\<close>

definition example_deflation :: deflation_object where
  "example_deflation = \<lparr>dfl_timestamp = 900, dfl_issuer = 55120, dfl_rate = 10000000, last_account = 11, account_cursor = 10,
     balance_cleared = False, last_order = 4, order_cursor = 4, order_cleared = False, total_amount = 7\<rparr>"

lemma deflated_ten_percent: "0 \<le> x \<Longrightarrow> x < 2 ^ 63 \<Longrightarrow> deflated_part fc_std x 10000000 = Inr (x div 10)"
  using deflated_part_exact(1) [OF fc_std_contract, of x 10000000]
  by (simp add: GRAPHENE_DEFLATION_RATE_SCALE_def zdiv_zmult2_eq)

theorem transfer_balances_witness:
  defines "x \<equiv> \<lparr>fee = mk_asset 0 0, transfer_from = 10, transfer_to = 11, transfer_amount = mk_asset 30 0, transfer_memo = None\<rparr>"
    and "st \<equiv> example_chain\<lparr>objects := example_ledger\<lparr>deflations := \<lparr>rows = [(1, example_deflation)], next_instance = 2\<rparr>\<rparr>\<rparr>"
  shows "\<exists>st' r. transfer_do_apply fc_std x st = Inr (st', r) \<and> needs_deflation st 1 10 \<and>
    amount (get_balance st' 10 0) = 60 \<and> amount (get_balance st' 11 0) = 30 \<and> \<not> needs_deflation st' 1 10"
proof -
  have ob: "objects st = example_ledger\<lparr>deflations := \<lparr>rows = [(1, example_deflation)], next_instance = 2\<rparr>\<rparr>" by (simp add: st_def)
  have run: "running_deflation st 0 = Some (1, example_deflation)" "dfl_rate example_deflation = 10000000"
    by (simp_all add: running_deflation_def last_row_def ob example_deflation_def)
  have need: "account_deflation_of st k = None" "needs_deflation st 1 k" for k
    by (simp_all add: needs_deflation_def account_deflation_of_def ob example_ledger_def empty_table_def)
  have b: "amount (get_balance st 10 0) = 100" "amount (get_balance st 11 0) = 0"
    by (simp_all add: get_balance_def ob example_ledger_def mk_asset_def)
  let ?t = "\<lparr>rows = [(0, \<lparr>adf_obj_owner = 10, adf_last_deflation_id = 0, adf_frozen = 10, adf_cleared = True\<rparr>)], next_instance = 1\<rparr>"
  let ?u = "\<lparr>rows = [(0, \<lparr>adf_obj_owner = 10, adf_last_deflation_id = 0, adf_frozen = 10, adf_cleared = True\<rparr>),
      (1, \<lparr>adf_obj_owner = 11, adf_last_deflation_id = 0, adf_frozen = 0, adf_cleared = True\<rparr>)], next_instance = 2\<rparr>"
  let ?st0 = "st\<lparr>objects := objects st\<lparr>account_deflations := ?t\<rparr>\<rparr>" and ?st1 = "st\<lparr>objects := objects st\<lparr>account_deflations := ?u\<rparr>\<rparr>"
  have f1: "freeze_account fc_std 1 10000000 10 st = Inr (?st0, 10)"
    by (simp add: freeze_account_def need b deflated_ten_percent tbl_create_def del: One_nat_def) (simp add: ob example_ledger_def empty_table_def)
  have f2: "freeze_account fc_std 1 10000000 11 ?st0 = Inr (?st1, 0)"
    by (simp add: freeze_account_def needs_deflation_def account_deflation_of_def get_balance_def deflated_ten_percent tbl_create_def mk_asset_def)
       (simp add: ob example_ledger_def deflated_ten_percent tbl_create_def)
  have "\<exists>st' r. transfer_do_apply fc_std x st = Inr (st', r)"
    using run f1 f2 by (simp add: transfer_do_apply_def x_def mk_asset_def del: One_nat_def)
      (simp add: ob example_ledger_def mk_asset_def asset_neg_def asset_minus_def safe_neg_def safe_sub_def safe_add_def fc_int64_def
        adjust_balance_def asset_ge_def asset_less_def on_ledger_def)
  then obtain st' r where ok: "transfer_do_apply fc_std x st = Inr (st', r)" by blast
  have wf: "ledger_wf (objects st)"
    using example_ledger_wf by (simp add: ob ledger_wf_def tbl_wf_def example_chain_def Let_def)
  have nd: "no_debt (objects st)" by (simp add: ob no_debt_def example_ledger_def fc_int64_def)
  have rates: "list_all (\<lambda>(i, d). dfl_rate d \<le> GRAPHENE_DEFLATION_RATE_SCALE) (rows (deflations (objects st)))"
    by (simp add: ob example_deflation_def GRAPHENE_DEFLATION_RATE_SCALE_def)
  have ne: "transfer_from x \<noteq> transfer_to x" by (simp add: x_def)
  have cut: "deflation_cut st 0 10 = 10" "deflation_cut st 0 11 = 0"
    by (simp_all add: deflation_cut_def run need b del: One_nat_def)
  have xs: "asset_id (transfer_amount x) = 0" "amount (transfer_amount x) = 30" "transfer_from x = 10" "transfer_to x = 11"
    by (simp_all add: x_def mk_asset_def)
  note t = transfer_balances [OF fc_std_contract wf nd rates ne ok, unfolded xs]
  show ?thesis
    using t [of 10 0] t [of 11 0] ok need(2) cut b run by (auto simp del: One_nat_def)
qed

end
