(* ===== verification/Deflation.thy ===== *)
theory Deflation
  imports Evaluators
begin

text \<open>
  Deflation of the core asset (\<open>libraries/chain/deflation_evaluator.cpp\<close>, \<open>db_deflation.cpp\<close>): a
  deflation is issued by one account; then blocks carry operations that cut the balance of every
  account and the amount of every limit order, in the order of identifiers, at most 256 of them
  per block. An account or an order that moves before its turn is cut at once, and the amount
  is frozen until its turn.

  An iterator at the end of an index that the code dereferences is \<open>Undefined_behaviour\<close>.
\<close>

definition GRAPHENE_DEFLATION_ISSUE_ACCOUNT :: account_id_type where "GRAPHENE_DEFLATION_ISSUE_ACCOUNT = 55120"
definition GRAPHENE_DEFLATION_ACCOUNT_START_MARKER :: account_id_type where "GRAPHENE_DEFLATION_ACCOUNT_START_MARKER = 8"
definition GRAPHENE_MINIMUM_DEFLATION_INTERVAL :: nat where "GRAPHENE_MINIMUM_DEFLATION_INTERVAL = 3600 * 24 - 600"
definition GRAPHENE_DEFAULT_MAX_DEFLATION_OPERATIONS_PER_BLOCK :: nat where
  "GRAPHENE_DEFAULT_MAX_DEFLATION_OPERATIONS_PER_BLOCK = 256"

definition deref :: "'a option \<Rightarrow> 'a res" where
  "deref x = (case x of None \<Rightarrow> throwE Undefined_behaviour | Some v \<Rightarrow> Inr v)"

lemma deref_Inr [res_simps]: "deref x = Inr v \<longleftrightarrow> x = Some v"
  by (auto simp: deref_def throwE_def split: option.splits)

definition modify_deflation :: "nat \<Rightarrow> (deflation_object \<Rightarrow> deflation_object res) \<Rightarrow> 'z chain \<Rightarrow> 'z chain res" where
  "modify_deflation i f = on_ledger (\<lambda>L. bindE (tbl_modify i f (deflations L)) (\<lambda>t. Inr (L\<lparr>deflations := t\<rparr>)))"

definition modify_order :: "nat \<Rightarrow> (limit_order_object \<Rightarrow> limit_order_object res) \<Rightarrow> 'z chain \<Rightarrow> 'z chain res" where
  "modify_order i f = on_ledger (\<lambda>L. bindE (tbl_modify i f (limit_orders L)) (\<lambda>t. Inr (L\<lparr>limit_orders := t\<rparr>)))"

subsection \<open>Issuing a deflation\<close>

definition deflation_do_evaluate :: "deflation_operation \<Rightarrow> 'z chain \<Rightarrow> unit res" where
  "deflation_do_evaluate x st =
     bindE (assertE (deflation_issuer x = GRAPHENE_DEFLATION_ISSUE_ACCOUNT) ''only specified account can issue deflation'') (\<lambda>_.
     bindE (assertE (0 < deflation_op_rate x \<and> deflation_op_rate x < GRAPHENE_DEFLATION_RATE_SCALE) ''deflation rate'') (\<lambda>_.
     bindE (case last_row (deflations (objects st)) of
              None \<Rightarrow> Inr ()
            | Some (i, d) \<Rightarrow>
                bindE (assertE (balance_cleared d \<and> order_cleared d) ''another deflation is in progress'') (\<lambda>_.
                assertE ((dfl_timestamp d + GRAPHENE_MINIMUM_DEFLATION_INTERVAL) mod 2 ^ 32 < head_block_time st)
                  ''issue deflation too often'')) (\<lambda>_.
     assertE (case last_row (accounts (objects st)) of
                None \<Rightarrow> False | Some (i, a) \<Rightarrow> GRAPHENE_DEFLATION_ACCOUNT_START_MARKER \<le> i)
       ''there is no account to deflate'')))"

definition new_deflation :: "deflation_operation \<Rightarrow> nat \<Rightarrow> 'z chain \<Rightarrow> deflation_object" where
  "new_deflation x last_acc st =
     (let os = rows (limit_orders (objects st)) in
      \<lparr>dfl_timestamp = head_block_time st, dfl_issuer = deflation_issuer x, dfl_rate = deflation_op_rate x,
       last_account = last_acc, account_cursor = GRAPHENE_DEFLATION_ACCOUNT_START_MARKER, balance_cleared = False,
       last_order = (if os = [] then 0 else fst (last os)), order_cursor = (if os = [] then 0 else fst (hd os)),
       order_cleared = (os = []), total_amount = 0\<rparr>)"

definition deflation_placeholder :: "deflation_operation \<Rightarrow> 'z chain \<Rightarrow> deflation_object" where
  "deflation_placeholder x st =
     \<lparr>dfl_timestamp = head_block_time st, dfl_issuer = deflation_issuer x, dfl_rate = 0,
      last_account = GRAPHENE_DEFLATION_ACCOUNT_START_MARKER, account_cursor = GRAPHENE_DEFLATION_ACCOUNT_START_MARKER,
      balance_cleared = True, last_order = 0, order_cursor = 0, order_cleared = True, total_amount = 0\<rparr>"

definition deflation_do_apply :: "deflation_operation \<Rightarrow> 'z chain \<Rightarrow> ('z chain \<times> operation_result) res" where
  "deflation_do_apply x st =
     (let t = deflations (objects st);
          t = (if rows t = [] then snd (tbl_create (deflation_placeholder x st) t) else t)
      in
      bindE (deref (last_row (accounts (objects st)))) (\<lambda>(last_acc, _).
      Inr (st\<lparr>objects := objects st\<lparr>deflations := snd (tbl_create (new_deflation x last_acc st) t)\<rparr>\<rparr>, Void_result)))"

subsection \<open>Deflation of an account\<close>

definition account_deflation_do_evaluate :: "account_deflation_operation \<Rightarrow> 'z chain \<Rightarrow> unit res" where
  "account_deflation_do_evaluate x st =
     (case tbl_find (deflations (objects st)) (adf_deflation_id x) of
        None \<Rightarrow> throwE (Assert_exception ''deflation object not found'')
      | Some d \<Rightarrow>
          bindE (assertE (\<not> balance_cleared d) ''account deflation is already cleared'') (\<lambda>_.
          bindE (assertE (adf_owner x = account_cursor d) ''deflation for this account is in wrong order'') (\<lambda>_.
          case account_deflation_of st (adf_owner x) of
            None \<Rightarrow> Inr ()
          | Some (_, y) \<Rightarrow> assertE (adf_last_deflation_id y < adf_deflation_id x) ''last_deflation_id'')))"

text \<open>The amount and the mark of an account that was cut ahead of its turn, read and reset.\<close>

definition account_deflation_reset :: "account_deflation_operation \<Rightarrow> 'z chain \<Rightarrow> ('z chain \<times> bool \<times> int) res" where
  "account_deflation_reset x st =
     (let t = account_deflations (objects st); owner = adf_owner x in
      case account_deflation_of st owner of
        Some (i, y) \<Rightarrow>
          bindE (tbl_modify i (\<lambda>z. Inr (z\<lparr>adf_last_deflation_id := adf_deflation_id x, adf_frozen := 0, adf_cleared := False\<rparr>)) t) (\<lambda>t.
          Inr (st\<lparr>objects := objects st\<lparr>account_deflations := t\<rparr>\<rparr>, adf_cleared y, adf_frozen y))
      | None \<Rightarrow>
          Inr (st\<lparr>objects := objects st\<lparr>account_deflations := snd (tbl_create \<lparr>adf_obj_owner = owner,
                   adf_last_deflation_id = adf_deflation_id x, adf_frozen = 0, adf_cleared = False\<rparr> t)\<rparr>\<rparr>, False, 0))"

definition next_account_cursor :: "account_id_type \<Rightarrow> deflation_object \<Rightarrow> deflation_object" where
  "next_account_cursor owner d =
     d\<lparr>account_cursor := owner + 1, balance_cleared := (if owner = last_account d then True else balance_cleared d)\<rparr>"

definition add_deflated :: "'e fc_env_scheme \<Rightarrow> int \<Rightarrow> int \<Rightarrow> deflation_object \<Rightarrow> deflation_object res" where
  "add_deflated E deflation_amount frozen d =
     bindE (bindE (safe_add E deflation_amount frozen) (safe_add E (total_amount d))) (\<lambda>total_amt.
     Inr (d\<lparr>total_amount := total_amt\<rparr>))"

definition account_deflation_do_apply ::
    "'e fc_env_scheme \<Rightarrow> account_deflation_operation \<Rightarrow> 'z chain \<Rightarrow> ('z chain \<times> operation_result) res" where
  "account_deflation_do_apply E x st =
     bindE (deref (tbl_find (deflations (objects st)) (adf_deflation_id x))) (\<lambda>d.
     bindE (account_deflation_reset x st) (\<lambda>(st, cleared, frozen).
     bindE (if cleared then Inr 0 else deflated_part E (amount (get_balance st (adf_owner x) 0)) (dfl_rate d)) (\<lambda>deflation_amount.
     bindE (if 0 < deflation_amount
            then bindE (asset_neg E (mk_asset deflation_amount 0)) (\<lambda>neg. adjust_balance E (adf_owner x) neg st) else Inr st) (\<lambda>st.
     bindE (modify_deflation (adf_deflation_id x)
              (\<lambda>d. add_deflated E deflation_amount frozen (next_account_cursor (adf_owner x) d)) st) (\<lambda>st.
     Inr (st, Void_result))))))"

subsection \<open>Deflation of an order\<close>

definition take_core_in_orders :: "'e fc_env_scheme \<Rightarrow> asset \<Rightarrow> account_statistics_object \<Rightarrow> account_statistics_object res" where
  "take_core_in_orders E paid b =
     (if asset_id paid = 0
      then bindE (safe_sub E (total_core_in_orders b) (amount paid)) (\<lambda>c. Inr (b\<lparr>total_core_in_orders := c\<rparr>))
      else Inr b)"

definition pay_order :: "'e fc_env_scheme \<Rightarrow> account_id_type \<Rightarrow> asset \<Rightarrow> asset \<Rightarrow> 'z chain \<Rightarrow> 'z chain res" where
  "pay_order E receiver recv paid st =
     bindE (tbl_get (accounts (objects st)) receiver) (\<lambda>a.
     bindE (modify_stats (acct_statistics a) (take_core_in_orders E paid) st) (\<lambda>st.
     adjust_balance E receiver recv st))"

definition order_deflation_of :: "'z chain \<Rightarrow> nat \<Rightarrow> (nat \<times> order_deflation_object) option" where
  "order_deflation_of st i = find (\<lambda>(j, x). odf_obj_order x = i) (rows (order_deflations (objects st)))"

definition order_deflation_do_evaluate :: "order_deflation_operation \<Rightarrow> 'z chain \<Rightarrow> unit res" where
  "order_deflation_do_evaluate x st =
     (case tbl_find (deflations (objects st)) (odf_deflation_id x) of
        None \<Rightarrow> throwE (Assert_exception ''deflation object not found'')
      | Some d \<Rightarrow>
          bindE (assertE (\<not> order_cleared d) ''order deflation is already cleared'') (\<lambda>_.
          bindE (assertE (tbl_find (limit_orders (objects st)) (odf_order x) \<noteq> None) ''deflation order not found'') (\<lambda>_.
          case order_deflation_of st (odf_order x) of
            None \<Rightarrow> Inr ()
          | Some (_, y) \<Rightarrow> assertE (odf_last_deflation_id y < odf_deflation_id x) ''last_deflation_id'')))"

definition next_order_cursor :: "nat \<Rightarrow> deflation_object \<Rightarrow> deflation_object" where
  "next_order_cursor i d = d\<lparr>order_cursor := i + 1, order_cleared := (if i = last_order d then True else order_cleared d)\<rparr>"

definition cut_order :: "'e fc_env_scheme \<Rightarrow> nat \<Rightarrow> account_id_type \<Rightarrow> int \<Rightarrow> 'z chain \<Rightarrow> 'z chain res" where
  "cut_order E i seller_id amt st =
     bindE (modify_order i (\<lambda>z. bindE (safe_sub E (for_sale z) amt) (\<lambda>f. Inr (z\<lparr>for_sale := f\<rparr>))) st) (\<lambda>st.
     pay_order E seller_id (mk_asset 0 0) (mk_asset amt 0) st)"

definition order_deflation_reset :: "order_deflation_operation \<Rightarrow> 'z chain \<Rightarrow> ('z chain \<times> bool \<times> int) res" where
  "order_deflation_reset x st =
     (let t = order_deflations (objects st) in
      case order_deflation_of st (odf_order x) of
        Some (i, y) \<Rightarrow>
          bindE (tbl_modify i (\<lambda>z. Inr (z\<lparr>odf_last_deflation_id := odf_deflation_id x, odf_frozen := 0, odf_cleared := False\<rparr>)) t) (\<lambda>t.
          Inr (st\<lparr>objects := objects st\<lparr>order_deflations := t\<rparr>\<rparr>, odf_cleared y, odf_frozen y))
      | None \<Rightarrow>
          Inr (st\<lparr>objects := objects st\<lparr>order_deflations := snd (tbl_create \<lparr>odf_obj_order = odf_order x,
                   odf_last_deflation_id = odf_deflation_id x, odf_frozen = 0, odf_cleared = False\<rparr> t)\<rparr>\<rparr>, False, 0))"

definition order_deflation_do_apply ::
    "'e fc_env_scheme \<Rightarrow> order_deflation_operation \<Rightarrow> 'z chain \<Rightarrow> ('z chain \<times> operation_result) res" where
  "order_deflation_do_apply E x st =
     bindE (deref (tbl_find (deflations (objects st)) (odf_deflation_id x))) (\<lambda>d.
     bindE (deref (tbl_find (limit_orders (objects st)) (odf_order x))) (\<lambda>order.
     if asset_id (base (sell_price order)) \<noteq> 0 then
       bindE (modify_deflation (odf_deflation_id x) (\<lambda>d. Inr (next_order_cursor (odf_order x) d)) st) (\<lambda>st.
       Inr (st, Void_result))
     else
       bindE (order_deflation_reset x st) (\<lambda>(st, cleared, frozen).
       bindE (if cleared then Inr 0 else deflated_part E (for_sale order) (dfl_rate d)) (\<lambda>deflation_amount.
       bindE (if 0 < deflation_amount
              then bindE (cut_order E (odf_order x) (lo_seller order) deflation_amount st) (\<lambda>st.
                   bindE (tbl_get (accounts (objects st)) (lo_seller order)) (\<lambda>a.
                   modify_stats (acct_statistics a) (\<lambda>b.
                     bindE (safe_sub E (total_core_in_orders b) deflation_amount) (\<lambda>c.
                     Inr (b\<lparr>total_core_in_orders := c\<rparr>))) st))
              else Inr st) (\<lambda>st.
       bindE (modify_deflation (odf_deflation_id x)
                (\<lambda>d. add_deflated E deflation_amount frozen (next_order_cursor (odf_order x) d)) st) (\<lambda>st.
       Inr (st, Void_result)))))))"

subsection \<open>The operations of a block\<close>

definition order_deflation_ops ::
    "'e fc_env_scheme \<Rightarrow> nat \<Rightarrow> deflation_object \<Rightarrow> (nat \<times> limit_order_object) list \<Rightarrow> 'z chain \<Rightarrow> order_deflation_operation list res" where
  "order_deflation_ops E i d os st =
     foldE (\<lambda>(j, y) acc.
       bindE (if asset_id (base (sell_price y)) = 0 then
                (case order_deflation_of st j of
                   Some (_, z) \<Rightarrow> if odf_cleared z then Inr (odf_frozen z) else deflated_part E (for_sale y) (dfl_rate d)
                 | None \<Rightarrow> deflated_part E (for_sale y) (dfl_rate d))
              else Inr 0) (\<lambda>amt.
       Inr (acc @ [\<lparr>fee = mk_asset 0 0, odf_deflation_id = i, odf_order = j, odf_owner = lo_seller y, odf_amount = amt\<rparr>]))) os []"

definition account_deflation_ops ::
    "'e fc_env_scheme \<Rightarrow> nat \<Rightarrow> deflation_object \<Rightarrow> (nat \<times> account_object) list \<Rightarrow> 'z chain \<Rightarrow> account_deflation_operation list res" where
  "account_deflation_ops E i d as st =
     foldE (\<lambda>(j, y) acc.
       bindE (case account_deflation_of st j of
                Some (_, z) \<Rightarrow> if adf_cleared z then Inr (adf_frozen z)
                               else deflated_part E (amount (get_balance st j 0)) (dfl_rate d)
              | None \<Rightarrow> deflated_part E (amount (get_balance st j 0)) (dfl_rate d)) (\<lambda>amt.
       Inr (acc @ [\<lparr>fee = mk_asset 0 0, adf_deflation_id = i, adf_owner = j, adf_amount = amt\<rparr>]))) as []"

definition generate_deflation_operations :: "'e fc_env_scheme \<Rightarrow> 'z chain \<Rightarrow> (operation list \<times> 'z chain) res" where
  "generate_deflation_operations E st =
     (case last_row (deflations (objects st)) of
        None \<Rightarrow> Inr ([], st)
      | Some (i, d) \<Rightarrow>
          if order_cleared d \<and> balance_cleared d then Inr ([], st)
          else
            let os = dropWhile (\<lambda>(j, _). j < order_cursor d) (rows (limit_orders (objects st)));
                passed = (os = [] \<or> last_order d < fst (hd os))
            in
            bindE (if order_cleared d then Inr ([], st)
                   else if passed
                   then bindE (modify_deflation i (\<lambda>d. Inr (d\<lparr>order_cleared := True\<rparr>)) st) (\<lambda>st. Inr ([], st))
                   else bindE (order_deflation_ops E i d (take GRAPHENE_DEFAULT_MAX_DEFLATION_OPERATIONS_PER_BLOCK
                                 (takeWhile (\<lambda>(j, _). j \<le> last_order d) os)) st) (\<lambda>xs. Inr (xs, st))) (\<lambda>(xs, st).
            bindE (if balance_cleared d then Inr []
                   else account_deflation_ops E i d
                     (take (GRAPHENE_DEFAULT_MAX_DEFLATION_OPERATIONS_PER_BLOCK - length xs)
                        (takeWhile (\<lambda>(j, _). j \<le> last_account d)
                          (dropWhile (\<lambda>(j, _). j \<noteq> account_cursor d) (rows (accounts (objects st)))))) st) (\<lambda>ys.
            Inr (map Order_deflation_op xs @ map Account_deflation_op ys, st))))"

subsection \<open>Conservation\<close>

lemma moves_modify_deflation:
  assumes "\<And>d d'. tbl_find (deflations (objects st)) i = Some d \<Longrightarrow> f d = Inr d' \<Longrightarrow> total_amount d' = total_amount d + c"
  shows "moves (only_core c) st (modify_deflation i f st)"
proof (rule movesI)
  fix st' assume wf: "ledger_wf (objects st)" and ok: "modify_deflation i f st = Inr st'"
  let ?t = "deflations (objects st)"
  obtain d d' where d: "tbl_find ?t i = Some d" "f d = Inr d'"
      and st': "st' = st\<lparr>objects := objects st\<lparr>deflations := ?t\<lparr>rows := AList.update i d' (rows ?t)\<rparr>\<rparr>\<rparr>"
    using ok by (auto simp: modify_deflation_def res_simps)
  have t: "tbl_wf ?t" using wf by (simp add: ledger_wf_def)
  show "ledger_wf (objects st')" using wf tbl_wf_update [OF t d(1)] by (simp add: st' ledger_wf_def)
  show "gap a st' = gap a st - only_core c a" for a
    using assms [OF d] by (simp add: st' gap_field tsum_update [OF t d(1)] only_core_def)
qed

lemma moves_modify_order:
  assumes "\<And>z z' a. tbl_find (limit_orders (objects st)) i = Some z \<Longrightarrow> f z = Inr z' \<Longrightarrow>
    order_holds a z' = order_holds a z + d a"
  shows "moves d st (modify_order i f st)"
proof (rule movesI)
  fix st' assume wf: "ledger_wf (objects st)" and ok: "modify_order i f st = Inr st'"
  let ?t = "limit_orders (objects st)"
  obtain z z' where z: "tbl_find ?t i = Some z" "f z = Inr z'"
      and st': "st' = st\<lparr>objects := objects st\<lparr>limit_orders := ?t\<lparr>rows := AList.update i z' (rows ?t)\<rparr>\<rparr>\<rparr>"
    using ok by (auto simp: modify_order_def res_simps)
  have t: "tbl_wf ?t" using wf by (simp add: ledger_wf_def)
  show "ledger_wf (objects st')" using wf tbl_wf_update [OF t z(1)] by (simp add: st' ledger_wf_def)
  show "gap a st' = gap a st - d a" for a
    using assms [OF z] by (simp add: st' gap_field tsum_update [OF t z(1)])
qed

lemma moves_pay_order: "moves (\<lambda>a. amount_in a recv) st (pay_order E receiver recv paid st)"
  unfolding pay_order_def
  by (rule moves_check, rule moves_bind [where ?d1.0 = "only_core 0", OF moves_modify_stats moves_adjust_balance])
    (auto simp: take_core_in_orders_def res_simps only_core_def split: if_splits)

lemma moves_reset_account:
  assumes f: "account_deflation_of st owner = Some (i, y)" and v: "adf_frozen v = 0"
    and t: "tbl_modify i (\<lambda>_. Inr v) (account_deflations (objects st)) = Inr t"
  shows "moves (only_core (- adf_frozen y)) st (Inr (st\<lparr>objects := objects st\<lparr>account_deflations := t\<rparr>\<rparr>))"
proof (rule moves_wf)
  assume wf: "ledger_wf (objects st)"
  let ?t = "account_deflations (objects st)"
  note y = account_deflation_found [OF wf f]
  have w: "tbl_wf ?t" using wf by (simp add: ledger_wf_def)
  have t: "t = ?t\<lparr>rows := AList.update i v (rows ?t)\<rparr>" using t y(1) by (simp add: tbl_modify_Inr)
  have "list_all (\<lambda>(i, x). adf_cleared x \<or> adf_frozen x = 0) (AList.update i v (rows ?t))"
    by (rule list_all_update) (use wf v in \<open>auto simp: ledger_wf_def\<close>)
  then show ?thesis
    using wf v tbl_wf_update [OF w y(1)] unfolding t
    by (intro movesI) (auto simp: gap_field tsum_update [OF w y(1)] ledger_wf_def only_core_def)
qed

lemma moves_new_account:
  assumes "adf_frozen v = 0"
  shows "moves (\<lambda>_. 0) st (Inr (st\<lparr>objects := objects st\<lparr>account_deflations := snd (tbl_create v (account_deflations (objects st)))\<rparr>\<rparr>))"
  using assms tsum_create [OF surjective_pairing, of adf_frozen v "account_deflations (objects st)"]
    tbl_wf_create [OF _ surjective_pairing, of "account_deflations (objects st)" v]
  by (intro movesI) (auto simp: gap_field ledger_wf_def tbl_create_def)

lemma tbl_modify_const: "tbl_find t i = Some y \<Longrightarrow> tbl_modify i f t = tbl_modify i (\<lambda>_. f y) t"
  by (simp add: tbl_modify_def tbl_get_def)

lemma account_reset:
  assumes ok: "account_deflation_reset x st = Inr (st1, cleared, frozen)"
  shows "moves (only_core (- frozen)) st (Inr st1)" "\<exists>t. st1 = st\<lparr>objects := objects st\<lparr>account_deflations := t\<rparr>\<rparr>"
    "cleared \<longleftrightarrow> (\<exists>i y. account_deflation_of st (adf_owner x) = Some (i, y) \<and> adf_cleared y)"
proof -
  let ?o = "account_deflation_of st (adf_owner x)"
  show "\<exists>t. st1 = st\<lparr>objects := objects st\<lparr>account_deflations := t\<rparr>\<rparr>"
    "cleared \<longleftrightarrow> (\<exists>i y. ?o = Some (i, y) \<and> adf_cleared y)"
    using ok by (auto simp: account_deflation_reset_def Let_def res_simps split: option.split_asm prod.split_asm)
  show "moves (only_core (- frozen)) st (Inr st1)"
  proof (cases ?o)
    case None
    then show ?thesis
      using ok by (auto simp: account_deflation_reset_def Let_def only_core_def intro!: moves_cong [OF moves_new_account])
  next
    case (Some r)
    then obtain i y where y: "?o = Some (i, y)" by (cases r) auto
    let ?f = "\<lambda>z. Inr (z\<lparr>adf_last_deflation_id := adf_deflation_id x, adf_frozen := 0, adf_cleared := False\<rparr>)"
    obtain t where t: "tbl_modify i ?f (account_deflations (objects st)) = Inr t"
        "st1 = st\<lparr>objects := objects st\<lparr>account_deflations := t\<rparr>\<rparr>" "frozen = adf_frozen y"
      using ok y by (auto simp: account_deflation_reset_def Let_def bindE_eq_Inr)
    show ?thesis unfolding t(2,3)
    proof (rule moves_wf)
      assume "ledger_wf (objects st)"
      then have "tbl_find (account_deflations (objects st)) i = Some y" using account_deflation_found(1) y by blast
      then show "moves (only_core (- adf_frozen y)) st (Inr (st\<lparr>objects := objects st\<lparr>account_deflations := t\<rparr>\<rparr>))"
        by (intro moves_reset_account [OF y, of "y\<lparr>adf_last_deflation_id := adf_deflation_id x, adf_frozen := 0, adf_cleared := False\<rparr>"])
          (use t(1) tbl_modify_const in \<open>auto simp: tbl_modify_Inr\<close>)
    qed
  qed
qed

text \<open>The mark of the account is reset, its frozen amount is read, and the other marks stay.\<close>

lemma account_reset_marks:
  assumes wf: "ledger_wf (objects st)" and ok: "account_deflation_reset x st = Inr (st1, cleared, frozen)"
  shows "\<exists>j y. account_deflation_of st1 (adf_owner x) = Some (j, y) \<and> adf_last_deflation_id y = adf_deflation_id x \<and>
      adf_frozen y = 0 \<and> \<not> adf_cleared y"
    "frozen = (case account_deflation_of st (adf_owner x) of None \<Rightarrow> 0 | Some (_, y) \<Rightarrow> adf_frozen y)"
    "k \<noteq> adf_owner x \<Longrightarrow> account_deflation_of st1 k = account_deflation_of st k"
proof -
  let ?o = "account_deflation_of st (adf_owner x)"
  have "(\<exists>j y. account_deflation_of st1 (adf_owner x) = Some (j, y) \<and> adf_last_deflation_id y = adf_deflation_id x \<and>
      adf_frozen y = 0 \<and> \<not> adf_cleared y) \<and> frozen = (case ?o of None \<Rightarrow> 0 | Some (_, y) \<Rightarrow> adf_frozen y) \<and>
    (k \<noteq> adf_owner x \<longrightarrow> account_deflation_of st1 k = account_deflation_of st k)"
  proof (cases ?o)
    case None
    then show ?thesis
      using ok by (auto simp: account_deflation_reset_def Let_def tbl_create_def account_deflation_of_def find_snoc_found find_snoc)
  next
    case (Some r)
    then obtain i y where y: "?o = Some (i, y)" by (cases r) auto
    have m: "map_of (rows (account_deflations (objects st))) i = Some y"
      using account_deflation_found(1) [OF wf y] by (simp add: tbl_find_def)
    have o: "adf_obj_owner y = adf_owner x" using y by (auto simp: account_deflation_of_def find_Some_iff)
    let ?y = "y\<lparr>adf_last_deflation_id := adf_deflation_id x, adf_frozen := 0, adf_cleared := False\<rparr>"
    have r: "rows (account_deflations (objects st1)) = AList.update i ?y (rows (account_deflations (objects st)))" "frozen = adf_frozen y"
      using ok y m by (auto simp: account_deflation_reset_def Let_def res_simps tbl_find_def)
    have "account_deflation_of st1 (adf_owner x) = Some (i, ?y)"
      using find_update_same [OF y [unfolded account_deflation_of_def] m, of ?y] o by (simp add: account_deflation_of_def r)
    moreover have "account_deflation_of st1 k = account_deflation_of st k" if "k \<noteq> adf_owner x"
      unfolding account_deflation_of_def r(1) by (rule find_update_other [OF m]) (use that o in auto)
    ultimately show ?thesis using y r(2) by simp
  qed
  then show "\<exists>j y. account_deflation_of st1 (adf_owner x) = Some (j, y) \<and> adf_last_deflation_id y = adf_deflation_id x \<and>
      adf_frozen y = 0 \<and> \<not> adf_cleared y"
    "frozen = (case account_deflation_of st (adf_owner x) of None \<Rightarrow> 0 | Some (_, y) \<Rightarrow> adf_frozen y)"
    "k \<noteq> adf_owner x \<Longrightarrow> account_deflation_of st1 k = account_deflation_of st k"
    by blast+
qed

text \<open>
  C30: one step of the deflation of accounts. An account that was not cut ahead of its turn loses
  exactly the rate of its balance, rounded down; one that was cut ahead loses nothing more, and no
  other account is touched. The total of the deflation grows by what was cut now and what was
  frozen before, so shares are conserved in that sum, the cursor moves to the next account, and
  the account is recorded as reached by this deflation, with nothing frozen and no mark that it
  was cut ahead. The current supply of the core asset is not reduced.
\<close>

theorem account_deflation_correct:
  assumes E: "fc_contract E" and wf: "ledger_wf (objects st)" and nd: "no_debt (objects st)"
    and ev: "account_deflation_do_evaluate x st = Inr ()" and ap: "account_deflation_do_apply E x st = Inr (st', r)"
    and d: "tbl_find (deflations (objects st)) (adf_deflation_id x) = Some d" and rate: "dfl_rate d \<le> GRAPHENE_DEFLATION_RATE_SCALE"
  defines "ahead \<equiv> (\<exists>i y. account_deflation_of st (adf_owner x) = Some (i, y) \<and> adf_cleared y)"
    and "b \<equiv> amount (get_balance st (adf_owner x) 0)"
    and "before \<equiv> (case account_deflation_of st (adf_owner x) of None \<Rightarrow> 0 | Some (_, y) \<Rightarrow> adf_frozen y)"
  shows "ledger_wf (objects st') \<and> gap a st' = gap a st \<and>
    of_dynamic current_supply 0 (objects st') = of_dynamic current_supply 0 (objects st) \<and>
    amount (get_balance st' (adf_owner x) 0) = (if ahead then b else b - b * int (dfl_rate d) div 100000000) \<and>
    (\<exists>d'. tbl_find (deflations (objects st')) (adf_deflation_id x) = Some d' \<and> account_cursor d' = adf_owner x + 1 \<and>
       balance_cleared d' = (adf_owner x = last_account d) \<and>
       total_amount d' = total_amount d + (if ahead then 0 else b * int (dfl_rate d) div 100000000) + before) \<and>
    (\<exists>j y. account_deflation_of st' (adf_owner x) = Some (j, y) \<and> adf_last_deflation_id y = adf_deflation_id x \<and>
       adf_frozen y = 0 \<and> \<not> adf_cleared y) \<and>
    (\<forall>k. k \<noteq> adf_owner x \<longrightarrow> account_deflation_of st' k = account_deflation_of st k \<and> get_balance st' k c = get_balance st k c)"
proof -
  let ?i = "adf_deflation_id x" and ?o = "adf_owner x"
  obtain st1 st2 cleared frozen amt where
      1: "account_deflation_reset x st = Inr (st1, cleared, frozen)"
      and amt: "(if cleared then Inr 0 else deflated_part E (amount (get_balance st1 ?o 0)) (dfl_rate d)) = Inr amt"
      and cut: "(if 0 < amt then bindE (asset_neg E (mk_asset amt 0)) (\<lambda>neg. adjust_balance E ?o neg st1) else Inr st1) = Inr st2"
      and 3: "modify_deflation ?i (\<lambda>d. add_deflated E amt frozen (next_account_cursor ?o d)) st2 = Inr st'"
    using ap d by (auto simp: account_deflation_do_apply_def bindE_eq_Inr deref_Inr)
  have 2: "if 0 < amt then adjust_balance E ?o (mk_asset (- amt) 0) st1 = Inr st2 else st2 = st1"
    using cut by (auto simp: asset_neg_def mk_asset_def res_simps split: if_splits)
  note reset = account_reset [OF 1] and marks = account_reset_marks [OF wf 1]
  have st1: "balances (objects st1) = balances (objects st)" "asset_dynamic (objects st1) = asset_dynamic (objects st)"
      "deflations (objects st1) = deflations (objects st)"
    using reset(2) by auto
  have b: "amount (get_balance st1 ?o 0) = b" by (simp add: b_def get_balance_def st1)
  have "0 \<le> b" "b < 2 ^ 63"
    using nd by (auto simp: b_def get_balance_def mk_asset_def no_debt_def list_all_iff fc_int64_def split: option.splits dest!: map_of_SomeD)
  note part = deflated_part_exact [OF E this rate]
  have amt': "amt = (if ahead then 0 else b * int (dfl_rate d) div 100000000)" "0 \<le> amt"
    using amt part reset(3) b by (auto simp: ahead_def split: if_splits)
  have st2: "asset_dynamic (objects st2) = asset_dynamic (objects st) \<and> deflations (objects st2) = deflations (objects st) \<and>
      amount (get_balance st2 ?o 0) = b - amt \<and> account_deflation_of st2 = account_deflation_of st1 \<and>
      (\<forall>k. k \<noteq> ?o \<longrightarrow> get_balance st2 k c = get_balance st k c)"
  proof (cases "0 < amt")
    case True
    then have adj: "adjust_balance E ?o (mk_asset (- amt) 0) st1 = Inr st2" using 2 by simp
    then show ?thesis
      by (cases rule: adjust_balance_cases)
        (use True st1 b adjust_balance_deflations(1) [OF adj] in \<open>auto simp: mk_asset_def get_balance_def map_add_def split: option.splits\<close>)
  next
    case False
    then show ?thesis using 2 amt'(2) st1 b by (simp add: get_balance_def)
  qed
  obtain d' where d': "add_deflated E amt frozen (next_account_cursor ?o d) = Inr d'"
      and st': "st' = st2\<lparr>objects := objects st2\<lparr>deflations := (deflations (objects st))\<lparr>rows := AList.update ?i d' (rows (deflations (objects st)))\<rparr>\<rparr>\<rparr>"
    using 3 d st2 by (auto simp: modify_deflation_def res_simps)
  have "moves (only_core (- amt)) st1 (Inr st2)"
    using 2 amt'(2) moves_adjust_balance [of "mk_asset (- amt) 0" st1 E ?o]
    by (auto simp: amount_in_core only_core_def [abs_def] intro!: moves_return split: if_splits)
  with reset(1) have "moves (only_core (- frozen - amt)) st (Inr st2)" by (rule moves_seq) (simp add: only_core_def)
  moreover have "moves (only_core (amt + frozen)) st2 (Inr st')"
    unfolding 3 [symmetric]
    by (rule moves_modify_deflation) (auto simp: add_deflated_def next_account_cursor_def res_simps)
  ultimately have "moves (\<lambda>_. 0) st (Inr st')" by (rule moves_seq) (simp add: only_core_def)
  then have "ledger_wf (objects st') \<and> gap a st' = gap a st" using wf by (simp add: moves_def)
  moreover have "of_dynamic current_supply 0 (objects st') = of_dynamic current_supply 0 (objects st)"
    using st2 by (simp add: st' of_dynamic_def)
  moreover have "amount (get_balance st' ?o 0) = (if ahead then b else b - b * int (dfl_rate d) div 100000000)"
    using st2 amt' by (auto simp: st' get_balance_def)
  moreover have "account_deflation_of st' = account_deflation_of st1" "get_balance st' k c = get_balance st2 k c" for k
    using st2 by (simp_all add: st' account_deflation_of_def get_balance_def fun_eq_iff)
  moreover have "total_amount d' = total_amount d + (if ahead then 0 else b * int (dfl_rate d) div 100000000) + before"
    using d' marks(2) amt'(1) by (auto simp: add_deflated_def next_account_cursor_def res_simps before_def)
  moreover have "balance_cleared d' = (?o = last_account d)" "account_cursor d' = ?o + 1"
    using d' ev d by (auto simp: add_deflated_def next_account_cursor_def res_simps account_deflation_do_evaluate_def split: if_splits)
  moreover have "tbl_find (deflations (objects st')) ?i = Some d'" by (simp add: st')
  ultimately show ?thesis using marks(1,3) st2 by auto
qed

lemma order_deflation_found:
  assumes "ledger_wf (objects st)" and "order_deflation_of st j = Some (i, x)"
  shows "tbl_find (order_deflations (objects st)) i = Some x"
proof -
  have "(i, x) \<in> set (rows (order_deflations (objects st)))"
    using assms(2) by (auto simp: order_deflation_of_def find_Some_iff in_set_conv_nth)
  then show ?thesis using assms(1) by (auto simp: ledger_wf_def tbl_wf_def tbl_find_def)
qed

lemma order_reset:
  assumes ok: "order_deflation_reset x st = Inr (st1, cleared, frozen)"
  shows "moves (only_core (- frozen)) st (Inr st1)" "\<exists>t. st1 = st\<lparr>objects := objects st\<lparr>order_deflations := t\<rparr>\<rparr>"
    "cleared \<longleftrightarrow> (\<exists>i y. order_deflation_of st (odf_order x) = Some (i, y) \<and> odf_cleared y)"
proof -
  let ?o = "order_deflation_of st (odf_order x)" and ?t = "order_deflations (objects st)"
  show "\<exists>t. st1 = st\<lparr>objects := objects st\<lparr>order_deflations := t\<rparr>\<rparr>"
    "cleared \<longleftrightarrow> (\<exists>i y. ?o = Some (i, y) \<and> odf_cleared y)"
    using ok by (auto simp: order_deflation_reset_def Let_def res_simps split: option.split_asm prod.split_asm)
  show "moves (only_core (- frozen)) st (Inr st1)"
  proof (rule moves_wf)
    assume wf: "ledger_wf (objects st)"
    then have w: "tbl_wf ?t" by (simp add: ledger_wf_def)
    show ?thesis
    proof (cases ?o)
      case None
      let ?v = "\<lparr>odf_obj_order = odf_order x, odf_last_deflation_id = odf_deflation_id x, odf_frozen = 0, odf_cleared = False\<rparr>"
      have "st1 = st\<lparr>objects := objects st\<lparr>order_deflations := snd (tbl_create ?v ?t)\<rparr>\<rparr>" "frozen = 0"
        using ok None by (auto simp: order_deflation_reset_def Let_def)
      then show ?thesis
        using tsum_create [OF surjective_pairing, of odf_frozen ?v ?t] tbl_wf_create [OF w surjective_pairing, of ?v] wf
        by (intro movesI) (auto simp: gap_field ledger_wf_def only_core_def tbl_create_def)
    next
      case (Some r)
      then obtain i y where y: "?o = Some (i, y)" by (cases r) auto
      note f = order_deflation_found [OF wf y]
      let ?v = "y\<lparr>odf_last_deflation_id := odf_deflation_id x, odf_frozen := 0, odf_cleared := False\<rparr>"
      have st1: "st1 = st\<lparr>objects := objects st\<lparr>order_deflations := ?t\<lparr>rows := AList.update i ?v (rows ?t)\<rparr>\<rparr>\<rparr>"
          "frozen = odf_frozen y"
        using ok y f by (auto simp: order_deflation_reset_def Let_def res_simps)
      have "list_all (\<lambda>(i, x). odf_cleared x \<or> odf_frozen x = 0) (AList.update i ?v (rows ?t))"
        by (rule list_all_update) (use wf in \<open>auto simp: ledger_wf_def\<close>)
      then show ?thesis
        unfolding st1 using wf tbl_wf_update [OF w f]
        by (intro movesI) (auto simp: gap_field tsum_update [OF w f] ledger_wf_def only_core_def)
    qed
  qed
qed

lemma cut_order_result:
  assumes ok: "cut_order E i seller_id amt st = Inr st'" and z: "tbl_find (limit_orders (objects st)) i = Some z"
    and core: "asset_id (base (sell_price z)) = 0"
  shows "moves (only_core (- amt)) st (Inr st')"
    "\<exists>a s. tbl_find (accounts (objects st)) seller_id = Some a \<and> tbl_find (account_stats (objects st)) (acct_statistics a) = Some s \<and>
       objects st' = objects st\<lparr>limit_orders := (limit_orders (objects st))\<lparr>rows :=
           AList.update i (z\<lparr>for_sale := for_sale z - amt\<rparr>) (rows (limit_orders (objects st)))\<rparr>,
         account_stats := (account_stats (objects st))\<lparr>rows := AList.update (acct_statistics a)
           (s\<lparr>total_core_in_orders := total_core_in_orders s - amt\<rparr>) (rows (account_stats (objects st)))\<rparr>\<rparr>"
proof -
  let ?f = "\<lambda>z. bindE (safe_sub E (for_sale z) amt) (\<lambda>f. Inr (z\<lparr>for_sale := f\<rparr>))"
  obtain st1 where 1: "modify_order i ?f st = Inr st1" and 2: "pay_order E seller_id (mk_asset 0 0) (mk_asset amt 0) st1 = Inr st'"
    using ok by (auto simp: cut_order_def bindE_eq_Inr)
  have "moves (only_core (- amt)) st (modify_order i ?f st)"
    by (rule moves_modify_order) (use z core in \<open>auto simp: res_simps order_holds_def only_core_def\<close>)
  then have m: "moves (only_core (- amt)) st (Inr st1)" by (simp only: 1)
  show "moves (only_core (- amt)) st (Inr st')"
    using moves_seq [OF m, of "\<lambda>a. amount_in a (mk_asset 0 0)" st'] moves_pay_order [of "mk_asset 0 0" st1 E seller_id "mk_asset amt 0"] 2
    by (simp add: amount_in_core only_core_def)
  show "\<exists>a s. tbl_find (accounts (objects st)) seller_id = Some a \<and> tbl_find (account_stats (objects st)) (acct_statistics a) = Some s \<and>
       objects st' = objects st\<lparr>limit_orders := (limit_orders (objects st))\<lparr>rows :=
           AList.update i (z\<lparr>for_sale := for_sale z - amt\<rparr>) (rows (limit_orders (objects st)))\<rparr>,
         account_stats := (account_stats (objects st))\<lparr>rows := AList.update (acct_statistics a)
           (s\<lparr>total_core_in_orders := total_core_in_orders s - amt\<rparr>) (rows (account_stats (objects st)))\<rparr>\<rparr>"
    using 1 2 z by (auto simp: modify_order_def pay_order_def modify_stats_def take_core_in_orders_def res_simps adjust_balance_def mk_asset_def)
qed

text \<open>
  C31: one step of the deflation of orders, for an order that sells the core asset. An order that
  was not cut ahead of its turn loses exactly the rate of the amount for sale, rounded down, and
  the total of the deflation grows by what was cut now or frozen before, so shares are conserved.
  The statistics of the seller are not kept in step: what the seller has in orders falls by the
  amount once in \<open>pay_order\<close> and once more in the evaluator.
\<close>

theorem order_deflation_counts_twice:
  assumes E: "fc_contract E" and wf: "ledger_wf (objects st)"
    and ap: "order_deflation_do_apply E x st = Inr (st', r)"
    and d: "tbl_find (deflations (objects st)) (odf_deflation_id x) = Some d" and rate: "dfl_rate d \<le> GRAPHENE_DEFLATION_RATE_SCALE"
    and z: "tbl_find (limit_orders (objects st)) (odf_order x) = Some z" "asset_id (base (sell_price z)) = 0"
      "0 \<le> for_sale z" "for_sale z < 2 ^ 63"
    and s: "tbl_find (accounts (objects st)) (lo_seller z) = Some a" "tbl_find (account_stats (objects st)) (acct_statistics a) = Some s"
  defines "ahead \<equiv> (\<exists>i y. order_deflation_of st (odf_order x) = Some (i, y) \<and> odf_cleared y)"
  defines "lost \<equiv> (if ahead then 0 else for_sale z * int (dfl_rate d) div 100000000)"
  shows "ledger_wf (objects st') \<and> gap b st' = gap b st \<and>
    tbl_find (limit_orders (objects st')) (odf_order x) = Some (z\<lparr>for_sale := for_sale z - lost\<rparr>) \<and>
    tbl_find (account_stats (objects st')) (acct_statistics a) =
      Some (s\<lparr>total_core_in_orders := total_core_in_orders s - 2 * lost\<rparr>)"
proof -
  let ?i = "odf_deflation_id x" and ?j = "odf_order x"
  let ?again = "\<lambda>amt b. bindE (safe_sub E (total_core_in_orders b) amt) (\<lambda>c. Inr (b\<lparr>total_core_in_orders := c\<rparr>))"
  obtain st1 st2 cleared frozen amt where
      1: "order_deflation_reset x st = Inr (st1, cleared, frozen)"
      and amt: "(if cleared then Inr 0 else deflated_part E (for_sale z) (dfl_rate d)) = Inr amt"
      and 2: "(if 0 < amt then bindE (cut_order E ?j (lo_seller z) amt st1) (\<lambda>st.
                   bindE (tbl_get (accounts (objects st)) (lo_seller z)) (\<lambda>a. modify_stats (acct_statistics a) (?again amt) st))
              else Inr st1) = Inr st2"
      and 3: "modify_deflation ?i (\<lambda>d. add_deflated E amt frozen (next_order_cursor ?j d)) st2 = Inr st'"
    using ap d z by (auto simp: order_deflation_do_apply_def bindE_eq_Inr deref_Inr)
  note reset = order_reset [OF 1] and part = deflated_part_exact [OF E z(3,4) rate]
  have cut: "amt = lost" "0 \<le> amt" using amt part reset(3) by (auto simp: ahead_def lost_def split: if_splits)
  have st1: "limit_orders (objects st1) = limit_orders (objects st)" "accounts (objects st1) = accounts (objects st)"
      "account_stats (objects st1) = account_stats (objects st)"
    using reset(2) by auto
  have "moves (only_core (- amt)) st1 (Inr st2) \<and>
    tbl_find (limit_orders (objects st2)) ?j = Some (z\<lparr>for_sale := for_sale z - amt\<rparr>) \<and>
    tbl_find (account_stats (objects st2)) (acct_statistics a) = Some (s\<lparr>total_core_in_orders := total_core_in_orders s - 2 * amt\<rparr>)"
  proof (cases "0 < amt")
    case False
    then show ?thesis using 2 cut(2) st1 z s by (auto simp: only_core_def intro!: moves_return)
  next
    case True
    then obtain st0 a' where c: "cut_order E ?j (lo_seller z) amt st1 = Inr st0"
        and a': "tbl_find (accounts (objects st0)) (lo_seller z) = Some a'" "modify_stats (acct_statistics a') (?again amt) st0 = Inr st2"
      using 2 by (auto simp: bindE_eq_Inr tbl_get_Inr)
    have "tbl_find (limit_orders (objects st1)) ?j = Some z" using st1 z by simp
    note c = cut_order_result [OF c this z(2)]
    have a: "a' = a" using c(2) a'(1) s st1 by auto
    have "moves (only_core 0) st0 (modify_stats (acct_statistics a') (?again amt) st0)"
      by (rule moves_modify_stats) (auto simp: res_simps)
    then have "moves (only_core 0) st0 (Inr st2)" by (simp only: a')
    with c(1) have "moves (only_core (- amt)) st1 (Inr st2)" by (rule moves_seq) (simp add: only_core_def)
    then show ?thesis using c(2) a'(2) s st1 z by (auto simp: a modify_stats_def res_simps)
  qed
  note m = conjunct1 [OF this] and st2 = conjunct2 [OF this]
  from reset(1) m have "moves (only_core (- frozen - amt)) st (Inr st2)" by (rule moves_seq) (simp add: only_core_def)
  moreover have "moves (only_core (amt + frozen)) st2 (Inr st')"
    unfolding 3 [symmetric]
    by (rule moves_modify_deflation) (auto simp: add_deflated_def next_order_cursor_def res_simps)
  ultimately have "moves (\<lambda>_. 0) st (Inr st')" by (rule moves_seq) (simp add: only_core_def)
  then have "ledger_wf (objects st') \<and> gap b st' = gap b st" using wf by (simp add: moves_def)
  moreover have "limit_orders (objects st') = limit_orders (objects st2)" "account_stats (objects st') = account_stats (objects st2)"
    using 3 by (auto simp: modify_deflation_def res_simps)
  ultimately show ?thesis using st2 by (simp add: cut)
qed

subsection \<open>A concrete deflation\<close>

text \<open>The example chain with a deflation of ten per cent that has reached account 10 and order 4.\<close>

definition example_order :: limit_order_object where
  "example_order = \<lparr>lo_expiration = 2000, lo_seller = 10, for_sale = 50, sell_price = mk_price (mk_asset 50 0) (mk_asset 10 1),
     deferred_fee = 0, exchange_fee_receiver = None\<rparr>"

definition deflating_chain :: "unit chain" where
  "deflating_chain = example_chain\<lparr>objects := example_ledger\<lparr>deflations := \<lparr>rows = [(1, example_deflation)], next_instance = 2\<rparr>,
     limit_orders := \<lparr>rows = [(4, example_order)], next_instance = 5\<rparr>\<rparr>\<rparr>"

lemma deflating_chain_wf: "ledger_wf (objects deflating_chain)"
  using example_ledger_wf by (simp add: deflating_chain_def ledger_wf_def tbl_wf_def example_chain_def Let_def)

lemma deflating_lookup [simp]:
  "tbl_find (deflations (objects deflating_chain)) 1 = Some example_deflation"
  "tbl_find (limit_orders (objects deflating_chain)) 4 = Some example_order"
  "account_deflation_of deflating_chain i = None" "order_deflation_of deflating_chain j = None"
  "objects deflating_chain = example_ledger\<lparr>deflations := \<lparr>rows = [(1, example_deflation)], next_instance = 2\<rparr>,
     limit_orders := \<lparr>rows = [(4, example_order)], next_instance = 5\<rparr>\<rparr>"
  by (simp_all add: deflating_chain_def tbl_find_def account_deflation_of_def order_deflation_of_def empty_table_def example_ledger_def)

theorem account_deflation_correct_witness:
  defines "x \<equiv> \<lparr>fee = mk_asset 0 0, adf_deflation_id = 1, adf_owner = 10, adf_amount = 10\<rparr>"
  shows "\<exists>st' r. account_deflation_do_apply fc_std x deflating_chain = Inr (st', r) \<and>
    amount (get_balance st' 10 0) = 90 \<and> gap 0 st' = gap 0 deflating_chain \<and>
    (\<exists>j y. account_deflation_of st' 10 = Some (j, y) \<and> adf_last_deflation_id y = 1 \<and> \<not> adf_cleared y)"
proof -
  have "\<exists>st' r. account_deflation_do_apply fc_std x deflating_chain = Inr (st', r)"
    by (simp add: account_deflation_do_apply_def deref_def account_deflation_reset_def x_def get_balance_def mk_asset_def
        example_ledger_def example_deflation_def deflated_ten_percent asset_neg_def safe_neg_def fc_int64_def
        adjust_balance_def asset_ge_def asset_less_def safe_add_def on_ledger_def modify_deflation_def tbl_modify_def
        tbl_get_def tbl_find_def add_deflated_def next_account_cursor_def)
  then obtain st' r where ap: "account_deflation_do_apply fc_std x deflating_chain = Inr (st', r)" by blast
  have ev: "account_deflation_do_evaluate x deflating_chain = Inr ()"
    by (simp add: account_deflation_do_evaluate_def x_def example_deflation_def tbl_find_def)
  have nd: "no_debt (objects deflating_chain)" by (simp add: no_debt_def example_ledger_def fc_int64_def)
  have d: "tbl_find (deflations (objects deflating_chain)) (adf_deflation_id x) = Some example_deflation"
    unfolding x_def by (simp add: tbl_find_def)
  have rate: "dfl_rate example_deflation \<le> GRAPHENE_DEFLATION_RATE_SCALE"
    by (simp add: example_deflation_def GRAPHENE_DEFLATION_RATE_SCALE_def)
  show ?thesis
    using account_deflation_correct [OF fc_std_contract deflating_chain_wf nd ev ap d rate, of 0 0] ap
    by (auto simp: x_def get_balance_def example_ledger_def example_deflation_def mk_asset_def)
qed

theorem order_deflation_counts_twice_witness:
  defines "x \<equiv> \<lparr>fee = mk_asset 0 0, odf_deflation_id = 1, odf_order = 4, odf_owner = 10, odf_amount = 5\<rparr>"
  shows "\<exists>st' r. order_deflation_do_apply fc_std x deflating_chain = Inr (st', r) \<and>
    map_option for_sale (tbl_find (limit_orders (objects st')) 4) = Some 45 \<and>
    map_option total_core_in_orders (tbl_find (account_stats (objects st')) 2) = Some (- 10)"
proof -
  have "\<exists>st' r. order_deflation_do_apply fc_std x deflating_chain = Inr (st', r)"
    by (simp add: order_deflation_do_apply_def deref_def order_deflation_reset_def x_def
        example_ledger_def example_order_def mk_price_def mk_asset_def example_deflation_def deflated_ten_percent cut_order_def
        modify_order_def pay_order_def take_core_in_orders_def modify_stats_def example_statistics_def
        adjust_balance_def safe_sub_def safe_add_def fc_int64_def on_ledger_def modify_deflation_def tbl_modify_def
        tbl_get_def tbl_find_def add_deflated_def next_order_cursor_def)
  then obtain st' r where ap: "order_deflation_do_apply fc_std x deflating_chain = Inr (st', r)" by blast
  have d: "tbl_find (deflations (objects deflating_chain)) (odf_deflation_id x) = Some example_deflation"
      "tbl_find (limit_orders (objects deflating_chain)) (odf_order x) = Some example_order"
    unfolding x_def by (simp_all add: tbl_find_def)
  have rate: "dfl_rate example_deflation \<le> GRAPHENE_DEFLATION_RATE_SCALE"
    by (simp add: example_deflation_def GRAPHENE_DEFLATION_RATE_SCALE_def)
  have o: "asset_id (base (sell_price example_order)) = 0" "0 \<le> for_sale example_order" "for_sale example_order < 2 ^ 63"
    by (simp_all add: example_order_def mk_price_def mk_asset_def)
  have s: "tbl_find (accounts (objects deflating_chain)) (lo_seller example_order) = Some (example_account ''alice'' 2)"
      "tbl_find (account_stats (objects deflating_chain)) (acct_statistics (example_account ''alice'' 2)) = Some (example_statistics 10 5)"
    using example_lookup by (simp_all add: example_order_def)
  show ?thesis
    using order_deflation_counts_twice [OF fc_std_contract deflating_chain_wf ap d(1) rate d(2) o s, of 0] ap
    by (auto simp: x_def example_order_def example_statistics_def example_deflation_def)
qed

end
