(* ===== verification/Market.thy ===== *)
theory Market
  imports Deflation
begin

text \<open>
  Limit orders (\<open>libraries/chain/db_market.cpp\<close>, \<open>market_object.hpp\<close>): market fees, cancelling,
  filling and matching, and the configuration of exchange fees (\<open>market_evaluator.cpp\<close>).

  A reference to an object is its identifier; reading through a reference to an object that has
  been removed is \<open>Undefined_behaviour\<close>. The assertions with \<open>assert\<close> only concern a debug build.
  The fixed-point division \<open>fc::real128\<close> that computes an exchange fee is not part of the sources:
  it is the parameter \<open>real128_fee\<close>, a function of the amount and the rate.
\<close>

record market_env = fee_env +
  rat :: rational
  real128_fee :: "int \<Rightarrow> nat \<Rightarrow> int"

subsection \<open>Objects of the market\<close>

definition GRAPHENE_EXCHANGE_RATE_SCALE :: nat where "GRAPHENE_EXCHANGE_RATE_SCALE = 10000000"
definition HARDFORK_555_TIME :: time_point_sec where "HARDFORK_555_TIME = 1456250400"

definition amount_for_sale :: "limit_order_object \<Rightarrow> asset" where
  "amount_for_sale x = mk_asset (for_sale x) (asset_id (base (sell_price x)))"

definition amount_to_receive :: "limit_order_object \<Rightarrow> asset res" where
  "amount_to_receive x = asset_mult (amount_for_sale x) (sell_price x)"

definition has_settlement :: "asset_bitasset_data_object \<Rightarrow> bool" where
  "has_settlement b \<longleftrightarrow> \<not> price_is_null (bit_settlement_price b)"

definition remove_limit_order :: "nat \<Rightarrow> 'z chain \<Rightarrow> 'z chain" where
  "remove_limit_order i st = st\<lparr>objects := objects st\<lparr>limit_orders := tbl_remove i (limit_orders (objects st))\<rparr>\<rparr>"

definition remove_order_deflation :: "nat \<Rightarrow> 'z chain \<Rightarrow> 'z chain" where
  "remove_order_deflation i st = st\<lparr>objects := objects st\<lparr>order_deflations := tbl_remove i (order_deflations (objects st))\<rparr>\<rparr>"

subsection \<open>Market fees\<close>

definition charges_market_fees :: "asset_object \<Rightarrow> bool" where
  "charges_market_fees a \<longleftrightarrow> flag_and (asset_flags (asset_opts a)) charge_market_fee \<noteq> 0"

definition calculate_market_fee :: "'e fc_env_scheme \<Rightarrow> asset_id_type \<Rightarrow> asset_object \<Rightarrow> asset \<Rightarrow> asset res" where
  "calculate_market_fee E i trade_asset trade_amount =
     (if \<not> charges_market_fees trade_asset then Inr (mk_asset 0 i)
      else if market_fee_percent (asset_opts trade_asset) = 0 then Inr (mk_asset 0 i)
      else
        bindE (to_share E ((word_of_int (amount trade_amount) * word_of_nat (market_fee_percent (asset_opts trade_asset)) :: u128)
                 div word_of_nat GRAPHENE_100_PERCENT)) (\<lambda>percent_fee.
        Inr (mk_asset (if max_market_fee (asset_opts trade_asset) < percent_fee
                       then max_market_fee (asset_opts trade_asset) else percent_fee) i)))"

definition pay_market_fees ::
    "'e fc_env_scheme \<Rightarrow> asset_id_type \<Rightarrow> asset_object \<Rightarrow> asset \<Rightarrow> 'z chain \<Rightarrow> ('z chain \<times> asset) res" where
  "pay_market_fees E i recv_asset recv st =
     bindE (calculate_market_fee E i recv_asset recv) (\<lambda>issuer_fees.
     bindE (if 0 < amount issuer_fees
            then modify_dynamic (dynamic_asset_data_id recv_asset) (\<lambda>d.
                   bindE (safe_add E (accumulated_fees d) (amount issuer_fees)) (\<lambda>f. Inr (d\<lparr>accumulated_fees := f\<rparr>))) st
            else Inr st) (\<lambda>st.
     Inr (st, issuer_fees)))"

subsection \<open>Exchange fees\<close>

definition get_fee_rate :: "limit_order_fee_config_object \<Rightarrow> asset_id_type \<Rightarrow> asset_id_type \<Rightarrow> nat \<times> nat" where
  "get_fee_rate c a b =
     (let key = (if b < a then (b, a) else (a, b)) in
      case map_of (fee_rates c) key of
        None \<Rightarrow> (0, 0)
      | Some (x, y) \<Rightarrow> if b < a then (y, x) else (x, y))"

definition set_fee_rate :: "limit_order_fee_config_operation \<Rightarrow> limit_order_fee_config_object \<Rightarrow> limit_order_fee_config_object" where
  "set_fee_rate x c = c\<lparr>fee_rates :=
     (if asset_b x < asset_a x
      then AList.update (asset_b x, asset_a x) (rate_b x, rate_a x) (fee_rates c)
      else AList.update (asset_a x, asset_b x) (rate_a x, rate_b x) (fee_rates c))\<rparr>"

definition fee_config_of :: "'z chain \<Rightarrow> account_id_type \<Rightarrow> (nat \<times> limit_order_fee_config_object) option" where
  "fee_config_of st r = find (\<lambda>(i, c). fee_receiver c = r) (rows (order_fee_configs (objects st)))"

text \<open>The assertions of \<open>do_evaluate\<close> are caught by its own handler, so it never fails.\<close>

definition fee_config_checks :: "limit_order_fee_config_operation \<Rightarrow> 'z chain \<Rightarrow> unit res" where
  "fee_config_checks x st =
     bindE (assertE (0 \<le> amount (fee x)) ''op.fee.amount >= 0'') (\<lambda>_.
     bindE (assertE (asset_a x \<noteq> asset_b x) ''op.asset_a != op.asset_b'') (\<lambda>_.
     bindE (assertE (rate_a x \<le> GRAPHENE_EXCHANGE_RATE_SCALE) ''rate_a'') (\<lambda>_.
     bindE (assertE (rate_b x \<le> GRAPHENE_EXCHANGE_RATE_SCALE) ''rate_b'') (\<lambda>_.
     assertE (tbl_find (accounts (objects st)) (lfc_receiver x) \<noteq> None) ''receiver not found''))))"

definition fee_config_do_evaluate :: "limit_order_fee_config_operation \<Rightarrow> 'z chain \<Rightarrow> unit res" where
  "fee_config_do_evaluate x st = (case fee_config_checks x st of Inl _ \<Rightarrow> Inr () | Inr _ \<Rightarrow> Inr ())"

definition fee_config_do_apply :: "limit_order_fee_config_operation \<Rightarrow> 'z chain \<Rightarrow> ('z chain \<times> operation_result) res" where
  "fee_config_do_apply x st =
     (let t = order_fee_configs (objects st);
          t' = (case fee_config_of st (lfc_receiver x) of
                  None \<Rightarrow> snd (tbl_create (set_fee_rate x \<lparr>fee_receiver = lfc_receiver x, fee_rates = []\<rparr>) t)
                | Some (i, c) \<Rightarrow> t\<lparr>rows := AList.update i (set_fee_rate x c) (rows t)\<rparr>)
      in Inr (st\<lparr>objects := objects st\<lparr>order_fee_configs := t'\<rparr>\<rparr>, Void_result))"

definition pay_exchange_fee ::
    "'e market_env_scheme \<Rightarrow> account_id_type \<Rightarrow> account_id_type option \<Rightarrow> asset \<Rightarrow> asset \<Rightarrow> asset \<Rightarrow> 'z chain \<Rightarrow> ('z chain \<times> nat) res" where
  "pay_exchange_fee E seller_id receiver recv issuer_fees pay st =
     (case receiver of
        None \<Rightarrow> Inr (st, 0)
      | Some r \<Rightarrow>
          (case fee_config_of st r of
             None \<Rightarrow> Inr (st, 0)
           | Some (_, conf) \<Rightarrow>
               let rate = fst (get_fee_rate conf (asset_id recv) (asset_id pay)) in
               if 0 < rate then
                 bindE (asset_minus E recv issuer_fees) (\<lambda>total_receive.
                 let exchange_got = mk_asset (real128_fee E (amount total_receive) rate) (asset_id total_receive) in
                 bindE (asset_neg E exchange_got) (\<lambda>taken.
                 bindE (adjust_balance E seller_id taken st) (\<lambda>st.
                 bindE (adjust_balance E r exchange_got st) (\<lambda>st.
                 Inr (st, rate)))))
               else Inr (st, 0)))"

subsection \<open>Cancelling an order\<close>

text \<open>The order has not been visited by the running deflation.\<close>

definition order_awaits_deflation :: "'z chain \<Rightarrow> nat \<Rightarrow> (nat \<times> deflation_object) option" where
  "order_awaits_deflation st i =
     (case last_row (deflations (objects st)) of
        None \<Rightarrow> None
      | Some (j, d) \<Rightarrow> if \<not> order_cleared d \<and> i \<le> last_order d \<and> order_cursor d \<le> i then Some (j, d) else None)"

definition order_deflation_vop :: "nat \<Rightarrow> nat \<Rightarrow> limit_order_object \<Rightarrow> int \<Rightarrow> operation" where
  "order_deflation_vop j i order amt =
     Order_deflation_op \<lparr>fee = mk_asset 0 0, odf_deflation_id = j, odf_order = i, odf_owner = lo_seller order, odf_amount = amt\<rparr>"

definition deflate_cancelled_order ::
    "'e fc_env_scheme \<Rightarrow> nat \<Rightarrow> limit_order_object \<Rightarrow> 'z chain \<Rightarrow> ('z chain \<times> int) res" where
  "deflate_cancelled_order E i order st =
     (if asset_id (base (sell_price order)) = 0 then
        let odf = order_deflation_of st i in
        bindE (case order_awaits_deflation st i of
                 None \<Rightarrow> Inr (st, 0)
               | Some (j, d) \<Rightarrow>
                   if (case odf of None \<Rightarrow> True | Some (_, y) \<Rightarrow> \<not> odf_cleared y) then
                     bindE (deflated_part E (for_sale order) (dfl_rate d)) (\<lambda>amt.
                     bindE (modify_deflation j (\<lambda>d. bindE (safe_add E (total_amount d) amt) (\<lambda>t. Inr (d\<lparr>total_amount := t\<rparr>))) st) (\<lambda>st.
                     Inr (push_applied_operation (order_deflation_vop j i order amt) st, amt)))
                   else Inr (st, 0)) (\<lambda>(st, amt).
        Inr (case odf of None \<Rightarrow> st | Some (k, _) \<Rightarrow> remove_order_deflation k st, amt))
      else Inr (st, 0))"

definition cancel_limit_order :: "'e fc_env_scheme \<Rightarrow> nat \<Rightarrow> bool \<Rightarrow> 'z chain \<Rightarrow> 'z chain res" where
  "cancel_limit_order E i create_virtual_op st =
     bindE (deref (tbl_find (limit_orders (objects st)) i)) (\<lambda>order.
     bindE (deflate_cancelled_order E i order st) (\<lambda>(st, deflation).
     bindE (asset_minus E (amount_for_sale order) (mk_asset deflation (asset_id (base (sell_price order))))) (\<lambda>refunded.
     bindE (tbl_get (accounts (objects st)) (lo_seller order)) (\<lambda>a.
     bindE (modify_stats (acct_statistics a) (take_core_in_orders E (amount_for_sale order)) st) (\<lambda>st.
     bindE (adjust_balance E (lo_seller order) refunded st) (\<lambda>st.
     bindE (adjust_balance E (lo_seller order) (mk_asset (deferred_fee order) 0) st) (\<lambda>st.
     let st = (if create_virtual_op
               then push_applied_operation (Limit_order_cancel_op
                      \<lparr>fee = mk_asset 0 0, cancel_order_id = i, loc_fee_paying_account = lo_seller order\<rparr>) st
               else st)
     in Inr (remove_limit_order i st))))))))"

definition maybe_cull_small_order :: "'e fc_env_scheme \<Rightarrow> nat \<Rightarrow> 'z chain \<Rightarrow> ('z chain \<times> bool) res" where
  "maybe_cull_small_order E i st =
     bindE (deref (tbl_find (limit_orders (objects st)) i)) (\<lambda>order.
     bindE (amount_to_receive order) (\<lambda>recv.
     if amount recv = 0 then bindE (cancel_limit_order E i True st) (\<lambda>st. Inr (st, True))
     else Inr (st, False)))"

subsection \<open>Filling an order\<close>

definition drop_filled_order :: "nat \<Rightarrow> limit_order_object \<Rightarrow> 'z chain \<Rightarrow> 'z chain" where
  "drop_filled_order i order st =
     (let st = (if asset_id (base (sell_price order)) = 0 then
                  (case order_deflation_of st i of
                     None \<Rightarrow> st
                   | Some (k, y) \<Rightarrow>
                       remove_order_deflation k
                         (case order_awaits_deflation st i of
                            None \<Rightarrow> st
                          | Some (j, _) \<Rightarrow>
                              if odf_cleared y \<and> 0 < odf_frozen y
                              then push_applied_operation (order_deflation_vop j i order (odf_frozen y)) st else st))
                else st)
      in remove_limit_order i st)"

definition fill_order_vop :: "nat \<Rightarrow> limit_order_object \<Rightarrow> asset \<Rightarrow> asset \<Rightarrow> asset \<Rightarrow> nat \<Rightarrow> operation" where
  "fill_order_vop i order pay recv issuer_fees rate =
     Fill_order_op \<lparr>fee = issuer_fees, fill_order_id = i, fill_account_id = lo_seller order, pays = pay, receives = recv,
       exchange_fee_rate = Some rate,
       exchange_fee_receiver = Some (case limit_order_object.exchange_fee_receiver order of
         None \<Rightarrow> GRAPHENE_NULL_ACCOUNT | Some r \<Rightarrow> r)\<rparr>"

definition reduce_order :: "'e fc_env_scheme \<Rightarrow> asset \<Rightarrow> limit_order_object \<Rightarrow> limit_order_object res" where
  "reduce_order E pay b =
     bindE (safe_sub E (for_sale b) (amount pay)) (\<lambda>f. Inr (b\<lparr>for_sale := f, deferred_fee := 0\<rparr>))"

definition fill_limit_order ::
    "'e market_env_scheme \<Rightarrow> nat \<Rightarrow> asset \<Rightarrow> asset \<Rightarrow> bool \<Rightarrow> 'z chain \<Rightarrow> ('z chain \<times> bool) res" where
  "fill_limit_order E i pay recv cull_if_small st =
     (let cull = (cull_if_small \<or> head_block_time st < HARDFORK_555_TIME) in
      bindE (deref (tbl_find (limit_orders (objects st)) i)) (\<lambda>order.
      bindE (assertE (asset_id (amount_for_sale order) = asset_id pay) ''amount_for_sale().asset_id == pays.asset_id'') (\<lambda>_.
      bindE (assertE (asset_id pay \<noteq> asset_id recv) ''pays.asset_id != receives.asset_id'') (\<lambda>_.
      bindE (tbl_get (accounts (objects st)) (lo_seller order)) (\<lambda>a.
      bindE (tbl_get (assets (objects st)) (asset_id recv)) (\<lambda>recv_asset.
      bindE (pay_market_fees E (asset_id recv) recv_asset recv st) (\<lambda>(st, issuer_fees).
      bindE (asset_minus E recv issuer_fees) (\<lambda>net.
      bindE (pay_order E (lo_seller order) net pay st) (\<lambda>st.
      bindE (pay_exchange_fee E (lo_seller order) (limit_order_object.exchange_fee_receiver order) recv issuer_fees pay st) (\<lambda>(st, rate).
      let st = push_applied_operation (fill_order_vop i order pay recv issuer_fees rate) st in
      bindE (if 0 < deferred_fee order
             then modify_stats (acct_statistics a)
                    (stat_pay_fee E (deferred_fee order) (cashback_vesting_threshold (gpo_parameters (gpo st)))) st
             else Inr st) (\<lambda>st.
      if pay = amount_for_sale order then Inr (drop_filled_order i order st, True)
      else
        bindE (modify_order i (reduce_order E pay) st) (\<lambda>st.
        if cull then maybe_cull_small_order E i st else Inr (st, False)))))))))))))"

subsection \<open>Matching two orders\<close>

definition match_amounts :: "asset \<Rightarrow> asset \<Rightarrow> price \<Rightarrow> (asset \<times> asset) res" where
  "match_amounts usd_for_sale core_for_sale match_price =
     bindE (asset_mult core_for_sale match_price) (\<lambda>core_worth.
     bindE (asset_le usd_for_sale core_worth) (\<lambda>usd_first.
     if usd_first then
       bindE (asset_mult usd_for_sale match_price) (\<lambda>usd_receives. Inr (usd_for_sale, usd_receives))
     else
       bindE (asset_mult core_for_sale match_price) (\<lambda>core_receives. Inr (core_receives, core_for_sale))))"

definition match_orders :: "'e market_env_scheme \<Rightarrow> nat \<Rightarrow> nat \<Rightarrow> price \<Rightarrow> 'z chain \<Rightarrow> ('z chain \<times> nat) res" where
  "match_orders E usd core match_price st =
     bindE (deref (tbl_find (limit_orders (objects st)) usd)) (\<lambda>u.
     bindE (deref (tbl_find (limit_orders (objects st)) core)) (\<lambda>c.
     bindE (match_amounts (amount_for_sale u) (amount_for_sale c) match_price) (\<lambda>(core_receives, usd_receives).
     bindE (fill_limit_order E usd core_receives usd_receives False st) (\<lambda>(st, filled_usd).
     bindE (fill_limit_order E core usd_receives core_receives True st) (\<lambda>(st, filled_core).
     Inr (st, (if filled_usd then 1 else 0) + (if filled_core then 2 else 0)))))))"

subsection \<open>Removing rows\<close>

lemma sum_delete:
  fixes g :: "'k \<times> 'v \<Rightarrow> int"
  assumes "distinct (map fst xs)" and "map_of xs k = Some v"
  shows "sum_list (map g (AList.delete k xs)) = sum_list (map g xs) - g (k, v)"
  using assms
proof (induction xs)
  case (Cons x xs)
  obtain k' v' where x: "x = (k', v')" by fastforce
  show ?case
  proof (cases "k' = k")
    case True
    then have "k \<notin> fst ` set xs" using Cons.prems(1) x by auto
    then have "AList.delete k xs = xs" by (rule delete_id)
    then show ?thesis using Cons.prems x True by simp
  next
    case False
    then show ?thesis using Cons x by simp
  qed
qed simp

lemma tsum_remove: "tbl_wf t \<Longrightarrow> tbl_find t i = Some v \<Longrightarrow> tsum f (tbl_remove i t) = tsum f t - f v"
  using sum_delete [of "rows t" i v "\<lambda>(i, v). f v"] by (simp add: tsum_def tbl_wf_def tbl_find_def tbl_remove_def)

lemma list_all_delete: "list_all Q xs \<Longrightarrow> list_all Q (AList.delete k xs)"
  by (auto simp: list_all_iff AList.delete_eq)

lemma tbl_wf_remove: "tbl_wf t \<Longrightarrow> tbl_wf (tbl_remove i t)"
  by (simp add: tbl_wf_def tbl_remove_def distinct_keys_delete list_all_delete)

lemma tbl_find_remove [simp]: "tbl_find (tbl_remove i t) = (tbl_find t)(i := None)"
  by (simp add: tbl_find_def tbl_remove_def fun_eq_iff)

lemma tbl_wf_find_row: "tbl_find t i = Some v \<Longrightarrow> (i, v) \<in> set (rows t)"
  by (simp add: tbl_find_def map_of_SomeD)

subsection \<open>Orders while no deflation runs\<close>

text \<open>
  What the engine keeps: market fees of assets in range, orders with positive prices and amounts
  that are not negative, debts that are not negative, no settlement fund before a settlement, and nothing frozen by a deflation. (While a deflation runs, filling an order that was
  cut ahead of its turn drops the frozen amount.)
\<close>

definition fees_ok :: "asset_object \<Rightarrow> bool" where
  "fees_ok a \<longleftrightarrow> 0 \<le> max_market_fee (asset_opts a) \<and> market_fee_percent (asset_opts a) \<le> GRAPHENE_100_PERCENT"

definition order_ok :: "limit_order_object \<Rightarrow> bool" where
  "order_ok x \<longleftrightarrow> 0 \<le> for_sale x \<and> for_sale x < 2 ^ 63 \<and> 0 \<le> deferred_fee x \<and>
     price_pos (sell_price x) \<and> asset_id (base (sell_price x)) \<noteq> asset_id (quote (sell_price x))"

definition call_ok :: "call_order_object \<Rightarrow> bool" where
  "call_ok c \<longleftrightarrow> 0 \<le> debt c \<and> price_pos (co_call_price c)"

text \<open>No deflation is running, and no amount of an order is frozen by one.\<close>

definition quiet :: "'z ledger_scheme \<Rightarrow> bool" where
  "quiet L \<longleftrightarrow> list_all (\<lambda>(i, x). odf_frozen x = 0) (rows (order_deflations L)) \<and>
     (case last_row (deflations L) of None \<Rightarrow> True | Some (i, d) \<Rightarrow> order_cleared d \<and> balance_cleared d)"

text \<open>
  The invariant of the market. It includes that no deflation is running: the statements on
  conservation in the market are about that time.
\<close>

definition market_ok :: "'z ledger_scheme \<Rightarrow> bool" where
  "market_ok L \<longleftrightarrow> quiet L \<and> list_all (\<lambda>(i, a). fees_ok a) (rows (assets L)) \<and>
     list_all (\<lambda>(i, x). order_ok x) (rows (limit_orders L)) \<and> list_all (\<lambda>(i, c). call_ok c) (rows (call_orders L)) \<and>
     list_all (\<lambda>(i, b). has_settlement b \<or> settlement_fund b = 0) (rows (bitassets L))"

definition trades :: "(asset_id_type \<Rightarrow> int) \<Rightarrow> 'z chain \<Rightarrow> 'z chain res \<Rightarrow> bool" where
  "trades d st r \<longleftrightarrow> (ledger_wf (objects st) \<and> market_ok (objects st) \<longrightarrow>
     (\<forall>st'. r = Inr st' \<longrightarrow> ledger_wf (objects st') \<and> market_ok (objects st') \<and> (\<forall>a. gap a st' = gap a st - d a)))"

lemma trades_result:
  "trades d st r \<Longrightarrow> r = Inr st' \<Longrightarrow> ledger_wf (objects st) \<Longrightarrow> market_ok (objects st) \<Longrightarrow>
    ledger_wf (objects st') \<and> market_ok (objects st') \<and> (\<forall>a. gap a st' = gap a st - d a)"
  by (simp add: trades_def)

lemma trades_moves:
  assumes "moves d st r" and "\<And>st'. r = Inr st' \<Longrightarrow> ledger_wf (objects st) \<Longrightarrow> market_ok (objects st) \<Longrightarrow> market_ok (objects st')"
  shows "trades d st r"
  using assms by (auto simp: trades_def moves_def)

lemma trades_seq:
  assumes "trades d1 st (Inr st1)" and "trades d2 st1 r" and "\<And>a. d a = d1 a + d2 a"
  shows "trades d st r"
  unfolding trades_def
proof (intro impI allI)
  fix st' assume ok: "ledger_wf (objects st) \<and> market_ok (objects st)" and r: "r = Inr st'"
  have 1: "ledger_wf (objects st1) \<and> market_ok (objects st1) \<and> (\<forall>a. gap a st1 = gap a st - d1 a)"
    by (rule trades_result [OF assms(1) refl]) (use ok in blast)+
  have 2: "ledger_wf (objects st') \<and> market_ok (objects st') \<and> (\<forall>a. gap a st' = gap a st1 - d2 a)"
    by (rule trades_result [OF assms(2) r]) (use 1 in blast)+
  show "ledger_wf (objects st') \<and> market_ok (objects st') \<and> (\<forall>a. gap a st' = gap a st - d a)"
    using 1 2 by (simp add: assms(3))
qed

lemma trades_return: "d = (\<lambda>_. 0) \<Longrightarrow> trades d st (Inr st)"
  by (simp add: trades_def)

lemma trades_wf: "(ledger_wf (objects st) \<Longrightarrow> market_ok (objects st) \<Longrightarrow> trades d st r) \<Longrightarrow> trades d st r"
  by (auto simp: trades_def)

lemma trades_cong: "trades d st r \<Longrightarrow> (\<And>a. d' a = d a) \<Longrightarrow> trades d' st r"
  by (metis ext)

definition same_market :: "'z ledger_scheme \<Rightarrow> 'z ledger_scheme \<Rightarrow> bool" where
  "same_market L L' \<longleftrightarrow> assets L' = assets L \<and> limit_orders L' = limit_orders L \<and>
     deflations L' = deflations L \<and> order_deflations L' = order_deflations L \<and>
     call_orders L' = call_orders L \<and> bitassets L' = bitassets L"

lemma same_market_ok: "same_market L L' \<Longrightarrow> market_ok L' = market_ok L"
  by (simp add: same_market_def market_ok_def quiet_def)

lemma same_market_trans: "same_market L L' \<Longrightarrow> same_market L' L'' \<Longrightarrow> same_market L L''"
  by (simp add: same_market_def)

lemma same_market_refl [simp]: "same_market L L"
  by (simp add: same_market_def)

lemma same_market_adjust: "adjust_balance E i x st = Inr st' \<Longrightarrow> same_market (objects st) (objects st')"
  by (auto simp: adjust_balance_def Let_def res_simps same_market_def split: if_splits option.split_asm)

lemma same_market_modify:
  "modify_stats i f st = Inr st' \<Longrightarrow> same_market (objects st) (objects st')"
  "modify_dynamic i g st = Inr st' \<Longrightarrow> same_market (objects st) (objects st')"
  by (auto simp: modify_stats_def modify_dynamic_def res_simps same_market_def)

lemma same_market_push [simp]: "same_market (objects st) (objects (push_applied_operation x st))"
  by (simp add: same_market_def push_applied_operation_def)

lemma trades_frame:
  assumes "moves d st r" and "\<And>st'. r = Inr st' \<Longrightarrow> same_market (objects st) (objects st')"
  shows "trades d st r"
  using assms(1) by (rule trades_moves) (use assms(2) same_market_ok in blast)

lemma trades_adjust: "adjust_balance E i x st = Inr st' \<Longrightarrow> trades (\<lambda>a. amount_in a x) st (Inr st')"
  using trades_frame [OF moves_adjust_balance [of x st E i]] same_market_adjust by metis

lemma trades_push: "trades (\<lambda>_. 0) st (Inr (push_applied_operation x st))"
  by (rule trades_frame) (auto intro!: movesI simp: push_applied_operation_def gap_field ledger_wf_def same_market_def)

subsection \<open>Market fees\<close>

lemma market_fee_bounds:
  assumes E: "fc_contract E" and a: "fees_ok a" and x: "0 \<le> amount x" "amount x < 2 ^ 63"
    and f: "calculate_market_fee E i a x = Inr f"
  shows "asset_id f = i" "0 \<le> amount f" "amount f \<le> amount x"
proof -
  have q: "market_fee_percent (asset_opts a) \<le> GRAPHENE_100_PERCENT" "0 < GRAPHENE_100_PERCENT" "GRAPHENE_100_PERCENT < 2 ^ 64"
    and m: "0 \<le> max_market_fee (asset_opts a)"
    using a by (simp_all add: fees_ok_def GRAPHENE_100_PERCENT_def)
  note part = to_share_scaled [OF E x q]
  show "asset_id f = i" "0 \<le> amount f" "amount f \<le> amount x"
    using f part(2,3) m x(1) by (auto simp: calculate_market_fee_def part(1) mk_asset_def res_simps split: if_splits)
qed

lemma asset_row:
  assumes "ledger_wf L" and "tbl_find (assets L) i = Some a"
  shows "dynamic_asset_data_id a = i" and "market_ok L \<Longrightarrow> fees_ok a"
  using assms tbl_wf_find_row [OF assms(2)] by (auto simp: ledger_wf_def market_ok_def list_all_iff)

lemma order_row: "market_ok L \<Longrightarrow> tbl_find (limit_orders L) i = Some x \<Longrightarrow> order_ok x"
  using tbl_wf_find_row [of "limit_orders L" i x] by (auto simp: market_ok_def list_all_iff)

lemma trades_market_fees:
  assumes E: "fc_contract E" and a: "tbl_find (assets (objects st)) (asset_id x) = Some a" and x: "0 \<le> amount x" "amount x < 2 ^ 63"
    and ok: "pay_market_fees E (asset_id x) a x st = Inr (st', f)" and wf: "ledger_wf (objects st)" "market_ok (objects st)"
  shows "trades (\<lambda>b. amount_in b f) st (Inr st')" "same_market (objects st) (objects st')" "asset_id f = asset_id x"
    "accounts (objects st') = accounts (objects st)"
proof -
  let ?m = "\<lambda>d. bindE (safe_add E (accumulated_fees d) (amount f)) (\<lambda>f. Inr (d\<lparr>accumulated_fees := f\<rparr>))"
  have f: "calculate_market_fee E (asset_id x) a x = Inr f"
      and st': "(if 0 < amount f then modify_dynamic (asset_id x) ?m st else Inr st) = Inr st'"
    using ok by (auto simp: pay_market_fees_def bindE_eq_Inr asset_row(1) [OF wf(1) a])
  note b = market_fee_bounds [OF E asset_row(2) [OF wf(1) a wf(2)] x f]
  show "asset_id f = asset_id x" by (rule b(1))
  show sm: "same_market (objects st) (objects st')" and "accounts (objects st') = accounts (objects st)"
    using st' by (auto simp: modify_dynamic_def res_simps same_market_def split: if_splits)
  have "moves (\<lambda>b. amount_in b f) st (modify_dynamic (asset_id x) ?m st)"
    by (rule moves_cong [OF moves_modify_dynamic [where s = 0 and c = "amount f" and p = 0]])
      (auto simp: res_simps amount_in_def b(1))
  then have "moves (\<lambda>b. amount_in b f) st (Inr st')"
    using st' b(2) by (auto simp: amount_in_def intro!: moves_return split: if_splits)
  then show "trades (\<lambda>b. amount_in b f) st (Inr st')"
    by (rule trades_frame) (use sm in simp)
qed

subsection \<open>Cancelling\<close>

lemma quiet_order_awaits: "quiet (objects st) \<Longrightarrow> order_awaits_deflation st i = None"
  by (auto simp: quiet_def order_awaits_deflation_def split: option.splits)

lemma trades_remove_order_deflation:
  assumes "order_deflation_of st j = Some (k, y)"
  shows "trades (\<lambda>_. 0) st (Inr (remove_order_deflation k st))"
proof (rule trades_wf)
  assume wf: "ledger_wf (objects st)" "market_ok (objects st)"
  let ?t = "order_deflations (objects st)"
  have f: "tbl_find ?t k = Some y" by (rule order_deflation_found [OF wf(1) assms])
  have t: "tbl_wf ?t" using wf(1) by (simp add: ledger_wf_def)
  have y: "odf_frozen y = 0" using wf(2) tbl_wf_find_row [OF f] by (auto simp: market_ok_def quiet_def list_all_iff)
  have 1: "moves (\<lambda>_. 0) st (Inr (remove_order_deflation k st))"
  proof (rule movesI)
    fix st' assume "Inr (remove_order_deflation k st) = Inr st'"
    then have st': "st' = st\<lparr>objects := objects st\<lparr>order_deflations := tbl_remove k ?t\<rparr>\<rparr>" by (simp add: remove_order_deflation_def)
    show "ledger_wf (objects st')"
      using wf(1) tbl_wf_remove [OF t, of k] by (simp add: st' ledger_wf_def list_all_delete) (simp add: tbl_remove_def list_all_delete)
    show "gap a st' = gap a st - 0" for a using y by (simp add: st' gap_field tsum_remove [OF t f])
  qed
  show "trades (\<lambda>_. 0) st (Inr (remove_order_deflation k st))"
    by (rule trades_moves [OF 1])
      (auto simp: remove_order_deflation_def market_ok_def quiet_def tbl_remove_def list_all_delete)
qed

lemma trades_deflate_cancelled:
  assumes ok: "deflate_cancelled_order E i order st = Inr (st', amt)" and q: "quiet (objects st)"
  shows "trades (\<lambda>_. 0) st (Inr st')" "amt = 0" "limit_orders (objects st') = limit_orders (objects st)"
    "accounts (objects st') = accounts (objects st)"
  using ok trades_remove_order_deflation [of st i]
  by (auto simp: deflate_cancelled_order_def Let_def quiet_order_awaits [OF q] remove_order_deflation_def
      intro!: trades_return split: if_splits option.splits)

lemma trades_remove_limit_order:
  assumes x: "tbl_find (limit_orders (objects st)) i = Some x"
  shows "trades (\<lambda>a. - order_holds a x) st (Inr (remove_limit_order i st))"
proof (rule trades_wf)
  assume wf: "ledger_wf (objects st)" "market_ok (objects st)"
  let ?t = "limit_orders (objects st)"
  have t: "tbl_wf ?t" using wf(1) by (simp add: ledger_wf_def)
  have 1: "moves (\<lambda>a. - order_holds a x) st (Inr (remove_limit_order i st))"
    using tbl_wf_remove [OF t, of i]
    by (intro movesI) (auto simp: remove_limit_order_def gap_field tsum_remove [OF t x] ledger_wf_def)
  show "trades (\<lambda>a. - order_holds a x) st (Inr (remove_limit_order i st))"
    by (rule trades_moves [OF 1])
      (auto simp: remove_limit_order_def market_ok_def quiet_def tbl_remove_def list_all_delete)
qed

lemma trades_stats:
  assumes "modify_stats i f st = Inr st'"
    and "\<And>s s'. f s = Inr s' \<Longrightarrow> pending_fees s' + pending_vested_fees s' = pending_fees s + pending_vested_fees s + c"
  shows "trades (only_core c) st (Inr st')"
proof -
  have "moves (only_core c) st (modify_stats i f st)" by (rule moves_modify_stats) (rule assms(2))
  then show ?thesis unfolding assms(1) by (rule trades_frame) (use same_market_modify(1) [OF assms(1)] in simp)
qed

lemma cancel_limit_order_trades:
  assumes ok: "cancel_limit_order E i v st = Inr st'" and wf: "ledger_wf (objects st)" "market_ok (objects st)"
  shows "trades (\<lambda>_. 0) st (Inr st')"
    "tbl_find (limit_orders (objects st')) = (tbl_find (limit_orders (objects st)))(i := None)"
proof -
  let ?vop = "\<lambda>order. Limit_order_cancel_op \<lparr>fee = mk_asset 0 0, cancel_order_id = i, loc_fee_paying_account = lo_seller order\<rparr>"
  obtain order st1 amt refunded and acc :: account_object and st2 st3 st4 where x: "tbl_find (limit_orders (objects st)) i = Some order"
      and 1: "deflate_cancelled_order E i order st = Inr (st1, amt)"
      and r: "asset_minus E (amount_for_sale order) (mk_asset amt (asset_id (base (sell_price order)))) = Inr refunded"
      and 2: "modify_stats (acct_statistics acc) (take_core_in_orders E (amount_for_sale order)) st1 = Inr st2"
      and 3: "adjust_balance E (lo_seller order) refunded st2 = Inr st3"
      and 4: "adjust_balance E (lo_seller order) (mk_asset (deferred_fee order) 0) st3 = Inr st4"
      and 5: "st' = remove_limit_order i (if v then push_applied_operation (?vop order) st4 else st4)"
    using ok by (auto simp: cancel_limit_order_def bindE_eq_Inr deref_Inr Let_def simp del: if_split)
  have q: "quiet (objects st)" using wf(2) by (simp add: market_ok_def)
  note d = trades_deflate_cancelled [OF 1 q]
  let ?st5 = "if v then push_applied_operation (?vop order) st4 else st4"
  have o: "limit_orders (objects ?st5) = limit_orders (objects st)"
    using d(3) same_market_modify(1) [OF 2] same_market_adjust [OF 3] same_market_adjust [OF 4]
    by (simp add: same_market_def push_applied_operation_def)
  then have x5: "tbl_find (limit_orders (objects ?st5)) i = Some order" using x by simp
  have 20: "trades (only_core 0) st1 (Inr st2)" using 2 by (rule trades_stats) (auto simp: take_core_in_orders_def res_simps split: if_splits)
  have 50: "trades (\<lambda>_. 0) st4 (Inr ?st5)" using trades_push [of st4 "?vop order"] trades_return by (cases v) auto
  have "trades (\<lambda>_. 0) st (Inr st2)" by (rule trades_seq [OF d(1) 20]) (simp add: only_core_def)
  then have "trades (\<lambda>a. amount_in a refunded) st (Inr st3)" by (rule trades_seq [OF _ trades_adjust [OF 3]]) simp
  then have "trades (\<lambda>a. amount_in a refunded + only_core (deferred_fee order) a) st (Inr st4)"
    by (rule trades_seq [OF _ trades_adjust [OF 4]]) (simp add: amount_in_core)
  then have "trades (\<lambda>a. amount_in a refunded + only_core (deferred_fee order) a) st (Inr ?st5)" by (rule trades_seq [OF _ 50]) simp
  then show "trades (\<lambda>_. 0) st (Inr st')" unfolding 5
    by (rule trades_seq [OF _ trades_remove_limit_order [OF x5]])
      (use r d(2) in \<open>auto simp: asset_minus_def res_simps amount_in_def order_holds_def only_core_def amount_for_sale_def mk_asset_def\<close>)
  show "tbl_find (limit_orders (objects st')) = (tbl_find (limit_orders (objects st)))(i := None)"
    by (simp add: 5 remove_limit_order_def o)
qed

subsection \<open>Filling\<close>

lemma pay_order_trades:
  assumes "pay_order E r recv paid st = Inr st'"
  shows "trades (\<lambda>a. amount_in a recv) st (Inr st')" "same_market (objects st) (objects st')"
proof -
  show sm: "same_market (objects st) (objects st')"
    using assms same_market_trans [OF same_market_modify(1) same_market_adjust]
    by (auto simp: pay_order_def bindE_eq_Inr)
  have "moves (\<lambda>a. amount_in a recv) st (Inr st')" using moves_pay_order [of recv st E r paid] assms by simp
  then show "trades (\<lambda>a. amount_in a recv) st (Inr st')" by (rule trades_frame) (use sm in simp)
qed

lemma pay_exchange_fee_trades:
  assumes "pay_exchange_fee E s r recv fees pay st = Inr (st', rate)"
  shows "trades (\<lambda>_. 0) st (Inr st')" "same_market (objects st) (objects st')"
proof -
  have "st' = st \<or> (\<exists>x y r st1. asset_neg E x = Inr y \<and> adjust_balance E s y st = Inr st1 \<and> adjust_balance E r x st1 = Inr st')"
    using assms by (auto simp: pay_exchange_fee_def Let_def bindE_eq_Inr split: option.split_asm if_splits)
  then show "same_market (objects st) (objects st')"
    by (auto dest!: same_market_adjust intro: same_market_trans)
  show "trades (\<lambda>_. 0) st (Inr st')"
    using \<open>st' = st \<or> _\<close>
  proof (elim disjE exE conjE)
    fix x y r st1
    assume n: "asset_neg E x = Inr y" and a: "adjust_balance E s y st = Inr st1" "adjust_balance E r x st1 = Inr st'"
    show "trades (\<lambda>_. 0) st (Inr st')"
      by (rule trades_seq [OF trades_adjust [OF a(1)] trades_adjust [OF a(2)]])
        (use n in \<open>auto simp: asset_neg_def res_simps amount_in_def mk_asset_def\<close>)
  qed (simp add: trades_return)
qed

lemma pay_deferred_trades:
  assumes "(if 0 < f then modify_stats i (stat_pay_fee E f t) st else Inr st) = Inr st'" and "0 \<le> f"
  shows "trades (only_core f) st (Inr st')" "same_market (objects st) (objects st')"
proof -
  show "trades (only_core f) st (Inr st')"
  proof (cases "0 < f")
    case True
    then have "modify_stats i (stat_pay_fee E f t) st = Inr st'" using assms(1) by simp
    then show ?thesis by (rule trades_stats) (auto simp: stat_pay_fee_def res_simps split: if_splits)
  next
    case False
    then show ?thesis using assms by (auto simp: only_core_def intro!: trades_return)
  qed
  show "same_market (objects st) (objects st')"
    using assms(1) same_market_modify(1) [of i "stat_pay_fee E f t" st st'] by (auto simp: same_market_def split: if_splits)
qed

lemma drop_filled_order_trades:
  assumes x: "tbl_find (limit_orders (objects st)) i = Some order"
  shows "trades (\<lambda>a. - order_holds a order) st (Inr (drop_filled_order i order st))"
    "tbl_find (limit_orders (objects (drop_filled_order i order st))) = (tbl_find (limit_orders (objects st)))(i := None)"
proof -
  define st1 where "st1 = (if asset_id (base (sell_price order)) = 0 then
      (case order_deflation_of st i of None \<Rightarrow> st
       | Some (k, y) \<Rightarrow> remove_order_deflation k (case order_awaits_deflation st i of None \<Rightarrow> st
            | Some (j, _) \<Rightarrow> if odf_cleared y \<and> 0 < odf_frozen y
                then push_applied_operation (order_deflation_vop j i order (odf_frozen y)) st else st)) else st)"
  have st': "drop_filled_order i order st = remove_limit_order i st1" by (simp add: drop_filled_order_def st1_def)
  have o: "limit_orders (objects st1) = limit_orders (objects st)"
    by (auto simp: st1_def remove_order_deflation_def push_applied_operation_def split: option.splits prod.splits)
  have m: "trades (\<lambda>_. 0) st (Inr st1)"
  proof (rule trades_wf)
    assume "market_ok (objects st)"
    then have "order_awaits_deflation st i = None" by (simp add: market_ok_def quiet_order_awaits)
    then show "trades (\<lambda>_. 0) st (Inr st1)"
      using trades_remove_order_deflation [of st i] by (auto simp: st1_def intro!: trades_return split: option.splits)
  qed
  show "trades (\<lambda>a. - order_holds a order) st (Inr (drop_filled_order i order st))"
    unfolding st' by (rule trades_seq [OF m trades_remove_limit_order]) (use x o in simp_all)
  show "tbl_find (limit_orders (objects (drop_filled_order i order st))) = (tbl_find (limit_orders (objects st)))(i := None)"
    by (simp add: st' remove_limit_order_def o)
qed

lemma trades_modify_order:
  assumes ok: "modify_order i f st = Inr st'"
    and f: "\<And>z z' a. tbl_find (limit_orders (objects st)) i = Some z \<Longrightarrow> f z = Inr z' \<Longrightarrow>
      order_holds a z' = order_holds a z + d a \<and> order_ok z'"
  shows "trades d st (Inr st')"
proof -
  have "moves d st (modify_order i f st)" by (rule moves_modify_order) (use f in blast)
  then have m: "moves d st (Inr st')" by (simp only: ok)
  show ?thesis
    by (rule trades_moves [OF m])
      (use ok f in \<open>auto simp: modify_order_def res_simps market_ok_def quiet_def intro!: list_all_update\<close>)
qed

lemma cull_trades:
  assumes "maybe_cull_small_order E i st = Inr (st', filled)" and "ledger_wf (objects st)" "market_ok (objects st)"
  shows "trades (\<lambda>_. 0) st (Inr st')" "j \<noteq> i \<Longrightarrow> tbl_find (limit_orders (objects st')) j = tbl_find (limit_orders (objects st)) j"
    "filled = (tbl_find (limit_orders (objects st')) i = None)"
  using assms cancel_limit_order_trades [of E i True st st']
  by (auto simp: maybe_cull_small_order_def bindE_eq_Inr deref_Inr intro!: trades_return split: if_splits)

lemma reduce_order_holds:
  assumes "reduce_order E pay z = Inr z'" and "asset_id (base (sell_price z)) = asset_id pay"
  shows "order_holds a z' = order_holds a z - amount_in a pay - only_core (deferred_fee z) a"
    "amount pay \<le> for_sale z \<Longrightarrow> 0 \<le> amount pay \<Longrightarrow> order_ok z \<Longrightarrow> order_ok z'"
  using assms by (auto simp: reduce_order_def res_simps order_holds_def amount_in_def only_core_def order_ok_def)

lemma fill_remainder_trades:
  assumes ok: "(if pay = amount_for_sale order then Inr (drop_filled_order i order st, True)
               else bindE (modify_order i (reduce_order E pay) st) (\<lambda>st.
                 if cull then maybe_cull_small_order E i st else Inr (st, False))) = Inr (st', filled)"
    and wf: "ledger_wf (objects st)" "market_ok (objects st)" and x: "tbl_find (limit_orders (objects st)) i = Some order"
    and ids: "asset_id (base (sell_price order)) = asset_id pay" and oo: "order_ok order"
    and p: "0 \<le> amount pay" "amount pay \<le> for_sale order"
  shows "trades (\<lambda>a. - amount_in a pay - only_core (deferred_fee order) a) st (Inr st') \<and>
      (j \<noteq> i \<longrightarrow> tbl_find (limit_orders (objects st')) j = tbl_find (limit_orders (objects st)) j) \<and>
      filled = (tbl_find (limit_orders (objects st')) i = None)"
proof (cases "pay = amount_for_sale order")
  case True
  then have "st' = drop_filled_order i order st" "filled" using ok by auto
  moreover have "order_holds a order = amount_in a pay + only_core (deferred_fee order) a" for a
    by (simp add: True order_holds_def amount_in_def amount_for_sale_def mk_asset_def only_core_def)
  ultimately show ?thesis using drop_filled_order_trades [OF x] by (auto intro: trades_cong)
next
  case False
  then obtain st6 where m: "modify_order i (reduce_order E pay) st = Inr st6"
      and c: "(if cull then maybe_cull_small_order E i st6 else Inr (st6, False)) = Inr (st', filled)"
    using ok by (auto simp: bindE_eq_Inr)
  have t6: "trades (\<lambda>a. - amount_in a pay - only_core (deferred_fee order) a) st (Inr st6)"
    using m by (rule trades_modify_order) (use reduce_order_holds ids oo p x in fastforce)
  have wf6: "ledger_wf (objects st6)" "market_ok (objects st6)" using trades_result [OF t6 refl wf] by blast+
  have o6: "j \<noteq> i \<longrightarrow> tbl_find (limit_orders (objects st6)) j = tbl_find (limit_orders (objects st)) j"
      "tbl_find (limit_orders (objects st6)) i \<noteq> None"
    using m x by (auto simp: modify_order_def res_simps)
  show ?thesis
  proof (cases cull)
    case True
    then have "maybe_cull_small_order E i st6 = Inr (st', filled)" using c by simp
    note c = cull_trades [OF this wf6]
    have "trades (\<lambda>a. - amount_in a pay - only_core (deferred_fee order) a) st (Inr st')" by (rule trades_seq [OF t6 c(1)]) simp
    then show ?thesis using c(2,3) o6 by simp
  next
    case False
    then show ?thesis using c t6 o6 by auto
  qed
qed

lemma assets_frame [simp]:
  "assets (objects (push_applied_operation x st)) = assets (objects st)"
  "assets (objects (remove_limit_order i st)) = assets (objects st)"
  "assets (objects (remove_order_deflation i st)) = assets (objects st)"
  by (simp_all add: push_applied_operation_def remove_limit_order_def remove_order_deflation_def)

lemma assets_drop [simp]: "assets (objects (drop_filled_order i order st)) = assets (objects st)"
  by (simp add: drop_filled_order_def Let_def split: option.split prod.split)

lemma assets_modify:
  "adjust_balance E i x st = Inr st' \<Longrightarrow> assets (objects st') = assets (objects st)"
  "modify_stats i f st = Inr st' \<Longrightarrow> assets (objects st') = assets (objects st)"
  "modify_order i g st = Inr st' \<Longrightarrow> assets (objects st') = assets (objects st)"
  "modify_deflation i h st = Inr st' \<Longrightarrow> assets (objects st') = assets (objects st)"
  using same_market_adjust same_market_modify(1)
  by (fastforce simp: same_market_def modify_order_def modify_deflation_def res_simps)+

lemma cancel_assets: "cancel_limit_order E i v st = Inr st' \<Longrightarrow> assets (objects st') = assets (objects st)"
  by (auto simp: cancel_limit_order_def deflate_cancelled_order_def bindE_eq_Inr Let_def dest!: assets_modify
      split: if_splits option.split_asm)

lemma fill_remainder_assets:
  assumes "(if pay = amount_for_sale order then Inr (drop_filled_order i order st, True)
     else bindE (modify_order i (reduce_order E pay) st) (\<lambda>st.
       if cull then maybe_cull_small_order E i st else Inr (st, False))) = Inr (st', filled)"
  shows "assets (objects st') = assets (objects st)"
  using assms by (auto simp: maybe_cull_small_order_def bindE_eq_Inr split: if_split_asm dest!: assets_modify(3) cancel_assets)

lemma fill_limit_order_trades:
  assumes E: "fc_contract E" and ok: "fill_limit_order E i pay recv cull st = Inr (st', filled)"
    and wf: "ledger_wf (objects st)" "market_ok (objects st)" and x: "tbl_find (limit_orders (objects st)) i = Some order"
    and p: "0 \<le> amount pay" "amount pay \<le> for_sale order" and r: "0 \<le> amount recv" "amount recv < 2 ^ 63"
  shows "trades (\<lambda>a. amount_in a recv - amount_in a pay) st (Inr st')"
    "j \<noteq> i \<Longrightarrow> tbl_find (limit_orders (objects st')) j = tbl_find (limit_orders (objects st)) j"
    "filled = (tbl_find (limit_orders (objects st')) i = None)"
    "assets (objects st') = assets (objects st)"
proof -
  let ?cull = "cull \<or> head_block_time st < HARDFORK_555_TIME"
  let ?push = "\<lambda>fees rate. push_applied_operation (fill_order_vop i order pay recv fees rate)"
  obtain acc :: account_object and ra st1 fees net st2 st3 rate st5 where
      ids: "asset_id (base (sell_price order)) = asset_id pay"
      and ra: "tbl_find (assets (objects st)) (asset_id recv) = Some ra"
      and 1: "pay_market_fees E (asset_id recv) ra recv st = Inr (st1, fees)"
      and n: "asset_minus E recv fees = Inr net"
      and 2: "pay_order E (lo_seller order) net pay st1 = Inr st2"
      and 3: "pay_exchange_fee E (lo_seller order) (limit_order_object.exchange_fee_receiver order) recv fees pay st2 = Inr (st3, rate)"
      and 5: "(if 0 < deferred_fee order then modify_stats (acct_statistics acc)
                 (stat_pay_fee E (deferred_fee order) (cashback_vesting_threshold (gpo_parameters (gpo (?push fees rate st3))))) (?push fees rate st3)
               else Inr (?push fees rate st3)) = Inr st5"
      and 6: "(if pay = amount_for_sale order then Inr (drop_filled_order i order st5, True)
               else bindE (modify_order i (reduce_order E pay) st5) (\<lambda>st.
                 if ?cull then maybe_cull_small_order E i st else Inr (st, False))) = Inr (st', filled)"
    using ok x by (auto simp: fill_limit_order_def bindE_eq_Inr deref_Inr Let_def assertE_eq_Inr tbl_get_Inr amount_for_sale_def mk_asset_def
        simp del: if_split)
  note oo = order_row [OF wf(2) x]
  have d: "0 \<le> deferred_fee order" using oo by (simp add: order_ok_def)
  note f1 = trades_market_fees [OF E ra r 1 wf] and f2 = pay_order_trades [OF 2] and f3 = pay_exchange_fee_trades [OF 3]
    and f5 = pay_deferred_trades [OF 5 d]
  have net: "amount_in a net = amount_in a recv - amount_in a fees" for a
    using n by (auto simp: asset_minus_def res_simps amount_in_def mk_asset_def)
  have sm: "same_market (objects st) (objects st5)"
    using f1(2) f2(2) f3(2) f5(2) by (auto simp: same_market_def push_applied_operation_def)
  have "trades (\<lambda>a. amount_in a recv) st (Inr st2)" by (rule trades_seq [OF f1(1) f2(1)]) (simp add: net)
  then have "trades (\<lambda>a. amount_in a recv) st (Inr st3)" by (rule trades_seq [OF _ f3(1)]) simp
  then have "trades (\<lambda>a. amount_in a recv) st (Inr (?push fees rate st3))" by (rule trades_seq [OF _ trades_push]) simp
  then have t5: "trades (\<lambda>a. amount_in a recv + only_core (deferred_fee order) a) st (Inr st5)" by (rule trades_seq [OF _ f5(1)]) simp
  have wf5: "ledger_wf (objects st5)" "market_ok (objects st5)" using trades_result [OF t5 refl wf] by blast+
  have x5: "tbl_find (limit_orders (objects st5)) i = Some order" using sm x by (simp add: same_market_def)
  note last = fill_remainder_trades [OF 6 wf5 x5 ids oo p]
  show "trades (\<lambda>a. amount_in a recv - amount_in a pay) st (Inr st')"
    by (rule trades_seq [OF t5 conjunct1 [OF last]]) simp
  show "j \<noteq> i \<Longrightarrow> tbl_find (limit_orders (objects st')) j = tbl_find (limit_orders (objects st)) j"
    using last [of j] sm by (simp add: same_market_def)
  show "filled = (tbl_find (limit_orders (objects st')) i = None)" using last [of j] by blast
  show "assets (objects st') = assets (objects st)" using fill_remainder_assets [OF 6] sm by (simp add: same_market_def)
qed

lemma fill_all_removes:
  assumes "fill_limit_order E i pay recv cull st = Inr (st', filled)"
    and "tbl_find (limit_orders (objects st)) i = Some order" and "pay = amount_for_sale order"
  shows "filled"
  using assms by (auto simp: fill_limit_order_def bindE_eq_Inr deref_Inr Let_def simp del: if_split)

subsection \<open>Matching\<close>

lemma match_amounts_bounds:
  assumes ok: "match_amounts u c p = Inr (cr, ur)" and p: "price_pos p" "asset_id (base p) \<noteq> asset_id (quote p)" "asset_id c = asset_id (base p)"
    and u: "share_ok (amount u)" and c: "share_ok (amount c)"
  shows "0 \<le> amount cr" "amount cr \<le> amount u" "0 \<le> amount ur" "amount ur \<le> amount c" "cr = u \<or> ur = c"
proof -
  obtain w b where w: "asset_mult c p = Inr w" and b: "asset_le u w = Inr b"
      and r: "if b then asset_mult u p = Inr ur \<and> cr = u else cr = w \<and> ur = c"
    using ok by (auto simp: match_amounts_def bindE_eq_Inr split: if_splits)
  have w': "w = mk_asset (amount c * amount (quote p) div amount (base p)) (asset_id (quote p))"
    by (rule asset_mult_base(1) [OF w p(3) c p(1)])
  have q: "0 < amount (base p)" "0 < amount (quote p)" using p(1) by (simp_all add: price_pos_def)
  show "0 \<le> amount cr" "0 \<le> amount ur"
    using r asset_mult_nonneg [OF w] asset_mult_nonneg [of u p ur] u c by (auto simp: share_ok_def split: if_splits)
  have "amount cr \<le> amount u \<and> amount ur \<le> amount c \<and> (cr = u \<or> ur = c)"
  proof (cases b)
    case True
    then have id: "asset_id u = asset_id (quote p)" using asset_le_True [of u w] b w' by (simp add: mk_asset_def)
    have "amount u \<le> amount w" using asset_le_same [of u w] b True id w' by (simp add: mk_asset_def)
    then have "amount u * amount (base p) \<le> (amount c * amount (quote p) div amount (base p)) * amount (base p)"
      using q(1) w' by (simp add: mk_asset_def)
    also have "\<dots> \<le> amount c * amount (quote p)" using q(1) by (simp add: minus_mod_eq_div_mult [symmetric])
    finally have "amount u * amount (base p) div amount (quote p) \<le> amount c"
      using zdiv_mono1 [of _ _ "amount (quote p)"] q(2) by fastforce
    then show ?thesis using r True asset_mult_quote(1) [OF _ id p(2) u p(1), of ur] by (simp add: mk_asset_def)
  next
    case False
    then have "asset_id u = asset_id w"
      using b by (auto simp: asset_le_def asset_less_def res_simps split: if_splits)
    then have "amount w < amount u" using asset_le_same [of u w] b False by simp
    then show ?thesis using r False by simp
  qed
  then show "amount cr \<le> amount u" "amount ur \<le> amount c" "cr = u \<or> ur = c" by blast+
qed

lemma match_amounts_ids:
  assumes "match_amounts u c p = Inr r" and "asset_id c = asset_id (base p)"
  shows "asset_id u = asset_id (quote p)"
  using assms
  by (auto simp: match_amounts_def asset_mult_def asset_le_def asset_less_def mk_asset_def Let_def res_simps split: if_splits)

lemma match_amounts_price:
  assumes ok: "match_amounts u c p = Inr (cr, ur)" and p: "price_pos p" "asset_id (base p) \<noteq> asset_id (quote p)" "asset_id c = asset_id (base p)"
    and u: "share_ok (amount u)" and c: "share_ok (amount c)"
  shows "cr = u \<and> amount ur = amount u * amount (base p) div amount (quote p) \<or>
    ur = c \<and> amount cr = amount c * amount (quote p) div amount (base p)"
proof -
  obtain w b where w: "asset_mult c p = Inr w" and b: "asset_le u w = Inr b"
      and r: "if b then asset_mult u p = Inr ur \<and> cr = u else cr = w \<and> ur = c"
    using ok by (auto simp: match_amounts_def bindE_eq_Inr split: if_splits)
  have "asset_id u = asset_id (quote p)" by (rule match_amounts_ids [OF ok p(3)])
  then show ?thesis
    using r asset_mult_base(1) [OF w p(3) c p(1)] asset_mult_quote(1) [OF _ _ p(2) u p(1), of ur]
    by (auto simp: mk_asset_def split: if_splits)
qed

lemma match_orders_fills:
  assumes ok: "match_orders E u c (sell_price oc) st = Inr (st', r)" and mk: "market_ok (objects st)"
    and c: "tbl_find (limit_orders (objects st)) c = Some oc"
  shows "\<exists>ou cr ur st1 f1 f2. tbl_find (limit_orders (objects st)) u = Some ou \<and>
    fill_limit_order E u cr ur False st = Inr (st1, f1) \<and> fill_limit_order E c ur cr True st1 = Inr (st', f2) \<and>
    (amount cr = for_sale ou \<and> amount ur = amount cr * amount (base (sell_price oc)) div amount (quote (sell_price oc)) \<or>
     amount ur = for_sale oc \<and> amount cr = amount ur * amount (quote (sell_price oc)) div amount (base (sell_price oc)))"
proof -
  obtain ou cr ur st1 f1 f2 where u: "tbl_find (limit_orders (objects st)) u = Some ou"
      and m: "match_amounts (amount_for_sale ou) (amount_for_sale oc) (sell_price oc) = Inr (cr, ur)"
      and f: "fill_limit_order E u cr ur False st = Inr (st1, f1)" "fill_limit_order E c ur cr True st1 = Inr (st', f2)"
    using ok c by (auto simp: match_orders_def bindE_eq_Inr deref_Inr simp del: if_split)
  have oo: "order_ok ou" "order_ok oc" using order_row [OF mk u] order_row [OF mk c] .
  have "cr = amount_for_sale ou \<and> amount ur = for_sale ou * amount (base (sell_price oc)) div amount (quote (sell_price oc)) \<or>
     ur = amount_for_sale oc \<and> amount cr = for_sale oc * amount (quote (sell_price oc)) div amount (base (sell_price oc))"
    using match_amounts_price [OF m] oo by (simp add: order_ok_def share_ok_def amount_for_sale_def mk_asset_def)
  then show ?thesis using u f by (intro exI [of _ ou] exI [of _ cr] exI [of _ ur] exI [of _ st1] exI [of _ f1] exI [of _ f2])
      (auto simp: amount_for_sale_def mk_asset_def)
qed

lemma match_orders_trades:
  assumes E: "fc_contract E" and ok: "match_orders E u c (sell_price oc) st = Inr (st', r)"
    and wf: "ledger_wf (objects st)" and mk: "market_ok (objects st)" 
    and c: "tbl_find (limit_orders (objects st)) c = Some oc"
  shows "trades (\<lambda>_. 0) st (Inr st')" "r \<in> {1, 2, 3}"
    "odd r \<longleftrightarrow> tbl_find (limit_orders (objects st')) u = None" "2 \<le> r \<longleftrightarrow> tbl_find (limit_orders (objects st')) c = None"
    "j \<notin> {u, c} \<Longrightarrow> tbl_find (limit_orders (objects st')) j = tbl_find (limit_orders (objects st)) j"
    "assets (objects st') = assets (objects st)"
proof -
  obtain ou cr ur st1 f1 f2 where u: "tbl_find (limit_orders (objects st)) u = Some ou"
      and m: "match_amounts (amount_for_sale ou) (amount_for_sale oc) (sell_price oc) = Inr (cr, ur)"
      and 1: "fill_limit_order E u cr ur False st = Inr (st1, f1)" and 2: "fill_limit_order E c ur cr True st1 = Inr (st', f2)"
      and r: "r = (if f1 then 1 else 0) + (if f2 then 2 else 0)"
    using ok c by (auto simp: match_orders_def bindE_eq_Inr deref_Inr simp del: if_split)
  have oo: "order_ok ou" "order_ok oc" using order_row [OF mk u] order_row [OF mk c] .
  have ne: "u \<noteq> c" using match_amounts_ids [OF m] oo u c by (auto simp: order_ok_def amount_for_sale_def mk_asset_def)
  have b: "0 \<le> amount cr" "amount cr \<le> for_sale ou" "0 \<le> amount ur" "amount ur \<le> for_sale oc" "cr = amount_for_sale ou \<or> ur = amount_for_sale oc"
    using match_amounts_bounds [OF m] oo by (auto simp: order_ok_def share_ok_def amount_for_sale_def mk_asset_def)
  have s: "amount ur < 2 ^ 63" "amount cr < 2 ^ 63" using b oo by (simp_all add: order_ok_def)
  note t1 = fill_limit_order_trades [OF E 1 wf mk u b(1,2,3) s(1)]
  have wf1: "ledger_wf (objects st1)" "market_ok (objects st1)" using trades_result [OF t1(1) refl wf mk] by blast+
  have c1: "tbl_find (limit_orders (objects st1)) c = Some oc" using t1(2) [of c] ne c by simp
  note t2 = fill_limit_order_trades [OF E 2 wf1 c1 b(3,4,1) s(2)]
  show "trades (\<lambda>_. 0) st (Inr st')" by (rule trades_seq [OF t1(1) t2(1)]) simp
  have "f1 \<or> f2" using fill_all_removes [OF 1 u] fill_all_removes [OF 2 c1] b(5) by blast
  then have "r \<in> {1, 2, 3} \<and> (odd r \<longleftrightarrow> f1) \<and> (2 \<le> r \<longleftrightarrow> f2)" using r by auto
  moreover have "f1 = (tbl_find (limit_orders (objects st')) u = None)" using t1(3) t2(2) [of u] ne by simp
  moreover have "f2 = (tbl_find (limit_orders (objects st')) c = None)" by (rule t2(3))
  ultimately show "r \<in> {1, 2, 3}" "odd r \<longleftrightarrow> tbl_find (limit_orders (objects st')) u = None"
      "2 \<le> r \<longleftrightarrow> tbl_find (limit_orders (objects st')) c = None"
    by blast+
  show "tbl_find (limit_orders (objects st')) j = tbl_find (limit_orders (objects st)) j" if "j \<notin> {u, c}"
    using t1(2) [of j] t2(2) [of j] that by simp
  show "assets (objects st') = assets (objects st)" using t1(4) t2(4) by simp
qed

text \<open>
  C32: while no deflation is running and no amount of an order is frozen by one, matching two
  orders at the price of the second one conserves the shares of every asset, market and exchange
  fees included, takes from neither order more than it has for sale, fills at least one of the
  two, as the last assertion of the function claims, reports exactly which orders are gone, and
  touches no other order. One order sells all it has and the other one gives the exact worth of
  that at the match price, rounded down. During a deflation conservation fails: filling and
  cancelling an order then lose or repeat frozen amounts.
\<close>

theorem match_orders_correct:
  assumes E: "fc_contract E" and ok: "match_orders E u c (sell_price oc) st = Inr (st', r)"
    and wf: "ledger_wf (objects st)" and mk: "market_ok (objects st)"
    and c: "tbl_find (limit_orders (objects st)) c = Some oc"
  shows "ledger_wf (objects st') \<and> market_ok (objects st') \<and> gap a st' = gap a st \<and> r \<in> {1, 2, 3} \<and>
    (odd r \<longleftrightarrow> tbl_find (limit_orders (objects st')) u = None) \<and>
    (2 \<le> r \<longleftrightarrow> tbl_find (limit_orders (objects st')) c = None) \<and>
    (\<forall>j. j \<notin> {u, c} \<longrightarrow> tbl_find (limit_orders (objects st')) j = tbl_find (limit_orders (objects st)) j) \<and>
    (\<exists>ou cr ur st1 f1 f2. tbl_find (limit_orders (objects st)) u = Some ou \<and>
      fill_limit_order E u cr ur False st = Inr (st1, f1) \<and> fill_limit_order E c ur cr True st1 = Inr (st', f2) \<and>
      (amount cr = for_sale ou \<and> amount ur = amount cr * amount (base (sell_price oc)) div amount (quote (sell_price oc)) \<or>
       amount ur = for_sale oc \<and> amount cr = amount ur * amount (quote (sell_price oc)) div amount (base (sell_price oc))))"
  using match_orders_trades [OF assms] trades_result [OF match_orders_trades(1) [OF assms] refl wf mk]
    match_orders_fills [OF ok mk c] by simp

subsection \<open>A concrete match\<close>

definition market_std :: market_env where
  "market_std = fee_env.extend fee_std \<lparr>rat = gcd_rational, real128_fee = (\<lambda>a r. a * int r div 10000000)\<rparr>"

lemma market_std_safe [simp]: "fc_safe market_std = fc_int64"
  by (simp add: market_std_def fee_std_def fee_env.defs fc_env.defs fc_std_def)

lemma market_std_contract: "fc_contract market_std"
  using fc_std_contract by (simp add: market_std_def fee_std_def fee_env.defs fc_env.defs fc_contract_def)

text \<open>Order 4 sells 50 core for 10 of asset 1, and order 5 sells 10 of asset 1 for 50 core.\<close>

definition example_order_usd :: limit_order_object where
  "example_order_usd = example_order\<lparr>lo_seller := 11, for_sale := 10, sell_price := mk_price (mk_asset 10 1) (mk_asset 50 0)\<rparr>"

definition market_chain :: "unit chain" where
  "market_chain = example_chain\<lparr>objects := example_ledger\<lparr>
     assets := \<lparr>rows = [(0, example_core_asset), (1, example_core_asset\<lparr>dynamic_asset_data_id := 1\<rparr>)], next_instance = 2\<rparr>,
     asset_dynamic := \<lparr>rows = [(0, \<lparr>current_supply = 155, confidential_supply = 0, accumulated_fees = 0, fee_pool = 0\<rparr>),
       (1, \<lparr>current_supply = 10, confidential_supply = 0, accumulated_fees = 0, fee_pool = 0\<rparr>)], next_instance = 2\<rparr>,
     limit_orders := \<lparr>rows = [(4, example_order), (5, example_order_usd)], next_instance = 6\<rparr>\<rparr>\<rparr>"

lemma market_chain_lookup [simp]:
  "tbl_find (limit_orders (objects market_chain)) 4 = Some example_order"
  "tbl_find (limit_orders (objects market_chain)) 5 = Some example_order_usd"
  "tbl_find (accounts (objects market_chain)) 10 = Some (example_account ''alice'' 2)"
  "tbl_find (accounts (objects market_chain)) 11 = Some (example_account ''bob'' 3)"
  "tbl_find (assets (objects market_chain)) 0 = Some example_core_asset"
  "tbl_find (assets (objects market_chain)) 1 = Some (example_core_asset\<lparr>dynamic_asset_data_id := 1\<rparr>)"
  by (simp_all add: market_chain_def tbl_find_def example_ledger_def)

lemma market_chain_wf: "ledger_wf (objects market_chain)" "market_ok (objects market_chain)"
  using example_ledger_wf
  by (simp_all add: market_chain_def ledger_wf_def tbl_wf_def example_chain_def Let_def example_core_asset_def market_ok_def quiet_def
      example_ledger_def empty_table_def last_row_def fees_ok_def order_ok_def example_order_def example_order_usd_def
      mk_price_def mk_asset_def price_pos_def)

lemma no_market_fee: "calculate_market_fee E i (example_core_asset\<lparr>dynamic_asset_data_id := k\<rparr>) x = Inr (mk_asset 0 i)"
    "calculate_market_fee E i example_core_asset x = Inr (mk_asset 0 i)"
  by (simp_all add: calculate_market_fee_def example_core_asset_def)

lemmas fill_example_defs = asset_minus_def pay_order_def take_core_in_orders_def modify_stats_def on_ledger_def tbl_modify_def
  adjust_balance_def safe_add_def safe_sub_def fc_int64_def example_statistics_def push_applied_operation_def
  drop_filled_order_def remove_limit_order_def tbl_remove_def pay_exchange_fee_def order_deflation_of_def empty_table_def

lemma match_example: "\<exists>st'. match_orders market_std 5 4 (sell_price example_order) market_chain = Inr (st', 3)"
proof -
  have m: "match_amounts (amount_for_sale example_order_usd) (amount_for_sale example_order) (sell_price example_order) =
      Inr (mk_asset 10 1, mk_asset 50 0)"
    by (simp add: match_amounts_def amount_for_sale_def example_order_def example_order_usd_def mk_price_def mk_asset_def
        asset_mult_base_eq asset_mult_quote_eq price_pos_def share_ok_def GRAPHENE_MAX_SHARE_SUPPLY_def asset_le_def)
  have "match_orders market_std 5 4 (sell_price example_order) market_chain =
      bindE (fill_limit_order market_std 5 (mk_asset 10 1) (mk_asset 50 0) False market_chain) (\<lambda>(st, filled_usd).
      bindE (fill_limit_order market_std 4 (mk_asset 50 0) (mk_asset 10 1) True st) (\<lambda>(st, filled_core).
      Inr (st, (if filled_usd then 1 else 0) + (if filled_core then 2 else 0))))"
    by (simp add: match_orders_def deref_def m)
  moreover have "\<exists>st'. \<dots> = Inr (st', 3)"
    by (simp add: deref_def fill_limit_order_def pay_market_fees_def no_market_fee fill_example_defs
        example_order_def example_order_usd_def amount_for_sale_def mk_asset_def mk_price_def market_chain_def example_ledger_def
        tbl_find_def tbl_get_def)
  ultimately show ?thesis by simp
qed

theorem match_orders_correct_witness:
  "\<exists>st'. match_orders market_std 5 4 (sell_price example_order) market_chain = Inr (st', 3) \<and>
     gap 0 st' = gap 0 market_chain \<and> tbl_find (limit_orders (objects st')) 4 = None"
proof -
  obtain st' where ok: "match_orders market_std 5 4 (sell_price example_order) market_chain = Inr (st', 3)" using match_example by blast
  show ?thesis using match_orders_correct [OF market_std_contract ok market_chain_wf, of 0] ok by auto
qed

end
