(* ===== verification/Order_Book.thy ===== *)
theory Order_Book
  imports Market
begin

text \<open>
  The indexes of limit orders and margin positions that are ordered by price
  (\<open>libraries/chain/include/graphene/chain/market_object.hpp\<close>), and what the pair of iterators of
  \<open>lower_bound\<close> and \<open>upper_bound\<close> delimits.

  An index is computed from the table by insertion with the comparison of its composite key. The
  range between two iterators is the list of identifiers between them; when the lower bound lies
  behind the upper one, a loop from one to the other leaves the index, which is
  \<open>Undefined_behaviour\<close>.
\<close>

subsection \<open>Indexes ordered by price\<close>

fun insert_by :: "('a \<Rightarrow> 'a \<Rightarrow> bool) \<Rightarrow> 'a \<Rightarrow> 'a list \<Rightarrow> 'a list" where
  "insert_by lt x [] = [x]"
| "insert_by lt x (y # ys) = (if lt y x then y # insert_by lt x ys else x # y # ys)"

definition index_by :: "('a \<Rightarrow> 'a \<Rightarrow> bool) \<Rightarrow> 'a list \<Rightarrow> 'a list" where
  "index_by lt xs = foldr (insert_by lt) xs []"

definition index_range :: "('a \<Rightarrow> bool) \<Rightarrow> ('a \<Rightarrow> bool) \<Rightarrow> 'a list \<Rightarrow> 'a list res" where
  "index_range before_lower before_upper xs =
     (let p = length (takeWhile before_lower xs); q = length (takeWhile before_upper xs) in
      if p \<le> q then Inr (take (q - p) (drop p xs)) else throwE Undefined_behaviour)"

definition limit_price_index :: "'z ledger_scheme \<Rightarrow> (nat \<times> limit_order_object) list" where
  "limit_price_index L = index_by (\<lambda>(i, x) (j, y). price_gt (sell_price x) (sell_price y) \<or>
     (\<not> price_gt (sell_price y) (sell_price x) \<and> i < j)) (rows (limit_orders L))"

definition call_price_index :: "'z ledger_scheme \<Rightarrow> (nat \<times> call_order_object) list" where
  "call_price_index L = index_by (\<lambda>(i, x) (j, y). price_less (co_call_price x) (co_call_price y) \<or>
     (\<not> price_less (co_call_price y) (co_call_price x) \<and> i < j)) (rows (call_orders L))"

text \<open>The book is sorted from the greatest to the least price.\<close>

definition limits_between :: "price \<Rightarrow> price \<Rightarrow> 'z chain \<Rightarrow> nat list res" where
  "limits_between hi lo st =
     bindE (index_range (\<lambda>(i, x). price_gt (sell_price x) hi) (\<lambda>(i, x). \<not> price_gt lo (sell_price x))
       (limit_price_index (objects st))) (\<lambda>xs. Inr (map fst xs))"

definition calls_between :: "price \<Rightarrow> price \<Rightarrow> 'z chain \<Rightarrow> nat list res" where
  "calls_between lo hi st =
     bindE (index_range (\<lambda>(i, c). price_less (co_call_price c) lo) (\<lambda>(i, c). \<not> price_less hi (co_call_price c))
       (call_price_index (objects st))) (\<lambda>xs. Inr (map fst xs))"

subsection \<open>Ranges of a sorted index\<close>

lemma set_insert_by [simp]: "set (insert_by lt x ys) = insert x (set ys)"
  by (induction ys) auto

lemma set_index_by [simp]: "set (index_by lt xs) = set xs"
  by (induction xs) (simp_all add: index_by_def)

lemma mset_index_by: "mset (index_by lt xs) = mset xs"
proof -
  have "mset (insert_by lt x ys) = add_mset x (mset ys)" for x and ys :: "'a list" by (induction ys) auto
  then show ?thesis by (induction xs) (simp_all add: index_by_def)
qed

text \<open>
  What an index needs of its comparison: it decides a preorder \<open>R\<close> on the valid keys.
\<close>

locale ordered_index =
  fixes valid :: "'a \<Rightarrow> bool" and R :: "'a \<Rightarrow> 'a \<Rightarrow> bool" and lt :: "'a \<Rightarrow> 'a \<Rightarrow> bool"
  assumes R_trans: "valid x \<Longrightarrow> valid y \<Longrightarrow> valid z \<Longrightarrow> R x y \<Longrightarrow> R y z \<Longrightarrow> R x z"
    and lt_R: "valid x \<Longrightarrow> valid y \<Longrightarrow> lt x y \<Longrightarrow> R x y"
    and not_lt_R: "valid x \<Longrightarrow> valid y \<Longrightarrow> \<not> lt x y \<Longrightarrow> R y x"
begin

lemma sorted_insert:
  "valid x \<Longrightarrow> \<forall>y\<in>set ys. valid y \<Longrightarrow> sorted_wrt R ys \<Longrightarrow> sorted_wrt R (insert_by lt x ys)"
proof (induction ys)
  case (Cons y ys)
  show ?case
  proof (cases "lt y x")
    case True
    then show ?thesis using Cons lt_R [of y x] by auto
  next
    case False
    then have xy: "R x y" using Cons.prems not_lt_R [of y x] by auto
    have "R x z" if "z \<in> set ys" for z using R_trans [OF _ _ _ xy, of z] Cons.prems that by auto
    then show ?thesis using Cons.prems False xy by auto
  qed
qed simp

lemma sorted_index: "\<forall>x\<in>set xs. valid x \<Longrightarrow> sorted_wrt R (index_by lt xs)"
proof (induction xs)
  case (Cons x xs)
  then have "sorted_wrt R (index_by lt xs)" by simp
  then have "sorted_wrt R (insert_by lt x (index_by lt xs))" by (rule sorted_insert [rotated 2]) (use Cons.prems in simp_all)
  then show ?case by (simp add: index_by_def)
qed (simp add: index_by_def)

lemma takeWhile_filter:
  assumes "sorted_wrt R xs" and "\<And>x y. x \<in> set xs \<Longrightarrow> y \<in> set xs \<Longrightarrow> R x y \<Longrightarrow> Q y \<Longrightarrow> Q x"
  shows "takeWhile Q xs = filter Q xs" "dropWhile Q xs = filter (\<lambda>x. \<not> Q x) xs"
proof -
  have "takeWhile Q xs = filter Q xs \<and> dropWhile Q xs = filter (\<lambda>x. \<not> Q x) xs"
    using assms
  proof (induction xs)
    case (Cons x xs)
    have "takeWhile Q xs = filter Q xs \<and> dropWhile Q xs = filter (\<lambda>x. \<not> Q x) xs"
      by (rule Cons.IH) (use Cons.prems in auto)
    moreover have "\<not> Q y" if "\<not> Q x" "y \<in> set xs" for y using Cons.prems(1) Cons.prems(2) [of x y] that by auto
    ultimately show ?case by (auto simp: filter_empty_conv filter_id_conv)
  qed simp
  then show "takeWhile Q xs = filter Q xs" "dropWhile Q xs = filter (\<lambda>x. \<not> Q x) xs" by blast+
qed

lemma range_filter:
  assumes s: "sorted_wrt R xs" and v: "\<forall>x\<in>set xs. valid x"
    and L: "\<And>x y. valid x \<Longrightarrow> valid y \<Longrightarrow> R x y \<Longrightarrow> L y \<Longrightarrow> L x"
    and U: "\<And>x y. valid x \<Longrightarrow> valid y \<Longrightarrow> R x y \<Longrightarrow> U y \<Longrightarrow> U x" and LU: "\<And>x. valid x \<Longrightarrow> L x \<Longrightarrow> U x"
  shows "index_range L U xs = Inr (filter (\<lambda>x. \<not> L x \<and> U x) xs)"
proof -
  have tU: "takeWhile U xs = filter U xs" by (rule takeWhile_filter(1) [OF s]) (use v U in blast)
  have tL: "takeWhile L xs = filter L xs" by (rule takeWhile_filter(1) [OF s]) (use v L in blast)
  let ?ys = "filter U xs"
  have dL: "takeWhile L ?ys = filter L ?ys" "dropWhile L ?ys = filter (\<lambda>x. \<not> L x) ?ys"
    by (rule takeWhile_filter; use s v L in \<open>auto simp: sorted_wrt_filter\<close>)+
  have "filter L ?ys = filter L xs" using LU v by (auto intro!: filter_cong)
  then have p: "length (takeWhile L xs) = length (takeWhile L ?ys)" using tL dL by simp
  have "take (length ?ys) xs = ?ys" using takeWhile_eq_take [of U xs] tU by simp
  then have "take (length ?ys - length (takeWhile L xs)) (drop (length (takeWhile L xs)) xs) = drop (length (takeWhile L ?ys)) ?ys"
    by (metis drop_take p)
  also have "\<dots> = filter (\<lambda>x. \<not> L x \<and> U x) xs"
    using dL(2) by (simp add: dropWhile_eq_drop [symmetric] conj_commute)
  finally show ?thesis
    using p length_takeWhile_le [of L ?ys] by (simp add: index_range_def Let_def tU)
qed

end

subsection \<open>The two indexes\<close>

lemma price_gt_less: "price_pos a \<Longrightarrow> price_pos b \<Longrightarrow> price_gt a b \<longleftrightarrow> price_less b a"
  using price_eq_iff [of a b] po.asym [of a b] by (auto simp: price_gt_def price_le_def)

lemma price_lex_trans:
  fixes i j k :: nat
  assumes v: "price_pos a" "price_pos b" "price_pos c"
    and 1: "price_less a b \<or> (\<not> price_less b a \<and> i \<le> j)" and 2: "price_less b c \<or> (\<not> price_less c b \<and> j \<le> k)"
  shows "price_less a c \<or> (\<not> price_less c a \<and> i \<le> k)"
proof (cases "price_less a b")
  case True
  then show ?thesis using 2 po.trans [OF v True] po.less_not_less_trans [OF v True] by blast
next
  case False
  then have n: "\<not> price_less b a" "i \<le> j" using 1 by simp_all
  show ?thesis
  proof (cases "price_less b c")
    case True
    then show ?thesis using po.incomp_trans [OF v(2,1,3) n(1)] by blast
  next
    case False
    then have "\<not> price_less c b" "j \<le> k" using 2 by simp_all
    then show ?thesis using po.incomp_trans [OF v(3,2,1)] n by simp
  qed
qed

lemma price_lex_trans':
  fixes i j k :: nat
  assumes v: "price_pos a" "price_pos b" "price_pos c"
    and 1: "price_less b a \<or> (\<not> price_less a b \<and> i \<le> j)" and 2: "price_less c b \<or> (\<not> price_less b c \<and> j \<le> k)"
  shows "price_less c a \<or> (\<not> price_less a c \<and> i \<le> k)"
proof (cases "price_less b a")
  case True
  show ?thesis
  proof (cases "price_less c b")
    case True
    then show ?thesis using po.trans [OF v(3,2,1)] \<open>price_less b a\<close> by blast
  next
    case False
    then show ?thesis using 2 po.incomp_trans [OF v(2,3,1)] True by blast
  qed
next
  case False
  then have n: "\<not> price_less a b" "i \<le> j" using 1 by simp_all
  show ?thesis
  proof (cases "price_less c b")
    case True
    then show ?thesis using po.less_not_less_trans [OF v(3,2,1) True n(1)] by blast
  next
    case False
    then have "\<not> price_less b c" "j \<le> k" using 2 by simp_all
    then show ?thesis using po.incomp_trans [OF v n(1)] n by simp
  qed
qed

definition before_in_book :: "nat \<times> limit_order_object \<Rightarrow> nat \<times> limit_order_object \<Rightarrow> bool" where
  "before_in_book x y \<longleftrightarrow> price_less (sell_price (snd y)) (sell_price (snd x)) \<or>
     (\<not> price_less (sell_price (snd x)) (sell_price (snd y)) \<and> fst x \<le> fst y)"

definition before_in_calls :: "nat \<times> call_order_object \<Rightarrow> nat \<times> call_order_object \<Rightarrow> bool" where
  "before_in_calls x y \<longleftrightarrow> price_less (co_call_price (snd x)) (co_call_price (snd y)) \<or>
     (\<not> price_less (co_call_price (snd y)) (co_call_price (snd x)) \<and> fst x \<le> fst y)"

interpretation book: ordered_index "\<lambda>x. price_pos (sell_price (snd x))" before_in_book
  "\<lambda>(i, x) (j, y). price_gt (sell_price x) (sell_price y) \<or> (\<not> price_gt (sell_price y) (sell_price x) \<and> i < j)"
proof unfold_locales
  fix x y z :: "nat \<times> limit_order_object"
  assume v: "price_pos (sell_price (snd x))" "price_pos (sell_price (snd y))"
  note g = price_gt_less [OF v] price_gt_less [OF v(2,1)]
  show "before_in_book x z" if "price_pos (sell_price (snd z))" "before_in_book x y" "before_in_book y z"
    unfolding before_in_book_def by (rule price_lex_trans' [OF v that(1) that(2,3) [unfolded before_in_book_def]])
  let ?lt = "\<lambda>(i, x) (j, y). price_gt (sell_price x) (sell_price y) \<or> (\<not> price_gt (sell_price y) (sell_price x) \<and> i < j)"
  show "before_in_book x y" if "?lt x y" using that g po.asym [OF v] po.asym [OF v(2,1)] by (cases x; cases y) (auto simp: before_in_book_def)
  show "before_in_book y x" if "\<not> ?lt x y" using that g po.asym [OF v] po.asym [OF v(2,1)] by (cases x; cases y) (auto simp: before_in_book_def)
qed

interpretation calls: ordered_index "\<lambda>x. price_pos (co_call_price (snd x))" before_in_calls
  "\<lambda>(i, x) (j, y). price_less (co_call_price x) (co_call_price y) \<or>
     (\<not> price_less (co_call_price y) (co_call_price x) \<and> i < j)"
proof unfold_locales
  fix x y z :: "nat \<times> call_order_object"
  assume v: "price_pos (co_call_price (snd x))" "price_pos (co_call_price (snd y))"
  show "before_in_calls x z" if "price_pos (co_call_price (snd z))" "before_in_calls x y" "before_in_calls y z"
    unfolding before_in_calls_def by (rule price_lex_trans [OF v that(1) that(2,3) [unfolded before_in_calls_def]])
  let ?lt = "\<lambda>(i, x) (j, y). price_less (co_call_price x) (co_call_price y) \<or>
     (\<not> price_less (co_call_price y) (co_call_price x) \<and> i < j)"
  show "before_in_calls x y" if "?lt x y" using that by (cases x; cases y) (auto simp: before_in_calls_def)
  show "before_in_calls y x" if "\<not> ?lt x y" using that po.asym [OF v] po.asym [OF v(2,1)] by (cases x; cases y) (auto simp: before_in_calls_def)
qed

lemma market_price_pos:
  assumes "market_ok L"
  shows "\<forall>x\<in>set (rows (limit_orders L)). price_pos (sell_price (snd x))"
    "\<forall>x\<in>set (rows (call_orders L)). price_pos (co_call_price (snd x))"
  using assms by (auto simp: market_ok_def list_all_iff order_ok_def call_ok_def)

text \<open>
  C33: the orders that a loop over a price range of the book visits are exactly those whose price
  lies in the range, bounds included, with the best price for the taker first and, at equal
  prices, the oldest order first.
\<close>

theorem limits_between_correct:
  assumes ok: "market_ok (objects st)" and p: "price_pos hi" "price_pos lo" "\<not> price_less hi lo"
  defines "orders \<equiv> rows (limit_orders (objects st))"
  shows "\<exists>xs. limits_between hi lo st = Inr (map fst xs) \<and> sorted_wrt before_in_book xs \<and>
    mset xs = filter_mset (\<lambda>(i, x). \<not> price_less hi (sell_price x) \<and> \<not> price_less (sell_price x) lo) (mset orders)"
proof -
  let ?idx = "limit_price_index (objects st)"
  let ?L = "\<lambda>(i, x). price_gt (sell_price x) hi" and ?U = "\<lambda>(i, x). \<not> price_gt lo (sell_price x)"
  have v: "\<forall>x\<in>set ?idx. price_pos (sell_price (snd x))" using market_price_pos(1) [OF ok] by (simp add: limit_price_index_def)
  have s: "sorted_wrt before_in_book ?idx"
    unfolding limit_price_index_def by (rule book.sorted_index) (rule market_price_pos(1) [OF ok])
  have "index_range ?L ?U ?idx = Inr (filter (\<lambda>x. \<not> ?L x \<and> ?U x) ?idx)"
  proof (rule book.range_filter [OF s v])
    fix x y :: "nat \<times> limit_order_object"
    assume vx: "price_pos (sell_price (snd x))"
    show "?U x" if "?L x"
      using that p vx price_gt_less [of "sell_price (snd x)" hi] price_gt_less [of lo "sell_price (snd x)"]
        po.trans [of hi "sell_price (snd x)" lo] by (auto simp: case_prod_beta)
    assume vy: "price_pos (sell_price (snd y))" and b: "before_in_book x y"
    have le: "\<not> price_less (sell_price (snd x)) (sell_price (snd y))" using b po.asym [OF vx vy] by (auto simp: before_in_book_def)
    show "?L x" if "?L y"
      using that le p(1) vx vy price_gt_less [of "sell_price (snd x)" hi] price_gt_less [of "sell_price (snd y)" hi]
        po.less_not_less_trans [of hi "sell_price (snd y)" "sell_price (snd x)"] by (auto simp: case_prod_beta)
    show "?U x" if "?U y"
      using that le p(2) vx vy price_gt_less [of lo "sell_price (snd x)"] price_gt_less [of lo "sell_price (snd y)"]
        po.incomp_trans [of "sell_price (snd x)" "sell_price (snd y)" lo] by (auto simp: case_prod_beta)
  qed
  then have "limits_between hi lo st = Inr (map fst (filter (\<lambda>x. \<not> ?L x \<and> ?U x) ?idx))"
    by (simp add: limits_between_def)
  moreover have "sorted_wrt before_in_book (filter (\<lambda>x. \<not> ?L x \<and> ?U x) ?idx)" using s by (rule sorted_wrt_filter)
  moreover have "mset (filter (\<lambda>x. \<not> ?L x \<and> ?U x) ?idx) =
      filter_mset (\<lambda>(i, x). \<not> price_less hi (sell_price x) \<and> \<not> price_less (sell_price x) lo) (mset orders)"
    unfolding limit_price_index_def mset_filter mset_index_by orders_def
  proof (rule filter_mset_cong [OF refl])
    fix y :: "nat \<times> limit_order_object" assume "y \<in># mset (rows (limit_orders (objects st)))"
    then have "price_pos (sell_price (snd y))" using market_price_pos(1) [OF ok] by simp
    then show "(\<not> ?L y \<and> ?U y) = (case y of (i, x) \<Rightarrow> \<not> price_less hi (sell_price x) \<and> \<not> price_less (sell_price x) lo)"
      using p(1,2) by (simp add: case_prod_beta price_gt_less)
  qed
  ultimately show ?thesis by blast
qed

theorem limits_between_correct_witness:
  "limits_between (mk_price (mk_asset 50 0) (mk_asset 10 1)) (mk_price (mk_asset 50 0) (mk_asset 10 1)) market_chain = Inr [4]"
proof -
  let ?p = "mk_price (mk_asset 50 0) (mk_asset 10 1)"
  have p: "price_pos ?p" by (simp add: price_pos_def mk_price_def mk_asset_def)
  have n: "\<not> price_less ?p ?p" by (rule po.irrefl [OF p])
  have r: "rows (limit_orders (objects market_chain)) = [(4, example_order), (5, example_order_usd)]" by (simp add: market_chain_def)
  have o: "sell_price example_order = ?p" "price_less ?p (sell_price example_order_usd)"
    by (simp_all add: example_order_def example_order_usd_def price_less_def mk_price_def mk_asset_def)
  obtain xs where "limits_between ?p ?p market_chain = Inr (map fst xs)" "mset xs = {#(4, example_order)#}"
    using limits_between_correct [OF market_chain_wf(2) p p n] n o by (auto simp: r)
  moreover from this have "xs = [(4, example_order)]" by (metis mset_single_iff_right)
  ultimately show ?thesis by simp
qed

lemma calls_between_bounds:
  assumes ok: "market_ok (objects st)" and p: "price_pos lo" "price_pos hi" "\<not> price_less hi lo"
    and cs: "calls_between lo hi st = Inr cs" and i: "i \<in> set cs"
  shows "\<exists>c. (i, c) \<in> set (rows (call_orders (objects st))) \<and> \<not> price_less (co_call_price c) lo \<and> \<not> price_less hi (co_call_price c)"
proof -
  let ?idx = "call_price_index (objects st)"
  let ?L = "\<lambda>(i, c). price_less (co_call_price c) lo" and ?U = "\<lambda>(i, c). \<not> price_less hi (co_call_price c)"
  have v: "\<forall>x\<in>set ?idx. price_pos (co_call_price (snd x))" using market_price_pos(2) [OF ok] by (simp add: call_price_index_def)
  have s: "sorted_wrt before_in_calls ?idx"
    unfolding call_price_index_def by (rule calls.sorted_index) (rule market_price_pos(2) [OF ok])
  have "index_range ?L ?U ?idx = Inr (filter (\<lambda>x. \<not> ?L x \<and> ?U x) ?idx)"
  proof (rule calls.range_filter [OF s v])
    fix x y :: "nat \<times> call_order_object"
    assume vx: "price_pos (co_call_price (snd x))"
    show "?U x" if "?L x" using that p vx po.trans [of hi "co_call_price (snd x)" lo] by (auto simp: case_prod_beta)
    assume vy: "price_pos (co_call_price (snd y))" and b: "before_in_calls x y"
    have le: "\<not> price_less (co_call_price (snd y)) (co_call_price (snd x))" using b po.asym [OF vx vy] by (auto simp: before_in_calls_def)
    show "?L x" if "?L y" using that po.incomp_trans [OF vy vx p(1) le] by (auto simp: case_prod_beta)
    show "?U x" if "?U y" using that po.less_not_less_trans [OF p(2) vx vy _ le] by (auto simp: case_prod_beta)
  qed
  then have "cs = map fst (filter (\<lambda>x. \<not> ?L x \<and> ?U x) ?idx)" using cs by (simp add: calls_between_def)
  then show ?thesis using i by (auto simp: call_price_index_def)
qed

lemma price_between_ids:
  assumes "\<not> price_less p lo" "\<not> price_less hi p" and "asset_id (base lo) = b" "asset_id (base hi) = b"
    and "asset_id (quote lo) = q" "asset_id (quote hi) = q"
  shows "asset_id (base p) = b" "asset_id (quote p) = q"
  using assms by (auto simp: price_less_def split: if_splits)

end
