(* ===== verification/Margin.thy ===== *)
theory Margin
  imports Order_Book
begin

text \<open>
  Margin positions and forced settlement (\<open>libraries/chain/db_market.cpp\<close>, the check for a black
  swan of \<open>db_update.cpp\<close>) and the application of a new order to the book. The proofs show that
  each step conserves the shares of every asset (\<open>trades\<close>).

  The loops over a range of an index only remove the object they look at, so the list of
  identifiers stays valid; an iterator that is dereferenced after its object was removed is
  \<open>Undefined_behaviour\<close>.
  \<open>None\<close> stands for a computation of the squeeze price that does not return.
\<close>

subsection \<open>Positions of a market\<close>

definition calls_of_market :: "asset_id_type \<Rightarrow> asset_id_type \<Rightarrow> 'z chain \<Rightarrow> nat list res" where
  "calls_of_market backing mia st =
     bindE (price_min backing mia) (\<lambda>lo. bindE (price_max backing mia) (\<lambda>hi. calls_between lo hi st))"

subsection \<open>Objects of margin positions\<close>

definition HARDFORK_436_TIME :: time_point_sec where "HARDFORK_436_TIME = 1450288800"
definition HARDFORK_445_TIME :: time_point_sec where "HARDFORK_445_TIME = 1450288800"

definition is_market_issued :: "asset_object \<Rightarrow> bool" where
  "is_market_issued a \<longleftrightarrow> bitasset_data_id a \<noteq> None"

definition bitasset_of :: "asset_object \<Rightarrow> 'z chain \<Rightarrow> (nat \<times> asset_bitasset_data_object) res" where
  "bitasset_of a st =
     bindE (deref (bitasset_data_id a)) (\<lambda>k. bindE (tbl_get (bitassets (objects st)) k) (\<lambda>b. Inr (k, b)))"

definition get_collateral :: "call_order_object \<Rightarrow> asset" where
  "get_collateral c = mk_asset (collateral c) (asset_id (base (co_call_price c)))"

definition get_debt :: "call_order_object \<Rightarrow> asset" where
  "get_debt c = mk_asset (debt c) (asset_id (quote (co_call_price c)))"

definition collateralization :: "call_order_object \<Rightarrow> price res" where
  "collateralization c = price_of (get_collateral c) (get_debt c)"

definition modify_call :: "nat \<Rightarrow> (call_order_object \<Rightarrow> call_order_object res) \<Rightarrow> 'z chain \<Rightarrow> 'z chain res" where
  "modify_call i f = on_ledger (\<lambda>L. bindE (tbl_modify i f (call_orders L)) (\<lambda>t. Inr (L\<lparr>call_orders := t\<rparr>)))"

definition remove_call :: "nat \<Rightarrow> 'z chain \<Rightarrow> 'z chain" where
  "remove_call i st = st\<lparr>objects := objects st\<lparr>call_orders := tbl_remove i (call_orders (objects st))\<rparr>\<rparr>"

definition modify_bitasset :: "nat \<Rightarrow> (asset_bitasset_data_object \<Rightarrow> asset_bitasset_data_object res) \<Rightarrow> 'z chain \<Rightarrow> 'z chain res" where
  "modify_bitasset i f = on_ledger (\<lambda>L. bindE (tbl_modify i f (bitassets L)) (\<lambda>t. Inr (L\<lparr>bitassets := t\<rparr>)))"

definition modify_settlement :: "nat \<Rightarrow> (force_settlement_object \<Rightarrow> force_settlement_object res) \<Rightarrow> 'z chain \<Rightarrow> 'z chain res" where
  "modify_settlement i f = on_ledger (\<lambda>L. bindE (tbl_modify i f (force_settlements L)) (\<lambda>t. Inr (L\<lparr>force_settlements := t\<rparr>)))"

definition remove_settlement :: "nat \<Rightarrow> 'z chain \<Rightarrow> 'z chain" where
  "remove_settlement i st = st\<lparr>objects := objects st\<lparr>force_settlements := tbl_remove i (force_settlements (objects st))\<rparr>\<rparr>"

definition change_supply :: "'e fc_env_scheme \<Rightarrow> int \<Rightarrow> asset_dynamic_data_object \<Rightarrow> asset_dynamic_data_object res" where
  "change_supply E x d = bindE (safe_add E (current_supply d) x) (\<lambda>s. Inr (d\<lparr>current_supply := s\<rparr>))"

subsection \<open>Filling a margin position\<close>

definition pay_debt :: "'e fc_env_scheme \<Rightarrow> asset \<Rightarrow> asset \<Rightarrow> call_order_object \<Rightarrow> call_order_object res" where
  "pay_debt E pay recv c =
     bindE (safe_sub E (debt c) (amount recv)) (\<lambda>d.
     bindE (safe_sub E (collateral c) (amount pay)) (\<lambda>col.
     Inr (c\<lparr>debt := d, collateral := (if d = 0 then 0 else col)\<rparr>)))"

text \<open>The collateral that is left when the debt is paid off.\<close>

definition collateral_freed :: "asset \<Rightarrow> asset \<Rightarrow> call_order_object \<Rightarrow> asset option" where
  "collateral_freed pay recv c =
     (if debt c - amount recv = 0 then Some (mk_asset (collateral c - amount pay) (asset_id (get_collateral c))) else None)"

definition free_core_in_orders ::
    "'e fc_env_scheme \<Rightarrow> asset option \<Rightarrow> asset \<Rightarrow> account_statistics_object \<Rightarrow> account_statistics_object res" where
  "free_core_in_orders E freed pay b =
     bindE (case freed of
              Some f \<Rightarrow> if 0 < amount f then safe_sub E (total_core_in_orders b) (amount f) else Inr (total_core_in_orders b)
            | None \<Rightarrow> Inr (total_core_in_orders b)) (\<lambda>c.
     bindE (if asset_id pay = 0 then safe_sub E c (amount pay) else Inr c) (\<lambda>c.
     Inr (b\<lparr>total_core_in_orders := c\<rparr>)))"

definition fill_vop :: "nat \<Rightarrow> account_id_type \<Rightarrow> asset \<Rightarrow> asset \<Rightarrow> asset \<Rightarrow> operation" where
  "fill_vop i acct pay recv f =
     Fill_order_op \<lparr>fee = f, fill_order_id = i, fill_account_id = acct, pays = pay, receives = recv,
       exchange_fee_rate = Some 0, exchange_fee_receiver = Some GRAPHENE_NULL_ACCOUNT\<rparr>"

definition fill_call_order :: "'e fc_env_scheme \<Rightarrow> nat \<Rightarrow> asset \<Rightarrow> asset \<Rightarrow> 'z chain \<Rightarrow> ('z chain \<times> bool) res" where
  "fill_call_order E i pay recv st =
     bindE (deref (tbl_find (call_orders (objects st)) i)) (\<lambda>order.
     bindE (assertE (asset_id (get_debt order) = asset_id recv) ''get_debt().asset_id == receives.asset_id'') (\<lambda>_.
     bindE (assertE (asset_id (get_collateral order) = asset_id pay) ''get_collateral().asset_id == pays.asset_id'') (\<lambda>_.
     bindE (asset_ge (get_collateral order) pay) (\<lambda>enough.
     bindE (assertE enough ''get_collateral() >= pays'') (\<lambda>_.
     let freed = collateral_freed pay recv order in
     bindE (modify_call i (pay_debt E pay recv) st) (\<lambda>st.
     bindE (tbl_get (assets (objects st)) (asset_id recv)) (\<lambda>mia.
     bindE (modify_dynamic (dynamic_asset_data_id mia) (change_supply E (- amount recv)) st) (\<lambda>st.
     bindE (tbl_get (accounts (objects st)) (borrower order)) (\<lambda>b.
     bindE (case freed of None \<Rightarrow> Inr st | Some f \<Rightarrow> adjust_balance E (borrower order) f st) (\<lambda>st.
     bindE (if freed \<noteq> None \<or> asset_id pay = 0
            then modify_stats (acct_statistics b) (free_core_in_orders E freed pay) st else Inr st) (\<lambda>st.
     let st = push_applied_operation (fill_vop i (borrower order) pay recv (mk_asset 0 (asset_id pay))) st
     in Inr (if freed \<noteq> None then remove_call i st else st, freed \<noteq> None))))))))))))"

subsection \<open>Forced settlement\<close>

definition reduce_settlement :: "'e fc_env_scheme \<Rightarrow> asset \<Rightarrow> force_settlement_object \<Rightarrow> force_settlement_object res" where
  "reduce_settlement E pay s = bindE (asset_minus E (settle_balance s) pay) (\<lambda>b. Inr (s\<lparr>settle_balance := b\<rparr>))"

definition fill_settlement :: "'e fc_env_scheme \<Rightarrow> nat \<Rightarrow> asset \<Rightarrow> asset \<Rightarrow> 'z chain \<Rightarrow> ('z chain \<times> bool) res" where
  "fill_settlement E i pay recv st =
     bindE (deref (tbl_find (force_settlements (objects st)) i)) (\<lambda>settle.
     bindE (tbl_get (assets (objects st)) (asset_id recv)) (\<lambda>recv_asset.
     bindE (pay_market_fees E (asset_id recv) recv_asset recv st) (\<lambda>(st, issuer_fees).
     bindE (asset_less pay (settle_balance settle)) (\<lambda>part.
     bindE (if part then modify_settlement i (reduce_settlement E pay) st else Inr st) (\<lambda>st.
     bindE (asset_minus E recv issuer_fees) (\<lambda>net.
     bindE (adjust_balance E (settle_owner settle) net st) (\<lambda>st.
     let st = push_applied_operation (fill_vop i (settle_owner settle) pay recv issuer_fees) st
     in Inr (if part then st else remove_settlement i st, \<not> part))))))))"

definition cancel_settlement :: "'e fc_env_scheme \<Rightarrow> nat \<Rightarrow> bool \<Rightarrow> 'z chain \<Rightarrow> 'z chain res" where
  "cancel_settlement E i create_virtual_op st =
     bindE (deref (tbl_find (force_settlements (objects st)) i)) (\<lambda>order.
     bindE (adjust_balance E (settle_owner order) (settle_balance order) st) (\<lambda>st.
     let st = (if create_virtual_op
               then push_applied_operation (Asset_settle_cancel_op
                      \<lparr>fee = mk_asset 0 0, settlement = i, asc_account = settle_owner order, asc_amount = settle_balance order\<rparr>) st
               else st)
     in Inr (remove_settlement i st)))"

definition asset_min :: "asset \<Rightarrow> asset \<Rightarrow> asset res" where
  "asset_min a b = bindE (asset_less b a) (\<lambda>lt. Inr (if lt then b else a))"

definition match_settlement ::
    "'e fc_env_scheme \<Rightarrow> nat \<Rightarrow> nat \<Rightarrow> price \<Rightarrow> asset \<Rightarrow> 'z chain \<Rightarrow> ('z chain \<times> asset) res" where
  "match_settlement E i j match_price max_settlement st =
     bindE (deref (tbl_find (call_orders (objects st)) i)) (\<lambda>call.
     bindE (deref (tbl_find (force_settlements (objects st)) j)) (\<lambda>settle.
     bindE (assertE (asset_id (get_debt call) = asset_id (settle_balance settle)) ''asset_id'') (\<lambda>_.
     bindE (assertE (0 < debt call \<and> 0 < collateral call \<and> 0 < amount (settle_balance settle)) ''positive'') (\<lambda>_.
     bindE (asset_min (settle_balance settle) max_settlement) (\<lambda>settle_for_sale.
     bindE (asset_min settle_for_sale (get_debt call)) (\<lambda>call_receives.
     bindE (asset_mult call_receives match_price) (\<lambda>call_pays.
     bindE (asset_less call_pays (get_collateral call)) (\<lambda>covered.
     bindE (if covered then Inr () else throwE Black_swan_exception) (\<lambda>_.
     bindE (fill_call_order E i call_pays call_receives st) (\<lambda>(st, _).
     bindE (fill_settlement E j call_receives call_pays st) (\<lambda>(st, _).
     Inr (st, call_receives))))))))))))"

subsection \<open>Global settlement\<close>

definition settle_call ::
    "'e fc_env_scheme \<Rightarrow> price \<Rightarrow> nat \<Rightarrow> 'z chain \<times> asset \<Rightarrow> ('z chain \<times> asset) res" where
  "settle_call E p i s =
     bindE (deref (tbl_find (call_orders (objects (fst s))) i)) (\<lambda>order.
     bindE (asset_mult (get_debt order) p) (\<lambda>cost.
     bindE (asset_gt cost (get_collateral order)) (\<lambda>short.
     let pay = (if short then get_collateral order else cost) in
     bindE (asset_plus E (snd s) pay) (\<lambda>gathered.
     bindE (fill_call_order E i pay (get_debt order) (fst s)) (\<lambda>(st, filled).
     bindE (assertE filled ''fill_order( order, pays, order.get_debt() )'') (\<lambda>_.
     Inr (st, gathered)))))))"

definition globally_settle_asset ::
    "'e fc_env_scheme \<Rightarrow> asset_id_type \<Rightarrow> asset_object \<Rightarrow> price \<Rightarrow> 'z chain \<Rightarrow> 'z chain res" where
  "globally_settle_asset E mia_id mia p st =
     bindE (bitasset_of mia st) (\<lambda>(k, bitasset).
     bindE (assertE (\<not> has_settlement bitasset) ''black swan already occurred'') (\<lambda>_.
     let backing = short_backing_asset (bit_options bitasset) in
     bindE (tbl_get (assets (objects st)) backing) (\<lambda>_.
     bindE (tbl_get (asset_dynamic (objects st)) (dynamic_asset_data_id mia)) (\<lambda>mia_dyn.
     let original_mia_supply = current_supply mia_dyn in
     bindE (calls_of_market backing mia_id st) (\<lambda>calls.
     bindE (foldE (settle_call E p) calls (st, mk_asset 0 backing)) (\<lambda>(st, gathered).
     bindE (modify_bitasset k (\<lambda>b.
        bindE (price_of (mk_asset original_mia_supply mia_id) gathered) (\<lambda>sp.
        Inr (b\<lparr>bit_settlement_price := sp, settlement_fund := amount gathered\<rparr>))) st) (\<lambda>st.
     modify_dynamic (dynamic_asset_data_id mia) (\<lambda>d. Inr (d\<lparr>current_supply := original_mia_supply\<rparr>)) st)))))))"

definition highest_bid :: "price \<Rightarrow> nat list \<Rightarrow> 'z chain \<Rightarrow> price res" where
  "highest_bid feed_price limits st =
     (case limits of
        [] \<Rightarrow> Inr feed_price
      | l # _ \<Rightarrow> bindE (deref (tbl_find (limit_orders (objects st)) l)) (\<lambda>x.
          Inr (if price_less (sell_price x) feed_price then feed_price else sell_price x)))"

definition settle_if_swan ::
    "'e fc_env_scheme \<Rightarrow> asset_id_type \<Rightarrow> asset_object \<Rightarrow> bool \<Rightarrow> price \<Rightarrow> nat list \<Rightarrow> nat \<Rightarrow> 'z chain \<Rightarrow> ('z chain \<times> bool) res" where
  "settle_if_swan E mia_id mia enable_black_swan feed_price limits c st =
     bindE (highest_bid feed_price limits st) (\<lambda>highest.
     bindE (deref (tbl_find (call_orders (objects st)) c)) (\<lambda>call.
     bindE (collateralization call) (\<lambda>least_collateral.
     if price_ge (price_invert least_collateral) highest then
       bindE (assertE enable_black_swan ''Black swan was detected during a margin update'') (\<lambda>_.
       bindE (globally_settle_asset E mia_id mia (price_invert least_collateral) st) (\<lambda>st.
       Inr (st, True)))
     else Inr (st, False))))"

definition check_for_blackswan ::
    "'e fc_env_scheme \<Rightarrow> asset_id_type \<Rightarrow> asset_object \<Rightarrow> bool \<Rightarrow> 'z chain \<Rightarrow> ('z chain \<times> bool) res" where
  "check_for_blackswan E mia_id mia enable_black_swan st =
     (if \<not> is_market_issued mia then Inr (st, False)
      else
        bindE (bitasset_of mia st) (\<lambda>(k, bitasset).
        let settle_price = settlement_price (current_feed bitasset); backing = short_backing_asset (bit_options bitasset) in
        if has_settlement bitasset then Inr (st, True)
        else if price_is_null settle_price then Inr (st, False)
        else
          bindE (price_max mia_id backing) (\<lambda>hi. bindE (price_min mia_id backing) (\<lambda>lo.
          bindE (limits_between hi lo st) (\<lambda>limits.
          bindE (calls_of_market backing mia_id st) (\<lambda>calls.
          case calls of
            [] \<Rightarrow> Inr (st, False)
          | c # _ \<Rightarrow> settle_if_swan E mia_id mia enable_black_swan settle_price limits c st))))))"

subsection \<open>Margin calls\<close>

text \<open>
  The loop of \<open>check_call_orders\<close>. The flag \<open>filled_limit\<close> is set once and never reset, as in the source.
\<close>

datatype call_outcome = Stop | Swan price | Fill bool bool asset asset

text \<open>
  One round: which orders are looked at, and whether the position is left alone, triggers a global
  settlement or is filled (is the limit order used up, is the position, and the amounts exchanged).
\<close>

definition call_round ::
    "asset_object \<Rightarrow> nat \<Rightarrow> nat \<Rightarrow> 'z chain \<Rightarrow> call_outcome res" where
  "call_round mia c l st =
     bindE (deref (tbl_find (limit_orders (objects st)) l)) (\<lambda>limit.
     bindE (price_validate (sell_price limit)) (\<lambda>_.
     bindE (deref (tbl_find (call_orders (objects st)) c)) (\<lambda>call.
     bindE (bitasset_of mia st) (\<lambda>(k, bitasset).
     let match_price = sell_price limit; usd_for_sale = amount_for_sale limit; usd_to_buy = get_debt call;
         feed = settlement_price (current_feed bitasset);
         feed_protected = price_gt feed (price_invert (co_call_price call))
     in
     if feed_protected \<and> HARDFORK_436_TIME < head_block_time st then Inr Stop
     else if price_gt match_price (price_invert (co_call_price call)) then Inr Stop
     else
       bindE (asset_mult usd_to_buy match_price) (\<lambda>cost.
       bindE (asset_gt cost (get_collateral call)) (\<lambda>short.
       if short then Inr (Swan feed)
       else
         bindE (asset_ge usd_to_buy usd_for_sale) (\<lambda>fills_limit.
         let paid = (if fills_limit then usd_for_sale else usd_to_buy) in
         bindE (asset_mult paid match_price) (\<lambda>order_receives.
         Inr (Fill fills_limit (fills_limit \<longrightarrow> usd_to_buy = usd_for_sale) paid order_receives)))))))))"

function call_loop ::
    "'e market_env_scheme \<Rightarrow> asset_id_type \<Rightarrow> asset_object \<Rightarrow> bool \<Rightarrow> nat list \<Rightarrow> nat list \<Rightarrow> bool \<Rightarrow> bool \<Rightarrow>
     'z chain \<Rightarrow> ('z chain \<times> bool) res" where
  "call_loop E mia_id mia enable calls limits filled_limit margin_called st =
     bindE (check_for_blackswan E mia_id mia enable st) (\<lambda>(st, swan).
     if swan \<or> calls = [] \<or> limits = [] then Inr (st, margin_called)
     else
       bindE (call_round mia (hd calls) (hd limits) st) (\<lambda>outcome.
       case outcome of
         Stop \<Rightarrow> Inr (st, margin_called)
       | Swan fp \<Rightarrow>
           bindE (assertE enable ''enable_black_swan'') (\<lambda>_.
           bindE (globally_settle_asset E mia_id mia fp st) (\<lambda>st. Inr (st, True)))
       | Fill fills_limit filled_call paid order_receives \<Rightarrow>
           let filled_limit' = (filled_limit \<or> fills_limit) in
           bindE (assertE (filled_call \<or> filled_limit') ''filled_call || filled_limit'') (\<lambda>_.
           bindE (fill_call_order E (hd calls) order_receives paid st) (\<lambda>(st, _).
           bindE (fill_limit_order E (hd limits) paid order_receives True st) (\<lambda>(st, _).
           call_loop E mia_id mia enable (if filled_call then tl calls else calls)
             (if filled_limit' then tl limits else limits) filled_limit' True st)))))"
  by pat_completeness auto
termination
  by (relation "measure (\<lambda>(E, mia_id, mia, enable, calls, limits, fl, mc, st). length calls + length limits)")
    (auto simp: neq_Nil_conv assertE_eq_Inr split: if_splits)

declare call_loop.simps [simp del]

definition check_call_orders ::
    "'e market_env_scheme \<Rightarrow> asset_id_type \<Rightarrow> asset_object \<Rightarrow> bool \<Rightarrow> 'z chain \<Rightarrow> ('z chain \<times> bool) res option" where
  "check_call_orders E mia_id mia enable st =
     (if \<not> is_market_issued mia then Some (Inr (st, False))
      else
        bindO (Some (check_for_blackswan E mia_id mia enable st)) (\<lambda>(st, swan).
        if swan then Some (Inr (st, False))
        else
          bindO (Some (bitasset_of mia st)) (\<lambda>(k, bitasset).
          let backing = short_backing_asset (bit_options bitasset) in
          if is_prediction_market bitasset then Some (Inr (st, False))
          else if price_is_null (settlement_price (current_feed bitasset)) then Some (Inr (st, False))
          else
            bindO (Some (price_max mia_id backing)) (\<lambda>max_price.
            bindO (max_short_squeeze_price (rat E) (current_feed bitasset)) (\<lambda>min_price.
            bindO (Some (limits_between max_price min_price st)) (\<lambda>limits.
            if limits = [] then Some (Inr (st, False))
            else
              bindO (Some (calls_of_market backing mia_id st)) (\<lambda>calls.
              Some (call_loop E mia_id mia enable calls limits False False st))))))))"

subsection \<open>Applying a new order\<close>

definition freeze_order :: "'e fc_env_scheme \<Rightarrow> nat \<Rightarrow> limit_order_object \<Rightarrow> 'z chain \<Rightarrow> 'z chain res" where
  "freeze_order E i order st =
     (case last_row (deflations (objects st)) of
        None \<Rightarrow> Inr st
      | Some (k, d) \<Rightarrow>
          let odf = order_deflation_of st i; t = order_deflations (objects st) in
          if asset_id (base (sell_price order)) = 0 \<and> \<not> order_cleared d \<and>
             (case odf of None \<Rightarrow> True | Some (_, y) \<Rightarrow> odf_last_deflation_id y < k \<and> \<not> odf_cleared y) then
            bindE (deflated_part E (for_sale order) (dfl_rate d)) (\<lambda>amt.
            if 0 < amt then
              bindE (case odf of
                       None \<Rightarrow> Inr (snd (tbl_create \<lparr>odf_obj_order = i, odf_last_deflation_id = 0, odf_frozen = amt, odf_cleared = True\<rparr> t))
                     | Some (j, _) \<Rightarrow> tbl_modify j (\<lambda>y. Inr (y\<lparr>odf_frozen := amt, odf_cleared := True\<rparr>)) t) (\<lambda>t.
              cut_order E i (lo_seller order) amt (st\<lparr>objects := objects st\<lparr>order_deflations := t\<rparr>\<rparr>))
            else Inr st)
          else Inr st)"

fun match_book :: "'e market_env_scheme \<Rightarrow> nat \<Rightarrow> nat list \<Rightarrow> 'z chain \<Rightarrow> 'z chain res" where
  "match_book E new_id [] st = Inr st"
| "match_book E new_id (i # is) st =
     bindE (deref (tbl_find (limit_orders (objects st)) i)) (\<lambda>old.
     bindE (freeze_order E i old st) (\<lambda>st.
     bindE (match_orders E new_id i (sell_price old) st) (\<lambda>(st, result).
     if result \<noteq> 2 then Inr st else match_book E new_id is st)))"

text \<open>The part of \<open>apply_order\<close> after the first two checks, and the whole.\<close>

definition take_from_book ::
    "'e market_env_scheme \<Rightarrow> nat \<Rightarrow> limit_order_object \<Rightarrow> asset_id_type \<times> asset_object \<Rightarrow> asset_id_type \<times> asset_object \<Rightarrow>
     bool \<Rightarrow> 'z chain \<Rightarrow> ('z chain \<times> bool) res option" where
  "take_from_book E order_id order sell receive allow_black_swan st =
     (let max_price = price_invert (sell_price order) in
      bindO (Some (price_max (asset_id (base max_price)) (asset_id (quote max_price)))) (\<lambda>top.
      bindO (Some (limits_between top max_price st)) (\<lambda>book.
      bindO (Some (match_book E order_id book st)) (\<lambda>st.
      bindO (check_call_orders E (fst sell) (snd sell) allow_black_swan st) (\<lambda>(st, _).
      bindO (check_call_orders E (fst receive) (snd receive) allow_black_swan st) (\<lambda>(st, _).
      if tbl_find (limit_orders (objects st)) order_id = None then Some (Inr (st, True))
      else if head_block_time st \<le> HARDFORK_555_TIME then Some (Inr (st, False))
      else Some (maybe_cull_small_order E order_id st)))))))"

definition apply_order :: "'e market_env_scheme \<Rightarrow> nat \<Rightarrow> bool \<Rightarrow> 'z chain \<Rightarrow> ('z chain \<times> bool) res option" where
  "apply_order E order_id allow_black_swan st =
     bindO (Some (deref (tbl_find (limit_orders (objects st)) order_id))) (\<lambda>order.
     let sell_id = asset_id (amount_for_sale order) in
     bindO (Some (tbl_get (assets (objects st)) sell_id)) (\<lambda>sell_asset.
     bindO (Some (amount_to_receive order)) (\<lambda>recv.
     let receive_id = asset_id recv in
     bindO (Some (tbl_get (assets (objects st)) receive_id)) (\<lambda>receive_asset.
     bindO (check_call_orders E sell_id sell_asset allow_black_swan st) (\<lambda>(st, called).
     bindO (check_call_orders E receive_id receive_asset allow_black_swan st) (\<lambda>(st, called').
     if (called \<or> called') \<and> tbl_find (limit_orders (objects st)) order_id = None then Some (Inr (st, True))
     else take_from_book E order_id order (sell_id, sell_asset) (receive_id, receive_asset) allow_black_swan st))))))"

subsection \<open>Margin positions keep shares\<close>

lemma call_row: "market_ok L \<Longrightarrow> tbl_find (call_orders L) i = Some c \<Longrightarrow> call_ok c"
  using tbl_wf_find_row [of "call_orders L" i c] by (auto simp: market_ok_def list_all_iff)

lemma trades_modify_call:
  assumes ok: "modify_call i f st = Inr st'"
    and f: "\<And>c c' a. tbl_find (call_orders (objects st)) i = Some c \<Longrightarrow> f c = Inr c' \<Longrightarrow>
      collateral_in a c' = collateral_in a c + d a \<and> (call_ok c \<longrightarrow> call_ok c')"
  shows "trades d st (Inr st')"
proof -
  let ?t = "call_orders (objects st)"
  obtain c c' where c: "tbl_find ?t i = Some c" "f c = Inr c'"
      and st': "st' = st\<lparr>objects := objects st\<lparr>call_orders := ?t\<lparr>rows := AList.update i c' (rows ?t)\<rparr>\<rparr>\<rparr>"
    using ok by (auto simp: modify_call_def res_simps)
  have m: "moves d st (Inr st')"
  proof (rule movesI)
    fix st'' assume wf: "ledger_wf (objects st)" and "Inr st' = Inr st''"
    then have st'': "st'' = st'" by simp
    have t: "tbl_wf ?t" using wf by (simp add: ledger_wf_def)
    show "ledger_wf (objects st'')" using wf tbl_wf_update [OF t c(1)] by (simp add: st'' st' ledger_wf_def)
    show "gap a st'' = gap a st - d a" for a using f [OF c, of a] by (simp add: st'' st' gap_field tsum_update [OF t c(1)])
  qed
  show ?thesis
    by (rule trades_moves [OF m])
      (use f [OF c] call_row [OF _ c(1)] in \<open>auto simp: st' market_ok_def quiet_def intro!: list_all_update\<close>)
qed

lemma trades_remove_call:
  assumes c: "tbl_find (call_orders (objects st)) i = Some c" and "collateral c = 0"
  shows "trades (\<lambda>_. 0) st (Inr (remove_call i st))"
proof (rule trades_wf)
  assume wf: "ledger_wf (objects st)" "market_ok (objects st)"
  let ?t = "call_orders (objects st)"
  have t: "tbl_wf ?t" using wf(1) by (simp add: ledger_wf_def)
  have m: "moves (\<lambda>_. 0) st (Inr (remove_call i st))"
    using tbl_wf_remove [OF t, of i] assms(2)
    by (intro movesI) (auto simp: remove_call_def gap_field tsum_remove [OF t c] ledger_wf_def collateral_in_def)
  show "trades (\<lambda>_. 0) st (Inr (remove_call i st))"
    by (rule trades_moves [OF m]) (auto simp: remove_call_def market_ok_def quiet_def tbl_remove_def list_all_delete)
qed

lemma trades_dynamic:
  assumes ok: "modify_dynamic i f st = Inr st'"
    and f: "\<And>d d'. tbl_find (asset_dynamic (objects st)) i = Some d \<Longrightarrow> f d = Inr d' \<Longrightarrow>
      current_supply d' = current_supply d + s \<and> accumulated_fees d' = accumulated_fees d \<and> fee_pool d' = fee_pool d"
  shows "trades (\<lambda>a. if a = i then - s else 0) st (Inr st')"
proof -
  have "moves (\<lambda>a. (if a = i then 0 - s else 0) + (if a = 0 then 0 else 0)) st (modify_dynamic i f st)"
    by (rule moves_modify_dynamic) (drule (1) f, simp)
  then have "moves (\<lambda>a. if a = i then - s else 0) st (Inr st')" unfolding ok by (rule moves_cong) simp
  then show ?thesis by (rule trades_frame) (use same_market_modify(2) [OF ok] in simp)
qed

lemma free_core_trades:
  assumes "(if b then modify_stats i (free_core_in_orders E freed pay) st else Inr st) = Inr st'"
  shows "trades (\<lambda>_. 0) st (Inr st')"
proof (cases b)
  case True
  then have "modify_stats i (free_core_in_orders E freed pay) st = Inr st'" using assms by simp
  then have "trades (only_core 0) st (Inr st')"
    by (rule trades_stats) (auto simp: free_core_in_orders_def res_simps split: if_splits)
  then show ?thesis by (rule trades_cong) (simp add: only_core_def)
qed (use assms in \<open>simp add: trades_return\<close>)

lemma fill_call_order_trades:
  assumes ok: "fill_call_order E i pay recv st = Inr (st', filled)" and wf: "ledger_wf (objects st)"
    and c: "tbl_find (call_orders (objects st)) i = Some c" and le: "amount recv \<le> debt c"
  shows "trades (\<lambda>a. amount_in a recv - amount_in a pay) st (Inr st')"
    "of_dynamic current_supply a (objects st') = of_dynamic current_supply a (objects st) - amount_in a recv"
    "limit_orders (objects st') = limit_orders (objects st)" "bitassets (objects st') = bitassets (objects st)"
    "assets (objects st') = assets (objects st)" "filled = (debt c = amount recv)" "asset_id recv = asset_id (get_debt c)"
    "tbl_find (call_orders (objects st')) j = Some e \<Longrightarrow>
       \<exists>e'. tbl_find (call_orders (objects st)) j = Some e' \<and> co_call_price e = co_call_price e'"
proof -
  let ?freed = "collateral_freed pay recv c"
  let ?push = "push_applied_operation (fill_vop i (borrower c) pay recv (mk_asset 0 (asset_id pay)))"
  obtain st1 mia st2 and b :: account_object and st3 st4 where
      ids: "asset_id (get_debt c) = asset_id recv" "asset_id (get_collateral c) = asset_id pay"
      and 1: "modify_call i (pay_debt E pay recv) st = Inr st1"
      and mia: "tbl_find (assets (objects st1)) (asset_id recv) = Some mia"
      and 2: "modify_dynamic (dynamic_asset_data_id mia) (change_supply E (- amount recv)) st1 = Inr st2"
      and 3: "(case ?freed of None \<Rightarrow> Inr st2 | Some f \<Rightarrow> adjust_balance E (borrower c) f st2) = Inr st3"
      and 4: "(if ?freed \<noteq> None \<or> asset_id pay = 0 then modify_stats (acct_statistics b) (free_core_in_orders E ?freed pay) st3
               else Inr st3) = Inr st4"
      and 5: "st' = (if ?freed \<noteq> None then remove_call i (?push st4) else ?push st4)" "filled = (?freed \<noteq> None)"
    using ok c by (auto simp: fill_call_order_def bindE_eq_Inr deref_Inr Let_def assertE_eq_Inr tbl_get_Inr simp del: if_split)
  obtain c' where c': "pay_debt E pay recv c = Inr c'"
      and st1: "st1 = st\<lparr>objects := objects st\<lparr>call_orders := (call_orders (objects st))
        \<lparr>rows := AList.update i c' (rows (call_orders (objects st)))\<rparr>\<rparr>\<rparr>"
    using 1 c by (auto simp: modify_call_def res_simps)
  have id: "dynamic_asset_data_id mia = asset_id recv"
    using asset_row(1) [OF wf, of "asset_id recv" mia] mia by (simp add: st1)
  have t1: "trades (\<lambda>a. - amount_in a pay - (case ?freed of None \<Rightarrow> 0 | Some f \<Rightarrow> amount_in a f)) st (Inr st1)"
    using 1 by (rule trades_modify_call)
      (use c le ids in \<open>auto simp: pay_debt_def call_ok_def res_simps collateral_in_def amount_in_def collateral_freed_def get_collateral_def mk_asset_def\<close>)
  have t2: "trades (\<lambda>a. amount_in a recv) st1 (Inr st2)"
    by (rule trades_cong [OF trades_dynamic [OF 2, of "- amount recv"]])
      (auto simp: change_supply_def res_simps amount_in_def id)
  have t3: "trades (\<lambda>a. case ?freed of None \<Rightarrow> 0 | Some f \<Rightarrow> amount_in a f) st2 (Inr st3)"
    using 3 trades_adjust [of E "borrower c" _ st2 st3] by (auto intro!: trades_return split: option.splits)
  have "trades (\<lambda>a. amount_in a recv - amount_in a pay - (case ?freed of None \<Rightarrow> 0 | Some f \<Rightarrow> amount_in a f)) st (Inr st2)"
    by (rule trades_seq [OF t1 t2]) simp
  then have "trades (\<lambda>a. amount_in a recv - amount_in a pay) st (Inr st3)" by (rule trades_seq [OF _ t3]) simp
  then have "trades (\<lambda>a. amount_in a recv - amount_in a pay) st (Inr st4)" by (rule trades_seq [OF _ free_core_trades [OF 4]]) simp
  then have t4: "trades (\<lambda>a. amount_in a recv - amount_in a pay) st (Inr (?push st4))" by (rule trades_seq [OF _ trades_push]) simp
  have fr: "objects st4 = objects st2\<lparr>balances := balances (objects st4), account_stats := account_stats (objects st4)\<rparr>"
    using 3 4 by (auto simp: adjust_balance_def modify_stats_def Let_def res_simps split: if_splits option.split_asm)
  obtain d where d: "tbl_find (asset_dynamic (objects st)) (asset_id recv) = Some d"
      and st2: "objects st2 = objects st1\<lparr>asset_dynamic := (asset_dynamic (objects st))\<lparr>rows := AList.update (asset_id recv)
        (d\<lparr>current_supply := current_supply d - amount recv\<rparr>) (rows (asset_dynamic (objects st)))\<rparr>\<rparr>"
    using 2 by (auto simp: id modify_dynamic_def change_supply_def res_simps st1)
  have f4: "call_orders (objects st4) = call_orders (objects st1)" "limit_orders (objects st4) = limit_orders (objects st)"
      "bitassets (objects st4) = bitassets (objects st)" "assets (objects st4) = assets (objects st)"
      "asset_dynamic (objects st4) = asset_dynamic (objects st2)"
    by (subst fr, simp add: st2 st1)+
  have x4: "tbl_find (call_orders (objects (?push st4))) i = Some c'" by (simp add: push_applied_operation_def f4 st1)
  show "trades (\<lambda>a. amount_in a recv - amount_in a pay) st (Inr st')"
  proof (cases "?freed = None")
    case False
    then have "collateral c' = 0" using c' by (auto simp: pay_debt_def res_simps collateral_freed_def split: if_splits)
    then show ?thesis using trades_seq [OF t4 trades_remove_call [OF x4]] False by (simp add: 5)
  qed (use t4 5 in simp)
  show "of_dynamic current_supply a (objects st') = of_dynamic current_supply a (objects st) - amount_in a recv"
    using d by (auto simp: 5 of_dynamic_def remove_call_def push_applied_operation_def f4 st2 amount_in_def)
  show "limit_orders (objects st') = limit_orders (objects st)" "bitassets (objects st') = bitassets (objects st)"
    "assets (objects st') = assets (objects st)"
    by (simp_all add: 5 remove_call_def push_applied_operation_def f4)
  show "filled = (debt c = amount recv)" by (simp add: 5 collateral_freed_def)
  show "asset_id recv = asset_id (get_debt c)" using ids by simp
  have "co_call_price c' = co_call_price c" using c' by (auto simp: pay_debt_def res_simps)
  then show "tbl_find (call_orders (objects st')) j = Some e \<Longrightarrow>
       \<exists>e'. tbl_find (call_orders (objects st)) j = Some e' \<and> co_call_price e = co_call_price e'"
    using c by (auto simp: 5 remove_call_def push_applied_operation_def f4 st1 split: if_splits)
qed

lemma market_prices:
  assumes "price_min b q = Inr lo" and "price_max b q = Inr hi"
  shows "price_pos lo" "price_pos hi" "\<not> price_less hi lo" "asset_id (base lo) = b" "asset_id (base hi) = b"
    "asset_id (quote lo) = q" "asset_id (quote hi) = q"
proof -
  have e: "lo = mk_price (mk_asset 1 b) (mk_asset GRAPHENE_MAX_SHARE_SUPPLY q)"
      "hi = mk_price (mk_asset GRAPHENE_MAX_SHARE_SUPPLY b) (mk_asset 1 q)"
    using assms by (auto simp: price_min_def price_max_def price_of_def res_simps)
  show p: "price_pos lo" "price_pos hi" by (simp_all add: e price_pos_def mk_price_def mk_asset_def GRAPHENE_MAX_SHARE_SUPPLY_def)
  show "\<not> price_less hi lo"
    unfolding price_less_iff [OF p(2,1)] by (simp add: e mk_price_def mk_asset_def GRAPHENE_MAX_SHARE_SUPPLY_def)
qed (use assms in \<open>auto simp: price_min_def price_max_def price_of_def res_simps mk_price_def mk_asset_def\<close>)

lemma calls_of_market_ids:
  assumes "calls_of_market b q st = Inr cs" and "i \<in> set cs" and ok: "market_ok (objects st)" and wf: "ledger_wf (objects st)"
  shows "\<exists>c. tbl_find (call_orders (objects st)) i = Some c \<and> asset_id (get_collateral c) = b \<and> asset_id (get_debt c) = q"
proof -
  obtain lo hi where p: "price_min b q = Inr lo" "price_max b q = Inr hi" and cs: "calls_between lo hi st = Inr cs"
    using assms(1) by (auto simp: calls_of_market_def bindE_eq_Inr)
  note m = market_prices [OF p]
  obtain c where c: "(i, c) \<in> set (rows (call_orders (objects st)))"
      "\<not> price_less (co_call_price c) lo" "\<not> price_less hi (co_call_price c)"
    using calls_between_bounds [OF ok m(1-3) cs assms(2)] by blast
  have "tbl_find (call_orders (objects st)) i = Some c" using c(1) wf by (simp add: ledger_wf_def tbl_wf_def tbl_find_def)
  then show ?thesis using price_between_ids [OF c(2,3) m(4-7)] by (auto simp: get_collateral_def get_debt_def mk_asset_def)
qed

subsection \<open>Global settlement keeps shares\<close>

text \<open>
  What closing positions does so far: the supply has fallen by the debts that were closed, and the
  collateral that was gathered is in no object yet.
\<close>

definition settling :: "asset_id_type \<Rightarrow> asset_id_type \<Rightarrow> 'z chain \<Rightarrow> 'z chain \<times> asset \<Rightarrow> bool" where
  "settling mia backing st s \<longleftrightarrow> asset_id (snd s) = backing \<and>
     ledger_wf (objects (fst s)) \<and> market_ok (objects (fst s)) \<and> bitassets (objects (fst s)) = bitassets (objects st) \<and>
     limit_orders (objects (fst s)) = limit_orders (objects st) \<and> assets (objects (fst s)) = assets (objects st) \<and>
     (\<forall>i c. tbl_find (call_orders (objects (fst s))) i = Some c \<longrightarrow>
        (\<exists>c'. tbl_find (call_orders (objects st)) i = Some c' \<and> co_call_price c = co_call_price c')) \<and>
     (\<forall>a. gap a (fst s) = gap a st + amount_in a (snd s) -
        (if a = mia then of_dynamic current_supply a (objects st) - of_dynamic current_supply a (objects (fst s)) else 0))"

lemma settling_start: "ledger_wf (objects st) \<Longrightarrow> market_ok (objects st) \<Longrightarrow> settling mia backing st (st, mk_asset 0 backing)"
  by (simp add: settling_def amount_in_def mk_asset_def)

lemma settle_call_settling:
  assumes ok: "settle_call E p i s = Inr s'" and s: "settling mia backing st s"
    and d: "\<exists>c. tbl_find (call_orders (objects st)) i = Some c \<and> asset_id (get_debt c) = mia"
  shows "settling mia backing st s'"
proof -
  obtain c pay st1 g where c: "tbl_find (call_orders (objects (fst s))) i = Some c" and g: "asset_plus E (snd s) pay = Inr g"
      and f: "fill_call_order E i pay (get_debt c) (fst s) = Inr (st1, True)" and s': "s' = (st1, g)"
    using ok by (auto simp: settle_call_def bindE_eq_Inr deref_Inr Let_def assertE_eq_Inr simp del: if_split)
  have wf: "ledger_wf (objects (fst s))" "market_ok (objects (fst s))" using s by (simp_all add: settling_def)
  have id: "asset_id (get_debt c) = mia" using s c d by (fastforce simp: settling_def get_debt_def mk_asset_def)
  have le: "amount (get_debt c) \<le> debt c" by (simp add: get_debt_def mk_asset_def)
  note t = fill_call_order_trades [OF f wf(1) c le]
  have r: "ledger_wf (objects st1) \<and> market_ok (objects st1) \<and>
      (\<forall>a. gap a st1 = gap a (fst s) - (amount_in a (get_debt c) - amount_in a pay))"
    by (rule trades_result [OF t(1) refl wf])
  have gg: "asset_id g = asset_id (snd s)" "amount_in a g = amount_in a (snd s) + amount_in a pay" for a
    using g by (auto simp: asset_plus_def res_simps amount_in_def mk_asset_def)
  have debt: "amount_in a (get_debt c) = (if a = mia then debt c else 0)" for a
    using id by (simp add: amount_in_def get_debt_def mk_asset_def)
  have calls: "\<exists>e'. tbl_find (call_orders (objects st)) j = Some e' \<and> co_call_price e = co_call_price e'"
    if "tbl_find (call_orders (objects st1)) j = Some e" for j e
    using t(8) [OF that] s by (fastforce simp: settling_def)
  show ?thesis
    using s r t(3-5) calls by (simp add: settling_def s' gg t(2) debt)
qed

lemma trades_modify_bitasset:
  assumes ok: "modify_bitasset i f st = Inr st'"
    and f: "\<And>b b' a. tbl_find (bitassets (objects st)) i = Some b \<Longrightarrow> f b = Inr b' \<Longrightarrow>
      fund_in a b' = fund_in a b + d a \<and> (has_settlement b' \<or> settlement_fund b' = 0)"
  shows "trades d st (Inr st')"
proof -
  let ?t = "bitassets (objects st)"
  obtain b b' where b: "tbl_find ?t i = Some b" "f b = Inr b'"
      and st': "st' = st\<lparr>objects := objects st\<lparr>bitassets := ?t\<lparr>rows := AList.update i b' (rows ?t)\<rparr>\<rparr>\<rparr>"
    using ok by (auto simp: modify_bitasset_def res_simps)
  have m: "moves d st (Inr st')"
  proof (rule movesI)
    fix st'' assume wf: "ledger_wf (objects st)" and "Inr st' = Inr st''"
    then have st'': "st'' = st'" by simp
    have t: "tbl_wf ?t" using wf by (simp add: ledger_wf_def)
    show "ledger_wf (objects st'')" using wf tbl_wf_update [OF t b(1)] by (simp add: st'' st' ledger_wf_def)
    show "gap a st'' = gap a st - d a" for a using f [OF b, of a] by (simp add: st'' st' gap_field tsum_update [OF t b(1)])
  qed
  show ?thesis
    by (rule trades_moves [OF m]) (use f [OF b] in \<open>auto simp: st' market_ok_def quiet_def intro!: list_all_update\<close>)
qed

lemma mk_price_not_null: "asset_id b \<noteq> asset_id q \<Longrightarrow> \<not> price_is_null (mk_price b q)"
  by (auto simp: price_is_null_def price_eq_def null_price_def mk_price_def mk_asset_def)

lemma globally_settle_trades:
  assumes ok: "globally_settle_asset E i mia p st = Inr st'" and wf: "ledger_wf (objects st)" and mk: "market_ok (objects st)"
    and mia: "tbl_find (assets (objects st)) i = Some mia"
  shows "trades (\<lambda>_. 0) st (Inr st')" "limit_orders (objects st') = limit_orders (objects st)"
    "assets (objects st') = assets (objects st)"
proof -
  have id: "dynamic_asset_data_id mia = i" by (rule asset_row(1) [OF wf mia])
  obtain k b dyn calls st1 g st2 where b: "tbl_find (bitassets (objects st)) k = Some b" "\<not> has_settlement b"
      and dyn: "tbl_find (asset_dynamic (objects st)) i = Some dyn"
      and c: "calls_of_market (short_backing_asset (bit_options b)) i st = Inr calls"
      and f: "foldE (settle_call E p) calls (st, mk_asset 0 (short_backing_asset (bit_options b))) = Inr (st1, g)"
      and 2: "modify_bitasset k (\<lambda>b. bindE (price_of (mk_asset (current_supply dyn) i) g) (\<lambda>sp.
          Inr (b\<lparr>bit_settlement_price := sp, settlement_fund := amount g\<rparr>))) st1 = Inr st2"
      and 3: "modify_dynamic i (\<lambda>d. Inr (d\<lparr>current_supply := current_supply dyn\<rparr>)) st2 = Inr st'"
    using ok by (auto simp: globally_settle_asset_def bitasset_of_def bindE_eq_Inr deref_Inr Let_def assertE_eq_Inr tbl_get_Inr id)
  let ?sba = "short_backing_asset (bit_options b)"
  have "settling i ?sba st (st1, g)"
    by (rule foldE_invariant [where P = "settling i ?sba st", OF f settling_start [OF wf mk]])
      (erule settle_call_settling, assumption, use calls_of_market_ids [OF c _ mk wf] in blast)
  then have s: "asset_id g = ?sba" "ledger_wf (objects st1)" "market_ok (objects st1)" "bitassets (objects st1) = bitassets (objects st)"
      "limit_orders (objects st1) = limit_orders (objects st)" "assets (objects st1) = assets (objects st)"
      "\<And>a. gap a st1 = gap a st + amount_in a g -
        (if a = i then of_dynamic current_supply a (objects st) - of_dynamic current_supply a (objects st1) else 0)"
    by (simp_all add: settling_def)
  have fund: "settlement_fund b = 0" using mk b tbl_wf_find_row [OF b(1)] by (auto simp: market_ok_def list_all_iff)
  have t2: "trades (\<lambda>a. amount_in a g) st1 (Inr st2)"
    using 2 by (rule trades_modify_bitasset)
      (use b s(1,4) fund in \<open>auto simp: res_simps fund_in_def amount_in_def has_settlement_def mk_price_not_null\<close>)
  have f2: "asset_dynamic (objects st2) = asset_dynamic (objects st1)" "limit_orders (objects st2) = limit_orders (objects st1)"
      "assets (objects st2) = assets (objects st1)"
    using 2 by (auto simp: modify_bitasset_def res_simps)
  let ?back_to = "current_supply dyn - of_dynamic current_supply i (objects st1)"
  have t3: "trades (\<lambda>a. if a = i then - ?back_to else 0) st2 (Inr st')"
    using 3 by (rule trades_dynamic) (auto simp: f2(1) of_dynamic_def)
  have 4: "ledger_wf (objects st2) \<and> market_ok (objects st2) \<and> (\<forall>a. gap a st2 = gap a st1 - amount_in a g)"
    by (rule trades_result [OF t2 refl s(2,3)])
  have "ledger_wf (objects st') \<and> market_ok (objects st') \<and> (\<forall>a. gap a st' = gap a st2 - (if a = i then - ?back_to else 0))"
    by (rule trades_result [OF t3 refl]) (use 4 in blast)+
  then show "trades (\<lambda>_. 0) st (Inr st')"
    using 4 s(7) dyn by (simp add: trades_def of_dynamic_def)
  show "limit_orders (objects st') = limit_orders (objects st)" "assets (objects st') = assets (objects st)"
    using 3 f2 s(5,6) by (auto simp: modify_dynamic_def res_simps)
qed

subsection \<open>Margin calls keep shares\<close>

lemma blackswan_trades:
  assumes ok: "check_for_blackswan E i mia enable st = Inr (st', b)" and wf: "ledger_wf (objects st)" "market_ok (objects st)"
    and mia: "tbl_find (assets (objects st)) i = Some mia"
  shows "trades (\<lambda>_. 0) st (Inr st')" "limit_orders (objects st') = limit_orders (objects st)"
    "assets (objects st') = assets (objects st)"
proof -
  have "st' = st \<or> (\<exists>p. globally_settle_asset E i mia p st = Inr st')"
    using ok
    by (auto simp: check_for_blackswan_def settle_if_swan_def bindE_eq_Inr Let_def neq_Nil_conv split: if_split_asm list.split_asm)
  then show "trades (\<lambda>_. 0) st (Inr st')" "limit_orders (objects st') = limit_orders (objects st)"
    "assets (objects st') = assets (objects st)"
    using globally_settle_trades [OF _ wf mia] by (auto simp: trades_return)
qed

lemma margin_call_trades:
  assumes E: "fc_contract E" and wf: "ledger_wf (objects st)" "market_ok (objects st)"
    and l: "tbl_find (limit_orders (objects st)) l = Some limit" and c: "tbl_find (call_orders (objects st)) c = Some call"
    and p: "0 \<le> amount paid" "amount paid \<le> for_sale limit" "amount paid \<le> debt call" and r: "asset_mult paid p = Inr recv"
    and 1: "fill_call_order E c recv paid st = Inr (st1, f1)" and 2: "fill_limit_order E l paid recv True st1 = Inr (st2, f2)"
  shows "trades (\<lambda>_. 0) st (Inr st2)" "assets (objects st2) = assets (objects st)"
proof -
  note t1 = fill_call_order_trades [OF 1 wf(1) c p(3)]
  have wf1: "ledger_wf (objects st1)" "market_ok (objects st1)" using trades_result [OF t1(1) refl wf] by blast+
  have l1: "tbl_find (limit_orders (objects st1)) l = Some limit" using l t1(3) by simp
  have "0 \<le> amount recv" "amount recv < 2 ^ 63" using asset_mult_nonneg [OF r] by (simp_all add: GRAPHENE_MAX_SHARE_SUPPLY_def)
  note t2 = fill_limit_order_trades [OF E 2 wf1 l1 p(1,2) this]
  show "trades (\<lambda>_. 0) st (Inr st2)" by (rule trades_seq [OF t1(1) t2(1)]) simp
  show "assets (objects st2) = assets (objects st)" using t2(4) t1(5) by simp
qed

lemma call_round_fill:
  assumes ok: "call_round mia c l st = Inr (Fill fills filled paid recv)" and mk: "market_ok (objects st)"
  obtains limit call p where "tbl_find (limit_orders (objects st)) l = Some limit" "tbl_find (call_orders (objects st)) c = Some call"
    "0 \<le> amount paid" "amount paid \<le> for_sale limit" "amount paid \<le> debt call" "asset_mult paid p = Inr recv"
proof -
  obtain limit call where x: "tbl_find (limit_orders (objects st)) l = Some limit" "tbl_find (call_orders (objects st)) c = Some call"
      and f: "asset_ge (get_debt call) (amount_for_sale limit) = Inr fills"
      and p: "paid = (if fills then amount_for_sale limit else get_debt call)" and r: "asset_mult paid (sell_price limit) = Inr recv"
    using ok by (auto simp: call_round_def bindE_eq_Inr deref_Inr Let_def split: if_split_asm)
  have "0 \<le> amount paid" "amount paid \<le> for_sale limit" "amount paid \<le> debt call"
    using f order_row [OF mk x(1)] call_row [OF mk x(2)]
    by (auto simp: p asset_ge_def asset_less_def res_simps amount_for_sale_def get_debt_def mk_asset_def order_ok_def call_ok_def)
  then show ?thesis by (rule that [OF x _ _ _ r])
qed

lemma call_loop_cases:
  assumes "call_loop E i mia enable calls limits fl mc st = Inr (st', b)"
  obtains (stop) st1 swan where "check_for_blackswan E i mia enable st = Inr (st1, swan)" "st' = st1"
  | (swan) st1 swan p where "check_for_blackswan E i mia enable st = Inr (st1, swan)" "globally_settle_asset E i mia p st1 = Inr st'"
  | (fill) st1 swan fills filled paid recv st2 f1 st3 f2 where "check_for_blackswan E i mia enable st = Inr (st1, swan)"
      "calls \<noteq> []" "limits \<noteq> []" "call_round mia (hd calls) (hd limits) st1 = Inr (Fill fills filled paid recv)"
      "filled \<or> fl \<or> fills" "fill_call_order E (hd calls) recv paid st1 = Inr (st2, f1)"
      "fill_limit_order E (hd limits) paid recv True st2 = Inr (st3, f2)"
      "call_loop E i mia enable (if filled then tl calls else calls) (if fl \<or> fills then tl limits else limits) (fl \<or> fills) True st3
         = Inr (st', b)"
proof -
  obtain st1 swan where 1: "check_for_blackswan E i mia enable st = Inr (st1, swan)"
    using assms by (subst (asm) call_loop.simps) (auto simp: bindE_eq_Inr)
  show ?thesis
  proof (cases "swan \<or> calls = [] \<or> limits = []")
    case True
    then show ?thesis using assms 1 by (subst (asm) call_loop.simps) (simp add: stop)
  next
    case False
    then obtain r where r: "call_round mia (hd calls) (hd limits) st1 = Inr r"
      using assms 1 by (subst (asm) call_loop.simps) (auto simp: bindE_eq_Inr)
    show ?thesis
      using assms False 1 r by (subst (asm) call_loop.simps, cases r)
        (auto simp: bindE_eq_Inr assertE_eq_Inr Let_def simp del: if_split intro: stop [OF 1] swan [OF 1] fill [OF 1])
  qed
qed

lemma call_loop_trades:
  assumes E: "fc_contract E"
  shows "call_loop E i mia enable calls limits fl mc st = Inr (st', b) \<Longrightarrow> ledger_wf (objects st) \<Longrightarrow> market_ok (objects st) \<Longrightarrow>
    tbl_find (assets (objects st)) i = Some mia \<Longrightarrow>
    trades (\<lambda>_. 0) st (Inr st') \<and> assets (objects st') = assets (objects st)"
proof (induction "length calls + length limits" arbitrary: calls limits fl mc st rule: less_induct)
  case less
  note wf = less.prems(2,3) and mia = less.prems(4)
  have start: "trades (\<lambda>_. 0) st (Inr st1)" "assets (objects st1) = assets (objects st)" "ledger_wf (objects st1)" "market_ok (objects st1)"
    if "check_for_blackswan E i mia enable st = Inr (st1, s)" for st1 s
    using blackswan_trades [OF that wf mia] trades_result [OF blackswan_trades(1) [OF that wf mia] refl wf] by blast+
  from less.prems(1) show ?case
  proof (cases rule: call_loop_cases)
    case (stop st1 s)
    then show ?thesis using start by blast
  next
    case (swan st1 s p)
    note t1 = start [OF swan(1)]
    note t2 = globally_settle_trades [OF swan(2) t1(3,4)]
    have mia1: "tbl_find (assets (objects st1)) i = Some mia" using mia t1(2) by simp
    have "trades (\<lambda>_. 0) st (Inr st')" by (rule trades_seq [OF t1(1) t2(1) [OF mia1]]) simp
    then show ?thesis using t1(2) t2(3) [OF mia1] by simp
  next
    case (fill st1 s fills filled paid recv st2 f1 st3 f2)
    note t1 = start [OF fill(1)]
    obtain limit call p where x: "tbl_find (limit_orders (objects st1)) (hd limits) = Some limit"
        "tbl_find (call_orders (objects st1)) (hd calls) = Some call"
        "0 \<le> amount paid" "amount paid \<le> for_sale limit" "amount paid \<le> debt call" "asset_mult paid p = Inr recv"
      by (rule call_round_fill [OF fill(4) t1(4)])
    note t2 = margin_call_trades [OF E t1(3,4) x fill(6,7)]
    have t12: "trades (\<lambda>_. 0) st (Inr st3)" by (rule trades_seq [OF t1(1) t2(1)]) simp
    have wf3: "ledger_wf (objects st3)" "market_ok (objects st3)" using trades_result [OF t12 refl wf] by blast+
    have "trades (\<lambda>_. 0) st3 (Inr st') \<and> assets (objects st') = assets (objects st3)"
      by (rule less.hyps [OF _ fill(8) wf3]) (use fill(2,3,5) mia t1(2) t2(2) in \<open>auto simp: neq_Nil_conv\<close>)
    then show ?thesis using trades_seq [OF t12, of "\<lambda>_. 0" "Inr st'"] t1(2) t2(2) by simp
  qed
qed

lemma check_call_orders_trades:
  assumes E: "fc_contract E" and ok: "check_call_orders E i mia enable st = Some (Inr (st', b))"
    and wf: "ledger_wf (objects st)" "market_ok (objects st)" and mia: "tbl_find (assets (objects st)) i = Some mia"
  shows "trades (\<lambda>_. 0) st (Inr st')" "assets (objects st') = assets (objects st)"
proof -
  have "st' = st \<or> (\<exists>st1 b1. check_for_blackswan E i mia enable st = Inr (st1, b1) \<and>
      (st' = st1 \<or> (\<exists>calls limits. call_loop E i mia enable calls limits False False st1 = Inr (st', b))))"
    using ok by (auto simp: check_call_orders_def bindO_def Let_def split: if_split_asm option.split_asm sum.split_asm)
  then have "trades (\<lambda>_. 0) st (Inr st') \<and> assets (objects st') = assets (objects st)"
  proof (elim disjE exE conjE)
    fix st1 b1 assume 1: "check_for_blackswan E i mia enable st = Inr (st1, b1)"
    note t1 = blackswan_trades [OF 1 wf mia]
    show "trades (\<lambda>_. 0) st (Inr st') \<and> assets (objects st') = assets (objects st)" if "st' = st1" using t1 that by simp
    have wf1: "ledger_wf (objects st1)" "market_ok (objects st1)" using trades_result [OF t1(1) refl wf] by blast+
    show "trades (\<lambda>_. 0) st (Inr st') \<and> assets (objects st') = assets (objects st)"
      if "call_loop E i mia enable calls limits False False st1 = Inr (st', b)" for calls limits
    proof -
      have "trades (\<lambda>_. 0) st1 (Inr st') \<and> assets (objects st') = assets (objects st1)"
        by (rule call_loop_trades [OF E that wf1]) (use mia t1(3) in simp)
      then show ?thesis using trades_seq [OF t1(1), of "\<lambda>_. 0" "Inr st'"] t1(3) by simp
    qed
  qed (simp add: trades_return)
  then show "trades (\<lambda>_. 0) st (Inr st')" "assets (objects st') = assets (objects st)" by blast+
qed

subsection \<open>A new order keeps shares\<close>

lemma freeze_order_quiet: "quiet (objects st) \<Longrightarrow> freeze_order E i x st = Inr st"
  by (auto simp: freeze_order_def quiet_def Let_def split: option.splits)

lemma match_book_trades:
  assumes E: "fc_contract E"
  shows "match_book E u is st = Inr st' \<Longrightarrow> ledger_wf (objects st) \<Longrightarrow> market_ok (objects st) \<Longrightarrow>
    trades (\<lambda>_. 0) st (Inr st') \<and> assets (objects st') = assets (objects st)"
proof (induction "is" arbitrary: st)
  case Nil
  then show ?case by (simp add: trades_return)
next
  case (Cons i "is")
  note wf = Cons.prems(2,3)
  have q: "quiet (objects st)" using wf(2) by (simp add: market_ok_def)
  obtain old st1 r where old: "tbl_find (limit_orders (objects st)) i = Some old"
      and m: "match_orders E u i (sell_price old) st = Inr (st1, r)" and rest: "st' = st1 \<or> match_book E u is st1 = Inr st'"
    using Cons.prems(1) by (auto simp: bindE_eq_Inr deref_Inr freeze_order_quiet [OF q] split: if_split_asm)
  note t1 = match_orders_trades [OF E m wf old]
  have wf1: "ledger_wf (objects st1)" "market_ok (objects st1)" using trades_result [OF t1(1) refl wf] by blast+
  from rest show ?case
  proof
    assume "st' = st1"
    then show ?case using t1(1,6) by simp
  next
    assume "match_book E u is st1 = Inr st'"
    then have "trades (\<lambda>_. 0) st1 (Inr st') \<and> assets (objects st') = assets (objects st1)" by (rule Cons.IH [OF _ wf1])
    then show ?case using trades_seq [OF t1(1), of "\<lambda>_. 0" "Inr st'"] t1(6) by simp
  qed
qed

lemma bindO_Inr: "bindO m f = Some (Inr y) \<longleftrightarrow> (\<exists>x. m = Some (Inr x) \<and> f x = Some (Inr y))"
  by (auto simp: bindO_def split: option.splits sum.splits)

lemma maybe_cull_trades:
  assumes ok: "maybe_cull_small_order E i st = Inr (st', b)" and wf: "ledger_wf (objects st)" "market_ok (objects st)"
  shows "trades (\<lambda>_. 0) st (Inr st')"
  using ok cancel_limit_order_trades(1) [OF _ wf]
  by (auto simp: maybe_cull_small_order_def bindE_eq_Inr trades_return split: if_split_asm)

text \<open>Two checks for margin calls, as before and after the new order is matched.\<close>

lemma both_checks_trades:
  assumes E: "fc_contract E" and wf: "ledger_wf (objects st)" "market_ok (objects st)"
    and a: "tbl_find (assets (objects st)) i = Some a" "tbl_find (assets (objects st)) j = Some b"
    and 1: "check_call_orders E i a allow st = Some (Inr (st1, c1))" and 2: "check_call_orders E j b allow st1 = Some (Inr (st2, c2))"
  shows "trades (\<lambda>_. 0) st (Inr st2)" "assets (objects st2) = assets (objects st)"
    "ledger_wf (objects st2)" "market_ok (objects st2)"
proof -
  note t1 = check_call_orders_trades [OF E 1 wf a(1)]
  have wf1: "ledger_wf (objects st1)" "market_ok (objects st1)" using trades_result [OF t1(1) refl wf] by blast+
  have b1: "tbl_find (assets (objects st1)) j = Some b" using a(2) t1(2) by simp
  note t2 = check_call_orders_trades [OF E 2 wf1 b1]
  show "assets (objects st2) = assets (objects st)" using t1(2) t2(2) by simp
  show t: "trades (\<lambda>_. 0) st (Inr st2)" by (rule trades_seq [OF t1(1) t2(1)]) simp
  show "ledger_wf (objects st2)" "market_ok (objects st2)" using trades_result [OF t refl wf] by blast+
qed

lemma take_from_book_trades:
  assumes E: "fc_contract E" and ok: "take_from_book E i order (s, sell) (r, recv) allow st = Some (Inr (st', filled))"
    and wf: "ledger_wf (objects st)" "market_ok (objects st)"
    and a: "tbl_find (assets (objects st)) s = Some sell" "tbl_find (assets (objects st)) r = Some recv"
  shows "trades (\<lambda>_. 0) st (Inr st')"
proof -
  obtain book st3 st4 c4 st5 c5 where 3: "match_book E i book st = Inr st3"
      and 4: "check_call_orders E s sell allow st3 = Some (Inr (st4, c4))"
      and 5: "check_call_orders E r recv allow st4 = Some (Inr (st5, c5))"
      and 6: "st' = st5 \<or> maybe_cull_small_order E i st5 = Inr (st', filled)"
    using ok by (auto simp: take_from_book_def bindO_Inr Let_def split: if_split_asm)
  have t3: "trades (\<lambda>_. 0) st (Inr st3)" "assets (objects st3) = assets (objects st)"
    using match_book_trades [OF E 3 wf] by blast+
  have wf3: "ledger_wf (objects st3)" "market_ok (objects st3)" using trades_result [OF t3(1) refl wf] by blast+
  have a3: "tbl_find (assets (objects st3)) s = Some sell" "tbl_find (assets (objects st3)) r = Some recv"
    using a t3(2) by simp_all
  note t45 = both_checks_trades [OF E wf3 a3 4 5]
  have t5: "trades (\<lambda>_. 0) st (Inr st5)" by (rule trades_seq [OF t3(1) t45(1)]) simp
  from 6 show ?thesis
  proof
    assume "maybe_cull_small_order E i st5 = Inr (st', filled)"
    then have "trades (\<lambda>_. 0) st5 (Inr st')" by (rule maybe_cull_trades [OF _ t45(3,4)])
    then show ?thesis by (rule trades_seq [OF t5]) simp
  qed (use t5 in simp)
qed

lemma apply_order_trades:
  assumes E: "fc_contract E" and ok: "apply_order E i allow st = Some (Inr (st', filled))"
    and wf: "ledger_wf (objects st)" "market_ok (objects st)"
  shows "trades (\<lambda>_. 0) st (Inr st')"
proof -
  obtain s r st1 c1 st2 c2 and order :: limit_order_object and sell recv :: asset_object where
      a: "tbl_find (assets (objects st)) s = Some sell"
      "tbl_find (assets (objects st)) r = Some recv"
      and 1: "check_call_orders E s sell allow st = Some (Inr (st1, c1))"
      and 2: "check_call_orders E r recv allow st1 = Some (Inr (st2, c2))"
      and rest: "st' = st2 \<or> take_from_book E i order (s, sell) (r, recv) allow st2 = Some (Inr (st', filled))"
    using ok by (auto simp: apply_order_def bindO_Inr Let_def tbl_get_Inr split: if_split_asm) blast+
  note t12 = both_checks_trades [OF E wf a 1 2]
  from rest show ?thesis
  proof
    assume "take_from_book E i order (s, sell) (r, recv) allow st2 = Some (Inr (st', filled))"
    then have "trades (\<lambda>_. 0) st2 (Inr st')" by (rule take_from_book_trades [OF E _ t12(3,4)]) (use a t12(2) in simp_all)
    then show ?thesis by (rule trades_seq [OF t12(1)]) simp
  qed (use t12(1) in simp)
qed

text \<open>
  applying a new order, with the margin calls it triggers on either side, the black swan and
  the global settlement these may end in, the matches with the book from the best price down and
  the removal of what is left when it is too small to sell, conserves the shares of every asset
  and keeps the ledger and its orders well formed, when no deflation is running.
\<close>

theorem apply_order_conserves:
  assumes E: "fc_contract E" and ok: "apply_order E i allow st = Some (Inr (st', filled))"
    and wf: "ledger_wf (objects st)" "market_ok (objects st)"
  shows "ledger_wf (objects st') \<and> market_ok (objects st') \<and> gap a st' = gap a st"
  using trades_result [OF apply_order_trades [OF assms] refl wf] by simp

lemma market_book:
  "\<exists>top. price_max 0 1 = Inr top \<and> limits_between top (price_invert (sell_price example_order_usd)) market_chain = Inr [4]"
  by (simp add: price_max_def price_of_def res_simps limits_between_def limit_price_index_def index_range_def index_by_def market_chain_def
      price_gt_def price_le_def price_eq_def price_less_def cross_mult_def price_invert_def example_order_def example_order_usd_def mk_price_def mk_asset_def
      GRAPHENE_MAX_SHARE_SUPPLY_def)

lemma no_calls: "\<not> is_market_issued a \<Longrightarrow> check_call_orders E i a allow st = Some (Inr (st, False))"
  by (simp add: check_call_orders_def)

theorem apply_order_conserves_witness:
  "\<exists>st'. apply_order market_std 5 True market_chain = Some (Inr (st', True)) \<and> market_ok (objects st') \<and> gap 1 st' = gap 1 market_chain"
proof -
  obtain st' where m: "match_orders market_std 5 4 (sell_price example_order) market_chain = Inr (st', 3)" using match_example by blast
  have gone: "tbl_find (limit_orders (objects st')) 5 = None"
    using match_orders_trades(3) [OF market_std_contract m market_chain_wf] by simp
  have recv: "amount_to_receive example_order_usd = Inr (mk_asset 50 0)"
    by (simp add: amount_to_receive_def amount_for_sale_def example_order_usd_def mk_price_def mk_asset_def
        asset_mult_base_eq price_pos_def share_ok_def GRAPHENE_MAX_SHARE_SUPPLY_def)
  have ids: "asset_id (amount_for_sale example_order_usd) = 1" "asset_id (base (price_invert (sell_price example_order_usd))) = 0"
      "asset_id (quote (price_invert (sell_price example_order_usd))) = 1" "asset_id (mk_asset 50 0) = 0"
    by (simp_all add: amount_for_sale_def example_order_usd_def mk_price_def mk_asset_def price_invert_def)
  obtain top where top: "price_max 0 1 = Inr top"
      "limits_between top (price_invert (sell_price example_order_usd)) market_chain = Inr [4]"
    using market_book by blast
  have q: "quiet (objects market_chain)" using market_chain_wf(2) by (simp add: market_ok_def)
  have b: "match_book market_std 5 [4] market_chain = Inr st'"
    using m by (simp add: deref_def freeze_order_quiet [OF q])
  have calls: "check_call_orders market_std 0 example_core_asset True st = Some (Inr (st, False))"
      "check_call_orders market_std 1 (example_core_asset\<lparr>dynamic_asset_data_id := 1\<rparr>) True st = Some (Inr (st, False))" for st :: "unit chain"
    by (simp_all add: no_calls is_market_issued_def example_core_asset_def)
  have t: "take_from_book market_std 5 example_order_usd (1, example_core_asset\<lparr>dynamic_asset_data_id := 1\<rparr>) (0, example_core_asset) True
      market_chain = Some (Inr (st', True))"
    by (simp add: take_from_book_def Let_def bindO_def ids top b calls gone del: One_nat_def match_book.simps)
  have ok: "apply_order market_std 5 True market_chain = Some (Inr (st', True))"
    by (simp add: apply_order_def deref_def tbl_get_def bindO_def ids recv calls t del: One_nat_def)
  show ?thesis using apply_order_conserves [OF market_std_contract ok market_chain_wf] ok by blast
qed

end
