(* ===== verification/Settlement.thy ===== *)
theory Settlement
  imports Margin
begin

text \<open>
  Forced settlement keeps shares: filling a settlement request, matching it with a margin position
  and cancelling it (\<open>database::fill_order\<close>, \<open>match\<close> and \<open>cancel_order\<close> for a
  \<open>force_settlement_object\<close>, \<open>libraries/chain/db_market.cpp\<close>).
\<close>

subsection \<open>Changes of a settlement request\<close>

lemma trades_modify_settlement:
  assumes ok: "modify_settlement i f st = Inr st'"
    and f: "\<And>s s' a. tbl_find (force_settlements (objects st)) i = Some s \<Longrightarrow> f s = Inr s' \<Longrightarrow> settling_in a s' = settling_in a s + d a"
  shows "trades d st (Inr st')" "same_market (objects st) (objects st')"
proof -
  let ?t = "force_settlements (objects st)"
  obtain s s' where s: "tbl_find ?t i = Some s" "f s = Inr s'"
      and st': "st' = st\<lparr>objects := objects st\<lparr>force_settlements := ?t\<lparr>rows := AList.update i s' (rows ?t)\<rparr>\<rparr>\<rparr>"
    using ok by (auto simp: modify_settlement_def res_simps)
  have m: "moves d st (Inr st')"
  proof (rule movesI)
    fix st'' assume wf: "ledger_wf (objects st)" and "Inr st' = Inr st''"
    then have st'': "st'' = st'" by simp
    have t: "tbl_wf ?t" using wf by (simp add: ledger_wf_def)
    show "ledger_wf (objects st'')" using wf tbl_wf_update [OF t s(1)] by (simp add: st'' st' ledger_wf_def)
    show "gap a st'' = gap a st - d a" for a using f [OF s, of a] by (simp add: st'' st' gap_field tsum_update [OF t s(1)])
  qed
  show sm: "same_market (objects st) (objects st')" by (simp add: st' same_market_def)
  show "trades d st (Inr st')" by (rule trades_frame [OF m]) (use sm in simp)
qed

lemma trades_remove_settlement:
  assumes s: "tbl_find (force_settlements (objects st)) i = Some s"
  shows "trades (\<lambda>a. - settling_in a s) st (Inr (remove_settlement i st))"
proof (rule trades_wf)
  assume wf: "ledger_wf (objects st)" "market_ok (objects st)"
  let ?t = "force_settlements (objects st)"
  have t: "tbl_wf ?t" using wf(1) by (simp add: ledger_wf_def)
  have m: "moves (\<lambda>a. - settling_in a s) st (Inr (remove_settlement i st))"
    using wf(1) tbl_wf_remove [OF t, of i]
    by (intro movesI) (auto simp: remove_settlement_def gap_field tsum_remove [OF t s] ledger_wf_def)
  show "trades (\<lambda>a. - settling_in a s) st (Inr (remove_settlement i st))"
    by (rule trades_frame [OF m]) (auto simp: remove_settlement_def same_market_def)
qed

lemma settlements_frame [simp]:
  "force_settlements (objects (push_applied_operation x st)) = force_settlements (objects st)"
  "tbl_find (force_settlements (objects (remove_settlement i st))) i = None"
  by (simp_all add: push_applied_operation_def remove_settlement_def tbl_find_def tbl_remove_def map_of_delete)

lemma settlements_modify:
  "adjust_balance E i x st = Inr st' \<Longrightarrow> force_settlements (objects st') = force_settlements (objects st)"
  "modify_stats j f st = Inr st' \<Longrightarrow> force_settlements (objects st') = force_settlements (objects st)"
  "modify_dynamic k g st = Inr st' \<Longrightarrow> force_settlements (objects st') = force_settlements (objects st)"
  "modify_call l h st = Inr st' \<Longrightarrow> force_settlements (objects st') = force_settlements (objects st)"
  by (auto simp: adjust_balance_def modify_stats_def modify_dynamic_def modify_call_def Let_def res_simps
      split: if_splits option.split_asm)

lemma fill_call_settlements:
  "fill_call_order E i pay recv st = Inr (st', filled) \<Longrightarrow> force_settlements (objects st') = force_settlements (objects st)"
  by (auto simp: fill_call_order_def bindE_eq_Inr Let_def remove_call_def push_applied_operation_def dest!: settlements_modify
      split: if_split_asm option.split_asm)

subsection \<open>Cancelling and filling a request\<close>

lemma cancel_settlement_trades:
  assumes "cancel_settlement E i v st = Inr st'"
  shows "trades (\<lambda>_. 0) st (Inr st')" "tbl_find (force_settlements (objects st')) i = None"
proof -
  obtain s st1 where s: "tbl_find (force_settlements (objects st)) i = Some s"
      and 1: "adjust_balance E (settle_owner s) (settle_balance s) st = Inr st1"
      and st': "\<exists>x. st' = remove_settlement i (if v then push_applied_operation x st1 else st1)"
    using assms by (auto simp: cancel_settlement_def bindE_eq_Inr deref_Inr Let_def)
  obtain x where st': "st' = remove_settlement i (if v then push_applied_operation x st1 else st1)" using st' by blast
  let ?st2 = "if v then push_applied_operation x st1 else st1"
  have t: "trades (\<lambda>a. settling_in a s) st (Inr st1)" using trades_adjust [OF 1] by (simp add: settling_in_def)
  have t2: "trades (\<lambda>_. 0) st1 (Inr ?st2)" by (simp add: trades_push trades_return)
  have "tbl_find (force_settlements (objects ?st2)) i = Some s" using settlements_modify(1) [OF 1] s by simp
  then have t3: "trades (\<lambda>a. - settling_in a s) ?st2 (Inr st')" unfolding st' by (rule trades_remove_settlement)
  have "trades (\<lambda>a. settling_in a s) st (Inr ?st2)" by (rule trades_seq [OF t t2]) simp
  then show "trades (\<lambda>_. 0) st (Inr st')" by (rule trades_seq [OF _ t3]) simp
  show "tbl_find (force_settlements (objects st')) i = None" by (simp add: st')
qed

lemma fill_settlement_trades:
  assumes E: "fc_contract E" and ok: "fill_settlement E i pay recv st = Inr (st', filled)"
    and wf: "ledger_wf (objects st)" "market_ok (objects st)" and s: "tbl_find (force_settlements (objects st)) i = Some s"
    and p: "asset_id pay = asset_id (settle_balance s)" "amount pay \<le> amount (settle_balance s)"
    and r: "0 \<le> amount recv" "amount recv < 2 ^ 63"
  shows "trades (\<lambda>a. amount_in a recv - amount_in a pay) st (Inr st')"
    "filled = (tbl_find (force_settlements (objects st')) i = None)"
    "filled = (amount pay = amount (settle_balance s))"
proof -
  let ?push = "\<lambda>fees. push_applied_operation (fill_vop i (settle_owner s) pay recv fees)"
  define part where "part = (\<not> filled)"
  obtain ra :: asset_object and st1 fees st2 net st3 where ra: "tbl_find (assets (objects st)) (asset_id recv) = Some ra"
      and 1: "pay_market_fees E (asset_id recv) ra recv st = Inr (st1, fees)"
      and part: "asset_less pay (settle_balance s) = Inr part"
      and 2: "(if part then modify_settlement i (reduce_settlement E pay) st1 else Inr st1) = Inr st2"
      and n: "asset_minus E recv fees = Inr net" and 3: "adjust_balance E (settle_owner s) net st2 = Inr st3"
      and st': "st' = (if part then ?push fees st3 else remove_settlement i (?push fees st3))"
    using ok s unfolding fill_settlement_def bindE_eq_Inr deref_Inr tbl_get_Inr Let_def part_def by (auto simp: bindE_eq_Inr simp del: if_split) blast
  have filled: "filled = (\<not> part)" by (simp add: part_def)
  show f: "filled = (amount pay = amount (settle_balance s))"
    using part p by (auto simp: asset_less_def res_simps filled)
  note t1 = trades_market_fees [OF E ra r 1 wf]
  have s1: "tbl_find (force_settlements (objects st1)) i = Some s"
    using 1 s by (auto simp: pay_market_fees_def bindE_eq_Inr split: if_split_asm dest!: settlements_modify(3))
  have net: "amount_in a net = amount_in a recv - amount_in a fees" for a
    using n by (auto simp: asset_minus_def res_simps amount_in_def mk_asset_def)
  define d where "d a = (if part then amount_in a pay else 0)" for a
  have t2: "trades (\<lambda>a. - d a) st1 (Inr st2)"
  proof (cases part)
    case True
    then have "modify_settlement i (reduce_settlement E pay) st1 = Inr st2" using 2 by simp
    then show ?thesis
      by (rule trades_modify_settlement) (auto simp: d_def True reduce_settlement_def asset_minus_def res_simps settling_in_def amount_in_def mk_asset_def)
  qed (use 2 in \<open>simp add: d_def trades_return\<close>)
  have s3: "\<exists>s'. tbl_find (force_settlements (objects st3)) i = Some s' \<and> (part \<or> s' = s)"
    using 2 s1 settlements_modify(1) [OF 3] by (auto simp: modify_settlement_def res_simps tbl_find_def split: if_split_asm)
  have last: "trades (\<lambda>a. d a - amount_in a pay) st3 (Inr st')"
  proof (cases part)
    case True
    then show ?thesis using trades_push by (simp add: st' d_def)
  next
    case False
    then have "tbl_find (force_settlements (objects (?push fees st3))) i = Some s" using s3 by auto
    from trades_seq [OF trades_push trades_remove_settlement [OF this]]
    show ?thesis using False f filled p by (simp add: st' d_def settling_in_def amount_in_def trades_def)
  qed
  have "trades (\<lambda>a. amount_in a fees - d a) st (Inr st2)" by (rule trades_seq [OF t1(1) t2]) simp
  then have "trades (\<lambda>a. amount_in a recv - d a) st (Inr st3)" by (rule trades_seq [OF _ trades_adjust [OF 3]]) (simp add: net)
  then show "trades (\<lambda>a. amount_in a recv - amount_in a pay) st (Inr st')" by (rule trades_seq [OF _ last]) simp
  show "filled = (tbl_find (force_settlements (objects st')) i = None)" using s3 by (auto simp: st' filled)
qed

subsection \<open>Matching a request with a position\<close>

lemma asset_min_Inr: "asset_min a b = Inr x \<Longrightarrow> asset_id a = asset_id b \<and> asset_id x = asset_id a \<and> amount x = min (amount a) (amount b)"
  by (auto simp: asset_min_def asset_less_def res_simps)

lemma match_settlement_trades:
  assumes E: "fc_contract E" and ok: "match_settlement E i j p max_settlement st = Inr (st', x)"
    and wf: "ledger_wf (objects st)" "market_ok (objects st)"
    and c: "tbl_find (call_orders (objects st)) i = Some c" and s: "tbl_find (force_settlements (objects st)) j = Some s"
  shows "trades (\<lambda>_. 0) st (Inr st')" "asset_id x = asset_id (settle_balance s)"
    "amount x = min (min (amount (settle_balance s)) (amount max_settlement)) (debt c)"
    "(tbl_find (force_settlements (objects st')) j = None) = (amount x = amount (settle_balance s))"
proof -
  obtain y pay st1 f1 f2 where y: "asset_min (settle_balance s) max_settlement = Inr y" "asset_min y (get_debt c) = Inr x"
      and pay: "asset_mult x p = Inr pay"
      and 1: "fill_call_order E i pay x st = Inr (st1, f1)" and 2: "fill_settlement E j x pay st1 = Inr (st', f2)"
    using ok c s by (auto simp: match_settlement_def bindE_eq_Inr deref_Inr assertE_eq_Inr)
  show id: "asset_id x = asset_id (settle_balance s)" and le: "amount x = min (min (amount (settle_balance s)) (amount max_settlement)) (debt c)"
    using asset_min_Inr [OF y(1)] asset_min_Inr [OF y(2)] by (simp_all add: get_debt_def mk_asset_def)
  have "amount x \<le> debt c" using le by simp
  note t1 = fill_call_order_trades [OF 1 wf(1) c this]
  have wf1: "ledger_wf (objects st1)" "market_ok (objects st1)" using trades_result [OF t1(1) refl wf] by blast+
  have s1: "tbl_find (force_settlements (objects st1)) j = Some s" using fill_call_settlements [OF 1] s by simp
  have p: "amount x \<le> amount (settle_balance s)" "0 \<le> amount pay" "amount pay < 2 ^ 63"
    using le asset_mult_nonneg [OF pay] by (simp_all add: GRAPHENE_MAX_SHARE_SUPPLY_def)
  note t2 = fill_settlement_trades [OF E 2 wf1 s1 id p]
  show "trades (\<lambda>_. 0) st (Inr st')" by (rule trades_seq [OF t1(1) t2(1)]) simp
  show "(tbl_find (force_settlements (objects st')) j = None) = (amount x = amount (settle_balance s))" using t2(2,3) by simp
qed

text \<open>
  C36: while no deflation is running, matching a settlement request with a margin position conserves
  the shares of every asset, the market fee on the collateral included; it settles the least of the request, the remaining
  volume and the debt of the position, and the request is gone exactly when all of it was settled.
\<close>

theorem match_settlement_conserves:
  assumes E: "fc_contract E" and ok: "match_settlement E i j p max_settlement st = Inr (st', x)"
    and wf: "ledger_wf (objects st)" "market_ok (objects st)"
    and c: "tbl_find (call_orders (objects st)) i = Some c" and s: "tbl_find (force_settlements (objects st)) j = Some s"
  shows "ledger_wf (objects st') \<and> market_ok (objects st') \<and> gap a st' = gap a st \<and>
    x = mk_asset (min (min (amount (settle_balance s)) (amount max_settlement)) (debt c)) (asset_id (settle_balance s)) \<and>
    (tbl_find (force_settlements (objects st')) j = None) = (amount x = amount (settle_balance s))"
  using match_settlement_trades [OF assms] trades_result [OF match_settlement_trades(1) [OF assms] refl wf] by (simp add: mk_asset_def)

text \<open>Account 10 owes 10 of asset 1 against 30 core, and account 11 asks to settle 5 of them at 2 core each.\<close>

definition example_call :: call_order_object where
  "example_call = \<lparr>borrower = 10, collateral = 30, debt = 10, co_call_price = mk_price (mk_asset 2 0) (mk_asset 1 1)\<rparr>"

definition example_settlement :: force_settlement_object where
  "example_settlement = \<lparr>settle_owner = 11, settle_balance = mk_asset 5 1, settlement_date = 0\<rparr>"

definition settlement_chain :: "unit chain" where
  "settlement_chain = market_chain\<lparr>objects := objects market_chain\<lparr>
     call_orders := \<lparr>rows = [(0, example_call)], next_instance = 1\<rparr>,
     force_settlements := \<lparr>rows = [(0, example_settlement)], next_instance = 1\<rparr>\<rparr>\<rparr>"

lemma settlement_chain_lookup [simp]:
  "tbl_find (call_orders (objects settlement_chain)) 0 = Some example_call"
  "tbl_find (force_settlements (objects settlement_chain)) 0 = Some example_settlement"
  by (simp_all add: settlement_chain_def tbl_find_def)

lemma settlement_chain_wf: "ledger_wf (objects settlement_chain)" "market_ok (objects settlement_chain)"
  using market_chain_wf
  by (simp_all add: settlement_chain_def ledger_wf_def tbl_wf_def market_ok_def quiet_def call_ok_def example_call_def
      mk_price_def mk_asset_def price_pos_def)

theorem match_settlement_conserves_witness:
  "\<exists>st'. match_settlement market_std 0 0 (mk_price (mk_asset 1 1) (mk_asset 2 0)) (mk_asset 8 1) settlement_chain = Inr (st', mk_asset 5 1) \<and>
     tbl_find (force_settlements (objects st')) 0 = None \<and> gap 0 st' = gap 0 settlement_chain"
proof -
  let ?p = "mk_price (mk_asset 1 1) (mk_asset 2 0)"
  have mult: "asset_mult (mk_asset 5 1) ?p = Inr (mk_asset 10 0)"
    by (simp add: mk_price_def mk_asset_def asset_mult_base_eq price_pos_def share_ok_def GRAPHENE_MAX_SHARE_SUPPLY_def)
  have "match_settlement market_std 0 0 ?p (mk_asset 8 1) settlement_chain =
      bindE (fill_call_order market_std 0 (mk_asset 10 0) (mk_asset 5 1) settlement_chain) (\<lambda>(st, _).
      bindE (fill_settlement market_std 0 (mk_asset 5 1) (mk_asset 10 0) st) (\<lambda>(st, _). Inr (st, mk_asset 5 1)))"
    by (simp add: match_settlement_def deref_def asset_min_def asset_less_def example_call_def example_settlement_def get_debt_def
        get_collateral_def mk_asset_def mk_price_def mult [unfolded mk_asset_def mk_price_def] del: One_nat_def)
  moreover have "\<exists>st'. \<dots> = Inr (st', mk_asset 5 1)"
    by (simp add: deref_def fill_call_order_def fill_settlement_def pay_market_fees_def no_market_fee fill_example_defs
        example_call_def example_settlement_def get_debt_def get_collateral_def asset_ge_def asset_less_def collateral_freed_def
        modify_call_def pay_debt_def modify_dynamic_def change_supply_def free_core_in_orders_def mk_asset_def mk_price_def
        remove_settlement_def settlement_chain_def market_chain_def example_ledger_def tbl_find_def tbl_get_def)
  ultimately obtain st' where
      ok: "match_settlement market_std 0 0 ?p (mk_asset 8 1) settlement_chain = Inr (st', mk_asset 5 1)" by auto
  show ?thesis
    using match_settlement_conserves [OF market_std_contract ok settlement_chain_wf settlement_chain_lookup, of 0] ok
    by (auto simp: example_settlement_def mk_asset_def)
qed

end
