(* ===== verification/Market_Evaluators.thy ===== *)
theory Market_Evaluators
  imports Settlement
begin

text \<open>
  The evaluators of limit orders and margin positions (\<open>libraries/chain/market_evaluator.cpp\<close>), in
  the frame of \<open>evaluator.hpp\<close>. An evaluator may override \<open>pay_fee\<close>: a limit order keeps the fee of
  its creation until it is filled or cancelled. \<open>None\<close> stands for a computation that does not return.
\<close>

subsection \<open>The frame with an overridden fee payment\<close>

definition apply_op_paying ::
    "'e fee_env_scheme \<Rightarrow> transaction_evaluation_state \<Rightarrow> account_id_type \<Rightarrow> fee_state \<Rightarrow>
     (transaction_evaluation_state \<Rightarrow> fee_state \<Rightarrow> 'z chain \<Rightarrow> ('z chain \<times> int) res) \<Rightarrow>
     (int \<Rightarrow> 'z chain \<Rightarrow> ('z chain \<times> operation_result) res option) \<Rightarrow> 'z chain \<Rightarrow> ('z chain \<times> operation_result) res option" where
  "apply_op_paying E ts payer fs pay_fee do_apply st =
     bindO (Some (evaluator_convert_fee E ts fs st)) (\<lambda>st.
     bindO (Some (pay_fee ts fs st)) (\<lambda>(st, deferred).
     bindO (do_apply deferred st) (\<lambda>(st, result).
     bindO (Some (asset_neg E (fee_from_account fs))) (\<lambda>minus_fee.
     bindO (Some (adjust_balance E payer minus_fee st)) (\<lambda>st.
     Some (Inr (st, result)))))))"

definition start_evaluate_paying ::
    "'e fee_env_scheme \<Rightarrow> pack_env \<Rightarrow> transaction_evaluation_state \<Rightarrow> operation \<Rightarrow> account_id_type \<Rightarrow> asset \<Rightarrow>
     ('z chain \<Rightarrow> unit res) \<Rightarrow> (transaction_evaluation_state \<Rightarrow> fee_state \<Rightarrow> 'z chain \<Rightarrow> ('z chain \<times> int) res) \<Rightarrow>
     (int \<Rightarrow> 'z chain \<Rightarrow> ('z chain \<times> operation_result) res option) \<Rightarrow> bool \<Rightarrow>
     'z chain \<Rightarrow> ('z chain \<times> operation_result) res option" where
  "start_evaluate_paying E P ts x payer f do_evaluate pay_fee do_apply apply st =
     bindO (evaluate_op E P ts x payer f do_evaluate st) (\<lambda>fs.
     if apply then apply_op_paying E ts payer fs pay_fee do_apply st else Some (Inr (st, Void_result)))"

text \<open>The default payment, which defers nothing.\<close>

definition pay_fee_now ::
    "'e fc_env_scheme \<Rightarrow> transaction_evaluation_state \<Rightarrow> fee_state \<Rightarrow> 'z chain \<Rightarrow> ('z chain \<times> int) res" where
  "pay_fee_now E ts fs st = bindE (evaluator_pay_fee E ts fs st) (\<lambda>st. Inr (st, 0))"

subsection \<open>Creating a limit order\<close>

definition balance_deflation :: "'e fc_env_scheme \<Rightarrow> account_id_type \<Rightarrow> asset_id_type \<Rightarrow> 'z chain \<Rightarrow> int option res" where
  "balance_deflation E owner a st =
     (case running_deflation st a of
        Some (i, d) \<Rightarrow>
          if needs_deflation st i owner
          then bindE (deflated_part E (amount (get_balance st owner a)) (dfl_rate d)) (\<lambda>x. Inr (Some x))
          else Inr None
      | None \<Rightarrow> Inr None)"

text \<open>The handler around the check of the receiver swallows its assertion, so it never fails.\<close>

definition exchange_receiver_check :: "limit_order_create_operation \<Rightarrow> 'z chain \<Rightarrow> unit res" where
  "exchange_receiver_check x st =
     (case exchange_fee_extension x of
        None \<Rightarrow> Inr ()
      | Some r \<Rightarrow> (case assertE (tbl_find (accounts (objects st)) r \<noteq> None) ''exchange_fee.receiver not found'' of
                    Inl _ \<Rightarrow> Inr () | Inr _ \<Rightarrow> Inr ()))"

definition limit_order_create_do_evaluate :: "'e fc_env_scheme \<Rightarrow> limit_order_create_operation \<Rightarrow> 'z chain \<Rightarrow> unit res" where
  "limit_order_create_do_evaluate E x st =
     (let now = head_block_time st; s = asset_id (amount_to_sell x); r = asset_id (min_to_receive x) in
      bindE (assertE (now \<le> limit_order_create_operation.expiration x) ''op.expiration >= d.head_block_time()'') (\<lambda>_.
      bindE (tbl_get (accounts (objects st)) (seller x)) (\<lambda>acct.
      bindE (tbl_get (assets (objects st)) s) (\<lambda>sell_asset.
      bindE (tbl_get (assets (objects st)) r) (\<lambda>receive_asset.
      bindE (assertE (whitelist_markets (asset_opts sell_asset) = [] \<or> r \<in> set (whitelist_markets (asset_opts sell_asset)))
        ''whitelist_markets'') (\<lambda>_.
      bindE (assertE (r \<notin> set (blacklist_markets (asset_opts sell_asset))) ''blacklist_markets'') (\<lambda>_.
      bindE (assertE (is_authorized_asset now acct s sell_asset) ''is_authorized_asset( d, *_seller, *_sell_asset )'') (\<lambda>_.
      bindE (assertE (is_authorized_asset now acct r receive_asset) ''is_authorized_asset( d, *_seller, *_receive_asset )'') (\<lambda>_.
      bindE (balance_deflation E (seller x) s st) (\<lambda>dlft.
      bindE (balance_deflation E (seller x) r st) (\<lambda>dlft_recv.
      bindE (case dlft_recv of
               None \<Rightarrow> Inr ()
             | Some amt \<Rightarrow>
                 bindE (asset_plus E (fee x) (mk_asset amt 0)) (\<lambda>needed.
                 bindE (asset_ge (get_balance st (seller x) 0) needed) (\<lambda>ok. assertE ok ''not enough PIC for deflation''))) (\<lambda>_.
      bindE (asset_plus E (amount_to_sell x) (mk_asset (case dlft of None \<Rightarrow> 0 | Some amt \<Rightarrow> amt) s)) (\<lambda>needed.
      bindE (asset_ge (get_balance st (seller x) s) needed) (\<lambda>ok.
      bindE (assertE ok ''insufficient balance'') (\<lambda>_.
      exchange_receiver_check x st)))))))))))))))"

definition limit_order_create_pay_fee ::
    "'e fc_env_scheme \<Rightarrow> transaction_evaluation_state \<Rightarrow> fee_state \<Rightarrow> 'z chain \<Rightarrow> ('z chain \<times> int) res" where
  "limit_order_create_pay_fee E ts fs st =
     (if head_block_time st \<le> HARDFORK_445_TIME then pay_fee_now E ts fs st else Inr (st, core_fee_paid fs))"

definition freeze_if_running ::
    "'e fc_env_scheme \<Rightarrow> account_id_type \<Rightarrow> asset_id_type \<Rightarrow> 'z chain \<Rightarrow> ('z chain \<times> int) res" where
  "freeze_if_running E owner a st =
     (case running_deflation st a of
        None \<Rightarrow> Inr (st, 0)
      | Some (i, d) \<Rightarrow> freeze_account E i (dfl_rate d) owner st)"

definition put_core_in_orders :: "'e fc_env_scheme \<Rightarrow> asset \<Rightarrow> account_statistics_object \<Rightarrow> account_statistics_object res" where
  "put_core_in_orders E sold b =
     (if asset_id sold = 0
      then bindE (safe_add E (total_core_in_orders b) (amount sold)) (\<lambda>c. Inr (b\<lparr>total_core_in_orders := c\<rparr>))
      else Inr b)"

definition new_limit_order :: "limit_order_create_operation \<Rightarrow> price \<Rightarrow> int \<Rightarrow> limit_order_object" where
  "new_limit_order x p deferred =
     \<lparr>lo_expiration = limit_order_create_operation.expiration x, lo_seller = seller x, for_sale = amount (amount_to_sell x), sell_price = p,
      deferred_fee = deferred, exchange_fee_receiver = exchange_fee_extension x\<rparr>"

definition create_limit_order :: "limit_order_object \<Rightarrow> 'z chain \<Rightarrow> nat \<times> 'z chain" where
  "create_limit_order order st =
     (let (i, t) = tbl_create order (limit_orders (objects st)) in (i, st\<lparr>objects := objects st\<lparr>limit_orders := t\<rparr>\<rparr>))"

text \<open>
  What the seller gives for the new order. A deflation frozen because the order asks for core is
  not taken from the balance: the line that would do so is commented out in the source.
\<close>

definition pay_for_order :: "'e fc_env_scheme \<Rightarrow> limit_order_create_operation \<Rightarrow> 'z chain \<Rightarrow> 'z chain res" where
  "pay_for_order E x st =
     bindE (freeze_if_running E (seller x) (asset_id (amount_to_sell x)) st) (\<lambda>(st, dlft).
     bindE (freeze_if_running E (seller x) (asset_id (min_to_receive x)) st) (\<lambda>(st, _).
     bindE (tbl_get (accounts (objects st)) (seller x)) (\<lambda>acct.
     bindE (modify_stats (acct_statistics acct) (put_core_in_orders E (amount_to_sell x)) st) (\<lambda>st.
     bindE (asset_neg E (amount_to_sell x)) (\<lambda>neg.
     bindE (asset_minus E neg (mk_asset dlft (asset_id (amount_to_sell x)))) (\<lambda>taken.
     adjust_balance E (seller x) taken st))))))"

definition limit_order_create_do_apply ::
    "'e market_env_scheme \<Rightarrow> limit_order_create_operation \<Rightarrow> int \<Rightarrow> 'z chain \<Rightarrow> ('z chain \<times> operation_result) res option" where
  "limit_order_create_do_apply E x deferred st =
     bindO (Some (pay_for_order E x st)) (\<lambda>st.
     bindO (Some (limit_order_get_price x)) (\<lambda>p.
     let (order_id, st) = create_limit_order (new_limit_order x p deferred) st in
     bindO (apply_order E order_id True st) (\<lambda>(st, filled).
     bindO (Some (assertE (\<not> fill_or_kill x \<or> filled) ''!op.fill_or_kill || filled'')) (\<lambda>_.
     Some (Inr (st, Object_result order_id))))))"

subsection \<open>Cancelling a limit order\<close>

definition limit_order_cancel_do_evaluate :: "limit_order_cancel_operation \<Rightarrow> 'z chain \<Rightarrow> unit res" where
  "limit_order_cancel_do_evaluate x st =
     bindE (tbl_get (limit_orders (objects st)) (cancel_order_id x)) (\<lambda>order.
     assertE (lo_seller order = loc_fee_paying_account x) ''_order->seller == o.fee_paying_account'')"

definition limit_order_cancel_do_apply ::
    "'e market_env_scheme \<Rightarrow> limit_order_cancel_operation \<Rightarrow> 'z chain \<Rightarrow> ('z chain \<times> operation_result) res option" where
  "limit_order_cancel_do_apply E x st =
     bindO (Some (tbl_get (limit_orders (objects st)) (cancel_order_id x))) (\<lambda>order.
     bindO (Some (freeze_if_running E (lo_seller order) (asset_id (base (sell_price order))) st)) (\<lambda>(st, _).
     let base_asset = asset_id (base (sell_price order)); quote_asset = asset_id (quote (sell_price order)) in
     bindO (Some (cancel_limit_order E (cancel_order_id x) False st)) (\<lambda>st.
     bindO (Some (tbl_get (assets (objects st)) base_asset)) (\<lambda>a.
     bindO (check_call_orders E base_asset a True st) (\<lambda>(st, _).
     bindO (Some (tbl_get (assets (objects st)) quote_asset)) (\<lambda>b.
     bindO (check_call_orders E quote_asset b True st) (\<lambda>(st, _).
     Some (Inr (st, Asset_result (amount_for_sale order))))))))))"

subsection \<open>Changing a margin position\<close>

definition call_order_update_do_evaluate :: "call_order_update_operation \<Rightarrow> 'z chain \<Rightarrow> unit res" where
  "call_order_update_do_evaluate x st =
     bindE (tbl_get (accounts (objects st)) (funding_account x)) (\<lambda>_.
     bindE (tbl_get (assets (objects st)) (asset_id (delta_debt x))) (\<lambda>debt_asset.
     bindE (assertE (is_market_issued debt_asset) ''not a collateralized asset'') (\<lambda>_.
     bindE (bitasset_of debt_asset st) (\<lambda>(k, bitasset).
     bindE (assertE (\<not> has_settlement bitasset) ''!_bitasset_data->has_settlement()'') (\<lambda>_.
     bindE (assertE (asset_id (delta_collateral x) = short_backing_asset (bit_options bitasset)) ''short_backing_asset'') (\<lambda>_.
     bindE (if is_prediction_market bitasset
            then assertE (amount (delta_collateral x) = amount (delta_debt x)) ''o.delta_collateral.amount == o.delta_debt.amount''
            else if price_is_null (settlement_price (current_feed bitasset)) then throwE Insufficient_feeds else Inr ()) (\<lambda>_.
     bindE (if amount (delta_debt x) < 0
            then bindE (asset_ge (get_balance st (funding_account x) (asset_id (delta_debt x))) (delta_debt x)) (\<lambda>ok.
                 assertE ok ''Cannot cover'')
            else Inr ()) (\<lambda>_.
     if 0 < amount (delta_collateral x)
     then bindE (tbl_get (assets (objects st)) (short_backing_asset (bit_options bitasset))) (\<lambda>_.
          bindE (asset_ge (get_balance st (funding_account x) (short_backing_asset (bit_options bitasset))) (delta_collateral x)) (\<lambda>ok.
          assertE ok ''Cannot increase collateral''))
     else Inr ()))))))))"

definition borrow :: "'e fc_env_scheme \<Rightarrow> call_order_update_operation \<Rightarrow> asset_object \<Rightarrow> 'z chain \<Rightarrow> 'z chain res" where
  "borrow E x debt_asset st =
     (if amount (delta_debt x) \<noteq> 0 then
        bindE (adjust_balance E (funding_account x) (delta_debt x) st) (\<lambda>st.
        modify_dynamic (dynamic_asset_data_id debt_asset) (change_supply E (amount (delta_debt x))) st)
      else Inr st)"

definition lock_collateral :: "'e fc_env_scheme \<Rightarrow> call_order_update_operation \<Rightarrow> 'z chain \<Rightarrow> 'z chain res" where
  "lock_collateral E x st =
     (if amount (delta_collateral x) \<noteq> 0 then
        bindE (asset_neg E (delta_collateral x)) (\<lambda>neg.
        bindE (adjust_balance E (funding_account x) neg st) (\<lambda>st.
        if asset_id (delta_collateral x) = 0
        then bindE (tbl_get (accounts (objects st)) (funding_account x)) (\<lambda>acct.
             modify_stats (acct_statistics acct) (put_core_in_orders E (delta_collateral x)) st)
        else Inr st))
      else Inr st)"

definition find_call :: "'z chain \<Rightarrow> account_id_type \<Rightarrow> asset_id_type \<Rightarrow> (nat \<times> call_order_object) option" where
  "find_call st owner mia =
     find (\<lambda>(i, c). borrower c = owner \<and> asset_id (quote (co_call_price c)) = mia) (rows (call_orders (objects st)))"

definition change_call ::
    "'e market_env_scheme \<Rightarrow> call_order_update_operation \<Rightarrow> nat \<Rightarrow> call_order_object \<Rightarrow> call_order_object res option" where
  "change_call E x mcr c =
     bindO (Some (safe_add E (collateral c) (amount (delta_collateral x)))) (\<lambda>col.
     bindO (Some (safe_add E (debt c) (amount (delta_debt x)))) (\<lambda>d.
     let c = c\<lparr>collateral := col, debt := d\<rparr> in
     if 0 < d
     then bindO (call_price (rat E) (get_debt c) (get_collateral c) mcr) (\<lambda>p. Some (Inr (c\<lparr>co_call_price := p\<rparr>)))
     else Some (Inr c)))"

definition store_call :: "nat \<Rightarrow> call_order_object \<Rightarrow> 'z chain \<Rightarrow> 'z chain" where
  "store_call i c st = st\<lparr>objects := objects st\<lparr>call_orders :=
     (call_orders (objects st))\<lparr>rows := AList.update i c (rows (call_orders (objects st)))\<rparr>\<rparr>\<rparr>"

definition put_call ::
    "'e market_env_scheme \<Rightarrow> call_order_update_operation \<Rightarrow> nat \<Rightarrow> 'z chain \<Rightarrow> ('z chain \<times> nat \<times> call_order_object) res option" where
  "put_call E x mcr st =
     (case find_call st (funding_account x) (asset_id (delta_debt x)) of
        None \<Rightarrow>
          bindO (Some (assertE (0 < amount (delta_collateral x)) ''o.delta_collateral.amount > 0'')) (\<lambda>_.
          bindO (Some (assertE (0 < amount (delta_debt x)) ''o.delta_debt.amount > 0'')) (\<lambda>_.
          bindO (call_price (rat E) (delta_debt x) (delta_collateral x) mcr) (\<lambda>p.
          let c = \<lparr>borrower = funding_account x, collateral = amount (delta_collateral x), debt = amount (delta_debt x), co_call_price = p\<rparr>;
              (i, t) = tbl_create c (call_orders (objects st))
          in Some (Inr (st\<lparr>objects := objects st\<lparr>call_orders := t\<rparr>\<rparr>, i, c)))))
      | Some (i, c) \<Rightarrow>
          bindO (change_call E x mcr c) (\<lambda>c. Some (Inr (store_call i c st, i, c))))"

definition check_position ::
    "'e market_env_scheme \<Rightarrow> asset_id_type \<Rightarrow> asset_object \<Rightarrow> nat \<Rightarrow> 'z chain \<Rightarrow> 'z chain res option" where
  "check_position E mia_id mia i st =
     bindO (check_call_orders E mia_id mia False st) (\<lambda>(st, called).
     if called
     then Some (if tbl_find (call_orders (objects st)) i = None then Inr st else throwE Margin_call_unfilled)
     else
       bindO (Some (case tbl_find (call_orders (objects st)) i of
                      None \<Rightarrow> Inl (Assert_exception ''no margin call was executed and yet the call object was deleted'')
                    | Some c \<Rightarrow> Inr c)) (\<lambda>c.
       bindO (Some (bitasset_of mia st)) (\<lambda>(k, bitasset).
       Some (if price_less (price_invert (co_call_price c)) (settlement_price (current_feed bitasset)) then Inr st
             else throwE Margin_call_unfilled))))"

definition call_order_update_do_apply ::
    "'e market_env_scheme \<Rightarrow> call_order_update_operation \<Rightarrow> 'z chain \<Rightarrow> ('z chain \<times> operation_result) res option" where
  "call_order_update_do_apply E x st =
     bindO (Some (tbl_get (assets (objects st)) (asset_id (delta_debt x)))) (\<lambda>debt_asset.
     bindO (Some (bitasset_of debt_asset st)) (\<lambda>(k, bitasset).
     bindO (Some (borrow E x debt_asset st)) (\<lambda>st.
     bindO (Some (lock_collateral E x st)) (\<lambda>st.
     bindO (put_call E x (maintenance_collateral_ratio (current_feed bitasset)) st) (\<lambda>(st, i, c).
     if debt c = 0 then
       bindO (Some (assertE (collateral c = 0) ''call_obj->collateral == 0'')) (\<lambda>_.
       Some (Inr (remove_call i st, Void_result)))
     else
       bindO (Some (assertE (0 < collateral c \<and> 0 < debt c) ''call_obj->collateral > 0 && call_obj->debt > 0'')) (\<lambda>_.
       if is_prediction_market bitasset then Some (Inr (st, Void_result))
       else bindO (check_position E (asset_id (delta_debt x)) debt_asset i st) (\<lambda>st. Some (Inr (st, Void_result)))))))))"

subsection \<open>What an evaluator of the market promises\<close>

text \<open>
  The payment of the fee moves all of it except for what it defers, and applying the operation
  accounts for the deferred part. The frame only changes balances and statistics before the
  operation is applied, which leaves the tables of the market as they were when it was evaluated.
\<close>

locale paying_evaluator =
  fixes E :: "'e fee_env_scheme"
    and do_evaluate :: "'z chain \<Rightarrow> unit res"
    and pay_fee :: "transaction_evaluation_state \<Rightarrow> fee_state \<Rightarrow> 'z chain \<Rightarrow> ('z chain \<times> int) res"
    and do_apply :: "int \<Rightarrow> 'z chain \<Rightarrow> ('z chain \<times> operation_result) res option"
    and ready :: "'z chain \<Rightarrow> bool"
  assumes pay_trades: "\<not> skip_fee ts \<Longrightarrow> pay_fee ts fs st = Inr (st', deferred) \<Longrightarrow>
      trades (only_core (core_fee_paid fs - deferred)) st (Inr st') \<and> same_market (objects st) (objects st')"
    and apply_trades: "do_evaluate st0 = Inr () \<Longrightarrow> ready st0 \<Longrightarrow> same_market (objects st0) (objects st) \<Longrightarrow>
      pay_fee ts fs st1 = Inr (st, deferred) \<Longrightarrow> 0 \<le> core_fee_paid fs \<Longrightarrow> ledger_wf (objects st) \<Longrightarrow> market_ok (objects st) \<Longrightarrow>
      do_apply deferred st = Some (Inr (st', r)) \<Longrightarrow> trades (only_core deferred) st (Inr st')"
begin

lemma apply_op_paying_trades:
  assumes ok: "apply_op_paying E ts payer fs pay_fee do_apply st = Some (Inr (st', r))" and fee: "\<not> skip_fee ts" "fee_prepared fs"
    and ev: "do_evaluate st = Inr ()" "ready st" and wf: "ledger_wf (objects st)" "market_ok (objects st)"
  shows "trades (\<lambda>_. 0) st (Inr st')"
proof -
  let ?f = "fee_from_account fs" and ?c = "core_fee_paid fs"
  obtain st1 st2 deferred st3 neg where 1: "evaluator_convert_fee E ts fs st = Inr st1" and 2: "pay_fee ts fs st1 = Inr (st2, deferred)"
      and 3: "do_apply deferred st2 = Some (Inr (st3, r))" and 4: "asset_neg E ?f = Inr neg" and 5: "adjust_balance E payer neg st3 = Inr st'"
    using ok by (auto simp: apply_op_paying_def bindO_Inr)
  have sm1: "same_market (objects st) (objects st1)"
    using 1 same_market_modify(2) by (auto simp: evaluator_convert_fee_def split: if_splits)
  have t1: "trades (\<lambda>a. amount_in a ?f - only_core ?c a) st (Inr st1)"
    by (rule trades_frame [OF moves_convert_fee [OF fee, of st E, unfolded 1]]) (use sm1 in simp)
  have t2: "trades (only_core (?c - deferred)) st1 (Inr st2)" and sm2: "same_market (objects st1) (objects st2)"
    using pay_trades [OF fee(1) 2] by blast+
  have t12: "trades (\<lambda>a. amount_in a ?f - only_core deferred a) st (Inr st2)"
    by (rule trades_seq [OF t1 t2]) (simp add: only_core_def)
  have wf2: "ledger_wf (objects st2)" "market_ok (objects st2)" using trades_result [OF t12 refl wf] by blast+
  have "0 \<le> ?c" using fee(2) by (simp add: fee_prepared_def)
  then have "trades (only_core deferred) st2 (Inr st3)"
    by (rule apply_trades [OF ev same_market_trans [OF sm1 sm2] 2 _ wf2 3])
  with t12 have t3: "trades (\<lambda>a. amount_in a ?f) st (Inr st3)" by (rule trades_seq) simp
  have t4: "trades (\<lambda>a. - amount_in a ?f) st3 (Inr st')"
    by (rule trades_frame [OF moves_neg [OF 4, of st3 payer, unfolded 5]]) (use same_market_adjust [OF 5] in simp)
  show ?thesis by (rule trades_seq [OF t3 t4]) simp
qed

theorem start_evaluate_paying_conserves:
  assumes ok: "start_evaluate_paying E P ts x payer f do_evaluate pay_fee do_apply b st = Some (Inr (st', r))"
    and fee: "\<not> skip_fee ts" and ev: "ready st" and wf: "ledger_wf (objects st)" "market_ok (objects st)"
  shows "ledger_wf (objects st') \<and> market_ok (objects st') \<and> (\<forall>a. gap a st' = gap a st)"
proof -
  obtain fs where fs: "prepare_fee E payer f st = Inr fs" and de: "do_evaluate st = Inr ()"
      and ap: "(if b then apply_op_paying E ts payer fs pay_fee do_apply st else Some (Inr (st, Void_result))) = Some (Inr (st', r))"
    using ok by (auto simp: start_evaluate_paying_def evaluate_op_def bindO_Inr)
  show ?thesis
  proof (cases b)
    case True
    then have "trades (\<lambda>_. 0) st (Inr st')"
      using apply_op_paying_trades [OF _ fee prepare_fee_prepared(1) [OF fs wf(1)] de ev wf] ap by simp
    then show ?thesis using trades_result [OF _ refl wf] by simp
  qed (use ap wf in simp)
qed

end

lemma pay_now_trades:
  assumes "\<not> skip_fee ts" and ok: "pay_fee_now E ts fs st = Inr (st', deferred)"
  shows "trades (only_core (core_fee_paid fs - deferred)) st (Inr st')" "same_market (objects st) (objects st')" "deferred = 0"
proof -
  have 1: "evaluator_pay_fee E ts fs st = Inr st'" and d: "deferred = 0" using ok by (auto simp: pay_fee_now_def bindE_eq_Inr)
  show sm: "same_market (objects st) (objects st')" using 1 assms(1) same_market_modify(1) by (auto simp: evaluator_pay_fee_def)
  show "trades (only_core (core_fee_paid fs - deferred)) st (Inr st')"
    using trades_frame [OF moves_pay_fee [OF assms(1), of fs st E, unfolded 1]] sm by (simp add: d)
  show "deferred = 0" by (rule d)
qed

subsection \<open>Limit orders keep shares\<close>

lemma not_running: "market_ok (objects st) \<Longrightarrow> freeze_if_running E i a st = Inr (st, 0)"
  by (auto simp: freeze_if_running_def running_deflation_def market_ok_def quiet_def split: option.splits prod.splits)

lemma trades_create_order:
  assumes "order_ok x" and c: "create_limit_order x st = (i, st')"
  shows "trades (\<lambda>a. order_holds a x) st (Inr st')"
proof -
  let ?t = "limit_orders (objects st)"
  have st': "st' = st\<lparr>objects := objects st\<lparr>limit_orders := snd (tbl_create x ?t)\<rparr>\<rparr>"
    using c by (auto simp: create_limit_order_def case_prod_beta Let_def)
  have m: "moves (\<lambda>a. order_holds a x) st (Inr st')"
    unfolding st' using tsum_create [OF surjective_pairing, of _ x ?t] tbl_wf_create [OF _ surjective_pairing, of ?t x]
    by (intro movesI) (auto simp: gap_field ledger_wf_def)
  show ?thesis by (rule trades_moves [OF m]) (use assms(1) in \<open>auto simp: st' market_ok_def quiet_def tbl_create_def\<close>)
qed

lemma put_core_trades: "modify_stats i (put_core_in_orders E x) st = Inr st' \<Longrightarrow> trades (\<lambda>_. 0) st (Inr st')"
  by (rule trades_cong [OF trades_stats [where c = 0]]) (auto simp: put_core_in_orders_def res_simps only_core_def split: if_splits)

lemma pay_for_order_trades:
  assumes ok: "pay_for_order E x st = Inr st'" and mk: "market_ok (objects st)"
  shows "trades (\<lambda>a. - amount_in a (amount_to_sell x)) st (Inr st')"
proof -
  obtain st1 neg taken and acc :: account_object where
      1: "modify_stats (acct_statistics acc) (put_core_in_orders E (amount_to_sell x)) st = Inr st1"
      and n: "asset_neg E (amount_to_sell x) = Inr neg" "asset_minus E neg (mk_asset 0 (asset_id (amount_to_sell x))) = Inr taken"
      and 2: "adjust_balance E (seller x) taken st1 = Inr st'"
    using ok by (auto simp: pay_for_order_def bindE_eq_Inr not_running [OF mk])
  have "amount_in a taken = - amount_in a (amount_to_sell x)" for a
    using n by (auto simp: asset_neg_def asset_minus_def res_simps amount_in_def mk_asset_def)
  then show ?thesis using trades_seq [OF put_core_trades [OF 1] trades_adjust [OF 2]] by simp
qed

definition order_op_ok :: "limit_order_create_operation \<Rightarrow> bool" where
  "order_op_ok x \<longleftrightarrow> limit_order_create_validate x = Inr () \<and> amount (amount_to_sell x) < 2 ^ 63 \<and> amount (min_to_receive x) < 2 ^ 63"

lemma new_order_ok:
  assumes "order_op_ok x" and "limit_order_get_price x = Inr p" and "0 \<le> deferred"
  shows "order_ok (new_limit_order x p deferred)"
    "order_holds a (new_limit_order x p deferred) = amount_in a (amount_to_sell x) + only_core deferred a"
  using assms
  by (auto simp: order_op_ok_def limit_order_create_validate_def limit_order_get_price_def price_of_def res_simps new_limit_order_def
      order_ok_def price_pos_def mk_price_def order_holds_def amount_in_def only_core_def)

lemma limit_order_create_trades:
  assumes E: "fc_contract E" and ok: "limit_order_create_do_apply E x deferred st = Some (Inr (st', r))" and x: "order_op_ok x" "0 \<le> deferred"
    and wf: "ledger_wf (objects st)" "market_ok (objects st)"
  shows "trades (only_core deferred) st (Inr st')"
proof -
  let ?new = "\<lambda>p st. create_limit_order (new_limit_order x p deferred) st"
  obtain st1 p filled where 1: "pay_for_order E x st = Inr st1" and p: "limit_order_get_price x = Inr p"
      and 3: "apply_order E (fst (?new p st1)) True (snd (?new p st1)) = Some (Inr (st', filled))"
    using ok by (auto simp: limit_order_create_do_apply_def bindO_Inr case_prod_beta)
  let ?st2 = "snd (?new p st1)"
  note o = new_order_ok [OF x(1) p x(2)]
  have t: "trades (only_core deferred) st (Inr ?st2)"
    by (rule trades_seq [OF pay_for_order_trades [OF 1 wf(2)] trades_create_order [OF o(1) surjective_pairing]]) (simp add: o(2))
  have wf2: "ledger_wf (objects ?st2)" "market_ok (objects ?st2)" using trades_result [OF t refl wf] by blast+
  show ?thesis by (rule trades_seq [OF t apply_order_trades [OF E 3 wf2]]) simp
qed

interpretation ev_order_create: paying_evaluator E "limit_order_create_do_evaluate E x" "limit_order_create_pay_fee E"
    "limit_order_create_do_apply E x" "\<lambda>_. fc_contract E \<and> order_op_ok x" for E :: "'e market_env_scheme" and x
proof unfold_locales
  fix ts fs and st st' :: "'z chain" and deferred
  assume "\<not> skip_fee ts" and "limit_order_create_pay_fee E ts fs st = Inr (st', deferred)"
  then show "trades (only_core (core_fee_paid fs - deferred)) st (Inr st') \<and> same_market (objects st) (objects st')"
    using pay_now_trades(1,2) [of ts E fs st st' deferred] by (auto simp: limit_order_create_pay_fee_def only_core_def split: if_splits intro!: trades_return)
next
  fix ts fs and st0 st1 st st' :: "'z chain" and deferred r
  assume "fc_contract E \<and> order_op_ok x" and p: "limit_order_create_pay_fee E ts fs st1 = Inr (st, deferred)" "0 \<le> core_fee_paid fs"
    and wf: "ledger_wf (objects st)" "market_ok (objects st)" and ok: "limit_order_create_do_apply E x deferred st = Some (Inr (st', r))"
  moreover have "0 \<le> deferred" using p by (auto simp: limit_order_create_pay_fee_def pay_fee_now_def bindE_eq_Inr split: if_splits)
  ultimately show "trades (only_core deferred) st (Inr st')" by (blast intro: limit_order_create_trades)
qed

lemma limit_order_cancel_trades:
  assumes E: "fc_contract E" and ok: "limit_order_cancel_do_apply E x st = Some (Inr (st', r))"
    and wf: "ledger_wf (objects st)" "market_ok (objects st)"
  shows "trades (\<lambda>_. 0) st (Inr st')"
proof -
  obtain st1 st2 c2 c3 i j and a b :: asset_object where 1: "cancel_limit_order E (cancel_order_id x) False st = Inr st1"
      and a: "tbl_find (assets (objects st1)) i = Some a" and 2: "check_call_orders E i a True st1 = Some (Inr (st2, c2))"
      and b: "tbl_find (assets (objects st2)) j = Some b" and 3: "check_call_orders E j b True st2 = Some (Inr (st', c3))"
    using ok by (auto simp: limit_order_cancel_do_apply_def bindO_Inr tbl_get_Inr Let_def not_running [OF wf(2)])
  note t1 = cancel_limit_order_trades(1) [OF 1 wf]
  have wf1: "ledger_wf (objects st1)" "market_ok (objects st1)" using trades_result [OF t1 refl wf] by blast+
  have "tbl_find (assets (objects st1)) j = Some b" using b check_call_orders_trades(2) [OF E 2 wf1 a] by simp
  then show ?thesis using trades_seq [OF t1 both_checks_trades(1) [OF E wf1 a _ 2 3]] by simp
qed

interpretation ev_order_cancel: paying_evaluator E "limit_order_cancel_do_evaluate x" "pay_fee_now E"
    "\<lambda>_. limit_order_cancel_do_apply E x" "\<lambda>_. fc_contract E" for E :: "'e market_env_scheme" and x
proof unfold_locales
  show "trades (only_core (core_fee_paid fs - deferred)) st (Inr st') \<and> same_market (objects st) (objects st')"
    if "\<not> skip_fee ts" "pay_fee_now E ts fs st = Inr (st', deferred)" for ts fs and st st' :: "'z chain" and deferred
    using pay_now_trades(1,2) [OF that] by blast
next
  fix ts fs and st0 st1 st st' :: "'z chain" and deferred r
  assume "fc_contract E" and p: "pay_fee_now E ts fs st1 = Inr (st, deferred)"
    and wf: "ledger_wf (objects st)" "market_ok (objects st)" and ok: "limit_order_cancel_do_apply E x st = Some (Inr (st', r))"
  moreover have "only_core deferred = (\<lambda>_. 0)" using p by (auto simp: pay_fee_now_def bindE_eq_Inr only_core_def)
  ultimately show "trades (only_core deferred) st (Inr st')" using limit_order_cancel_trades by metis
qed

subsection \<open>Margin positions keep shares\<close>

lemma call_price_pos:
  assumes R: "rational_contract R" and ok: "call_price R d c r = Some (Inr p)" and pos: "0 < amount d" "0 < amount c" "0 < r"
  shows "price_pos p" "asset_id (base p) = asset_id c" "asset_id (quote p) = asset_id d"
proof -
  obtain n m where nm: "bindE (R (amount d) (amount c)) (\<lambda>x. bindE (R (int r) GRAPHENE_COLLATERAL_RATIO_DENOM)
      (\<lambda>y. rational_mult R x y)) = Inr (n, m)" "0 < n" "0 < m"
    using rational_product [OF R pos(1,2), of "int r" GRAPHENE_COLLATERAL_RATIO_DENOM] pos(3)
    by (auto simp: GRAPHENE_COLLATERAL_RATIO_DENOM_def)
  obtain a b where ab: "call_price_loop R (n, m) = Some (Inr (a, b))" "0 < a" "0 < b" "\<not> too_large (a, b)"
    using call_price_loop_returns [OF R nm(2,3)] by blast
  have "p = mk_price (mk_asset b (asset_id c)) (mk_asset a (asset_id d))"
    using ok unfolding call_price_def nm(1) by (auto simp: ab(1) price_invert_def price_of_def res_simps mk_price_def mk_asset_def)
  then show "price_pos p" "asset_id (base p) = asset_id c" "asset_id (quote p) = asset_id d"
    using ab by (auto simp: price_pos_def mk_price_def mk_asset_def too_large_def GRAPHENE_MAX_SHARE_SUPPLY_def)
qed

lemma borrow_trades:
  assumes ok: "borrow E x a st = Inr st'" and a: "dynamic_asset_data_id a = asset_id (delta_debt x)"
  shows "trades (\<lambda>_. 0) st (Inr st')" "same_market (objects st) (objects st')"
proof -
  let ?i = "asset_id (delta_debt x)" and ?m = "amount (delta_debt x)"
  have "trades (\<lambda>_. 0) st (Inr st') \<and> same_market (objects st) (objects st')"
  proof (cases "?m = 0")
    case True
    then show ?thesis using ok by (simp add: borrow_def trades_return)
  next
    case False
    then obtain st1 where 1: "adjust_balance E (funding_account x) (delta_debt x) st = Inr st1"
        and 2: "modify_dynamic ?i (change_supply E ?m) st1 = Inr st'"
      using ok a by (auto simp: borrow_def bindE_eq_Inr)
    have "trades (\<lambda>a. if a = ?i then - ?m else 0) st1 (Inr st')"
      using 2 by (rule trades_dynamic) (auto simp: change_supply_def res_simps)
    with trades_adjust [OF 1] have "trades (\<lambda>_. 0) st (Inr st')" by (rule trades_seq) (simp add: amount_in_def)
    then show ?thesis using same_market_trans [OF same_market_adjust [OF 1] same_market_modify(2) [OF 2]] by blast
  qed
  then show "trades (\<lambda>_. 0) st (Inr st')" "same_market (objects st) (objects st')" by blast+
qed

lemma lock_trades:
  assumes ok: "lock_collateral E x st = Inr st'"
  shows "trades (\<lambda>a. - amount_in a (delta_collateral x)) st (Inr st')" "same_market (objects st) (objects st')"
proof -
  let ?c = "delta_collateral x"
  have "trades (\<lambda>a. - amount_in a ?c) st (Inr st') \<and> same_market (objects st) (objects st')"
  proof (cases "amount ?c = 0")
    case True
    then show ?thesis using ok by (auto simp: lock_collateral_def amount_in_def intro!: trades_return)
  next
    case False
    then obtain neg st1 where n: "asset_neg E ?c = Inr neg" and 1: "adjust_balance E (funding_account x) neg st = Inr st1"
        and 2: "st' = st1 \<or> (\<exists>i. modify_stats i (put_core_in_orders E ?c) st1 = Inr st')"
      using ok by (auto simp: lock_collateral_def bindE_eq_Inr split: if_split_asm)
    have "amount_in a neg = - amount_in a ?c" for a using n by (auto simp: asset_neg_def res_simps amount_in_def mk_asset_def)
    then have t1: "trades (\<lambda>a. - amount_in a ?c) st (Inr st1)" using trades_adjust [OF 1] by simp
    have "trades (\<lambda>_. 0) st1 (Inr st') \<and> same_market (objects st1) (objects st')"
      using 2 put_core_trades same_market_modify(1) by (auto intro: trades_return)
    then show ?thesis
      using trades_seq [OF t1, of "\<lambda>_. 0" "Inr st'"] same_market_trans [OF same_market_adjust [OF 1]] by simp
  qed
  then show "trades (\<lambda>a. - amount_in a ?c) st (Inr st')" "same_market (objects st) (objects st')" by blast+
qed

lemma tbl_find_create: "tbl_wf t \<Longrightarrow> tbl_find (snd (tbl_create v t)) (fst (tbl_create v t)) = Some v"
  by (fastforce simp: tbl_create_def tbl_find_def tbl_wf_def list_all_iff map_add_def split: option.split dest: map_of_SomeD)

lemma find_call_row:
  assumes "find_call st owner mia = Some (i, c)" and "ledger_wf (objects st)"
  shows "tbl_find (call_orders (objects st)) i = Some c" "asset_id (quote (co_call_price c)) = mia"
proof -
  have "(i, c) \<in> set (rows (call_orders (objects st)))" and q: "asset_id (quote (co_call_price c)) = mia"
    using assms(1) by (auto simp: find_call_def find_Some_iff in_set_conv_nth)
  then show "tbl_find (call_orders (objects st)) i = Some c"
    using assms(2) by (auto simp: ledger_wf_def tbl_wf_def tbl_find_def)
  show "asset_id (quote (co_call_price c)) = mia" by (rule q)
qed

lemma change_call_result:
  assumes R: "rational_contract (rat E)" and ok: "change_call E x mcr c = Some (Inr c')" and mcr: "0 < mcr"
    and pos: "0 < collateral c' \<and> 0 < debt c' \<or> debt c' = 0" and bk: "asset_id (base (co_call_price c)) = asset_id (delta_collateral x)"
  shows "collateral_in a c' = collateral_in a c + amount_in a (delta_collateral x)" "call_ok c \<Longrightarrow> call_ok c'"
proof -
  let ?c = "c\<lparr>collateral := collateral c', debt := debt c'\<rparr>"
  have col: "collateral c' = collateral c + amount (delta_collateral x)"
      and c': "if 0 < debt c' then \<exists>p. call_price (rat E) (get_debt ?c) (get_collateral ?c) mcr = Some (Inr p) \<and> c' = ?c\<lparr>co_call_price := p\<rparr>
        else c' = ?c"
    using ok by (auto simp: change_call_def bindO_Inr res_simps safe_add_def Let_def split: if_split_asm)
  have "asset_id (base (co_call_price c')) = asset_id (base (co_call_price c)) \<and> (call_ok c \<longrightarrow> call_ok c')"
  proof (cases "0 < debt c'")
    case True
    then obtain p where p: "call_price (rat E) (get_debt ?c) (get_collateral ?c) mcr = Some (Inr p)" and e: "c' = ?c\<lparr>co_call_price := p\<rparr>"
      using c' by auto
    have "0 < amount (get_debt ?c)" "0 < amount (get_collateral ?c)" using True pos by (auto simp: get_debt_def get_collateral_def mk_asset_def)
    note q = call_price_pos [OF R p this mcr]
    have "co_call_price c' = p" by (subst e) simp
    then show ?thesis using q True by (simp add: call_ok_def get_collateral_def mk_asset_def)
  next
    case False
    then have "co_call_price c' = co_call_price c" "debt c' = 0" using c' pos by (auto, metis call_order_object.select_convs(4) call_order_object.surjective call_order_object.update_convs(2,3))
    then show ?thesis by (simp add: call_ok_def)
  qed
  then show "collateral_in a c' = collateral_in a c + amount_in a (delta_collateral x)" "call_ok c \<Longrightarrow> call_ok c'"
    using bk col by (auto simp: collateral_in_def amount_in_def)
qed

lemma put_call_trades:
  assumes R: "rational_contract (rat E)" and ok: "put_call E x mcr st = Some (Inr (st', i, c))" and mcr: "0 < mcr"
    and pos: "0 < collateral c \<and> 0 < debt c \<or> debt c = 0" and wf: "ledger_wf (objects st)"
    and bk: "\<And>i c. find_call st (funding_account x) (asset_id (delta_debt x)) = Some (i, c) \<Longrightarrow>
      asset_id (base (co_call_price c)) = asset_id (delta_collateral x)"
  shows "trades (\<lambda>a. amount_in a (delta_collateral x)) st (Inr st')" "tbl_find (call_orders (objects st')) i = Some c"
    "assets (objects st') = assets (objects st)"
proof -
  let ?t = "call_orders (objects st)"
  have tw: "tbl_wf ?t" using wf by (simp add: ledger_wf_def)
  have "trades (\<lambda>a. amount_in a (delta_collateral x)) st (Inr st') \<and> tbl_find (call_orders (objects st')) i = Some c \<and>
    assets (objects st') = assets (objects st)"
  proof (cases "find_call st (funding_account x) (asset_id (delta_debt x))")
    case None
    then obtain p where amt: "0 < amount (delta_collateral x)" "0 < amount (delta_debt x)"
        and p: "call_price (rat E) (delta_debt x) (delta_collateral x) mcr = Some (Inr p)"
        and c: "c = \<lparr>borrower = funding_account x, collateral = amount (delta_collateral x), debt = amount (delta_debt x), co_call_price = p\<rparr>"
        and i: "i = fst (tbl_create c ?t)" and st': "st' = st\<lparr>objects := objects st\<lparr>call_orders := snd (tbl_create c ?t)\<rparr>\<rparr>"
      using ok by (auto simp: put_call_def bindO_Inr assertE_eq_Inr Let_def case_prod_beta)
    note q = call_price_pos [OF R p amt(2,1) mcr]
    have m: "moves (\<lambda>a. amount_in a (delta_collateral x)) st (Inr st')"
      unfolding st' using tsum_create [OF surjective_pairing, of _ c ?t] tbl_wf_create [OF tw surjective_pairing, of c] q(2)
      by (intro movesI) (auto simp: gap_field ledger_wf_def collateral_in_def amount_in_def c)
    have "trades (\<lambda>a. amount_in a (delta_collateral x)) st (Inr st')"
      by (rule trades_moves [OF m]) (use q(1) amt in \<open>auto simp: st' market_ok_def quiet_def tbl_create_def call_ok_def c\<close>)
    then show ?thesis using tbl_find_create [OF tw, of c] by (simp add: st' i)
  next
    case (Some r)
    then obtain c0 where f: "find_call st (funding_account x) (asset_id (delta_debt x)) = Some (i, c0)"
        and ch: "change_call E x mcr c0 = Some (Inr c)" and st': "st' = store_call i c st"
      using ok by (cases r) (auto simp: put_call_def bindO_Inr)
    note r = find_call_row(1) [OF f wf] and d = change_call_result [OF R ch mcr pos bk [OF f]]
    have "modify_call i (\<lambda>_. Inr c) st = Inr st'" using r by (auto simp: modify_call_def res_simps st' store_call_def)
    then have "trades (\<lambda>a. amount_in a (delta_collateral x)) st (Inr st')" by (rule trades_modify_call) (use r d in auto)
    then show ?thesis by (simp add: st' store_call_def tbl_find_def update_conv')
  qed
  then show "trades (\<lambda>a. amount_in a (delta_collateral x)) st (Inr st')" "tbl_find (call_orders (objects st')) i = Some c"
    "assets (objects st') = assets (objects st)" by blast+
qed

definition backing_of :: "'z ledger_scheme \<Rightarrow> asset_id_type \<Rightarrow> asset_id_type option" where
  "backing_of L mia =
     (case tbl_find (assets L) mia of
        None \<Rightarrow> None
      | Some a \<Rightarrow> (case bitasset_data_id a of
                    None \<Rightarrow> None
                  | Some k \<Rightarrow> map_option (\<lambda>b. short_backing_asset (bit_options b)) (tbl_find (bitassets L) k)))"

text \<open>Positions hold the backing asset of their debt, and feeds have a collateral ratio.\<close>

definition positions_ok :: "'z ledger_scheme \<Rightarrow> bool" where
  "positions_ok L \<longleftrightarrow>
     list_all (\<lambda>(i, c). backing_of L (asset_id (quote (co_call_price c))) = Some (asset_id (base (co_call_price c)))) (rows (call_orders L)) \<and>
     list_all (\<lambda>(k, b). 0 < maintenance_collateral_ratio (current_feed b)) (rows (bitassets L))"

lemma positions_same: "same_market L L' \<Longrightarrow> positions_ok L' = positions_ok L" "same_market L L' \<Longrightarrow> backing_of L' a = backing_of L a"
  by (simp_all add: same_market_def positions_ok_def backing_of_def cong: option.case_cong)

lemma check_position_trades:
  assumes E: "fc_contract E" and ok: "check_position E i mia j st = Some (Inr st')" and wf: "ledger_wf (objects st)" "market_ok (objects st)"
    and mia: "tbl_find (assets (objects st)) i = Some mia"
  shows "trades (\<lambda>_. 0) st (Inr st')"
proof -
  obtain called where "check_call_orders E i mia False st = Some (Inr (st', called))"
    using ok by (auto simp: check_position_def bindO_Inr throwE_def split: if_split_asm option.split_asm)
  then show ?thesis by (rule check_call_orders_trades(1) [OF E _ wf mia])
qed

lemma call_order_update_trades:
  assumes E: "fc_contract E" "rational_contract (rat E)" and ok: "call_order_update_do_apply E x st = Some (Inr (st', r))"
    and wf: "ledger_wf (objects st)" "market_ok (objects st)" and ps: "positions_ok (objects st)"
    and bk: "backing_of (objects st) (asset_id (delta_debt x)) = Some (asset_id (delta_collateral x))"
  shows "trades (\<lambda>_. 0) st (Inr st')"
proof -
  let ?i = "asset_id (delta_debt x)" and ?sba = "asset_id (delta_collateral x)"
  obtain mia :: asset_object and k b st1 st2 st3 i c where mia: "tbl_find (assets (objects st)) ?i = Some mia"
      and b: "tbl_find (bitassets (objects st)) k = Some b"
      and 1: "borrow E x mia st = Inr st1" and 2: "lock_collateral E x st1 = Inr st2"
      and 3: "put_call E x (maintenance_collateral_ratio (current_feed b)) st2 = Some (Inr (st3, i, c))"
      and 4: "debt c = 0 \<and> collateral c = 0 \<and> st' = remove_call i st3 \<or>
        0 < collateral c \<and> 0 < debt c \<and> (st' = st3 \<or> check_position E ?i mia i st3 = Some (Inr st'))"
    using ok by (auto simp: call_order_update_do_apply_def bindO_Inr bitasset_of_def bindE_eq_Inr tbl_get_Inr assertE_eq_Inr split: if_split_asm)
  note t1 = borrow_trades [OF 1 asset_row(1) [OF wf(1) mia]] and t2 = lock_trades [OF 2]
  have sm: "same_market (objects st) (objects st2)" by (rule same_market_trans [OF t1(2) t2(2)])
  have t12: "trades (\<lambda>a. - amount_in a (delta_collateral x)) st (Inr st2)" by (rule trades_seq [OF t1(1) t2(1)]) simp
  have wf2: "ledger_wf (objects st2)" using trades_result [OF t12 refl wf] by blast
  have mcr: "0 < maintenance_collateral_ratio (current_feed b)"
    using ps tbl_wf_find_row [OF b] by (auto simp: positions_ok_def list_all_iff)
  have base: "asset_id (base (co_call_price c')) = ?sba" if "find_call st2 (funding_account x) ?i = Some (j, c')" for j c'
    using find_call_row [OF that wf2] tbl_wf_find_row [of "call_orders (objects st2)" j c'] ps bk positions_same [OF sm]
    by (auto simp: positions_ok_def list_all_iff)
  have pos: "0 < collateral c \<and> 0 < debt c \<or> debt c = 0" using 4 by blast
  have t3: "trades (\<lambda>a. amount_in a (delta_collateral x)) st2 (Inr st3)" "tbl_find (call_orders (objects st3)) i = Some c"
      "assets (objects st3) = assets (objects st2)"
    by (rule put_call_trades [OF E(2) 3 mcr pos wf2], erule base)+
  have t: "trades (\<lambda>_. 0) st (Inr st3)" by (rule trades_seq [OF t12 t3(1)]) simp
  have wf3: "ledger_wf (objects st3)" "market_ok (objects st3)" using trades_result [OF t refl wf] by blast+
  have mia3: "tbl_find (assets (objects st3)) ?i = Some mia" using mia sm t3(3) by (simp add: same_market_def)
  have "trades (\<lambda>_. 0) st3 (Inr st')"
    using 4 trades_remove_call [OF t3(2)] check_position_trades [OF E(1) _ wf3 mia3] by (auto intro: trades_return)
  with t show ?thesis by (rule trades_seq) simp
qed

lemma update_evaluated:
  "call_order_update_do_evaluate x st = Inr () \<Longrightarrow> backing_of (objects st) (asset_id (delta_debt x)) = Some (asset_id (delta_collateral x))"
  by (auto simp: call_order_update_do_evaluate_def bitasset_of_def bindE_eq_Inr deref_Inr tbl_get_Inr assertE_eq_Inr backing_of_def)

interpretation ev_call_update: paying_evaluator E "call_order_update_do_evaluate x" "pay_fee_now E"
    "\<lambda>_. call_order_update_do_apply E x" "\<lambda>st. fc_contract E \<and> rational_contract (rat E) \<and> positions_ok (objects st)"
    for E :: "'e market_env_scheme" and x
proof unfold_locales
  show "trades (only_core (core_fee_paid fs - deferred)) st (Inr st') \<and> same_market (objects st) (objects st')"
    if "\<not> skip_fee ts" "pay_fee_now E ts fs st = Inr (st', deferred)" for ts fs and st st' :: "'z chain" and deferred
    using pay_now_trades(1,2) [OF that] by blast
next
  fix ts fs and st0 st1 st st' :: "'z chain" and deferred r
  assume ev: "call_order_update_do_evaluate x st0 = Inr ()" and c: "fc_contract E \<and> rational_contract (rat E) \<and> positions_ok (objects st0)"
    and sm: "same_market (objects st0) (objects st)" and p: "pay_fee_now E ts fs st1 = Inr (st, deferred)"
    and wf: "ledger_wf (objects st)" "market_ok (objects st)" and ok: "call_order_update_do_apply E x st = Some (Inr (st', r))"
  have "only_core deferred = (\<lambda>_. 0)" using p by (auto simp: pay_fee_now_def bindE_eq_Inr only_core_def)
  moreover have "trades (\<lambda>_. 0) st (Inr st')"
    by (rule call_order_update_trades [OF _ _ ok wf]) (use c positions_same [OF sm] update_evaluated [OF ev] in simp_all)
  ultimately show "trades (only_core deferred) st (Inr st')" by simp
qed

text \<open>
  C34: creating a limit order, with the conversion of its fee, its deferral onto the order, the
  payment for the order and everything the order triggers in the book, conserves the shares of
  every asset, whenever the operation is valid and no deflation is running.
\<close>

theorem limit_order_create_conserves:
  assumes "start_evaluate_paying E P ts op (seller x) (fee x) (limit_order_create_do_evaluate E x) (limit_order_create_pay_fee E)
      (limit_order_create_do_apply E x) b st = Some (Inr (st', r))"
    and "\<not> skip_fee ts" and "fc_contract E" and "order_op_ok x" and "ledger_wf (objects st)" and "market_ok (objects st)"
  shows "ledger_wf (objects st') \<and> market_ok (objects st') \<and> gap a st' = gap a st"
  using ev_order_create.start_evaluate_paying_conserves [OF assms(1,2) _ assms(5,6)] assms(3,4) by blast

text \<open>
  Changing a margin position with the handling of its fee conserves the shares of every asset,
  when no deflation is running.
\<close>

theorem call_order_update_conserves:
  assumes "start_evaluate_paying E P ts op (funding_account x) (fee x) (call_order_update_do_evaluate x) (pay_fee_now E)
      (\<lambda>_. call_order_update_do_apply E x) b st = Some (Inr (st', r))"
    and "\<not> skip_fee ts" and "fc_contract E" and "rational_contract (rat E)" and "positions_ok (objects st)"
    and "ledger_wf (objects st)" and "market_ok (objects st)"
  shows "ledger_wf (objects st') \<and> market_ok (objects st') \<and> gap a st' = gap a st"
  using ev_call_update.start_evaluate_paying_conserves [OF assms(1,2) _ assms(6,7)] assms(3-5) by blast

subsection \<open>What changing a margin position does\<close>

text \<open>
  The state in which the change is booked, before margin calls are looked for: the debt is in the
  balance and in the supply, the collateral is out of the balance and in the position, and no
  other balance, supply or position differs.
\<close>

definition booked :: "call_order_update_operation \<Rightarrow> 'z chain \<Rightarrow> 'z chain \<Rightarrow> nat \<Rightarrow> call_order_object \<Rightarrow> bool" where
  "booked x st st' i c \<longleftrightarrow>
     (\<forall>owner a. amount (get_balance st' owner a) = amount (get_balance st owner a) +
        (if owner = funding_account x then amount_in a (delta_debt x) - amount_in a (delta_collateral x) else 0)) \<and>
     (\<forall>a. of_dynamic current_supply a (objects st') = of_dynamic current_supply a (objects st) + amount_in a (delta_debt x)) \<and>
     tbl_find (call_orders (objects st')) i = Some c \<and> borrower c = funding_account x \<and>
     asset_id (quote (co_call_price c)) = asset_id (delta_debt x) \<and>
     (case find_call st (funding_account x) (asset_id (delta_debt x)) of
        None \<Rightarrow> tbl_find (call_orders (objects st)) i = None \<and> collateral c = amount (delta_collateral x) \<and> debt c = amount (delta_debt x)
      | Some (j, c0) \<Rightarrow> i = j \<and> collateral c = collateral c0 + amount (delta_collateral x) \<and> debt c = debt c0 + amount (delta_debt x)) \<and>
     (\<forall>j. j \<noteq> i \<longrightarrow> tbl_find (call_orders (objects st')) j = tbl_find (call_orders (objects st)) j)"

lemma borrow_effect:
  assumes ok: "borrow E x a st = Inr st'" and a: "dynamic_asset_data_id a = asset_id (delta_debt x)"
  shows "amount (get_balance st' owner b) = amount (get_balance st owner b) + (if owner = funding_account x then amount_in b (delta_debt x) else 0)"
    "of_dynamic current_supply b (objects st') = of_dynamic current_supply b (objects st) + amount_in b (delta_debt x)"
proof -
  have "amount (get_balance st' owner b) = amount (get_balance st owner b) + (if owner = funding_account x then amount_in b (delta_debt x) else 0) \<and>
    of_dynamic current_supply b (objects st') = of_dynamic current_supply b (objects st) + amount_in b (delta_debt x)"
  proof (cases "amount (delta_debt x) = 0")
    case True
    then show ?thesis using ok by (simp add: borrow_def amount_in_def)
  next
    case False
    then obtain st1 where 1: "adjust_balance E (funding_account x) (delta_debt x) st = Inr st1"
        and 2: "modify_dynamic (asset_id (delta_debt x)) (change_supply E (amount (delta_debt x))) st1 = Inr st'"
      using ok a by (auto simp: borrow_def bindE_eq_Inr)
    have "asset_dynamic (objects st1) = asset_dynamic (objects st)"
      using 1 False by (cases rule: adjust_balance_cases) auto
    then have "of_dynamic current_supply b (objects st') = of_dynamic current_supply b (objects st) + amount_in b (delta_debt x)"
      using 2 by (auto simp: modify_dynamic_def change_supply_def res_simps of_dynamic_def amount_in_def tbl_find_def update_conv')
    moreover have "get_balance st' = get_balance st1" using 2 by (auto simp: modify_dynamic_def res_simps get_balance_def fun_eq_iff)
    ultimately show ?thesis using adjust_balance_get [OF 1, of owner b] by (simp add: amount_in_def)
  qed
  then show "amount (get_balance st' owner b) = amount (get_balance st owner b) + (if owner = funding_account x then amount_in b (delta_debt x) else 0)"
    "of_dynamic current_supply b (objects st') = of_dynamic current_supply b (objects st) + amount_in b (delta_debt x)" by blast+
qed

lemma lock_effect:
  assumes ok: "lock_collateral E x st = Inr st'"
  shows "amount (get_balance st' owner b) = amount (get_balance st owner b) - (if owner = funding_account x then amount_in b (delta_collateral x) else 0)"
    "asset_dynamic (objects st') = asset_dynamic (objects st)"
proof -
  have "amount (get_balance st' owner b) = amount (get_balance st owner b) - (if owner = funding_account x then amount_in b (delta_collateral x) else 0) \<and>
    asset_dynamic (objects st') = asset_dynamic (objects st)"
  proof (cases "amount (delta_collateral x) = 0")
    case True
    then show ?thesis using ok by (simp add: lock_collateral_def amount_in_def)
  next
    case False
    then obtain neg st1 where n: "asset_neg E (delta_collateral x) = Inr neg" and 1: "adjust_balance E (funding_account x) neg st = Inr st1"
        and 2: "st' = st1 \<or> (\<exists>i. modify_stats i (put_core_in_orders E (delta_collateral x)) st1 = Inr st')"
      using ok by (auto simp: lock_collateral_def bindE_eq_Inr split: if_split_asm)
    have neg: "amount neg = - amount (delta_collateral x)" "asset_id neg = asset_id (delta_collateral x)"
      using n by (auto simp: asset_neg_def res_simps mk_asset_def)
    then have nz: "amount neg \<noteq> 0" using False by simp
    have "asset_dynamic (objects st1) = asset_dynamic (objects st)"
      using 1 nz by (cases rule: adjust_balance_cases) auto
    moreover have "get_balance st' = get_balance st1 \<and> asset_dynamic (objects st') = asset_dynamic (objects st1)"
      using 2 by (auto simp: modify_stats_def res_simps get_balance_def fun_eq_iff)
    ultimately show ?thesis using adjust_balance_get [OF 1, of owner b] neg by (simp add: amount_in_def)
  qed
  then show "amount (get_balance st' owner b) = amount (get_balance st owner b) - (if owner = funding_account x then amount_in b (delta_collateral x) else 0)"
    "asset_dynamic (objects st') = asset_dynamic (objects st)" by blast+
qed

lemma call_price_quote: "call_price R d c r = Some (Inr p) \<Longrightarrow> asset_id (quote p) = asset_id d"
  by (auto simp: call_price_def price_invert_def price_of_def res_simps mk_price_def mk_asset_def split: sum.split_asm)

lemma change_call_effect:
  assumes "change_call E x mcr c = Some (Inr c')"
  shows "collateral c' = collateral c + amount (delta_collateral x)" "debt c' = debt c + amount (delta_debt x)"
    "borrower c' = borrower c" "asset_id (quote (co_call_price c')) = asset_id (quote (co_call_price c))"
  using assms
  by (auto simp: change_call_def bindO_Inr res_simps safe_add_def Let_def get_debt_def mk_asset_def split: if_split_asm dest!: call_price_quote)

lemma put_call_effect:
  assumes ok: "put_call E x mcr st = Some (Inr (st', i, c))" and wf: "ledger_wf (objects st)"
  shows "get_balance st' = get_balance st" "asset_dynamic (objects st') = asset_dynamic (objects st)"
    "tbl_find (call_orders (objects st')) i = Some c" "borrower c = funding_account x" "asset_id (quote (co_call_price c)) = asset_id (delta_debt x)"
    "case find_call st (funding_account x) (asset_id (delta_debt x)) of
        None \<Rightarrow> tbl_find (call_orders (objects st)) i = None \<and> collateral c = amount (delta_collateral x) \<and> debt c = amount (delta_debt x)
      | Some (j, c0) \<Rightarrow> i = j \<and> collateral c = collateral c0 + amount (delta_collateral x) \<and> debt c = debt c0 + amount (delta_debt x)"
    "j \<noteq> i \<Longrightarrow> tbl_find (call_orders (objects st')) j = tbl_find (call_orders (objects st)) j"
proof -
  let ?t = "call_orders (objects st)"
  have tw: "tbl_wf ?t" using wf by (simp add: ledger_wf_def)
  have "get_balance st' = get_balance st \<and> asset_dynamic (objects st') = asset_dynamic (objects st) \<and>
    tbl_find (call_orders (objects st')) i = Some c \<and> borrower c = funding_account x \<and> asset_id (quote (co_call_price c)) = asset_id (delta_debt x) \<and>
    (case find_call st (funding_account x) (asset_id (delta_debt x)) of
        None \<Rightarrow> tbl_find ?t i = None \<and> collateral c = amount (delta_collateral x) \<and> debt c = amount (delta_debt x)
      | Some (j, c0) \<Rightarrow> i = j \<and> collateral c = collateral c0 + amount (delta_collateral x) \<and> debt c = debt c0 + amount (delta_debt x)) \<and>
    (j \<noteq> i \<longrightarrow> tbl_find (call_orders (objects st')) j = tbl_find ?t j)"
  proof (cases "find_call st (funding_account x) (asset_id (delta_debt x))")
    case None
    then obtain p where p: "call_price (rat E) (delta_debt x) (delta_collateral x) mcr = Some (Inr p)"
        and c: "c = \<lparr>borrower = funding_account x, collateral = amount (delta_collateral x), debt = amount (delta_debt x), co_call_price = p\<rparr>"
        and i: "i = next_instance ?t" and st': "st' = st\<lparr>objects := objects st\<lparr>call_orders := snd (tbl_create c ?t)\<rparr>\<rparr>"
      using ok by (auto simp: put_call_def bindO_Inr assertE_eq_Inr Let_def case_prod_beta tbl_create_def)
    have "tbl_find ?t i = None" using tw by (force simp: i tbl_find_def tbl_wf_def list_all_iff map_of_eq_None_iff)
    then show ?thesis
      using None call_price_quote [OF p]
      by (auto simp: st' c get_balance_def fun_eq_iff tbl_create_def tbl_find_def map_add_def i split: option.splits)
  next
    case (Some r)
    then obtain c0 where f: "find_call st (funding_account x) (asset_id (delta_debt x)) = Some (i, c0)"
        and ch: "change_call E x mcr c0 = Some (Inr c)" and st': "st' = store_call i c st"
      using ok by (cases r) (auto simp: put_call_def bindO_Inr)
    have "borrower c0 = funding_account x" using f by (auto simp: find_call_def find_Some_iff)
    then show ?thesis
      using f change_call_effect [OF ch] find_call_row(2) [OF f wf]
      by (auto simp: st' store_call_def get_balance_def fun_eq_iff tbl_find_def update_conv')
  qed
  then show "get_balance st' = get_balance st" "asset_dynamic (objects st') = asset_dynamic (objects st)"
    "tbl_find (call_orders (objects st')) i = Some c" "borrower c = funding_account x" "asset_id (quote (co_call_price c)) = asset_id (delta_debt x)"
    "case find_call st (funding_account x) (asset_id (delta_debt x)) of
        None \<Rightarrow> tbl_find ?t i = None \<and> collateral c = amount (delta_collateral x) \<and> debt c = amount (delta_debt x)
      | Some (j, c0) \<Rightarrow> i = j \<and> collateral c = collateral c0 + amount (delta_collateral x) \<and> debt c = debt c0 + amount (delta_debt x)"
    "j \<noteq> i \<Longrightarrow> tbl_find (call_orders (objects st')) j = tbl_find ?t j" by blast+
qed


subsection \<open>An order for core freezes shares that stay in the balance\<close>

lemma freeze_if_running_result:
  assumes E: "fc_contract E" and ok: "freeze_if_running E owner a st = Inr (st', dlft)" and wf: "ledger_wf (objects st)"
    and nd: "no_debt (objects st)"
    and rates: "list_all (\<lambda>(i, d). dfl_rate d \<le> GRAPHENE_DEFLATION_RATE_SCALE) (rows (deflations (objects st)))"
  shows "moves (only_core dlft) st (Inr st')" "dlft = deflation_cut st a owner" "get_balance st' = get_balance st"
proof -
  have "moves (only_core dlft) st (Inr st') \<and> dlft = deflation_cut st a owner \<and> get_balance st' = get_balance st"
  proof (cases "running_deflation st a")
    case None
    then show ?thesis using ok by (auto simp: freeze_if_running_def deflation_cut_def only_core_def intro!: moves_return)
  next
    case (Some p)
    then obtain i and d :: deflation_object where d: "running_deflation st a = Some (i, d)"
        and f: "freeze_account E i (dfl_rate d) owner st = Inr (st', dlft)"
      using ok by (cases p) (auto simp: freeze_if_running_def)
    have a0: "a = 0" using d by (auto simp: running_deflation_def split: if_splits)
    have rate: "dfl_rate d \<le> GRAPHENE_DEFLATION_RATE_SCALE" using running_deflation_row [OF d] rates by (auto simp: list_all_iff)
    have b: "0 \<le> amount (get_balance st owner 0)" "amount (get_balance st owner 0) < 2 ^ 63"
      using nd by (auto simp: get_balance_def mk_asset_def no_debt_def list_all_iff fc_int64_def split: option.splits dest!: map_of_SomeD)
    note r = freeze_account_result [OF E wf rate b f]
    show ?thesis using moves_freeze [OF f] r d a0 by (auto simp: deflation_cut_def get_balance_def fun_eq_iff)
  qed
  then show "moves (only_core dlft) st (Inr st')" "dlft = deflation_cut st a owner" "get_balance st' = get_balance st" by blast+
qed

lemma moves_put_core:
  assumes "modify_stats i (put_core_in_orders E x) st = Inr st'"
  shows "moves (\<lambda>_. 0) st (Inr st')" "get_balance st' = get_balance st"
proof -
  have "moves (only_core 0) st (modify_stats i (put_core_in_orders E x) st)"
    by (rule moves_modify_stats) (auto simp: put_core_in_orders_def res_simps split: if_splits)
  then show "moves (\<lambda>_. 0) st (Inr st')" unfolding assms by (rule moves_cong) (simp add: only_core_def)
  show "get_balance st' = get_balance st" using assms by (auto simp: modify_stats_def res_simps get_balance_def fun_eq_iff)
qed

text \<open>
  C37: an order that asks for core while a deflation has not reached its seller freezes the part of the
  seller's core balance that the deflation will cut, as a transfer does, but leaves the balance as
  it is, since the line that takes the amount is commented out: the frozen shares are counted twice,
  and the core asset holds more shares than its supply by that amount.
\<close>

theorem order_for_core_freezes_twice:
  assumes E: "fc_contract E" and ok: "pay_for_order E x st = Inr st'" and wf: "ledger_wf (objects st)" and nd: "no_debt (objects st)"
    and rates: "list_all (\<lambda>(i, d). dfl_rate d \<le> GRAPHENE_DEFLATION_RATE_SCALE) (rows (deflations (objects st)))"
    and x: "asset_id (amount_to_sell x) \<noteq> 0" "asset_id (min_to_receive x) = 0"
  shows "amount (get_balance st' (seller x) 0) = amount (get_balance st (seller x) 0) \<and>
    gap 0 st' = gap 0 st - deflation_cut st 0 (seller x)"
proof -
  let ?s = "asset_id (amount_to_sell x)"
  obtain st1 dlft st2 neg taken and acc :: account_object where
      1: "freeze_if_running E (seller x) 0 st = Inr (st1, dlft)"
      and 2: "modify_stats (acct_statistics acc) (put_core_in_orders E (amount_to_sell x)) st1 = Inr st2"
      and n: "asset_neg E (amount_to_sell x) = Inr neg" "asset_minus E neg (mk_asset 0 ?s) = Inr taken"
      and 3: "adjust_balance E (seller x) taken st2 = Inr st'"
    using ok x by (auto simp: pay_for_order_def bindE_eq_Inr freeze_if_running_def [of _ _ ?s] running_deflation_def [of _ ?s])
  note f = freeze_if_running_result [OF E 1 wf nd rates] and m = moves_put_core [OF 2]
  have t: "asset_id taken = ?s" using n by (auto simp: asset_neg_def asset_minus_def res_simps mk_asset_def)
  have "moves (only_core dlft) st (Inr st2)" by (rule moves_seq [OF f(1)]) (use m in auto)
  then have 4: "moves (\<lambda>a. only_core dlft a + amount_in a taken) st (Inr st')"
    by (rule moves_seq [OF _ moves_adjust_balance [of taken st2 E "seller x", unfolded 3]]) simp
  have "gap 0 st' = gap 0 st - (only_core dlft 0 + amount_in 0 taken)" using moves_result [OF 4 refl wf] by blast
  then show ?thesis
    using adjust_balance_get [OF 3, of "seller x" 0] x(1) t f(2,3) m by (simp add: only_core_def amount_in_def)
qed

text \<open>Account 10 owns 100 core and 10 of asset 1, a deflation of ten percent is running, and it sells 4 of asset 1 for core.\<close>

definition example_sell :: limit_order_create_operation where
  "example_sell = \<lparr>fee = mk_asset 1 0, seller = 10, amount_to_sell = mk_asset 4 1, min_to_receive = mk_asset 20 0,
     expiration = 2000, fill_or_kill = False, exchange_fee_extension = None\<rparr>"

definition selling_chain :: "unit chain" where
  "selling_chain = deflating_chain\<lparr>objects := objects deflating_chain\<lparr>balances := [((10, 0), 100), ((10, 1), 10)]\<rparr>\<rparr>"

theorem order_for_core_freezes_twice_witness:
  "\<exists>st'. pay_for_order fc_std example_sell selling_chain = Inr st' \<and> amount (get_balance st' 10 0) = 100 \<and>
     gap 0 st' = gap 0 selling_chain - 10"
proof -
  have x: "asset_id (amount_to_sell example_sell) \<noteq> 0" "asset_id (min_to_receive example_sell) = 0" "seller example_sell = 10"
    by (simp_all add: example_sell_def mk_asset_def)
  have wf: "ledger_wf (objects selling_chain)" using deflating_chain_wf by (simp add: selling_chain_def ledger_wf_def)
  have nd: "no_debt (objects selling_chain)" by (simp add: no_debt_def selling_chain_def fc_int64_def)
  have rates: "list_all (\<lambda>(i, d). dfl_rate d \<le> GRAPHENE_DEFLATION_RATE_SCALE) (rows (deflations (objects selling_chain)))"
    by (simp add: selling_chain_def example_deflation_def GRAPHENE_DEFLATION_RATE_SCALE_def)
  have run: "running_deflation selling_chain 0 = Some (1, example_deflation)" "needs_deflation selling_chain 1 10"
      "amount (get_balance selling_chain 10 0) = 100" "dfl_rate example_deflation = 10000000"
    by (simp_all add: running_deflation_def last_row_def selling_chain_def example_deflation_def needs_deflation_def
        account_deflation_of_def get_balance_def mk_asset_def example_ledger_def empty_table_def)
  have none: "account_deflation_of selling_chain 10 = None"
    by (simp add: account_deflation_of_def selling_chain_def example_ledger_def empty_table_def)
  have f1: "freeze_if_running fc_std 10 1 selling_chain = Inr (selling_chain, 0)" by (simp add: freeze_if_running_def running_deflation_def)
  have f0: "\<exists>t. freeze_if_running fc_std 10 0 selling_chain =
      Inr (selling_chain\<lparr>objects := objects selling_chain\<lparr>account_deflations := t\<rparr>\<rparr>, 10)"
    by (simp add: freeze_if_running_def run freeze_account_def none deflated_ten_percent Let_def tbl_create_def del: One_nat_def) blast
  then obtain t where f0: "freeze_if_running fc_std 10 0 selling_chain =
      Inr (selling_chain\<lparr>objects := objects selling_chain\<lparr>account_deflations := t\<rparr>\<rparr>, 10)" by blast
  have ids: "asset_id (amount_to_sell example_sell) = 1" "asset_id (min_to_receive example_sell) = 0" "seller example_sell = 10"
      "amount_to_sell example_sell = mk_asset 4 1"
    by (simp_all add: example_sell_def mk_asset_def)
  have "\<exists>st'. pay_for_order fc_std example_sell selling_chain = Inr st'"
    by (simp add: pay_for_order_def ids f1 f0 del: One_nat_def) (simp add: selling_chain_def example_eval_defs put_core_in_orders_def mk_asset_def asset_neg_def asset_minus_def
        safe_neg_def safe_sub_def safe_add_def fc_int64_def adjust_balance_def asset_ge_def asset_less_def)
  then obtain st' where ok: "pay_for_order fc_std example_sell selling_chain = Inr st'" by blast
  have "deflation_cut selling_chain 0 10 = 10" by (simp add: deflation_cut_def run del: One_nat_def)
  then show ?thesis using order_for_core_freezes_twice [OF fc_std_contract ok wf nd rates x(1,2)] ok x(3) run(3) by auto
qed

subsection \<open>Concrete evaluations\<close>

text \<open>Account 10 sells 20 core for 10 of asset 1, more than order 5 asks for, so the order rests in the book.\<close>

definition example_create :: limit_order_create_operation where
  "example_create = \<lparr>fee = mk_asset 1 0, seller = 10, amount_to_sell = mk_asset 20 0, min_to_receive = mk_asset 10 1,
     expiration = 2000, fill_or_kill = False, exchange_fee_extension = None\<rparr>"

definition example_ts :: transaction_evaluation_state where
  "example_ts = \<lparr>is_proposed_trx = False, skip_fee = False, skip_fee_schedule_check = True\<rparr>"

lemma apply_order_rests:
  assumes "tbl_find (limit_orders (objects st)) i = Some order" and "amount_to_receive order = Inr recv"
    and "tbl_find (assets (objects st)) (asset_id (amount_for_sale order)) = Some a" and "\<not> is_market_issued a"
    and "tbl_find (assets (objects st)) (asset_id recv) = Some b" and "\<not> is_market_issued b"
    and "price_max (asset_id (quote (sell_price order))) (asset_id (base (sell_price order))) = Inr hi"
    and "limits_between hi (price_invert (sell_price order)) st = Inr []" and "head_block_time st \<le> HARDFORK_555_TIME"
  shows "apply_order E i allow st = Some (Inr (st, False))"
  using assms
  by (simp add: apply_order_def take_from_book_def bindO_def deref_def tbl_get_def no_calls Let_def price_invert_def mk_price_def)

lemma example_prepared:
  "prepare_fee market_std 10 (mk_asset 1 0) market_chain =
     Inr \<lparr>fee_from_account = mk_asset 1 0, core_fee_paid = 1, fee_paying_statistics = 2, fee_asset_dyn_data = 0\<rparr>"
  by (simp add: prepare_fee_def tbl_get_def mk_asset_def market_chain_def tbl_find_def example_eval_defs is_authorized_asset_def
      flag_and_def HARDFORK_419_TIME_def)

lemma example_evaluated: "limit_order_create_do_evaluate market_std example_create market_chain = Inr ()"
  by (simp add: limit_order_create_do_evaluate_def Let_def example_create_def mk_asset_def tbl_get_def head_block_time_def market_chain_def
      example_chain_def sample_state_def tbl_find_def example_eval_defs is_authorized_asset_def flag_and_def balance_deflation_def
      running_deflation_def last_row_def asset_plus_def safe_add_def fc_int64_def asset_ge_def asset_less_def get_balance_def
      exchange_receiver_check_def)

lemmas order_eval_defs = apply_order_def take_from_book_def deref_def tbl_get_def tbl_find_def check_call_orders_def is_market_issued_def
  amount_to_receive_def amount_for_sale_def price_invert_def price_max_def price_of_def limits_between_def limit_price_index_def
  index_range_def index_by_def price_gt_def price_le_def price_eq_def price_less_def cross_mult_def

lemma head_time_objects [simp]: "head_block_time (st\<lparr>objects := L\<rparr>) = head_block_time st"
  by (simp add: head_block_time_def)

lemma market_time [simp]: "head_block_time market_chain = 1000"
  using example_time by (simp add: market_chain_def)

lemma market_chain_tables [simp]:
  "account_stats (objects market_chain) = \<lparr>rows = [(2, example_statistics 10 5), (3, example_statistics 11 0)], next_instance = 4\<rparr>"
  "balances (objects market_chain) = [((10, 0), 100)]" "deflations (objects market_chain) = empty_table"
  "limit_orders (objects market_chain) = \<lparr>rows = [(4, example_order), (5, example_order_usd)], next_instance = 6\<rparr>"
  "asset_dynamic (objects market_chain) =
    \<lparr>rows = [(0, \<lparr>current_supply = 155, confidential_supply = 0, accumulated_fees = 0, fee_pool = 0\<rparr>),
       (1, \<lparr>current_supply = 10, confidential_supply = 0, accumulated_fees = 0, fee_pool = 0\<rparr>)], next_instance = 2\<rparr>"
  "accounts (objects market_chain) = \<lparr>rows = [(10, example_account ''alice'' 2), (11, example_account ''bob'' 3)], next_instance = 12\<rparr>"
  by (simp_all add: market_chain_def example_ledger_def)

definition with_statistics :: "account_statistics_object \<Rightarrow> unit chain \<Rightarrow> unit chain" where
  "with_statistics s st = st\<lparr>objects := objects st\<lparr>account_stats := \<lparr>rows = [(2, s), (3, example_statistics 11 0)], next_instance = 4\<rparr>\<rparr>\<rparr>"

definition example_new_order :: limit_order_object where
  "example_new_order = new_limit_order example_create (mk_price (mk_asset 20 0) (mk_asset 10 1)) 0"

definition order_chain :: "account_statistics_object \<Rightarrow> unit chain" where
  "order_chain s = with_statistics s (market_chain\<lparr>objects := objects market_chain\<lparr>balances := [((10, 0), 80)],
     limit_orders := \<lparr>rows = [(4, example_order), (5, example_order_usd), (6, example_new_order)], next_instance = 7\<rparr>\<rparr>\<rparr>)"

lemma example_fee_paid: "\<exists>s. limit_order_create_pay_fee market_std example_ts
    \<lparr>fee_from_account = mk_asset 1 0, core_fee_paid = 1, fee_paying_statistics = 2, fee_asset_dyn_data = 0\<rparr> market_chain =
    Inr (with_statistics s market_chain, 0) \<and> total_core_in_orders s = 0"
  by (auto simp: limit_order_create_pay_fee_def HARDFORK_445_TIME_def pay_fee_now_def evaluator_pay_fee_def example_ts_def modify_stats_def
      on_ledger_def tbl_modify_def tbl_get_def tbl_find_def stat_pay_fee_def safe_add_def fc_int64_def with_statistics_def example_statistics_def)

lemma example_order_paid:
  "total_core_in_orders s = 0 \<Longrightarrow> pay_for_order market_std example_create (with_statistics s market_chain) =
     Inr (with_statistics (s\<lparr>total_core_in_orders := 20\<rparr>) (market_chain\<lparr>objects := objects market_chain\<lparr>balances := [((10, 0), 80)]\<rparr>\<rparr>))"
  by (simp add: pay_for_order_def freeze_if_running_def running_deflation_def last_row_def with_statistics_def example_create_def
      mk_asset_def tbl_get_def empty_table_def modify_stats_def on_ledger_def tbl_modify_def example_account_def put_core_in_orders_def
      safe_add_def safe_sub_def safe_neg_def fc_int64_def asset_neg_def asset_minus_def adjust_balance_def get_balance_def asset_ge_def
      asset_less_def)
    (simp add: tbl_find_def asset_neg_def safe_neg_def safe_add_def fc_int64_def asset_ge_def asset_less_def mk_asset_def on_ledger_def)

lemma example_order_applied: "apply_order market_std 6 True (order_chain s) = Some (Inr (order_chain s, False))"
proof (rule apply_order_rests)
  show "tbl_find (limit_orders (objects (order_chain s))) 6 = Some example_new_order"
    by (simp add: order_chain_def with_statistics_def tbl_find_def)
  show "amount_to_receive example_new_order = Inr (mk_asset 10 1)"
    by (simp add: amount_to_receive_def amount_for_sale_def example_new_order_def new_limit_order_def example_create_def mk_price_def mk_asset_def
        asset_mult_base_eq price_pos_def share_ok_def GRAPHENE_MAX_SHARE_SUPPLY_def)
  have ids: "asset_id (amount_for_sale example_new_order) = 0" "asset_id (mk_asset 10 1) = 1"
      "sell_price example_new_order = mk_price (mk_asset 20 0) (mk_asset 10 1)"
    by (simp_all add: amount_for_sale_def example_new_order_def new_limit_order_def mk_price_def mk_asset_def)
  have a: "assets (objects (order_chain s)) = assets (objects market_chain)" by (simp add: order_chain_def with_statistics_def)
  show "tbl_find (assets (objects (order_chain s))) (asset_id (amount_for_sale example_new_order)) = Some example_core_asset"
      "tbl_find (assets (objects (order_chain s))) (asset_id (mk_asset 10 1)) = Some (example_core_asset\<lparr>dynamic_asset_data_id := 1\<rparr>)"
    unfolding a ids by (rule market_chain_lookup)+
  show "\<not> is_market_issued example_core_asset" "\<not> is_market_issued (example_core_asset\<lparr>dynamic_asset_data_id := 1\<rparr>)"
    by (simp_all add: is_market_issued_def example_core_asset_def)
  let ?hi = "mk_price (mk_asset GRAPHENE_MAX_SHARE_SUPPLY 1) (mk_asset 1 0)"
  show "price_max (asset_id (quote (sell_price example_new_order))) (asset_id (base (sell_price example_new_order))) = Inr ?hi"
    by (simp add: ids price_max_def price_of_def mk_price_def mk_asset_def)
  show "limits_between ?hi (price_invert (sell_price example_new_order)) (order_chain s) = Inr []"
    by (simp add: ids limits_between_def limit_price_index_def index_range_def index_by_def order_chain_def with_statistics_def
        price_gt_def price_le_def price_eq_def price_less_def cross_mult_def price_invert_def example_order_def example_order_usd_def
        mk_price_def mk_asset_def GRAPHENE_MAX_SHARE_SUPPLY_def)
  show "head_block_time (order_chain s) \<le> HARDFORK_555_TIME" by (simp add: order_chain_def with_statistics_def HARDFORK_555_TIME_def)
qed

lemma example_order_created:
  "create_limit_order example_new_order (with_statistics s (market_chain\<lparr>objects := objects market_chain\<lparr>balances := [((10, 0), 80)]\<rparr>\<rparr>)) =
     (6, order_chain s)"
  by (simp add: create_limit_order_def tbl_create_def with_statistics_def order_chain_def)

lemma example_created: "\<exists>st' r. apply_op_paying market_std example_ts 10
    \<lparr>fee_from_account = mk_asset 1 0, core_fee_paid = 1, fee_paying_statistics = 2, fee_asset_dyn_data = 0\<rparr>
    (limit_order_create_pay_fee market_std) (limit_order_create_do_apply market_std example_create) market_chain = Some (Inr (st', r))"
proof -
  obtain s where 1: "limit_order_create_pay_fee market_std example_ts
      \<lparr>fee_from_account = mk_asset 1 0, core_fee_paid = 1, fee_paying_statistics = 2, fee_asset_dyn_data = 0\<rparr> market_chain =
      Inr (with_statistics s market_chain, 0)" and s: "total_core_in_orders s = 0"
    using example_fee_paid by blast
  have fill_or_kill: "\<not> fill_or_kill example_create" by (simp add: example_create_def)
  have p: "limit_order_get_price example_create = Inr (mk_price (mk_asset 20 0) (mk_asset 10 1))"
    by (simp add: limit_order_get_price_def price_of_def example_create_def mk_price_def mk_asset_def)
  have "limit_order_create_do_apply market_std example_create 0 (with_statistics s market_chain) =
      Some (Inr (order_chain (s\<lparr>total_core_in_orders := 20\<rparr>), Object_result 6))"
    unfolding limit_order_create_do_apply_def
    by (simp add: bindO_def p example_order_paid [OF s] example_new_order_def [symmetric] example_order_created example_order_applied
        fill_or_kill del: One_nat_def)
  then show ?thesis
    by (simp add: apply_op_paying_def bindO_def evaluator_convert_fee_def 1)
      (simp add: mk_asset_def asset_neg_def safe_neg_def safe_add_def adjust_balance_def get_balance_def asset_ge_def asset_less_def fc_int64_def
        order_chain_def with_statistics_def on_ledger_def Let_def)
qed

theorem limit_order_create_conserves_witness:
  "\<exists>st' r. start_evaluate_paying market_std \<lparr>pack_op = (\<lambda>_. 100), pack_memo = (\<lambda>_. 10)\<rparr> example_ts
      (Limit_order_create_op example_create) 10 (mk_asset 1 0) (limit_order_create_do_evaluate market_std example_create)
      (limit_order_create_pay_fee market_std) (limit_order_create_do_apply market_std example_create) True market_chain = Some (Inr (st', r)) \<and>
     gap 0 st' = gap 0 market_chain"
proof -
  have s: "seller example_create = 10" "fee example_create = mk_asset 1 0" by (simp_all add: example_create_def)
  obtain st' r where ok: "start_evaluate_paying market_std \<lparr>pack_op = (\<lambda>_. 100), pack_memo = (\<lambda>_. 10)\<rparr> example_ts
      (Limit_order_create_op example_create) 10 (mk_asset 1 0) (limit_order_create_do_evaluate market_std example_create)
      (limit_order_create_pay_fee market_std) (limit_order_create_do_apply market_std example_create) True market_chain = Some (Inr (st', r))"
    using example_created
    by (auto simp: start_evaluate_paying_def evaluate_op_def bindO_def example_ts_def example_prepared example_evaluated)
  have x: "order_op_ok example_create"
    by (simp add: order_op_ok_def limit_order_create_validate_def fee_not_negative_def example_create_def mk_asset_def)
  show ?thesis
    using limit_order_create_conserves [OF ok [folded s] _ market_std_contract x market_chain_wf, of 0] ok by (auto simp: example_ts_def)
qed

text \<open>Account 10 pays back the 5 shares it borrowed on the prediction market of asset 1 and takes its collateral out.\<close>

definition example_bitasset :: asset_bitasset_data_object where
  "example_bitasset = \<lparr>bit_options = \<lparr>feed_lifetime_sec = 86400, minimum_feeds = 1, force_settlement_delay_sec = 86400,
       force_settlement_offset_percent = 0, maximum_force_settlement_volume = 2000, short_backing_asset = 0\<rparr>, feeds = [],
     current_feed = \<lparr>settlement_price = null_price, core_exchange_rate = null_price, maintenance_collateral_ratio = 1750,
       maximum_short_squeeze_ratio = 1500\<rparr>, current_feed_publication_time = 0, is_prediction_market = True, force_settled_volume = 0,
     bit_settlement_price = null_price, settlement_fund = 0\<rparr>"

definition margin_chain :: "unit chain" where
  "margin_chain = market_chain\<lparr>objects := objects market_chain\<lparr>
     assets := \<lparr>rows = [(0, example_core_asset), (1, example_core_asset\<lparr>dynamic_asset_data_id := 1, bitasset_data_id := Some 0\<rparr>)], next_instance = 2\<rparr>,
     bitassets := \<lparr>rows = [(0, example_bitasset)], next_instance = 1\<rparr>,
     balances := [((10, 0), 100), ((10, 1), 5)],
     call_orders := \<lparr>rows = [(0, \<lparr>borrower = 10, collateral = 5, debt = 5, co_call_price = mk_price (mk_asset 7 0) (mk_asset 4 1)\<rparr>)],
       next_instance = 1\<rparr>\<rparr>\<rparr>"

definition example_close :: call_order_update_operation where
  "example_close = \<lparr>fee = mk_asset 1 0, funding_account = 10, delta_collateral = mk_asset (- 5) 0, delta_debt = mk_asset (- 5) 1\<rparr>"

lemma margin_chain_ok: "ledger_wf (objects margin_chain)" "market_ok (objects margin_chain)" "positions_ok (objects margin_chain)"
  using market_chain_wf
  by (simp_all add: margin_chain_def ledger_wf_def tbl_wf_def market_ok_def quiet_def example_core_asset_def fees_ok_def call_ok_def
      mk_price_def mk_asset_def price_pos_def example_bitasset_def positions_ok_def backing_of_def tbl_find_def)

lemma close_prepared:
  "prepare_fee market_std 10 (mk_asset 1 0) margin_chain =
     Inr \<lparr>fee_from_account = mk_asset 1 0, core_fee_paid = 1, fee_paying_statistics = 2, fee_asset_dyn_data = 0\<rparr>"
  by (simp add: prepare_fee_def tbl_get_def mk_asset_def margin_chain_def market_chain_def tbl_find_def example_eval_defs is_authorized_asset_def
      flag_and_def HARDFORK_419_TIME_def)

lemma close_evaluated: "call_order_update_do_evaluate example_close margin_chain = Inr ()"
  by (simp add: call_order_update_do_evaluate_def example_close_def mk_asset_def tbl_get_def margin_chain_def tbl_find_def
      bitasset_of_def deref_def is_market_issued_def example_bitasset_def has_settlement_def price_is_null_def price_eq_def null_price_def
      get_balance_def asset_ge_def asset_less_def)

lemma close_fee_paid: "\<exists>s. pay_fee_now market_std example_ts
    \<lparr>fee_from_account = mk_asset 1 0, core_fee_paid = 1, fee_paying_statistics = 2, fee_asset_dyn_data = 0\<rparr> margin_chain =
    Inr (with_statistics s margin_chain, 0) \<and> total_core_in_orders s = 0"
  by (auto simp: margin_chain_def pay_fee_now_def evaluator_pay_fee_def example_ts_def modify_stats_def
      on_ledger_def tbl_modify_def tbl_get_def tbl_find_def stat_pay_fee_def safe_add_def fc_int64_def with_statistics_def example_statistics_def)

lemma close_applied:
  assumes "total_core_in_orders s = 0"
  shows "\<exists>st'. call_order_update_do_apply market_std example_close (with_statistics s margin_chain) = Some (Inr (st', Void_result)) \<and>
    balances (objects st') = [((10, 0), 105), ((10, 1), 0)]"
  using assms
  by (simp add: call_order_update_do_apply_def bindO_def tbl_get_def example_close_def mk_asset_def with_statistics_def margin_chain_def tbl_find_def
      bitasset_of_def deref_def borrow_def lock_collateral_def adjust_balance_def get_balance_def asset_ge_def asset_less_def asset_neg_def
      safe_neg_def safe_add_def fc_int64_def on_ledger_def Let_def modify_dynamic_def tbl_modify_def change_supply_def modify_stats_def
      put_core_in_orders_def put_call_def find_call_def change_call_def mk_price_def store_call_def remove_call_def example_account_def)


theorem call_order_update_conserves_witness:
  "\<exists>st' r. start_evaluate_paying market_std \<lparr>pack_op = (\<lambda>_. 100), pack_memo = (\<lambda>_. 10)\<rparr> example_ts
      (Call_order_update_op example_close) 10 (mk_asset 1 0) (call_order_update_do_evaluate example_close)
      (pay_fee_now market_std) (\<lambda>_. call_order_update_do_apply market_std example_close) True margin_chain = Some (Inr (st', r)) \<and>
     gap 1 st' = gap 1 margin_chain"
proof -
  have s: "funding_account example_close = 10" "fee example_close = mk_asset 1 0" by (simp_all add: example_close_def)
  let ?fs = "\<lparr>fee_from_account = mk_asset 1 0, core_fee_paid = 1, fee_paying_statistics = 2, fee_asset_dyn_data = 0\<rparr>"
  obtain s1 where 1: "pay_fee_now market_std example_ts ?fs margin_chain = Inr (with_statistics s1 margin_chain, 0)" "total_core_in_orders s1 = 0"
    using close_fee_paid by blast
  obtain st2 where 2: "call_order_update_do_apply market_std example_close (with_statistics s1 margin_chain) = Some (Inr (st2, Void_result))"
      "balances (objects st2) = [((10, 0), 105), ((10, 1), 0)]"
    using close_applied [OF 1(2)] by blast
  have "asset_neg market_std (mk_asset 1 0) = Inr (mk_asset (- 1) 0)" by (simp add: asset_neg_def safe_neg_def fc_int64_def mk_asset_def)
  moreover have "\<exists>st'. adjust_balance market_std 10 (mk_asset (- 1) 0) st2 = Inr st'"
    by (simp add: adjust_balance_def 2 Let_def mk_asset_def asset_neg_def safe_neg_def safe_add_def fc_int64_def asset_ge_def asset_less_def
        on_ledger_def)
  ultimately obtain st' where ap: "apply_op_paying market_std example_ts 10 ?fs
      (pay_fee_now market_std) (\<lambda>_. call_order_update_do_apply market_std example_close) margin_chain = Some (Inr (st', Void_result))"
    using 1(1) 2(1) by (auto simp: apply_op_paying_def bindO_def evaluator_convert_fee_def mk_asset_def)
  obtain st' r where ok: "start_evaluate_paying market_std \<lparr>pack_op = (\<lambda>_. 100), pack_memo = (\<lambda>_. 10)\<rparr> example_ts
      (Call_order_update_op example_close) 10 (mk_asset 1 0) (call_order_update_do_evaluate example_close)
      (pay_fee_now market_std) (\<lambda>_. call_order_update_do_apply market_std example_close) True margin_chain = Some (Inr (st', r))"
    using ap
    by (auto simp: start_evaluate_paying_def evaluate_op_def bindO_def example_ts_def close_prepared close_evaluated)
  have R: "rational_contract (rat market_std)"
    by (simp add: market_std_def fee_std_def fee_env.defs fc_env.defs gcd_rational_contract)
  show ?thesis
    using call_order_update_conserves [OF ok [folded s] _ market_std_contract R margin_chain_ok(3,1,2), of 1] ok by (auto simp: example_ts_def)
qed

end
