(* ===== verification/Asset_Objects.thy ===== *)
theory Asset_Objects
  imports Conservation "HOL-Library.Signed_Division" "HOL-Library.Multiset"
begin

text \<open>
  The methods of assets (\<open>libraries/chain/asset_object.cpp\<close>): the median of the published price
  feeds, the limit of forced settlement, and the text form of amounts.

  \<open>std::nth_element\<close> leaves open which of several equivalent elements it puts in a place, so it is
  an argument of the median, with the documented guarantee \<open>nth_element_contract\<close>. \<open>fc::to_string\<close> is
  an argument of the printer. An exception of the standard library is rethrown by the handler
  around the parser and is an \<open>Assert_exception\<close> here.
\<close>

subsection \<open>The median feed\<close>

type_synonym nth_element = "(price_feed \<Rightarrow> price_feed \<Rightarrow> bool) \<Rightarrow> nat \<Rightarrow> price_feed list \<Rightarrow> price_feed list"

definition default_price_feed :: price_feed where
  "default_price_feed = \<lparr>settlement_price = null_price, core_exchange_rate = null_price,
     maintenance_collateral_ratio = 1750, maximum_short_squeeze_ratio = 1500\<rparr>"

definition feed_is_live :: "asset_bitasset_data_object \<Rightarrow> time_point_sec \<Rightarrow> account_id_type \<times> time_point_sec \<times> price_feed \<Rightarrow> bool" where
  "feed_is_live b now = (\<lambda>(i, t, f). int now - int t < int (feed_lifetime_sec (bit_options b)) \<and> t \<noteq> 0)"

definition live_feeds :: "asset_bitasset_data_object \<Rightarrow> time_point_sec \<Rightarrow> (time_point_sec \<times> price_feed) list" where
  "live_feeds b now = map snd (filter (feed_is_live b now) (feeds b))"

definition median_feed :: "nth_element \<Rightarrow> price_feed list \<Rightarrow> price_feed" where
  "median_feed nth_element fs =
     (let k = length fs div 2;
          fs1 = nth_element (\<lambda>a b. price_less (settlement_price a) (settlement_price b)) k fs;
          fs2 = nth_element (\<lambda>a b. maintenance_collateral_ratio a < maintenance_collateral_ratio b) k fs1;
          fs3 = nth_element (\<lambda>a b. maximum_short_squeeze_ratio a < maximum_short_squeeze_ratio b) k fs2;
          fs4 = nth_element (\<lambda>a b. price_less (core_exchange_rate a) (core_exchange_rate b)) k fs3
      in \<lparr>settlement_price = settlement_price (fs1 ! k), core_exchange_rate = core_exchange_rate (fs4 ! k),
          maintenance_collateral_ratio = maintenance_collateral_ratio (fs2 ! k),
          maximum_short_squeeze_ratio = maximum_short_squeeze_ratio (fs3 ! k)\<rparr>)"

text \<open>With no feed and no minimum the code reads past the end of an empty vector.\<close>

definition update_median_feeds ::
    "nth_element \<Rightarrow> time_point_sec \<Rightarrow> asset_bitasset_data_object \<Rightarrow> asset_bitasset_data_object res" where
  "update_median_feeds nth_element now b =
     (let current_feeds = live_feeds b now; fs = map snd current_feeds; oldest = fold min (map fst current_feeds) now in
      if length fs < minimum_feeds (bit_options b)
      then Inr (b\<lparr>current_feed_publication_time := now, current_feed := default_price_feed\<rparr>)
      else if fs = [] then throwE Undefined_behaviour
      else Inr (b\<lparr>current_feed_publication_time := oldest,
                  current_feed := (if length fs = 1 then hd fs else median_feed nth_element fs)\<rparr>))"

subsection \<open>The limit of forced settlement\<close>

text \<open>The sum of the supply and the settled volume is one of two signed 64-bit numbers.\<close>

definition max_force_settlement_volume :: "'e fc_env_scheme \<Rightarrow> asset_bitasset_data_object \<Rightarrow> int \<Rightarrow> int res" where
  "max_force_settlement_volume E b supply =
     (let percent = maximum_force_settlement_volume (bit_options b) in
      if percent = 0 then Inr 0
      else if percent = GRAPHENE_100_PERCENT then safe_add E supply (force_settled_volume b)
      else if fc_int64 (supply + force_settled_volume b)
      then to_share E ((word_of_int (supply + force_settled_volume b) * word_of_nat percent :: u128) div word_of_nat GRAPHENE_100_PERCENT)
      else throwE Undefined_behaviour)"

definition feed_expiration_time :: "asset_bitasset_data_object \<Rightarrow> time_point_sec" where
  "feed_expiration_time b = (current_feed_publication_time b + feed_lifetime_sec (bit_options b)) mod 2 ^ 32"

definition feed_is_expired_before_hardfork_615 :: "time_point_sec \<Rightarrow> asset_bitasset_data_object \<Rightarrow> bool" where
  "feed_is_expired_before_hardfork_615 now b \<longleftrightarrow> now \<le> feed_expiration_time b"

definition feed_is_expired :: "time_point_sec \<Rightarrow> asset_bitasset_data_object \<Rightarrow> bool" where
  "feed_is_expired now b \<longleftrightarrow> feed_expiration_time b \<le> now"

subsection \<open>Amounts as text\<close>

definition digit_char :: "nat \<Rightarrow> char" where
  "digit_char d = char_of (48 + d)"

definition digit_value :: "char \<Rightarrow> nat" where
  "digit_value c = of_char c - 48"

fun decimal_nat :: "nat \<Rightarrow> string" where
  "decimal_nat n = (if n < 10 then [digit_char n] else decimal_nat (n div 10) @ [digit_char (n mod 10)])"

declare decimal_nat.simps [simp del]

definition decimal :: "int \<Rightarrow> string" where
  "decimal x = (if x < 0 then CHR ''-'' # decimal_nat (nat (- x)) else decimal_nat (nat x))"

definition value_of_digits :: "string \<Rightarrow> nat" where
  "value_of_digits s = foldl (\<lambda>v c. v * 10 + digit_value c) 0 s"

text \<open>\<open>std::stoll\<close> on a string of digits, minus signs and points: a sign, then digits up to the first other character.\<close>

definition stoll :: "string \<Rightarrow> int res" where
  "stoll s =
     (let neg = (s \<noteq> [] \<and> hd s = CHR ''-''); ds = takeWhile isdigit (if neg then tl s else s);
          v = (if neg then - int (value_of_digits ds) else int (value_of_digits ds)) in
      bindE (assertE (ds \<noteq> []) ''invalid_argument'') (\<lambda>_.
      bindE (assertE (fc_int64 v) ''out_of_range'') (\<lambda>_. Inr v)))"

fun amount_chars :: "string \<Rightarrow> bool \<Rightarrow> bool \<Rightarrow> (bool \<times> bool) res" where
  "amount_chars [] negative_found decimal_found = Inr (negative_found, decimal_found)"
| "amount_chars (c # cs) negative_found decimal_found =
     (if isdigit c then amount_chars cs negative_found decimal_found
      else if c = CHR ''-'' \<and> \<not> negative_found then amount_chars cs True decimal_found
      else if c = CHR ''.'' \<and> \<not> decimal_found then amount_chars cs negative_found True
      else throwE (Assert_exception ''amount_string''))"

text \<open>The part before the point is \<open>substr( negative_found, decimal_pos )\<close>, a start and a length.\<close>

definition amount_from_string :: "'e fc_env_scheme \<Rightarrow> asset_id_type \<Rightarrow> asset_object \<Rightarrow> string \<Rightarrow> asset res" where
  "amount_from_string E i a s =
     bindE (amount_chars s False False) (\<lambda>(negative_found, decimal_found).
     bindE (scaled_precision (asset_precision a)) (\<lambda>scaled.
     let decimal_pos = length (takeWhile (\<lambda>c. c \<noteq> CHR ''.'') s);
         lhs = take decimal_pos (drop (if negative_found then 1 else 0) s) in
     bindE (if lhs = [] then Inr 0
            else bindE (stoll lhs) (\<lambda>v. bindE (safe_mul E v scaled) (\<lambda>x. safe_add E 0 x))) (\<lambda>satoshis.
     bindE (if decimal_found then
              let max_rhs_size = length (decimal scaled) - 1; rhs = drop (decimal_pos + 1) s in
              bindE (assertE (length rhs \<le> max_rhs_size) ''rhs.size() <= max_rhs_size'') (\<lambda>_.
              let rhs = rhs @ replicate (max_rhs_size - length rhs) CHR ''0'' in
              if rhs = [] then Inr satoshis else bindE (stoll rhs) (\<lambda>v. safe_add E satoshis v))
            else Inr satoshis) (\<lambda>satoshis.
     bindE (assertE (satoshis \<le> GRAPHENE_MAX_SHARE_SUPPLY) ''satoshis <= GRAPHENE_MAX_SHARE_SUPPLY'') (\<lambda>_.
     bindE (if negative_found then safe_mul E satoshis (- 1) else Inr satoshis) (\<lambda>satoshis.
     Inr (mk_asset satoshis i)))))))"

text \<open>Division and remainder truncate towards zero. The assertion that the scale is positive only concerns a debug build.\<close>

definition amount_to_string :: "'e fc_env_scheme \<Rightarrow> (int \<Rightarrow> string) \<Rightarrow> asset_object \<Rightarrow> int \<Rightarrow> string res" where
  "amount_to_string E to_string a x =
     bindE (foldE (\<lambda>_ scaled. safe_mul E scaled 10) [0..<asset_precision a] 1) (\<lambda>scaled.
     let decimals = x smod scaled in
     Inr (to_string (x sdiv scaled) @
          (if decimals \<noteq> 0 then ''.'' @ drop 1 (to_string (scaled + decimals)) else '''')))"

subsection \<open>What the median is\<close>

definition weak_order_on :: "'a set \<Rightarrow> ('a \<Rightarrow> 'a \<Rightarrow> bool) \<Rightarrow> bool" where
  "weak_order_on A lt \<longleftrightarrow> strict_weak_order (\<lambda>x. x \<in> A) lt"

definition nth_element_contract :: "nth_element \<Rightarrow> bool" where
  "nth_element_contract ne \<longleftrightarrow> (\<forall>lt n xs. weak_order_on (set xs) lt \<and> n < length xs \<longrightarrow>
     mset (ne lt n xs) = mset xs \<and>
     (\<forall>i < n. \<not> lt (ne lt n xs ! n) (ne lt n xs ! i)) \<and> (\<forall>j. n < j \<and> j < length xs \<longrightarrow> \<not> lt (ne lt n xs ! j) (ne lt n xs ! n)))"

text \<open>At most \<open>k\<close> elements lie below the element in place \<open>k\<close>, and fewer than the others above it.\<close>

definition in_place :: "('a \<Rightarrow> 'a \<Rightarrow> bool) \<Rightarrow> nat \<Rightarrow> 'a list \<Rightarrow> 'a \<Rightarrow> bool" where
  "in_place lt k xs x \<longleftrightarrow> x \<in> set xs \<and> length (filter (\<lambda>y. lt y x) xs) \<le> k \<and> length (filter (lt x) xs) < length xs - k"

lemma count_below:
  assumes "n < length ys" and "\<And>i. i < length ys \<Longrightarrow> P (ys ! i) \<Longrightarrow> i < n"
  shows "length (filter P ys) \<le> n"
proof -
  have "{i. i < length ys \<and> P (ys ! i)} \<subseteq> {..<n}" using assms(2) by auto
  then have "card {i. i < length ys \<and> P (ys ! i)} \<le> card {..<n}" by (rule card_mono [rotated]) simp
  then show ?thesis by (simp add: length_filter_conv_card)
qed

lemma count_above:
  assumes "n < length ys" and "\<And>i. i < length ys \<Longrightarrow> P (ys ! i) \<Longrightarrow> n < i"
  shows "length (filter P ys) < length ys - n"
proof -
  have "{i. i < length ys \<and> P (ys ! i)} \<subseteq> {n<..<length ys}" using assms(2) by auto
  then have "card {i. i < length ys \<and> P (ys ! i)} \<le> card {n<..<length ys}" by (rule card_mono [rotated]) simp
  then show ?thesis using assms(1) by (simp add: length_filter_conv_card)
qed

lemma length_filter_mset: "mset xs = mset ys \<Longrightarrow> length (filter P xs) = length (filter P ys)"
  by (metis mset_filter size_mset)

lemma nth_element_in_place:
  assumes ne: "nth_element_contract ne" and w: "weak_order_on (set xs) lt" and n: "n < length xs"
  shows "in_place lt n xs (ne lt n xs ! n)" "mset (ne lt n xs) = mset xs"
proof -
  let ?ys = "ne lt n xs" and ?x = "ne lt n xs ! n"
  have c: "mset ?ys = mset xs" "\<And>i. i < n \<Longrightarrow> \<not> lt ?x (?ys ! i)" "\<And>j. n < j \<Longrightarrow> j < length xs \<Longrightarrow> \<not> lt (?ys ! j) ?x"
    using ne [unfolded nth_element_contract_def, rule_format, of xs lt n] w n by blast+
  have l: "length ?ys = length xs" using c(1) by (metis size_mset)
  have x: "?x \<in> set xs" using c(1) l n by (metis nth_mem set_mset_mset)
  have irr: "\<not> lt ?x ?x" using w x by (simp add: weak_order_on_def strict_weak_order_def)
  have "length (filter (\<lambda>y. lt y ?x) ?ys) \<le> n"
    by (rule count_below) (use c(3) irr l n in \<open>auto, metis linorder_neqE_nat\<close>)
  moreover have "length (filter (lt ?x) ?ys) < length ?ys - n"
    by (rule count_above) (use c(2) irr l n in \<open>auto, metis linorder_neqE_nat\<close>)
  ultimately show "in_place lt n xs ?x" using x l length_filter_mset [OF c(1)] by (simp add: in_place_def)
  show "mset ?ys = mset xs" by (rule c(1))
qed

lemma in_place_mset: "mset xs = mset ys \<Longrightarrow> in_place lt n xs x = in_place lt n ys x"
  using length_filter_mset [of xs ys] mset_eq_setD [of xs ys] mset_eq_length [of xs ys] by (simp add: in_place_def)

text \<open>The prices of a feed are valid, or null when it leaves them out.\<close>

definition feed_price_ok :: "price \<Rightarrow> bool" where
  "feed_price_ok p \<longleftrightarrow> p = null_price \<or> price_pos p \<and> asset_id (base p) \<noteq> asset_id (quote p)"

definition feed_prices_ok :: "price_feed \<Rightarrow> bool" where
  "feed_prices_ok f \<longleftrightarrow> feed_price_ok (settlement_price f) \<and> feed_price_ok (core_exchange_rate f)"

lemma price_less_irrefl [simp]: "\<not> price_less p p"
  by (simp add: price_less_def)

lemma null_price_less:
  assumes "feed_price_ok p"
  shows "price_less null_price p \<longleftrightarrow> p \<noteq> null_price" "\<not> price_less p null_price"
proof -
  have "price_less null_price p \<and> \<not> price_less p null_price" if "asset_id (base p) \<noteq> asset_id (quote p)"
    using that by (cases "asset_id (base p) = 0") (simp_all add: price_less_def null_price_def mk_price_def mk_asset_def)
  then show "price_less null_price p \<longleftrightarrow> p \<noteq> null_price" "\<not> price_less p null_price"
    using assms by (auto simp: feed_price_ok_def)
qed

interpretation feed_order: strict_weak_order feed_price_ok price_less
proof unfold_locales
  fix a b c
  assume ok: "feed_price_ok a" "feed_price_ok b" "feed_price_ok c"
  then consider "price_pos a" "price_pos b" "price_pos c" | "a = null_price" | "b = null_price" | "c = null_price"
    by (auto simp: feed_price_ok_def)
  then show "price_less a b \<Longrightarrow> price_less b c \<Longrightarrow> price_less a c"
    by cases (use ok in \<open>auto simp: null_price_less intro: po.trans\<close>)
  from ok consider "price_pos a" "price_pos b" "price_pos c" | "a = null_price" | "b = null_price" | "c = null_price"
    by (auto simp: feed_price_ok_def)
  then show "\<not> price_less a b \<Longrightarrow> \<not> price_less b c \<Longrightarrow> \<not> price_less a c"
    by cases (use ok in \<open>auto simp: null_price_less dest: po.incomp_trans\<close>)
qed simp

lemma weak_order_key:
  assumes "\<And>x. x \<in> A \<Longrightarrow> feed_price_ok (key x)"
  shows "weak_order_on A (\<lambda>a b. price_less (key a) (key b))"
  unfolding weak_order_on_def
  by unfold_locales (simp, (meson assms feed_order.trans feed_order.incomp_trans)+)

lemma weak_order_nat: "weak_order_on A (\<lambda>a b. (key a :: nat) < key b)"
  unfolding weak_order_on_def by unfold_locales auto

text \<open>Every field comes from a feed that holds the middle place for this field.\<close>

definition made_of_medians :: "price_feed list \<Rightarrow> price_feed \<Rightarrow> bool" where
  "made_of_medians fs f \<longleftrightarrow> (\<exists>f1 f2 f3 f4. f = \<lparr>settlement_price = settlement_price f1, core_exchange_rate = core_exchange_rate f4,
      maintenance_collateral_ratio = maintenance_collateral_ratio f2, maximum_short_squeeze_ratio = maximum_short_squeeze_ratio f3\<rparr> \<and>
    in_place (\<lambda>a b. price_less (settlement_price a) (settlement_price b)) (length fs div 2) fs f1 \<and>
    in_place (\<lambda>a b. maintenance_collateral_ratio a < maintenance_collateral_ratio b) (length fs div 2) fs f2 \<and>
    in_place (\<lambda>a b. maximum_short_squeeze_ratio a < maximum_short_squeeze_ratio b) (length fs div 2) fs f3 \<and>
    in_place (\<lambda>a b. price_less (core_exchange_rate a) (core_exchange_rate b)) (length fs div 2) fs f4)"

lemma median_feed_in_place:
  assumes ne: "nth_element_contract ne" and fs: "fs \<noteq> []" and ok: "\<And>f. f \<in> set fs \<Longrightarrow> feed_prices_ok f"
  shows "made_of_medians fs (median_feed ne fs)"
proof -
  let ?k = "length fs div 2"
  let ?sp = "\<lambda>a b. price_less (settlement_price a) (settlement_price b)"
  let ?mc = "\<lambda>a b. maintenance_collateral_ratio a < maintenance_collateral_ratio b"
  let ?ms = "\<lambda>a b. maximum_short_squeeze_ratio a < maximum_short_squeeze_ratio b"
  let ?cr = "\<lambda>a b. price_less (core_exchange_rate a) (core_exchange_rate b)"
  have k: "?k < length ys" if "mset ys = mset fs" for ys
    using fs mset_eq_length [OF that] by (simp add: div_less_dividend)
  have w: "weak_order_on (set ys) ?sp \<and> weak_order_on (set ys) ?cr" if "mset ys = mset fs" for ys
    using weak_order_key [of "set ys"] ok mset_eq_setD [OF that] by (simp add: feed_prices_ok_def)
  define fs1 where "fs1 = ne ?sp ?k fs"
  define fs2 where "fs2 = ne ?mc ?k fs1"
  define fs3 where "fs3 = ne ?ms ?k fs2"
  define fs4 where "fs4 = ne ?cr ?k fs3"
  note p1 = nth_element_in_place [OF ne conjunct1 [OF w [OF refl]] k [OF refl], folded fs1_def]
  note p2 = nth_element_in_place [OF ne weak_order_nat k [OF p1(2)], of maintenance_collateral_ratio, folded fs2_def]
  have e2: "mset fs2 = mset fs" using p1(2) p2(2) by simp
  note p3 = nth_element_in_place [OF ne weak_order_nat k [OF e2], of maximum_short_squeeze_ratio, folded fs3_def]
  have e3: "mset fs3 = mset fs" using e2 p3(2) by simp
  note p4 = nth_element_in_place [OF ne conjunct2 [OF w [OF e3]] k [OF e3], folded fs4_def]
  have "median_feed ne fs = \<lparr>settlement_price = settlement_price (fs1 ! ?k), core_exchange_rate = core_exchange_rate (fs4 ! ?k),
      maintenance_collateral_ratio = maintenance_collateral_ratio (fs2 ! ?k), maximum_short_squeeze_ratio = maximum_short_squeeze_ratio (fs3 ! ?k)\<rparr>"
    by (simp add: median_feed_def Let_def fs1_def fs2_def fs3_def fs4_def)
  then show ?thesis unfolding made_of_medians_def
    using p1(1) p2(1) p3(1) p4(1) in_place_mset [OF p1(2)] in_place_mset [OF e2] in_place_mset [OF e3] by blast
qed

text \<open>
  C38: the feed of a market-issued asset. With fewer live feeds than the asset demands there is
  none; otherwise every field is taken from a live feed, and of all live feeds at most half have
  a lower value in this field and fewer than half (rounded up) a higher one; the publication time
  is that of the oldest feed taken into account. Nothing else of the asset changes.
\<close>

theorem update_median_feeds_correct:
  assumes ne: "nth_element_contract ne" and m: "0 < minimum_feeds (bit_options b)"
    and ok: "list_all (\<lambda>(t, f). feed_prices_ok f) (live_feeds b now)"
  shows "\<exists>f t. update_median_feeds ne now b = Inr (b\<lparr>current_feed := f, current_feed_publication_time := t\<rparr>) \<and>
    (if length (live_feeds b now) < minimum_feeds (bit_options b) then f = default_price_feed \<and> t = now
     else made_of_medians (map snd (live_feeds b now)) f \<and> t = Min (insert now (fst ` set (live_feeds b now))))"
proof (cases "length (live_feeds b now) < minimum_feeds (bit_options b)")
  case True
  then show ?thesis by (simp add: update_median_feeds_def Let_def)
next
  case False
  let ?fs = "map snd (live_feeds b now)"
  let ?f = "if length ?fs = 1 then hd ?fs else median_feed ne ?fs" and ?t = "Min (insert now (fst ` set (live_feeds b now)))"
  have ne0: "?fs \<noteq> []" using m False by auto
  have t: "fold min (map fst (live_feeds b now)) now = ?t"
    using Min.set_eq_fold [of now "map fst (live_feeds b now)"] by simp
  have "update_median_feeds ne now b = Inr (b\<lparr>current_feed := ?f, current_feed_publication_time := ?t\<rparr>)"
    using False ne0 by (simp add: update_median_feeds_def Let_def t)
  moreover have "made_of_medians ?fs ?f"
  proof (cases "length ?fs = 1")
    case True
    then obtain f where "?fs = [f]" by (auto simp: length_Suc_conv)
    then show ?thesis by (auto simp: made_of_medians_def in_place_def intro!: exI [of _ f])
  next
    case False
    moreover have "made_of_medians ?fs (median_feed ne ?fs)" by (rule median_feed_in_place [OF ne ne0]) (use ok in \<open>auto simp: list_all_iff\<close>)
    ultimately show ?thesis by simp
  qed
  ultimately show ?thesis using False by (intro exI [of _ ?f] exI [of _ ?t] conjI) (simp_all del: fst_conv)
qed

subsubsection \<open>A concrete median\<close>

text \<open>Sorting the whole list puts every element in its place.\<close>

fun sort_insert :: "('a \<Rightarrow> 'a \<Rightarrow> bool) \<Rightarrow> 'a \<Rightarrow> 'a list \<Rightarrow> 'a list" where
  "sort_insert lt x [] = [x]"
| "sort_insert lt x (y # ys) = (if lt y x then y # sort_insert lt x ys else x # y # ys)"

definition sorting_nth_element :: nth_element where
  "sorting_nth_element lt n xs = foldr (sort_insert lt) xs []"

lemma mset_sort_insert: "mset (sort_insert lt x ys) = add_mset x (mset ys)"
  by (induction ys) auto

lemma sorted_sort_insert:
  assumes w: "weak_order_on A lt" and "set (x # ys) \<subseteq> A" and "sorted_wrt (\<lambda>a b. \<not> lt b a) ys"
  shows "sorted_wrt (\<lambda>a b. \<not> lt b a) (sort_insert lt x ys)"
  using assms(2,3)
proof (induction ys)
  case (Cons y ys)
  have m: "set (sort_insert lt x ys) = insert x (set ys)" using mset_sort_insert [of lt x ys] by (metis set_mset_add_mset_insert set_mset_mset)
  have swo: "strict_weak_order (\<lambda>x. x \<in> A) lt" using w by (simp add: weak_order_on_def)
  note o = strict_weak_order.asym [OF swo] strict_weak_order.incomp_trans [OF swo]
  show ?case
  proof (cases "lt y x")
    case True
    then show ?thesis using Cons o(1) m by auto
  next
    case False
    have "\<not> lt z x" if "z \<in> set ys" for z using o(2) [of z y x] that Cons.prems False by auto
    then show ?thesis using Cons.prems False by simp
  qed
qed simp

lemma sorting_nth_element_contract: "nth_element_contract sorting_nth_element"
  unfolding nth_element_contract_def
proof (intro allI impI)
  fix lt :: "price_feed \<Rightarrow> price_feed \<Rightarrow> bool" and n xs
  assume *: "weak_order_on (set xs) lt \<and> n < length xs"
  have m: "mset (sorting_nth_element lt n ys) = mset ys" for ys
    by (induction ys) (simp_all add: sorting_nth_element_def mset_sort_insert)
  have "set ys \<subseteq> set xs \<Longrightarrow> sorted_wrt (\<lambda>a b. \<not> lt b a) (foldr (sort_insert lt) ys [])" for ys
  proof (induction ys)
    case (Cons y ys)
    have "set (foldr (sort_insert lt) ys []) = set ys" using m [of ys] by (metis set_mset_mset sorting_nth_element_def)
    then show ?case using Cons sorted_sort_insert [of "set xs" lt y] * by simp
  qed simp
  then have s: "sorted_wrt (\<lambda>a b. \<not> lt b a) (sorting_nth_element lt n xs)" by (simp add: sorting_nth_element_def)
  have l: "length (sorting_nth_element lt n xs) = length xs" using m [of xs] by (metis size_mset)
  show "mset (sorting_nth_element lt n xs) = mset xs \<and>
    (\<forall>i<n. \<not> lt (sorting_nth_element lt n xs ! n) (sorting_nth_element lt n xs ! i)) \<and>
    (\<forall>j. n < j \<and> j < length xs \<longrightarrow> \<not> lt (sorting_nth_element lt n xs ! j) (sorting_nth_element lt n xs ! n))"
    using m [of xs] sorted_wrt_nth_less [OF s] l * by auto
qed

text \<open>Three live feeds and one that has expired.\<close>

definition example_feed :: "int \<Rightarrow> price_feed" where
  "example_feed x = default_price_feed\<lparr>settlement_price := mk_price (mk_asset x 1) (mk_asset 1 0)\<rparr>"

definition median_bitasset :: asset_bitasset_data_object where
  "median_bitasset = \<lparr>bit_options = \<lparr>feed_lifetime_sec = 50, minimum_feeds = 2, force_settlement_delay_sec = 86400,
       force_settlement_offset_percent = 0, maximum_force_settlement_volume = 2000, short_backing_asset = 0\<rparr>,
     feeds = [(3, 90, example_feed 7), (4, 20, example_feed 1), (5, 80, example_feed 5), (6, 95, example_feed 6)],
     current_feed = default_price_feed, current_feed_publication_time = 0, is_prediction_market = False,
     force_settled_volume = 0, bit_settlement_price = null_price, settlement_fund = 0\<rparr>"

lemma example_live: "live_feeds median_bitasset 100 = [(90, example_feed 7), (80, example_feed 5), (95, example_feed 6)]"
  by (simp add: live_feeds_def feed_is_live_def median_bitasset_def)

theorem update_median_feeds_correct_witness:
  "\<exists>f. update_median_feeds sorting_nth_element 100 median_bitasset =
      Inr (median_bitasset\<lparr>current_feed := f, current_feed_publication_time := 80\<rparr>) \<and>
    made_of_medians [example_feed 7, example_feed 5, example_feed 6] f"
proof -
  have m: "minimum_feeds (bit_options median_bitasset) = 2" by (simp add: median_bitasset_def)
  have ok: "feed_prices_ok (example_feed x)" if "x \<in> {5, 6, 7}" for x
    using that by (auto simp: feed_prices_ok_def feed_price_ok_def example_feed_def default_price_feed_def price_pos_def mk_price_def mk_asset_def)
  show ?thesis
    using update_median_feeds_correct [OF sorting_nth_element_contract, of median_bitasset 100] by (simp add: m example_live ok)
qed

subsection \<open>Reading what was printed\<close>

lemma digit_char_simps:
  assumes "d < 10"
  shows "isdigit (digit_char d)" "digit_value (digit_char d) = d"
proof -
  have "list_all (\<lambda>d. isdigit (digit_char d)) [0..<10]" by code_simp
  then show "isdigit (digit_char d)" using assms by (simp add: list_all_iff)
  show "digit_value (digit_char d) = d" using assms by (simp add: digit_char_def digit_value_def)
qed

lemma not_digits [simp]: "\<not> isdigit CHR ''-''" "\<not> isdigit CHR ''.''"
  by (simp_all add: isdigit_def)

lemma digit_value_bound: "isdigit c \<Longrightarrow> digit_value c < 10"
  by (auto simp: isdigit_def digit_value_def)

lemma value_of_digits_snoc [simp]: "value_of_digits (s @ [c]) = value_of_digits s * 10 + digit_value c"
  by (simp add: value_of_digits_def)

lemma value_of_digits_Nil [simp]: "value_of_digits [] = 0"
  by (simp add: value_of_digits_def)

lemma value_of_digits_Cons: "value_of_digits (c # s) = digit_value c * 10 ^ length s + value_of_digits s"
proof (induction s rule: rev_induct)
  case (snoc x xs)
  then show ?case using value_of_digits_snoc [of "c # xs" x] by (simp add: algebra_simps)
qed (simp add: value_of_digits_def)

lemma value_of_digits_bound: "list_all isdigit s \<Longrightarrow> value_of_digits s < 10 ^ length s"
proof (induction s rule: rev_induct)
  case (snoc x xs)
  then show ?case using digit_value_bound [of x] by simp
qed simp

lemma decimal_nat_digits: "list_all isdigit (decimal_nat n) \<and> decimal_nat n \<noteq> [] \<and> value_of_digits (decimal_nat n) = n"
proof (induction n rule: decimal_nat.induct)
  case (1 n)
  then show ?case using digit_char_simps [of "n mod 10"] digit_char_simps [of n]
    by (subst (1 2 3) decimal_nat.simps) (auto simp: value_of_digits_def)
qed

lemma length_decimal_nat: "10 ^ p \<le> n \<Longrightarrow> n < 10 ^ Suc p \<Longrightarrow> length (decimal_nat n) = Suc p"
proof (induction n arbitrary: p rule: decimal_nat.induct)
  case (1 n)
  show ?case
  proof (cases p)
    case 0
    then show ?thesis using 1(3) by (simp add: decimal_nat.simps [of n])
  next
    case (Suc q)
    have "(10 :: nat) ^ 1 \<le> 10 ^ p" by (rule power_increasing) (use Suc in simp_all)
    then have n: "\<not> n < 10" using 1(2) by simp
    have "10 ^ q \<le> n div 10" "n div 10 < 10 ^ Suc q" using 1(2,3) Suc by (simp_all add: less_eq_div_iff_mult_less_eq div_less_iff_less_mult mult.commute)
    then show ?thesis using 1(1) [OF n, of q] n Suc by (simp add: decimal_nat.simps [of n])
  qed
qed

lemma decimal_fraction:
  assumes "d < 10 ^ p"
  shows "length (drop 1 (decimal_nat (10 ^ p + d))) = p" "list_all isdigit (drop 1 (decimal_nat (10 ^ p + d)))"
    "value_of_digits (drop 1 (decimal_nat (10 ^ p + d))) = d"
proof -
  let ?s = "decimal_nat (10 ^ p + d)"
  have l: "length ?s = Suc p" by (rule length_decimal_nat) (use assms in simp_all)
  then obtain c w where cw: "?s = c # w" "length w = p" by (cases ?s) auto
  have dg: "isdigit c" "list_all isdigit w" and v: "digit_value c * 10 ^ p + value_of_digits w = 10 ^ p + d"
    using decimal_nat_digits [of "10 ^ p + d"] cw by (simp_all add: value_of_digits_Cons)
  have w: "value_of_digits w < 10 ^ p" using value_of_digits_bound [OF dg(2)] cw by simp
  have "digit_value c = (digit_value c * 10 ^ p + value_of_digits w) div 10 ^ p" using w by simp
  also have "\<dots> = 1" unfolding v using assms by simp
  finally show "value_of_digits (drop 1 ?s) = d" using v cw by simp
  show "length (drop 1 ?s) = p" "list_all isdigit (drop 1 ?s)" using cw dg by simp_all
qed

lemma stoll_digits:
  assumes "list_all isdigit s" and "s \<noteq> []" and "value_of_digits s < 2 ^ 63"
  shows "stoll s = Inr (int (value_of_digits s))"
proof -
  have "hd s \<noteq> CHR ''-''" using assms(1,2) by (cases s) auto
  moreover have "takeWhile isdigit s = s" using assms(1) by (simp add: takeWhile_eq_all_conv list_all_iff)
  ultimately show ?thesis using assms(2,3) by (simp add: stoll_def Let_def assertE_def fc_int64_def del: takeWhile_eq_all_conv)
qed

lemma amount_chars_digits:
  "list_all isdigit s \<Longrightarrow> amount_chars (s @ t) n d = amount_chars t n d"
  by (induction s) auto

lemma no_point: "list_all isdigit s \<Longrightarrow> takeWhile (\<lambda>c. c \<noteq> CHR ''.'') (s @ t) = s @ takeWhile (\<lambda>c. c \<noteq> CHR ''.'') t"
  by (induction s) auto

lemma length_decimal_scale: "length (decimal (10 ^ p)) = Suc p"
  using length_decimal_nat [of p "10 ^ p"] by (simp add: decimal_def nat_power_eq)

lemma scaled_precision_power: "p < 19 \<Longrightarrow> scaled_precision p = Inr (10 ^ p)"
proof -
  assume p: "p < 19"
  have "list_all (\<lambda>p. scaled_precision_lut ! p = 10 ^ p) [0..<19]" by code_simp
  then show ?thesis using p by (simp add: scaled_precision_def assertE_def list_all_iff)
qed

lemma scale_loop:
  assumes "fc_contract E" and "n < 19"
  shows "foldE (\<lambda>_ scaled. safe_mul E scaled 10) [0..<n] 1 = Inr (10 ^ n)"
  using assms(2)
proof (induction n)
  case (Suc n)
  have "(10 :: int) ^ Suc n \<le> 10 ^ 18" by (rule power_increasing) (use Suc.prems in simp_all)
  then have "(10 :: int) * 10 ^ n < 2 ^ 63" by simp
  moreover have "- (2 ^ 63) \<le> (10 :: int) * 10 ^ n" by (rule order_trans [of _ 0]) simp_all
  ultimately have "fc_int64 (10 * 10 ^ n)" by (simp only: fc_int64_def)
  then have "fc_safe E (10 * 10 ^ n)" using fc_contract_safe [OF assms(1)] by blast
  then show ?case using Suc by (simp add: foldE_append safe_mul_def mult.commute)
qed simp

lemma printed_amount:
  assumes E: "fc_contract E" and F: "\<And>x. fc_int64 x \<Longrightarrow> F x = decimal x" and p: "asset_precision a < 19" and x: "0 \<le> x" "x < 2 ^ 62"
  defines "n \<equiv> nat x div 10 ^ asset_precision a" and "d \<equiv> nat x mod 10 ^ asset_precision a"
  shows "amount_to_string E F a x = Inr (decimal_nat n @
    (if d \<noteq> 0 then CHR ''.'' # drop 1 (decimal_nat (10 ^ asset_precision a + d)) else []))"
proof -
  let ?s = "10 ^ asset_precision a :: int"
  have s: "?s \<le> 10 ^ 18" by (rule power_increasing) (use p in simp_all)
  have dv: "x sdiv ?s = int n" "x smod ?s = int d"
    using x by (simp_all add: n_def d_def signed_divide_int_def signed_modulo_int_def zdiv_int zmod_int sgn_if)
  have "n \<le> nat x" by (simp add: n_def)
  then have "int n \<le> x" using x by simp
  moreover have "int d < ?s" unfolding d_def by (simp add: zmod_int)
  ultimately have "fc_int64 (int n)" "fc_int64 (?s + int d)" using x s unfolding fc_int64_def by (simp_all del: of_nat_less_numeral_power_cancel_iff)
  moreover have "\<not> ?s + int d < 0" using zero_le_power [of "10 :: int" "asset_precision a"] by linarith
  ultimately have "F (int n) = decimal_nat n" "F (?s + int d) = decimal_nat (10 ^ asset_precision a + d)"
    using F [of "int n"] F [of "?s + int d"] by (simp_all add: decimal_def nat_add_distrib nat_power_eq)
  then show ?thesis using scale_loop [OF E p] by (simp add: amount_to_string_def dv Let_def)
qed

text \<open>
  An amount that is not negative and not above the maximal supply, printed with the decimals of
  its asset, is read back as the same amount, for every number of decimals that the printer can
  scale; in particular both functions return.
\<close>

theorem amount_string_roundtrip:
  assumes E: "fc_contract E" and F: "\<And>x. fc_int64 x \<Longrightarrow> F x = decimal x"
    and p: "asset_precision a < 19" and x: "0 \<le> x" "x \<le> GRAPHENE_MAX_SHARE_SUPPLY"
  shows "\<exists>s. amount_to_string E F a x = Inr s \<and> amount_from_string E i a s = Inr (mk_asset x i)"
proof -
  let ?p = "asset_precision a"
  define n where "n = nat x div 10 ^ ?p"
  define d where "d = nat x mod 10 ^ ?p"
  define w where "w = drop 1 (decimal_nat (10 ^ ?p + d))"
  have x62: "x < 2 ^ 62" using x by (simp add: GRAPHENE_MAX_SHARE_SUPPLY_def)
  note out = printed_amount [OF E F p x(1) x62, folded n_def d_def, folded w_def]
  have d: "d < 10 ^ ?p" by (simp add: d_def)
  note w = decimal_fraction [OF d, folded w_def]
  note dn = decimal_nat_digits [of n]
  have "n * 10 ^ ?p + d = nat x" unfolding n_def d_def by (rule div_mult_mod_eq)
  then have xs: "x = int n * 10 ^ ?p + int d" using x(1) by (metis int_nat_eq of_nat_add of_nat_mult of_nat_numeral of_nat_power)
  have n: "int n * 1 \<le> int n * 10 ^ ?p" by (rule mult_left_mono) simp_all
  have l: "stoll (decimal_nat n) = Inr (int n)" using stoll_digits [of "decimal_nat n"] dn xs n x62 by simp
  have r: "stoll w = Inr (int d)" if "w \<noteq> []" using stoll_digits [OF w(2) that] w(3) xs n x62 by simp
  have f: "fc_safe E (int n * 10 ^ ?p)" "fc_safe E x" using fc_contract_safe [OF E] x x62 xs n by (auto simp: fc_int64_def)
  show ?thesis
  proof (cases "d = 0")
    case True
    have "amount_from_string E i a (decimal_nat n) = Inr (mk_asset x i)"
      using dn amount_chars_digits [of "decimal_nat n" "[]" False False] no_point [of "decimal_nat n" "[]"] f x xs True
      by (simp add: amount_from_string_def scaled_precision_power [OF p] l safe_mul_def safe_add_def assertE_def
          del: takeWhile_eq_all_conv)
    then show ?thesis using out True by simp
  next
    case False
    then have "w \<noteq> []" using w(3) by fastforce
    then have wn: "w \<noteq> []" "0 < ?p" using w(1) by (auto simp flip: length_greater_0_conv)
    have "amount_from_string E i a (decimal_nat n @ CHR ''.'' # w) = Inr (mk_asset x i)"
      using dn amount_chars_digits [of "decimal_nat n" "CHR ''.'' # w" False False] amount_chars_digits [OF w(2), of "[]" False True]
        no_point [of "decimal_nat n" "CHR ''.'' # w"] f x xs w(1) wn r [OF wn(1)]
      by (simp add: amount_from_string_def scaled_precision_power [OF p] l length_decimal_scale safe_mul_def safe_add_def assertE_def Let_def)
    then show ?thesis using out False by simp
  qed
qed

theorem amount_string_roundtrip_witness:
  "\<exists>s. amount_to_string fc_std decimal (example_core_asset\<lparr>asset_precision := 3\<rparr>) 12050 = Inr s \<and>
     amount_from_string fc_std 0 (example_core_asset\<lparr>asset_precision := 3\<rparr>) s = Inr (mk_asset 12050 0)"
  by (rule amount_string_roundtrip [OF fc_std_contract]) (simp_all add: GRAPHENE_MAX_SHARE_SUPPLY_def)

text \<open>
  A negative amount loses its decimals: the remainder is negative, so the number whose first digit
  is dropped is too short. With one decimal, \<open>-1.5\<close> is printed as \<open>-1.\<close> and read as \<open>-1.0\<close>, and
  \<open>-0.5\<close> is printed as \<open>0.\<close>. A minus sign inside the text is accepted: \<open>5-3\<close> is read as \<open>3.0\<close>.
\<close>

lemma digit_chars: "digit_char 0 = CHR ''0''" "digit_char (Suc 0) = CHR ''1''" "digit_char 5 = CHR ''5''"
  by code_simp+

lemma negative_amount_text:
  assumes "asset_precision a = 1"
  shows "amount_to_string fc_std decimal a (- 15) = Inr ''-1.''" "amount_from_string fc_std 0 a ''-1.'' = Inr (mk_asset (- 10) 0)"
    "amount_to_string fc_std decimal a (- 5) = Inr ''0.''" "amount_from_string fc_std 0 a ''5-3'' = Inr (mk_asset 30 0)"
  using assms
  by (simp_all add: amount_to_string_def amount_from_string_def scaled_precision_def scaled_precision_lut_def assertE_def safe_mul_def safe_add_def
      fc_int64_def decimal_def decimal_nat.simps digit_chars stoll_def isdigit_def value_of_digits_def digit_value_def
      signed_divide_int_def signed_modulo_int_def GRAPHENE_MAX_SHARE_SUPPLY_def)

end
