(* ===== verification/Asset_Evaluators.thy ===== *)
theory Asset_Evaluators
  imports Market_Evaluators Settlement Asset_Objects
begin

text \<open>
  The evaluators of assets (\<open>libraries/chain/asset_evaluator.cpp\<close>): creating and changing assets,
  issuing and reserving shares, fee pools, price feeds, forced and global settlement.

  All but one are run by the frame of \<open>Market_Evaluators\<close> with the default payment of the fee. The
  evaluator of new assets changes the fee between its check and its application, so it has a
  frame of its own. \<open>None\<close> stands for a computation of a squeeze price that does not return.
\<close>

definition HARDFORK_385_TIME :: time_point_sec where "HARDFORK_385_TIME = 1445558400"
definition HARDFORK_409_TIME :: time_point_sec where "HARDFORK_409_TIME = 1446652800"
definition HARDFORK_413_TIME :: time_point_sec where "HARDFORK_413_TIME = 1446652800"
definition HARDFORK_480_TIME :: time_point_sec where "HARDFORK_480_TIME = 1450378800"
definition HARDFORK_572_TIME :: time_point_sec where "HARDFORK_572_TIME = 1456250400"

definition can_force_settle :: "asset_object \<Rightarrow> bool" where
  "can_force_settle a \<longleftrightarrow> flag_and (asset_flags (asset_opts a)) disable_force_settle = 0"

definition can_global_settle :: "asset_object \<Rightarrow> bool" where
  "can_global_settle a \<longleftrightarrow> flag_and (issuer_permissions (asset_opts a)) global_settle \<noteq> 0"

definition asset_validate :: "asset_object \<Rightarrow> unit res" where
  "asset_validate a =
     (let f = asset_flags (asset_opts a); p = issuer_permissions (asset_opts a) in
      if is_market_issued a then Inr ()
      else
        bindE (assertE (flag_and f disable_force_settle = 0 \<and> flag_and f global_settle = 0) ''flags'') (\<lambda>_.
        assertE (flag_and p disable_force_settle = 0 \<and> flag_and p global_settle = 0) ''issuer_permissions''))"

definition accounts_exist :: "account_id_type list \<Rightarrow> 'z chain \<Rightarrow> unit res" where
  "accounts_exist ids st = foldE (\<lambda>i _. bindE (tbl_get (accounts (objects st)) i) (\<lambda>_. Inr ())) ids ()"

subsection \<open>New assets\<close>

definition find_symbol :: "'z chain \<Rightarrow> string \<Rightarrow> (nat \<times> asset_object) option" where
  "find_symbol st s = find (\<lambda>(i, a). asset_symbol a = s) (rows (assets (objects st)))"

definition before_first_dot :: "string \<Rightarrow> string option" where
  "before_first_dot s = (if CHR ''.'' \<in> set s then Some (takeWhile (\<lambda>c. c \<noteq> CHR ''.'') s) else None)"

definition before_last_dot :: "string \<Rightarrow> string option" where
  "before_last_dot s = (if CHR ''.'' \<in> set s then Some (rev (tl (dropWhile (\<lambda>c. c \<noteq> CHR ''.'') (rev s)))) else None)"

definition issuer_owns :: "account_id_type \<Rightarrow> (nat \<times> asset_object) option \<Rightarrow> unit res" where
  "issuer_owns issuer parent =
     (case parent of
        None \<Rightarrow> throwE (Assert_exception ''has not been registered'')
      | Some (i, a) \<Rightarrow> assertE (asset_issuer a = issuer) ''may only be created by issuer'')"

text \<open>Until hard fork 409 the code looks for the whole symbol instead of its prefix.\<close>

definition check_sub_asset :: "account_id_type \<Rightarrow> string \<Rightarrow> 'z chain \<Rightarrow> unit res" where
  "check_sub_asset issuer s st =
     (let now = head_block_time st in
      if HARDFORK_385_TIME < now then
        if now \<le> HARDFORK_409_TIME
        then (case before_first_dot s of None \<Rightarrow> Inr () | Some _ \<Rightarrow> issuer_owns issuer (find_symbol st s))
        else (case before_last_dot s of None \<Rightarrow> Inr () | Some parent \<Rightarrow> issuer_owns issuer (find_symbol st parent))
      else Inr ())"

definition check_new_backing :: "account_id_type \<Rightarrow> bitasset_options \<Rightarrow> 'z chain \<Rightarrow> unit res" where
  "check_new_backing issuer opts st =
     bindE (tbl_get (assets (objects st)) (short_backing_asset opts)) (\<lambda>backing.
     bindE (if is_market_issued backing then
              bindE (bitasset_of backing st) (\<lambda>(k, backing_bitasset).
              let j = short_backing_asset (bit_options backing_bitasset) in
              bindE (tbl_get (assets (objects st)) j) (\<lambda>backing_backing.
              bindE (assertE (\<not> is_market_issued backing_backing) ''May not create a bitasset backed by a bitasset backed by a bitasset.'') (\<lambda>_.
              assertE (issuer \<noteq> GRAPHENE_COMMITTEE_ACCOUNT \<or> j = 0) ''not backed by CORE'')))
            else assertE (issuer \<noteq> GRAPHENE_COMMITTEE_ACCOUNT \<or> short_backing_asset opts = 0) ''not backed by CORE'') (\<lambda>_.
     let b = block_interval (gpo_parameters (gpo st)) in
     assertE (b < feed_lifetime_sec opts \<and> b < force_settlement_delay_sec opts) ''block_interval''))"

definition check_list_authorities :: "asset_options \<Rightarrow> 'z chain \<Rightarrow> unit res" where
  "check_list_authorities opts st =
     (let n = maximum_asset_whitelist_authorities (gpo_parameters (gpo st)) in
      bindE (assertE (length (whitelist_authorities opts) \<le> n) ''whitelist_authorities.size()'') (\<lambda>_.
      bindE (assertE (length (blacklist_authorities opts) \<le> n) ''blacklist_authorities.size()'') (\<lambda>_.
      bindE (accounts_exist (whitelist_authorities opts) st) (\<lambda>_.
      accounts_exist (blacklist_authorities opts) st))))"

definition asset_create_do_evaluate :: "asset_create_operation \<Rightarrow> 'z chain \<Rightarrow> unit res" where
  "asset_create_do_evaluate x st =
     bindE (check_list_authorities (common_options x) st) (\<lambda>_.
     bindE (assertE (find_symbol st (symbol x) = None) ''asset_symbol_itr == asset_indx.end()'') (\<lambda>_.
     bindE (check_sub_asset (acr_issuer x) (symbol x) st) (\<lambda>_.
     bindE (whenE (bitasset_opts x) (\<lambda>opts. check_new_backing (acr_issuer x) opts st)) (\<lambda>_.
     if asset_create_operation.is_prediction_market x then
       bindE (assertE (bitasset_opts x \<noteq> None) ''op.bitasset_opts'') (\<lambda>_.
       whenE (bitasset_opts x) (\<lambda>opts.
         bindE (tbl_get (assets (objects st)) (short_backing_asset opts)) (\<lambda>backing.
         assertE (precision x = asset_precision backing) ''op.precision'')))
     else Inr ()))))"

text \<open>Half of the fee, rounded up, is what the rest of the evaluation takes for the whole fee.\<close>

definition halve_fee :: "'e fc_env_scheme \<Rightarrow> fee_state \<Rightarrow> fee_state res" where
  "halve_fee E fs =
     bindE (safe_sub E (core_fee_paid fs) (core_fee_paid fs sdiv 2)) (\<lambda>c. Inr (fs\<lparr>core_fee_paid := c\<rparr>))"

definition create_dynamic_data :: "int \<Rightarrow> 'z chain \<Rightarrow> nat \<times> 'z chain" where
  "create_dynamic_data pool st =
     (let (i, t) = tbl_create \<lparr>current_supply = 0, confidential_supply = 0, accumulated_fees = 0, fee_pool = pool\<rparr>
                     (asset_dynamic (objects st))
      in (i, st\<lparr>objects := objects st\<lparr>asset_dynamic := t\<rparr>\<rparr>))"

definition new_bitasset :: "asset_create_operation \<Rightarrow> bitasset_options \<Rightarrow> asset_bitasset_data_object" where
  "new_bitasset x opts = \<lparr>bit_options = opts, feeds = [], current_feed = default_price_feed, current_feed_publication_time = 0,
     is_prediction_market = asset_create_operation.is_prediction_market x, force_settled_volume = 0,
     bit_settlement_price = null_price, settlement_fund = 0\<rparr>"

definition create_bitasset :: "asset_create_operation \<Rightarrow> 'z chain \<Rightarrow> nat option \<times> 'z chain" where
  "create_bitasset x st =
     (case bitasset_opts x of
        None \<Rightarrow> (None, st)
      | Some opts \<Rightarrow>
          let (i, t) = tbl_create (new_bitasset x opts) (bitassets (objects st))
          in (Some i, st\<lparr>objects := objects st\<lparr>bitassets := t\<rparr>\<rparr>))"

text \<open>The side of the exchange rate that is not core names the new asset.\<close>

definition name_in_rate :: "asset_id_type \<Rightarrow> asset_options \<Rightarrow> asset_options" where
  "name_in_rate i opts =
     (let r = core_exchange_rate_opt opts in
      opts\<lparr>core_exchange_rate_opt :=
        (if asset_id (base r) = 0 then r\<lparr>quote := (quote r)\<lparr>asset_id := i\<rparr>\<rparr> else r\<lparr>base := (base r)\<lparr>asset_id := i\<rparr>\<rparr>)\<rparr>)"

definition new_asset :: "asset_create_operation \<Rightarrow> nat \<Rightarrow> nat \<Rightarrow> nat option \<Rightarrow> asset_object" where
  "new_asset x next_asset_id dyn mia =
     \<lparr>asset_symbol = symbol x, asset_precision = precision x, asset_issuer = acr_issuer x,
      asset_opts = name_in_rate next_asset_id (common_options x), dynamic_asset_data_id = dyn,
      bitasset_data_id = mia, buyback_account = None\<rparr>"

definition asset_create_do_apply :: "asset_create_operation \<Rightarrow> int \<Rightarrow> 'z chain \<Rightarrow> ('z chain \<times> operation_result) res" where
  "asset_create_do_apply x core_fee st =
     (let (dyn, st) = create_dynamic_data core_fee st;
          (mia, st) = create_bitasset x st;
          (i, t) = tbl_create (new_asset x (next_instance (assets (objects st))) dyn mia) (assets (objects st))
      in Inr (st\<lparr>objects := objects st\<lparr>assets := t\<rparr>\<rparr>, Object_result i))"

text \<open>
  The fee is halved in the middle of \<open>do_evaluate\<close>. Nothing later in that function reads it, so
  that halving it at the end differs in the order of exceptions only.
\<close>

definition asset_create_start_evaluate ::
    "'e fee_env_scheme \<Rightarrow> pack_env \<Rightarrow> transaction_evaluation_state \<Rightarrow> asset_create_operation \<Rightarrow> bool \<Rightarrow>
     'z chain \<Rightarrow> ('z chain \<times> operation_result) res option" where
  "asset_create_start_evaluate E P ts x apply st =
     bindO (evaluate_op E P ts (Asset_create_op x) (acr_issuer x) (fee x) (asset_create_do_evaluate x) st) (\<lambda>fs.
     bindO (Some (halve_fee E fs)) (\<lambda>fs.
     Some (if apply then apply_op E ts (acr_issuer x) fs (asset_create_do_apply x (core_fee_paid fs)) st else Inr (st, Void_result))))"

subsection \<open>Issuing and reserving\<close>

definition asset_issue_do_evaluate :: "'e fc_env_scheme \<Rightarrow> asset_issue_operation \<Rightarrow> 'z chain \<Rightarrow> unit res" where
  "asset_issue_do_evaluate E x st =
     (let i = asset_id (asset_to_issue x) in
      bindE (tbl_get (assets (objects st)) i) (\<lambda>a.
      bindE (assertE (issue_issuer x = asset_issuer a) ''o.issuer == a.issuer'') (\<lambda>_.
      bindE (assertE (\<not> is_market_issued a) ''Cannot manually issue a market-issued asset.'') (\<lambda>_.
      bindE (tbl_get (accounts (objects st)) (issue_to_account x)) (\<lambda>to_account.
      bindE (assertE (is_authorized_asset (head_block_time st) to_account i a) ''is_authorized_asset'') (\<lambda>_.
      bindE (tbl_get (asset_dynamic (objects st)) (dynamic_asset_data_id a)) (\<lambda>dyn.
      bindE (safe_add E (current_supply dyn) (amount (asset_to_issue x))) (\<lambda>s.
      assertE (s \<le> max_supply (asset_opts a)) ''max_supply''))))))))"

definition change_asset_supply :: "'e fc_env_scheme \<Rightarrow> asset_id_type \<Rightarrow> int \<Rightarrow> 'z chain \<Rightarrow> 'z chain res" where
  "change_asset_supply E i x st =
     bindE (tbl_get (assets (objects st)) i) (\<lambda>a.
     modify_dynamic (dynamic_asset_data_id a)
       (\<lambda>d. bindE (safe_add E (current_supply d) x) (\<lambda>s. Inr (d\<lparr>current_supply := s\<rparr>))) st)"

definition asset_issue_do_apply :: "'e fc_env_scheme \<Rightarrow> asset_issue_operation \<Rightarrow> 'z chain \<Rightarrow> ('z chain \<times> operation_result) res" where
  "asset_issue_do_apply E x st =
     bindE (adjust_balance E (issue_to_account x) (asset_to_issue x) st) (\<lambda>st.
     bindE (change_asset_supply E (asset_id (asset_to_issue x)) (amount (asset_to_issue x)) st) (\<lambda>st.
     Inr (st, Void_result)))"

definition asset_reserve_do_evaluate :: "'e fc_env_scheme \<Rightarrow> asset_reserve_operation \<Rightarrow> 'z chain \<Rightarrow> unit res" where
  "asset_reserve_do_evaluate E x st =
     (let i = asset_id (amount_to_reserve x) in
      bindE (tbl_get (assets (objects st)) i) (\<lambda>a.
      bindE (assertE (\<not> is_market_issued a) ''asset_reserve_invalid_on_mia'') (\<lambda>_.
      bindE (tbl_get (accounts (objects st)) (reserve_payer x)) (\<lambda>from_account.
      bindE (assertE (is_authorized_asset (head_block_time st) from_account i a) ''is_authorized_asset'') (\<lambda>_.
      bindE (tbl_get (asset_dynamic (objects st)) (dynamic_asset_data_id a)) (\<lambda>dyn.
      bindE (safe_sub E (current_supply dyn) (amount (amount_to_reserve x))) (\<lambda>s.
      assertE (0 \<le> s) ''current_supply'')))))))"

definition asset_reserve_do_apply :: "'e fc_env_scheme \<Rightarrow> asset_reserve_operation \<Rightarrow> 'z chain \<Rightarrow> ('z chain \<times> operation_result) res" where
  "asset_reserve_do_apply E x st =
     bindE (asset_neg E (amount_to_reserve x)) (\<lambda>neg.
     bindE (adjust_balance E (reserve_payer x) neg st) (\<lambda>st.
     bindE (change_asset_supply E (asset_id (amount_to_reserve x)) (- amount (amount_to_reserve x)) st) (\<lambda>st.
     Inr (st, Void_result))))"

subsection \<open>Fee pools and claimed fees\<close>

definition asset_fund_fee_pool_do_evaluate :: "asset_fund_fee_pool_operation \<Rightarrow> 'z chain \<Rightarrow> unit res" where
  "asset_fund_fee_pool_do_evaluate x st =
     bindE (tbl_get (assets (objects st)) (ffp_asset_id x)) (\<lambda>a.
     bindE (tbl_get (asset_dynamic (objects st)) (dynamic_asset_data_id a)) (\<lambda>_. Inr ()))"

definition asset_fund_fee_pool_do_apply ::
    "'e fc_env_scheme \<Rightarrow> asset_fund_fee_pool_operation \<Rightarrow> 'z chain \<Rightarrow> ('z chain \<times> operation_result) res" where
  "asset_fund_fee_pool_do_apply E x st =
     bindE (asset_neg E (mk_asset (ffp_amount x) 0)) (\<lambda>neg.
     bindE (adjust_balance E (from_account x) neg st) (\<lambda>st.
     bindE (tbl_get (assets (objects st)) (ffp_asset_id x)) (\<lambda>a.
     bindE (modify_dynamic (dynamic_asset_data_id a)
              (\<lambda>d. bindE (safe_add E (fee_pool d) (ffp_amount x)) (\<lambda>p. Inr (d\<lparr>fee_pool := p\<rparr>))) st) (\<lambda>st.
     Inr (st, Void_result)))))"

definition asset_claim_fees_do_evaluate :: "asset_claim_fees_operation \<Rightarrow> 'z chain \<Rightarrow> unit res" where
  "asset_claim_fees_do_evaluate x st =
     bindE (assertE (HARDFORK_413_TIME < head_block_time st) ''HARDFORK_413_TIME'') (\<lambda>_.
     bindE (tbl_get (assets (objects st)) (asset_id (amount_to_claim x))) (\<lambda>a.
     assertE (asset_issuer a = acf_issuer x) ''Asset fees may only be claimed by the issuer''))"

definition asset_claim_fees_do_apply ::
    "'e fc_env_scheme \<Rightarrow> asset_claim_fees_operation \<Rightarrow> 'z chain \<Rightarrow> ('z chain \<times> operation_result) res" where
  "asset_claim_fees_do_apply E x st =
     bindE (tbl_get (assets (objects st)) (asset_id (amount_to_claim x))) (\<lambda>a.
     bindE (tbl_get (asset_dynamic (objects st)) (dynamic_asset_data_id a)) (\<lambda>dyn.
     bindE (assertE (amount (amount_to_claim x) \<le> accumulated_fees dyn) ''Attempt to claim more fees than have accumulated'') (\<lambda>_.
     bindE (modify_dynamic (dynamic_asset_data_id a)
              (\<lambda>d. bindE (safe_sub E (accumulated_fees d) (amount (amount_to_claim x))) (\<lambda>f. Inr (d\<lparr>accumulated_fees := f\<rparr>))) st) (\<lambda>st.
     bindE (adjust_balance E (acf_issuer x) (amount_to_claim x) st) (\<lambda>st.
     Inr (st, Void_result))))))"

subsection \<open>Changing an asset\<close>

definition check_core_backing :: "asset_object \<Rightarrow> 'z chain \<Rightarrow> unit res" where
  "check_core_backing a st =
     bindE (bitasset_of a st) (\<lambda>(k, b).
     let i = short_backing_asset (bit_options b) in
     bindE (tbl_get (assets (objects st)) i) (\<lambda>backing.
     if is_market_issued backing then
       bindE (bitasset_of backing st) (\<lambda>(k, bb).
       let j = short_backing_asset (bit_options bb) in
       bindE (tbl_get (assets (objects st)) j) (\<lambda>_. assertE (j = 0) ''not backed by CORE''))
     else assertE (i = 0) ''not backed by CORE''))"

definition asset_update_do_evaluate :: "asset_update_operation \<Rightarrow> 'z chain \<Rightarrow> unit res" where
  "asset_update_do_evaluate x st =
     (let new = aup_new_options x; n = maximum_asset_whitelist_authorities (gpo_parameters (gpo st)) in
      bindE (tbl_get (assets (objects st)) (asset_to_update x)) (\<lambda>a.
      bindE (asset_validate (a\<lparr>asset_opts := new\<rparr>)) (\<lambda>_.
      bindE (whenE (new_issuer x) (\<lambda>i.
         bindE (assertE (tbl_find (accounts (objects st)) i \<noteq> None) ''d.find_object(*o.new_issuer)'') (\<lambda>_.
         if is_market_issued a \<and> i = GRAPHENE_COMMITTEE_ACCOUNT then check_core_backing a st else Inr ()))) (\<lambda>_.
      bindE (tbl_get (asset_dynamic (objects st)) (dynamic_asset_data_id a)) (\<lambda>dyn.
      bindE (if head_block_time st < HARDFORK_572_TIME \<or> current_supply dyn \<noteq> 0
             then assertE (issuer_permissions new AND NOT (issuer_permissions (asset_opts a)) = 0)
                    ''Cannot reinstate previously revoked issuer permissions on an asset.''
             else Inr ()) (\<lambda>_.
      bindE (assertE ((asset_flags new XOR asset_flags (asset_opts a)) AND NOT (issuer_permissions (asset_opts a)) = 0)
               ''Flag change is forbidden by issuer permissions'') (\<lambda>_.
      bindE (assertE (aup_issuer x = asset_issuer a) ''o.issuer == a.issuer'') (\<lambda>_.
      bindE (assertE (length (whitelist_authorities new) \<le> n) ''whitelist_authorities.size()'') (\<lambda>_.
      bindE (accounts_exist (whitelist_authorities new) st) (\<lambda>_.
      bindE (assertE (length (blacklist_authorities new) \<le> n) ''blacklist_authorities.size()'') (\<lambda>_.
      accounts_exist (blacklist_authorities new) st)))))))))))"

text \<open>The requests for an asset, by date and identifier, as in the index \<open>by_expiration\<close>.\<close>

definition settlement_index :: "'z ledger_scheme \<Rightarrow> (nat \<times> force_settlement_object) list" where
  "settlement_index L = index_by (\<lambda>(i, s) (j, t).
     asset_id (settle_balance s) < asset_id (settle_balance t) \<or>
     asset_id (settle_balance s) = asset_id (settle_balance t) \<and>
       (settlement_date s < settlement_date t \<or> settlement_date s = settlement_date t \<and> i < j)) (rows (force_settlements L))"

definition settlements_of :: "asset_id_type \<Rightarrow> 'z chain \<Rightarrow> nat list" where
  "settlements_of a st = map fst (filter (\<lambda>(i, s). asset_id (settle_balance s) = a) (settlement_index (objects st)))"

definition modify_asset :: "nat \<Rightarrow> (asset_object \<Rightarrow> asset_object res) \<Rightarrow> 'z chain \<Rightarrow> 'z chain res" where
  "modify_asset i f = on_ledger (\<lambda>L. bindE (tbl_modify i f (assets L)) (\<lambda>t. Inr (L\<lparr>assets := t\<rparr>)))"

definition asset_update_do_apply :: "'e fc_env_scheme \<Rightarrow> asset_update_operation \<Rightarrow> 'z chain \<Rightarrow> ('z chain \<times> operation_result) res" where
  "asset_update_do_apply E x st =
     bindE (tbl_get (assets (objects st)) (asset_to_update x)) (\<lambda>a.
     bindE (if flag_and (asset_flags (aup_new_options x)) disable_force_settle \<noteq> 0 \<and> can_force_settle a
            then foldE (\<lambda>i st. cancel_settlement E i True st) (settlements_of (asset_to_update x) st) st
            else Inr st) (\<lambda>st.
     bindE (modify_asset (asset_to_update x)
              (\<lambda>a. Inr (a\<lparr>asset_issuer := (case new_issuer x of None \<Rightarrow> asset_issuer a | Some i \<Rightarrow> i), asset_opts := aup_new_options x\<rparr>)) st) (\<lambda>st.
     Inr (st, Void_result))))"

text \<open>The check looks at the old backing asset, not at the new one.\<close>

definition asset_update_bitasset_do_evaluate :: "asset_update_bitasset_operation \<Rightarrow> 'z chain \<Rightarrow> unit res" where
  "asset_update_bitasset_do_evaluate x st =
     bindE (tbl_get (assets (objects st)) (aub_asset_to_update x)) (\<lambda>a.
     bindE (assertE (is_market_issued a) ''Cannot update BitAsset-specific settings on a non-BitAsset.'') (\<lambda>_.
     bindE (bitasset_of a st) (\<lambda>(k, b).
     bindE (assertE (\<not> has_settlement b) ''Cannot update a bitasset after a settlement has executed'') (\<lambda>_.
     bindE (if short_backing_asset (aub_new_options x) \<noteq> short_backing_asset (bit_options b) then
              bindE (tbl_get (asset_dynamic (objects st)) (dynamic_asset_data_id a)) (\<lambda>dyn.
              bindE (assertE (current_supply dyn = 0) ''current_supply == 0'') (\<lambda>_.
              bindE (assertE (tbl_find (assets (objects st)) (short_backing_asset (aub_new_options x)) \<noteq> None) ''short_backing_asset'') (\<lambda>_.
              if asset_issuer a = GRAPHENE_COMMITTEE_ACCOUNT then check_core_backing a st else Inr ())))
            else Inr ()) (\<lambda>_.
     assertE (aub_issuer x = asset_issuer a) ''o.issuer == a.issuer'')))))"

definition asset_update_bitasset_do_apply ::
    "nth_element \<Rightarrow> asset_update_bitasset_operation \<Rightarrow> 'z chain \<Rightarrow> ('z chain \<times> operation_result) res" where
  "asset_update_bitasset_do_apply ne x st =
     bindE (tbl_get (assets (objects st)) (aub_asset_to_update x)) (\<lambda>a.
     bindE (bitasset_of a st) (\<lambda>(k, b).
     let should_update_feeds = (minimum_feeds (aub_new_options x) \<noteq> minimum_feeds (bit_options b)) in
     bindE (modify_bitasset k (\<lambda>b.
        let b = b\<lparr>bit_options := aub_new_options x\<rparr> in
        if should_update_feeds then update_median_feeds ne (head_block_time st) b else Inr b) st) (\<lambda>st.
     Inr (st, Void_result))))"

subsection \<open>Price feeds\<close>

definition asset_update_feed_producers_do_evaluate :: "asset_update_feed_producers_operation \<Rightarrow> 'z chain \<Rightarrow> unit res" where
  "asset_update_feed_producers_do_evaluate x st =
     bindE (assertE (length (new_feed_producers x) \<le> maximum_asset_feed_publishers (gpo_parameters (gpo st))) ''new_feed_producers.size()'') (\<lambda>_.
     bindE (accounts_exist (new_feed_producers x) st) (\<lambda>_.
     bindE (tbl_get (assets (objects st)) (afp_asset_to_update x)) (\<lambda>a.
     bindE (assertE (is_market_issued a) ''Cannot update feed producers on a non-BitAsset.'') (\<lambda>_.
     bindE (assertE (flag_and (asset_flags (asset_opts a)) committee_fed_asset = 0) ''Cannot set feed producers on a committee-fed asset.'') (\<lambda>_.
     bindE (assertE (flag_and (asset_flags (asset_opts a)) witness_fed_asset = 0) ''Cannot set feed producers on a witness-fed asset.'') (\<lambda>_.
     bindE (bitasset_of a st) (\<lambda>_.
     assertE (asset_issuer a = afp_issuer x) ''a.issuer == o.issuer'')))))))"

definition set_feed_producers ::
    "account_id_type list \<Rightarrow> (account_id_type \<times> time_point_sec \<times> price_feed) list \<Rightarrow> (account_id_type \<times> time_point_sec \<times> price_feed) list" where
  "set_feed_producers producers fs =
     fold (\<lambda>i m. if map_of m i = None then fm_insert i (0, default_price_feed) m else m) producers
       (filter (\<lambda>(i, _). i \<in> set producers) fs)"

definition asset_update_feed_producers_do_apply ::
    "nth_element \<Rightarrow> 'e market_env_scheme \<Rightarrow> asset_update_feed_producers_operation \<Rightarrow> 'z chain \<Rightarrow> ('z chain \<times> operation_result) res option" where
  "asset_update_feed_producers_do_apply ne E x st =
     bindO (Some (tbl_get (assets (objects st)) (afp_asset_to_update x))) (\<lambda>a.
     bindO (Some (bitasset_of a st)) (\<lambda>(k, b).
     bindO (Some (modify_bitasset k (\<lambda>b.
        update_median_feeds ne (head_block_time st) (b\<lparr>feeds := set_feed_producers (new_feed_producers x) (feeds b)\<rparr>)) st)) (\<lambda>st.
     bindO (check_call_orders E (afp_asset_to_update x) a True st) (\<lambda>(st, called).
     Some (Inr (st, Void_result))))))"

definition may_publish :: "asset_publish_feed_operation \<Rightarrow> asset_object \<Rightarrow> asset_bitasset_data_object \<Rightarrow> 'z chain \<Rightarrow> unit res" where
  "may_publish x a b st =
     (let by = (\<lambda>i. bindE (tbl_get (accounts (objects st)) i) (\<lambda>acct.
                  assertE (map_of (account_auths (acct_active acct)) (publisher x) \<noteq> None) ''publisher'')) in
      if flag_and (asset_flags (asset_opts a)) witness_fed_asset \<noteq> 0 then by GRAPHENE_WITNESS_ACCOUNT
      else if flag_and (asset_flags (asset_opts a)) committee_fed_asset \<noteq> 0 then by GRAPHENE_COMMITTEE_ACCOUNT
      else assertE (map_of (feeds b) (publisher x) \<noteq> None) ''bitasset.feeds.count(o.publisher)'')"

definition asset_publish_feed_do_evaluate :: "asset_publish_feed_operation \<Rightarrow> 'z chain \<Rightarrow> unit res" where
  "asset_publish_feed_do_evaluate x st =
     (let sp = settlement_price (feed x); cer = core_exchange_rate (feed x) in
      bindE (tbl_get (assets (objects st)) (apf_asset_id x)) (\<lambda>a.
      bindE (assertE (is_market_issued a) ''base.is_market_issued()'') (\<lambda>_.
      bindE (bitasset_of a st) (\<lambda>(k, b).
      bindE (assertE (\<not> has_settlement b) ''No further feeds may be published after a settlement event'') (\<lambda>_.
      bindE (assertE (asset_id (quote sp) = short_backing_asset (bit_options b)) ''short_backing_asset'') (\<lambda>_.
      bindE (if HARDFORK_480_TIME < head_block_time st
             then (if \<not> price_is_null cer then assertE (asset_id (quote cer) = 0) ''core_exchange_rate'' else Inr ())
             else if \<not> price_is_null sp \<and> \<not> price_is_null cer
                  then assertE (asset_id (quote sp) = asset_id (quote cer)) ''core_exchange_rate'' else Inr ()) (\<lambda>_.
      may_publish x a b st)))))))"

definition asset_publish_feed_do_apply ::
    "nth_element \<Rightarrow> 'e market_env_scheme \<Rightarrow> asset_publish_feed_operation \<Rightarrow> 'z chain \<Rightarrow> ('z chain \<times> operation_result) res option" where
  "asset_publish_feed_do_apply ne E x st =
     bindO (Some (tbl_get (assets (objects st)) (apf_asset_id x))) (\<lambda>a.
     bindO (Some (bitasset_of a st)) (\<lambda>(k, b).
     let old_feed = current_feed b; now = head_block_time st in
     bindO (Some (modify_bitasset k (\<lambda>b.
        update_median_feeds ne now (b\<lparr>feeds := fm_insert (publisher x) (now, feed x) (feeds b)\<rparr>)) st)) (\<lambda>st.
     bindO (Some (bitasset_of a st)) (\<lambda>(k, b).
     if price_feed_eq old_feed (current_feed b) then Some (Inr (st, Void_result))
     else bindO (check_call_orders E (apf_asset_id x) a True st) (\<lambda>(st, called). Some (Inr (st, Void_result)))))))"

subsection \<open>Settlement\<close>

definition collateral_key :: "call_order_object \<Rightarrow> price" where
  "collateral_key c = mk_price (get_collateral c) (get_debt c)"

definition call_collateral_index :: "'z ledger_scheme \<Rightarrow> (nat \<times> call_order_object) list" where
  "call_collateral_index L = index_by (\<lambda>(i, x) (j, y). price_less (collateral_key x) (collateral_key y) \<or>
     (\<not> price_less (collateral_key y) (collateral_key x) \<and> i < j)) (rows (call_orders L))"

definition least_collateralized :: "asset_id_type \<Rightarrow> asset_id_type \<Rightarrow> 'z chain \<Rightarrow> (nat \<times> call_order_object) res" where
  "least_collateralized backing mia st =
     bindE (price_min backing mia) (\<lambda>lo.
     case dropWhile (\<lambda>(i, c). price_less (collateral_key c) lo) (call_collateral_index (objects st)) of
       [] \<Rightarrow> throwE Undefined_behaviour
     | (i, c) # _ \<Rightarrow> if asset_id (quote (co_call_price c)) = mia then Inr (i, c) else throwE Undefined_behaviour)"

definition asset_global_settle_do_evaluate :: "asset_global_settle_operation \<Rightarrow> 'z chain \<Rightarrow> unit res" where
  "asset_global_settle_do_evaluate x st =
     bindE (tbl_get (assets (objects st)) (asset_to_settle x)) (\<lambda>a.
     bindE (assertE (is_market_issued a) ''is_market_issued()'') (\<lambda>_.
     bindE (assertE (can_global_settle a) ''can_global_settle()'') (\<lambda>_.
     bindE (assertE (asset_issuer a = ags_issuer x) ''issuer'') (\<lambda>_.
     bindE (tbl_get (asset_dynamic (objects st)) (dynamic_asset_data_id a)) (\<lambda>dyn.
     bindE (assertE (0 < current_supply dyn) ''current_supply > 0'') (\<lambda>_.
     bindE (bitasset_of a st) (\<lambda>(k, b).
     bindE (least_collateralized (short_backing_asset (bit_options b)) (asset_to_settle x) st) (\<lambda>(i, c).
     bindE (asset_mult (get_debt c) (asset_global_settle_operation.settle_price x)) (\<lambda>cost.
     bindE (asset_le cost (get_collateral c)) (\<lambda>covered.
     assertE covered ''Cannot force settle at supplied price''))))))))))"

definition asset_global_settle_do_apply ::
    "'e fc_env_scheme \<Rightarrow> asset_global_settle_operation \<Rightarrow> 'z chain \<Rightarrow> ('z chain \<times> operation_result) res" where
  "asset_global_settle_do_apply E x st =
     bindE (tbl_get (assets (objects st)) (asset_to_settle x)) (\<lambda>a.
     bindE (globally_settle_asset E (asset_to_settle x) a (asset_global_settle_operation.settle_price x) st) (\<lambda>st.
     Inr (st, Void_result)))"

definition asset_settle_do_evaluate :: "asset_settle_operation \<Rightarrow> 'z chain \<Rightarrow> unit res" where
  "asset_settle_do_evaluate x st =
     (let i = asset_id (settle_amount x) in
      bindE (tbl_get (assets (objects st)) i) (\<lambda>a.
      bindE (assertE (is_market_issued a) ''is_market_issued()'') (\<lambda>_.
      bindE (bitasset_of a st) (\<lambda>(k, b).
      bindE (assertE (can_force_settle a \<or> has_settlement b) ''can_force_settle() || has_settlement()'') (\<lambda>_.
      bindE (if is_prediction_market b then assertE (has_settlement b) ''global settlement must occur before force settling a prediction market''
             else if price_is_null (settlement_price (current_feed b)) then throwE Insufficient_feeds else Inr ()) (\<lambda>_.
      bindE (tbl_get (accounts (objects st)) (settle_account x)) (\<lambda>_.
      bindE (asset_ge (get_balance st (settle_account x) i) (settle_amount x)) (\<lambda>enough.
      assertE enough ''d.get_balance(d.get(op.account), *asset_to_settle) >= op.amount''))))))))"

definition pay_from_fund ::
    "'e fc_env_scheme \<Rightarrow> asset_settle_operation \<Rightarrow> nat \<Rightarrow> asset_bitasset_data_object \<Rightarrow> 'z chain \<Rightarrow> ('z chain \<times> operation_result) res" where
  "pay_from_fund E x k b st =
     bindE (asset_mult (settle_amount x) (bit_settlement_price b)) (\<lambda>settled.
     bindE (assertE (amount settled \<le> settlement_fund b) ''settled_amount.amount <= bitasset.settlement_fund'') (\<lambda>_.
     bindE (modify_bitasset k (\<lambda>b.
        bindE (safe_sub E (settlement_fund b) (amount settled)) (\<lambda>f. Inr (b\<lparr>settlement_fund := f\<rparr>))) st) (\<lambda>st.
     bindE (adjust_balance E (settle_account x) settled st) (\<lambda>st.
     bindE (change_asset_supply E (asset_id (settle_amount x)) (- amount (settle_amount x)) st) (\<lambda>st.
     Inr (st, Asset_result settled))))))"

definition request_settlement :: "asset_settle_operation \<Rightarrow> asset_bitasset_data_object \<Rightarrow> 'z chain \<Rightarrow> 'z chain \<times> operation_result" where
  "request_settlement x b st =
     (let (i, t) = tbl_create \<lparr>settle_owner = settle_account x, settle_balance = settle_amount x,
                     settlement_date = (head_block_time st + force_settlement_delay_sec (bit_options b)) mod 2 ^ 32\<rparr>
                     (force_settlements (objects st))
      in (st\<lparr>objects := objects st\<lparr>force_settlements := t\<rparr>\<rparr>, Object_result i))"

definition asset_settle_do_apply :: "'e fc_env_scheme \<Rightarrow> asset_settle_operation \<Rightarrow> 'z chain \<Rightarrow> ('z chain \<times> operation_result) res" where
  "asset_settle_do_apply E x st =
     bindE (asset_neg E (settle_amount x)) (\<lambda>neg.
     bindE (adjust_balance E (settle_account x) neg st) (\<lambda>st.
     bindE (tbl_get (assets (objects st)) (asset_id (settle_amount x))) (\<lambda>a.
     bindE (bitasset_of a st) (\<lambda>(k, b).
     if has_settlement b then pay_from_fund E x k b st else Inr (request_settlement x b st)))))"

subsection \<open>Evaluators with the default payment\<close>

text \<open>
  An evaluator that overrides neither the payment of the fee nor anything else of the frame only
  has to conserve shares when it is applied.
\<close>

locale plain_evaluator =
  fixes E :: "'e fee_env_scheme"
    and do_evaluate :: "'z chain \<Rightarrow> unit res"
    and do_apply :: "'z chain \<Rightarrow> ('z chain \<times> operation_result) res option"
    and ready :: "'z chain \<Rightarrow> bool"
  assumes plain_trades: "do_evaluate st0 = Inr () \<Longrightarrow> ready st0 \<Longrightarrow> same_market (objects st0) (objects st) \<Longrightarrow>
      ledger_wf (objects st) \<Longrightarrow> market_ok (objects st) \<Longrightarrow> do_apply st = Some (Inr (st', r)) \<Longrightarrow> trades (\<lambda>_. 0) st (Inr st')"

sublocale plain_evaluator \<subseteq> paying_evaluator E do_evaluate "pay_fee_now E" "\<lambda>_. do_apply" ready
proof unfold_locales
  show "trades (only_core (core_fee_paid fs - deferred)) st (Inr st') \<and> same_market (objects st) (objects st')"
    if "\<not> skip_fee ts" "pay_fee_now E ts fs st = Inr (st', deferred)" for ts fs and st st' :: "'z chain" and deferred
    using pay_now_trades(1,2) [OF that] by blast
next
  fix ts fs and st0 st1 st st' :: "'z chain" and deferred r
  assume a: "do_evaluate st0 = Inr ()" "ready st0" "same_market (objects st0) (objects st)" and p: "pay_fee_now E ts fs st1 = Inr (st, deferred)"
    and b: "ledger_wf (objects st)" "market_ok (objects st)" "do_apply st = Some (Inr (st', r))"
  have "only_core deferred = (\<lambda>_. 0)" using p by (auto simp: pay_fee_now_def bindE_eq_Inr only_core_def)
  then show "trades (only_core deferred) st (Inr st')" using plain_trades [OF a b] by simp
qed

subsection \<open>Supply, pools and fees keep shares\<close>

lemma trades_asset_data:
  assumes ok: "modify_dynamic i f st = Inr st'"
    and f: "\<And>d d'. tbl_find (asset_dynamic (objects st)) i = Some d \<Longrightarrow> f d = Inr d' \<Longrightarrow>
      current_supply d' = current_supply d + s \<and> accumulated_fees d' = accumulated_fees d + c \<and> fee_pool d' = fee_pool d + p"
  shows "trades (\<lambda>a. (if a = i then c - s else 0) + (if a = 0 then p else 0)) st (Inr st')"
proof -
  have "moves (\<lambda>a. (if a = i then c - s else 0) + (if a = 0 then p else 0)) st (Inr st')"
    using moves_modify_dynamic [of st i f s c p] f unfolding ok by blast
  then show ?thesis by (rule trades_frame) (use same_market_modify(2) [OF ok] in simp)
qed

lemma change_asset_supply_trades:
  assumes ok: "change_asset_supply E i x st = Inr st'" and wf: "ledger_wf (objects st)"
  shows "trades (\<lambda>a. if a = i then - x else 0) st (Inr st')"
proof -
  obtain a where a: "tbl_find (assets (objects st)) i = Some a"
      and 1: "modify_dynamic (dynamic_asset_data_id a) (\<lambda>d. bindE (safe_add E (current_supply d) x) (\<lambda>s. Inr (d\<lparr>current_supply := s\<rparr>))) st = Inr st'"
    using ok by (auto simp: change_asset_supply_def bindE_eq_Inr tbl_get_Inr)
  show ?thesis
    using trades_dynamic [OF 1 [unfolded asset_row(1) [OF wf a]], of x] by (auto simp: res_simps)
qed

lemma balance_ledger_wf: "adjust_balance E i x st = Inr st' \<Longrightarrow> ledger_wf (objects st) \<Longrightarrow> ledger_wf (objects st')"
  using moves_result [OF moves_adjust_balance] by blast

lemma neg_trades: "asset_neg E x = Inr neg \<Longrightarrow> adjust_balance E i neg st = Inr st' \<Longrightarrow> trades (\<lambda>a. - amount_in a x) st (Inr st')"
  using trades_adjust [of E i neg st st'] by (auto simp: asset_neg_def res_simps amount_in_def mk_asset_def intro: trades_cong)

lemma asset_issue_trades:
  assumes ok: "asset_issue_do_apply E x st = Inr (st', r)" and wf: "ledger_wf (objects st)"
  shows "trades (\<lambda>_. 0) st (Inr st')"
proof -
  obtain st1 where 1: "adjust_balance E (issue_to_account x) (asset_to_issue x) st = Inr st1"
      and 2: "change_asset_supply E (asset_id (asset_to_issue x)) (amount (asset_to_issue x)) st1 = Inr st'"
    using ok by (auto simp: asset_issue_do_apply_def bindE_eq_Inr)
  show ?thesis
    by (rule trades_seq [OF trades_adjust [OF 1] change_asset_supply_trades [OF 2 balance_ledger_wf [OF 1 wf]]]) (simp add: amount_in_def)
qed

lemma asset_reserve_trades:
  assumes ok: "asset_reserve_do_apply E x st = Inr (st', r)" and wf: "ledger_wf (objects st)"
  shows "trades (\<lambda>_. 0) st (Inr st')"
proof -
  obtain neg st1 where n: "asset_neg E (amount_to_reserve x) = Inr neg" and 1: "adjust_balance E (reserve_payer x) neg st = Inr st1"
      and 2: "change_asset_supply E (asset_id (amount_to_reserve x)) (- amount (amount_to_reserve x)) st1 = Inr st'"
    using ok by (auto simp: asset_reserve_do_apply_def bindE_eq_Inr)
  show ?thesis
    by (rule trades_seq [OF neg_trades [OF n 1] change_asset_supply_trades [OF 2 balance_ledger_wf [OF 1 wf]]]) (simp add: amount_in_def)
qed

lemma asset_fund_fee_pool_trades:
  assumes ok: "asset_fund_fee_pool_do_apply E x st = Inr (st', r)"
  shows "trades (\<lambda>_. 0) st (Inr st')"
proof -
  obtain neg st1 and a :: asset_object where n: "asset_neg E (mk_asset (ffp_amount x) 0) = Inr neg"
      and 1: "adjust_balance E (from_account x) neg st = Inr st1"
      and 2: "modify_dynamic (dynamic_asset_data_id a) (\<lambda>d. bindE (safe_add E (fee_pool d) (ffp_amount x)) (\<lambda>p. Inr (d\<lparr>fee_pool := p\<rparr>))) st1 = Inr st'"
    using ok by (auto simp: asset_fund_fee_pool_do_apply_def bindE_eq_Inr)
  have "trades (\<lambda>y. (if y = dynamic_asset_data_id a then 0 - 0 else 0) + (if y = 0 then ffp_amount x else 0)) st1 (Inr st')"
    by (rule trades_asset_data [OF 2]) (auto simp: res_simps)
  then show ?thesis by (rule trades_seq [OF neg_trades [OF n 1]]) (simp add: amount_in_def mk_asset_def)
qed

lemma asset_claim_fees_trades:
  assumes ok: "asset_claim_fees_do_apply E x st = Inr (st', r)" and wf: "ledger_wf (objects st)"
  shows "trades (\<lambda>_. 0) st (Inr st')"
proof -
  let ?i = "asset_id (amount_to_claim x)" and ?m = "amount (amount_to_claim x)"
  obtain a st1 where a: "tbl_find (assets (objects st)) ?i = Some a"
      and 1: "modify_dynamic (dynamic_asset_data_id a) (\<lambda>d. bindE (safe_sub E (accumulated_fees d) ?m) (\<lambda>f. Inr (d\<lparr>accumulated_fees := f\<rparr>))) st = Inr st1"
      and 2: "adjust_balance E (acf_issuer x) (amount_to_claim x) st1 = Inr st'"
    using ok by (auto simp: asset_claim_fees_do_apply_def bindE_eq_Inr tbl_get_Inr)
  have "trades (\<lambda>y. (if y = ?i then - ?m - 0 else 0) + (if y = 0 then 0 else 0)) st (Inr st1)"
    by (rule trades_asset_data [OF 1 [unfolded asset_row(1) [OF wf a]]]) (auto simp: res_simps)
  then show ?thesis by (rule trades_seq [OF _ trades_adjust [OF 2]]) (simp add: amount_in_def)
qed

subsection \<open>Changing an asset keeps shares\<close>

lemma trades_modify_asset:
  assumes ok: "modify_asset i f st = Inr st'"
    and f: "\<And>a a'. tbl_find (assets (objects st)) i = Some a \<Longrightarrow> f a = Inr a' \<Longrightarrow> dynamic_asset_data_id a' = dynamic_asset_data_id a \<and> fees_ok a'"
  shows "trades (\<lambda>_. 0) st (Inr st')"
proof -
  let ?t = "assets (objects st)"
  obtain a a' where a: "tbl_find ?t i = Some a" "f a = Inr a'"
      and st': "st' = st\<lparr>objects := objects st\<lparr>assets := ?t\<lparr>rows := AList.update i a' (rows ?t)\<rparr>\<rparr>\<rparr>"
    using ok by (auto simp: modify_asset_def res_simps)
  have m: "moves (\<lambda>_. 0) st (Inr st')"
  proof (rule movesI)
    fix st'' assume wf: "ledger_wf (objects st)" and "Inr st' = Inr st''"
    then have st'': "st'' = st'" by simp
    have "dynamic_asset_data_id a' = i" using f [OF a] asset_row(1) [OF wf a(1)] by simp
    then show "ledger_wf (objects st'')" using wf by (auto simp: st'' st' ledger_wf_def intro!: list_all_update)
    show "gap y st'' = gap y st - 0" for y by (simp add: st'' st' held_defs balances_of_def)
  qed
  show ?thesis by (rule trades_moves [OF m]) (use f [OF a] in \<open>auto simp: st' market_ok_def quiet_def intro!: list_all_update\<close>)
qed

lemma cancel_all_trades:
  assumes "foldE (\<lambda>i st. cancel_settlement E i True st) is st = Inr st'"
  shows "trades (\<lambda>_. 0) st (Inr st')"
  by (rule foldE_invariant [OF assms, where P = "\<lambda>st'. trades (\<lambda>_. 0) st (Inr st')"])
    (auto intro: trades_return trades_seq [OF _ cancel_settlement_trades(1)])

lemma validated_fees: "asset_options_validate opts = Inr () \<Longrightarrow> fees_ok (a\<lparr>asset_opts := opts\<rparr>)"
  by (auto simp: asset_options_validate_def bindE_eq_Inr assertE_eq_Inr fees_ok_def)

lemma asset_update_trades:
  assumes ok: "asset_update_do_apply E x st = Inr (st', r)" and x: "asset_update_validate x = Inr ()"
  shows "trades (\<lambda>_. 0) st (Inr st')"
proof -
  obtain a st1 where 1: "(if flag_and (asset_flags (aup_new_options x)) disable_force_settle \<noteq> 0 \<and> can_force_settle a
            then foldE (\<lambda>i st. cancel_settlement E i True st) (settlements_of (asset_to_update x) st) st else Inr st) = Inr st1"
      and 2: "modify_asset (asset_to_update x)
              (\<lambda>a. Inr (a\<lparr>asset_issuer := (case new_issuer x of None \<Rightarrow> asset_issuer a | Some i \<Rightarrow> i), asset_opts := aup_new_options x\<rparr>)) st1 = Inr st'"
    using ok by (auto simp: asset_update_do_apply_def bindE_eq_Inr simp del: if_split)
  have t1: "trades (\<lambda>_. 0) st (Inr st1)" using 1 by (auto intro: cancel_all_trades trades_return split: if_splits)
  have v: "asset_options_validate (aup_new_options x) = Inr ()" using x by (auto simp: asset_update_validate_def bindE_eq_Inr)
  have "trades (\<lambda>_. 0) st1 (Inr st')"
    by (rule trades_modify_asset [OF 2]) (use validated_fees [OF v] in \<open>auto simp: fees_ok_def\<close>)
  with t1 show ?thesis by (rule trades_seq) simp
qed

lemma median_keeps_options:
  assumes "update_median_feeds ne now b = Inr b'"
  shows "bit_options b' = bit_options b" "bit_settlement_price b' = bit_settlement_price b" "settlement_fund b' = settlement_fund b"
  using assms by (auto simp: update_median_feeds_def Let_def throwE_def split: if_split_asm)

lemma feeds_keep_fund:
  assumes "update_median_feeds ne now (b\<lparr>feeds := fs\<rparr>) = Inr b'"
  shows "(\<forall>a. fund_in a b' = fund_in a b) \<and> has_settlement b' = has_settlement b \<and> settlement_fund b' = settlement_fund b"
  using median_keeps_options [OF assms] by (simp add: fund_in_def has_settlement_def)

lemma bitasset_row:
  assumes "market_ok L" and "tbl_find (bitassets L) k = Some b"
  shows "has_settlement b \<or> settlement_fund b = 0"
  using assms tbl_wf_find_row [OF assms(2)] by (auto simp: market_ok_def list_all_iff)

lemma bitasset_of_Inr: "bitasset_of a st = Inr (k, b) \<longleftrightarrow> bitasset_data_id a = Some k \<and> tbl_find (bitassets (objects st)) k = Some b"
  by (auto simp: bitasset_of_def bindE_eq_Inr deref_Inr tbl_get_Inr)

lemma same_market_bitasset: "same_market (objects st) (objects st') \<Longrightarrow> bitasset_of a st' = bitasset_of a st"
  by (simp add: bitasset_of_def same_market_def)

lemma assets_modify_bitasset: "modify_bitasset k f st = Inr st' \<Longrightarrow> assets (objects st') = assets (objects st)"
  by (auto simp: modify_bitasset_def res_simps)

lemma feed_change_trades:
  assumes ok: "modify_bitasset k f st = Inr st'" and mk: "market_ok (objects st)"
    and f: "\<And>b b'. tbl_find (bitassets (objects st)) k = Some b \<Longrightarrow> f b = Inr b' \<Longrightarrow>
      (\<forall>a. fund_in a b' = fund_in a b) \<and> has_settlement b' = has_settlement b \<and> settlement_fund b' = settlement_fund b"
  shows "trades (\<lambda>_. 0) st (Inr st')"
  by (rule trades_modify_bitasset [OF ok]) (use f bitasset_row [OF mk] in fastforce)

lemma asset_update_bitasset_trades:
  assumes ok: "asset_update_bitasset_do_apply ne x st = Inr (st', r)" and mk: "market_ok (objects st)"
    and ev: "\<And>a k b. tbl_find (assets (objects st)) (aub_asset_to_update x) = Some a \<Longrightarrow> bitasset_of a st = Inr (k, b) \<Longrightarrow> \<not> has_settlement b"
  shows "trades (\<lambda>_. 0) st (Inr st')"
proof -
  obtain a k b and g :: bool where a: "tbl_find (assets (objects st)) (aub_asset_to_update x) = Some a" and b: "bitasset_of a st = Inr (k, b)"
      and 1: "modify_bitasset k (\<lambda>b. let b = b\<lparr>bit_options := aub_new_options x\<rparr> in
        if g then update_median_feeds ne (head_block_time st) b else Inr b) st = Inr st'"
    using ok by (auto simp: asset_update_bitasset_do_apply_def bindE_eq_Inr tbl_get_Inr Let_def)
  have "\<not> has_settlement b" by (rule ev [OF a b])
  then have "settlement_fund b = 0" using bitasset_row [OF mk] b by (auto simp: bitasset_of_Inr)
  then show ?thesis
    using b by (intro trades_modify_bitasset [OF 1])
      (auto simp: bitasset_of_Inr Let_def fund_in_def dest: median_keeps_options(3) split: if_splits)
qed

lemma asset_update_feed_producers_trades:
  assumes E: "fc_contract E" and ok: "asset_update_feed_producers_do_apply ne E x st = Some (Inr (st', r))"
    and wf: "ledger_wf (objects st)" "market_ok (objects st)"
  shows "trades (\<lambda>_. 0) st (Inr st')"
proof -
  obtain a k st1 called where a: "tbl_find (assets (objects st)) (afp_asset_to_update x) = Some a"
      and 1: "modify_bitasset k (\<lambda>b. update_median_feeds ne (head_block_time st) (b\<lparr>feeds := set_feed_producers (new_feed_producers x) (feeds b)\<rparr>)) st = Inr st1"
      and 2: "check_call_orders E (afp_asset_to_update x) a True st1 = Some (Inr (st', called))"
    using ok by (auto simp: asset_update_feed_producers_do_apply_def bindO_Inr tbl_get_Inr)
  have t1: "trades (\<lambda>_. 0) st (Inr st1)"
    by (rule feed_change_trades [OF 1 wf(2)]) (rule feeds_keep_fund)
  have wf1: "ledger_wf (objects st1)" "market_ok (objects st1)" using trades_result [OF t1 refl wf] by blast+
  have "tbl_find (assets (objects st1)) (afp_asset_to_update x) = Some a" using a assets_modify_bitasset [OF 1] by simp
  then show ?thesis using trades_seq [OF t1 check_call_orders_trades(1) [OF E 2 wf1]] by simp
qed

lemma asset_publish_feed_trades:
  assumes E: "fc_contract E" and ok: "asset_publish_feed_do_apply ne E x st = Some (Inr (st', r))"
    and wf: "ledger_wf (objects st)" "market_ok (objects st)"
  shows "trades (\<lambda>_. 0) st (Inr st')"
proof -
  obtain a k st1 called where a: "tbl_find (assets (objects st)) (apf_asset_id x) = Some a"
      and 1: "modify_bitasset k (\<lambda>b. update_median_feeds ne (head_block_time st)
        (b\<lparr>feeds := fm_insert (publisher x) (head_block_time st, asset_publish_feed_operation.feed x) (feeds b)\<rparr>)) st = Inr st1"
      and 2: "st' = st1 \<or> check_call_orders E (apf_asset_id x) a True st1 = Some (Inr (st', called))"
    using ok by (auto simp: asset_publish_feed_do_apply_def bindO_Inr tbl_get_Inr Let_def split: if_splits)
  have t1: "trades (\<lambda>_. 0) st (Inr st1)"
    by (rule feed_change_trades [OF 1 wf(2)]) (rule feeds_keep_fund)
  have wf1: "ledger_wf (objects st1)" "market_ok (objects st1)" using trades_result [OF t1 refl wf] by blast+
  have "tbl_find (assets (objects st1)) (apf_asset_id x) = Some a" using a assets_modify_bitasset [OF 1] by simp
  then show ?thesis using 2 t1 trades_seq [OF t1 check_call_orders_trades(1) [OF E _ wf1]] by auto
qed

subsection \<open>Settlement keeps shares\<close>

lemma asset_global_settle_trades:
  assumes ok: "asset_global_settle_do_apply E x st = Inr (st', r)" and wf: "ledger_wf (objects st)" "market_ok (objects st)"
  shows "trades (\<lambda>_. 0) st (Inr st')"
  using ok globally_settle_trades(1) [OF _ wf] by (auto simp: asset_global_settle_do_apply_def bindE_eq_Inr tbl_get_Inr)

text \<open>After a global settlement the price of an asset is stated in its backing asset.\<close>

definition settled_in_backing :: "asset_id_type \<Rightarrow> 'z chain \<Rightarrow> bool" where
  "settled_in_backing i st \<longleftrightarrow> (\<forall>a k b. tbl_find (assets (objects st)) i = Some a \<and> bitasset_of a st = Inr (k, b) \<and> has_settlement b \<longrightarrow>
     asset_id (base (bit_settlement_price b)) = i \<and> asset_id (quote (bit_settlement_price b)) = short_backing_asset (bit_options b))"

lemma request_settlement_trades:
  assumes "request_settlement x b st = (st', r)"
  shows "trades (\<lambda>a. amount_in a (settle_amount x)) st (Inr st')"
proof -
  let ?t = "force_settlements (objects st)"
  define s where "s = \<lparr>settle_owner = settle_account x, settle_balance = settle_amount x,
    settlement_date = (head_block_time st + force_settlement_delay_sec (bit_options b)) mod 2 ^ 32\<rparr>"
  have s: "settle_balance s = settle_amount x" by (simp add: s_def)
  have st': "st' = st\<lparr>objects := objects st\<lparr>force_settlements := snd (tbl_create s ?t)\<rparr>\<rparr>"
    using assms by (auto simp: request_settlement_def Let_def case_prod_beta s_def)
  have m: "moves (\<lambda>a. amount_in a (settle_amount x)) st (Inr st')"
    unfolding st' using tsum_create [OF surjective_pairing, of _ s ?t] tbl_wf_create [OF _ surjective_pairing, of ?t s] s
    by (intro movesI) (auto simp: gap_field ledger_wf_def settling_in_def)
  show ?thesis by (rule trades_frame [OF m]) (auto simp: st' same_market_def)
qed

lemma pay_from_fund_trades:
  assumes ok: "pay_from_fund E x k b st = Inr (st', r)" and b: "tbl_find (bitassets (objects st)) k = Some b"
    and h: "has_settlement b" "asset_id (base (bit_settlement_price b)) = asset_id (settle_amount x)"
      "asset_id (quote (bit_settlement_price b)) = short_backing_asset (bit_options b)"
    and wf: "ledger_wf (objects st)" "market_ok (objects st)"
  shows "trades (\<lambda>a. amount_in a (settle_amount x)) st (Inr st')"
proof -
  obtain settled st1 st2 where p: "asset_mult (settle_amount x) (bit_settlement_price b) = Inr settled"
      and 1: "modify_bitasset k (\<lambda>b. bindE (safe_sub E (settlement_fund b) (amount settled)) (\<lambda>f. Inr (b\<lparr>settlement_fund := f\<rparr>))) st = Inr st1"
      and 2: "adjust_balance E (settle_account x) settled st1 = Inr st2"
      and 3: "change_asset_supply E (asset_id (settle_amount x)) (- amount (settle_amount x)) st2 = Inr st'"
    using ok by (auto simp: pay_from_fund_def bindE_eq_Inr)
  have id: "asset_id settled = short_backing_asset (bit_options b)"
    using p h(2,3) by (auto simp: asset_mult_def Let_def res_simps mk_asset_def)
  have t1: "trades (\<lambda>a. - amount_in a settled) st (Inr st1)"
    by (rule trades_modify_bitasset [OF 1]) (use b h(1) id in \<open>auto simp: res_simps fund_in_def amount_in_def has_settlement_def\<close>)
  have t12: "trades (\<lambda>_. 0) st (Inr st2)" by (rule trades_seq [OF t1 trades_adjust [OF 2]]) simp
  have "ledger_wf (objects st2)" using trades_result [OF t12 refl wf] by blast
  then show ?thesis by (rule trades_seq [OF t12 change_asset_supply_trades [OF 3]]) (simp add: amount_in_def)
qed

lemma asset_settle_trades:
  assumes ok: "asset_settle_do_apply E x st = Inr (st', r)" and s: "settled_in_backing (asset_id (settle_amount x)) st"
    and wf: "ledger_wf (objects st)" "market_ok (objects st)"
  shows "trades (\<lambda>_. 0) st (Inr st')"
proof -
  obtain neg st1 a k b where n: "asset_neg E (settle_amount x) = Inr neg" and 1: "adjust_balance E (settle_account x) neg st = Inr st1"
      and a: "tbl_find (assets (objects st1)) (asset_id (settle_amount x)) = Some a" and b: "bitasset_of a st1 = Inr (k, b)"
      and 2: "(if has_settlement b then pay_from_fund E x k b st1 else Inr (request_settlement x b st1)) = Inr (st', r)"
    using ok by (auto simp: asset_settle_do_apply_def bindE_eq_Inr tbl_get_Inr simp del: if_split)
  note sm = same_market_adjust [OF 1] and t1 = neg_trades [OF n 1]
  have wf1: "ledger_wf (objects st1)" "market_ok (objects st1)" using trades_result [OF t1 refl wf] by blast+
  have a0: "tbl_find (assets (objects st)) (asset_id (settle_amount x)) = Some a" "bitasset_of a st = Inr (k, b)"
    using a b sm same_market_bitasset [OF sm] by (simp_all add: same_market_def)
  have "trades (\<lambda>y. amount_in y (settle_amount x)) st1 (Inr st')"
  proof (cases "has_settlement b")
    case True
    then have q: "asset_id (base (bit_settlement_price b)) = asset_id (settle_amount x)"
        "asset_id (quote (bit_settlement_price b)) = short_backing_asset (bit_options b)"
      using s a0 by (auto simp: settled_in_backing_def)
    show ?thesis by (rule pay_from_fund_trades [OF _ _ True q wf1]) (use 2 True b in \<open>auto simp: bitasset_of_Inr\<close>)
  qed (use 2 request_settlement_trades in auto)
  with t1 show ?thesis by (rule trades_seq) simp
qed

subsection \<open>The evaluators\<close>

interpretation ev_issue: plain_evaluator E "asset_issue_do_evaluate E x" "\<lambda>st. Some (asset_issue_do_apply E x st)" "\<lambda>_. True"
    for E :: "'e fee_env_scheme" and x
  by unfold_locales (auto intro: asset_issue_trades)

interpretation ev_reserve: plain_evaluator E "asset_reserve_do_evaluate E x" "\<lambda>st. Some (asset_reserve_do_apply E x st)" "\<lambda>_. True"
    for E :: "'e fee_env_scheme" and x
  by unfold_locales (auto intro: asset_reserve_trades)

interpretation ev_fund_pool: plain_evaluator E "asset_fund_fee_pool_do_evaluate x" "\<lambda>st. Some (asset_fund_fee_pool_do_apply E x st)" "\<lambda>_. True"
    for E :: "'e fee_env_scheme" and x
  by unfold_locales (auto intro: asset_fund_fee_pool_trades)

interpretation ev_claim_fees: plain_evaluator E "asset_claim_fees_do_evaluate x" "\<lambda>st. Some (asset_claim_fees_do_apply E x st)" "\<lambda>_. True"
    for E :: "'e fee_env_scheme" and x
  by unfold_locales (auto intro: asset_claim_fees_trades)

interpretation ev_update: plain_evaluator E "asset_update_do_evaluate x" "\<lambda>st. Some (asset_update_do_apply E x st)"
    "\<lambda>_. asset_update_validate x = Inr ()" for E :: "'e fee_env_scheme" and x
  by unfold_locales (auto intro: asset_update_trades)

interpretation ev_feed_producers: plain_evaluator E "asset_update_feed_producers_do_evaluate x" "asset_update_feed_producers_do_apply ne E x"
    "\<lambda>_. fc_contract E" for E :: "'e market_env_scheme" and ne x
  by unfold_locales (auto intro: asset_update_feed_producers_trades)

interpretation ev_publish_feed: plain_evaluator E "asset_publish_feed_do_evaluate x" "asset_publish_feed_do_apply ne E x"
    "\<lambda>_. fc_contract E" for E :: "'e market_env_scheme" and ne x
  by unfold_locales (auto intro: asset_publish_feed_trades)

interpretation ev_global_settle: plain_evaluator E "asset_global_settle_do_evaluate x" "\<lambda>st. Some (asset_global_settle_do_apply E x st)" "\<lambda>_. True"
    for E :: "'e fee_env_scheme" and x
  by unfold_locales (auto intro: asset_global_settle_trades)

lemma update_bitasset_evaluated:
  assumes "asset_update_bitasset_do_evaluate x st0 = Inr ()" and "same_market (objects st0) (objects st)"
    and "tbl_find (assets (objects st)) (aub_asset_to_update x) = Some a" and "bitasset_of a st = Inr (k, b)"
  shows "\<not> has_settlement b"
  using assms same_market_bitasset [OF assms(2), of a]
  by (auto simp: asset_update_bitasset_do_evaluate_def bindE_eq_Inr tbl_get_Inr assertE_eq_Inr same_market_def)

interpretation ev_update_bitasset: plain_evaluator E "asset_update_bitasset_do_evaluate x" "\<lambda>st. Some (asset_update_bitasset_do_apply ne x st)" "\<lambda>_. True"
    for E :: "'e fee_env_scheme" and ne x
  by unfold_locales (auto intro!: asset_update_bitasset_trades dest: update_bitasset_evaluated)

lemma settled_same: "same_market (objects st0) (objects st) \<Longrightarrow> settled_in_backing i st = settled_in_backing i st0"
  using same_market_bitasset [of st0 st] by (simp add: settled_in_backing_def same_market_def)

interpretation ev_settle: plain_evaluator E "asset_settle_do_evaluate x" "\<lambda>st. Some (asset_settle_do_apply E x st)"
    "settled_in_backing (asset_id (settle_amount x))" for E :: "'e fee_env_scheme" and x
  by unfold_locales (auto intro: asset_settle_trades simp: settled_same)

lemma issue_supply:
  assumes ok: "asset_issue_do_apply E x st = Inr (st', r)" and wf: "ledger_wf (objects st)" and d: "tbl_find (asset_dynamic (objects st)) i = Some d"
    and i: "i = asset_id (asset_to_issue x)"
  shows "tbl_find (asset_dynamic (objects st')) i = Some (d\<lparr>current_supply := current_supply d + amount (asset_to_issue x)\<rparr>)"
proof -
  obtain st1 where 1: "adjust_balance E (issue_to_account x) (asset_to_issue x) st = Inr st1"
      and 2: "change_asset_supply E i (amount (asset_to_issue x)) st1 = Inr st'"
    using ok i by (auto simp: asset_issue_do_apply_def bindE_eq_Inr)
  have "asset_dynamic (objects st1) = asset_dynamic (objects st)"
    using 1 by (auto simp: adjust_balance_def Let_def res_simps split: if_splits option.split_asm)
  moreover obtain a where "tbl_find (assets (objects st1)) i = Some a" "dynamic_asset_data_id a = i"
    using 2 asset_row(1) [OF balance_ledger_wf [OF 1 wf]] by (auto simp: change_asset_supply_def bindE_eq_Inr tbl_get_Inr)
  ultimately show ?thesis using 2 d by (auto simp: change_asset_supply_def bindE_eq_Inr tbl_get_Inr modify_dynamic_def res_simps)
qed

text \<open>
  Issuing shares. Only the issuer of an asset that is not market-issued can do it; the supply
  grows by the issued amount and stays within the maximum of the asset, and the shares of every
  asset are conserved.
\<close>

theorem asset_issue_correct:
  assumes ev: "asset_issue_do_evaluate E x st = Inr ()" and ok: "asset_issue_do_apply E x st = Inr (st', r)"
    and wf: "ledger_wf (objects st)" "market_ok (objects st)"
  defines "i \<equiv> asset_id (asset_to_issue x)"
  shows "\<exists>a d. tbl_find (assets (objects st)) i = Some a \<and> asset_issuer a = issue_issuer x \<and> \<not> is_market_issued a \<and>
    tbl_find (asset_dynamic (objects st)) i = Some d \<and> current_supply d + amount (asset_to_issue x) \<le> max_supply (asset_opts a) \<and>
    tbl_find (asset_dynamic (objects st')) i = Some (d\<lparr>current_supply := current_supply d + amount (asset_to_issue x)\<rparr>) \<and>
    market_ok (objects st') \<and> (\<forall>y. gap y st' = gap y st)"
proof -
  obtain a d where a: "tbl_find (assets (objects st)) i = Some a" "asset_issuer a = issue_issuer x" "\<not> is_market_issued a"
      and d: "tbl_find (asset_dynamic (objects st)) (dynamic_asset_data_id a) = Some d" "current_supply d + amount (asset_to_issue x) \<le> max_supply (asset_opts a)"
    using ev by (auto simp: asset_issue_do_evaluate_def Let_def bindE_eq_Inr tbl_get_Inr assertE_eq_Inr safe_add_eq_Inr i_def)
  have d': "tbl_find (asset_dynamic (objects st)) i = Some d" using d(1) asset_row(1) [OF wf(1) a(1)] by simp
  show ?thesis
    using a d(2) d' issue_supply [OF ok wf(1) d' i_def [THEN meta_eq_to_obj_eq]] trades_result [OF asset_issue_trades [OF ok wf(1)] refl wf] by auto
qed

definition example_issue :: asset_issue_operation where
  "example_issue = \<lparr>fee = mk_asset 1 0, issue_issuer = 3, asset_to_issue = mk_asset 5 1, issue_to_account = 10, issue_memo = None\<rparr>"

theorem asset_issue_correct_witness:
  "\<exists>st' r. asset_issue_do_evaluate market_std example_issue market_chain = Inr () \<and>
     asset_issue_do_apply market_std example_issue market_chain = Inr (st', r) \<and> gap 1 st' = gap 1 market_chain"
proof -
  have ev: "asset_issue_do_evaluate market_std example_issue market_chain = Inr ()"
    by (simp add: asset_issue_do_evaluate_def example_issue_def mk_asset_def tbl_get_def is_authorized_asset_def flag_and_def is_market_issued_def
        example_core_asset_def example_account_def)
      (simp add: market_chain_def example_core_asset_def tbl_find_def safe_add_def fc_int64_def)
  obtain st' where ok: "asset_issue_do_apply market_std example_issue market_chain = Inr (st', Void_result)"
    by (simp add: asset_issue_do_apply_def example_issue_def mk_asset_def adjust_balance_def Let_def on_ledger_def market_chain_def example_ledger_def
        change_asset_supply_def tbl_get_def tbl_find_def modify_dynamic_def tbl_modify_def safe_add_def fc_int64_def)
  show ?thesis using asset_issue_correct [OF ev ok market_chain_wf] ev ok by blast
qed

text \<open>
  C39: while no deflation is running, settling shares of a market-issued asset conserves the shares of
  every asset, with the fee of the operation: before a global settlement the shares wait in a
  request, after one they leave the supply and the settlement fund pays for them. The price of a
  global settlement is assumed to be in the backing asset of the settled one.
\<close>

theorem asset_settle_conserves:
  assumes "start_evaluate_paying E P ts y (settle_account x) (fee x) (asset_settle_do_evaluate x) (pay_fee_now E)
      (\<lambda>_ st. Some (asset_settle_do_apply E x st)) b st = Some (Inr (st', r))"
    and "\<not> skip_fee ts" and "settled_in_backing (asset_id (settle_amount x)) st" and "ledger_wf (objects st)" and "market_ok (objects st)"
  shows "ledger_wf (objects st') \<and> market_ok (objects st') \<and> gap a st' = gap a st"
  using ev_settle.start_evaluate_paying_conserves [OF assms(1,2) assms(3-5)] by blast

text \<open>Asset 1 was settled at two core per share; account 10 gives two of its five shares.\<close>

definition settled_bitasset :: asset_bitasset_data_object where
  "settled_bitasset = example_bitasset\<lparr>bit_settlement_price := mk_price (mk_asset 5 1) (mk_asset 10 0), settlement_fund := 10\<rparr>"

definition settled_chain :: "unit chain" where
  "settled_chain = margin_chain\<lparr>objects := objects margin_chain\<lparr>bitassets := \<lparr>rows = [(0, settled_bitasset)], next_instance = 1\<rparr>,
     call_orders := empty_table\<rparr>\<rparr>"

definition example_settle :: asset_settle_operation where
  "example_settle = \<lparr>fee = mk_asset 1 0, settle_account = 10, settle_amount = mk_asset 2 1\<rparr>"

lemma settled_chain_ok: "ledger_wf (objects settled_chain)" "market_ok (objects settled_chain)" "settled_in_backing 1 settled_chain"
proof -
  have h: "has_settlement settled_bitasset"
    by (simp add: has_settlement_def settled_bitasset_def price_is_null_def price_eq_def null_price_def mk_price_def mk_asset_def)
  show "ledger_wf (objects settled_chain)" "market_ok (objects settled_chain)"
    using margin_chain_ok h by (simp_all add: settled_chain_def ledger_wf_def tbl_wf_def market_ok_def quiet_def empty_table_def)
  show "settled_in_backing 1 settled_chain"
    by (auto simp: settled_in_backing_def bitasset_of_Inr settled_chain_def margin_chain_def tbl_find_def settled_bitasset_def example_bitasset_def
        mk_price_def mk_asset_def)
qed

lemma settle_prepared:
  "prepare_fee market_std 10 (mk_asset 1 0) settled_chain =
     Inr \<lparr>fee_from_account = mk_asset 1 0, core_fee_paid = 1, fee_paying_statistics = 2, fee_asset_dyn_data = 0\<rparr>"
  by (simp add: prepare_fee_def tbl_get_def mk_asset_def settled_chain_def margin_chain_def market_chain_def tbl_find_def example_eval_defs
      is_authorized_asset_def flag_and_def HARDFORK_419_TIME_def)

lemma settle_evaluated: "asset_settle_do_evaluate example_settle settled_chain = Inr ()"
  by (simp add: asset_settle_do_evaluate_def example_settle_def mk_asset_def tbl_get_def settled_chain_def margin_chain_def tbl_find_def
      bitasset_of_def deref_def is_market_issued_def settled_bitasset_def example_bitasset_def has_settlement_def price_is_null_def price_eq_def
      null_price_def mk_price_def get_balance_def asset_ge_def asset_less_def can_force_settle_def flag_and_def example_core_asset_def
      market_chain_def example_ledger_def)

lemma settle_fee_paid: "\<exists>s. pay_fee_now market_std example_ts
    \<lparr>fee_from_account = mk_asset 1 0, core_fee_paid = 1, fee_paying_statistics = 2, fee_asset_dyn_data = 0\<rparr> settled_chain =
    Inr (with_statistics s settled_chain, 0)"
  by (auto simp: settled_chain_def margin_chain_def pay_fee_now_def evaluator_pay_fee_def example_ts_def modify_stats_def
      on_ledger_def tbl_modify_def tbl_get_def tbl_find_def stat_pay_fee_def safe_add_def fc_int64_def with_statistics_def example_statistics_def)

lemma settle_applied: "\<exists>st' r. asset_settle_do_apply market_std example_settle (with_statistics s settled_chain) = Inr (st', r) \<and>
    balances (objects st') = [((10, 0), 104), ((10, 1), 3)]"
  by (simp add: asset_settle_do_apply_def example_settle_def mk_asset_def tbl_get_def settled_chain_def margin_chain_def with_statistics_def
      adjust_balance_def Let_def asset_neg_def safe_neg_def safe_add_def safe_sub_def fc_int64_def asset_ge_def asset_less_def on_ledger_def tbl_find_def
      bitasset_of_def deref_def settled_bitasset_def example_bitasset_def has_settlement_def price_is_null_def price_eq_def null_price_def mk_price_def
      pay_from_fund_def asset_mult_base_eq share_ok_def price_pos_def GRAPHENE_MAX_SHARE_SUPPLY_def modify_bitasset_def tbl_modify_def
      change_asset_supply_def modify_dynamic_def market_chain_def)

theorem asset_settle_conserves_witness:
  "\<exists>st' r. start_evaluate_paying market_std \<lparr>pack_op = (\<lambda>_. 100), pack_memo = (\<lambda>_. 10)\<rparr> example_ts
      (Asset_settle_op example_settle) 10 (mk_asset 1 0) (asset_settle_do_evaluate example_settle) (pay_fee_now market_std)
      (\<lambda>_ st. Some (asset_settle_do_apply market_std example_settle st)) True settled_chain = Some (Inr (st', r)) \<and>
     gap 0 st' = gap 0 settled_chain"
proof -
  let ?fs = "\<lparr>fee_from_account = mk_asset 1 0, core_fee_paid = 1, fee_paying_statistics = 2, fee_asset_dyn_data = 0\<rparr>"
  have s: "settle_account example_settle = 10" "fee example_settle = mk_asset 1 0" "asset_id (settle_amount example_settle) = 1"
    by (simp_all add: example_settle_def mk_asset_def)
  obtain s1 where 1: "pay_fee_now market_std example_ts ?fs settled_chain = Inr (with_statistics s1 settled_chain, 0)" using settle_fee_paid by blast
  obtain st2 r where 2: "asset_settle_do_apply market_std example_settle (with_statistics s1 settled_chain) = Inr (st2, r)"
      "balances (objects st2) = [((10, 0), 104), ((10, 1), 3)]"
    using settle_applied by blast
  have neg: "asset_neg market_std (mk_asset 1 0) = Inr (mk_asset (- 1) 0)" by (simp add: asset_neg_def safe_neg_def fc_int64_def mk_asset_def)
  obtain st' where 3: "adjust_balance market_std 10 (mk_asset (- 1) 0) st2 = Inr st'"
    by (simp add: adjust_balance_def 2 Let_def mk_asset_def asset_neg_def safe_neg_def safe_add_def fc_int64_def asset_ge_def asset_less_def on_ledger_def)
  have ap: "apply_op_paying market_std example_ts 10 ?fs (pay_fee_now market_std) (\<lambda>_ st. Some (asset_settle_do_apply market_std example_settle st)) settled_chain =
      Some (Inr (st', r))"
    by (simp add: apply_op_paying_def bindO_def evaluator_convert_fee_def 1 2 neg 3)
  have ok: "start_evaluate_paying market_std \<lparr>pack_op = (\<lambda>_. 100), pack_memo = (\<lambda>_. 10)\<rparr> example_ts
      (Asset_settle_op example_settle) 10 (mk_asset 1 0) (asset_settle_do_evaluate example_settle) (pay_fee_now market_std)
      (\<lambda>_ st. Some (asset_settle_do_apply market_std example_settle st)) True settled_chain = Some (Inr (st', r))"
    using ap by (simp add: start_evaluate_paying_def evaluate_op_def bindO_def example_ts_def settle_prepared settle_evaluated)
  show ?thesis
    using asset_settle_conserves [OF ok [folded s] _ _ settled_chain_ok(1,2), of 0] settled_chain_ok(3) s ok by (auto simp: example_ts_def)
qed

subsection \<open>What a new asset costs\<close>

lemma tbl_find_after_create: "tbl_create v t = (i, t') \<Longrightarrow> tbl_find t' j = (case tbl_find t j of None \<Rightarrow> if j = next_instance t then Some v else None | Some w \<Rightarrow> Some w)"
  by (auto simp: tbl_create_def tbl_find_def map_add_def split: option.splits)

lemma moves_create_dynamic:
  assumes ok: "create_dynamic_data p st = (i, st')"
  shows "moves (only_core p) st (Inr st')" "i = next_instance (asset_dynamic (objects st))"
    "assets (objects st') = assets (objects st)"
proof -
  let ?t = "asset_dynamic (objects st)"
  define d where "d = \<lparr>current_supply = 0, confidential_supply = 0, accumulated_fees = 0, fee_pool = p\<rparr>"
  obtain t' where c: "tbl_create d ?t = (i, t')" and st': "st' = st\<lparr>objects := objects st\<lparr>asset_dynamic := t'\<rparr>\<rparr>"
    using ok by (auto simp: create_dynamic_data_def d_def split: prod.splits)
  have t: "tsum fee_pool t' = tsum fee_pool ?t + p" using tsum_create [OF c, of fee_pool] by (simp add: d_def)
  have z: "current_supply d - accumulated_fees d = 0" by (simp add: d_def)
  show "moves (only_core p) st (Inr st')" unfolding st'
    using tbl_wf_create [OF _ c] z
    by (intro movesI) (auto simp: gap_dynamic t only_core_def ledger_wf_def tbl_find_after_create [OF c] split: option.splits)
  show "i = next_instance ?t" using c by (simp add: tbl_create_eq)
  show "assets (objects st') = assets (objects st)" by (simp add: st')
qed

lemma moves_create_bitasset:
  assumes ok: "create_bitasset x st = (k, st')"
  shows "moves (\<lambda>_. 0) st (Inr st')" "assets (objects st') = assets (objects st)"
proof -
  have "moves (\<lambda>_. 0) st (Inr st') \<and> assets (objects st') = assets (objects st)"
  proof (cases "bitasset_opts x")
    case None
    then show ?thesis using ok by (simp add: create_bitasset_def moves_return)
  next
    case (Some opts)
    then obtain i t where c: "tbl_create (new_bitasset x opts) (bitassets (objects st)) = (i, t)" and st': "st' = st\<lparr>objects := objects st\<lparr>bitassets := t\<rparr>\<rparr>"
      using ok by (auto simp: create_bitasset_def split: prod.splits)
    have "tsum (fund_in a) t = tsum (fund_in a) (bitassets (objects st))" for a
      using tsum_create [OF c, of "fund_in a"] by (simp add: fund_in_def new_bitasset_def)
    then show ?thesis unfolding st' using tbl_wf_create [OF _ c] by (auto intro!: movesI simp: gap_field ledger_wf_def)
  qed
  then show "moves (\<lambda>_. 0) st (Inr st')" "assets (objects st') = assets (objects st)" by blast+
qed

lemma moves_create_asset:
  assumes "dynamic_asset_data_id a = next_instance (assets (objects st))" and c: "tbl_create a (assets (objects st)) = (i, t)"
  shows "moves (\<lambda>_. 0) st (Inr (st\<lparr>objects := objects st\<lparr>assets := t\<rparr>\<rparr>))"
  using assms by (auto intro!: movesI simp: tbl_create_eq ledger_wf_def held_defs balances_of_def)

lemma asset_create_moves:
  assumes ok: "asset_create_do_apply x h st = Inr (st', r)"
    and sync: "next_instance (asset_dynamic (objects st)) = next_instance (assets (objects st))"
  shows "moves (only_core h) st (Inr st')"
proof -
  obtain dyn st1 k st2 i t where 1: "create_dynamic_data h st = (dyn, st1)" and 2: "create_bitasset x st1 = (k, st2)"
      and 3: "tbl_create (new_asset x (next_instance (assets (objects st2))) dyn k) (assets (objects st2)) = (i, t)"
      and st': "st' = st2\<lparr>objects := objects st2\<lparr>assets := t\<rparr>\<rparr>"
    using ok by (auto simp: asset_create_do_apply_def split: prod.splits)
  note m1 = moves_create_dynamic [OF 1] and m2 = moves_create_bitasset [OF 2]
  have "moves (\<lambda>_. 0) st2 (Inr st')"
    unfolding st' by (rule moves_create_asset [OF _ 3]) (use m1(2,3) m2(2) sync in \<open>simp add: new_asset_def\<close>)
  then have "moves (\<lambda>_. 0) st1 (bindE (Inr st2) (\<lambda>_. Inr st'))" by (intro moves_bind [OF m2(1)]) auto
  then have "moves (only_core h) st (bindE (Inr st1) (\<lambda>_. Inr st'))" by (intro moves_bind [OF m1(1)]) auto
  then show ?thesis by simp
qed

text \<open>How much core the creation of an asset makes out of nothing.\<close>

definition minted_core :: "fee_state \<Rightarrow> int" where
  "minted_core fs = (if asset_id (fee_from_account fs) = 0 then core_fee_paid fs mod 2 else core_fee_paid fs - core_fee_paid fs div 2)"

lemma asset_create_apply_moves:
  assumes ok: "apply_op E ts payer (fs\<lparr>core_fee_paid := h\<rparr>) (asset_create_do_apply x h) st = Inr (st', r)" and fee: "\<not> skip_fee ts" "fee_prepared fs"
    and h: "h = core_fee_paid fs - core_fee_paid fs div 2"
    and sync: "next_instance (asset_dynamic (objects st)) = next_instance (assets (objects st))"
  shows "moves (only_core (minted_core fs)) st (Inr st')"
proof -
  let ?fs = "fs\<lparr>core_fee_paid := h\<rparr>" and ?f = "fee_from_account fs"
  let ?d1 = "\<lambda>a. if asset_id ?f = 0 then 0 else amount_in a ?f - only_core h a"
  obtain st1 st2 st3 neg where 1: "evaluator_convert_fee E ts ?fs st = Inr st1" and 2: "evaluator_pay_fee E ts ?fs st1 = Inr st2"
      and 3: "asset_create_do_apply x h st2 = Inr (st3, r)" and 4: "asset_neg E ?f = Inr neg" and 5: "adjust_balance E payer neg st3 = Inr st'"
    using ok by (auto simp: apply_op_def bindE_eq_Inr)
  have nc: "fee_prepared ?fs" if "asset_id ?f \<noteq> 0"
    using fee(2) that h pos_mod_sign [of 2 "core_fee_paid fs"] by (auto simp: fee_prepared_def)
  have m1: "moves ?d1 st (Inr st1)"
  proof (cases "asset_id ?f = 0")
    case True
    then show ?thesis using 1 by (simp add: evaluator_convert_fee_def moves_return)
  next
    case False
    show ?thesis using moves_convert_fee [OF fee(1) nc [OF False], of st E, unfolded 1] False by simp
  qed
  have s1: "next_instance (asset_dynamic (objects st1)) = next_instance (asset_dynamic (objects st)) \<and> assets (objects st1) = assets (objects st)"
    using 1 by (auto simp: evaluator_convert_fee_def modify_dynamic_def res_simps split: if_splits)
  have m2: "moves (only_core h) st1 (Inr st2)" using moves_pay_fee [OF fee(1), of ?fs st1 E, unfolded 2] by simp
  have s2: "asset_dynamic (objects st2) = asset_dynamic (objects st1) \<and> assets (objects st2) = assets (objects st1)"
    using 2 by (auto simp: evaluator_pay_fee_def modify_stats_def res_simps split: if_splits)
  have m3: "moves (only_core h) st2 (Inr st3)" by (rule asset_create_moves [OF 3]) (use s1 s2 sync in simp)
  have m4: "moves (\<lambda>a. - amount_in a ?f) st3 (Inr st')" using moves_neg [OF 4, of st3 payer] 5 by simp
  have c0: "core_fee_paid fs = amount ?f" if "asset_id ?f = 0" using fee(2) that by (simp add: fee_prepared_def)
  have e: "only_core (minted_core fs) a = ?d1 a + (only_core h a + (only_core h a - amount_in a ?f))" for a
    using c0 h minus_div_mult_eq_mod [of "amount ?f" 2] by (auto simp: minted_core_def only_core_def amount_in_def)
  have "moves (\<lambda>a. only_core h a - amount_in a ?f) st2 (bindE (Inr st3) (\<lambda>_. Inr st'))" by (rule moves_bind [OF m3]) (use m4 in auto)
  then have "moves (\<lambda>a. only_core h a + (only_core h a - amount_in a ?f)) st1 (bindE (Inr st2) (\<lambda>_. Inr st'))" by (intro moves_bind [OF m2]) auto
  then have "moves (only_core (minted_core fs)) st (bindE (Inr st1) (\<lambda>_. Inr st'))" by (intro moves_bind [OF m1]) (auto simp: e)
  then show ?thesis by simp
qed

text \<open>
  C40: creating an asset does not conserve the core asset. Its evaluator replaces the fee by its half,
  rounded up, before the frame converts and pays it, and gives as much to the pool of the new
  asset. An odd fee in core makes one share out of nothing; a fee in another asset draws only half
  of its core value from the fee pool and makes the other half. Other assets are conserved.
\<close>

theorem asset_create_mints_core:
  assumes ok: "asset_create_start_evaluate E P ts x True st = Some (Inr (st', r))" and fs: "prepare_fee E (acr_issuer x) (fee x) st = Inr fs"
    and fee: "\<not> skip_fee ts" and wf: "ledger_wf (objects st)"
    and sync: "next_instance (asset_dynamic (objects st)) = next_instance (assets (objects st))"
  shows "ledger_wf (objects st') \<and> gap a st' = gap a st - only_core (minted_core fs) a"
proof -
  note p = prepare_fee_prepared(1) [OF fs wf]
  have c: "0 \<le> core_fee_paid fs" using p by (simp add: fee_prepared_def)
  then have "core_fee_paid fs sdiv 2 = core_fee_paid fs div 2" by (simp add: signed_divide_int_def sgn_if)
  then have "apply_op E ts (acr_issuer x) (fs\<lparr>core_fee_paid := core_fee_paid fs - core_fee_paid fs div 2\<rparr>)
      (asset_create_do_apply x (core_fee_paid fs - core_fee_paid fs div 2)) st = Inr (st', r)"
    using ok fs by (auto simp: asset_create_start_evaluate_def evaluate_op_def bindO_Inr halve_fee_def bindE_eq_Inr safe_sub_eq_Inr)
  from asset_create_apply_moves [OF this fee p refl sync] show ?thesis using moves_result [OF _ refl wf] by blast
qed

text \<open>Account 10 pays a fee of one share for the new asset GOLD.\<close>

definition example_new_asset :: asset_create_operation where
  "example_new_asset = \<lparr>fee = mk_asset 1 0, acr_issuer = 10, symbol = ''GOLD'', precision = 2, common_options = asset_opts example_core_asset,
     bitasset_opts = None, is_prediction_market = False\<rparr>"

lemma example_new_asset_fee:
  "prepare_fee market_std 10 (mk_asset 1 0) example_chain =
     Inr \<lparr>fee_from_account = mk_asset 1 0, core_fee_paid = 1, fee_paying_statistics = 2, fee_asset_dyn_data = 0\<rparr>"
  by (simp add: prepare_fee_def mk_asset_def example_chain_def Let_def example_eval_defs is_authorized_asset_def
      flag_and_def HARDFORK_419_TIME_def head_block_time_def sample_state_def)

lemma example_objects: "objects example_chain = example_ledger"
  by (simp add: example_chain_def Let_def)

lemma example_statistics_paid: "\<exists>s. evaluator_pay_fee market_std example_ts
    \<lparr>fee_from_account = mk_asset 1 0, core_fee_paid = 1, fee_paying_statistics = 2, fee_asset_dyn_data = 0\<rparr> example_chain =
    Inr (with_statistics s example_chain)"
  by (auto simp: evaluator_pay_fee_def example_ts_def modify_stats_def on_ledger_def tbl_modify_def tbl_get_def example_objects example_lookup
      stat_pay_fee_def safe_add_def fc_int64_def with_statistics_def example_statistics_def)
    (auto simp: example_ledger_def example_statistics_def)

lemma example_asset_applied: "\<exists>st2 r. asset_create_do_apply example_new_asset 1 (with_statistics s example_chain) = Inr (st2, r) \<and>
    balances (objects st2) = [((10, 0), 100)]"
  by (simp add: asset_create_do_apply_def create_dynamic_data_def create_bitasset_def tbl_create_def example_new_asset_def with_statistics_def
      example_objects example_ledger_def)

theorem asset_create_mints_core_witness:
  "\<exists>st' r. asset_create_start_evaluate market_std \<lparr>pack_op = (\<lambda>_. 100), pack_memo = (\<lambda>_. 10)\<rparr> example_ts example_new_asset True example_chain =
      Some (Inr (st', r)) \<and> gap 0 st' = gap 0 example_chain - 1"
proof -
  have f: "acr_issuer example_new_asset = 10" "fee example_new_asset = mk_asset 1 0" by (simp_all add: example_new_asset_def)
  have ev: "asset_create_do_evaluate example_new_asset example_chain = Inr ()"
    by (simp add: asset_create_do_evaluate_def check_list_authorities_def accounts_exist_def example_new_asset_def find_symbol_def check_sub_asset_def
        HARDFORK_385_TIME_def example_time whenE_def)
      (simp add: example_chain_def Let_def example_eval_defs)
  have h: "halve_fee market_std \<lparr>fee_from_account = mk_asset 1 0, core_fee_paid = 1, fee_paying_statistics = 2, fee_asset_dyn_data = 0\<rparr> =
      Inr \<lparr>fee_from_account = mk_asset 1 0, core_fee_paid = 1, fee_paying_statistics = 2, fee_asset_dyn_data = 0\<rparr>"
    by (simp add: halve_fee_def safe_sub_def fc_int64_def signed_divide_int_def)
  let ?fs = "\<lparr>fee_from_account = mk_asset 1 0, core_fee_paid = 1, fee_paying_statistics = 2, fee_asset_dyn_data = 0\<rparr>"
  obtain s where 1: "evaluator_pay_fee market_std example_ts ?fs example_chain = Inr (with_statistics s example_chain)"
    using example_statistics_paid by blast
  obtain st2 r where 2: "asset_create_do_apply example_new_asset 1 (with_statistics s example_chain) = Inr (st2, r)"
      "balances (objects st2) = [((10, 0), 100)]"
    using example_asset_applied by blast
  have neg: "asset_neg market_std (mk_asset 1 0) = Inr (mk_asset (- 1) 0)" by (simp add: asset_neg_def safe_neg_def fc_int64_def mk_asset_def)
  obtain st' where 3: "adjust_balance market_std 10 (mk_asset (- 1) 0) st2 = Inr st'"
    by (simp add: adjust_balance_def 2 Let_def mk_asset_def asset_neg_def safe_neg_def safe_add_def fc_int64_def asset_ge_def asset_less_def on_ledger_def)
  have ok: "asset_create_start_evaluate market_std \<lparr>pack_op = (\<lambda>_. 100), pack_memo = (\<lambda>_. 10)\<rparr> example_ts example_new_asset True example_chain =
      Some (Inr (st', r))"
    by (simp add: asset_create_start_evaluate_def evaluate_op_def bindO_def f ev h example_new_asset_fee apply_op_def
        evaluator_convert_fee_def 1 2 neg 3) (simp add: example_ts_def mk_asset_def 2 neg 3)
  show ?thesis
    using asset_create_mints_core [OF ok, unfolded f, OF example_new_asset_fee _ example_ledger_wf, of 0] ok
    by (auto simp: minted_core_def only_core_def example_ts_def mk_asset_def example_chain_def Let_def example_ledger_def)
qed

end
