(* ===== verification/Transactions.thy ===== *)
theory Transactions
  imports Evaluators
begin

text \<open>
  The application of a transaction (\<open>_apply_transaction\<close> and \<open>apply_operation\<close> of
  \<open>libraries/chain/db_block.cpp\<close>), the index of recent transactions
  (\<open>transaction_object.hpp\<close>) and its clean-up in \<open>db_update.cpp\<close>, and the block summaries
  (\<open>block_summary_object.hpp\<close>).

  The record \<open>tx_env\<close> holds the digest of a transaction and the recovery of a key from a
  signature, which belong to the \<open>fc\<close> library, and the table \<open>_operation_evaluators\<close>, which is
  data of the database: the evaluators are registered in it when the node starts. A result
  \<open>None\<close> stands for a loop that does not end. The lookups of authorities would throw on an
  account that does not exist; here such an account has no authority. Accounts are never
  removed, and an authority names accounts that existed when it was set. The position of an
  operation in its block and its result, which the history plugin reads, are left out of
  \<open>applied_ops\<close>.
\<close>

subsection \<open>Transactions\<close>

record 'sig processed_transaction = "(operation, 'sig) signed_transaction" +
  ref_block_num :: nat
  ref_block_prefix :: "32 word"
  expiration :: time_point_sec
  operation_results :: "operation_result list"

text \<open>What the digest of a transaction covers: everything but the signatures and results.\<close>

type_synonym tx_body = "nat \<times> 32 word \<times> time_point_sec \<times> operation list"

definition tx_body :: "'sig processed_transaction \<Rightarrow> tx_body" where
  "tx_body trx = (ref_block_num trx, ref_block_prefix trx, expiration trx, operations trx)"

record ('sig, 's) tx_env =
  digest_id :: "tx_body \<Rightarrow> nat"
  recover_key :: "tx_body \<Rightarrow> 'sig \<Rightarrow> public_key_type"
  key_addresses :: "public_key_type \<Rightarrow> address_type list"
  validation :: op_env
  operation_evaluators :: "(transaction_evaluation_state \<Rightarrow> operation \<Rightarrow> 's \<Rightarrow> ('s \<times> operation_result) res option) option list"

definition transaction_id :: "('sig, 's) tx_env \<Rightarrow> 'sig processed_transaction \<Rightarrow> nat" where
  "transaction_id T trx = digest_id T (tx_body trx)"

text \<open>The second 32-bit word of a block identifier, the lowest of the rest.\<close>

definition id_hash1 :: "block_id_type \<Rightarrow> 32 word" where
  "id_hash1 i = ucast (id_rest i)"

definition set_expiration :: "time_point_sec \<Rightarrow> 'sig processed_transaction \<Rightarrow> 'sig processed_transaction" where
  "set_expiration t trx = trx\<lparr>expiration := t\<rparr>"

text \<open>The block number is cut to the 16 bits of the field.\<close>

definition set_reference_block :: "'tx block_env \<Rightarrow> block_id_type \<Rightarrow> 'sig processed_transaction \<Rightarrow> 'sig processed_transaction" where
  "set_reference_block H i trx = trx\<lparr>ref_block_num := num_from_id H i mod 2 ^ 16, ref_block_prefix := id_hash1 i\<rparr>"

definition validate_transaction_ops :: "('sig, 's) tx_env \<Rightarrow> 'sig processed_transaction \<Rightarrow> unit res option" where
  "validate_transaction_ops T trx =
     bindO (Some (assertE (operations trx \<noteq> []) ''A transaction must have at least one operation'')) (\<lambda>_.
     first_failure (map (operation_validate (validation T)) (operations trx)))"

subsection \<open>Recent transactions and block summaries\<close>

record 'sig transaction_object =
  recent_trx :: "'sig processed_transaction"
  recent_trx_id :: nat

record 'sig block_ledger = ledger +
  transaction_index :: "'sig transaction_object table"
  block_summaries :: "nat \<rightharpoonup> block_id_type"

type_synonym ('sig, 'z) node = "('sig, 'z) block_ledger_scheme chain_state"

definition skip_witness_signature :: "32 word" where "skip_witness_signature = 2 ^ 0"
definition skip_transaction_signatures :: "32 word" where "skip_transaction_signatures = 2 ^ 1"
definition skip_transaction_dupe_check :: "32 word" where "skip_transaction_dupe_check = 2 ^ 2"
definition skip_fork_db :: "32 word" where "skip_fork_db = 2 ^ 3"
definition skip_block_size_check :: "32 word" where "skip_block_size_check = 2 ^ 4"
definition skip_tapos_check :: "32 word" where "skip_tapos_check = 2 ^ 5"
definition skip_authority_check :: "32 word" where "skip_authority_check = 2 ^ 6"
definition skip_merkle_check :: "32 word" where "skip_merkle_check = 2 ^ 7"
definition skip_witness_schedule_check :: "32 word" where "skip_witness_schedule_check = 2 ^ 10"

definition skips :: "'o chain_state \<Rightarrow> 32 word \<Rightarrow> bool" where
  "skips st flag \<longleftrightarrow> skip_flags st AND flag \<noteq> 0"

definition find_transaction :: "('sig, 'z) node \<Rightarrow> nat \<Rightarrow> 'sig transaction_object option" where
  "find_transaction st i = map_option snd (find (\<lambda>(_, t). recent_trx_id t = i) (rows (transaction_index (objects st))))"

definition is_known_transaction :: "('sig, 'z) node \<Rightarrow> nat \<Rightarrow> bool" where
  "is_known_transaction st i \<longleftrightarrow> find_transaction st i \<noteq> None"

definition get_recent_transaction :: "('sig, 'z) node \<Rightarrow> nat \<Rightarrow> 'sig processed_transaction res" where
  "get_recent_transaction st i =
     bindE (assertE (find_transaction st i \<noteq> None) ''itr != index.end()'') (\<lambda>_.
     Inr (recent_trx (the (find_transaction st i))))"

text \<open>The \<open>signed_transaction\<close> in a processed one has no results; it is what the index stores.\<close>

definition signed_part :: "'sig processed_transaction \<Rightarrow> 'sig processed_transaction" where
  "signed_part trx = trx\<lparr>operation_results := []\<rparr>"

definition record_transaction :: "nat \<Rightarrow> 'sig processed_transaction \<Rightarrow> ('sig, 'z) node \<Rightarrow> ('sig, 'z) node" where
  "record_transaction i trx st =
     st\<lparr>objects := objects st\<lparr>transaction_index :=
       snd (tbl_create \<lparr>recent_trx = trx\<lparr>operation_results := []\<rparr>, recent_trx_id = i\<rparr> (transaction_index (objects st)))\<rparr>\<rparr>"

text \<open>
  The loop removes the first transaction in the order of expiration while it has expired; that
  removes the expired ones.
\<close>

definition clear_expired_transactions :: "('sig, 'z) node \<Rightarrow> ('sig, 'z) node" where
  "clear_expired_transactions st =
     (let t = transaction_index (objects st) in
      st\<lparr>objects := objects st\<lparr>transaction_index :=
        t\<lparr>rows := filter (\<lambda>(_, x). \<not> expiration (recent_trx x) < head_block_time st) (rows t)\<rparr>\<rparr>\<rparr>)"

text \<open>All 65536 summaries exist from genesis on; a missing one throws.\<close>

definition create_block_summary :: "'tx block_env \<Rightarrow> 'tx signed_block \<Rightarrow> ('sig, 'z) node \<Rightarrow> ('sig, 'z) node res" where
  "create_block_summary H b st =
     (let sid = block_num H b mod 2 ^ 16 in
      bindE (getE (block_summaries (objects st)) sid) (\<lambda>_.
      Inr (st\<lparr>objects := objects st\<lparr>block_summaries := (block_summaries (objects st))(sid \<mapsto> block_id H b)\<rparr>\<rparr>)))"

subsection \<open>Applying operations and transactions\<close>

text \<open>A missing evaluator is a failed \<open>assert\<close>.\<close>

definition apply_operation ::
    "('sig, 'z chain) tx_env \<Rightarrow> transaction_evaluation_state \<Rightarrow> operation \<Rightarrow> 'z chain \<Rightarrow> ('z chain \<times> operation_result) res option" where
  "apply_operation T ts x st =
     (let u_which = which x in
      if length (operation_evaluators T) \<le> u_which then Some (throwE Undefined_behaviour)
      else case operation_evaluators T ! u_which of
        None \<Rightarrow> Some (throwE Undefined_behaviour)
      | Some eval \<Rightarrow> eval ts x (push_applied_operation x st))"

fun apply_operations ::
    "('sig, 'z chain) tx_env \<Rightarrow> transaction_evaluation_state \<Rightarrow> operation list \<Rightarrow> 'z chain \<Rightarrow> ('z chain \<times> operation_result list) res option" where
  "apply_operations T ts [] st = Some (Inr (st, []))"
| "apply_operations T ts (x # xs) st =
     bindO (apply_operation T ts x st) (\<lambda>(st, r).
     bindO (apply_operations T ts xs st) (\<lambda>(st, rs).
     Some (Inr (st, r # rs))))"

definition new_evaluation_state :: transaction_evaluation_state where
  "new_evaluation_state = \<lparr>is_proposed_trx = False, skip_fee = False, skip_fee_schedule_check = False\<rparr>"

definition verify_transaction_authority :: "('sig, 's) tx_env \<Rightarrow> 'sig processed_transaction \<Rightarrow> 'z chain \<Rightarrow> unit res" where
  "verify_transaction_authority T trx st =
     (let authority_of = (\<lambda>f i. map_option f (tbl_find (accounts (objects st)) i))
      in bindE (get_signature_keys (\<lambda>_. recover_key T (tx_body trx)) \<lparr>operations = operations trx, signatures = signatures trx\<rparr>) (\<lambda>sigs.
         verify_authority \<lparr>get_active = authority_of acct_active, addresses_of = key_addresses T\<rparr>
           operation_get_required_authorities (authority_of acct_owner) (operations trx) sigs
           (max_authority_depth (gpo_parameters (gpo st))) False [] []))"

definition check_reference_block :: "'sig processed_transaction \<Rightarrow> ('sig, 'z) node \<Rightarrow> unit res" where
  "check_reference_block trx st =
     bindE (getE (block_summaries (objects st)) (ref_block_num trx)) (\<lambda>i.
     assertE (ref_block_prefix trx = id_hash1 i) ''trx.ref_block_prefix == tapos_block_summary.block_id._hash[1]'')"

definition check_expiration :: "'sig processed_transaction \<Rightarrow> 'o chain_state \<Rightarrow> unit res" where
  "check_expiration trx st =
     (let now = head_block_time st in
      bindE (assertE (expiration trx \<le> (now + maximum_time_until_expiration (gpo_parameters (gpo st))) mod 2 ^ 32) ''trx.expiration <= now + max'') (\<lambda>_.
      assertE (now \<le> expiration trx) ''now <= trx.expiration''))"

definition temp_account_empty :: "'z chain \<Rightarrow> bool" where
  "temp_account_empty st \<longleftrightarrow> list_all (\<lambda>((owner, _), b). owner = GRAPHENE_TEMP_ACCOUNT \<longrightarrow> b = 0) (balances (objects st))"

text \<open>The checks that precede the operations.\<close>

definition transaction_checks :: "('sig, ('sig, 'z) node) tx_env \<Rightarrow> 'sig processed_transaction \<Rightarrow> ('sig, 'z) node \<Rightarrow> unit res option" where
  "transaction_checks T trx st =
     bindO (validate_transaction_ops T trx) (\<lambda>_.
     bindO (Some (assertE (skips st skip_transaction_dupe_check \<or> find_transaction st (transaction_id T trx) = None) ''duplicate transaction'')) (\<lambda>_.
     bindO (if skip_flags st AND (skip_transaction_signatures OR skip_authority_check) = 0
            then Some (verify_transaction_authority T trx st) else Some (Inr ())) (\<lambda>_.
     if 0 < head_block_num st then
       bindO (if skips st skip_tapos_check then Some (Inr ()) else Some (check_reference_block trx st)) (\<lambda>_.
       Some (check_expiration trx st))
     else Some (Inr ()))))"

definition apply_transaction_inner ::
    "('sig, ('sig, 'z) node) tx_env \<Rightarrow> 'sig processed_transaction \<Rightarrow> ('sig, 'z) node \<Rightarrow> (('sig, 'z) node \<times> 'sig processed_transaction) res option" where
  "apply_transaction_inner T trx st =
     bindO (transaction_checks T trx st) (\<lambda>_.
     let st = (if skips st skip_transaction_dupe_check then st else record_transaction (transaction_id T trx) trx st) in
     bindO (apply_operations T new_evaluation_state (operations trx) st) (\<lambda>(st, results).
     bindO (Some (assertE (temp_account_empty st) ''b.balance == 0'')) (\<lambda>_.
     Some (Inr (st, trx\<lparr>operation_results := results\<rparr>)))))"

text \<open>\<open>apply_transaction\<close> sets the flags for the call and restores them.\<close>

definition apply_transaction ::
    "('sig, ('sig, 'z) node) tx_env \<Rightarrow> 'sig processed_transaction \<Rightarrow> 32 word \<Rightarrow> ('sig, 'z) node \<Rightarrow> (('sig, 'z) node \<times> 'sig processed_transaction) res option" where
  "apply_transaction T trx skip st =
     bindO (apply_transaction_inner T trx (st\<lparr>skip_flags := skip\<rparr>)) (\<lambda>(st', ptrx).
     Some (Inr (st'\<lparr>skip_flags := skip_flags st\<rparr>, ptrx)))"

subsection \<open>What an accepted transaction satisfies\<close>

text \<open>
  What the operations of a transaction leave alone: the index of recent transactions, the
  summaries, the head block and the flags. It is what the evaluators in the table keep.
\<close>

definition same_recent :: "('sig, 'z) node \<Rightarrow> ('sig, 'z) node \<Rightarrow> bool" where
  "same_recent st st' \<longleftrightarrow>
     transaction_index (objects st') = transaction_index (objects st) \<and>
     head_block_time st' = head_block_time st \<and> head_block_num st' = head_block_num st \<and>
     head_block_id st' = head_block_id st \<and> skip_flags st' = skip_flags st \<and> checkpoints st' = checkpoints st"

definition evaluators_keep :: "('sig, ('sig, 'z) node) tx_env \<Rightarrow> bool" where
  "evaluators_keep T \<longleftrightarrow> (\<forall>eval ts x st st' r. Some eval \<in> set (operation_evaluators T) \<longrightarrow>
     eval ts x st = Some (Inr (st', r)) \<longrightarrow> same_recent st st')"

lemma same_recent_refl [simp]: "same_recent st st"
  by (simp add: same_recent_def)

lemma same_recent_trans: "same_recent st st' \<Longrightarrow> same_recent st' st'' \<Longrightarrow> same_recent st st''"
  by (simp add: same_recent_def)

lemma bindO_Inr_iff: "bindO m f = Some (Inr y) \<longleftrightarrow> (\<exists>x. m = Some (Inr x) \<and> f x = Some (Inr y))"
  by (auto simp: bindO_def split: option.splits sum.splits)

lemma apply_operation_keeps:
  assumes "evaluators_keep T" and "apply_operation T ts x st = Some (Inr (st', r))"
  shows "same_recent st st'"
proof -
  have l: "which x < length (operation_evaluators T)"
    using assms(2) by (cases "which x < length (operation_evaluators T)") (simp_all add: apply_operation_def throwE_def)
  then obtain eval where e: "operation_evaluators T ! which x = Some eval" "eval ts x (push_applied_operation x st) = Some (Inr (st', r))"
    using assms(2) by (auto simp: apply_operation_def throwE_def Let_def split: option.splits)
  then have "Some eval \<in> set (operation_evaluators T)" using l nth_mem by fastforce
  then have "same_recent (push_applied_operation x st) st'" using assms(1) e(2) unfolding evaluators_keep_def by blast
  then show ?thesis by (simp add: same_recent_def push_applied_operation_def head_block_time_def head_block_num_def head_block_id_def)
qed

lemma apply_operations_keeps:
  assumes T: "evaluators_keep T"
  shows "apply_operations T ts xs st = Some (Inr (st', rs)) \<Longrightarrow> same_recent st st' \<and> length rs = length xs"
proof (induction xs arbitrary: st rs)
  case (Cons x xs)
  then obtain st1 r rs' where 1: "apply_operation T ts x st = Some (Inr (st1, r))"
      and 2: "apply_operations T ts xs st1 = Some (Inr (st', rs'))" and rs: "rs = r # rs'"
    by (auto simp: bindO_Inr_iff)
  show ?case using apply_operation_keeps [OF T 1] Cons.IH [OF 2] same_recent_trans rs by auto
qed simp

text \<open>
  The run of the operations, stated on the states between them: each one goes through the
  evaluator that is registered for its tag, on the state the one before it has left and with the
  operation noted for the observers.
\<close>

definition evaluated ::
    "('sig, 'z chain) tx_env \<Rightarrow> operation list \<Rightarrow> 'z chain \<Rightarrow> 'z chain \<Rightarrow> operation_result list \<Rightarrow> bool" where
  "evaluated T xs st st' rs \<longleftrightarrow> length rs = length xs \<and>
     (\<exists>sts. length sts = Suc (length xs) \<and> sts ! 0 = st \<and> sts ! length xs = st' \<and>
       (\<forall>i<length xs. \<exists>eval. which (xs ! i) < length (operation_evaluators T) \<and>
          operation_evaluators T ! which (xs ! i) = Some eval \<and>
          eval new_evaluation_state (xs ! i) (push_applied_operation (xs ! i) (sts ! i)) = Some (Inr (sts ! Suc i, rs ! i))))"

lemma apply_operation_evaluated:
  assumes "apply_operation T ts x st = Some (Inr (st', r))"
  obtains eval where "which x < length (operation_evaluators T)" "operation_evaluators T ! which x = Some eval"
    "eval ts x (push_applied_operation x st) = Some (Inr (st', r))"
  using assms by (auto simp: apply_operation_def Let_def throwE_def split: option.splits if_splits)

lemma apply_operations_evaluated:
  "apply_operations T new_evaluation_state xs st = Some (Inr (st', rs)) \<Longrightarrow> evaluated T xs st st' rs"
proof (induction xs arbitrary: st rs)
  case Nil
  then show ?case by (auto simp: evaluated_def intro: exI [of _ "[st]"])
next
  case (Cons x xs)
  then obtain st1 r rs' where 1: "apply_operation T new_evaluation_state x st = Some (Inr (st1, r))"
      and 2: "apply_operations T new_evaluation_state xs st1 = Some (Inr (st', rs'))" and rs: "rs = r # rs'"
    by (auto simp: bindO_Inr_iff)
  obtain eval where e: "which x < length (operation_evaluators T)" "operation_evaluators T ! which x = Some eval"
      "eval new_evaluation_state x (push_applied_operation x st) = Some (Inr (st1, r))"
    by (rule apply_operation_evaluated [OF 1])
  obtain sts where l: "length rs' = length xs" "length sts = Suc (length xs)" "sts ! 0 = st1" "sts ! length xs = st'"
      and all: "\<forall>i<length xs. \<exists>eval. which (xs ! i) < length (operation_evaluators T) \<and>
          operation_evaluators T ! which (xs ! i) = Some eval \<and>
          eval new_evaluation_state (xs ! i) (push_applied_operation (xs ! i) (sts ! i)) = Some (Inr (sts ! Suc i, rs' ! i))"
    using Cons.IH [OF 2] unfolding evaluated_def by blast
  show ?case unfolding evaluated_def
  proof (intro conjI exI [of _ "st # sts"] allI impI)
    fix i assume "i < length (x # xs)"
    then show "\<exists>eval. which ((x # xs) ! i) < length (operation_evaluators T) \<and>
          operation_evaluators T ! which ((x # xs) ! i) = Some eval \<and>
          eval new_evaluation_state ((x # xs) ! i) (push_applied_operation ((x # xs) ! i) ((st # sts) ! i))
            = Some (Inr ((st # sts) ! Suc i, rs ! i))"
      using e all l(3) by (cases i) (simp_all add: rs)
  qed (simp_all add: rs l)
qed

text \<open>The checks that a transaction has passed when it was applied in the state \<open>st\<close>.\<close>

definition admissible :: "('sig, ('sig, 'z) node) tx_env \<Rightarrow> 'sig processed_transaction \<Rightarrow> ('sig, 'z) node \<Rightarrow> bool" where
  "admissible T trx st \<longleftrightarrow>
     operations trx \<noteq> [] \<and> (\<forall>x\<in>set (operations trx). operation_validate (validation T) x = Some (Inr ())) \<and>
     (skips st skip_transaction_dupe_check \<or> \<not> is_known_transaction st (transaction_id T trx)) \<and>
     (skips st skip_transaction_signatures \<or> skips st skip_authority_check \<or> verify_transaction_authority T trx st = Inr ()) \<and>
     (0 < head_block_num st \<longrightarrow>
        (skips st skip_tapos_check \<or>
          (\<exists>i. block_summaries (objects st) (ref_block_num trx) = Some i \<and> ref_block_prefix trx = id_hash1 i)) \<and>
        head_block_time st \<le> expiration trx \<and>
        expiration trx \<le> (head_block_time st + maximum_time_until_expiration (gpo_parameters (gpo st))) mod 2 ^ 32)"

lemma first_failure_Inr: "first_failure rs = Some (Inr ()) \<longleftrightarrow> (\<forall>r\<in>set rs. r = Some (Inr ()))"
  by (induction rs) (auto simp: bindO_Inr_iff)

lemma and_or_zero: "(w :: 32 word) AND (a OR b) = 0 \<longleftrightarrow> w AND a = 0 \<and> w AND b = 0"
  by (auto simp: bit_eq_iff bit_simps)

lemma transaction_checks_iff: "transaction_checks T trx st = Some (Inr ()) \<longleftrightarrow> admissible T trx st"
  by (auto simp: transaction_checks_def admissible_def validate_transaction_ops_def bindO_Inr_iff res_simps first_failure_Inr skips_def
      and_or_zero is_known_transaction_def check_reference_block_def check_expiration_def Let_def)

lemma apply_transaction_inner_Inr:
  assumes "apply_transaction_inner T trx st = Some (Inr (st', ptrx))"
  obtains results where "admissible T trx st"
    and "apply_operations T new_evaluation_state (operations trx)
      (if skips st skip_transaction_dupe_check then st else record_transaction (transaction_id T trx) trx st) = Some (Inr (st', results))"
    and "temp_account_empty st'" and "ptrx = trx\<lparr>operation_results := results\<rparr>"
  using assms unfolding apply_transaction_inner_def Let_def
  by (auto simp: bindO_Inr_iff res_simps transaction_checks_iff)

text \<open>
  A transaction body is spent when it is recorded, or has expired: the index forgets it only
  then.
\<close>

definition body_expiration :: "tx_body \<Rightarrow> time_point_sec" where
  "body_expiration x = fst (snd (snd x))"

definition recorded :: "('sig, 's) tx_env \<Rightarrow> ('sig, 'z) node \<Rightarrow> tx_body \<Rightarrow> bool" where
  "recorded T st x \<longleftrightarrow> (\<exists>(i, t)\<in>set (rows (transaction_index (objects st))).
     recent_trx_id t = digest_id T x \<and> expiration (recent_trx t) = body_expiration x)"

definition spent :: "('sig, 's) tx_env \<Rightarrow> ('sig, 'z) node \<Rightarrow> tx_body \<Rightarrow> bool" where
  "spent T st x \<longleftrightarrow> recorded T st x \<or> 0 < head_block_num st \<and> body_expiration x < head_block_time st"

lemma body_expiration_tx [simp]: "body_expiration (tx_body trx) = expiration trx"
  by (simp add: body_expiration_def tx_body_def)

lemma known_iff: "is_known_transaction st i \<longleftrightarrow> (\<exists>(j, t)\<in>set (rows (transaction_index (objects st))). recent_trx_id t = i)"
  by (auto simp: is_known_transaction_def find_transaction_def find_None_iff)

lemma admissible_fresh: "admissible T trx st \<Longrightarrow> \<not> skips st skip_transaction_dupe_check \<Longrightarrow> \<not> spent T st (tx_body trx)"
  by (fastforce simp: admissible_def spent_def recorded_def known_iff transaction_id_def)

lemma record_transaction_simps [simp]:
  "head_block_time (record_transaction i trx st) = head_block_time st"
  "head_block_num (record_transaction i trx st) = head_block_num st"
  "head_block_id (record_transaction i trx st) = head_block_id st"
  "skip_flags (record_transaction i trx st) = skip_flags st"
  "checkpoints (record_transaction i trx st) = checkpoints st"
  "rows (transaction_index (objects (record_transaction i trx st))) =
     rows (transaction_index (objects st)) @ [(next_instance (transaction_index (objects st)), \<lparr>recent_trx = trx\<lparr>operation_results := []\<rparr>, recent_trx_id = i\<rparr>)]"
  by (simp_all add: record_transaction_def head_block_time_def head_block_num_def head_block_id_def tbl_create_def)

lemma spent_record:
  "spent T st x \<Longrightarrow> spent T (record_transaction i trx st) x"
  "spent T (record_transaction (transaction_id T trx) trx st) (tx_body trx)"
  by (auto simp: spent_def recorded_def transaction_id_def)

lemma spent_same: "same_recent st st' \<Longrightarrow> spent T st' x = spent T st x"
  by (simp add: spent_def recorded_def same_recent_def)

lemma apply_transaction_inner_spends:
  assumes T: "evaluators_keep T" and ok: "apply_transaction_inner T trx st = Some (Inr (st', ptrx))"
    and check: "\<not> skips st skip_transaction_dupe_check"
  shows "\<not> spent T st (tx_body trx)" "spent T st' (tx_body trx)" "spent T st x \<Longrightarrow> spent T st' x"
proof -
  let ?st = "record_transaction (transaction_id T trx) trx st"
  obtain results where a: "admissible T trx st"
      and ops: "apply_operations T new_evaluation_state (operations trx) ?st = Some (Inr (st', results))"
    by (rule apply_transaction_inner_Inr [OF ok]) (simp add: check)
  have s: "same_recent ?st st'" using apply_operations_keeps [OF T ops] by blast
  show "\<not> spent T st (tx_body trx)" by (rule admissible_fresh [OF a check])
  show "spent T st' (tx_body trx)" "spent T st x \<Longrightarrow> spent T st' x" using spent_record [of T] by (simp_all add: spent_same [OF s])
qed

lemma clear_expired_simps [simp]:
  "head_block_time (clear_expired_transactions st) = head_block_time st"
  "head_block_num (clear_expired_transactions st) = head_block_num st"
  "head_block_id (clear_expired_transactions st) = head_block_id st"
  "skip_flags (clear_expired_transactions st) = skip_flags st"
  "checkpoints (clear_expired_transactions st) = checkpoints st"
  "rows (transaction_index (objects (clear_expired_transactions st))) =
     filter (\<lambda>(_, x). \<not> expiration (recent_trx x) < head_block_time st) (rows (transaction_index (objects st)))"
  by (simp_all add: clear_expired_transactions_def Let_def head_block_time_def head_block_num_def head_block_id_def)

lemma spent_clear:
  assumes s: "spent T st x" and n: "0 < head_block_num st"
  shows "spent T (clear_expired_transactions st) x"
proof (cases "body_expiration x < head_block_time st")
  case True
  then show ?thesis using n by (simp add: spent_def)
next
  case False
  then obtain i t where "(i, t) \<in> set (rows (transaction_index (objects st)))" "recent_trx_id t = digest_id T x"
      "expiration (recent_trx t) = body_expiration x"
    using s by (auto simp: spent_def recorded_def)
  then have "recorded T (clear_expired_transactions st) x"
    using False unfolding recorded_def by (intro bexI [of _ "(i, t)"]) simp_all
  then show ?thesis by (simp add: spent_def)
qed

lemma apply_transaction_Inr:
  assumes "apply_transaction T trx skip st = Some (Inr (st', ptrx))"
  obtains st1 where "apply_transaction_inner T trx (st\<lparr>skip_flags := skip\<rparr>) = Some (Inr (st1, ptrx))" and "st' = st1\<lparr>skip_flags := skip_flags st\<rparr>"
  using assms by (auto simp: apply_transaction_def bindO_Inr_iff)


subsection \<open>The evaluator of transfers in the table\<close>

definition transfer_evaluate ::
    "'e fee_env_scheme \<Rightarrow> pack_env \<Rightarrow> transaction_evaluation_state \<Rightarrow> operation \<Rightarrow> 'z chain \<Rightarrow> ('z chain \<times> operation_result) res option" where
  "transfer_evaluate E P ts x st =
     (case x of
        Transfer_op y \<Rightarrow> start_evaluate E P ts x (transfer_from y) (fee y) (transfer_do_evaluate E y) (transfer_do_apply E y) True st
      | _ \<Rightarrow> Some (throwE Bad_cast))"

lemma same_more: "ledger.more L' = ledger.more L \<Longrightarrow> transaction_index L' = transaction_index L"
  by (cases L, cases L') (simp add: ledger.defs)

lemma on_ledger_keeps:
  assumes "on_ledger f st = Inr st'" and "\<And>L'. f (objects st) = Inr L' \<Longrightarrow> ledger.more L' = ledger.more (objects st)"
  shows "same_recent st st'"
  using assms same_more by (auto simp: on_ledger_def bindE_eq_Inr same_recent_def head_block_id_def head_block_time_def head_block_num_def)

lemma ledger_modify_keeps:
  "modify_stats i g st = Inr st' \<Longrightarrow> same_recent st st'" "modify_dynamic i h st = Inr st' \<Longrightarrow> same_recent st st'"
  unfolding modify_stats_def modify_dynamic_def by (erule on_ledger_keeps, auto simp: bindE_eq_Inr)+

lemma adjust_balance_keeps:
  assumes "adjust_balance E i x st = Inr st'"
  shows "same_recent st st'"
proof (cases "amount x = 0")
  case True
  then show ?thesis using assms by (simp add: adjust_balance_def)
next
  case False
  with assms show ?thesis
    by (cases rule: adjust_balance_cases)
      (auto simp: same_recent_def head_block_id_def head_block_time_def head_block_num_def)
qed

lemma freeze_account_keeps: "freeze_account E i rate owner st = Inr (st', x) \<Longrightarrow> same_recent st st'"
  by (auto simp: freeze_account_def Let_def bindE_eq_Inr case_prod_beta same_recent_def head_block_id_def head_block_time_def
      head_block_num_def split: if_splits option.splits)

lemma transfer_apply_keeps:
  assumes "transfer_do_apply E x st = Inr (st', r)"
  shows "same_recent st st'"
proof -
  obtain st1 df dt st2 y z where 1: "(case running_deflation st (asset_id (transfer_amount x)) of None \<Rightarrow> Inr (st, 0, 0)
           | Some (i, d) \<Rightarrow> bindE (freeze_account E i (dfl_rate d) (transfer_from x) st) (\<lambda>(st, dlft_from).
                 bindE (freeze_account E i (dfl_rate d) (transfer_to x) st) (\<lambda>(st, dlft_to).
                 Inr (st, dlft_from, dlft_to)))) = Inr (st1, df, dt)"
      and 2: "adjust_balance E (transfer_from x) y st1 = Inr st2" "adjust_balance E (transfer_to x) z st2 = Inr st'"
    using assms by (auto simp: transfer_do_apply_def Let_def bindE_eq_Inr)
  have "same_recent st st1"
    using 1 by (auto simp: bindE_eq_Inr split: option.splits dest!: freeze_account_keeps intro: same_recent_trans)
  then show ?thesis using 2 adjust_balance_keeps same_recent_trans by blast
qed

lemma transfer_evaluate_keeps:
  assumes "transfer_evaluate E P ts x st = Some (Inr (st', r))"
  shows "same_recent st st'"
proof -
  obtain y where x: "x = Transfer_op y" using assms by (cases x) (simp_all add: transfer_evaluate_def throwE_def)
  obtain fs st1 st2 st3 z where 1: "evaluator_convert_fee E ts fs st = Inr st1" and 2: "evaluator_pay_fee E ts fs st1 = Inr st2"
      and 3: "transfer_do_apply E y st2 = Inr (st3, r)" and 4: "adjust_balance E (transfer_from y) z st3 = Inr st'"
    using assms by (auto simp: x transfer_evaluate_def start_evaluate_def apply_op_def bindO_Inr_iff bindE_eq_Inr)
  have "same_recent st st1" using 1 by (auto simp: evaluator_convert_fee_def dest: ledger_modify_keeps split: if_splits)
  moreover have "same_recent st1 st2" using 2 by (auto simp: evaluator_pay_fee_def dest: ledger_modify_keeps split: if_splits)
  ultimately show ?thesis using transfer_apply_keeps [OF 3] adjust_balance_keeps [OF 4] same_recent_trans by blast
qed

subsection \<open>A concrete node\<close>

text \<open>The accounts of the example chain, no fees, and a table that holds the evaluator of transfers.\<close>

definition demo_ledger :: "unit block_ledger" where
  "demo_ledger =
    \<lparr>accounts = accounts example_ledger, account_stats = account_stats example_ledger, balances = [((10, 0), 100)],
     assets = assets example_ledger, asset_dynamic = asset_dynamic example_ledger,
     vesting_balances = empty_table, limit_orders = empty_table, deflations = empty_table,
     account_deflations = empty_table, order_deflations = empty_table, bitassets = empty_table, call_orders = empty_table,
     force_settlements = empty_table, order_fee_configs = empty_table, applied_ops = [],
     transaction_index = empty_table, block_summaries = (\<lambda>_. Some null_block_id)\<rparr>"

definition demo_gpo :: global_property_object where
  "demo_gpo = \<lparr>gpo_parameters = default_chain_parameters \<lparr>parameters = [(0, Fee_sized 0 0)], scale = 0\<rparr>, pending_parameters = None,
     next_available_vote_id = 0, active_committee_members = [], active_witnesses = [4], next_construction_capital_rate_vote_time = None\<rparr>"

definition demo_dgpo :: "nat \<Rightarrow> dynamic_global_property_object" where
  "demo_dgpo n = \<lparr>head_block_number = n, dgp_head_block_id = null_block_id, dgp_time = 999, current_witness = 0,
     next_maintenance_time = 1000000, last_budget_time = 0, witness_budget = 0, accounts_registered_this_interval = 0,
     recently_missed_count = 0, current_aslot = n, recent_slots_filled = 0, dynamic_flags = 0, last_irreversible_block_num = 0\<rparr>"

definition demo_witness :: witness_object where
  "demo_witness = \<lparr>witness_account = 10, last_aslot = 0, signing_key = 0, pay_vb = None, witness_vote_id = 0, total_votes = 0,
     witness_obj_url = [], total_missed = 0, last_confirmed_block_num = 0\<rparr>"

definition demo_node :: "nat \<Rightarrow> (unit, unit) node" where
  "demo_node n = \<lparr>gpo = demo_gpo, dgpo = demo_dgpo n, current_shuffled_witnesses = [4], witnesses = [4 \<mapsto> demo_witness],
     checkpoints = [], skip_flags = 0, undo_max_size = 10, fork_max_size = 10, objects = demo_ledger\<rparr>"

definition demo_txs :: "(unit, (unit, unit) node) tx_env" where
  "demo_txs = \<lparr>digest_id = (\<lambda>x. fst x), recover_key = (\<lambda>_ _. 0), key_addresses = (\<lambda>_. []),
     validation = \<lparr>op_before_385 = False, op_rational = gcd_rational,
       op_ecc = \<lparr>ecc_blind = (\<lambda>f v. 0), ecc_verify_sum = (\<lambda>i u n. True), ecc_range_max_value = (\<lambda>p. Inr 0)\<rparr>\<rparr>,
     operation_evaluators = [Some (transfer_evaluate fee_std \<lparr>pack_op = (\<lambda>_. 100), pack_memo = (\<lambda>_. 10)\<rparr>)]\<rparr>"

definition demo_transfer :: transfer_operation where
  "demo_transfer = \<lparr>fee = mk_asset 0 0, transfer_from = 10, transfer_to = 11, transfer_amount = mk_asset 30 0, transfer_memo = None\<rparr>"

definition demo_trx :: "unit processed_transaction" where
  "demo_trx = \<lparr>operations = [Transfer_op demo_transfer], signatures = [], ref_block_num = 7, ref_block_prefix = 0, expiration = 2000,
     operation_results = []\<rparr>"

lemma demo_evaluators_keep: "evaluators_keep demo_txs"
  unfolding evaluators_keep_def by (auto simp: demo_txs_def dest: transfer_evaluate_keeps)

lemma demo_accounts: "tbl_find (accounts (objects (demo_node n))) 10 = Some (example_account ''alice'' 2)"
  "tbl_find (accounts (objects (demo_node n))) 11 = Some (example_account ''bob'' 3)"
  "tbl_find (account_stats (objects (demo_node n))) 2 = Some (example_statistics 10 5)"
  "tbl_find (assets (objects (demo_node n))) 0 = Some example_core_asset"
  by (simp_all add: demo_node_def demo_ledger_def example_ledger_def tbl_find_def)

lemma demo_authority: "verify_transaction_authority demo_txs demo_trx (demo_node n) = Inr ()"
proof -
  have r: "get_required_authorities operation_get_required_authorities (operations demo_trx) ([], [], []) = ([10], [], [])"
    by (simp add: get_required_authorities_def operation_get_required_authorities_def demo_trx_def demo_transfer_def
        required_active_authorities_def required_owner_authorities_def required_other_authorities_def)
  have a: "acct_active (example_account ''alice'' 2) = authority_empty" by (simp add: example_account_def)
  have c: "check_authority A m (Some authority_empty) s = Inr (True, s)" for A m s
    by (cases m) (simp_all add: check_authority_body_def authority_empty_def)
  have s: "signatures demo_trx = []" by (simp add: demo_trx_def)
  show ?thesis
    by (simp add: verify_transaction_authority_def get_signature_keys_def s verify_authority_def r check_active_def check_account_def c
        demo_accounts(1) a make_sign_state_def remove_unused_signatures_def GRAPHENE_COMMITTEE_ACCOUNT_def Let_def)
qed

lemma demo_checks: "transaction_checks demo_txs demo_trx (demo_node n) = Some (Inr ())"
proof -
  have 1: "validate_transaction_ops demo_txs demo_trx = Some (Inr ())"
    by (simp add: validate_transaction_ops_def demo_trx_def transfer_validate_def demo_transfer_def fee_not_negative_def mk_asset_def)
  have 2: "skip_flags (demo_node n) = 0" "find_transaction (demo_node n) i = None" for i
    by (simp_all add: demo_node_def find_transaction_def demo_ledger_def empty_table_def)
  have 3: "check_reference_block demo_trx (demo_node n) = Inr ()" "check_expiration demo_trx (demo_node n) = Inr ()"
    by (simp_all add: check_reference_block_def demo_node_def demo_ledger_def demo_trx_def id_hash1_def null_block_id_def getE_def
        check_expiration_def head_block_time_def demo_dgpo_def demo_gpo_def default_chain_parameters_def)
  show ?thesis by (simp add: transaction_checks_def 1 2 3 demo_authority skips_def)
qed

lemma demo_fee:
  "calculate_fee fee_std P (current_fees (gpo_parameters demo_gpo)) (Transfer_op demo_transfer) (unit_price 0) = Some (Inr (mk_asset 0 0))"
proof -
  have c: "fc_contract fee_std" and k: "fc_share_of fee_std 0 = Inr 0"
    using fee_std_contract by (simp_all add: fee_contract_def)
  have z: "to_share fee_std 0 = Inr 0" using to_share_small [OF c, of 0] by simp
  have m: "asset_mult (mk_asset 0 0) (unit_price 0) = Inr (mk_asset 0 0)"
    by (simp add: asset_mult_def unit_price_def mk_asset_def mk_price_def u128_muldiv_def GRAPHENE_MAX_SHARE_SUPPLY_def)
  have l: "fee_loop fee_std (unit_price 0) 0 (mk_asset 0 0) = Some (Inr (mk_asset 0 0))"
    by (subst fee_loop.simps) (simp add: m asset_less_def)
  have f: "calc_fee fee_std P (fee_parameters_for (current_fees (gpo_parameters demo_gpo)) (Transfer_op demo_transfer)) (Transfer_op demo_transfer) = Inr 0"
    by (simp add: fee_parameters_for_def demo_gpo_def default_chain_parameters_def demo_transfer_def transfer_calculate_fee_def k)
  have s: "scaled_fee (scale (current_fees (gpo_parameters demo_gpo))) 0 = 0"
    by (simp add: scaled_fee_def)
  show ?thesis
    unfolding calculate_fee_def f by (simp add: s z convert_fee_def m l GRAPHENE_MAX_SHARE_SUPPLY_def)
qed

lemma demo_authorized: "is_authorized_asset t (example_account nm i) 0 example_core_asset"
  by (simp add: is_authorized_asset_def slow_authorized_asset_def example_account_def example_core_asset_def flag_and_def)

lemma demo_prepare:
  assumes "accounts (objects st) = accounts demo_ledger" "account_stats (objects st) = account_stats demo_ledger"
    "assets (objects st) = assets demo_ledger" "asset_dynamic (objects st) = asset_dynamic demo_ledger"
  shows "prepare_fee fee_std 10 (mk_asset 0 0) st =
    Inr \<lparr>fee_from_account = mk_asset 0 0, core_fee_paid = 0, fee_paying_statistics = 2, fee_asset_dyn_data = 0\<rparr>"
  using assms demo_authorized
  by (simp add: prepare_fee_def demo_ledger_def example_eval_defs mk_asset_def tbl_get_def getE_def)

text \<open>A state with the objects of the example; only the transfer changes them.\<close>

definition demo_like :: "(unit, unit) node \<Rightarrow> bool" where
  "demo_like st \<longleftrightarrow> gpo st = demo_gpo \<and> accounts (objects st) = accounts demo_ledger \<and> account_stats (objects st) = account_stats demo_ledger \<and>
     assets (objects st) = assets demo_ledger \<and> asset_dynamic (objects st) = asset_dynamic demo_ledger \<and>
     balances (objects st) = [((10, 0), 100)] \<and> deflations (objects st) = empty_table"

lemma demo_evaluate: "demo_like st \<Longrightarrow> transfer_do_evaluate fee_std demo_transfer st = Inr ()"
  using demo_authorized [of "head_block_time st"]
  by (simp add: demo_like_def transfer_do_evaluate_def Let_def demo_transfer_def mk_asset_def tbl_get_def getE_def tbl_find_def demo_ledger_def
      example_ledger_def is_transfer_restricted_def running_deflation_def last_row_def empty_table_def safe_add_def fee_std_def fc_env.defs
      fc_int64_def get_balance_def) (simp add: example_core_asset_def flag_and_def)

lemma demo_apply: "balances (objects st) = [((10, 0), 100)] \<Longrightarrow> deflations (objects st) = empty_table \<Longrightarrow>
  transfer_do_apply fee_std demo_transfer st = Inr (st\<lparr>objects := (objects st)\<lparr>balances := [((10, 0), 70), ((11, 0), 30)]\<rparr>\<rparr>, Void_result)"
  by (simp add: transfer_do_apply_def demo_transfer_def running_deflation_def last_row_def empty_table_def mk_asset_def
      asset_neg_def asset_minus_def safe_neg_def safe_sub_def safe_add_def fc_int64_def adjust_balance_def asset_ge_def
      asset_less_def on_ledger_def fee_std_def fc_env.defs)

lemma demo_pay:
  assumes "demo_like st"
  defines "fs \<equiv> \<lparr>fee_from_account = mk_asset 0 0, core_fee_paid = 0, fee_paying_statistics = 2, fee_asset_dyn_data = 0\<rparr>"
  shows "\<exists>t. evaluator_pay_fee fee_std new_evaluation_state fs st = Inr (st\<lparr>objects := (objects st)\<lparr>account_stats := t\<rparr>\<rparr>)"
  using assms(1)
  by (simp add: fs_def demo_like_def evaluator_pay_fee_def new_evaluation_state_def modify_stats_def on_ledger_def tbl_modify_def tbl_get_def getE_def
      tbl_find_def demo_ledger_def example_ledger_def example_statistics_def stat_pay_fee_def safe_add_def fee_std_def fc_env.defs fc_int64_def) blast

lemma demo_operation:
  assumes "demo_like st"
  shows "\<exists>t. transfer_evaluate fee_std P new_evaluation_state (Transfer_op demo_transfer) st =
    Some (Inr (st\<lparr>objects := (objects st)\<lparr>account_stats := t, balances := [((10, 0), 70), ((11, 0), 30)]\<rparr>\<rparr>, Void_result))"
proof -
  let ?fs = "\<lparr>fee_from_account = mk_asset 0 0, core_fee_paid = 0, fee_paying_statistics = 2, fee_asset_dyn_data = 0\<rparr>"
  have x: "fee demo_transfer = mk_asset 0 0" "transfer_from demo_transfer = 10" by (simp_all add: demo_transfer_def)
  have ev: "evaluate_op fee_std P new_evaluation_state (Transfer_op demo_transfer) 10 (mk_asset 0 0) (transfer_do_evaluate fee_std demo_transfer) st = Some (Inr ?fs)"
    using assms demo_prepare [of st] demo_evaluate [OF assms] demo_fee
    by (simp add: evaluate_op_def demo_like_def new_evaluation_state_def mk_asset_def)
  obtain t where p: "evaluator_pay_fee fee_std new_evaluation_state ?fs st = Inr (st\<lparr>objects := (objects st)\<lparr>account_stats := t\<rparr>\<rparr>)"
    using demo_pay [OF assms] by blast
  have neg: "asset_neg fee_std (mk_asset 0 0) = Inr (mk_asset 0 0)"
    by (simp add: asset_neg_def safe_neg_def mk_asset_def fee_std_def fc_env.defs)
  have b: "balances (objects st) = [((10, 0), 100)]" "deflations (objects st) = empty_table" using assms by (simp_all add: demo_like_def)
  have ap: "apply_op fee_std new_evaluation_state 10 ?fs (transfer_do_apply fee_std demo_transfer) st =
      Inr (st\<lparr>objects := (objects st)\<lparr>account_stats := t, balances := [((10, 0), 70), ((11, 0), 30)]\<rparr>\<rparr>, Void_result)"
    by (simp add: apply_op_def evaluator_convert_fee_def p demo_apply b neg) (simp add: adjust_balance_def mk_asset_def)
  show ?thesis by (rule exI [of _ t]) (simp add: transfer_evaluate_def x start_evaluate_def ev ap)
qed

lemma demo_applies:
  "\<exists>t u. apply_transaction_inner demo_txs demo_trx (demo_node n) =
    Some (Inr ((demo_node n)\<lparr>objects := demo_ledger\<lparr>account_stats := t, balances := [((10, 0), 70), ((11, 0), 30)],
      applied_ops := [Transfer_op demo_transfer], transaction_index := u\<rparr>\<rparr>, demo_trx\<lparr>operation_results := [Void_result]\<rparr>))"
proof -
  let ?st = "record_transaction (transaction_id demo_txs demo_trx) demo_trx (demo_node n)"
  let ?st1 = "push_applied_operation (Transfer_op demo_transfer) ?st"
  have l: "demo_like ?st1"
    by (simp add: demo_like_def push_applied_operation_def record_transaction_def demo_node_def demo_ledger_def)
  obtain t where "transfer_evaluate fee_std \<lparr>pack_op = (\<lambda>_. 100), pack_memo = (\<lambda>_. 10)\<rparr> new_evaluation_state (Transfer_op demo_transfer) ?st1 =
      Some (Inr (?st1\<lparr>objects := (objects ?st1)\<lparr>account_stats := t, balances := [((10, 0), 70), ((11, 0), 30)]\<rparr>\<rparr>, Void_result))"
    using demo_operation [OF l] by blast
  then have "apply_operations demo_txs new_evaluation_state (operations demo_trx) ?st =
      Some (Inr (?st1\<lparr>objects := (objects ?st1)\<lparr>account_stats := t, balances := [((10, 0), 70), ((11, 0), 30)]\<rparr>\<rparr>, [Void_result]))"
    by (simp add: apply_operation_def demo_trx_def demo_txs_def)
  moreover have "\<not> skips (demo_node n) skip_transaction_dupe_check" by (simp add: skips_def demo_node_def)
  ultimately show ?thesis
    by (simp add: apply_transaction_inner_def demo_checks temp_account_empty_def GRAPHENE_TEMP_ACCOUNT_def)
      (auto simp: push_applied_operation_def record_transaction_def demo_node_def demo_ledger_def)
qed


end
