(* ===== verification/Block_Chain.thy ===== *)
theory Block_Chain
  imports Transactions Block_Log
begin

text \<open>
  The chain database as a whole: applying, pushing and popping blocks, switching forks and the
  queue of pending transactions (\<open>libraries/chain/db_block.cpp\<close> and
  \<open>libraries/chain/include/graphene/chain/db_with.hpp\<close>).

  The record \<open>database\<close> composes the state of the chain, the fork database, the log of blocks and
  the undo history. A session of the undo database is a copy of the objects: theory
  \<open>Undo_Database\<close> shows that the logs of changes implement the stack of copies that is used here
  (the machine \<open>spec_step\<close>). The undo database is enabled, as in a running node; a reindex, which
  disables it, is not modelled. Undoing restores the objects and leaves the other members, such as
  the flags and the sizes of the histories. An operation that throws keeps the changes made to
  those members before; \<open>None\<close> stands for a loop that does not end. A failed \<open>assert\<close> is the
  exception \<open>Undefined_behaviour\<close>.

  The record \<open>chain_env\<close> holds the functions of the \<open>fc\<close> library and the steps of a block that
  this development does not define (maintenance, and the expiry of proposals, orders, feeds and
  withdrawal permissions) as arguments. A theorem that needs them to leave the head block and the
  recent transactions alone says so (\<open>steps_keep\<close>).
\<close>

subsection \<open>Programs that may throw and keep their state\<close>

type_synonym ('s, 'a) prog = "'s \<Rightarrow> ('a res \<times> 's) option"

definition bindP :: "('s, 'a) prog \<Rightarrow> ('a \<Rightarrow> ('s, 'b) prog) \<Rightarrow> ('s, 'b) prog" where
  "bindP m f s =
     (case m s of None \<Rightarrow> None | Some (Inl e, s') \<Rightarrow> Some (Inl e, s') | Some (Inr x, s') \<Rightarrow> f x s')"

definition updateP :: "('s \<Rightarrow> 's) \<Rightarrow> ('s, unit) prog" where
  "updateP f s = Some (Inr (), f s)"

definition readP :: "('s \<Rightarrow> 'a res) \<Rightarrow> ('s, 'a) prog" where
  "readP f s = Some (f s, s)"

definition stepP :: "('s \<Rightarrow> 's res) \<Rightarrow> ('s, unit) prog" where
  "stepP f s = (case f s of Inl e \<Rightarrow> Some (Inl e, s) | Inr s' \<Rightarrow> Some (Inr (), s'))"

definition liftP :: "('s \<Rightarrow> ('s \<times> 'a) res option) \<Rightarrow> ('s, 'a) prog" where
  "liftP f s = (case f s of None \<Rightarrow> None | Some (Inl e) \<Rightarrow> Some (Inl e, s) | Some (Inr (s', x)) \<Rightarrow> Some (Inr x, s'))"

fun forP :: "('x \<Rightarrow> ('s, 'a) prog) \<Rightarrow> 'x list \<Rightarrow> ('s, unit) prog" where
  "forP f [] = (\<lambda>s. Some (Inr (), s))"
| "forP f (x # xs) = bindP (f x) (\<lambda>_. forP f xs)"

text \<open>The destructor of \<open>skip_flags_restorer\<close> runs whether or not the callback throws.\<close>

definition with_skip_flags :: "32 word \<Rightarrow> ('o chain_state, 'a) prog \<Rightarrow> ('o chain_state, 'a) prog" where
  "with_skip_flags skip m st =
     map_option (\<lambda>(r, st'). (r, st'\<lparr>skip_flags := skip_flags st\<rparr>)) (m (st\<lparr>skip_flags := skip\<rparr>))"

subsection \<open>The parts a chain is built from\<close>

type_synonym 'sig block = "'sig processed_transaction signed_block"

record ('sig, 'z, 'b) chain_env =
  hashes :: "'sig processed_transaction block_env"
  packing :: "('sig processed_transaction, 'b) raw_env"
  slots :: slot_env
  shares :: fc_env
  txs :: "('sig, ('sig, 'z) node) tx_env"
  merkle_digest :: "'sig processed_transaction \<Rightarrow> nat"
  merkle_pair :: "nat \<times> nat \<Rightarrow> nat"
  merkle_sum :: "nat \<Rightarrow> nat"
  signee :: "'sig block \<Rightarrow> public_key_type"
  perform_chain_maintenance :: "'sig block \<Rightarrow> ('sig, 'z) node \<Rightarrow> ('sig, 'z) node res"
  clear_expired_proposals :: "('sig, 'z) node \<Rightarrow> ('sig, 'z) node res"
  clear_expired_orders :: "('sig, 'z) node \<Rightarrow> ('sig, 'z) node res"
  update_expired_feeds :: "('sig, 'z) node \<Rightarrow> ('sig, 'z) node res"
  update_withdraw_permissions :: "('sig, 'z) node \<Rightarrow> ('sig, 'z) node res"

record ('sig, 'z, 'b) database =
  db_state :: "('sig, 'z) node"
  undo_copies :: "('sig, 'z) node list"
  undo_active :: nat
  fork_db :: "'sig processed_transaction fork_database"
  block_log :: "'b block_database"
  popped_tx :: "'sig processed_transaction list"
  pending_tx :: "'sig processed_transaction list"
  pending_tx_session :: bool

abbreviation db_head :: "('sig, 'z, 'b) database \<Rightarrow> block_id_type" where
  "db_head d \<equiv> head_block_id (db_state d)"

abbreviation onState :: "(('sig, 'z) node, 'a) prog \<Rightarrow> (('sig, 'z, 'b) database, 'a) prog" where
  "onState m \<equiv> \<lambda>d. map_option (\<lambda>(r, st). (r, d\<lparr>db_state := st\<rparr>)) (m (db_state d))"

subsection \<open>Looking up blocks\<close>

definition db_is_known_block :: "('sig, 'z, 'b) chain_env \<Rightarrow> ('sig, 'z, 'b) database \<Rightarrow> block_id_type \<Rightarrow> bool" where
  "db_is_known_block C d i \<longleftrightarrow> is_known_block (fork_db d) i \<or> contains_block (hashes C) (block_log d) i"

definition get_block_id_for_num :: "('sig, 'z, 'b) database \<Rightarrow> nat \<Rightarrow> block_id_type res" where
  "get_block_id_for_num d n = fetch_block_id (block_log d) n"

definition fetch_block_by_id :: "('sig, 'z, 'b) chain_env \<Rightarrow> ('sig, 'z, 'b) database \<Rightarrow> block_id_type \<Rightarrow> 'sig block option" where
  "fetch_block_by_id C d i =
     (case fetch_block (fork_db d) i of
        None \<Rightarrow> fetch_optional (hashes C) (packing C) (block_log d) i
      | Some p \<Rightarrow> Some (fi_data (item (fork_db d) p)))"

definition db_fetch_block_by_number :: "('sig, 'z, 'b) chain_env \<Rightarrow> ('sig, 'z, 'b) database \<Rightarrow> nat \<Rightarrow> 'sig block option" where
  "db_fetch_block_by_number C d n =
     (case fetch_block_by_number (fork_db d) n of
        [p] \<Rightarrow> Some (fi_data (item (fork_db d) p))
      | _ \<Rightarrow> fetch_by_number (hashes C) (packing C) (block_log d) n)"

text \<open>The identifiers on a fork, newest first, down to the block that both branches share.\<close>

definition get_block_ids_on_fork ::
    "('sig, 'z, 'b) chain_env \<Rightarrow> ('sig, 'z, 'b) database \<Rightarrow> block_id_type \<Rightarrow> block_id_type list res option" where
  "get_block_ids_on_fork C d head_of_fork =
     bindO (fetch_branch_from (hashes C) (fork_db d) (db_head d) head_of_fork) (\<lambda>(first, second).
     let prev = (\<lambda>p. previous (fi_data (item (fork_db d) p))) in
     if prev (last first) = prev (last second)
     then Some (Inr (map (\<lambda>p. fi_id (item (fork_db d) p)) second @ [prev (last first)]))
     else Some (throwE Undefined_behaviour))"

subsection \<open>Checkpoints\<close>

definition add_checkpoints :: "(nat \<times> block_id_type) list \<Rightarrow> 'o chain_state \<Rightarrow> 'o chain_state" where
  "add_checkpoints checkpts st = st\<lparr>checkpoints := fold (\<lambda>(n, i). fm_insert n i) checkpts (checkpoints st)\<rparr>"

definition before_last_checkpoint :: "'o chain_state \<Rightarrow> bool" where
  "before_last_checkpoint st \<longleftrightarrow> (case last_checkpoint st of None \<Rightarrow> False | Some c \<Rightarrow> head_block_num st \<le> fst c)"

subsection \<open>Applying a block\<close>

definition validate_block_header ::
    "('sig, 'z, 'b) chain_env \<Rightarrow> 32 word \<Rightarrow> 'sig block \<Rightarrow> 'o chain_state \<Rightarrow> witness_id_type res" where
  "validate_block_header C skip b st =
     bindE (assertE (head_block_id st = previous b) ''head_block_id() == next_block.previous'') (\<lambda>_.
     bindE (assertE (head_block_time st < timestamp b) ''head_block_time() < next_block.timestamp'') (\<lambda>_.
     bindE (getE (witnesses st) (block_witness b)) (\<lambda>w.
     bindE (if skip AND skip_witness_signature = 0
            then assertE (signee C b = signing_key w) ''next_block.validate_signee( witness.signing_key )'' else Inr ()) (\<lambda>_.
     bindE (if skip AND skip_witness_schedule_check = 0 then
              bindE (get_slot_at_time st (timestamp b)) (\<lambda>slot_num.
              bindE (assertE (0 < slot_num) ''slot_num > 0'') (\<lambda>_.
              bindE (get_scheduled_witness st slot_num) (\<lambda>scheduled_witness.
              assertE (block_witness b = scheduled_witness) ''Witness produced block at wrong time'')))
            else Inr ()) (\<lambda>_.
     Inr (block_witness b))))))"

definition clear_applied_ops :: "'z chain \<Rightarrow> 'z chain" where
  "clear_applied_ops st = st\<lparr>objects := objects st\<lparr>applied_ops := []\<rparr>\<rparr>"

text \<open>The root of a block without transactions is the zero checksum.\<close>

definition merkle_ok :: "('sig, 'z, 'b) chain_env \<Rightarrow> 'sig block \<Rightarrow> bool" where
  "merkle_ok C b \<longleftrightarrow>
     transaction_merkle_root b = calculate_merkle_root (merkle_digest C) (merkle_pair C) (merkle_sum C) 0 b"

text \<open>
  \<open>_apply_block\<close> up to \<open>update_global_dynamic_data\<close>, which sets the sizes of the histories, and
  the rest. The result of the first part is the signing witness and whether maintenance is due.
\<close>

definition apply_block_transactions :: "('sig, 'z, 'b) chain_env \<Rightarrow> 'sig block \<Rightarrow> (('sig, 'z) node, witness_id_type \<times> bool) prog" where
  "apply_block_transactions C b st =
     (let skip = skip_flags st in
      bindP (updateP clear_applied_ops) (\<lambda>_.
      bindP (readP (\<lambda>_. assertE (skip AND skip_merkle_check \<noteq> 0 \<or> merkle_ok C b) ''merkle root'')) (\<lambda>_.
      bindP (readP (validate_block_header C skip b)) (\<lambda>signing_witness.
      bindP (readP (\<lambda>st. Inr (next_maintenance_time (dgpo st) \<le> timestamp b))) (\<lambda>maint_needed.
      bindP (forP (\<lambda>trx. liftP (apply_transaction (txs C) trx skip)) (transactions b)) (\<lambda>_.
      bindP (stepP (update_global_dynamic_data (slots C) (hashes C) b)) (\<lambda>_.
      readP (\<lambda>_. Inr (signing_witness, maint_needed)))))))) st)"

definition apply_block_updates :: "('sig, 'z, 'b) chain_env \<Rightarrow> 'sig block \<Rightarrow> witness_id_type \<times> bool \<Rightarrow> (('sig, 'z) node, unit) prog" where
  "apply_block_updates C b = (\<lambda>(signing_witness, maint_needed).
     bindP (stepP (update_signing_witness (shares C) (deposit_witness_pay (shares C)) (hashes C) signing_witness b)) (\<lambda>_.
     bindP (stepP update_last_irreversible_block) (\<lambda>_.
     bindP (if maint_needed then stepP (perform_chain_maintenance C b) else updateP id) (\<lambda>_.
     bindP (stepP (create_block_summary (hashes C) b)) (\<lambda>_.
     bindP (updateP clear_expired_transactions) (\<lambda>_.
     bindP (stepP (clear_expired_proposals C)) (\<lambda>_.
     bindP (stepP (clear_expired_orders C)) (\<lambda>_.
     bindP (stepP (update_expired_feeds C)) (\<lambda>_.
     bindP (stepP (update_withdraw_permissions C)) (\<lambda>_.
     bindP (updateP (update_maintenance_flag maint_needed)) (\<lambda>_.
     bindP (stepP update_witness_schedule) (\<lambda>_.
     updateP clear_applied_ops))))))))))))"

text \<open>
  \<open>apply_block\<close>: a block that a checkpoint names must be that block, and up to the last
  checkpoint everything that can be skipped is. The checkpoints are ignored when the last one is
  the zero identifier.
\<close>

definition checkpoint_skip :: "('sig, 'z, 'b) chain_env \<Rightarrow> 'sig block \<Rightarrow> 32 word \<Rightarrow> 'o chain_state \<Rightarrow> 32 word res" where
  "checkpoint_skip C b skip st =
     (case last_checkpoint st of
        None \<Rightarrow> Inr skip
      | Some (n, i) \<Rightarrow>
          if i = null_block_id then Inr skip
          else
            bindE (case map_of (checkpoints st) (block_num (hashes C) b) of
                     None \<Rightarrow> Inr ()
                   | Some j \<Rightarrow> assertE (block_id (hashes C) b = j) ''Block did not match checkpoint'') (\<lambda>_.
            Inr (if block_num (hashes C) b \<le> n then NOT 0 else skip)))"

definition apply_block_state :: "('sig, 'z, 'b) chain_env \<Rightarrow> 'sig block \<Rightarrow> 32 word \<Rightarrow> (('sig, 'z) node, unit) prog" where
  "apply_block_state C b skip =
     bindP (readP (checkpoint_skip C b skip)) (\<lambda>skip.
     with_skip_flags skip (bindP (apply_block_transactions C b) (apply_block_updates C b)))"

text \<open>
  The same on the database: the new size of the fork database takes effect when
  \<open>update_global_dynamic_data\<close> has succeeded, and stays if a later step throws.
\<close>

definition resize_fork_db :: "('sig, 'z, 'b) database \<Rightarrow> ('sig, 'z, 'b) database" where
  "resize_fork_db d = d\<lparr>fork_db := set_max_size (fork_max_size (db_state d)) (fork_db d)\<rparr>"

definition apply_block :: "('sig, 'z, 'b) chain_env \<Rightarrow> 'sig block \<Rightarrow> 32 word \<Rightarrow> (('sig, 'z, 'b) database, unit) prog" where
  "apply_block C b skip d =
     bindP (onState (readP (checkpoint_skip C b skip))) (\<lambda>skip d.
       let old = skip_flags (db_state d) in
       map_option (\<lambda>(r, d). (r, d\<lparr>db_state := (db_state d)\<lparr>skip_flags := old\<rparr>\<rparr>))
         (bindP (onState (apply_block_transactions C b)) (\<lambda>r.
          bindP (updateP resize_fork_db) (\<lambda>_.
          onState (apply_block_updates C b r))) (d\<lparr>db_state := (db_state d)\<lparr>skip_flags := skip\<rparr>\<rparr>))) d"

subsection \<open>Undo sessions\<close>

text \<open>What undoing leaves: the flags, the checkpoints, the sizes and the observers' operations.\<close>

definition restore_objects :: "('sig, 'z) node \<Rightarrow> ('sig, 'z) node \<Rightarrow> ('sig, 'z) node" where
  "restore_objects copy st =
     st\<lparr>gpo := gpo copy, dgpo := dgpo copy, current_shuffled_witnesses := current_shuffled_witnesses copy,
        witnesses := witnesses copy, objects := (objects copy)\<lparr>applied_ops := applied_ops (objects st)\<rparr>\<rparr>"

definition start_session :: "('sig, 'z, 'b) database \<Rightarrow> ('sig, 'z, 'b) database" where
  "start_session d =
     (let us = take (undo_max_size (db_state d)) (undo_copies d) in
      d\<lparr>undo_copies := (if us = [] then [db_state d, db_state d] else db_state d # us), undo_active := undo_active d + 1\<rparr>)"

definition discard_session :: "('sig, 'z, 'b) database \<Rightarrow> ('sig, 'z, 'b) database" where
  "discard_session d =
     (case undo_copies d of
        [] \<Rightarrow> d
      | u # us \<Rightarrow> d\<lparr>db_state := restore_objects u (db_state d), undo_copies := (if us = [] then [u] else us),
                    undo_active := undo_active d - 1\<rparr>)"

definition commit_session :: "('sig, 'z, 'b) database \<Rightarrow> ('sig, 'z, 'b) database" where
  "commit_session d = d\<lparr>undo_active := undo_active d - 1\<rparr>"

definition merge_session :: "('sig, 'z, 'b) database \<Rightarrow> ('sig, 'z, 'b) database" where
  "merge_session d = d\<lparr>undo_copies := tl (undo_copies d), undo_active := undo_active d - 1\<rparr>"

definition pop_undo :: "('sig, 'z, 'b) database \<Rightarrow> ('sig, 'z, 'b) database res" where
  "pop_undo d =
     bindE (assertE (undo_active d = 0) ''_active_sessions == 0'') (\<lambda>_.
     case undo_copies d of
       [] \<Rightarrow> throwE (Assert_exception ''!_stack.empty()'')
     | u # us \<Rightarrow> Inr (d\<lparr>db_state := restore_objects u (db_state d), undo_copies := us\<rparr>))"

text \<open>A block of code with a session: the destructor undoes what is not committed or merged.\<close>

definition in_session ::
    "(('sig, 'z, 'b) database \<Rightarrow> ('sig, 'z, 'b) database) \<Rightarrow> (('sig, 'z, 'b) database, 'a) prog \<Rightarrow> (('sig, 'z, 'b) database, 'a) prog" where
  "in_session finish m d =
     (case m (start_session d) of
        None \<Rightarrow> None
      | Some (Inl e, d') \<Rightarrow> Some (Inl e, discard_session d')
      | Some (Inr x, d') \<Rightarrow> Some (Inr x, finish d'))"

definition reset_pending_session :: "('sig, 'z, 'b) database \<Rightarrow> ('sig, 'z, 'b) database" where
  "reset_pending_session d = (if pending_tx_session d then (discard_session d)\<lparr>pending_tx_session := False\<rparr> else d)"

subsection \<open>Pushing and popping blocks\<close>

definition push_one :: "('sig, 'z, 'b) chain_env \<Rightarrow> 32 word \<Rightarrow> block_id_type \<Rightarrow> 'sig block \<Rightarrow> (('sig, 'z, 'b) database, unit) prog" where
  "push_one C skip i b =
     in_session commit_session
       (bindP (apply_block C b skip) (\<lambda>_. updateP (\<lambda>d. d\<lparr>block_log := store_block (hashes C) (packing C) i b (block_log d)\<rparr>)))"

text \<open>The popped transactions are kept as signed, without their results.\<close>

definition pop_block :: "('sig, 'z, 'b) chain_env \<Rightarrow> (('sig, 'z, 'b) database, unit) prog" where
  "pop_block C =
     bindP (updateP reset_pending_session) (\<lambda>_ d.
       let head_id = db_head d in
       case fetch_block_by_id C d head_id of
         None \<Rightarrow> Some (throwE Pop_empty_chain, d)
       | Some b \<Rightarrow>
           bindP (stepP (\<lambda>d. bindE (fork_pop_block (fork_db d)) (\<lambda>f. Inr (d\<lparr>fork_db := f\<rparr>)))) (\<lambda>_.
           bindP (stepP (\<lambda>d. bindE (remove_block (hashes C) head_id (block_log d)) (\<lambda>l. Inr (d\<lparr>block_log := l\<rparr>)))) (\<lambda>_.
           bindP (stepP pop_undo) (\<lambda>_.
           updateP (\<lambda>d. d\<lparr>popped_tx := map signed_part (transactions b) @ popped_tx d\<rparr>)))) d)"

partial_function (option) pop_until ::
    "('sig, 'z, 'b) chain_env \<Rightarrow> block_id_type \<Rightarrow> ('sig, 'z, 'b) database \<Rightarrow> (unit res \<times> ('sig, 'z, 'b) database) option" where
  "pop_until C i d =
     (if db_head d = i then Some (Inr (), d)
      else case pop_block C d of
        None \<Rightarrow> None
      | Some (Inl e, d') \<Rightarrow> Some (Inl e, d')
      | Some (Inr _, d') \<Rightarrow> pop_until C i d')"

text \<open>
  The branches hold pointers to items, and an item keeps its block. The old branch is stored
  again under the identifier of \<open>new_block\<close>.
\<close>

definition restore_branch ::
    "('sig, 'z, 'b) chain_env \<Rightarrow> 32 word \<Rightarrow> 'sig block \<Rightarrow> 'sig block list \<Rightarrow> (('sig, 'z, 'b) database, unit) prog" where
  "restore_branch C skip new_block bs = forP (push_one C skip (block_id (hashes C) new_block)) bs"

definition roll_back ::
    "('sig, 'z, 'b) chain_env \<Rightarrow> 32 word \<Rightarrow> 'sig block \<Rightarrow> item_ptr list \<Rightarrow> item_ptr list \<Rightarrow> fc_exception \<Rightarrow> (('sig, 'z, 'b) database, bool) prog" where
  "roll_back C skip new_block bad second e d =
     (let data = (\<lambda>p. fi_data (item (fork_db d) p));
          f = fold (\<lambda>p. fork_remove (block_id (hashes C) (data p))) bad (fork_db d)
      in
      bindP (pop_until C (previous (data (last second)))) (\<lambda>_.
      bindP (restore_branch C skip new_block (map data (rev second))) (\<lambda>_.
      readP (\<lambda>_. throwE e))) (d\<lparr>fork_db := fork_set_head (Some (hd second)) f\<rparr>))"

fun push_branch ::
    "('sig, 'z, 'b) chain_env \<Rightarrow> 32 word \<Rightarrow> 'sig block \<Rightarrow> item_ptr list \<Rightarrow> item_ptr list \<Rightarrow> (('sig, 'z, 'b) database, bool) prog" where
  "push_branch C skip new_block second [] d = Some (Inr True, d)"
| "push_branch C skip new_block second (p # ps) d =
     (case push_one C skip (fi_id (item (fork_db d) p)) (fi_data (item (fork_db d) p)) d of
        None \<Rightarrow> None
      | Some (Inr _, d') \<Rightarrow> push_branch C skip new_block second ps d'
      | Some (Inl e, d') \<Rightarrow> roll_back C skip new_block (p # ps) second e d')"

definition switch_forks :: "('sig, 'z, 'b) chain_env \<Rightarrow> 32 word \<Rightarrow> 'sig block \<Rightarrow> item_ptr \<Rightarrow> (('sig, 'z, 'b) database, bool) prog" where
  "switch_forks C skip new_block new_head d =
     (case fetch_branch_from (hashes C) (fork_db d) (block_id (hashes C) (fi_data (item (fork_db d) new_head))) (db_head d) of
        None \<Rightarrow> None
      | Some (Inl e) \<Rightarrow> Some (Inl e, d)
      | Some (Inr (first, second)) \<Rightarrow>
          bindP (pop_until C (previous (fi_data (item (fork_db d) (last second))))) (\<lambda>_.
          push_branch C skip new_block second (rev first)) d)"

definition push_direct :: "('sig, 'z, 'b) chain_env \<Rightarrow> 32 word \<Rightarrow> 'sig block \<Rightarrow> (('sig, 'z, 'b) database, bool) prog" where
  "push_direct C skip b d =
     (case push_one C skip (block_id (hashes C) b) b d of
        None \<Rightarrow> None
      | Some (Inl e, d') \<Rightarrow> Some (Inl e, d'\<lparr>fork_db := fork_remove (block_id (hashes C) b) (fork_db d')\<rparr>)
      | Some (Inr _, d') \<Rightarrow> Some (Inr False, d'))"

definition push_block_inner :: "('sig, 'z, 'b) chain_env \<Rightarrow> 'sig block \<Rightarrow> (('sig, 'z, 'b) database, bool) prog" where
  "push_block_inner C b d =
     (let skip = skip_flags (db_state d) in
      if skip AND skip_fork_db \<noteq> 0 then push_direct C skip b d
      else case fork_push_block (hashes C) b (fork_db d) of
        Inl e \<Rightarrow> Some (Inl e, d)
      | Inr (None, f) \<Rightarrow> Some (throwE Undefined_behaviour, d\<lparr>fork_db := f\<rparr>)
      | Inr (Some new_head, f) \<Rightarrow>
          let d = d\<lparr>fork_db := f\<rparr>; hb = fi_data (item f new_head) in
          if previous hb = db_head d then push_direct C skip b d
          else if head_block_num (db_state d) < block_num (hashes C) hb then switch_forks C skip b new_head d
          else Some (Inr False, d))"

subsection \<open>Pending transactions\<close>

definition push_transaction_inner :: "('sig, 'z, 'b) chain_env \<Rightarrow> 'sig processed_transaction \<Rightarrow> (('sig, 'z, 'b) database, 'sig processed_transaction) prog" where
  "push_transaction_inner C trx d =
     in_session merge_session
       (bindP (onState (liftP (apply_transaction_inner (txs C) trx))) (\<lambda>ptrx.
        bindP (updateP (\<lambda>d. d\<lparr>pending_tx := pending_tx d @ [ptrx]\<rparr>)) (\<lambda>_.
        readP (\<lambda>_. Inr ptrx))))
       (if pending_tx_session d then d else (start_session d)\<lparr>pending_tx_session := True\<rparr>)"

definition push_transaction :: "('sig, 'z, 'b) chain_env \<Rightarrow> 'sig processed_transaction \<Rightarrow> 32 word \<Rightarrow> (('sig, 'z, 'b) database, 'sig processed_transaction) prog" where
  "push_transaction C trx skip d =
     map_option (\<lambda>(r, d'). (r, d'\<lparr>db_state := (db_state d')\<lparr>skip_flags := skip_flags (db_state d)\<rparr>\<rparr>))
       (push_transaction_inner C trx (d\<lparr>db_state := (db_state d)\<lparr>skip_flags := skip\<rparr>\<rparr>))"

text \<open>The session is destroyed without a commit: the transaction is only tried.\<close>

definition validate_transaction :: "('sig, 'z, 'b) chain_env \<Rightarrow> 'sig processed_transaction \<Rightarrow> (('sig, 'z, 'b) database, 'sig processed_transaction) prog" where
  "validate_transaction C trx = in_session discard_session (onState (liftP (apply_transaction_inner (txs C) trx)))"

text \<open>
  The assertion at the start, that a queue that is not empty has its session, holds in the only
  use: the queue has been moved away before.
\<close>

definition clear_pending :: "('sig, 'z, 'b) database \<Rightarrow> ('sig, 'z, 'b) database" where
  "clear_pending d = reset_pending_session (d\<lparr>pending_tx := []\<rparr>)"

text \<open>Transactions are pushed again; exceptions are dropped.\<close>

fun push_again :: "('sig, 'z, 'b) chain_env \<Rightarrow> 'sig processed_transaction list \<Rightarrow> ('sig, 'z, 'b) database \<Rightarrow> ('sig, 'z, 'b) database option" where
  "push_again C [] d = Some d"
| "push_again C (trx # trxs) d =
     (if is_known_transaction (db_state d) (transaction_id (txs C) trx) then push_again C trxs d
      else case push_transaction_inner C trx d of None \<Rightarrow> None | Some (_, d') \<Rightarrow> push_again C trxs d')"

definition restore_pending :: "('sig, 'z, 'b) chain_env \<Rightarrow> 'sig processed_transaction list \<Rightarrow> ('sig, 'z, 'b) database \<Rightarrow> ('sig, 'z, 'b) database option" where
  "restore_pending C pending d =
     (case push_again C (popped_tx d) d of None \<Rightarrow> None | Some d \<Rightarrow> push_again C pending (d\<lparr>popped_tx := []\<rparr>))"

definition without_pending_transactions ::
    "('sig, 'z, 'b) chain_env \<Rightarrow> (('sig, 'z, 'b) database, 'a) prog \<Rightarrow> (('sig, 'z, 'b) database, 'a) prog" where
  "without_pending_transactions C m d =
     (case m (clear_pending (d\<lparr>pending_tx := []\<rparr>)) of
        None \<Rightarrow> None
      | Some (r, d') \<Rightarrow> map_option (\<lambda>d''. (r, d'')) (restore_pending C (pending_tx d) d'))"

definition push_block :: "('sig, 'z, 'b) chain_env \<Rightarrow> 'sig block \<Rightarrow> 32 word \<Rightarrow> (('sig, 'z, 'b) database, bool) prog" where
  "push_block C b skip d =
     map_option (\<lambda>(r, d'). (r, d'\<lparr>db_state := (db_state d')\<lparr>skip_flags := skip_flags (db_state d)\<rparr>\<rparr>))
       (without_pending_transactions C (push_block_inner C b) (d\<lparr>db_state := (db_state d)\<lparr>skip_flags := skip\<rparr>\<rparr>))"

subsection \<open>Reading off a run\<close>

lemma bindP_Inr: "bindP m f s = Some (Inr y, s'') \<longleftrightarrow> (\<exists>x s'. m s = Some (Inr x, s') \<and> f x s' = Some (Inr y, s''))"
  by (auto simp: bindP_def split: option.splits sum.splits prod.splits)

lemma bindP_cases:
  assumes "bindP m f s = Some (r, s'')"
  obtains e where "m s = Some (Inl e, s'')" "r = Inl e" | x s' where "m s = Some (Inr x, s')" "f x s' = Some (r, s'')"
  using assms by (auto simp: bindP_def split: option.splits sum.splits prod.splits)

lemma simple_Inr [simp]:
  "updateP f s = Some (Inr x, s') \<longleftrightarrow> s' = f s"
  "readP g s = Some (Inr y, s') \<longleftrightarrow> g s = Inr y \<and> s' = s"
  "stepP h s = Some (Inr u, s') \<longleftrightarrow> h s = Inr s'"
  "liftP k s = Some (Inr z, s') \<longleftrightarrow> k s = Some (Inr (s', z))"
  by (auto simp: updateP_def readP_def stepP_def liftP_def split: sum.splits option.splits)

lemma forP_Inr_Cons:
  "forP f (x # xs) s = Some (Inr (), s'') \<longleftrightarrow> (\<exists>y s'. f x s = Some (Inr y, s') \<and> forP f xs s' = Some (Inr (), s''))"
  by (simp add: bindP_Inr)

lemma with_skip_flags_Some:
  "with_skip_flags skip m st = Some (r, st') \<longleftrightarrow>
    (\<exists>st1. m (st\<lparr>skip_flags := skip\<rparr>) = Some (r, st1) \<and> st' = st1\<lparr>skip_flags := skip_flags st\<rparr>)"
  by (auto simp: with_skip_flags_def)

subsection \<open>What a block does to the head\<close>

text \<open>
  What the steps of a block that are arguments of the model leave alone: the head block, the
  recent transactions and the flags.
\<close>

definition steps_keep :: "('sig, 'z, 'b) chain_env \<Rightarrow> bool" where
  "steps_keep C \<longleftrightarrow> (\<forall>b f st st'. f \<in> {perform_chain_maintenance C b, clear_expired_proposals C, clear_expired_orders C,
       update_expired_feeds C, update_withdraw_permissions C} \<longrightarrow> f st = Inr st' \<longrightarrow> same_recent st st')"

lemma head_simps [simp]:
  "head_block_id (st\<lparr>skip_flags := w\<rparr>) = head_block_id st" "head_block_time (st\<lparr>skip_flags := w\<rparr>) = head_block_time st"
  "head_block_num (st\<lparr>skip_flags := w\<rparr>) = head_block_num st"
  "head_block_id (clear_applied_ops ch) = head_block_id ch" "head_block_time (clear_applied_ops ch) = head_block_time ch"
  "head_block_num (clear_applied_ops ch) = head_block_num ch" "skip_flags (clear_applied_ops ch) = skip_flags ch"
  by (simp_all add: head_block_id_def head_block_time_def head_block_num_def clear_applied_ops_def)

lemma same_recent_clear: "same_recent st (clear_applied_ops st)"
  by (simp add: same_recent_def clear_applied_ops_def head_block_id_def head_block_time_def head_block_num_def)

lemma foldE_keeps:
  assumes "\<And>x st st'. x \<in> set xs \<Longrightarrow> f x st = Inr st' \<Longrightarrow> R st st'" and "\<And>st. R st st" and "\<And>a b c. R a b \<Longrightarrow> R b c \<Longrightarrow> R a c"
  shows "foldE f xs st = Inr st' \<Longrightarrow> R st st'"
  using assms(1)
proof (induction xs arbitrary: st)
  case (Cons x xs)
  then obtain st1 where "f x st = Inr st1" "foldE f xs st1 = Inr st'" by (auto simp: bindE_eq_Inr)
  then show ?case using Cons assms(3) by (metis list.set_intros)
qed (use assms(2) in simp)

lemma modify_witness_keeps: "modify_witness i f st = Inr st' \<Longrightarrow> same_recent st st' \<and> dgpo st' = dgpo st \<and> gpo st' = gpo st"
  by (auto simp: modify_witness_def res_simps same_recent_def head_block_id_def head_block_time_def head_block_num_def)

lemma update_dgpo_keeps:
  assumes "\<And>g. head_block_number (f g) = head_block_number g \<and> dgp_head_block_id (f g) = dgp_head_block_id g \<and> dgp_time (f g) = dgp_time g"
  shows "same_recent st (update_dgpo f st)"
  using assms by (simp add: same_recent_def update_dgpo_def head_block_id_def head_block_time_def head_block_num_def)

lemma count_missed_keeps: "count_missed b n st = Inr st' \<Longrightarrow> same_recent st st'"
  unfolding count_missed_def
  by (rule foldE_keeps) (auto simp: bindE_eq_Inr dest: modify_witness_keeps split: if_splits intro: same_recent_trans)

text \<open>The last part of \<open>update_global_dynamic_data\<close>: the new head and the size of the histories.\<close>

definition with_new_head :: "slot_env \<Rightarrow> 'tx block_env \<Rightarrow> 'tx signed_block \<Rightarrow> nat \<Rightarrow> 'o chain_state \<Rightarrow> 'o chain_state" where
  "with_new_head S H b slot st = update_dgpo (\<lambda>dgp. dgp
     \<lparr>recently_missed_count := next_missed_count H st b (slot - 1) (recently_missed_count dgp),
      head_block_number := block_num H b, dgp_head_block_id := block_id H b, dgp_time := timestamp b,
      current_witness := block_witness b,
      recent_slots_filled := fc_shl S (fc_shl S (recent_slots_filled dgp) 1 + 1) (slot - 1),
      current_aslot := (current_aslot dgp + (slot - 1) + 1) mod 2 ^ 64\<rparr>) st"

definition history_depth :: "'o chain_state \<Rightarrow> nat" where
  "history_depth st = nat ((int (head_block_num st) - int (last_irreversible_block_num (dgpo st))) mod 2 ^ 32)"

lemma update_global_dynamic_data_eq:
  "update_global_dynamic_data S H b st =
     bindE (get_slot_at_time st (timestamp b)) (\<lambda>slot.
     if slot = 0 then throwE Undefined_behaviour
     else bindE (count_missed b (slot - 1) st) (\<lambda>st.
       let st = with_new_head S H b slot st in
       bindE (if skip_flags st AND skip_undo_history_check = 0
              then if history_depth st < GRAPHENE_MAX_UNDO_HISTORY then Inr () else throwE Undo_database_exception
              else Inr ()) (\<lambda>_.
       Inr (st\<lparr>undo_max_size := (history_depth st + 1) mod 2 ^ 32, fork_max_size := (history_depth st + 1) mod 2 ^ 32\<rparr>))))"
  by (simp only: update_global_dynamic_data_def Let_def with_new_head_def history_depth_def)

lemma with_new_head_simps [simp]:
  "head_block_id (with_new_head S H b n st) = block_id H b" "head_block_time (with_new_head S H b n st) = timestamp b"
  "head_block_num (with_new_head S H b n st) = block_num H b" "objects (with_new_head S H b n st) = objects st"
  "skip_flags (with_new_head S H b n st) = skip_flags st" "checkpoints (with_new_head S H b n st) = checkpoints st"
  by (simp_all add: with_new_head_def update_dgpo_def head_block_id_def head_block_time_def head_block_num_def)

lemma update_global_dynamic_data_head:
  assumes "update_global_dynamic_data S H b st = Inr st'"
  shows "head_block_id st' = block_id H b" "head_block_time st' = timestamp b" "head_block_num st' = block_num H b"
    "transaction_index (objects st') = transaction_index (objects st)" "skip_flags st' = skip_flags st" "checkpoints st' = checkpoints st"
proof -
  obtain slot st1 u n where 1: "count_missed b (slot - 1) st = Inr st1"
      and 2: "st' = (with_new_head S H b slot st1)\<lparr>undo_max_size := u, fork_max_size := n\<rparr>"
    using assms unfolding update_global_dynamic_data_eq Let_def by (auto simp: bindE_eq_Inr throwE_not_Inr split: if_split_asm)
  show "head_block_id st' = block_id H b" "head_block_time st' = timestamp b" "head_block_num st' = block_num H b"
    "transaction_index (objects st') = transaction_index (objects st)" "skip_flags st' = skip_flags st" "checkpoints st' = checkpoints st"
    using count_missed_keeps [OF 1] with_new_head_simps [of S H b slot st1]
    by (simp_all add: 2 head_block_id_def head_block_time_def head_block_num_def same_recent_def)
qed

lemma modify_vesting_keeps: "modify_vesting i f st = Inr st' \<Longrightarrow> same_recent st st'"
  unfolding modify_vesting_def by (erule on_ledger_keeps) (auto simp: bindE_eq_Inr)

lemma deposit_witness_pay_keeps:
  assumes "deposit_witness_pay E w amt st = Inr st'"
  shows "same_recent st st'"
proof -
  have lazy: "same_recent st st1" if d: "deposit_lazy_vesting E ovbid amt n owner req st = Inr (st1, i)" for st1 i ovbid n owner req
  proof (cases "amt = 0")
    case False
    then obtain target where "lazy_target st ovbid n owner = Inr target" using d by (auto simp: deposit_lazy_vesting_def bindE_eq_Inr Let_def)
    then show ?thesis
      using d False modify_vesting_keeps [of _ _ st]
      by (cases target) (auto simp: deposit_lazy_vesting_def bindE_eq_Inr Let_def tbl_create_def same_recent_def head_block_id_def
          head_block_time_def head_block_num_def)
  qed (use d in \<open>simp add: deposit_lazy_vesting_def\<close>)
  then show ?thesis
    using assms modify_witness_keeps same_recent_trans [OF lazy]
    by (fastforce simp: deposit_witness_pay_def bindE_eq_Inr split: if_splits option.splits)
qed

lemma update_signing_witness_keeps:
  assumes "update_signing_witness E (deposit_witness_pay E) H w b st = Inr st'"
  shows "same_recent st st'"
proof -
  obtain f st1 g where "deposit_witness_pay E w f (update_dgpo (\<lambda>d. d\<lparr>witness_budget := g\<rparr>) st) = Inr st1"
      and "\<exists>h. modify_witness w h st1 = Inr st'"
    using assms by (auto simp: update_signing_witness_def bindE_eq_Inr Let_def)
  then show ?thesis
    using update_dgpo_keeps [of "\<lambda>d. d\<lparr>witness_budget := g\<rparr>" st] deposit_witness_pay_keeps modify_witness_keeps same_recent_trans
    by (metis (no_types, lifting) dynamic_global_property_object.select_convs(1-3) dynamic_global_property_object.update_convs(7)
        dynamic_global_property_object.surjective)
qed

lemma update_last_irreversible_block_keeps: "update_last_irreversible_block st = Inr st' \<Longrightarrow> same_recent st st'"
  by (auto simp: update_last_irreversible_block_def bindE_eq_Inr Let_def throwE_not_Inr intro: update_dgpo_keeps split: if_splits)

lemma create_block_summary_keeps: "create_block_summary H b st = Inr st' \<Longrightarrow> same_recent st st'"
  by (auto simp: create_block_summary_def Let_def bindE_eq_Inr same_recent_def head_block_id_def head_block_time_def head_block_num_def)

lemma update_witness_schedule_keeps: "update_witness_schedule st = Inr st' \<Longrightarrow> same_recent st st'"
  by (auto simp: update_witness_schedule_def Let_def throwE_not_Inr same_recent_def head_block_id_def head_block_time_def head_block_num_def
      split: if_splits)

lemma update_maintenance_flag_keeps: "same_recent st (update_maintenance_flag m st)"
  unfolding update_maintenance_flag_def by (rule update_dgpo_keeps) simp

text \<open>The second part of a block: it forgets expired transactions and otherwise keeps what was recorded.\<close>

lemma apply_block_updates_keeps:
  assumes C: "steps_keep C" and ok: "apply_block_updates C b r st = Some (Inr (), st')"
  shows "\<exists>mid. same_recent st mid \<and> same_recent (clear_expired_transactions mid) st'"
proof -
  have keep: "perform_chain_maintenance C b s = Inr s' \<Longrightarrow> same_recent s s'" "clear_expired_proposals C s = Inr s' \<Longrightarrow> same_recent s s'"
    "clear_expired_orders C s = Inr s' \<Longrightarrow> same_recent s s'" "update_expired_feeds C s = Inr s' \<Longrightarrow> same_recent s s'"
    "update_withdraw_permissions C s = Inr s' \<Longrightarrow> same_recent s s'" for s s'
    using C unfolding steps_keep_def by blast+
  obtain w m where r: "r = (w, m)" by (cases r)
  obtain s1 s2 s3 s4 s5 s6 s7 s8 s9 where 1: "update_signing_witness (shares C) (deposit_witness_pay (shares C)) (hashes C) w b st = Inr s1"
      and 2: "update_last_irreversible_block s1 = Inr s2" and 3: "(if m then stepP (perform_chain_maintenance C b) else updateP id) s2 = Some (Inr (), s3)"
      and 4: "create_block_summary (hashes C) b s3 = Inr s4" and 5: "clear_expired_proposals C (clear_expired_transactions s4) = Inr s5"
      and 6: "clear_expired_orders C s5 = Inr s6" and 7: "update_expired_feeds C s6 = Inr s7" and 8: "update_withdraw_permissions C s7 = Inr s8"
      and 9: "update_witness_schedule (update_maintenance_flag m s8) = Inr s9" and e: "st' = clear_applied_ops s9"
    using ok unfolding r apply_block_updates_def prod.case bindP_Inr simple_Inr by (auto split del: if_split)
  have "same_recent s2 s3" using 3 keep(1) by (auto split: if_splits)
  then have a: "same_recent st s4"
    using update_signing_witness_keeps [OF 1] update_last_irreversible_block_keeps [OF 2] create_block_summary_keeps [OF 4] same_recent_trans by blast
  have "same_recent (clear_expired_transactions s4) s8"
    using keep(2) [OF 5] keep(3) [OF 6] keep(4) [OF 7] keep(5) [OF 8] same_recent_trans by blast
  then have "same_recent (clear_expired_transactions s4) st'"
    using update_maintenance_flag_keeps [of s8 m] update_witness_schedule_keeps [OF 9] same_recent_clear [of s9] same_recent_trans
    unfolding e by blast
  then show ?thesis using a by blast
qed

text \<open>The part of \<open>same_recent\<close> that a transaction keeps: it is recorded itself.\<close>

definition same_head :: "'o chain_state \<Rightarrow> 'o chain_state \<Rightarrow> bool" where
  "same_head st st' \<longleftrightarrow> head_block_time st' = head_block_time st \<and> head_block_num st' = head_block_num st \<and>
     head_block_id st' = head_block_id st \<and> skip_flags st' = skip_flags st \<and> checkpoints st' = checkpoints st"

lemma same_recent_head: "same_recent st st' \<Longrightarrow> same_head st st'"
  by (simp add: same_recent_def same_head_def)

lemma spent_flags [simp]: "spent T (st\<lparr>skip_flags := w\<rparr>) x = spent T st x"
  by (simp add: spent_def recorded_def)

lemma spent_clear_ops [simp]: "spent T (clear_applied_ops st) x = spent T st x"
  by (rule spent_same [OF same_recent_clear])

lemma apply_transaction_effect:
  assumes T: "evaluators_keep T" and ok: "apply_transaction T trx skip st = Some (Inr (st', ptrx))"
  shows "same_head st st'"
    and "skip AND skip_transaction_dupe_check = 0 \<Longrightarrow>
      \<not> spent T st (tx_body trx) \<and> spent T st' (tx_body trx) \<and> (spent T st x \<longrightarrow> spent T st' x)"
proof -
  obtain st1 where i: "apply_transaction_inner T trx (st\<lparr>skip_flags := skip\<rparr>) = Some (Inr (st1, ptrx))"
      and st': "st' = st1\<lparr>skip_flags := skip_flags st\<rparr>"
    using apply_transaction_Inr [OF ok] .
  let ?st = "st\<lparr>skip_flags := skip\<rparr>"
  let ?r = "if skips ?st skip_transaction_dupe_check then ?st else record_transaction (transaction_id T trx) trx ?st"
  obtain results where "apply_operations T new_evaluation_state (operations trx) ?r = Some (Inr (st1, results))"
    by (rule apply_transaction_inner_Inr [OF i])
  then have "same_recent ?r st1" using apply_operations_keeps [OF T] by blast
  then show "same_head st st'"
    by (auto simp: same_recent_def same_head_def st' split: if_splits)
  assume "skip AND skip_transaction_dupe_check = 0"
  then have "\<not> skips ?st skip_transaction_dupe_check" by (simp add: skips_def)
  from apply_transaction_inner_spends [OF T i this]
  show "\<not> spent T st (tx_body trx) \<and> spent T st' (tx_body trx) \<and> (spent T st x \<longrightarrow> spent T st' x)"
    by (simp add: st')
qed

lemma same_head_trans: "same_head st st' \<Longrightarrow> same_head st' st'' \<Longrightarrow> same_head st st''"
  by (simp add: same_head_def)

lemma apply_transactions_effect:
  assumes T: "evaluators_keep T"
  shows "forP (\<lambda>trx. liftP (apply_transaction T trx skip)) trxs st = Some (Inr (), st') \<Longrightarrow> same_head st st' \<and>
    (skip AND skip_transaction_dupe_check = 0 \<longrightarrow> distinct (map tx_body trxs) \<and> (\<forall>x\<in>set (map tx_body trxs). \<not> spent T st x) \<and>
       (\<forall>x. spent T st x \<or> x \<in> set (map tx_body trxs) \<longrightarrow> spent T st' x))"
proof (induction trxs arbitrary: st)
  case (Cons trx trxs)
  then obtain st1 ptrx where 1: "apply_transaction T trx skip st = Some (Inr (st1, ptrx))"
      and 2: "forP (\<lambda>trx. liftP (apply_transaction T trx skip)) trxs st1 = Some (Inr (), st')"
    by (auto simp: bindP_Inr)
  note e = apply_transaction_effect [OF T 1] and IH = Cons.IH [OF 2]
  show ?case
  proof (intro conjI impI)
    show "same_head st st'" using e(1) IH same_head_trans by blast
    assume c: "skip AND skip_transaction_dupe_check = 0"
    have e2: "\<not> spent T st (tx_body trx)" "spent T st1 (tx_body trx)" "spent T st x \<Longrightarrow> spent T st1 x" for x
      using e(2) [OF c] by blast+
    have I: "distinct (map tx_body trxs)" "\<And>x. x \<in> set (map tx_body trxs) \<Longrightarrow> \<not> spent T st1 x"
      "\<And>x. spent T st1 x \<or> x \<in> set (map tx_body trxs) \<Longrightarrow> spent T st' x" using IH c by blast+
    show "distinct (map tx_body (trx # trxs))" using I(1) I(2) [of "tx_body trx"] e2(2) by auto
    show "\<forall>x\<in>set (map tx_body (trx # trxs)). \<not> spent T st x" unfolding list.map list.set using I(2) e2(1,3) by blast
    show "\<forall>x. spent T st x \<or> x \<in> set (map tx_body (trx # trxs)) \<longrightarrow> spent T st' x" unfolding list.map list.set using I(3) e2(2,3) by blast
  qed
qed (simp add: same_head_def)

text \<open>Everything a successful application shows about the head, the header and the transactions.\<close>

lemma apply_block_transactions_effect:
  fixes C :: "('sig, 'z, 'b) chain_env"
  assumes T: "evaluators_keep (txs C)" and ok: "apply_block_transactions C b st = Some (Inr (w, m), st')"
  shows "validate_block_header C (skip_flags st) b (clear_applied_ops st) = Inr w"
    and "skip_flags st AND skip_merkle_check \<noteq> 0 \<or> merkle_ok C b"
    and "head_block_id st' = block_id (hashes C) b" "head_block_time st' = timestamp b" "head_block_num st' = block_num (hashes C) b"
    and "skip_flags st' = skip_flags st" "checkpoints st' = checkpoints st"
    and "\<exists>mid :: ('sig, 'z) node. head_block_time mid = head_block_time st \<and> transaction_index (objects st') = transaction_index (objects mid) \<and>
      head_block_num mid = head_block_num st \<and>
      (skip_flags st AND skip_transaction_dupe_check = 0 \<longrightarrow> distinct (map tx_body (transactions b)) \<and>
        (\<forall>x\<in>set (map tx_body (transactions b)). \<not> spent (txs C) st x) \<and>
        (\<forall>x. spent (txs C) st x \<or> x \<in> set (map tx_body (transactions b)) \<longrightarrow> spent (txs C) mid x))"
proof -
  obtain st1 where h: "validate_block_header C (skip_flags st) b (clear_applied_ops st) = Inr w"
      and mk: "skip_flags st AND skip_merkle_check \<noteq> 0 \<or> merkle_ok C b"
      and 1: "forP (\<lambda>trx. liftP (apply_transaction (txs C) trx (skip_flags st))) (transactions b) (clear_applied_ops st) = Some (Inr (), st1)"
      and 2: "update_global_dynamic_data (slots C) (hashes C) b st1 = Inr st'"
    using ok unfolding apply_block_transactions_def Let_def bindP_Inr simple_Inr by (auto simp: assertE_eq_Inr)
  note e = apply_transactions_effect [OF T 1] and u = update_global_dynamic_data_head [OF 2]
  show "validate_block_header C (skip_flags st) b (clear_applied_ops st) = Inr w" "skip_flags st AND skip_merkle_check \<noteq> 0 \<or> merkle_ok C b"
    by (rule h, rule mk)
  show "head_block_id st' = block_id (hashes C) b" "head_block_time st' = timestamp b" "head_block_num st' = block_num (hashes C) b"
    by (rule u(1), rule u(2), rule u(3))
  show "skip_flags st' = skip_flags st" "checkpoints st' = checkpoints st"
    using e u(5,6) by (simp_all add: same_head_def clear_applied_ops_def)
  show "\<exists>mid :: ('sig, 'z) node. head_block_time mid = head_block_time st \<and> transaction_index (objects st') = transaction_index (objects mid) \<and>
      head_block_num mid = head_block_num st \<and>
      (skip_flags st AND skip_transaction_dupe_check = 0 \<longrightarrow> distinct (map tx_body (transactions b)) \<and>
        (\<forall>x\<in>set (map tx_body (transactions b)). \<not> spent (txs C) st x) \<and>
        (\<forall>x. spent (txs C) st x \<or> x \<in> set (map tx_body (transactions b)) \<longrightarrow> spent (txs C) mid x))"
    using e u(4) by (intro exI [of _ st1]) (auto simp: same_head_def)
qed

definition branch_bodies :: "'sig block list \<Rightarrow> tx_body list" where
  "branch_bodies bs = map tx_body (concat (map transactions bs))"

text \<open>The flags under which a block is applied, after the checkpoints.\<close>

lemma apply_block_state_Inr:
  assumes "apply_block_state C b skip st = Some (Inr (), st')"
  obtains skip' w m st1 st2 where "checkpoint_skip C b skip st = Inr skip'"
    and "apply_block_transactions C b (st\<lparr>skip_flags := skip'\<rparr>) = Some (Inr (w, m), st1)"
    and "apply_block_updates C b (w, m) st1 = Some (Inr (), st2)" and "st' = st2\<lparr>skip_flags := skip_flags st\<rparr>"
  using assms by (auto simp: apply_block_state_def bindP_Inr with_skip_flags_Some)

lemma apply_block_state_head:
  assumes T: "evaluators_keep (txs C)" and C: "steps_keep C" and ok: "apply_block_state C b skip st = Some (Inr (), st')"
  shows "head_block_id st = previous b" "head_block_time st < timestamp b" "head_block_id st' = block_id (hashes C) b"
    "head_block_time st' = timestamp b" "head_block_num st' = block_num (hashes C) b" "skip_flags st' = skip_flags st" "checkpoints st' = checkpoints st"
proof -
  obtain skip' w m st1 st2 where 1: "apply_block_transactions C b (st\<lparr>skip_flags := skip'\<rparr>) = Some (Inr (w, m), st1)"
      and 2: "apply_block_updates C b (w, m) st1 = Some (Inr (), st2)" and st': "st' = st2\<lparr>skip_flags := skip_flags st\<rparr>"
    by (rule apply_block_state_Inr [OF ok])
  note e = apply_block_transactions_effect [OF T 1]
  show "head_block_id st = previous b" "head_block_time st < timestamp b"
    using e(1) by (auto simp: validate_block_header_def bindE_eq_Inr assertE_eq_Inr)
  obtain mid where mid: "same_recent st1 mid" "same_recent (clear_expired_transactions mid) st2"
    using apply_block_updates_keeps [OF C 2] by blast
  then show "head_block_id st' = block_id (hashes C) b" "head_block_time st' = timestamp b" "head_block_num st' = block_num (hashes C) b"
    "checkpoints st' = checkpoints st"
    using e(3-7) by (simp_all add: same_recent_def st')
  show "skip_flags st' = skip_flags st" by (simp add: st')
qed

lemma apply_block_state_spends:
  fixes C :: "('sig, 'z, 'b) chain_env"
  assumes T: "evaluators_keep (txs C)" and C: "steps_keep C" and ok: "apply_block_state C b skip st = Some (Inr (), st')"
    and check: "checkpoint_skip C b skip st = Inr skip'" "skip' AND skip_transaction_dupe_check = 0" and num: "0 < block_num (hashes C) b"
  shows "distinct (branch_bodies [b])" "x \<in> set (branch_bodies [b]) \<Longrightarrow> \<not> spent (txs C) st x"
    "spent (txs C) st x \<or> x \<in> set (branch_bodies [b]) \<Longrightarrow> spent (txs C) st' x"
proof -
  note hd = apply_block_state_head [OF T C ok]
  obtain w m st1 st2 where 1: "apply_block_transactions C b (st\<lparr>skip_flags := skip'\<rparr>) = Some (Inr (w, m), st1)"
      and 2: "apply_block_updates C b (w, m) st1 = Some (Inr (), st2)" and st': "st' = st2\<lparr>skip_flags := skip_flags st\<rparr>"
    using apply_block_state_Inr [OF ok] check(1) by (metis sum.inject(2))
  note e = apply_block_transactions_effect [OF T 1]
  obtain mid :: "('sig, 'z) node" where mid: "head_block_time mid = head_block_time st" "transaction_index (objects st1) = transaction_index (objects mid)"
      "head_block_num mid = head_block_num st" "distinct (branch_bodies [b])"
      "\<And>x. x \<in> set (branch_bodies [b]) \<Longrightarrow> \<not> spent (txs C) st x" "\<And>x. spent (txs C) st x \<or> x \<in> set (branch_bodies [b]) \<Longrightarrow> spent (txs C) mid x"
    using e(8) check(2) unfolding branch_bodies_def by fastforce
  show "distinct (branch_bodies [b])" "x \<in> set (branch_bodies [b]) \<Longrightarrow> \<not> spent (txs C) st x" by (rule mid(4), rule mid(5))
  assume "spent (txs C) st x \<or> x \<in> set (branch_bodies [b])"
  then have "spent (txs C) mid x" by (rule mid(6))
  then have s1: "spent (txs C) st1 x" using mid(1,2) e(4,5) hd(2) num by (auto simp: spent_def recorded_def)
  obtain mid2 where m2: "same_recent st1 mid2" "same_recent (clear_expired_transactions mid2) st2"
    using apply_block_updates_keeps [OF C 2] by blast
  have "0 < head_block_num mid2" using m2(1) e(5) num by (simp add: same_recent_def)
  then have "spent (txs C) st2 x" using spent_clear [of "txs C" mid2 x] s1 spent_same [OF m2(1)] spent_same [OF m2(2)] by blast
  then show "spent (txs C) st' x" by (simp add: st')
qed

definition apply_branch :: "('sig, 'z, 'b) chain_env \<Rightarrow> 32 word \<Rightarrow> 'sig block list \<Rightarrow> (('sig, 'z) node, unit) prog" where
  "apply_branch C skip bs = forP (\<lambda>b. apply_block_state C b skip) bs"

lemma apply_branch_simps [simp]:
  "apply_branch C skip [] st = Some (r, st') \<longleftrightarrow> r = Inr () \<and> st' = st"
  "apply_branch C skip (b # bs) st = Some (Inr (), st') \<longleftrightarrow>
     (\<exists>st1. apply_block_state C b skip st = Some (Inr (), st1) \<and> apply_branch C skip bs st1 = Some (Inr (), st'))"
  by (auto simp: apply_branch_def bindP_Inr)

lemma checkpoint_skip_cong: "checkpoints st' = checkpoints st \<Longrightarrow> checkpoint_skip C b skip st' = checkpoint_skip C b skip st"
  by (cases "last (checkpoints st)") (simp add: checkpoint_skip_def last_checkpoint_def)

lemma apply_branch_spends:
  assumes T: "evaluators_keep (txs C)" and C: "steps_keep C" and skip: "skip AND skip_transaction_dupe_check = 0"
  shows "apply_branch C skip bs st = Some (Inr (), st') \<Longrightarrow>
    (\<forall>b\<in>set bs. 0 < block_num (hashes C) b \<and> checkpoint_skip C b skip st = Inr skip) \<Longrightarrow>
    distinct (branch_bodies bs) \<and> (\<forall>x\<in>set (branch_bodies bs). \<not> spent (txs C) st x)"
proof (induction bs arbitrary: st)
  case (Cons b bs)
  then obtain st1 where 1: "apply_block_state C b skip st = Some (Inr (), st1)" and 2: "apply_branch C skip bs st1 = Some (Inr (), st')"
    by auto
  have b: "0 < block_num (hashes C) b" "checkpoint_skip C b skip st = Inr skip" using Cons.prems(2) by auto
  note e = apply_block_state_spends [OF T C 1 b(2) skip b(1)]
  have "checkpoints st1 = checkpoints st" by (rule apply_block_state_head(7) [OF T C 1])
  then have IH: "distinct (branch_bodies bs)" "\<And>x. x \<in> set (branch_bodies bs) \<Longrightarrow> \<not> spent (txs C) st1 x"
    using Cons.IH [OF 2] Cons.prems(2) checkpoint_skip_cong [of st1 st C _ skip] by auto
  have bb: "branch_bodies (b # bs) = branch_bodies [b] @ branch_bodies bs" by (simp add: branch_bodies_def)
  have "set (branch_bodies [b]) \<inter> set (branch_bodies bs) = {}" using e(3) IH(2) by blast
  moreover have "\<forall>x\<in>set (branch_bodies [b]) \<union> set (branch_bodies bs). \<not> spent (txs C) st x" using e(2,3) IH(2) by blast
  ultimately show ?case unfolding bb distinct_append set_append using e(1) IH(1) by blast
qed (simp add: branch_bodies_def)

subsection \<open>Sessions and the contents of the state\<close>

text \<open>The part of the state that is objects of the database, and so under undo.\<close>

definition content :: "('sig, 'z) node \<Rightarrow> ('sig, 'z) node" where
  "content st = st\<lparr>checkpoints := [], skip_flags := 0, undo_max_size := 0, fork_max_size := 0,
     objects := (objects st)\<lparr>applied_ops := []\<rparr>\<rparr>"

lemma content_restore [simp]: "content (restore_objects u st) = content u"
  by (simp add: content_def restore_objects_def)

lemma content_flags [simp]: "content (st\<lparr>skip_flags := w\<rparr>) = content st"
  by (simp add: content_def)

lemma content_head: "content st = content st' \<Longrightarrow> head_block_id st = head_block_id st' \<and> head_block_num st = head_block_num st'"
  by (drule arg_cong [of _ _ dgpo]) (simp add: content_def head_block_id_def head_block_num_def)

lemma restore_again [simp]: "restore_objects u (restore_objects v st) = restore_objects u st"
  by (simp add: restore_objects_def)

text \<open>
  On the database, applying a block changes the state as \<open>apply_block_state\<close> says, and at most
  the size of the fork database besides.
\<close>

definition only_state :: "('sig, 'z, 'b) database \<Rightarrow> ('sig, 'z, 'b) database \<Rightarrow> bool" where
  "only_state d d' \<longleftrightarrow> (\<exists>st f. d' = d\<lparr>db_state := st, fork_db := f\<rparr> \<and> (f = fork_db d \<or> (\<exists>n. f = set_max_size n (fork_db d))))"

lemma database_update_same [simp]: "d\<lparr>db_state := db_state d\<rparr> = d" "d\<lparr>db_state := st, fork_db := fork_db d\<rparr> = d\<lparr>db_state := st\<rparr>"
  by simp_all

lemma apply_block_eq:
  "apply_block C b skip d =
    (case apply_block_state C b skip (db_state d) of
       None \<Rightarrow> None
     | Some (r, st) \<Rightarrow> Some (r,
         case checkpoint_skip C b skip (db_state d) of
           Inl _ \<Rightarrow> d
         | Inr skip' \<Rightarrow>
             (case apply_block_transactions C b ((db_state d)\<lparr>skip_flags := skip'\<rparr>) of
                Some (Inr _, st1) \<Rightarrow> d\<lparr>db_state := st, fork_db := set_max_size (fork_max_size st1) (fork_db d)\<rparr>
              | _ \<Rightarrow> d\<lparr>db_state := st\<rparr>)))"
  unfolding apply_block_def apply_block_state_def with_skip_flags_def bindP_def readP_def updateP_def resize_fork_db_def Let_def
  by (auto split: option.splits sum.splits prod.splits)

lemma only_stateI:
  "only_state d d" "only_state d (d\<lparr>db_state := st\<rparr>)" "only_state d (d\<lparr>db_state := st, fork_db := set_max_size n (fork_db d)\<rparr>)"
proof -
  show a: "only_state d (d\<lparr>db_state := st\<rparr>)" for st
    unfolding only_state_def by (intro exI [of _ st] exI [of _ "fork_db d"]) simp
  show "only_state d d" using a [of "db_state d"] by simp
  show "only_state d (d\<lparr>db_state := st, fork_db := set_max_size n (fork_db d)\<rparr>)"
    unfolding only_state_def by blast
qed

lemma apply_block_Some:
  assumes "apply_block C b skip d = Some (r, d')"
  shows "apply_block_state C b skip (db_state d) = Some (r, db_state d')" "only_state d d'"
proof -
  obtain st where a: "apply_block_state C b skip (db_state d) = Some (r, st)"
    using assms by (auto simp: apply_block_eq split: option.splits)
  have "db_state d' = st \<and> only_state d d'"
  proof (cases "checkpoint_skip C b skip (db_state d)")
    case (Inl e)
    then have "apply_block_state C b skip (db_state d) = Some (Inl e, db_state d)"
      by (simp add: apply_block_state_def bindP_def readP_def)
    then show ?thesis using assms a Inl only_stateI(1) by (auto simp: apply_block_eq)
  next
    case (Inr skip')
    let ?t = "apply_block_transactions C b ((db_state d)\<lparr>skip_flags := skip'\<rparr>)"
    have d': "d' = (case ?t of Some (Inr _, st1) \<Rightarrow> d\<lparr>db_state := st, fork_db := set_max_size (fork_max_size st1) (fork_db d)\<rparr> | _ \<Rightarrow> d\<lparr>db_state := st\<rparr>)"
      using assms a Inr by (simp add: apply_block_eq)
    show ?thesis unfolding d' using only_stateI by (cases ?t) (auto split: sum.splits prod.splits)
  qed
  then show "apply_block_state C b skip (db_state d) = Some (r, db_state d')" "only_state d d'" using a by simp_all
qed

lemma apply_block_Ex:
  assumes "apply_block_state C b skip (db_state d) = Some (r, st)"
  shows "\<exists>d'. apply_block C b skip d = Some (r, d') \<and> db_state d' = st"
proof -
  obtain d' where 1: "apply_block C b skip d = Some (r, d')" using assms by (auto simp: apply_block_eq)
  then show ?thesis using apply_block_Some(1) [OF 1] assms by auto
qed

lemma only_state_fields:
  assumes "only_state d d'"
  shows "undo_copies d' = undo_copies d" "undo_active d' = undo_active d" "block_log d' = block_log d" "popped_tx d' = popped_tx d"
    "pending_tx d' = pending_tx d" "pending_tx_session d' = pending_tx_session d"
    "fk_items (fork_db d') = fk_items (fork_db d)" "fk_head (fork_db d') = fk_head (fork_db d)"
    "set (fk_index (fork_db d')) \<subseteq> set (fk_index (fork_db d))"
  using assms set_dropWhileD unfolding only_state_def
  by (auto simp: set_max_size_def Let_def erase_below_def split: option.splits)

lemma start_session_simps [simp]:
  "db_state (start_session d) = db_state d" "fork_db (start_session d) = fork_db d" "block_log (start_session d) = block_log d"
  "popped_tx (start_session d) = popped_tx d" "pending_tx (start_session d) = pending_tx d"
  "pending_tx_session (start_session d) = pending_tx_session d" "undo_active (start_session d) = undo_active d + 1"
  by (simp_all add: start_session_def Let_def)

lemma start_session_copies:
  obtains us where "undo_copies (start_session d) = db_state d # us" "us \<noteq> []" "set us \<subseteq> insert (db_state d) (set (undo_copies d))"
  by (rule that [of "tl (undo_copies (start_session d))"]) (auto simp: start_session_def Let_def dest: in_set_takeD)

lemma start_session_deep: "undo_copies d \<noteq> [] \<Longrightarrow> 0 < undo_max_size (db_state d) \<Longrightarrow>
    undo_copies (start_session d) = db_state d # take (undo_max_size (db_state d)) (undo_copies d)"
  by (simp add: start_session_def Let_def)

lemma apply_block_state_flags: "apply_block_state C b skip st = Some (r, st') \<Longrightarrow> skip_flags st' = skip_flags st"
  by (auto simp: apply_block_state_def with_skip_flags_Some readP_def elim!: bindP_cases)

text \<open>What one pushed block does, when it is refused and when it is accepted.\<close>

lemma push_one_Inl:
  assumes "push_one C skip i b d = Some (Inl e, d')"
  shows "content (db_state d') = content (db_state d)" "skip_flags (db_state d') = skip_flags (db_state d)" "undo_active d' = undo_active d"
    "block_log d' = block_log d" "popped_tx d' = popped_tx d" "pending_tx d' = pending_tx d" "pending_tx_session d' = pending_tx_session d"
    "set (undo_copies d') \<subseteq> insert (db_state d) (set (undo_copies d))" "fk_items (fork_db d') = fk_items (fork_db d)"
    "fk_head (fork_db d') = fk_head (fork_db d)" "set (fk_index (fork_db d')) \<subseteq> set (fk_index (fork_db d))"
    "\<exists>st. apply_block_state C b skip (db_state d) = Some (Inl e, st)"
proof -
  obtain d1 where 1: "apply_block C b skip (start_session d) = Some (Inl e, d1)" and d': "d' = discard_session d1"
    using assms by (auto simp: push_one_def in_session_def bindP_def updateP_def split: option.splits sum.splits prod.splits)
  note a = apply_block_Some [OF 1] and f = only_state_fields [OF apply_block_Some(2) [OF 1]]
  obtain us where us: "undo_copies (start_session d) = db_state d # us" "us \<noteq> []" "set us \<subseteq> insert (db_state d) (set (undo_copies d))"
    by (rule start_session_copies)
  have fl: "skip_flags (db_state d1) = skip_flags (db_state d)"
    using apply_block_state_flags [OF a(1)] by simp
  have d1: "d' = d1\<lparr>db_state := restore_objects (db_state d) (db_state d1), undo_copies := us, undo_active := undo_active d1 - 1\<rparr>"
    using us f(1) by (simp add: d' discard_session_def)
  show "content (db_state d') = content (db_state d)" by (simp add: d1)
  show "skip_flags (db_state d') = skip_flags (db_state d)" using fl by (simp add: d1 restore_objects_def)
  show "\<exists>st. apply_block_state C b skip (db_state d) = Some (Inl e, st)" using a(1) by simp
  show "undo_active d' = undo_active d" "block_log d' = block_log d" "popped_tx d' = popped_tx d" "pending_tx d' = pending_tx d"
    "pending_tx_session d' = pending_tx_session d" "fk_items (fork_db d') = fk_items (fork_db d)"
    "fk_head (fork_db d') = fk_head (fork_db d)" "set (fk_index (fork_db d')) \<subseteq> set (fk_index (fork_db d))"
    using f by (simp_all add: d1)
  show "set (undo_copies d') \<subseteq> insert (db_state d) (set (undo_copies d))" using us(3) by (simp add: d1)
qed

lemma push_one_Inr:
  assumes "push_one C skip i b d = Some (Inr (), d')"
  shows "apply_block_state C b skip (db_state d) = Some (Inr (), db_state d')" "undo_copies d' = undo_copies (start_session d)"
    "undo_active d' = undo_active d" "block_log d' = store_block (hashes C) (packing C) i b (block_log d)"
    "popped_tx d' = popped_tx d" "pending_tx d' = pending_tx d" "pending_tx_session d' = pending_tx_session d"
    "fk_items (fork_db d') = fk_items (fork_db d)" "fk_head (fork_db d') = fk_head (fork_db d)"
    "set (fk_index (fork_db d')) \<subseteq> set (fk_index (fork_db d))"
proof -
  obtain d1 where 1: "apply_block C b skip (start_session d) = Some (Inr (), d1)"
      and d': "d' = commit_session (d1\<lparr>block_log := store_block (hashes C) (packing C) i b (block_log d1)\<rparr>)"
    using assms by (auto simp: push_one_def in_session_def bindP_def updateP_def split: option.splits sum.splits prod.splits)
  note a = apply_block_Some [OF 1] and f = only_state_fields [OF apply_block_Some(2) [OF 1]]
  show "apply_block_state C b skip (db_state d) = Some (Inr (), db_state d')" using a(1) by (simp add: d' commit_session_def)
  show "undo_copies d' = undo_copies (start_session d)"
    "undo_active d' = undo_active d" "block_log d' = store_block (hashes C) (packing C) i b (block_log d)"
    "popped_tx d' = popped_tx d" "pending_tx d' = pending_tx d" "pending_tx_session d' = pending_tx_session d"
    "fk_items (fork_db d') = fk_items (fork_db d)" "fk_head (fork_db d') = fk_head (fork_db d)"
    "set (fk_index (fork_db d')) \<subseteq> set (fk_index (fork_db d))"
    using f by (simp_all add: d' commit_session_def)
qed

lemma push_one_Ex:
  assumes "apply_block_state C b skip (db_state d) = Some (r, st)"
  shows "\<exists>d'. push_one C skip i b d = Some (r, d')"
proof -
  obtain d1 where "apply_block C b skip (start_session d) = Some (r, d1)"
    using apply_block_Ex [of C b skip "start_session d" r st] assms by auto
  then show ?thesis by (cases r) (simp_all add: push_one_def in_session_def bindP_def updateP_def)
qed

text \<open>What popping the head block does.\<close>

lemma pop_block_Inr:
  assumes "pop_block C d = Some (Inr (), d')" and np: "\<not> pending_tx_session d"
  obtains b u us f l where "fetch_block_by_id C d (db_head d) = Some b" "undo_copies d = u # us" "undo_active d = 0"
    "fork_pop_block (fork_db d) = Inr f" "remove_block (hashes C) (db_head d) (block_log d) = Inr l"
    "d' = d\<lparr>db_state := restore_objects u (db_state d), undo_copies := us, fork_db := f, block_log := l, popped_tx := map signed_part (transactions b) @ popped_tx d\<rparr>"
proof -
  obtain b where b: "fetch_block_by_id C d (db_head d) = Some b"
    using assms by (auto simp: pop_block_def bindP_def updateP_def reset_pending_session_def throwE_def Let_def split: option.splits)
  obtain f l d2 where f: "fork_pop_block (fork_db d) = Inr f" and l: "remove_block (hashes C) (db_head d) (block_log d) = Inr l"
      and u: "pop_undo (d\<lparr>fork_db := f, block_log := l\<rparr>) = Inr d2" and d': "d' = d2\<lparr>popped_tx := map signed_part (transactions b) @ popped_tx d2\<rparr>"
    using assms b unfolding pop_block_def bindP_Inr simple_Inr
    by (auto simp: reset_pending_session_def Let_def bindP_Inr bindE_eq_Inr)
  obtain v us where "undo_copies d = v # us" "undo_active d = 0" "d2 = d\<lparr>db_state := restore_objects v (db_state d), undo_copies := us, fork_db := f, block_log := l\<rparr>"
    using u by (auto simp: pop_undo_def bindE_eq_Inr assertE_eq_Inr throwE_not_Inr split: list.splits)
  then show ?thesis using that [OF b _ _ f l] by (simp add: d')
qed

subsection \<open>The head determines the contents\<close>

text \<open>
  \<open>F\<close> gives the contents of the database at some blocks, those of the branch it is on for
  instance. A state agrees with it when its head is not one of them or its contents are those.
\<close>

definition agrees :: "(block_id_type \<rightharpoonup> ('sig, 'z) node) \<Rightarrow> ('sig, 'z) node \<Rightarrow> bool" where
  "agrees F st \<longleftrightarrow> (\<forall>c. F (head_block_id st) = Some c \<longrightarrow> content st = c)"

definition consistent :: "(block_id_type \<rightharpoonup> ('sig, 'z) node) \<Rightarrow> ('sig, 'z, 'b) database \<Rightarrow> bool" where
  "consistent F d \<longleftrightarrow> \<not> pending_tx_session d \<and> agrees F (db_state d) \<and> (\<forall>u\<in>set (undo_copies d). agrees F u)"

text \<open>Applying a block to contents that agree gives contents that agree: blocks can be applied again.\<close>

definition replays :: "('sig, 'z, 'b) chain_env \<Rightarrow> 32 word \<Rightarrow> (block_id_type \<rightharpoonup> ('sig, 'z) node) \<Rightarrow> bool" where
  "replays C skip F \<longleftrightarrow> (\<forall>b st st'. apply_block_state C b skip st = Some (Inr (), st') \<longrightarrow> agrees F st \<longrightarrow> agrees F st')"

lemma agrees_content: "content st = content st' \<Longrightarrow> agrees F st = agrees F st'"
  using content_head [of st st'] by (simp add: agrees_def)

lemma agrees_restore [simp]: "agrees F (restore_objects u st) = agrees F u"
  by (rule agrees_content) simp

lemma consistent_fork [simp]: "consistent F (d\<lparr>fork_db := f\<rparr>) = consistent F d" "consistent F (d\<lparr>block_log := l\<rparr>) = consistent F d"
  "consistent F (d\<lparr>popped_tx := ts\<rparr>) = consistent F d"
  by (simp_all add: consistent_def)

lemma push_one_consistent:
  assumes R: "replays C skip F" and d: "consistent F d" and ok: "push_one C skip i b d = Some (r, d')"
  shows "consistent F d'"
proof (cases r)
  case (Inl e)
  note p = push_one_Inl [OF ok [unfolded Inl]]
  show ?thesis using d p(7,8) agrees_content [OF p(1)] by (auto simp: consistent_def)
next
  case (Inr u)
  note p = push_one_Inr [of C skip i b d d']
  have p: "apply_block_state C b skip (db_state d) = Some (Inr (), db_state d')" "undo_copies d' = undo_copies (start_session d)"
      "pending_tx_session d' = pending_tx_session d" using p(1,2,7) ok Inr by simp_all
  have "agrees F (db_state d')" using R p(1) d unfolding replays_def consistent_def by blast
  moreover have "\<forall>u\<in>set (undo_copies d'). agrees F u"
    by (rule start_session_copies [of d]) (use d in \<open>auto simp: p(2) consistent_def\<close>)
  ultimately show ?thesis using d p(3) by (simp add: consistent_def)
qed

lemma pop_undo_consistent: "pop_undo d = Inr d' \<Longrightarrow> consistent F d \<Longrightarrow> consistent F d'"
  by (auto simp: pop_undo_def bindE_eq_Inr throwE_not_Inr consistent_def split: list.splits)

lemma stepP_cases:
  assumes "stepP f s = Some (r, s')"
  obtains e where "r = Inl e" "s' = s" | "r = Inr ()" "f s = Inr s'"
  using assms by (auto simp: stepP_def split: sum.splits)

lemma pop_block_consistent:
  assumes d: "consistent F d" and ok: "pop_block C d = Some (r, d')"
  shows "consistent F d'"
proof -
  have np: "reset_pending_session d = d" using d by (simp add: consistent_def reset_pending_session_def)
  show ?thesis
  proof (cases "fetch_block_by_id C d (db_head d)")
    case None
    then show ?thesis using ok d np by (simp add: pop_block_def bindP_def updateP_def Let_def)
  next
    case (Some b)
    then have "bindP (stepP (\<lambda>d. bindE (fork_pop_block (fork_db d)) (\<lambda>f. Inr (d\<lparr>fork_db := f\<rparr>)))) (\<lambda>_.
        bindP (stepP (\<lambda>x. bindE (remove_block (hashes C) (db_head d) (block_log x)) (\<lambda>l. Inr (x\<lparr>block_log := l\<rparr>)))) (\<lambda>_.
        bindP (stepP pop_undo) (\<lambda>_.
        updateP (\<lambda>d. d\<lparr>popped_tx := map signed_part (transactions b) @ popped_tx d\<rparr>)))) d = Some (r, d')"
      using ok np by (simp add: pop_block_def bindP_def [of "updateP reset_pending_session"] updateP_def [of reset_pending_session] Let_def)
    then show ?thesis
    proof (cases rule: bindP_cases)
      case (2 x d1)
      then have d1: "consistent F d1" using d by (auto simp: bindE_eq_Inr)
      from 2(2) show ?thesis
      proof (cases rule: bindP_cases)
        case (2 y d2)
        then have d2: "consistent F d2" using d1 by (auto simp: bindE_eq_Inr)
        from 2(2) show ?thesis
        proof (cases rule: bindP_cases)
          case (2 z d3)
          then show ?thesis using pop_undo_consistent [OF _ d2] by (auto simp: updateP_def)
        qed (use d2 in \<open>auto elim: stepP_cases\<close>)
      qed (use d1 in \<open>auto elim: stepP_cases\<close>)
    qed (use d in \<open>auto elim: stepP_cases\<close>)
  qed
qed

lemma pop_until_consistent:
  assumes "pop_until C i d = Some (r, d')" and "consistent F d"
  shows "consistent F d'"
proof -
  have "consistent F d \<longrightarrow> consistent F (snd (r, d'))"
  proof (rule pop_until.raw_induct [where P = "\<lambda>C i d y. consistent F d \<longrightarrow> consistent F (snd y)", OF _ assms(1)])
    fix pu C i d y
    assume IH: "\<And>C i d y. pu C i d = Some y \<Longrightarrow> consistent F d \<longrightarrow> consistent F (snd y)"
      and eq: "(if db_head d = i then Some (Inr (), d)
        else case pop_block C d of None \<Rightarrow> None | Some (Inl e, d') \<Rightarrow> Some (Inl e, d') | Some (Inr _, d') \<Rightarrow> pu C i d') = Some y"
    show "consistent F d \<longrightarrow> consistent F (snd y)"
    proof
      assume d: "consistent F d"
      show "consistent F (snd y)"
      proof (cases "db_head d = i")
        case False
        then obtain r1 d1 where rd: "pop_block C d = Some (r1, d1)" using eq by (cases "pop_block C d") auto
        then show ?thesis using eq IH False pop_block_consistent [OF d rd] by (cases r1) auto
      qed (use eq d in auto)
    qed
  qed
  then show ?thesis using assms(2) by simp
qed

lemma restore_branch_consistent:
  assumes R: "replays C skip F"
  shows "consistent F d \<Longrightarrow> restore_branch C skip nb bs d = Some (r, d') \<Longrightarrow> consistent F d'"
  unfolding restore_branch_def
proof (induction bs arbitrary: d)
  case (Cons b bs)
  from Cons.prems(2) [unfolded forP.simps] show ?case
    by (cases rule: bindP_cases) (use Cons push_one_consistent [OF R] in blast)+
qed simp

lemma roll_back_consistent:
  assumes R: "replays C skip F" and d: "consistent F d" and ok: "roll_back C skip nb bad second e d = Some (r, d')"
  shows "consistent F d'"
  using ok d unfolding roll_back_def Let_def
  by (elim bindP_cases) (auto simp: readP_def dest: pop_until_consistent restore_branch_consistent [OF R])

lemma push_branch_consistent:
  assumes R: "replays C skip F"
  shows "consistent F d \<Longrightarrow> push_branch C skip nb second ps d = Some (r, d') \<Longrightarrow> consistent F d'"
proof (induction ps arbitrary: d)
  case (Cons p ps)
  let ?one = "push_one C skip (fi_id (item (fork_db d) p)) (fi_data (item (fork_db d) p)) d"
  obtain r1 d1 where one: "?one = Some (r1, d1)" using Cons.prems(2) by (cases ?one) auto
  have "consistent F d1" by (rule push_one_consistent [OF R Cons.prems(1) one])
  then show ?case using Cons one roll_back_consistent [OF R] by (cases r1) auto
qed simp

lemma switch_forks_consistent:
  assumes R: "replays C skip F" and d: "consistent F d" and ok: "switch_forks C skip nb h d = Some (r, d')"
  shows "consistent F d'"
  using ok d unfolding switch_forks_def
  by (auto split: option.splits sum.splits prod.splits elim!: bindP_cases dest: pop_until_consistent push_branch_consistent [OF R])

lemma push_direct_consistent:
  assumes R: "replays C skip F" and d: "consistent F d" and ok: "push_direct C skip b d = Some (r, d')"
  shows "consistent F d'"
  using ok d unfolding push_direct_def
  by (auto split: option.splits sum.splits prod.splits dest: push_one_consistent [OF R])

lemma push_block_inner_consistent:
  assumes R: "replays C (skip_flags (db_state d)) F" and d: "consistent F d" and ok: "push_block_inner C b d = Some (r, d')"
  shows "consistent F d'"
proof -
  have c: "consistent F (d\<lparr>fork_db := f\<rparr>)" for f using d by simp
  show ?thesis
    using ok d push_direct_consistent [OF R d] push_direct_consistent [OF R c] switch_forks_consistent [OF R c]
    unfolding push_block_inner_def Let_def by (auto split: if_splits option.splits sum.splits prod.splits)
qed

subsection \<open>Popping a number of blocks\<close>

fun pops :: "('sig, 'z, 'b) chain_env \<Rightarrow> nat \<Rightarrow> ('sig, 'z, 'b) database \<Rightarrow> ('sig, 'z, 'b) database option" where
  "pops C 0 d = Some d"
| "pops C (Suc n) d = (case pop_block C d of Some (Inr _, d') \<Rightarrow> pops C n d' | _ \<Rightarrow> None)"

lemma pops_Suc:
  assumes "pops C (Suc n) d = Some d'" and "\<not> pending_tx_session d"
  obtains ts u us f l d1 where "pop_block C d = Some (Inr (), d1)" "pops C n d1 = Some d'" "undo_copies d = u # us"
    "fork_pop_block (fork_db d) = Inr f"
    "d1 = d\<lparr>db_state := restore_objects u (db_state d), undo_copies := us, fork_db := f, block_log := l, popped_tx := ts\<rparr>"
proof -
  obtain d1 where 1: "pop_block C d = Some (Inr (), d1)" "pops C n d1 = Some d'"
    using assms(1) by (auto split: option.splits prod.splits sum.splits)
  obtain ts u us f l where "undo_copies d = u # us" "fork_pop_block (fork_db d) = Inr f"
      "d1 = d\<lparr>db_state := restore_objects u (db_state d), undo_copies := us, fork_db := f, block_log := l, popped_tx := ts\<rparr>"
    by (rule pop_block_Inr [OF 1(1) assms(2)])
  then show ?thesis by (rule that [OF 1])
qed

lemma fork_pop_fields:
  assumes "fork_pop_block f = Inr g"
  shows "fk_items g = fk_items f" "fk_index g = fk_index f"
    "fk_head f = Some p \<Longrightarrow> fi_prev (item f p) = Some q \<Longrightarrow> fk_head g = Some q"
  using assms by (auto simp: fork_pop_block_def lock_prev_def throwE_not_Inr split: option.splits if_splits)

lemma pops_spec:
  "pops C n d = Some d' \<Longrightarrow> \<not> pending_tx_session d \<Longrightarrow>
     n \<le> length (undo_copies d) \<and> undo_copies d' = drop n (undo_copies d) \<and> \<not> pending_tx_session d' \<and>
     db_state d' = (if n = 0 then db_state d else restore_objects (undo_copies d ! (n - 1)) (db_state d)) \<and>
     fk_items (fork_db d') = fk_items (fork_db d) \<and> fk_index (fork_db d') = fk_index (fork_db d)"
proof (induction n arbitrary: d)
  case (Suc n)
  obtain ts u us f l d1 where 1: "pop_block C d = Some (Inr (), d1)" "pops C n d1 = Some d'" "undo_copies d = u # us"
      "fork_pop_block (fork_db d) = Inr f"
      "d1 = d\<lparr>db_state := restore_objects u (db_state d), undo_copies := us, fork_db := f, block_log := l, popped_tx := ts\<rparr>"
    by (rule pops_Suc [OF Suc.prems])
  have "\<not> pending_tx_session d1" using Suc.prems(2) by (simp add: 1(5))
  note IH = Suc.IH [OF 1(2) this]
  show ?case using IH fork_pop_fields(1,2) [OF 1(4)] by (cases n) (auto simp: 1(3,5))
qed simp

lemma pops_head:
  "pops C n d = Some d' \<Longrightarrow> \<not> pending_tx_session d \<Longrightarrow> linked (fork_db d) ps \<Longrightarrow> fk_head (fork_db d) = Some (hd ps) \<Longrightarrow>
     n < length ps \<Longrightarrow> fk_head (fork_db d') = Some (ps ! n)"
proof (induction n arbitrary: d ps)
  case 0
  then show ?case by (cases ps) auto
next
  case (Suc n)
  obtain ts u us f l d1 where 1: "pop_block C d = Some (Inr (), d1)" "pops C n d1 = Some d'" "undo_copies d = u # us"
      "fork_pop_block (fork_db d) = Inr f"
      "d1 = d\<lparr>db_state := restore_objects u (db_state d), undo_copies := us, fork_db := f, block_log := l, popped_tx := ts\<rparr>"
    by (rule pops_Suc [OF Suc.prems(1,2)])
  obtain p q qs where ps: "ps = p # q # qs" using Suc.prems(5) by (cases ps; cases "tl ps") auto
  have lk: "fi_prev (item (fork_db d) p) = Some q" "linked (fork_db d) (q # qs)" using Suc.prems(3) by (simp_all add: ps)
  note fp = fork_pop_fields [OF 1(4)]
  have "linked f (q # qs)"
  proof -
    have "linked g xs = linked h xs" if "fk_items g = fk_items h" for g h :: "'a processed_transaction fork_database" and xs
      using that by (induction h xs rule: linked.induct) auto
    then show ?thesis using lk(2) fp(1) by blast
  qed
  then show ?case
    using Suc.IH [OF 1(2), of "q # qs"] fp(3) [OF _ lk(1)] Suc.prems(2,4,5) by (simp add: 1(5) ps)
qed

lemma pops_popped:
  "pops C n d = Some d' \<Longrightarrow> \<not> pending_tx_session d \<Longrightarrow> length ps = n \<Longrightarrow>
     (\<And>j. j < n \<Longrightarrow> find_id (fork_db d) ((db_head d # map head_block_id (undo_copies d)) ! j) = Some (ps ! j)) \<Longrightarrow>
     popped_tx d' = concat (map (\<lambda>p. map signed_part (transactions (fi_data (item (fork_db d) p)))) (rev ps)) @ popped_tx d"
proof (induction n arbitrary: d ps)
  case (Suc n)
  obtain d1 where 1: "pop_block C d = Some (Inr (), d1)" "pops C n d1 = Some d'"
    using Suc.prems(1) by (auto split: option.splits prod.splits sum.splits)
  obtain b u us f l where b: "fetch_block_by_id C d (db_head d) = Some b" "undo_copies d = u # us" "fork_pop_block (fork_db d) = Inr f"
      and d1: "d1 = d\<lparr>db_state := restore_objects u (db_state d), undo_copies := us, fork_db := f, block_log := l,
        popped_tx := map signed_part (transactions b) @ popped_tx d\<rparr>"
    by (rule pop_block_Inr [OF 1(1) Suc.prems(2)])
  obtain p qs where ps: "ps = p # qs" using Suc.prems(3) by (cases ps) auto
  note fp = fork_pop_fields(1,2) [OF b(3)]
  have hd: "db_head d1 = head_block_id u" using content_head [of "db_state d1" u] by (simp add: d1)
  have "find_id (fork_db d) (db_head d) = Some p" using Suc.prems(4) [of 0] by (simp add: ps)
  then have bp: "b = fi_data (item (fork_db d) p)" using b(1) by (simp add: fetch_block_by_id_def fetch_block_def)
  have it: "item f = item (fork_db d)" "find_id f = find_id (fork_db d)" by (simp_all add: fun_eq_iff find_id_def fp)
  have "find_id (fork_db d1) ((db_head d1 # map head_block_id (undo_copies d1)) ! j) = Some (qs ! j)" if "j < n" for j
    using Suc.prems(4) [of "Suc j"] that unfolding hd by (simp add: d1 it b(2) ps)
  then show ?case using Suc.IH [OF 1(2), of qs] Suc.prems(2,3) by (simp add: ps d1 bp it)
qed simp

lemma pop_until_pops:
  "pops C n d = Some d' \<Longrightarrow> \<not> pending_tx_session d \<Longrightarrow> db_head d' = i \<Longrightarrow>
     (0 < n \<Longrightarrow> db_head d \<noteq> i) \<Longrightarrow> (\<And>j. Suc j < n \<Longrightarrow> head_block_id (undo_copies d ! j) \<noteq> i) \<Longrightarrow> pop_until C i d = Some (Inr (), d')"
proof (induction n arbitrary: d)
  case 0
  then show ?case by (subst pop_until.simps) simp
next
  case (Suc n)
  obtain ts u us f l d1 where 1: "pop_block C d = Some (Inr (), d1)" "pops C n d1 = Some d'" "undo_copies d = u # us"
      "fork_pop_block (fork_db d) = Inr f"
      "d1 = d\<lparr>db_state := restore_objects u (db_state d), undo_copies := us, fork_db := f, block_log := l, popped_tx := ts\<rparr>"
    by (rule pops_Suc [OF Suc.prems(1,2)])
  have hd: "db_head d1 = head_block_id u" using content_head [of "db_state d1" u] by (simp add: 1(5))
  have "pop_until C i d1 = Some (Inr (), d')"
  proof (rule Suc.IH [OF 1(2) _ Suc.prems(3)])
    show "\<not> pending_tx_session d1" using Suc.prems(2) by (simp add: 1(5))
    show "0 < n \<Longrightarrow> db_head d1 \<noteq> i" using Suc.prems(5) [of 0] by (simp add: hd 1(3))
    show "\<And>j. Suc j < n \<Longrightarrow> head_block_id (undo_copies d1 ! j) \<noteq> i" using Suc.prems(5) [of "Suc _"] by (simp add: 1(3,5))
  qed
  then show ?case using Suc.prems(4) 1(1) by (subst pop_until.simps) simp
qed

lemma push_branch_Inr:
  "apply_branch C skip (map (\<lambda>p. fi_data (item (fork_db d) p)) ps) (db_state d) = Some (Inr (), st') \<Longrightarrow>
    \<exists>d'. push_branch C skip nb second ps d = Some (Inr True, d') \<and> db_state d' = st' \<and>
      fk_items (fork_db d') = fk_items (fork_db d) \<and> fk_head (fork_db d') = fk_head (fork_db d) \<and> popped_tx d' = popped_tx d \<and>
      block_log d' = fold (\<lambda>p. store_block (hashes C) (packing C) (fi_id (item (fork_db d) p)) (fi_data (item (fork_db d) p))) ps (block_log d)"
proof (induction ps arbitrary: d)
  case (Cons p ps)
  let ?i = "fi_id (item (fork_db d) p)" and ?b = "fi_data (item (fork_db d) p)"
  obtain st1 where 1: "apply_block_state C ?b skip (db_state d) = Some (Inr (), st1)"
      and 2: "apply_branch C skip (map (\<lambda>p. fi_data (item (fork_db d) p)) ps) st1 = Some (Inr (), st')"
    using Cons.prems by auto
  obtain d1 where one: "push_one C skip ?i ?b d = Some (Inr (), d1)" using push_one_Ex [OF 1] by blast
  note p = push_one_Inr [OF one]
  have st1: "db_state d1 = st1" using p(1) 1 by simp
  show ?case using Cons.IH [of d1] 2 one p(4,5,8,9) by (simp add: st1)
qed simp

lemma apply_branch_snoc:
  "apply_branch C skip (bs @ [b]) st = Some (Inr (), st') \<longleftrightarrow>
    (\<exists>st1. apply_branch C skip bs st = Some (Inr (), st1) \<and> apply_block_state C b skip st1 = Some (Inr (), st'))"
  by (induction bs arbitrary: st) auto

lemma slots_cong:
  assumes "gpo st' = gpo st" and "dgpo st' = dgpo st" and "current_shuffled_witnesses st' = current_shuffled_witnesses st"
  shows "get_slot_at_time st' = get_slot_at_time st" "get_scheduled_witness st' = get_scheduled_witness st"
  unfolding fun_eq_iff get_slot_at_time_def get_slot_time_def get_scheduled_witness_def chain_block_interval_def head_block_num_def
    head_block_time_def assms by simp_all

lemma clear_ops_witnesses: "witnesses (clear_applied_ops st) = witnesses st"
  by (simp add: clear_applied_ops_def)

text \<open>
  The undo history reaches the fork point: as many blocks as the old branch has can be popped, the
  copies are the states before its blocks, and these blocks are distinct.
\<close>

definition undo_reaches :: "('sig, 'z, 'b) chain_env \<Rightarrow> ('sig, 'z, 'b) database \<Rightarrow> 'sig block list \<Rightarrow> bool" where
  "undo_reaches C d bs \<longleftrightarrow> \<not> pending_tx_session d \<and> bs \<noteq> [] \<and> pops C (length bs) d \<noteq> None \<and>
     (\<forall>j<length bs. head_block_id (undo_copies d ! j) = previous (bs ! j)) \<and> distinct (db_head d # map previous bs)"

lemma pop_to_fork_point:
  assumes r: "undo_reaches C d bs"
  obtains d0 where "pops C (length bs) d = Some d0" "pop_until C (previous (last bs)) d = Some (Inr (), d0)"
    "db_state d0 = restore_objects (undo_copies d ! (length bs - 1)) (db_state d)"
    "fk_items (fork_db d0) = fk_items (fork_db d)" "\<not> pending_tx_session d0"
proof -
  have r1: "\<not> pending_tx_session d" "bs \<noteq> []" "\<And>j. j < length bs \<Longrightarrow> head_block_id (undo_copies d ! j) = previous (bs ! j)"
      "distinct (db_head d # map previous bs)" using r by (auto simp: undo_reaches_def)
  obtain d0 where d0: "pops C (length bs) d = Some d0" using r by (auto simp: undo_reaches_def)
  note sp = pops_spec [OF d0 r1(1)]
  have st: "db_state d0 = restore_objects (undo_copies d ! (length bs - 1)) (db_state d)" using sp r1(2) by simp
  have l: "previous (last bs) = map previous bs ! (length bs - 1)" using r1(2) by (simp add: last_conv_nth)
  have "db_head d0 = previous (last bs)"
    using content_head [of "db_state d0" "undo_copies d ! (length bs - 1)"] r1(3) [of "length bs - 1"] r1(2) by (simp add: st last_conv_nth)
  then have "pop_until C (previous (last bs)) d = Some (Inr (), d0)"
  proof (rule pop_until_pops [OF d0 r1(1)])
    show "db_head d \<noteq> previous (last bs)" using r1(2,4) by (auto simp: image_iff)
    fix j assume j: "Suc j < length bs"
    have "map previous bs ! j \<noteq> map previous bs ! (length bs - 1)" using r1(4) j by (subst nth_eq_iff_index_eq) auto
    then show "head_block_id (undo_copies d ! j) \<noteq> previous (last bs)" using r1(3) [of j] j by (simp add: l)
  qed
  then show ?thesis using that [OF d0 _ st] sp by blast
qed

subsection \<open>A concrete chain\<close>

text \<open>
  One witness, blocks every three seconds, all checks on. A block identifier holds the number and
  the signature of the block, and is never the zero identifier; the log stores one byte for each
  of the blocks of the example.
\<close>

definition demo_block :: "block_id_type \<Rightarrow> nat \<Rightarrow> nat \<Rightarrow> unit processed_transaction list \<Rightarrow> unit block" where
  "demo_block prev t sig trxs = \<lparr>previous = prev, timestamp = t, block_witness = 4, transaction_merkle_root = 0,
     witness_signature = sig, transactions = trxs\<rparr>"

definition demo_b1 :: "unit block" where "demo_b1 = demo_block null_block_id 1002 0 []"
definition demo_b2 :: "unit block" where "demo_b2 = demo_block (Block_id 1 1) 1005 1 []"
definition demo_c2 :: "unit block" where "demo_c2 = demo_block (Block_id 1 1) 1005 2 []"
definition demo_c3 :: "unit block" where "demo_c3 = demo_block (Block_id 2 5) 1008 3 []"

definition demo_raw :: "(unit processed_transaction, 8 word) raw_env" where
  "demo_raw =
    \<lparr>raw_pack = (\<lambda>b. [word_of_nat (witness_signature b)]),
     raw_unpack = (\<lambda>v. case v of [] \<Rightarrow> Inr (demo_block null_block_id 0 9 [])
        | [w] \<Rightarrow> Inr (if w = 0 then demo_b1 else if w = 1 then demo_b2 else if w = 2 then demo_c2 else demo_c3)
        | _ \<Rightarrow> throwE Bad_cast)\<rparr>"

definition demo_env :: "(unit, unit, 8 word) chain_env" where
  "demo_env =
    \<lparr>hashes = \<lparr>endian_reverse_u32 = (\<lambda>w. w), sha224_rest = (\<lambda>b. word_of_nat (2 * witness_signature b + 1))\<rparr>,
     packing = demo_raw,
     slots = \<lparr>fc_shl = (\<lambda>w n. push_bit n w), fc_popcount = (\<lambda>w. 0)\<rparr>, shares = fc_std, txs = demo_txs,
     merkle_digest = (\<lambda>_. 0), merkle_pair = (\<lambda>_. 0), merkle_sum = (\<lambda>_. 0), signee = (\<lambda>_. 0),
     perform_chain_maintenance = (\<lambda>_ st. Inr st), clear_expired_proposals = Inr, clear_expired_orders = Inr,
     update_expired_feeds = Inr, update_withdraw_permissions = Inr\<rparr>"

definition plain :: "(unit, unit) node \<Rightarrow> bool" where
  "plain st \<longleftrightarrow> gpo st = demo_gpo \<and> current_shuffled_witnesses st = [4] \<and> (\<exists>w. witnesses st = [4 \<mapsto> w] \<and> signing_key w = 0) \<and>
     witness_budget (dgpo st) = 0 \<and> dynamic_flags (dgpo st) = 0 \<and> next_maintenance_time (dgpo st) = 1000000 \<and> checkpoints st = [] \<and>
     skip_flags st = 0 \<and> (\<forall>n. block_summaries (objects st) n \<noteq> None) \<and> 3 dvd head_block_time st \<and> head_block_time st < 2000 \<and>
     head_block_num st < 1000 \<and> last_irreversible_block_num (dgpo st) \<le> head_block_num st \<and>
     unat (id_hash0 (head_block_id st)) = head_block_num st"

lemma plain_node: "plain (demo_node 0)"
proof -
  have "signing_key demo_witness = 0" by (simp add: demo_witness_def)
  then show ?thesis
    by (auto simp: plain_def demo_node_def demo_dgpo_def demo_ledger_def head_block_time_def head_block_num_def head_block_id_def null_block_id_def)
qed

lemma demo_steps_keep: "steps_keep demo_env"
  by (auto simp: steps_keep_def demo_env_def)

lemma demo_txs_keep: "evaluators_keep (txs demo_env)"
  using demo_evaluators_keep by (simp add: demo_env_def)

lemma plain_slot:
  assumes "plain st"
  shows "get_slot_time st 1 = Inr (head_block_time st + 3)" "get_slot_at_time st (head_block_time st + 3) = Inr 1"
    "get_slot_at_time st (head_block_time st) = Inr 0"
proof -
  have p: "chain_block_interval st = 3" "dynamic_flags (dgpo st) = 0" "3 dvd head_block_time st" "head_block_time st < 2000"
    using assms by (simp_all add: plain_def chain_block_interval_def demo_gpo_def default_chain_parameters_def)
  have m: "head_block_time st div 3 * 3 = head_block_time st" using p(3) by simp
  show t: "get_slot_time st 1 = Inr (head_block_time st + 3)"
    using p(4) m by (simp add: get_slot_time_def p(1,2) Let_def) (simp add: head_block_time_def)
  show "get_slot_at_time st (head_block_time st + 3) = Inr 1" "get_slot_at_time st (head_block_time st) = Inr 0"
    unfolding get_slot_at_time_def t by (simp_all add: p(1))
qed

lemma demo_num: "plain st \<Longrightarrow> previous b = head_block_id st \<Longrightarrow> block_num (hashes demo_env) b = head_block_num st + 1"
proof -
  assume a: "plain st" "previous b = head_block_id st"
  then have "unat (id_hash0 (previous b)) < 1000" "unat (id_hash0 (previous b)) = head_block_num st" by (simp_all add: plain_def)
  moreover have "id_hash0 (previous b) + 1 = word_of_nat (unat (id_hash0 (previous b)) + 1)" by simp
  ultimately have "unat (id_hash0 (previous b) + 1) = unat (id_hash0 (previous b)) + 1"
    by (simp only: unat_of_nat) (simp add: take_bit_nat_eq_self)
  then show ?thesis using a by (simp add: block_num_def demo_env_def plain_def)
qed

definition follows :: "unit block \<Rightarrow> (unit, unit) node \<Rightarrow> bool" where
  "follows b st \<longleftrightarrow> previous b = head_block_id st \<and> timestamp b = head_block_time st + 3 \<and> timestamp b < 2000 \<and>
     head_block_num st + 1 < 1000 \<and> block_witness b = 4 \<and> merkle_ok demo_env b"

lemma demo_global:
  assumes pl: "plain st" and b: "follows b st"
  shows "\<exists>st'. update_global_dynamic_data (slots demo_env) (hashes demo_env) b st = Inr st' \<and> plain st' \<and> 0 < fork_max_size st' \<and>
    head_block_time st' = timestamp b \<and> head_block_num st' = block_num (hashes demo_env) b"
proof -
  let ?H = "hashes demo_env"
  let ?n = "with_new_head (slots demo_env) ?H b 1 st"
  let ?s = "?n\<lparr>undo_max_size := (history_depth ?n + 1) mod 2 ^ 32, fork_max_size := (history_depth ?n + 1) mod 2 ^ 32\<rparr>"
  have prev: "previous b = head_block_id st" and t: "timestamp b = head_block_time st + 3" "timestamp b < 2000" and k: "head_block_num st + 1 < 1000"
    using b by (simp_all add: follows_def)
  note num = demo_num [OF pl prev]
  have slot: "get_slot_at_time st (timestamp b) = Inr 1" using plain_slot(2) [OF pl] t(1) by simp
  have "history_depth ?n = head_block_num st + 1 - last_irreversible_block_num (dgpo st)"
    using pl num k by (simp add: history_depth_def plain_def with_new_head_def update_dgpo_def head_block_num_def of_nat_diff nat_minus_as_int)
  then have d: "history_depth ?n < 1000" using k by linarith
  have u: "update_global_dynamic_data (slots demo_env) ?H b st = Inr ?s"
    unfolding update_global_dynamic_data_eq slot using d by (simp add: count_missed_def Let_def GRAPHENE_MAX_UNDO_HISTORY_def)
  have "unat (word_of_nat (head_block_num st + 1) :: 32 word) = head_block_num st + 1"
    using k by (simp only: unat_of_nat) (simp add: take_bit_nat_eq_self)
  then have "unat (id_hash0 (block_id ?H b)) = head_block_num st + 1" using num by (simp add: block_id_def demo_env_def)
  then have "plain ?s"
    using pl t k num with_new_head_simps [of "slots demo_env" ?H b 1 st]
    by (auto simp: plain_def with_new_head_def update_dgpo_def head_block_id_def head_block_time_def head_block_num_def)
  then show ?thesis using u d num with_new_head_simps [of "slots demo_env" ?H b 1 st]
    by (intro exI [of _ ?s]) (simp add: head_block_time_def head_block_num_def)
qed

lemma demo_env_steps:
  "shares demo_env = fc_std" "clear_expired_proposals demo_env = Inr" "clear_expired_orders demo_env = Inr"
  "update_expired_feeds demo_env = Inr" "update_withdraw_permissions demo_env = Inr" "txs demo_env = demo_txs"
  by (simp_all add: demo_env_def)

lemma plain_signing:
  assumes pl: "plain st" and b: "timestamp b = head_block_time st"
  shows "\<exists>w. update_signing_witness fc_std (deposit_witness_pay fc_std) H 4 b st =
    Inr (st\<lparr>witnesses := [4 \<mapsto> w\<lparr>last_confirmed_block_num := block_num H b\<rparr>]\<rparr>) \<and> signing_key w = 0"
proof -
  obtain w where w: "witnesses st = [4 \<mapsto> w]" "signing_key w = 0" using pl by (auto simp: plain_def)
  have bd: "update_dgpo (\<lambda>d. d\<lparr>witness_budget := 0\<rparr>) st = st"
    using pl by (simp add: update_dgpo_def plain_def)
  have pay: "witness_pay_per_block (gpo_parameters (gpo st)) = 1000000" "witness_budget (dgpo st) = 0"
    using pl by (simp_all add: plain_def demo_gpo_def default_chain_parameters_def)
  have "update_signing_witness fc_std (deposit_witness_pay fc_std) H 4 b st =
      Inr (st\<lparr>witnesses := [4 \<mapsto> (w\<lparr>last_aslot := current_aslot (dgpo st) mod 2 ^ 64\<rparr>)\<lparr>last_confirmed_block_num := block_num H b\<rparr>]\<rparr>)"
    using plain_slot(3) [OF pl]
    by (simp add: update_signing_witness_def b pay safe_sub_def bd deposit_witness_pay_def w getE_def modify_witness_def Let_def)
  then show ?thesis using w(2) by (intro exI [of _ "w\<lparr>last_aslot := current_aslot (dgpo st) mod 2 ^ 64\<rparr>"]) simp
qed

lemma shuffle_one: "shuffle t [4] = [4]"
proof -
  have "mset (shuffle t [4]) = {#4#}" by (simp add: shuffle_perm)
  then show ?thesis using mset_single_iff_right by metis
qed

lemma demo_updates:
  assumes pl: "plain st" and b: "timestamp b = head_block_time st" "head_block_num st = block_num (hashes demo_env) b"
  shows "\<exists>st'. apply_block_updates demo_env b (4, False) st = Some (Inr (), st') \<and> plain st'"
proof -
  let ?H = "hashes demo_env"
  obtain w where 1: "update_signing_witness fc_std (deposit_witness_pay fc_std) ?H 4 b st =
      Inr (st\<lparr>witnesses := [4 \<mapsto> w\<lparr>last_confirmed_block_num := block_num ?H b\<rparr>]\<rparr>)" and w: "signing_key w = 0"
    using plain_signing [OF pl b(1)] by blast
  let ?s1 = "st\<lparr>witnesses := [4 \<mapsto> w\<lparr>last_confirmed_block_num := block_num ?H b\<rparr>]\<rparr>"
  have p1: "plain ?s1" using pl w by (auto simp: plain_def head_block_id_def head_block_time_def head_block_num_def)
  have "\<exists>d. update_last_irreversible_block ?s1 = Inr (?s1\<lparr>dgpo := (dgpo ?s1)\<lparr>last_irreversible_block_num := d\<rparr>\<rparr>) \<and> d \<le> head_block_num st"
    using pl b(2)
    by (auto simp: update_last_irreversible_block_def plain_def demo_gpo_def get_witnesses_def getE_def update_dgpo_def GRAPHENE_100_PERCENT_def
        GRAPHENE_IRREVERSIBLE_THRESHOLD_def Let_def intro: exI [of _ "last_irreversible_block_num (dgpo st)"] exI [of _ "block_num ?H b"])
  then obtain d where 2: "update_last_irreversible_block ?s1 = Inr (?s1\<lparr>dgpo := (dgpo ?s1)\<lparr>last_irreversible_block_num := d\<rparr>\<rparr>)"
      and d: "d \<le> head_block_num st" by blast
  let ?s2 = "?s1\<lparr>dgpo := (dgpo ?s1)\<lparr>last_irreversible_block_num := d\<rparr>\<rparr>"
  have p2: "plain ?s2" using p1 d by (auto simp: plain_def head_block_id_def head_block_time_def head_block_num_def)
  obtain i where "block_summaries (objects ?s2) (block_num ?H b mod 2 ^ 16) = Some i"
    using p2 unfolding plain_def by blast
  then obtain s3 where 3: "create_block_summary ?H b ?s2 = Inr s3" and p3: "plain s3"
    using p2 by (auto simp: create_block_summary_def getE_def Let_def plain_def head_block_id_def head_block_time_def head_block_num_def)
  let ?s4 = "update_maintenance_flag False (clear_expired_transactions s3)"
  have p4: "plain ?s4"
    using p3 by (auto simp: plain_def update_maintenance_flag_def update_dgpo_def clear_expired_transactions_def Let_def head_block_id_def
        head_block_time_def head_block_num_def)
  have 5: "update_witness_schedule ?s4 = Inr ?s4"
    using p4 by (simp add: update_witness_schedule_def plain_def demo_gpo_def shuffle_one)
  have p6: "plain (clear_applied_ops ?s4)"
    using p4 by (simp add: plain_def clear_applied_ops_def head_block_id_def head_block_time_def head_block_num_def)
  have "apply_block_updates demo_env b (4, False) st = Some (Inr (), clear_applied_ops ?s4)"
    by (simp add: apply_block_updates_def bindP_def stepP_def updateP_def demo_env_steps 1 2 [simplified] 3 [simplified] 5)
  then show ?thesis using p6 by blast
qed

lemma demo_header:
  assumes pl: "plain st" and b: "follows b st"
  shows "validate_block_header demo_env 0 b st = Inr 4"
proof -
  obtain w where w: "witnesses st = [4 \<mapsto> w]" "signing_key w = 0" using pl by (auto simp: plain_def)
  have sch: "get_scheduled_witness st (Suc 0) = Inr 4" using pl by (simp add: get_scheduled_witness_def plain_def Let_def)
  have sg: "signee demo_env b = 0" by (simp add: demo_env_def)
  show ?thesis
    using b plain_slot(2) [OF pl] by (simp add: validate_block_header_def follows_def w getE_def sch sg)
qed

text \<open>A block is applied once its transactions are.\<close>

lemma demo_block_applies:
  assumes pl: "plain st" and b: "follows b st" and
    trxs: "forP (\<lambda>trx. liftP (apply_transaction demo_txs trx 0)) (transactions b) (clear_applied_ops st) = Some (Inr (), st1)"
    and st1: "plain st1" "head_block_id st1 = head_block_id st" "head_block_time st1 = head_block_time st" "head_block_num st1 = head_block_num st"
  shows "\<exists>st' st2. apply_block_state demo_env b 0 st = Some (Inr (), st') \<and> plain st' \<and>
    apply_block_transactions demo_env b st = Some (Inr (4, False), st2) \<and> 0 < fork_max_size st2"
proof -
  have fl: "st\<lparr>skip_flags := 0\<rparr> = st" and sk: "skip_flags st = 0" and cp: "checkpoint_skip demo_env b 0 st = Inr 0"
    using pl by (simp_all add: plain_def checkpoint_skip_def last_checkpoint_def)
  have plc: "plain (clear_applied_ops st)" "follows b (clear_applied_ops st)"
    using pl b by (simp_all add: plain_def follows_def clear_applied_ops_def head_block_id_def head_block_time_def head_block_num_def)
  have b1: "follows b st1" using b st1 by (simp add: follows_def)
  have mk: "merkle_ok demo_env b" "\<not> next_maintenance_time (dgpo (clear_applied_ops st)) \<le> timestamp b"
    using b plc(1) by (simp_all add: follows_def plain_def)
  obtain st2 where 2: "update_global_dynamic_data (slots demo_env) (hashes demo_env) b st1 = Inr st2" "plain st2" "0 < fork_max_size st2"
      "head_block_time st2 = timestamp b" "head_block_num st2 = block_num (hashes demo_env) b"
    using demo_global [OF st1(1) b1] by blast
  have t: "apply_block_transactions demo_env b st = Some (Inr (4, False), st2)"
    using demo_header [OF plc] trxs 2(1) mk
    by (simp add: apply_block_transactions_def sk bindP_def updateP_def readP_def stepP_def demo_env_steps)
  obtain st3 where 3: "apply_block_updates demo_env b (4, False) st2 = Some (Inr (), st3)" "plain st3"
    using demo_updates [OF 2(2) 2(4) [symmetric] 2(5)] by blast
  have "apply_block_state demo_env b 0 st = Some (Inr (), st3\<lparr>skip_flags := 0\<rparr>)"
    by (simp add: apply_block_state_def bindP_def readP_def cp with_skip_flags_def fl t 3(1) sk)
  moreover have "st3\<lparr>skip_flags := 0\<rparr> = st3" using 3(2) by (simp add: plain_def)
  ultimately show ?thesis using 3(2) t 2(3) by auto
qed

lemma demo_empty_block_applies:
  assumes pl: "plain st" and b: "follows b st" and "transactions b = []"
  shows "\<exists>st' st2. apply_block_state demo_env b 0 st = Some (Inr (), st') \<and> plain st' \<and>
    apply_block_transactions demo_env b st = Some (Inr (4, False), st2) \<and> 0 < fork_max_size st2"
proof (rule demo_block_applies [OF pl b])
  show "forP (\<lambda>trx. liftP (apply_transaction demo_txs trx 0)) (transactions b) (clear_applied_ops st) = Some (Inr (), clear_applied_ops st)"
    by (simp add: assms(3))
  show "plain (clear_applied_ops st)"
    using pl by (simp add: plain_def clear_applied_ops_def head_block_id_def head_block_time_def head_block_num_def)
qed simp_all


lemma demo_ids:
  "block_id (hashes demo_env) demo_b1 = Block_id 1 1" "block_id (hashes demo_env) demo_b2 = Block_id 2 3"
  "block_id (hashes demo_env) demo_c2 = Block_id 2 5" "block_id (hashes demo_env) demo_c3 = Block_id 3 7"
  by (simp_all add: block_id_def block_num_def demo_env_def demo_b1_def demo_b2_def demo_c2_def demo_c3_def demo_block_def null_block_id_def)

lemma demo_never_null: "block_id (hashes demo_env) b \<noteq> null_block_id"
proof
  assume "block_id (hashes demo_env) b = null_block_id"
  then have "(word_of_nat (2 * witness_signature b + 1) :: 128 word) = 0"
    by (simp add: block_id_def demo_env_def null_block_id_def)
  then have "bit (word_of_nat (2 * witness_signature b + 1) :: 128 word) 0 = bit (0 :: 128 word) 0" by (rule arg_cong)
  then show False by (simp add: bit_0)
qed

lemma demo_merkle: "merkle_ok demo_env (demo_block prev t sig trxs)"
  by (simp add: merkle_ok_def calculate_merkle_root_def demo_block_def demo_env_def)

lemma demo_follows:
  assumes "prev = head_block_id st" "t = head_block_time st + 3" "t < 2000" "head_block_num st + 1 < 1000"
  shows "follows (demo_block prev t sig trxs) st"
  using assms demo_merkle [of prev t sig trxs] by (simp add: follows_def) (simp add: demo_block_def)

lemma demo_node_head: "head_block_id (demo_node n) = null_block_id" "head_block_time (demo_node n) = 999" "head_block_num (demo_node n) = n"
  by (simp_all add: demo_node_def demo_dgpo_def head_block_id_def head_block_time_def head_block_num_def)

lemma demo_first: "\<exists>st1. apply_block_state demo_env demo_b1 0 (demo_node 0) = Some (Inr (), st1) \<and> plain st1 \<and>
    head_block_id st1 = Block_id 1 1 \<and> head_block_time st1 = 1002 \<and> head_block_num st1 = 1"
proof -
  have "follows demo_b1 (demo_node 0)" "transactions demo_b1 = []"
    unfolding demo_b1_def by (rule demo_follows) (simp_all add: demo_node_head demo_block_def)
  from demo_empty_block_applies [OF plain_node this]
  obtain st1 where 1: "apply_block_state demo_env demo_b1 0 (demo_node 0) = Some (Inr (), st1)" "plain st1" by blast
  have "timestamp demo_b1 = 1002" "block_num (hashes demo_env) demo_b1 = 1"
    by (simp_all add: demo_b1_def demo_block_def block_num_def demo_env_def null_block_id_def)
  then show ?thesis using 1 apply_block_state_head(3,4,5) [OF demo_txs_keep demo_steps_keep 1(1)] by (simp add: demo_ids)
qed

lemma demo_second:
  assumes st: "plain st" "head_block_id st = Block_id 1 1" "head_block_time st = 1002" "head_block_num st = 1"
    and b: "b = demo_block (Block_id 1 1) 1005 sig []"
  shows "\<exists>st' st2. apply_block_state demo_env b 0 st = Some (Inr (), st') \<and> plain st' \<and> head_block_id st' = block_id (hashes demo_env) b \<and>
    head_block_time st' = 1005 \<and> head_block_num st' = 2 \<and>
    apply_block_transactions demo_env b st = Some (Inr (4, False), st2) \<and> 0 < fork_max_size st2"
proof -
  have "follows b st" "transactions b = []"
    unfolding b by (rule demo_follows) (simp_all add: st demo_block_def)
  from demo_empty_block_applies [OF st(1) this]
  obtain st' st2 where 1: "apply_block_state demo_env b 0 st = Some (Inr (), st')" "plain st'"
      "apply_block_transactions demo_env b st = Some (Inr (4, False), st2)" "0 < fork_max_size st2" by blast
  have "timestamp b = 1005" "block_num (hashes demo_env) b = 2"
    by (simp_all add: b demo_block_def block_num_def demo_env_def)
  then show ?thesis using 1 apply_block_state_head(3,4,5) [OF demo_txs_keep demo_steps_keep 1(1)] by auto
qed

subsection \<open>Properties\<close>

text \<open>
  C7: a block is applied only on the head it names, later than it, by an existing witness and,
  unless skipped, signed by that witness in its scheduled slot and with the Merkle root of its
  transactions; a block that a checkpoint names is that block. Then it is the head.
\<close>

theorem applied_block_is_head:
  assumes T: "evaluators_keep (txs C)" and C: "steps_keep C" and ok: "apply_block_state C b skip st = Some (Inr (), st')"
  shows "head_block_id st = previous b \<and> head_block_time st < timestamp b \<and>
    (\<exists>skip' w. checkpoint_skip C b skip st = Inr skip' \<and> witnesses st (block_witness b) = Some w \<and>
       (skip' AND skip_merkle_check = 0 \<longrightarrow> merkle_ok C b) \<and>
       (skip' AND skip_witness_signature = 0 \<longrightarrow> signee C b = signing_key w) \<and>
       (skip' AND skip_witness_schedule_check = 0 \<longrightarrow>
          (\<exists>n>0. get_slot_at_time st (timestamp b) = Inr n \<and> get_scheduled_witness st n = Inr (block_witness b)))) \<and>
    head_block_id st' = block_id (hashes C) b \<and> head_block_time st' = timestamp b \<and>
    head_block_num st' = block_num (hashes C) b \<and> skip_flags st' = skip_flags st"
proof -
  note h = apply_block_state_head [OF T C ok]
  obtain skip' w m st1 st2 where s: "checkpoint_skip C b skip st = Inr skip'"
      and 1: "apply_block_transactions C b (st\<lparr>skip_flags := skip'\<rparr>) = Some (Inr (w, m), st1)"
    by (rule apply_block_state_Inr [OF ok])
  let ?st = "clear_applied_ops (st\<lparr>skip_flags := skip'\<rparr>)"
  have "gpo ?st = gpo st" "dgpo ?st = dgpo st" "current_shuffled_witnesses ?st = current_shuffled_witnesses st"
    by (simp_all add: clear_applied_ops_def)
  note slots = slots_cong [OF this] and ws = clear_ops_witnesses [of "st\<lparr>skip_flags := skip'\<rparr>"]
  note e = apply_block_transactions_effect(1,2) [OF T 1]
  have "\<exists>w. witnesses st (block_witness b) = Some w \<and> (skip' AND skip_merkle_check = 0 \<longrightarrow> merkle_ok C b) \<and>
       (skip' AND skip_witness_signature = 0 \<longrightarrow> signee C b = signing_key w) \<and>
       (skip' AND skip_witness_schedule_check = 0 \<longrightarrow>
          (\<exists>n>0. get_slot_at_time st (timestamp b) = Inr n \<and> get_scheduled_witness st n = Inr (block_witness b)))"
    using e by (auto simp: validate_block_header_def bindE_eq_Inr getE_eq_Inr assertE_eq_Inr slots ws split: if_splits)
  then show ?thesis using h s by blast
qed

theorem applied_block_is_head_witness:
  "\<exists>st'. apply_block_state demo_env demo_b1 0 (demo_node 0) = Some (Inr (), st') \<and> head_block_id st' = Block_id 1 1 \<and>
    head_block_time (demo_node 0) < timestamp demo_b1 \<and> merkle_ok demo_env demo_b1"
proof -
  obtain st1 where 1: "apply_block_state demo_env demo_b1 0 (demo_node 0) = Some (Inr (), st1)" using demo_first by blast
  have c: "checkpoint_skip demo_env demo_b1 0 (demo_node 0) = Inr 0"
    by (simp add: checkpoint_skip_def last_checkpoint_def demo_node_def)
  show ?thesis using applied_block_is_head [OF demo_txs_keep demo_steps_keep 1] 1 by (auto simp: demo_ids c)
qed

text \<open>
  C6: along any sequence of blocks that is applied with the check for duplicates, no transaction
  is applied twice, whatever its signatures: the record of a transaction is dropped only when it
  has expired, and an expired transaction is refused.
\<close>

theorem no_transaction_twice:
  assumes "evaluators_keep (txs C)" and "steps_keep C" and "skip AND skip_transaction_dupe_check = 0"
    and "apply_branch C skip bs st = Some (Inr (), st')"
    and "\<forall>b\<in>set bs. 0 < block_num (hashes C) b \<and> checkpoint_skip C b skip st = Inr skip"
  shows "distinct (branch_bodies bs) \<and> (\<forall>x\<in>set (branch_bodies bs). \<not> recorded (txs C) st x)"
  using apply_branch_spends [OF assms(1-5)] by (auto simp: spent_def)

definition demo_paid :: "unit block" where "demo_paid = demo_block null_block_id 1002 0 [demo_trx]"

lemma demo_paid_applies: "\<exists>st'. apply_block_state demo_env demo_paid 0 (demo_node 0) = Some (Inr (), st')"
proof -
  have c: "clear_applied_ops (demo_node 0) = demo_node 0" "(demo_node 0)\<lparr>skip_flags := 0\<rparr> = demo_node 0" "skip_flags (demo_node 0) = 0"
    by (simp_all add: clear_applied_ops_def demo_node_def demo_ledger_def)
  obtain L ptrx where 1: "apply_transaction_inner demo_txs demo_trx (demo_node 0) = Some (Inr ((demo_node 0)\<lparr>objects := L\<rparr>, ptrx))"
      and L: "block_summaries L = block_summaries demo_ledger"
    using demo_applies [of 0] by auto
  let ?st1 = "(demo_node 0)\<lparr>objects := L\<rparr>"
  have "apply_transaction demo_txs demo_trx 0 (demo_node 0) = Some (Inr (?st1, ptrx))"
    by (simp add: apply_transaction_def c 1)
  then have t: "forP (\<lambda>trx. liftP (apply_transaction demo_txs trx 0)) (transactions demo_paid) (clear_applied_ops (demo_node 0)) = Some (Inr (), ?st1)"
    by (simp add: demo_paid_def demo_block_def c bindP_def liftP_def)
  have f: "follows demo_paid (demo_node 0)" unfolding demo_paid_def by (rule demo_follows) (simp_all add: demo_node_head)
  have "plain ?st1"
    using plain_node L by (simp add: plain_def head_block_id_def head_block_time_def head_block_num_def demo_node_def)
  moreover have "head_block_id ?st1 = head_block_id (demo_node 0)" "head_block_time ?st1 = head_block_time (demo_node 0)"
      "head_block_num ?st1 = head_block_num (demo_node 0)"
    by (simp_all add: head_block_id_def head_block_time_def head_block_num_def)
  ultimately show ?thesis using demo_block_applies [OF plain_node f t] by blast
qed

theorem no_transaction_twice_witness:
  "\<exists>st'. apply_branch demo_env 0 [demo_paid] (demo_node 0) = Some (Inr (), st') \<and>
    branch_bodies [demo_paid] = [tx_body demo_trx] \<and> distinct (branch_bodies [demo_paid]) \<and> \<not> recorded (txs demo_env) (demo_node 0) (tx_body demo_trx)"
proof -
  obtain st' where ok: "apply_branch demo_env 0 [demo_paid] (demo_node 0) = Some (Inr (), st')" using demo_paid_applies by auto
  have b: "branch_bodies [demo_paid] = [tx_body demo_trx]" by (simp add: branch_bodies_def demo_paid_def demo_block_def)
  have "\<forall>b\<in>set [demo_paid]. 0 < block_num (hashes demo_env) b \<and> checkpoint_skip demo_env b 0 (demo_node 0) = Inr 0"
    by (simp add: checkpoint_skip_def last_checkpoint_def demo_node_def block_num_def demo_env_def demo_paid_def demo_block_def null_block_id_def)
  from no_transaction_twice [OF demo_txs_keep demo_steps_keep _ ok this] show ?thesis using ok b by simp
qed

text \<open>
  C4: switching to a longer fork. When the undo history reaches the fork point and the blocks of
  the new branch apply to the state there, one after the other, the switch succeeds: the state is
  the one they give, the head is the new head, the old blocks are popped, the blocks of the new
  branch are stored in the log, and the transactions of the old branch, oldest first, wait to be
  pushed again. The head of the fork database, however, is left behind by the length of the old
  branch: popping an old block moves it along the new branch.
\<close>

theorem fork_switch_correct:
  assumes T: "evaluators_keep (txs C)" and C: "steps_keep C"
  defines "data \<equiv> \<lambda>d p. fi_data (item (fork_db d) p)"
  assumes br: "fetch_branch_from (hashes C) (fork_db d) (block_id (hashes C) (data d h)) (db_head d) = Some (Inr (first, second))"
    and reach: "undo_reaches C d (map (data d) second)" and ne: "first \<noteq> []"
    and ok: "apply_branch C skip (map (data d) (rev first)) (restore_objects (undo_copies d ! (length second - 1)) (db_state d)) = Some (Inr (), st')"
  shows "\<exists>d'. switch_forks C skip b h d = Some (Inr True, d') \<and> db_state d' = st' \<and>
    db_head d' = block_id (hashes C) (data d (hd first)) \<and>
    (\<exists>d0. pops C (length second) d = Some d0 \<and> popped_tx d' = popped_tx d0 \<and>
       block_log d' = fold (\<lambda>p. store_block (hashes C) (packing C) (fi_id (item (fork_db d) p)) (data d p)) (rev first) (block_log d0)) \<and>
    ((\<forall>j<length second. find_id (fork_db d) ((db_head d # map (\<lambda>p. previous (data d p)) second) ! j) = Some (second ! j)) \<longrightarrow>
       popped_tx d' = concat (map (\<lambda>p. map signed_part (transactions (data d p))) (rev second)) @ popped_tx d) \<and>
    (linked (fork_db d) first \<and> fk_head (fork_db d) = Some (hd first) \<and> length second < length first \<longrightarrow>
       fk_head (fork_db d') = Some (first ! length second))"
proof -
  obtain d0 where d0: "pops C (length second) d = Some d0" "pop_until C (previous (last (map (data d) second))) d = Some (Inr (), d0)"
      "db_state d0 = restore_objects (undo_copies d ! (length second - 1)) (db_state d)"
      "fk_items (fork_db d0) = fk_items (fork_db d)"
    by (rule pop_to_fork_point [OF reach]) simp
  have se: "second \<noteq> []" and np: "\<not> pending_tx_session d" using reach by (auto simp: undo_reaches_def)
  have lst: "last (map (data d) second) = fi_data (item (fork_db d) (last second))" using se by (simp add: last_map data_def)
  have "apply_branch C skip (map (\<lambda>p. fi_data (item (fork_db d0) p)) (rev first)) (db_state d0) = Some (Inr (), st')"
    using ok unfolding d0(3,4) data_def .
  from push_branch_Inr [OF this, of b second]
  obtain d' where d': "push_branch C skip b second (rev first) d0 = Some (Inr True, d')" "db_state d' = st'"
      "fk_head (fork_db d') = fk_head (fork_db d0)" "popped_tx d' = popped_tx d0"
      "block_log d' = fold (\<lambda>p. store_block (hashes C) (packing C) (fi_id (item (fork_db d) p)) (data d p)) (rev first) (block_log d0)"
    unfolding d0(4) data_def by blast
  have sw: "switch_forks C skip b h d = Some (Inr True, d')"
    using br d0(2) d'(1) by (simp add: switch_forks_def data_def bindP_def lst [unfolded data_def])
  obtain f fs where first: "first = f # fs" using ne by (cases first) auto
  have "head_block_id st' = block_id (hashes C) (data d f)"
    using ok apply_block_state_head(3) [OF T C] by (auto simp: first apply_branch_snoc)
  moreover have "fk_head (fork_db d') = Some (first ! length second)"
    if "linked (fork_db d) first \<and> fk_head (fork_db d) = Some (hd first) \<and> length second < length first"
    using pops_head [OF d0(1) np] that d'(3) by simp
  moreover have "popped_tx d' = concat (map (\<lambda>p. map signed_part (transactions (data d p))) (rev second)) @ popped_tx d"
    if known: "\<forall>j<length second. find_id (fork_db d) ((db_head d # map (\<lambda>p. previous (data d p)) second) ! j) = Some (second ! j)"
    unfolding d'(4) data_def
  proof (rule pops_popped [OF d0(1) np refl])
    fix j assume j: "j < length second"
    have n: "length second \<le> length (undo_copies d)" using pops_spec [OF d0(1) np] by blast
    have "map head_block_id (undo_copies d) ! i = map (\<lambda>p. previous (data d p)) second ! i" if "Suc i < length second" for i
      using reach that n by (simp add: undo_reaches_def)
    then have "(db_head d # map head_block_id (undo_copies d)) ! j = (db_head d # map (\<lambda>p. previous (data d p)) second) ! j"
      using j by (cases j) simp_all
    then show "find_id (fork_db d) ((db_head d # map head_block_id (undo_copies d)) ! j) = Some (second ! j)"
      using known j by simp
  qed
  ultimately show ?thesis using sw d' d0(1) by (intro exI [of _ d']) (auto simp: first)
qed

text \<open>The chain is at the second block, and a fork of two blocks on the first is known.\<close>

definition demo_forks :: "unit processed_transaction fork_database" where
  "demo_forks = (let H = hashes demo_env in
     \<lparr>fk_items = [make_fork_item H demo_b1, (make_fork_item H demo_b2)\<lparr>fi_prev := Some 0\<rparr>,
        (make_fork_item H demo_c2)\<lparr>fi_prev := Some 0\<rparr>, (make_fork_item H demo_c3)\<lparr>fi_prev := Some 2\<rparr>],
      fk_index = [0, 1, 2, 3], fk_unlinked = [], fk_head = Some 3, fk_max_size = 1024\<rparr>)"

definition demo_database :: "(unit, unit) node \<Rightarrow> (unit, unit) node list \<Rightarrow> (unit, unit, 8 word) database" where
  "demo_database st us =
    \<lparr>db_state = st, undo_copies = us, undo_active = 0, fork_db = demo_forks,
     block_log = \<lparr>bd_index = [zero_entry, \<lparr>block_pos = 0, block_size = 1, entry_id = Block_id 1 1\<rparr>, \<lparr>block_pos = 1, block_size = 1, entry_id = Block_id 2 3\<rparr>],
       bd_data = [0, 1]\<rparr>,
     popped_tx = [], pending_tx = [], pending_tx_session = False\<rparr>"

lemma demo_items:
  "fi_data (item demo_forks 0) = demo_b1"
  "fi_data (item demo_forks (Suc 0)) = demo_b2" "fi_data (item demo_forks 2) = demo_c2" "fi_data (item demo_forks 3) = demo_c3"
  "fi_prev (item demo_forks (Suc 0)) = Some 0" "fi_prev (item demo_forks 2) = Some 0" "fi_prev (item demo_forks 3) = Some 2"
  "fi_id (item demo_forks 0) = Block_id 1 1" "fi_id (item demo_forks (Suc 0)) = Block_id 2 3" "fi_id (item demo_forks 2) = Block_id 2 5"
  "fi_id (item demo_forks 3) = Block_id 3 7" "fk_index demo_forks = [0, Suc 0, 2, 3]" "fk_head demo_forks = Some 3"
  by (simp_all add: demo_forks_def make_fork_item_def demo_ids Let_def)

lemma demo_nums:
  "block_num (hashes demo_env) demo_b1 = 1" "block_num (hashes demo_env) demo_b2 = 2" "block_num (hashes demo_env) demo_c2 = 2"
  "block_num (hashes demo_env) demo_c3 = 3"
  by (simp_all add: block_num_def demo_env_def demo_b1_def demo_b2_def demo_c2_def demo_c3_def demo_block_def null_block_id_def)

lemma demo_prevs: "previous demo_b2 = Block_id 1 1" "previous demo_c2 = Block_id 1 1" "previous demo_c3 = Block_id 2 5"
  by (simp_all add: demo_b2_def demo_c2_def demo_c3_def demo_block_def)

lemma demo_branches: "fetch_branch_from (hashes demo_env) demo_forks (Block_id 3 7) (Block_id 2 3) = Some (Inr ([3, 2], [Suc 0]))"
proof -
  have f: "find_id demo_forks (Block_id 3 7) = Some 3" "find_id demo_forks (Block_id 2 3) = Some (Suc 0)"
    by (simp_all add: find_id_def demo_items)
  have a: "prev_item demo_forks 3 = Inr 2" by (simp add: prev_item_def lock_prev_def demo_items alive_def)
  have w1: "walk_down (hashes demo_env) demo_forks 2 2 acc = Some (Inr (2, acc))" for acc
    by (subst walk_down.simps) (simp add: demo_items demo_nums)
  have w2: "walk_down (hashes demo_env) demo_forks 2 3 [] = Some (Inr (2, [3]))"
    by (subst walk_down.simps) (simp add: demo_items demo_nums a w1)
  have w3: "walk_down (hashes demo_env) demo_forks 2 (Suc 0) [] = Some (Inr (Suc 0, []))"
    by (subst walk_down.simps) (simp add: demo_items demo_nums)
  have w4: "walk_both demo_forks 2 (Suc 0) [3] [] = Some (Inr ([3, 2], [Suc 0]))"
    by (subst walk_both.simps) (simp add: demo_items demo_prevs)
  show ?thesis by (simp add: fetch_branch_from_def f demo_items demo_nums w2 w3 w4)
qed

lemma demo_database_simps [simp]:
  "db_state (demo_database st us) = st" "undo_copies (demo_database st us) = us" "undo_active (demo_database st us) = 0"
  "fork_db (demo_database st us) = demo_forks" "pending_tx_session (demo_database st us) = False"
  by (simp_all add: demo_database_def)

lemma demo_pop:
  assumes "head_block_id st = Block_id 2 3"
  shows "\<exists>d'. pop_block demo_env (demo_database st (u # us)) = Some (Inr (), d')"
proof -
  let ?d = "demo_database st (u # us)"
  have f: "fetch_block_by_id demo_env ?d (Block_id 2 3) = Some demo_b2"
    by (simp add: fetch_block_by_id_def fetch_block_def find_id_def demo_items)
  have p: "fork_pop_block demo_forks = Inr (demo_forks\<lparr>fk_head := Some 2\<rparr>)"
    by (simp add: fork_pop_block_def lock_prev_def demo_items alive_def)
  obtain l where l: "remove_block (hashes demo_env) (Block_id 2 3) (block_log ?d) = Inr l"
    by (simp add: remove_block_def num_from_id_def demo_env_def demo_database_def)
  show ?thesis
    by (simp add: pop_block_def bindP_def updateP_def stepP_def reset_pending_session_def pop_undo_def Let_def assms f p l)
qed

theorem fork_switch_correct_witness:
  "\<exists>d d'. switch_forks demo_env 0 demo_c3 3 d = Some (Inr True, d') \<and> db_head d = Block_id 2 3 \<and> db_head d' = Block_id 3 7 \<and>
    fk_head (fork_db d') = Some 2"
proof -
  obtain st1 where 1: "apply_block_state demo_env demo_b1 0 (demo_node 0) = Some (Inr (), st1)" "plain st1"
      "head_block_id st1 = Block_id 1 1" "head_block_time st1 = 1002" "head_block_num st1 = 1"
    using demo_first by blast
  obtain st2 where 2: "plain st2" "head_block_id st2 = Block_id 2 3"
    using demo_second [OF 1(2-5) demo_b2_def] by (auto simp: demo_ids)
  let ?d = "demo_database st2 [st1, demo_node 0]" and ?base = "restore_objects st1 st2"
  have base: "plain ?base" "head_block_id ?base = Block_id 1 1" "head_block_time ?base = 1002" "head_block_num ?base = 1"
    using 1(2-5) 2 by (auto simp: plain_def restore_objects_def head_block_id_def head_block_time_def head_block_num_def)
  obtain st3 where 3: "apply_block_state demo_env demo_c2 0 ?base = Some (Inr (), st3)" "plain st3" "head_block_id st3 = Block_id 2 5"
      "head_block_time st3 = 1005" "head_block_num st3 = 2"
    using demo_second [OF base demo_c2_def] by (auto simp: demo_ids)
  have "follows demo_c3 st3" "transactions demo_c3 = []"
    unfolding demo_c3_def by (rule demo_follows) (simp_all add: 3 demo_block_def)
  from demo_empty_block_applies [OF 3(2) this]
  obtain st4 where 4: "apply_block_state demo_env demo_c3 0 st3 = Some (Inr (), st4)" by blast
  have br: "fetch_branch_from (hashes demo_env) (fork_db ?d) (block_id (hashes demo_env) (fi_data (item (fork_db ?d) 3))) (db_head ?d)
      = Some (Inr ([3, 2], [Suc 0]))"
    by (simp add: demo_items demo_ids 2(2) demo_branches)
  have reach: "undo_reaches demo_env ?d (map (\<lambda>p. fi_data (item (fork_db ?d) p)) [Suc 0])"
    using demo_pop [OF 2(2), of st1 "[demo_node 0]"] by (auto simp: undo_reaches_def demo_items demo_prevs 1(3) 2(2))
  have ok: "apply_branch demo_env 0 (map (\<lambda>p. fi_data (item (fork_db ?d) p)) (rev [3, 2]))
      (restore_objects (undo_copies ?d ! (length [Suc 0] - 1)) (db_state ?d)) = Some (Inr (), st4)"
    using 3(1) 4 by (simp add: demo_items)
  have "linked (fork_db ?d) [3, 2] \<and> fk_head (fork_db ?d) = Some (hd [3, 2]) \<and> length [Suc 0] < length [3, 2 :: nat]"
    by (simp add: demo_items)
  with fork_switch_correct [OF demo_txs_keep demo_steps_keep br reach _ ok, of demo_c3]
  obtain d' where "switch_forks demo_env 0 demo_c3 3 ?d = Some (Inr True, d')" "db_head d' = Block_id 3 7" "fk_head (fork_db d') = Some 2"
    by (auto simp: demo_items demo_ids)
  then show ?thesis by (intro exI [of _ ?d] exI [of _ d']) (simp add: 2(2))
qed


text \<open>A database at genesis, and a block that is not later than it.\<close>

definition demo_start :: "(unit, unit, 8 word) database" where
  "demo_start = \<lparr>db_state = demo_node 0, undo_copies = [], undo_active = 0, fork_db = make_fork_database,
     block_log = empty_block_database, popped_tx = [], pending_tx = [], pending_tx_session = False\<rparr>"

lemma demo_start_simps [simp]:
  "db_state demo_start = demo_node 0" "fork_db demo_start = make_fork_database" "block_log demo_start = empty_block_database"
  by (simp_all add: demo_start_def)

lemma demo_node_flags [simp]: "skip_flags (demo_node n) = 0"
  by (simp add: demo_node_def)

definition demo_late :: "unit block" where "demo_late = demo_block null_block_id 999 0 []"

lemma demo_late_refused: "\<exists>e st. apply_block_state demo_env demo_late 0 (demo_node 0) = Some (Inl e, st)"
proof -
  have m: "merkle_ok demo_env demo_late" unfolding demo_late_def by (rule demo_merkle)
  have v: "\<exists>e. validate_block_header demo_env 0 demo_late (clear_applied_ops (demo_node 0)) = Inl e"
    by (simp add: validate_block_header_def demo_node_head demo_late_def demo_block_def assertE_def throwE_def)
  have c: "checkpoint_skip demo_env demo_late 0 (demo_node 0) = Inr 0" "(demo_node 0)\<lparr>skip_flags := 0\<rparr> = demo_node 0" "skip_flags (demo_node 0) = 0"
    by (simp_all add: checkpoint_skip_def last_checkpoint_def demo_node_def)
  show ?thesis
    using v by (auto simp: apply_block_state_def bindP_def readP_def c with_skip_flags_def apply_block_transactions_def updateP_def m)
qed

lemma demo_late_pushed: "\<exists>f. fork_push_block (hashes demo_env) demo_late make_fork_database = Inr (Some 0, f) \<and> previous (fi_data (item f 0)) = null_block_id"
  by (simp add: fork_push_block_def new_item_def make_fork_database_def push_item_def link_item_def index_insert_def make_fork_item_def
      demo_late_def demo_block_def find_id_def insert_by_num_def)

lemma demo_replays: "replays demo_env 0 [null_block_id \<mapsto> c]"
  unfolding replays_def agrees_def
  using apply_block_state_head(3) [OF demo_txs_keep demo_steps_keep] demo_never_null by auto

lemma demo_late_result: "\<exists>e d'. push_block_inner demo_env demo_late demo_start = Some (Inl e, d') \<and> db_head d' = null_block_id"
proof -
  obtain e st where "apply_block_state demo_env demo_late 0 (demo_node 0) = Some (Inl e, st)" using demo_late_refused by blast
  moreover obtain f where f: "fork_push_block (hashes demo_env) demo_late make_fork_database = Inr (Some 0, f)" "previous (fi_data (item f 0)) = null_block_id"
    using demo_late_pushed by blast
  ultimately obtain d1 where one: "push_one demo_env 0 (block_id (hashes demo_env) demo_late) demo_late (demo_start\<lparr>fork_db := f\<rparr>) = Some (Inl e, d1)"
    using push_one_Ex [of demo_env demo_late 0 "demo_start\<lparr>fork_db := f\<rparr>" "Inl e" st] by auto
  have "db_head d1 = null_block_id" using content_head [OF push_one_Inl(1) [OF one]] by (simp add: demo_node_head)
  moreover have "push_block_inner demo_env demo_late demo_start =
      Some (Inl e, d1\<lparr>fork_db := fork_remove (block_id (hashes demo_env) demo_late) (fork_db d1)\<rparr>)"
    using one f by (simp add: push_block_inner_def push_direct_def demo_node_head)
  ultimately show ?thesis by auto
qed


text \<open>
  A block that extends the head and is refused changes nothing that undo covers: objects,
  log, pending and popped transactions and the flags are as before, and the fork database does
  not know the block any more. Its head, however, is still the refused block.
\<close>

theorem refused_block_unwound:
  assumes noskip: "skip_flags (db_state d) AND skip_fork_db = 0"
    and push: "fork_push_block (hashes C) b (fork_db d) = Inr (Some h, f)" and hd: "previous (fi_data (item f h)) = db_head d"
    and bad: "apply_block_state C b (skip_flags (db_state d)) (db_state d) = Some (Inl e, st)"
  shows "\<exists>d'. push_block_inner C b d = Some (Inl e, d') \<and> content (db_state d') = content (db_state d) \<and>
    skip_flags (db_state d') = skip_flags (db_state d) \<and> block_log d' = block_log d \<and> undo_active d' = undo_active d \<and>
    popped_tx d' = popped_tx d \<and> pending_tx d' = pending_tx d \<and>
    find_id (fork_db d') (block_id (hashes C) b) = None \<and> fk_head (fork_db d') = fk_head f"
proof -
  let ?d = "d\<lparr>fork_db := f\<rparr>" and ?skip = "skip_flags (db_state d)" and ?i = "block_id (hashes C) b"
  obtain d1 where one: "push_one C ?skip ?i b ?d = Some (Inl e, d1)"
    using push_one_Ex [of C b ?skip ?d "Inl e" st ?i] bad by auto
  note p = push_one_Inl [OF one]
  have "push_block_inner C b d = Some (Inl e, d1\<lparr>fork_db := fork_remove ?i (fork_db d1)\<rparr>)"
    using noskip push hd one by (simp add: push_block_inner_def push_direct_def)
  moreover have "find_id (fork_remove ?i (fork_db d1)) ?i = None"
    unfolding find_id_None by (simp add: fork_remove_def)
  ultimately show ?thesis
    using p by (intro exI [of _ "d1\<lparr>fork_db := fork_remove ?i (fork_db d1)\<rparr>"]) (simp add: fork_remove_def)
qed

theorem refused_block_unwound_witness:
  "\<exists>e d'. push_block_inner demo_env demo_late demo_start = Some (Inl e, d') \<and> content (db_state d') = content (demo_node 0) \<and>
    find_id (fork_db d') (block_id (hashes demo_env) demo_late) = None \<and> fk_head (fork_db d') = Some 0"
proof -
  obtain f where f: "fork_push_block (hashes demo_env) demo_late make_fork_database = Inr (Some 0, f)" "previous (fi_data (item f 0)) = null_block_id"
    using demo_late_pushed by blast
  obtain e st where bad: "apply_block_state demo_env demo_late 0 (demo_node 0) = Some (Inl e, st)" using demo_late_refused by blast
  have "fk_head f = Some 0" using f(1) by (auto simp: fork_push_block_def Let_def bindE_eq_Inr split: prod.splits)
  then show ?thesis
    using refused_block_unwound [of demo_start demo_env demo_late 0 f e st] f bad by (simp add: demo_node_head) blast
qed

text \<open>
  C8: popping undoes pushing. After a block was pushed, and if the fork database can step back,
  popping succeeds and gives the objects from before; the log has lost the block and kept the
  others, and the transactions of the block wait to be pushed again.
\<close>

theorem push_pop_roundtrip:
  assumes T: "evaluators_keep (txs C)" and C: "steps_keep C" and inv: "log_inv (packing C) (block_log d)"
    and b: "packs (packing C) b" "empty_id (hashes C) (packing C) \<noteq> Some (block_id (hashes C) b)"
    and one: "push_one C skip (block_id (hashes C) b) b d = Some (Inr (), d1)"
    and idle: "undo_active d = 0" "\<not> pending_tx_session d" and fork: "fork_pop_block (fork_db d1) = Inr f"
  shows "\<exists>d2 b0. pop_block C d1 = Some (Inr (), d2) \<and> content (db_state d2) = content (db_state d) \<and> db_head d2 = previous b \<and>
    fetch_optional (hashes C) (packing C) (block_log d2) (block_id (hashes C) b) = None \<and>
    (\<forall>i. empty_id (hashes C) (packing C) \<noteq> Some i \<and> num_from_id (hashes C) i \<noteq> num_from_id (hashes C) (block_id (hashes C) b) \<longrightarrow>
       fetch_optional (hashes C) (packing C) (block_log d2) i = fetch_optional (hashes C) (packing C) (block_log d) i) \<and>
    fetch_block_by_id C d1 (block_id (hashes C) b) = Some b0 \<and> popped_tx d2 = map signed_part (transactions b0) @ popped_tx d"
proof -
  let ?H = "hashes C" and ?P = "packing C" let ?i = "block_id ?H b"
  note p = push_one_Inr [OF one] and h = apply_block_state_head [OF T C push_one_Inr(1) [OF one]]
  obtain us where us: "undo_copies d1 = db_state d # us" by (rule start_session_copies [of d]) (simp add: p(2))
  have inv1: "log_inv ?P (block_log d1)" unfolding p(4) by (rule bl.inv_store [OF inv b(1)])
  have found: "fetch_optional ?H ?P (block_log d1) ?i = Some b" unfolding p(4) by (rule bl.fetch_store [OF inv b(1)])
  obtain b0 where b0: "fetch_block_by_id C d1 ?i = Some b0"
    using found by (cases "fetch_block (fork_db d1) ?i") (simp_all add: fetch_block_by_id_def)
  have "num_from_id ?H ?i < length (bd_index (block_log d1))"
    using found by (auto simp: fetch_optional_def Let_def split: if_splits)
  then obtain l where l: "remove_block ?H ?i (block_log d1) = Inr l" by (simp add: remove_block_def Let_def)
  have idle1: "undo_active d1 = 0" "\<not> pending_tx_session d1" using idle p(3,7) by simp_all
  define d2 where "d2 = d1\<lparr>db_state := restore_objects (db_state d) (db_state d1), undo_copies := us, fork_db := f, block_log := l,
    popped_tx := map signed_part (transactions b0) @ popped_tx d1\<rparr>"
  have pop: "pop_block C d1 = Some (Inr (), d2)"
    using b0 l fork us idle1 h(3)
    by (simp add: pop_block_def bindP_def updateP_def stepP_def reset_pending_session_def pop_undo_def d2_def)
  have fetch: "fetch_optional ?H ?P l j = (if j = ?i then None else fetch_optional ?H ?P (block_log d1) j)"
    if "empty_id ?H ?P \<noteq> Some j" for j
    by (rule bl.fetch_remove [OF inv1 that l])
  have other: "fetch_optional ?H ?P (block_log d1) j = fetch_optional ?H ?P (block_log d) j"
    if "empty_id ?H ?P \<noteq> Some j" "num_from_id ?H j \<noteq> num_from_id ?H ?i" for j
    unfolding p(4) by (rule bl.fetch_store_other [OF inv b(1) that])
  have c: "content (db_state d2) = content (db_state d)" by (simp add: d2_def)
  show ?thesis
    using pop c content_head [OF c] h(1) fetch b(2) other b0 p(5)
    by (intro exI [of _ d2] exI [of _ b0]) (auto simp: d2_def)
qed

text \<open>The second block is pushed onto the first and popped again.\<close>

definition demo_line :: "unit processed_transaction fork_database" where
  "demo_line =
     \<lparr>fk_items = [make_fork_item (hashes demo_env) demo_b1, (make_fork_item (hashes demo_env) demo_b2)\<lparr>fi_prev := Some 0\<rparr>],
      fk_index = [0, 1], fk_unlinked = [], fk_head = Some 1, fk_max_size = 1024\<rparr>"

lemma demo_line_pops:
  assumes "0 < n"
  shows "\<exists>f. fork_pop_block (set_max_size n demo_line) = Inr f"
proof -
  have "set_max_size n demo_line = demo_line\<lparr>fk_max_size := n\<rparr>"
    using assms by (simp add: set_max_size_def demo_line_def make_fork_item_def demo_nums demo_ids erase_below_def)
  then show ?thesis by (simp add: fork_pop_block_def lock_prev_def demo_line_def alive_def)
qed

lemma demo_packs: "packs (packing demo_env) demo_b1" "packs (packing demo_env) demo_b2"
  by (simp_all add: packs_def demo_env_def demo_raw_def) (simp_all add: demo_b1_def demo_b2_def demo_block_def)

lemma demo_empty_id: "empty_id (hashes demo_env) (packing demo_env) = Some (Block_id 1 19)"
  by (simp add: empty_id_def demo_env_def demo_raw_def block_id_def block_num_def demo_block_def null_block_id_def)

lemma push_one_fork_db:
  assumes one: "push_one C skip i b d = Some (Inr (), d')" and c: "checkpoint_skip C b skip (db_state d) = Inr skip'"
    and t: "apply_block_transactions C b ((db_state d)\<lparr>skip_flags := skip'\<rparr>) = Some (Inr x, st1)"
  shows "fork_db d' = set_max_size (fork_max_size st1) (fork_db d)"
proof -
  obtain d1 where 1: "apply_block C b skip (start_session d) = Some (Inr (), d1)" and "fork_db d' = fork_db d1"
    using one by (auto simp: push_one_def in_session_def bindP_def updateP_def commit_session_def split: option.splits sum.splits prod.splits)
  moreover have "(start_session d)\<lparr>db_state := db_state d1, fork_db := set_max_size (fork_max_size st1) (fork_db d)\<rparr> = d1"
    using 1 apply_block_Some(1) [OF 1] unfolding apply_block_eq by (simp add: c t split: option.splits)
  from arg_cong [OF this, of fork_db] have "fork_db d1 = set_max_size (fork_max_size st1) (fork_db d)" by simp
  ultimately show ?thesis by simp
qed

theorem push_pop_roundtrip_witness:
  "\<exists>d d1 d2. push_one demo_env 0 (Block_id 2 3) demo_b2 d = Some (Inr (), d1) \<and> db_head d1 = Block_id 2 3 \<and>
    pop_block demo_env d1 = Some (Inr (), d2) \<and> content (db_state d2) = content (db_state d) \<and> db_head d2 = Block_id 1 1"
proof -
  obtain st1 where 1: "plain st1" "head_block_id st1 = Block_id 1 1" "head_block_time st1 = 1002" "head_block_num st1 = 1"
    using demo_first by blast
  obtain st2 st3 where 2: "apply_block_state demo_env demo_b2 0 st1 = Some (Inr (), st2)" "head_block_id st2 = Block_id 2 3"
      "apply_block_transactions demo_env demo_b2 st1 = Some (Inr (4, False), st3)" "0 < fork_max_size st3"
    using demo_second [OF 1 demo_b2_def] by (auto simp: demo_ids)
  define d where "d = demo_start\<lparr>db_state := st1, fork_db := demo_line\<rparr>"
  have d: "db_state d = st1" "fork_db d = demo_line" "block_log d = empty_block_database" "undo_active d = 0" "\<not> pending_tx_session d"
    by (simp_all add: d_def) (simp_all add: demo_start_def)
  obtain d1 where one: "push_one demo_env 0 (block_id (hashes demo_env) demo_b2) demo_b2 d = Some (Inr (), d1)"
    using push_one_Ex [of demo_env demo_b2 0 d "Inr ()" st2] 2(1) d(1) by auto
  have "checkpoint_skip demo_env demo_b2 0 st1 = Inr 0" "st1\<lparr>skip_flags := 0\<rparr> = st1"
    using 1(1) by (simp_all add: plain_def checkpoint_skip_def last_checkpoint_def)
  then have "fork_db d1 = set_max_size (fork_max_size st3) demo_line"
    using push_one_fork_db [OF one, of 0 "(4, False)" st3] 2(3) d by simp
  then obtain f where f: "fork_pop_block (fork_db d1) = Inr f" using demo_line_pops [OF 2(4)] by auto
  have inv: "log_inv (packing demo_env) (block_log d)" using d(3) by simp
  have "db_head d1 = Block_id 2 3" using push_one_Inr(1) [OF one] 2(1,2) d(1) by simp
  then show ?thesis
    using push_pop_roundtrip [OF demo_txs_keep demo_steps_keep inv demo_packs(2) _ one d(4,5) f] one
    by (auto simp: demo_ids demo_prevs demo_empty_id)
qed

text \<open>
  The blocks that a failed switch restores are stored in the log under the identifier of the
  block that was pushed, so that the log has only the last of them, at the number of the pushed
  block and under its identifier, and reading that entry finds no block. The other entries are
  left as popping left them, without the restored blocks.
\<close>

theorem restored_branch_misfiled:
  assumes inv: "log_inv (packing C) (block_log d)" and ne: "bs \<noteq> []" "block_id (hashes C) nb \<noteq> null_block_id"
    and pk: "list_all (packs (packing C)) bs"
    and ok: "restore_branch C skip nb bs d = Some (Inr (), d')"
  shows "log_of (packing C) (block_log d') =
      (log_of (packing C) (block_log d))(num_from_id (hashes C) (block_id (hashes C) nb) \<mapsto> (block_id (hashes C) nb, last bs)) \<and>
    (block_id (hashes C) (last bs) \<noteq> block_id (hashes C) nb \<longrightarrow>
       fetch_optional (hashes C) (packing C) (block_log d') (block_id (hashes C) nb) = None)"
proof -
  let ?H = "hashes C" and ?P = "packing C" let ?i = "block_id ?H nb"
  have gen: "log_inv ?P (block_log d) \<Longrightarrow> list_all (packs ?P) bs \<Longrightarrow> restore_branch C skip nb bs d = Some (Inr (), d') \<Longrightarrow> log_inv ?P (block_log d') \<and>
      (bs \<noteq> [] \<longrightarrow> log_of ?P (block_log d') = (log_of ?P (block_log d))(num_from_id ?H ?i \<mapsto> (?i, last bs)))" for d bs
    unfolding restore_branch_def
  proof (induction bs arbitrary: d)
    case (Cons b bs)
    then obtain d1 where 1: "push_one C skip ?i b d = Some (Inr (), d1)" and 2: "forP (push_one C skip ?i) bs d1 = Some (Inr (), d')"
      by (auto simp: bindP_Inr)
    have l: "log_inv ?P (block_log d1)" "log_of ?P (block_log d1) = (log_of ?P (block_log d))(num_from_id ?H ?i \<mapsto> (?i, b))"
      unfolding push_one_Inr(4) [OF 1] using log_inv_store [OF Cons.prems(1)] log_of_store [OF Cons.prems(1), of b ?H ?i] Cons.prems(2) ne(2)
      by (simp_all add: Let_def)
    show ?case using Cons.IH [OF l(1) _ 2] Cons.prems(2) l(2) 2 by (cases bs) auto
  qed simp
  show ?thesis using gen [OF inv pk ok] ne(1) by (simp add: fetch_optional_log)
qed

theorem restored_branch_misfiled_witness:
  "\<exists>d'. restore_branch demo_env 0 demo_c2 [demo_b1] demo_start = Some (Inr (), d') \<and>
    log_of (packing demo_env) (block_log d') = [2 \<mapsto> (Block_id 2 5, demo_b1)] \<and>
    fetch_optional (hashes demo_env) (packing demo_env) (block_log d') (Block_id 2 5) = None"
proof -
  obtain st1 where "apply_block_state demo_env demo_b1 0 (demo_node 0) = Some (Inr (), st1)" using demo_first by blast
  then obtain d' where "push_one demo_env 0 (block_id (hashes demo_env) demo_c2) demo_b1 demo_start = Some (Inr (), d')"
    using push_one_Ex [of demo_env demo_b1 0 demo_start "Inr ()" st1] by auto
  then have ok: "restore_branch demo_env 0 demo_c2 [demo_b1] demo_start = Some (Inr (), d')"
    by (simp add: restore_branch_def bindP_def)
  have e: "log_of (packing demo_env) empty_block_database = Map.empty" "num_from_id (hashes demo_env) (Block_id 2 5) = 2"
    by (auto simp: log_of_def empty_block_database_def num_from_id_def demo_env_def)
  have "log_inv (packing demo_env) (block_log demo_start)" by simp
  from restored_branch_misfiled [OF this _ demo_never_null _ ok] show ?thesis using ok demo_packs(1) by (simp add: demo_ids e)
qed

end
