(* ===== verification/Spec2Isabelle.thy ===== *)
theory Spec2Isabelle
  imports Object_Id Undo_Database Asset_Price Vesting Authority Fork_Database
    Names Op_Types Account_Ops Asset_Ops Governance_Ops Operations Fee_Schedule Witness_Schedule Block_Log
    Ledger Conservation Evaluators Deflation Market Order_Book Margin Settlement Market_Evaluators
    Asset_Objects Asset_Evaluators Transactions Block_Chain
begin

text \<open>
  A verification development for the chain library of the repository, a fork of Graphene
  (\<open>src/libraries/chain\<close> and \<open>src/libraries/db\<close>).

  \<^bold>\<open>The program.\<close> A node keeps a database of objects (accounts, assets, balances, orders, chain
  properties). Blocks arrive from the network and carry signed transactions; each transaction
  is a list of operations. A block is linked into the fork database; when it makes a longer
  branch, the chain switches to that branch by undoing blocks and applying others. Applying a
  block checks its header against the witness schedule, checks the signatures and the fee of
  every operation, changes the objects through evaluators, and updates the chain properties.
  Every change goes through the undo database, so that a block or a transaction that fails
  leaves no trace.

  \<^bold>\<open>The theories\<close>, each with the part of the source it translates:
  \<^item> \<open>Chain_Prelude\<close>: exceptions of the \<open>fc\<close> library as values (\<open>'a res\<close>), actions that keep
    their state when they throw, checked share arithmetic, flat maps and flat sets.
  \<^item> \<open>Object_Id\<close> (\<open>db/object_id.hpp\<close>): 64-bit identifiers.
  \<^item> \<open>Undo_Database\<close> (\<open>db/undo_database.cpp\<close>, \<open>object_database.cpp\<close>, \<open>index.hpp\<close>): the store of
    objects, the stack of undo states and the sessions. The main theorem is a refinement to a
    stack of whole snapshots.
  \<^item> \<open>Asset_Price\<close> (\<open>protocol/asset.cpp\<close>): amounts, prices with 128-bit products, call prices, feeds.
  \<^item> \<open>Vesting\<close> (\<open>vesting_balance_object.cpp\<close>): the two vesting policies, with invariants over
    histories of deposits and withdrawals.
  \<^item> \<open>Authority\<close> (\<open>protocol/transaction.cpp\<close>, \<open>authority.hpp\<close>): the check of signatures against
    nested authorities.
  \<^item> \<open>Names\<close> (\<open>protocol/account.cpp\<close>, \<open>asset_ops.cpp\<close>): account names and asset symbols.
  \<^item> \<open>Op_Types\<close>, \<open>Account_Ops\<close>, \<open>Asset_Ops\<close>, \<open>Governance_Ops\<close>, \<open>Operations\<close> (\<open>protocol/*.hpp\<close>,
    \<open>protocol/*.cpp\<close>): the 56 operations with their validation, fees and required authorities.
  \<^item> \<open>Fee_Schedule\<close> (\<open>protocol/fee_schedule.cpp\<close>): the fee of an operation in any asset.
  \<^item> \<open>Fork_Database\<close> (\<open>fork_database.cpp\<close>, \<open>protocol/block.cpp\<close>): blocks, Merkle roots, branches.
  \<^item> \<open>Block_Log\<close> (\<open>block_database.cpp\<close>): the two files of applied blocks, a refinement to a map.
  \<^item> \<open>Witness_Schedule\<close> (\<open>db_witness_schedule.cpp\<close>, \<open>db_update.cpp\<close>): slots, the shuffle and the
    chain properties that every block updates.
  \<^item> \<open>Ledger\<close> and \<open>Conservation\<close> (\<open>db_balance.cpp\<close>, \<open>account_object.cpp\<close>): balances, deposits and
    the distribution of fees, and the bookkeeping that shows they conserve shares.
  \<^item> \<open>Evaluators\<close> (\<open>evaluator.cpp\<close>, \<open>transfer_evaluator.cpp\<close>, \<open>vesting_balance_evaluator.cpp\<close>): the frame
    of all evaluators with the handling of fees, transfers and vesting balances.
  \<^item> \<open>Deflation\<close> (\<open>deflation_evaluator.cpp\<close>, \<open>db_deflation.cpp\<close>): the deflation of the core asset.
  \<^item> \<open>Market\<close> (\<open>db_market.cpp\<close>): market and exchange fees, filling, cancelling and matching of limit
    orders.
  \<^item> \<open>Order_Book\<close> (\<open>market_object.hpp\<close>): the indexes of orders by price and the ranges that the
    loops of the market visit.
  \<^item> \<open>Margin\<close> (\<open>db_market.cpp\<close>, \<open>db_update.cpp\<close>): margin positions, black swans, global
    settlement, margin calls and the application of a new order to the book.
  \<^item> \<open>Settlement\<close> (\<open>db_market.cpp\<close>): a settlement request against a margin position.
  \<^item> \<open>Market_Evaluators\<close> (\<open>market_evaluator.cpp\<close>): creating and cancelling orders, changing margin
    positions.
  \<^item> \<open>Asset_Objects\<close> (\<open>asset_object.cpp\<close>): the median feed of a market-issued asset and the text form
    of amounts.
  \<^item> \<open>Asset_Evaluators\<close> (\<open>asset_evaluator.cpp\<close>): creating, changing, issuing and settling assets, fee
    pools and price feeds.
  \<^item> \<open>Transactions\<close> (\<open>db_block.cpp\<close>, \<open>transaction.cpp\<close>, \<open>transaction_object.hpp\<close>): the checks and the
    application of a transaction, and the index of recent ones.
  \<^item> \<open>Block_Chain\<close> (\<open>db_block.cpp\<close>, \<open>db_with.hpp\<close>): applying, pushing and popping blocks, switching
    forks, rolling a failed switch back, and the queue of pending transactions. The theorems show
    that no transaction is applied twice, that the head determines the contents of the database
    whatever happens to a pushed block, and what a switch of forks leaves.

  \<^bold>\<open>State and effects.\<close> Records follow the classes of the source; an index of objects is a list
  or a table in the order of identifiers. An operation that may throw returns \<open>'a res\<close>; where
  a handler goes on after an exception, the operation is an action whose state survives it. A
  failed \<open>assert\<close>, a division by zero or a signed overflow that the code does not exclude is the
  exception \<open>Undefined_behaviour\<close>, unless a theory says that its assertions only concern debug
  builds. Integers keep their width: words for 32, 64 and 128 bits, and natural numbers with
  the reduction modulo \<open>2 ^ 32\<close> written out for times and block numbers.

  \<^bold>\<open>Interfaces.\<close> What one component relies on in another is a locale, interpreted on the model:
  a weighing of authority members by a test that keeps an invariant (\<open>weighing\<close>), and its total
  version, interpreted for keys, addresses and accounts; the store of blocks (\<open>block_store\<close>),
  interpreted on the log; an evaluator that conserves shares
  (\<open>conserving_evaluator\<close>), interpreted on the evaluators of transfers and vesting balances; an
  index ordered by a price (\<open>ordered_index\<close>), interpreted on the limit orders and on the margin
  positions; and an evaluator with its own way of paying its fee (\<open>paying_evaluator\<close>),
  interpreted on the evaluators of the market; its special case with the default payment
  (\<open>plain_evaluator\<close>) is a sublocale, interpreted on the evaluators of assets.

  \<^bold>\<open>Parameters.\<close> The \<open>fc\<close> and \<open>boost\<close> libraries are not part of the sources. What the code uses of
  them is an argument of the definitions, and the documented behaviour is a named predicate:
  checked arithmetic and 128-bit conversion (\<open>fc_contract\<close>), construction of shares
  (\<open>fee_contract\<close>), \<open>boost::rational\<close> (\<open>rational_contract\<close>), the byte swap of block numbers
  (\<open>block_env_contract\<close>), the packing of a block, which unpacks to it again
  (\<open>packs\<close>, assumed of each block that is stored),
  selection by \<open>std::nth_element\<close> (\<open>nth_element_contract\<close>). Each witness instantiates them by
  concrete functions for which the predicate is proved. Hashes, key recovery, elliptic-curve
  checks, packed sizes and the wall clock are arguments of which nothing is assumed.

  \<^bold>\<open>Conservation.\<close> The theorems that no shares are created or lost in the market hold while no
  deflation is running and nothing is frozen by one (\<open>quiet\<close>, a part of \<open>market_ok\<close>). During a
  deflation the code does not conserve shares; theorems of \<open>Deflation\<close> and \<open>Market_Evaluators\<close>
  give the differences.

  \<^bold>\<open>Loops.\<close> Loops over containers are folds; loops with a measure are functions with a
  termination proof; the loops of \<open>call_price\<close>, of the squeeze price, of the fee conversion and
  of the branch walk are partial functions with the value \<open>None\<close> for not returning, and theorems
  show that they return. The recursion of authorities and of nested proposals is bounded by the
  depth argument of the code and by the structure of the operation; no other fuel is used.

  \<^bold>\<open>Not modelled.\<close> The peer-to-peer layer, the application and its API, the wallet and the plugins:
  they are input and output around the chain library. Saving to and loading from disk,
  reflection and string conversion. Block production, the execution of
  proposals, maintenance and genesis, and the evaluators of the operations not named above. Where
  the application of a block calls such a step, it is an argument (record \<open>chain_env\<close>), and the
  theorems that rely on it name what it has to leave alone: the evaluators and the steps do not
  touch the index of recent transactions, the head block, the checkpoints and the flags
  (\<open>evaluators_keep\<close>, \<open>steps_keep\<close>). The evaluator of transfers is shown to satisfy this.
\<close>

section \<open>Transactions are authorised\<close>

text \<open>
  C14: a signed transaction that passes \<open>verify_authority\<close> is authorised for each of its
  operations: the keys that signed it approve the fee payer of the operation, through the active
  authority at some nesting of accounts or through the owner authority; an update of the owner
  authority of an account is approved by that account's owner authority; and a claim of a genesis
  balance and every input of a blind transfer is approved by the authority that owns it.
\<close>

theorem transaction_authorised:
  assumes v: "tx_verify_authority A recover operation_get_required_authorities get_owner depth tx = Inr ()"
    and x: "x \<in> set (operations tx)"
  shows "\<exists>sigs. get_signature_keys recover tx = Inr sigs \<and>
    (let K = set sigs; B = {GRAPHENE_TEMP_ACCOUNT} in
     (approvable A K B (fee_payer x) \<or> satisfied A K B (get_owner (fee_payer x))) \<and>
     (\<forall>u. x = Account_update_op u \<and> is_owner_update u \<longrightarrow> satisfied A K B (get_owner (upd_account u))) \<and>
     (\<forall>b. x = Balance_claim_op b \<longrightarrow> satisfied A K B (Some (balance_claim_required_authority b))) \<and>
     (\<forall>t i. x = Blind_transfer_op t \<and> i \<in> set (bt_inputs t) \<longrightarrow> satisfied A K B (Some (in_owner i))) \<and>
     (\<forall>t i. x = Transfer_from_blind_op t \<and> i \<in> set (tfb_inputs t) \<longrightarrow> satisfied A K B (Some (in_owner i))))"
proof -
  obtain sigs where k: "get_signature_keys recover tx = Inr sigs"
    and a: "verify_authority A operation_get_required_authorities get_owner (operations tx) sigs depth False [] [] = Inr ()"
    using v by (auto simp: tx_verify_authority_def res_simps)
  obtain ra ro other where r:
      "get_required_authorities operation_get_required_authorities (operations tx) ([], [], []) = (ra, ro, other)"
    by (cases "get_required_authorities operation_get_required_authorities (operations tx) ([], [], [])") auto
  have B: "given_approvals [] [] = {GRAPHENE_TEMP_ACCOUNT}" by (simp add: given_approvals_def)
  note steps = verify_authority_steps [OF a r refl B [symmetric] refl]
  have inc: "fee_payer x \<in> set ra" "set (required_owner_authorities x []) \<subseteq> set ro"
      "set (required_other_authorities x []) \<subseteq> set other"
    using required_auths_fold [OF r] x by auto
  have own: "upd_account u \<in> set (required_owner_authorities x [])"
    if "x = Account_update_op u" "is_owner_update u" for u
    using that by (simp add: required_owner_authorities_def)
  show ?thesis
    unfolding Let_def
  proof (intro exI [of _ sigs] conjI allI impI)
    show "approvable A (set sigs) {GRAPHENE_TEMP_ACCOUNT} (fee_payer x) \<or>
      satisfied A (set sigs) {GRAPHENE_TEMP_ACCOUNT} (get_owner (fee_payer x))" using steps inc(1) by blast
  qed (use k own inc steps in \<open>force simp: required_other_authorities_def\<close>)+
qed

definition sample_tx :: "(operation, public_key_type) signed_transaction" where
  "sample_tx = \<lparr>operations = [Limit_order_cancel_op
       \<lparr>fee = mk_asset 0 0, cancel_order_id = 1, loc_fee_paying_account = 10\<rparr>], signatures = [100, 101]\<rparr>"

theorem transaction_authorised_witness:
  "tx_verify_authority example_env (\<lambda>_ k. k) operation_get_required_authorities (\<lambda>_. None) (Suc (Suc 0)) sample_tx = Inr () \<and>
   approvable example_env {100, 101} {GRAPHENE_TEMP_ACCOUNT} 10"
proof -
  let ?x = "Limit_order_cancel_op \<lparr>fee = mk_asset 0 0, cancel_order_id = 1, loc_fee_paying_account = 10\<rparr>"
  have k: "get_signature_keys (\<lambda>_ k. k) sample_tx = Inr [100, 101]"
    by (simp add: get_signature_keys_def sample_tx_def)
  have v: "tx_verify_authority example_env (\<lambda>_ k. k) operation_get_required_authorities (\<lambda>_. None) (Suc (Suc 0)) sample_tx = Inr ()"
    unfolding tx_verify_authority_def k
    by (simp add: sample_tx_def verify_authority_def get_required_authorities_def operation_get_required_authorities_def
        required_active_authorities_def required_owner_authorities_def required_other_authorities_def make_sign_state_def
        GRAPHENE_TEMP_ACCOUNT_def GRAPHENE_COMMITTEE_ACCOUNT_def check_active_def check_account_def
        check_authority_body_def account_approves_def signed_by_key_def mark_used_def remove_unused_signatures_def
        example_env_def example_active_def Let_def)
  have x: "?x \<in> set (operations sample_tx)" by (simp add: sample_tx_def)
  from transaction_authorised [OF v x] show ?thesis
    using v k by (simp add: satisfied_def)
qed

end
